(* ===== verification/Build_State.thy ===== *)
theory Build_State
  imports Prelude "HOL-Library.Word"
begin

text \<open>
  The life-cycle states of a derivation build.  The enum exists twice in the
  program: in \<open>shared/src/types/build_state.rs\<close>, used by the dependency graph,
  and in \<open>server/src/db/model/build_event.rs\<close>, used by the database layer and
  the scheduler.  The second is modelled with the constructor prefix \<open>Local\<close>,
  the alias the conversion functions of \<open>server/src/db/graph_impl.rs\<close> give it.
  The database stores a state as a signed byte.
\<close>

section \<open>The shared enums\<close>

datatype DrvBuildResult = Success | Failure

datatype DrvBuildInterruptionKind = OutOfMemory | Timeout | Cancelled | ProcessDeath | SchedulerDeath

datatype DrvBuildState =
    Queued
  | Buildable
  | FailedRetry
  | Building
  | Completed DrvBuildResult
  | Interrupted DrvBuildInterruptionKind
  | TransitiveFailure
  | Blocked
  | UnsatisfiableRequirements

fun is_failure :: "DrvBuildState \<Rightarrow> bool" where
  "is_failure (Completed Failure) = True"
| "is_failure TransitiveFailure = True"
| "is_failure (Interrupted _) = True"
| "is_failure UnsatisfiableRequirements = True"
| "is_failure _ = False"

fun is_terminal :: "DrvBuildState \<Rightarrow> bool" where
  "is_terminal (Completed _) = True"
| "is_terminal TransitiveFailure = True"
| "is_terminal (Interrupted _) = True"
| "is_terminal UnsatisfiableRequirements = True"
| "is_terminal _ = False"

definition from_str_names :: "(string list \<times> DrvBuildState) list" where
  "from_str_names =
     [([''queued''], Queued),
      ([''buildable''], Buildable),
      ([''failedretry'', ''failed_retry''], FailedRetry),
      ([''building''], Building),
      ([''transitivefailure'', ''transitive_failure''], TransitiveFailure),
      ([''blocked''], Blocked),
      ([''unsatisfiablerequirements'', ''unsatisfiable_requirements''], UnsatisfiableRequirements),
      ([''success''], Completed Success),
      ([''failure''], Completed Failure)]"

definition from_str_error :: "string \<Rightarrow> string" where
  "from_str_error s =
     ''Invalid build state '' @ [CHR 0x27] @ s @ [CHR 0x27] @
     ''. Valid states: queued, buildable, failed_retry, building, success, failure, transitive_failure, blocked, unsatisfiable_requirements''"

definition DrvBuildState_from_str :: "string \<Rightarrow> (string, DrvBuildState) result" where
  "DrvBuildState_from_str s =
     (case find (\<lambda>(names, st). to_lowercase s \<in> set names) from_str_names of
        Some (_, st) \<Rightarrow> Inr st
      | None \<Rightarrow> Inl (from_str_error s))"

fun as_result :: "DrvBuildResult \<Rightarrow> (unit, unit) result" where
  "as_result Success = Inr ()"
| "as_result Failure = Inl ()"

fun is_retryable :: "DrvBuildInterruptionKind \<Rightarrow> bool" where
  "is_retryable OutOfMemory = True"
| "is_retryable Timeout = True"
| "is_retryable ProcessDeath = True"
| "is_retryable _ = False"

section \<open>The enums of the database layer\<close>

datatype LocalResult = LocalSuccess | LocalFailure

datatype LocalInterrupt =
  LocalOutOfMemory | LocalTimeout | LocalCancelled | LocalProcessDeath | LocalSchedulerDeath

datatype LocalState =
    LocalQueued
  | LocalBuildable
  | LocalFailedRetry
  | LocalBuilding
  | LocalCompleted LocalResult
  | LocalInterrupted LocalInterrupt
  | LocalTransitiveFailure
  | LocalBlocked
  | LocalUnsatisfiableRequirements

fun local_is_failure :: "LocalState \<Rightarrow> bool" where
  "local_is_failure (LocalCompleted LocalFailure) = True"
| "local_is_failure LocalTransitiveFailure = True"
| "local_is_failure (LocalInterrupted _) = True"
| "local_is_failure LocalUnsatisfiableRequirements = True"
| "local_is_failure _ = False"

fun local_is_terminal :: "LocalState \<Rightarrow> bool" where
  "local_is_terminal (LocalCompleted _) = True"
| "local_is_terminal LocalTransitiveFailure = True"
| "local_is_terminal (LocalInterrupted _) = True"
| "local_is_terminal LocalUnsatisfiableRequirements = True"
| "local_is_terminal _ = False"

fun local_is_retryable :: "LocalInterrupt \<Rightarrow> bool" where
  "local_is_retryable LocalOutOfMemory = True"
| "local_is_retryable LocalTimeout = True"
| "local_is_retryable LocalProcessDeath = True"
| "local_is_retryable _ = False"

definition local_from_str_names :: "(string list \<times> LocalState) list" where
  "local_from_str_names =
     [([''queued''], LocalQueued),
      ([''buildable''], LocalBuildable),
      ([''failedretry'', ''failed_retry''], LocalFailedRetry),
      ([''building''], LocalBuilding),
      ([''transitivefailure'', ''transitive_failure''], LocalTransitiveFailure),
      ([''blocked''], LocalBlocked),
      ([''unsatisfiablerequirements'', ''unsatisfiable_requirements''], LocalUnsatisfiableRequirements),
      ([''success''], LocalCompleted LocalSuccess),
      ([''failure''], LocalCompleted LocalFailure)]"

definition local_from_str :: "string \<Rightarrow> (string, LocalState) result" where
  "local_from_str s =
     (case find (\<lambda>(names, st). to_lowercase s \<in> set names) local_from_str_names of
        Some (_, st) \<Rightarrow> Inr st
      | None \<Rightarrow> Inl (from_str_error s))"

text \<open>\<open>DrvBuildStateRepr\<close>: an \<open>i8\<close> with explicit discriminants.\<close>

datatype DrvBuildStateRepr =
    ReprQueued | ReprBuildable | ReprFailedRetry | ReprBuilding | ReprCompletedSuccess
  | ReprCompletedFailure | ReprTransitiveFailure | ReprInterruptedOutOfMemory
  | ReprInterruptedTimeout | ReprInterruptedCancelled | ReprInterruptedProcessDeath
  | ReprInterruptedSchedulerDeath | ReprBlocked | ReprUnsatisfiableRequirements

fun repr_discriminant :: "DrvBuildStateRepr \<Rightarrow> 8 word" where
  "repr_discriminant ReprQueued = 0"
| "repr_discriminant ReprBuildable = 1"
| "repr_discriminant ReprFailedRetry = 2"
| "repr_discriminant ReprBuilding = 7"
| "repr_discriminant ReprCompletedSuccess = 42"
| "repr_discriminant ReprCompletedFailure = -1"
| "repr_discriminant ReprTransitiveFailure = -2"
| "repr_discriminant ReprInterruptedOutOfMemory = -104"
| "repr_discriminant ReprInterruptedTimeout = -120"
| "repr_discriminant ReprInterruptedCancelled = -86"
| "repr_discriminant ReprInterruptedProcessDeath = -66"
| "repr_discriminant ReprInterruptedSchedulerDeath = -13"
| "repr_discriminant ReprBlocked = 100"
| "repr_discriminant ReprUnsatisfiableRequirements = -3"

definition all_reprs :: "DrvBuildStateRepr list" where
  "all_reprs =
     [ReprQueued, ReprBuildable, ReprFailedRetry, ReprBuilding, ReprCompletedSuccess,
      ReprCompletedFailure, ReprTransitiveFailure, ReprInterruptedOutOfMemory,
      ReprInterruptedTimeout, ReprInterruptedCancelled, ReprInterruptedProcessDeath,
      ReprInterruptedSchedulerDeath, ReprBlocked, ReprUnsatisfiableRequirements]"

definition repr_of_discriminant :: "8 word \<Rightarrow> DrvBuildStateRepr option" where
  "repr_of_discriminant w = find (\<lambda>r. repr_discriminant r = w) all_reprs"

fun repr_from_state :: "LocalState \<Rightarrow> DrvBuildStateRepr" where
  "repr_from_state LocalQueued = ReprQueued"
| "repr_from_state LocalBuildable = ReprBuildable"
| "repr_from_state LocalFailedRetry = ReprFailedRetry"
| "repr_from_state LocalBuilding = ReprBuilding"
| "repr_from_state (LocalCompleted LocalSuccess) = ReprCompletedSuccess"
| "repr_from_state (LocalCompleted LocalFailure) = ReprCompletedFailure"
| "repr_from_state LocalTransitiveFailure = ReprTransitiveFailure"
| "repr_from_state (LocalInterrupted LocalOutOfMemory) = ReprInterruptedOutOfMemory"
| "repr_from_state (LocalInterrupted LocalTimeout) = ReprInterruptedTimeout"
| "repr_from_state (LocalInterrupted LocalCancelled) = ReprInterruptedCancelled"
| "repr_from_state (LocalInterrupted LocalProcessDeath) = ReprInterruptedProcessDeath"
| "repr_from_state (LocalInterrupted LocalSchedulerDeath) = ReprInterruptedSchedulerDeath"
| "repr_from_state LocalBlocked = ReprBlocked"
| "repr_from_state LocalUnsatisfiableRequirements = ReprUnsatisfiableRequirements"

datatype GHStatus = GHQueued | GHInProgress | GHCompleted

datatype GHConclusion = GHSuccess | GHFailure | GHTimedOut | GHNeutral | GHActionRequired

fun as_gh_checkrun_state :: "LocalState \<Rightarrow> GHStatus \<times> GHConclusion option" where
  "as_gh_checkrun_state LocalQueued = (GHQueued, None)"
| "as_gh_checkrun_state LocalBuildable = (GHQueued, None)"
| "as_gh_checkrun_state LocalFailedRetry = (GHInProgress, None)"
| "as_gh_checkrun_state LocalBuilding = (GHInProgress, None)"
| "as_gh_checkrun_state (LocalCompleted LocalSuccess) = (GHCompleted, Some GHSuccess)"
| "as_gh_checkrun_state (LocalCompleted LocalFailure) = (GHCompleted, Some GHFailure)"
| "as_gh_checkrun_state LocalTransitiveFailure = (GHCompleted, Some GHFailure)"
| "as_gh_checkrun_state (LocalInterrupted LocalOutOfMemory) = (GHCompleted, Some GHFailure)"
| "as_gh_checkrun_state (LocalInterrupted LocalTimeout) = (GHCompleted, Some GHTimedOut)"
| "as_gh_checkrun_state (LocalInterrupted LocalCancelled) = (GHCompleted, Some GHNeutral)"
| "as_gh_checkrun_state (LocalInterrupted LocalProcessDeath) = (GHCompleted, Some GHFailure)"
| "as_gh_checkrun_state (LocalInterrupted LocalSchedulerDeath) = (GHCompleted, Some GHFailure)"
| "as_gh_checkrun_state LocalBlocked = (GHCompleted, Some GHActionRequired)"
| "as_gh_checkrun_state LocalUnsatisfiableRequirements = (GHCompleted, Some GHFailure)"

fun state_from_repr :: "DrvBuildStateRepr \<Rightarrow> LocalState" where
  "state_from_repr ReprQueued = LocalQueued"
| "state_from_repr ReprBuildable = LocalBuildable"
| "state_from_repr ReprFailedRetry = LocalFailedRetry"
| "state_from_repr ReprBuilding = LocalBuilding"
| "state_from_repr ReprCompletedSuccess = LocalCompleted LocalSuccess"
| "state_from_repr ReprCompletedFailure = LocalCompleted LocalFailure"
| "state_from_repr ReprTransitiveFailure = LocalTransitiveFailure"
| "state_from_repr ReprInterruptedOutOfMemory = LocalInterrupted LocalOutOfMemory"
| "state_from_repr ReprInterruptedTimeout = LocalInterrupted LocalTimeout"
| "state_from_repr ReprInterruptedCancelled = LocalInterrupted LocalCancelled"
| "state_from_repr ReprInterruptedProcessDeath = LocalInterrupted LocalProcessDeath"
| "state_from_repr ReprInterruptedSchedulerDeath = LocalInterrupted LocalSchedulerDeath"
| "state_from_repr ReprBlocked = LocalBlocked"
| "state_from_repr ReprUnsatisfiableRequirements = LocalUnsatisfiableRequirements"

definition encode_state :: "LocalState \<Rightarrow> 8 word" where
  "encode_state s = repr_discriminant (repr_from_state s)"

definition decode_state :: "8 word \<Rightarrow> LocalState option" where
  "decode_state w = map_option state_from_repr (repr_of_discriminant w)"

section \<open>Conversions between the two\<close>

fun convert_build_state :: "LocalState \<Rightarrow> DrvBuildState" where
  "convert_build_state LocalQueued = Queued"
| "convert_build_state LocalBuildable = Buildable"
| "convert_build_state LocalFailedRetry = FailedRetry"
| "convert_build_state LocalBuilding = Building"
| "convert_build_state (LocalCompleted LocalSuccess) = Completed Success"
| "convert_build_state (LocalCompleted LocalFailure) = Completed Failure"
| "convert_build_state (LocalInterrupted LocalCancelled) = Interrupted Cancelled"
| "convert_build_state (LocalInterrupted LocalTimeout) = Interrupted Timeout"
| "convert_build_state (LocalInterrupted LocalOutOfMemory) = Interrupted OutOfMemory"
| "convert_build_state (LocalInterrupted LocalProcessDeath) = Interrupted ProcessDeath"
| "convert_build_state (LocalInterrupted LocalSchedulerDeath) = Interrupted SchedulerDeath"
| "convert_build_state LocalTransitiveFailure = TransitiveFailure"
| "convert_build_state LocalBlocked = Blocked"
| "convert_build_state LocalUnsatisfiableRequirements = UnsatisfiableRequirements"

fun convert_build_state_back :: "DrvBuildState \<Rightarrow> LocalState" where
  "convert_build_state_back Queued = LocalQueued"
| "convert_build_state_back Buildable = LocalBuildable"
| "convert_build_state_back FailedRetry = LocalFailedRetry"
| "convert_build_state_back Building = LocalBuilding"
| "convert_build_state_back (Completed Success) = LocalCompleted LocalSuccess"
| "convert_build_state_back (Completed Failure) = LocalCompleted LocalFailure"
| "convert_build_state_back (Interrupted Cancelled) = LocalInterrupted LocalCancelled"
| "convert_build_state_back (Interrupted Timeout) = LocalInterrupted LocalTimeout"
| "convert_build_state_back (Interrupted OutOfMemory) = LocalInterrupted LocalOutOfMemory"
| "convert_build_state_back (Interrupted ProcessDeath) = LocalInterrupted LocalProcessDeath"
| "convert_build_state_back (Interrupted SchedulerDeath) = LocalInterrupted LocalSchedulerDeath"
| "convert_build_state_back TransitiveFailure = LocalTransitiveFailure"
| "convert_build_state_back Blocked = LocalBlocked"
| "convert_build_state_back UnsatisfiableRequirements = LocalUnsatisfiableRequirements"

section \<open>Lemmas\<close>

text \<open>Exhaustive case analysis over the flattened states comes from the functions' own case rules.\<close>

lemmas LocalState_flat_cases = repr_from_state.cases

lemmas DrvBuildState_flat_cases = convert_build_state_back.cases

lemma is_failure_iff:
  "is_failure s \<longleftrightarrow> s = Completed Failure \<or> s = TransitiveFailure \<or> (\<exists>k. s = Interrupted k) \<or> s = UnsatisfiableRequirements"
  by (cases s rule: is_failure.cases) auto

lemma is_terminal_iff: "is_terminal s \<longleftrightarrow> is_failure s \<or> s = Completed Success"
  by (cases s rule: DrvBuildState_flat_cases) auto

lemma repr_from_state_inverse [simp]: "state_from_repr (repr_from_state s) = s"
  by (cases s rule: LocalState_flat_cases) auto

lemma state_from_repr_inverse [simp]: "repr_from_state (state_from_repr r) = r"
  by (cases r) auto

lemma all_reprs_complete [simp]: "r \<in> set all_reprs"
  by (cases r) (auto simp: all_reprs_def)

lemma repr_of_discriminant_repr [simp]: "repr_of_discriminant (repr_discriminant r) = Some r"
  by (cases r) (simp_all add: repr_of_discriminant_def all_reprs_def)

lemma repr_of_discriminant_Some: "repr_of_discriminant w = Some r \<longleftrightarrow> repr_discriminant r = w"
  by (auto simp: repr_of_discriminant_def[of w] find_Some_iff dest: nth_mem)
    (metis repr_of_discriminant_repr repr_of_discriminant_def find_Some_iff)

lemma local_terminal_convert [simp]: "is_terminal (convert_build_state s) = local_is_terminal s"
  by (cases s rule: LocalState_flat_cases) auto

lemma local_failure_convert [simp]: "is_failure (convert_build_state s) = local_is_failure s"
  by (cases s rule: LocalState_flat_cases) auto

lemma convert_inverse [simp]: "convert_build_state_back (convert_build_state s) = s"
  by (cases s rule: LocalState_flat_cases) auto

lemma convert_back_inverse [simp]: "convert_build_state (convert_build_state_back s) = s"
  by (cases s rule: DrvBuildState_flat_cases) auto

section \<open>Properties\<close>

text \<open>A build state survives being stored as a signed byte and read back, and a
  byte decodes exactly when it is the code of some state, which it then
  decodes to (no two states share a code).\<close>

theorem state_codec_roundtrip:
  "decode_state (encode_state s) = Some s \<and> (decode_state w = Some s \<longleftrightarrow> w = encode_state s)"
  by (auto simp: decode_state_def encode_state_def repr_of_discriminant_Some)

end
