(* ===== verification/Drv_Id.thy ===== *)
theory Drv_Id
  imports Prelude Build_State
begin

text \<open>
  Derivation identifiers \<open>hash-name.drv\<close>
  (\<open>shared/src/types/drv_id.rs\<close> and its twin \<open>server/src/db/model/drv_id.rs\<close>)
  and the derivation record (\<open>shared/src/types/drv.rs\<close>).  An identifier is the
  string inside the newtype; \<open>valid_drv_id\<close> is the specification of what the
  parsers let through.
\<close>

type_synonym DrvId = string

datatype InvalidDrvId = InvalidDrvId

section \<open>The shared parser\<close>

definition store_path :: "DrvId \<Rightarrow> string" where
  "store_path d = ''/nix/store/'' @ d"

text \<open>\<open>&self.0[..32]\<close> panics on a shorter string; \<^const>\<open>None\<close> is the panic.\<close>

definition drv_hash :: "DrvId \<Rightarrow> string option" where
  "drv_hash d = (if 32 \<le> length d then Some (take 32 d) else None)"

definition strip_store_path :: "string \<Rightarrow> string" where
  "strip_store_path path =
     (case rsplit_once (CHR ''/'') path of
        Some (_, file_name) \<Rightarrow> file_name
      | None \<Rightarrow> path)"

definition NIX_BASE32_ALPHABET :: "char list" where
  "NIX_BASE32_ALPHABET = ''0123456789abcdfghijklmnpqrsvwxyz''"

definition DRV_ID_MAX_LEN :: nat where
  "DRV_ID_MAX_LEN = 211"

definition is_valid_name_byte :: "char \<Rightarrow> bool" where
  "is_valid_name_byte b = (is_ascii_alphanumeric b \<or> b \<in> set ''+-._?='')"

definition DrvId_try_from :: "string \<Rightarrow> (InvalidDrvId, DrvId) result" where
  "DrvId_try_from value =
     (let id = strip_store_path value in
      if id = [] \<or> DRV_ID_MAX_LEN < length id then Inl InvalidDrvId
      else case rsplit_once (CHR ''.'') id of
        None \<Rightarrow> Inl InvalidDrvId
      | Some (stem, ext) \<Rightarrow>
          if ext \<noteq> ''drv'' then Inl InvalidDrvId
          else case split_once (CHR ''-'') stem of
            None \<Rightarrow> Inl InvalidDrvId
          | Some (hash, name) \<Rightarrow>
              if hash = [] \<or> name = [] then Inl InvalidDrvId
              else if length hash \<noteq> 32 then Inl InvalidDrvId
              else if \<not> list_all (\<lambda>b. b \<in> set NIX_BASE32_ALPHABET) hash then Inl InvalidDrvId
              else if \<not> list_all is_valid_name_byte name then Inl InvalidDrvId
              else Inr id)"

definition DrvId_from_str :: "string \<Rightarrow> (InvalidDrvId, DrvId) result" where
  "DrvId_from_str drv_path = DrvId_try_from drv_path"

text \<open>
  \<open>Path::file_name\<close>: the last component after empty and \<open>.\<close> components are
  dropped, unless that is \<open>..\<close> or there is none.  A name that is not UTF-8
  fails \<open>OsStr::to_str\<close> with the same error that its non-ASCII bytes give below.
\<close>

definition path_file_name :: "string \<Rightarrow> string option" where
  "path_file_name p =
     (case rev (filter (\<lambda>c. c \<noteq> [] \<and> c \<noteq> ''.'') (split_on (CHR ''/'') p)) of
        [] \<Rightarrow> None
      | c # _ \<Rightarrow> if c = ''..'' then None else Some c)"

definition DrvId_try_from_path :: "string \<Rightarrow> (InvalidDrvId, DrvId) result" where
  "DrvId_try_from_path value =
     (case path_file_name value of
        None \<Rightarrow> Inl InvalidDrvId
      | Some file_name \<Rightarrow> DrvId_try_from file_name)"

section \<open>The parser of the database layer\<close>

definition local_strip_store_path :: "string \<Rightarrow> string" where
  "local_strip_store_path path =
     (case rsplit_once (CHR ''/'') path of
        Some (_, file_name) \<Rightarrow> file_name
      | None \<Rightarrow> path)"

definition LOCAL_NIX_BASE32_ALPHABET :: "char list" where
  "LOCAL_NIX_BASE32_ALPHABET = ''0123456789abcdfghijklmnpqrsvwxyz''"

definition LOCAL_DRV_ID_MAX_LEN :: nat where
  "LOCAL_DRV_ID_MAX_LEN = 211"

definition local_is_valid_name_byte :: "char \<Rightarrow> bool" where
  "local_is_valid_name_byte b = (is_ascii_alphanumeric b \<or> b \<in> set ''+-._?='')"

definition local_DrvId_try_from :: "string \<Rightarrow> (InvalidDrvId, DrvId) result" where
  "local_DrvId_try_from value =
     (let id = local_strip_store_path value in
      if id = [] \<or> LOCAL_DRV_ID_MAX_LEN < length id then Inl InvalidDrvId
      else case rsplit_once (CHR ''.'') id of
        None \<Rightarrow> Inl InvalidDrvId
      | Some (stem, ext) \<Rightarrow>
          if ext \<noteq> ''drv'' then Inl InvalidDrvId
          else case split_once (CHR ''-'') stem of
            None \<Rightarrow> Inl InvalidDrvId
          | Some (hash, name) \<Rightarrow>
              if hash = [] \<or> name = [] then Inl InvalidDrvId
              else if length hash \<noteq> 32 then Inl InvalidDrvId
              else if \<not> list_all (\<lambda>b. b \<in> set LOCAL_NIX_BASE32_ALPHABET) hash then Inl InvalidDrvId
              else if \<not> list_all local_is_valid_name_byte name then Inl InvalidDrvId
              else Inr id)"

text \<open>
  \<open>reference_pairs\<close>: \<open>drv_references\<close> runs a Nix command; its outcome is the
  argument \<open>refs\<close>, \<^const>\<open>None\<close> when the command failed.
\<close>

definition reference_pairs :: "DrvId \<Rightarrow> string list option \<Rightarrow> (DrvId \<times> DrvId) list" where
  "reference_pairs self refs =
     concat (map (\<lambda>x. case local_DrvId_try_from x of Inr y \<Rightarrow> [(self, y)] | Inl _ \<Rightarrow> [])
       (case refs of None \<Rightarrow> [] | Some x \<Rightarrow> x))"

section \<open>The derivation record\<close>

record Drv =
  drv_path :: DrvId
  drv_system :: string
  drv_prefer_local_build :: bool
  drv_required_system_features :: "string option"
  drv_is_fod :: bool
  drv_build_state :: DrvBuildState
  drv_output_size :: "int option"
  drv_closure_size :: "int option"
  drv_pname :: "string option"
  drv_version :: "string option"
  drv_license_json :: "string option"
  drv_maintainers_json :: "string option"
  drv_meta_position :: "string option"
  drv_broken :: "bool option"
  drv_insecure :: "bool option"

definition Drv_eq :: "Drv \<Rightarrow> Drv \<Rightarrow> bool" where
  "Drv_eq a b = (drv_path a = drv_path b)"

section \<open>Lemmas\<close>

text \<open>What an identifier looks like.\<close>

definition valid_drv_id :: "string \<Rightarrow> bool" where
  "valid_drv_id d =
     (length d \<le> 211 \<and> 37 < length d \<and> list_all (\<lambda>b. b \<in> set NIX_BASE32_ALPHABET) (take 32 d) \<and>
      d ! 32 = CHR ''-'' \<and> suffix ''.drv'' d \<and>
      list_all is_valid_name_byte (drop 33 d))"

lemma strip_store_path_free: "CHR ''/'' \<notin> set (strip_store_path s)"
  using rsplit_once_None[of "CHR ''/''" s] rsplit_once_Some[of "CHR ''/''" s]
  by (auto simp: strip_store_path_def split: option.splits)

lemma strip_store_path_id: "CHR ''/'' \<notin> set s \<Longrightarrow> strip_store_path s = s"
  using rsplit_once_None[of "CHR ''/''" s] by (simp add: strip_store_path_def)

lemma strip_store_path_store_path: "CHR ''/'' \<notin> set d \<Longrightarrow> strip_store_path (store_path d) = d"
proof -
  assume "CHR ''/'' \<notin> set d"
  then have "rsplit_once (CHR ''/'') (store_path d) = Some (''/nix/store'', d)"
    unfolding rsplit_once_Some store_path_def by simp
  then show ?thesis by (simp add: strip_store_path_def)
qed

lemma alphabet_props:
  "b \<in> set NIX_BASE32_ALPHABET \<Longrightarrow> is_valid_name_byte b \<and> b \<noteq> CHR ''-''"
proof -
  have "list_all (\<lambda>b. is_valid_name_byte b \<and> b \<noteq> CHR ''-'') NIX_BASE32_ALPHABET"
    by code_simp
  then show "b \<in> set NIX_BASE32_ALPHABET \<Longrightarrow> is_valid_name_byte b \<and> b \<noteq> CHR ''-''"
    by (simp add: list_all_iff)
qed

lemma slash_not_valid: "\<not> is_valid_name_byte (CHR ''/'')"
  by (simp add: is_valid_name_byte_def is_ascii_alphanumeric_def is_ascii_digit_def
      is_ascii_upper_def is_ascii_lower_def)

lemma valid_drv_id_iff:
  "valid_drv_id d \<longleftrightarrow> (\<exists>h n. d = h @ ''-'' @ n @ ''.drv'' \<and> length h = 32 \<and> n \<noteq> [] \<and>
     list_all (\<lambda>b. b \<in> set NIX_BASE32_ALPHABET) h \<and> list_all is_valid_name_byte n \<and> length d \<le> 211)"
  (is "_ \<longleftrightarrow> ?R")
proof
  assume v: "valid_drv_id d"
  let ?h = "take 32 d"
  obtain p where p: "d = p @ ''.drv''" using v by (auto simp: valid_drv_id_def suffix_def)
  have lp: "33 < length p" using v p by (auto simp: valid_drv_id_def)
  have "p = take 32 p @ p ! 32 # drop 33 p" using lp id_take_nth_drop[of 32 p] by simp
  then have d: "d = take 32 p @ ''-'' @ drop 33 p @ ''.drv''"
    using v p lp by (auto simp: valid_drv_id_def nth_append)
  moreover have "drop 33 p \<noteq> []" using lp by simp
  moreover have "take 32 d = take 32 p" "drop 33 d = drop 33 p @ ''.drv''" using p lp by auto
  ultimately show ?R using v lp
    by (intro exI[of _ "take 32 p"] exI[of _ "drop 33 p"]) (auto simp: valid_drv_id_def)
next
  assume ?R
  then obtain h n where d: "d = h @ ''-'' @ n @ ''.drv''" and h: "length h = 32" and n: "n \<noteq> []"
    and a: "list_all (\<lambda>b. b \<in> set NIX_BASE32_ALPHABET) h" "list_all is_valid_name_byte n" "length d \<le> 211"
    by auto
  have dot: "list_all is_valid_name_byte ''.drv''"
    by (simp add: is_valid_name_byte_def is_ascii_alphanumeric_def is_ascii_lower_def)
  have sh: "take 32 d = h" "d ! 32 = CHR ''-''" "drop 33 d = n @ ''.drv''"
    using d h by (auto simp: nth_append)
  have "suffix ''.drv'' d" unfolding d by (simp add: suffix_def)
  moreover have "37 < length d" using d h n by (cases n) auto
  ultimately show "valid_drv_id d" using sh a dot by (simp add: valid_drv_id_def)
qed

lemma valid_drv_id_bytes: "valid_drv_id d \<Longrightarrow> list_all is_valid_name_byte d"
  unfolding valid_drv_id_iff
  by (auto simp: list_all_iff alphabet_props) (auto simp: is_valid_name_byte_def is_ascii_alphanumeric_def is_ascii_lower_def)

lemma valid_drv_id_no_slash: "valid_drv_id d \<Longrightarrow> CHR ''/'' \<notin> set d"
  using valid_drv_id_bytes slash_not_valid by (auto simp: list_all_iff)

lemma try_from_valid:
  assumes "valid_drv_id d" "strip_store_path s = d"
  shows "DrvId_try_from s = Inr d"
proof -
  obtain h n where d: "d = h @ ''-'' @ n @ ''.drv''" and h: "length h = 32" and n: "n \<noteq> []"
    and a: "list_all (\<lambda>b. b \<in> set NIX_BASE32_ALPHABET) h" "list_all is_valid_name_byte n" "length d \<le> 211"
    using assms(1) unfolding valid_drv_id_iff by auto
  have r: "rsplit_once (CHR ''.'') d = Some (h @ ''-'' @ n, ''drv'')"
    unfolding rsplit_once_Some by (simp add: d)
  have "CHR ''-'' \<notin> set h" using a(1) alphabet_props by (auto simp: list_all_iff)
  then have s: "split_once (CHR ''-'') (h @ ''-'' @ n) = Some (h, n)"
    unfolding split_once_Some by simp
  have "h \<noteq> []" "d \<noteq> []" using h d by auto
  then show ?thesis
    unfolding DrvId_try_from_def Let_def assms(2) r option.case prod.case s
    using h n a by (simp add: DRV_ID_MAX_LEN_def)
qed

lemma try_from_InrD:
  assumes "DrvId_try_from s = Inr d"
  shows "d = strip_store_path s \<and> valid_drv_id d"
proof -
  obtain stem h n where d: "d = strip_store_path s" "length d \<le> 211"
    and r: "rsplit_once (CHR ''.'') d = Some (stem, ''drv'')"
    and s: "split_once (CHR ''-'') stem = Some (h, n)"
    and a: "n \<noteq> []" "length h = 32" "list_all (\<lambda>b. b \<in> set NIX_BASE32_ALPHABET) h"
      "list_all is_valid_name_byte n"
    using assms
    by (auto simp: DrvId_try_from_def Let_def DRV_ID_MAX_LEN_def split: if_splits option.splits)
  have "d = h @ ''-'' @ n @ ''.drv''" using r s by (simp add: str_simps)
  with d a show ?thesis unfolding valid_drv_id_iff by blast
qed

lemma try_from_iff: "DrvId_try_from s = Inr d \<longleftrightarrow> d = strip_store_path s \<and> valid_drv_id d"
  using try_from_valid try_from_InrD by blast

lemma local_try_from_eq: "local_DrvId_try_from = DrvId_try_from"
  by (rule ext) (simp only: local_DrvId_try_from_def DrvId_try_from_def local_strip_store_path_def
      strip_store_path_def LOCAL_NIX_BASE32_ALPHABET_def NIX_BASE32_ALPHABET_def
      LOCAL_DRV_ID_MAX_LEN_def DRV_ID_MAX_LEN_def local_is_valid_name_byte_def[abs_def]
      is_valid_name_byte_def[abs_def])

lemma reference_pairs_iff:
  "(a, b) \<in> set (reference_pairs self (Some refs)) \<longleftrightarrow>
     a = self \<and> (\<exists>x\<in>set refs. b = strip_store_path x \<and> valid_drv_id b)"
  by (auto simp: reference_pairs_def local_try_from_eq try_from_iff split: sum.splits)
    (metis Inr_inject sum.exhaust try_from_iff)+

section \<open>Properties\<close>

text \<open>C31: The identifier parser accepts a string exactly when its last path segment is 32
  characters of the Nix base-32 alphabet, a dash, a non-empty name over
  \<open>[A-Za-z0-9+-._?=]\<close> and \<open>.drv\<close>, at most 211 bytes in all; what it returns is
  that segment, whose hash slice never panics and which holds no path
  separator; and rendering an identifier as a store path and parsing it again
  gives it back, in both copies of the parser.\<close>

theorem DrvId_try_from_exact:
  "(DrvId_try_from s = Inr d \<longleftrightarrow>
      d = strip_store_path s \<and> length d \<le> 211 \<and>
      (\<exists>h n. d = h @ ''-'' @ n @ ''.drv'' \<and> length h = 32 \<and> n \<noteq> [] \<and>
        list_all (\<lambda>b. b \<in> set NIX_BASE32_ALPHABET) h \<and> list_all is_valid_name_byte n)) \<and>
   (DrvId_try_from s = Inr d \<longrightarrow>
      drv_hash d = Some (take 32 d) \<and> CHR ''/'' \<notin> set d \<and>
      DrvId_try_from (store_path d) = Inr d \<and> local_DrvId_try_from (store_path d) = Inr d)"
proof (intro conjI impI)
  show "DrvId_try_from s = Inr d \<longleftrightarrow>
      d = strip_store_path s \<and> length d \<le> 211 \<and>
      (\<exists>h n. d = h @ ''-'' @ n @ ''.drv'' \<and> length h = 32 \<and> n \<noteq> [] \<and>
        list_all (\<lambda>b. b \<in> set NIX_BASE32_ALPHABET) h \<and> list_all is_valid_name_byte n)"
    unfolding try_from_iff valid_drv_id_iff by blast
next
  assume "DrvId_try_from s = Inr d"
  then have v: "valid_drv_id d" unfolding try_from_iff by (rule conjunct2)
  then show "drv_hash d = Some (take 32 d)" by (simp add: drv_hash_def valid_drv_id_def)
  show ns: "CHR ''/'' \<notin> set d" using v by (rule valid_drv_id_no_slash)
  show "DrvId_try_from (store_path d) = Inr d"
    using v strip_store_path_store_path[OF ns] by (simp only: try_from_iff)
  then show "local_DrvId_try_from (store_path d) = Inr d" by (simp add: local_try_from_eq)
qed

theorem DrvId_try_from_exact_witness:
  "DrvId_try_from ''/nix/store/jd83l3jn2mkn530lgcg0y523jq5qji85-hello-2.12.1.drv''
     = Inr ''jd83l3jn2mkn530lgcg0y523jq5qji85-hello-2.12.1.drv'' \<and>
   drv_hash ''jd83l3jn2mkn530lgcg0y523jq5qji85-hello-2.12.1.drv''
     = Some ''jd83l3jn2mkn530lgcg0y523jq5qji85''"
proof -
  have "DrvId_try_from ''/nix/store/jd83l3jn2mkn530lgcg0y523jq5qji85-hello-2.12.1.drv''
     = Inr ''jd83l3jn2mkn530lgcg0y523jq5qji85-hello-2.12.1.drv''"
    by code_simp
  with DrvId_try_from_exact[of "''/nix/store/jd83l3jn2mkn530lgcg0y523jq5qji85-hello-2.12.1.drv''"
      "''jd83l3jn2mkn530lgcg0y523jq5qji85-hello-2.12.1.drv''"]
  show ?thesis by simp
qed

end
