(* ===== verification/Lru_Cache.thy ===== *)
theory Lru_Cache
  imports Prelude
begin

text \<open>
  The interface of the third-party \<open>lru\<close> crate as the graph uses it.  The crate
  is not part of the repository, so its operations are a parameter: the record
  \<open>lru_ops\<close> holds the methods the graph calls, and the locale \<open>lru_cache\<close> states
  their documented behaviour.  \<open>lru_iter\<close> lists the entries from the most to
  the least recently used.  Writing through the reference that \<open>peek_mut\<close>
  returns is \<open>lru_poke\<close>.  A list-based cache shows that the laws can hold.
\<close>

record ('k, 'v, 'c) lru_ops =
  lru_new :: "nat \<Rightarrow> 'c"
  lru_cap :: "'c \<Rightarrow> nat"
  lru_iter :: "'c \<Rightarrow> ('k \<times> 'v) list"
  lru_peek :: "'c \<Rightarrow> 'k \<Rightarrow> 'v option"
  lru_poke :: "'c \<Rightarrow> 'k \<Rightarrow> 'v \<Rightarrow> 'c"
  lru_push :: "'c \<Rightarrow> 'k \<Rightarrow> 'v \<Rightarrow> 'c \<times> ('k \<times> 'v) option"

definition lru_contains :: "('k, 'v, 'c) lru_ops \<Rightarrow> 'c \<Rightarrow> 'k \<Rightarrow> bool" where
  "lru_contains L c k = (lru_peek L c k \<noteq> None)"

definition lru_len :: "('k, 'v, 'c) lru_ops \<Rightarrow> 'c \<Rightarrow> nat" where
  "lru_len L c = length (lru_iter L c)"

text \<open>\<open>if let Some(x) = cache.peek_mut(k) { *x = f(x) }\<close>\<close>

definition lru_modify :: "('k, 'v, 'c) lru_ops \<Rightarrow> 'k \<Rightarrow> ('v \<Rightarrow> 'v) \<Rightarrow> 'c \<Rightarrow> 'c" where
  "lru_modify L k f c =
     (case lru_peek L c k of None \<Rightarrow> c | Some v \<Rightarrow> lru_poke L c k (f v))"

locale lru_cache =
  fixes L :: "('k, 'v, 'c) lru_ops"
    and invar :: "'c \<Rightarrow> bool"
  assumes invar_new: "0 < n \<Longrightarrow> invar (lru_new L n)"
    and iter_new: "0 < n \<Longrightarrow> lru_iter L (lru_new L n) = []"
    and cap_new: "0 < n \<Longrightarrow> lru_cap L (lru_new L n) = n"
    and distinct_iter: "invar c \<Longrightarrow> distinct (map fst (lru_iter L c))"
    and peek_iter: "invar c \<Longrightarrow> lru_peek L c k = map_of (lru_iter L c) k"
    and cap_bound: "invar c \<Longrightarrow> length (lru_iter L c) \<le> lru_cap L c \<and> 0 < lru_cap L c"
    and invar_poke: "invar c \<Longrightarrow> lru_peek L c k \<noteq> None \<Longrightarrow> invar (lru_poke L c k v)"
    and cap_poke: "invar c \<Longrightarrow> lru_peek L c k \<noteq> None \<Longrightarrow> lru_cap L (lru_poke L c k v) = lru_cap L c"
    and iter_poke: "invar c \<Longrightarrow> lru_peek L c k \<noteq> None \<Longrightarrow>
      lru_iter L (lru_poke L c k v) = map (\<lambda>(k', v'). (k', if k' = k then v else v')) (lru_iter L c)"
    and invar_push: "invar c \<Longrightarrow> invar (fst (lru_push L c k v))"
    and cap_push: "invar c \<Longrightarrow> lru_cap L (fst (lru_push L c k v)) = lru_cap L c"
    and push_present: "invar c \<Longrightarrow> lru_peek L c k = Some w \<Longrightarrow>
      snd (lru_push L c k v) = Some (k, w) \<and>
      lru_iter L (fst (lru_push L c k v)) = (k, v) # filter (\<lambda>e. fst e \<noteq> k) (lru_iter L c)"
    and push_room: "invar c \<Longrightarrow> lru_peek L c k = None \<Longrightarrow> length (lru_iter L c) < lru_cap L c \<Longrightarrow>
      snd (lru_push L c k v) = None \<and> lru_iter L (fst (lru_push L c k v)) = (k, v) # lru_iter L c"
    and push_full: "invar c \<Longrightarrow> lru_peek L c k = None \<Longrightarrow> length (lru_iter L c) = lru_cap L c \<Longrightarrow>
      snd (lru_push L c k v) = Some (last (lru_iter L c)) \<and>
      lru_iter L (fst (lru_push L c k v)) = (k, v) # butlast (lru_iter L c)"
begin

lemma peek_new: "0 < n \<Longrightarrow> lru_peek L (lru_new L n) k = None"
  by (simp add: peek_iter invar_new iter_new)

lemma invar_modify: "invar c \<Longrightarrow> invar (lru_modify L k f c)"
  by (auto simp: lru_modify_def intro: invar_poke split: option.splits)

lemma cap_modify: "invar c \<Longrightarrow> lru_cap L (lru_modify L k f c) = lru_cap L c"
  by (auto simp: lru_modify_def cap_poke split: option.splits)

lemma map_of_map_upd:
  "map_of (map (\<lambda>(k', v'). (k', if k' = k then v else v')) xs) k'' =
     (if k'' = k then map_option (\<lambda>_. v) (map_of xs k'') else map_of xs k'')"
  by (induction xs) auto

lemma peek_modify:
  "invar c \<Longrightarrow> lru_peek L (lru_modify L k f c) k' =
     (if k' = k then map_option f (lru_peek L c k') else lru_peek L c k')"
  by (auto simp: lru_modify_def peek_iter invar_poke iter_poke map_of_map_upd split: option.splits)

lemma peek_poke:
  "invar c \<Longrightarrow> lru_peek L c k = Some v \<Longrightarrow>
   lru_peek L (lru_poke L c k w) k' = (if k' = k then Some w else lru_peek L c k')"
  using peek_modify[of c k "\<lambda>_. w" k'] by (auto simp: lru_modify_def)

lemma len_modify: "invar c \<Longrightarrow> length (lru_iter L (lru_modify L k f c)) = length (lru_iter L c)"
  by (auto simp: lru_modify_def iter_poke split: option.splits)

lemma finite_keys: "invar c \<Longrightarrow> finite {k. lru_peek L c k \<noteq> None}"
  using finite_dom_map_of[of "lru_iter L c"] by (simp add: peek_iter dom_def)

lemma push_cases:
  assumes "invar c"
  obtains (present) w where "lru_peek L c k = Some w" "snd (lru_push L c k v) = Some (k, w)"
      "lru_iter L (fst (lru_push L c k v)) = (k, v) # filter (\<lambda>e. fst e \<noteq> k) (lru_iter L c)"
  | (room) "lru_peek L c k = None" "snd (lru_push L c k v) = None"
      "lru_iter L (fst (lru_push L c k v)) = (k, v) # lru_iter L c"
  | (full) "lru_peek L c k = None" "length (lru_iter L c) = lru_cap L c"
      "snd (lru_push L c k v) = Some (last (lru_iter L c))" "lru_iter L c \<noteq> []"
      "lru_iter L (fst (lru_push L c k v)) = (k, v) # butlast (lru_iter L c)"
proof (cases "lru_peek L c k")
  case (Some w)
  then show ?thesis using present push_present[OF assms Some, of v] by simp
next
  case None
  show ?thesis
  proof (cases "length (lru_iter L c) < lru_cap L c")
    case True
    then show ?thesis using room None push_room[OF assms None True, of v] by simp
  next
    case False
    then have f: "length (lru_iter L c) = lru_cap L c" using cap_bound[OF assms] by simp
    moreover have "lru_iter L c \<noteq> []" using f cap_bound[OF assms] by auto
    ultimately show ?thesis using full None push_full[OF assms None f, of v] by simp
  qed
qed

lemma map_of_filter_other: "map_of (filter (\<lambda>e. fst e \<noteq> k) xs) k' = (if k' = k then None else map_of xs k')"
  by (induction xs) auto

lemma map_of_butlast:
  "xs \<noteq> [] \<Longrightarrow> distinct (map fst xs) \<Longrightarrow>
   map_of (butlast xs) k' = (if k' = fst (last xs) then None else map_of xs k')"
proof (induction xs rule: rev_induct)
  case (snoc x xs)
  then have "map_of xs (fst x) = None" by (auto simp: map_of_eq_None_iff)
  then show ?case by (cases x) (auto simp: map_add_def split: option.splits)
qed simp

text \<open>A push stores the new entry; the entry it returns is the only one that goes.\<close>

lemma peek_push:
  assumes "invar c"
  shows "lru_peek L (fst (lru_push L c k v)) k' =
    (if k' = k then Some v
     else case snd (lru_push L c k v) of
       Some (e, _) \<Rightarrow> if k' = e then None else lru_peek L c k'
     | None \<Rightarrow> lru_peek L c k')"
  using assms
proof (cases rule: push_cases[of c k v])
  case (full)
  then show ?thesis
    using assms distinct_iter[OF assms]
    by (auto simp: peek_iter invar_push map_of_butlast split: prod.splits)
qed (use assms in \<open>auto simp: peek_iter invar_push map_of_filter_other\<close>)

lemma push_evicted:
  assumes "invar c" "snd (lru_push L c k v) = Some (e, w)"
  shows "lru_peek L c e = Some w"
  using assms(1)
proof (cases rule: push_cases[of c k v])
  case full
  then have "(e, w) \<in> set (lru_iter L c)" using assms(2) last_in_set by force
  then show ?thesis using distinct_iter[OF assms(1)] by (simp add: peek_iter assms(1))
qed (use assms in auto)

end

section \<open>A list-based cache\<close>

type_synonym ('k, 'v) list_lru = "nat \<times> ('k \<times> 'v) list"

definition list_lru_push :: "('k, 'v) list_lru \<Rightarrow> 'k \<Rightarrow> 'v \<Rightarrow> ('k, 'v) list_lru \<times> ('k \<times> 'v) option" where
  "list_lru_push c k v = (case c of (n, es) \<Rightarrow>
     (case map_of es k of
        Some w \<Rightarrow> ((n, (k, v) # filter (\<lambda>e. fst e \<noteq> k) es), Some (k, w))
      | None \<Rightarrow>
          if length es < n then ((n, (k, v) # es), None)
          else ((n, (k, v) # butlast es), Some (last es))))"

definition list_lru :: "('k, 'v, ('k, 'v) list_lru) lru_ops" where
  "list_lru =
     \<lparr> lru_new = (\<lambda>n. (n, [])),
       lru_cap = fst,
       lru_iter = snd,
       lru_peek = (\<lambda>c k. map_of (snd c) k),
       lru_poke = (\<lambda>c k v. (fst c, map (\<lambda>(k', v'). (k', if k' = k then v else v')) (snd c))),
       lru_push = list_lru_push \<rparr>"

definition list_lru_invar :: "('k, 'v) list_lru \<Rightarrow> bool" where
  "list_lru_invar c = (0 < fst c \<and> length (snd c) \<le> fst c \<and> distinct (map fst (snd c)))"

lemma fst_map_upd: "map fst (map (\<lambda>(k', v'). (k', if k' = k then v else v')) xs) = map fst xs"
  by (induction xs) auto

lemma filter_other_less: "map_of es k = Some w \<Longrightarrow> length (filter (\<lambda>e. fst e \<noteq> k) es) < length es"
  by (rule length_filter_less[of "(k, w)"]) (auto dest: map_of_SomeD)

lemma distinct_butlast_keys: "distinct (map fst es) \<Longrightarrow> distinct (map fst (butlast es))"
  by (simp add: map_butlast distinct_butlast)

lemma list_lru_push_invar:
  assumes "list_lru_invar c"
  shows "list_lru_invar (fst (list_lru_push c k v))"
proof (cases c)
  case (Pair n es)
  show ?thesis
  proof (cases "map_of es k")
    case None
    then have "k \<notin> fst ` set es" "k \<notin> fst ` set (butlast es)"
      by (auto simp: map_of_eq_None_iff dest: in_set_butlastD)
    then show ?thesis using None assms Pair
      by (auto simp: list_lru_invar_def list_lru_push_def distinct_butlast_keys)
  next
    case (Some w)
    then show ?thesis using assms Pair filter_other_less[OF Some]
      by (auto simp: list_lru_invar_def list_lru_push_def distinct_map_filter)
  qed
qed

lemma list_lru_sel [simp]:
  "lru_new list_lru n = (n, [])" "lru_cap list_lru c = fst c" "lru_iter list_lru c = snd c"
  "lru_peek list_lru c k = map_of (snd c) k"
  "lru_poke list_lru c k v = (fst c, map (\<lambda>(k', v'). (k', if k' = k then v else v')) (snd c))"
  "lru_push list_lru c k v = list_lru_push c k v"
  by (simp_all add: list_lru_def)

interpretation list_lru: lru_cache list_lru list_lru_invar
proof (unfold_locales, goal_cases)
  case (7 c k v)
  then show ?case by (simp add: list_lru_invar_def fst_map_upd del: map_map)
next
  case (10 c k v)
  then show ?case by (simp add: list_lru_push_invar)
qed (auto simp: list_lru_invar_def list_lru_push_def split: prod.splits option.splits)

end
