(* ===== verification/Search.thy ===== *)
theory Search
  imports Prelude "HOL-Library.While_Combinator"
begin

text \<open>
  The breadth-first search that the program repeats in several places (over
  the graph's dependents and over references in the recorder): a \<open>visited\<close>
  hash set, a FIFO queue, and a successor function.  The loop is a
  \<^const>\<open>while\<close>; the lemmas show that it stops when finitely many nodes are
  reachable, and that it collects exactly the reachable ones.
\<close>

fun bfs_visit :: "'a list \<Rightarrow> 'a list \<times> 'a list \<Rightarrow> 'a list \<times> 'a list" where
  "bfs_visit [] vq = vq"
| "bfs_visit (d # ds) (v, q) =
     (if d \<in> set v then bfs_visit ds (v, q) else bfs_visit ds (v @ [d], q @ [d]))"

fun bfs_step :: "('a \<Rightarrow> 'a list) \<Rightarrow> 'a list \<times> 'a list \<Rightarrow> 'a list \<times> 'a list" where
  "bfs_step succ (v, []) = (v, [])"
| "bfs_step succ (v, current # q) = bfs_visit (succ current) (v, q)"

definition bfs_pending :: "'a list \<times> 'a list \<Rightarrow> bool" where
  "bfs_pending vq = (snd vq \<noteq> [])"

definition bfs :: "('a \<Rightarrow> 'a list) \<Rightarrow> 'a list \<Rightarrow> 'a list \<Rightarrow> 'a list" where
  "bfs succ v q = fst (while bfs_pending (bfs_step succ) (v, q))"

definition succ_rel :: "('a \<Rightarrow> 'a list) \<Rightarrow> ('a \<times> 'a) set" where
  "succ_rel succ = {(x, y). y \<in> set (succ x)}"

abbreviation reach :: "('a \<Rightarrow> 'a list) \<Rightarrow> 'a set \<Rightarrow> 'a set" where
  "reach succ S \<equiv> (succ_rel succ)\<^sup>* `` S"

lemma bfs_visit_spec:
  assumes "bfs_visit ds (v, q) = (v', q')"
  shows "\<exists>new. v' = v @ new \<and> q' = q @ new \<and> set v' = set v \<union> set ds \<and> (distinct v \<longrightarrow> distinct v')"
  using assms
proof (induction ds arbitrary: v q)
  case (Cons d ds)
  show ?case
  proof (cases "d \<in> set v")
    case True
    then show ?thesis using Cons by fastforce
  next
    case False
    then obtain new where "v' = (v @ [d]) @ new" "q' = (q @ [d]) @ new"
      "set v' = set (v @ [d]) \<union> set ds" "distinct (v @ [d]) \<longrightarrow> distinct v'"
      using Cons.IH[of "v @ [d]" "q @ [d]"] Cons.prems by auto
    then show ?thesis using False by (intro exI[of _ "d # new"]) auto
  qed
qed simp

definition bfs_inv :: "('a \<Rightarrow> 'a list) \<Rightarrow> 'a set \<Rightarrow> 'a list \<times> 'a list \<Rightarrow> bool" where
  "bfs_inv succ S vq = (case vq of (v, q) \<Rightarrow>
     S \<subseteq> set v \<and> set v \<subseteq> reach succ S \<and> set q \<subseteq> set v \<and> distinct v \<and>
     (\<forall>x\<in>set v - set q. set (succ x) \<subseteq> set v))"

lemma bfs_inv_step:
  assumes "bfs_inv succ S s" "bfs_pending s"
  shows "bfs_inv succ S (bfs_step succ s)"
proof -
  obtain v c q where s: "s = (v, c # q)"
    using assms(2) by (cases s; cases "snd s") (auto simp: bfs_pending_def)
  obtain v' q' where e: "bfs_visit (succ c) (v, q) = (v', q')" by fastforce
  obtain new where n: "v' = v @ new" "q' = q @ new" "set v' = set v \<union> set (succ c)"
    "distinct v \<longrightarrow> distinct v'" using bfs_visit_spec[OF e] by auto
  have c: "c \<in> reach succ S" using assms(1) s by (auto simp: bfs_inv_def)
  have "set (succ c) \<subseteq> reach succ S"
    using c by (auto simp: succ_rel_def intro: rtrancl_into_rtrancl)
  moreover have "set new \<subseteq> set v'" using n(1) by simp
  moreover have "set v' - set q' \<subseteq> insert c (set v - set (c # q))" using n(1,2) by auto
  ultimately show ?thesis
    using assms(1) n(3,4) n(2) unfolding s bfs_step.simps e bfs_inv_def prod.case
    by (auto 0 3)
qed

lemma bfs_measure:
  assumes "bfs_inv succ S s" "bfs_pending s" "finite (reach succ S)"
  shows "card (reach succ S - set (fst (bfs_step succ s))) + length (snd (bfs_step succ s))
       < card (reach succ S - set (fst s)) + length (snd s)"
proof -
  obtain v c q where s: "s = (v, c # q)"
    using assms(2) by (cases s; cases "snd s") (auto simp: bfs_pending_def)
  obtain v' q' where e: "bfs_visit (succ c) (v, q) = (v', q')" by fastforce
  obtain new where n: "v' = v @ new" "q' = q @ new" using bfs_visit_spec[OF e] by auto
  have i: "bfs_inv succ S (v', q')" using bfs_inv_step[OF assms(1,2)] s e by simp
  have d: "distinct v'" and sub: "set v' \<subseteq> reach succ S" using i by (auto simp: bfs_inv_def)
  let ?R = "reach succ S"
  have "card (?R - set v') = card (?R - set v) - card (set new)"
  proof -
    have "?R - set v' = (?R - set v) - set new" using n by auto
    moreover have "set new \<subseteq> ?R - set v" using d sub n by auto
    ultimately show ?thesis by (simp add: card_Diff_subset)
  qed
  moreover have "card (set new) = length new" using d n by (simp add: distinct_card)
  moreover have "card (set new) \<le> card (?R - set v)"
    using d sub n assms(3) by (intro card_mono) auto
  ultimately show ?thesis using n by (simp add: s e)
qed

lemma bfs_terminates:
  assumes "bfs_inv succ S s" "finite (reach succ S)"
  shows "\<exists>t. while_option bfs_pending (bfs_step succ) s = Some t"
  by (rule measure_while_option_Some[where P = "bfs_inv succ S"
        and f = "\<lambda>s. card (reach succ S - set (fst s)) + length (snd s)"])
    (use assms bfs_inv_step bfs_measure in auto)

lemma bfs_inv_done:
  assumes "bfs_inv succ S (v, [])"
  shows "set v = reach succ S \<and> distinct v"
proof -
  have cl: "x \<in> set v \<Longrightarrow> (x, y) \<in> succ_rel succ \<Longrightarrow> y \<in> set v" for x y
    using assms by (auto simp: bfs_inv_def succ_rel_def)
  have "y \<in> set v" if "(x, y) \<in> (succ_rel succ)\<^sup>*" "x \<in> S" for x y
    using that assms by (induction rule: rtrancl_induct) (auto simp: bfs_inv_def intro: cl)
  then show ?thesis using assms by (auto simp: bfs_inv_def)
qed

lemma bfs_correct:
  assumes "distinct v" "finite (reach succ (set v))"
  shows "set (bfs succ v v) = reach succ (set v) \<and> distinct (bfs succ v v)"
proof -
  have i: "bfs_inv succ (set v) (v, v)" using assms(1) by (auto simp: bfs_inv_def)
  obtain t where t: "while_option bfs_pending (bfs_step succ) (v, v) = Some t"
    using bfs_terminates[OF i assms(2)] by blast
  have "bfs_inv succ (set v) t"
    using while_option_rule[of "bfs_inv succ (set v)", OF _ t i] bfs_inv_step by blast
  moreover have "\<not> bfs_pending t" using while_option_stop[OF t] .
  moreover have "bfs succ v v = fst t" using t by (simp add: bfs_def while_def)
  ultimately show ?thesis
    using bfs_inv_done by (cases t) (simp add: bfs_pending_def)
qed

text \<open>Only nodes of a finite table have successors: finitely many are reachable.\<close>

lemma finite_reach:
  assumes "finite K" "\<And>x. x \<notin> K \<Longrightarrow> succ x = []" "finite S"
  shows "finite (reach succ S)"
proof -
  have "reach succ S \<subseteq> S \<union> (\<Union>x\<in>K. set (succ x))"
  proof
    fix y assume "y \<in> reach succ S"
    then obtain x where x: "x \<in> S" and r: "(x, y) \<in> (succ_rel succ)\<^sup>*" by auto
    from r show "y \<in> S \<union> (\<Union>x\<in>K. set (succ x))"
    proof (cases rule: rtranclE)
      case base
      then show ?thesis using x by simp
    next
      case (step z)
      then have y: "y \<in> set (succ z)" by (simp add: succ_rel_def)
      then have "z \<in> K" using assms(2)[of z] by (cases "z \<in> K") auto
      then show ?thesis using y by blast
    qed
  qed
  then show ?thesis by (rule finite_subset) (use assms in auto)
qed

end
