(* ===== verification/Build_Graph.thy ===== *)
theory Build_Graph
  imports Build_State Drv_Id Lru_Cache Search "HOL-Library.AList"
begin

text \<open>
  The in-memory dependency graph (\<open>graph/src/graph.rs\<close>) and the database
  interface it is loaded from (\<open>graph/src/traits.rs\<close>).  Every operation takes
  the cache operations \<open>L\<close> first and the current time where the code reads the
  clock.  Hash maps that the code iterates over are association lists with
  distinct keys; the index \<open>by_state\<close> is total, an absent key being an empty set.
\<close>

section \<open>The database interface\<close>

record 'db GraphDatabase =
  db_get_drv :: "'db \<Rightarrow> DrvId \<Rightarrow> (anyhow, Drv option) result"
  db_update_drv_status :: "'db \<Rightarrow> DrvId \<Rightarrow> DrvBuildState \<Rightarrow> 'db \<times> (anyhow, unit) result"
  db_get_all_drvs :: "'db \<Rightarrow> (anyhow, Drv list) result"
  db_get_all_refs :: "'db \<Rightarrow> (anyhow, (DrvId \<times> DrvId) list) result"
  db_get_drv_refs :: "'db \<Rightarrow> DrvId \<Rightarrow> (anyhow, DrvId list) result"
  db_get_drv_dependents :: "'db \<Rightarrow> DrvId \<Rightarrow> (anyhow, DrvId list) result"
  db_insert_transitive_failures :: "'db \<Rightarrow> DrvId \<Rightarrow> DrvId list \<Rightarrow> 'db \<times> (anyhow, unit) result"
  db_clear_transitive_failures :: "'db \<Rightarrow> DrvId \<Rightarrow> 'db \<times> (anyhow, DrvId list) result"

section \<open>Nodes and the graph\<close>

record GraphNode =
  gn_drv_id :: DrvId
  gn_system :: string
  gn_required_system_features :: "string option"
  gn_is_fod :: bool
  gn_build_state :: DrvBuildState
  gn_dependencies :: "DrvId list"
  gn_dependents :: "DrvId list"
  gn_blocking_failures :: "DrvId list"

definition from_drv :: "Drv \<Rightarrow> GraphNode" where
  "from_drv drv =
     \<lparr> gn_drv_id = drv_path drv,
       gn_system = drv_system drv,
       gn_required_system_features = drv_required_system_features drv,
       gn_is_fod = drv_is_fod drv,
       gn_build_state = drv_build_state drv,
       gn_dependencies = [],
       gn_dependents = [],
       gn_blocking_failures = [] \<rparr>"

record 'c BuildGraph =
  nodes :: 'c
  by_state :: "DrvBuildState \<Rightarrow> DrvId list"
  failed_drvs :: "(DrvId \<times> instant) list"
  transitive_failure_map :: "(DrvId \<times> DrvId list) list"
  failure_ttl :: duration
  pinned :: "DrvId list"

type_synonym 'c node_lru = "(DrvId, GraphNode, 'c) lru_ops"

definition DEFAULT_FAILURE_TTL :: duration where
  "DEFAULT_FAILURE_TTL = from_secs (24 * 60 * 60)"

text \<open>\<open>NonZeroUsize::new(capacity).unwrap()\<close> panics on zero: \<^const>\<open>None\<close>.\<close>

definition graph_new :: "'c node_lru \<Rightarrow> nat \<Rightarrow> 'c BuildGraph option" where
  "graph_new L capacity =
     (if capacity = 0 then None
      else Some \<lparr> nodes = lru_new L capacity, by_state = (\<lambda>_. []), failed_drvs = [],
                  transitive_failure_map = [], failure_ttl = DEFAULT_FAILURE_TTL, pinned = [] \<rparr>)"

fun is_terminal_state :: "DrvBuildState \<Rightarrow> bool" where
  "is_terminal_state (Completed _) = True"
| "is_terminal_state TransitiveFailure = True"
| "is_terminal_state _ = False"

text \<open>The two index updates the operations share: \<open>entry(s).or_default().insert(d)\<close> and
  \<open>if let Some(set) = get_mut(s) { set.remove(d) }\<close>.\<close>

definition index_insert :: "DrvBuildState \<Rightarrow> DrvId \<Rightarrow> (DrvBuildState \<Rightarrow> DrvId list) \<Rightarrow> DrvBuildState \<Rightarrow> DrvId list" where
  "index_insert s d ix = ix(s := hs_insert d (ix s))"

definition index_remove :: "DrvBuildState \<Rightarrow> DrvId \<Rightarrow> (DrvBuildState \<Rightarrow> DrvId list) \<Rightarrow> DrvBuildState \<Rightarrow> DrvId list" where
  "index_remove s d ix = ix(s := hs_remove d (ix s))"

definition insert_node ::
  "'c node_lru \<Rightarrow> instant \<Rightarrow> Drv \<Rightarrow> 'c BuildGraph \<Rightarrow> 'c BuildGraph \<times> (DrvId \<times> GraphNode) option" where
  "insert_node L now drv g =
     (let drv_id = drv_path drv;
          state = drv_build_state drv;
          node = from_drv drv;
          g1 = g\<lparr>by_state := index_insert state drv_id (by_state g)\<rparr>;
          g2 = (if state = Completed Failure
                then g1\<lparr>failed_drvs := AList.update drv_id now (failed_drvs g1)\<rparr> else g1);
          g3 = (if \<not> is_terminal_state state
                then g2\<lparr>pinned := hs_insert drv_id (pinned g2)\<rparr> else g2);
          (c, evicted) = lru_push L (nodes g3) drv_id node
      in (g3\<lparr>nodes := c\<rparr>, evicted))"

definition add_dependency :: "DrvId \<Rightarrow> GraphNode \<Rightarrow> GraphNode" where
  "add_dependency reference node =
     (if reference \<in> set (gn_dependencies node) then node
      else node\<lparr>gn_dependencies := gn_dependencies node @ [reference]\<rparr>)"

definition add_dependent :: "DrvId \<Rightarrow> GraphNode \<Rightarrow> GraphNode" where
  "add_dependent referrer node =
     (if referrer \<in> set (gn_dependents node) then node
      else node\<lparr>gn_dependents := gn_dependents node @ [referrer]\<rparr>)"

definition add_edge :: "'c node_lru \<Rightarrow> DrvId \<Rightarrow> DrvId \<Rightarrow> 'c BuildGraph \<Rightarrow> 'c BuildGraph" where
  "add_edge L referrer reference g =
     (let c1 = lru_modify L referrer (add_dependency reference) (nodes g);
          c2 = lru_modify L reference (add_dependent referrer) c1
      in g\<lparr>nodes := c2\<rparr>)"

definition get_node :: "'c node_lru \<Rightarrow> 'c BuildGraph \<Rightarrow> DrvId \<Rightarrow> GraphNode option" where
  "get_node L g drv_id = lru_peek L (nodes g) drv_id"

definition pinned_count :: "'c BuildGraph \<Rightarrow> nat" where
  "pinned_count g = length (pinned g)"

definition get_drvs_by_state :: "'c BuildGraph \<Rightarrow> DrvBuildState \<Rightarrow> DrvId list" where
  "get_drvs_by_state g state = by_state g state"

definition update_state ::
  "'c node_lru \<Rightarrow> instant \<Rightarrow> DrvId \<Rightarrow> DrvBuildState \<Rightarrow> 'c BuildGraph \<Rightarrow> 'c BuildGraph" where
  "update_state L now drv_id new_state g =
     (case lru_peek L (nodes g) drv_id of
        None \<Rightarrow> g
      | Some node \<Rightarrow>
          let old_state = gn_build_state node;
              g1 = g\<lparr>nodes := lru_poke L (nodes g) drv_id (node\<lparr>gn_build_state := new_state\<rparr>)\<rparr>;
              g2 = g1\<lparr>by_state := index_insert new_state drv_id (index_remove old_state drv_id (by_state g1))\<rparr>;
              g3 = (case new_state of
                      Completed Failure \<Rightarrow> g2\<lparr>failed_drvs := AList.update drv_id now (failed_drvs g2)\<rparr>
                    | Completed Success \<Rightarrow> g2\<lparr>failed_drvs := AList.delete drv_id (failed_drvs g2)\<rparr>
                    | _ \<Rightarrow> g2)
          in if is_terminal_state new_state
             then g3\<lparr>pinned := hs_remove drv_id (pinned g3)\<rparr>
             else g3\<lparr>pinned := hs_insert drv_id (pinned g3)\<rparr>)"

definition get_dependencies :: "'c node_lru \<Rightarrow> 'c BuildGraph \<Rightarrow> DrvId \<Rightarrow> DrvId list" where
  "get_dependencies L g drv_id =
     (case lru_peek L (nodes g) drv_id of Some node \<Rightarrow> gn_dependencies node | None \<Rightarrow> [])"

definition get_dependents :: "'c node_lru \<Rightarrow> 'c BuildGraph \<Rightarrow> DrvId \<Rightarrow> DrvId list" where
  "get_dependents L g drv_id =
     (case lru_peek L (nodes g) drv_id of Some node \<Rightarrow> gn_dependents node | None \<Rightarrow> [])"

definition graph_is_buildable :: "'c node_lru \<Rightarrow> 'c BuildGraph \<Rightarrow> DrvId \<Rightarrow> bool" where
  "graph_is_buildable L g drv_id =
     (case lru_peek L (nodes g) drv_id of
        None \<Rightarrow> False
      | Some node \<Rightarrow>
          list_all (\<lambda>dep_id. case lru_peek L (nodes g) dep_id of
              None \<Rightarrow> False
            | Some dep \<Rightarrow> gn_build_state dep = Completed Success) (gn_dependencies node))"

text \<open>The \<open>while let\<close> loops of the searches skip a popped node that is not cached
  and otherwise visit its dependents: the successors are \<^const>\<open>get_dependents\<close>.\<close>

definition get_all_transitive_dependents :: "'c node_lru \<Rightarrow> 'c BuildGraph \<Rightarrow> DrvId \<Rightarrow> DrvId list" where
  "get_all_transitive_dependents L g drv_id =
     hs_remove drv_id (bfs (get_dependents L g) [drv_id] [drv_id])"

definition reverse_reachable_from_set :: "'c node_lru \<Rightarrow> 'c BuildGraph \<Rightarrow> DrvId list \<Rightarrow> DrvId list" where
  "reverse_reachable_from_set L g seeds =
     (let start = hs_collect (filter (\<lambda>seed. lru_peek L (nodes g) seed \<noteq> None) seeds)
      in bfs (get_dependents L g) start start)"

definition blast_radius_per_seed :: "'c node_lru \<Rightarrow> 'c BuildGraph \<Rightarrow> DrvId list \<Rightarrow> (DrvId \<times> nat) list" where
  "blast_radius_per_seed L g seeds =
     fold (\<lambda>seed out.
        AList.update seed
          (if lru_peek L (nodes g) seed \<noteq> None
           then length (get_all_transitive_dependents L g seed) else 0) out) seeds []"

text \<open>One round of the loop of \<open>propagate_failure\<close>.\<close>

definition mark_blocked :: "DrvId \<Rightarrow> GraphNode \<Rightarrow> GraphNode" where
  "mark_blocked failed_drv node =
     node\<lparr>gn_build_state := TransitiveFailure,
          gn_blocking_failures := hs_insert failed_drv (gn_blocking_failures node)\<rparr>"

definition block_one :: "'c node_lru \<Rightarrow> DrvId \<Rightarrow> DrvId \<Rightarrow> 'c BuildGraph \<Rightarrow> 'c BuildGraph" where
  "block_one L failed_drv blocked_id g =
     (let g1 = (case lru_peek L (nodes g) blocked_id of
                  Some node \<Rightarrow>
                    g\<lparr>nodes := lru_poke L (nodes g) blocked_id (mark_blocked failed_drv node),
                      by_state := index_remove (gn_build_state node) blocked_id (by_state g)\<rparr>
                | None \<Rightarrow> g)
      in g1\<lparr>by_state := index_insert TransitiveFailure blocked_id (by_state g1)\<rparr>)"

definition graph_propagate_failure ::
  "'c node_lru \<Rightarrow> DrvId \<Rightarrow> 'c BuildGraph \<Rightarrow> 'c BuildGraph \<times> DrvId list" where
  "graph_propagate_failure L failed_drv g =
     (let blocked = get_all_transitive_dependents L g failed_drv;
          g1 = fold (block_one L failed_drv) blocked g
      in (g1\<lparr>transitive_failure_map := AList.update failed_drv (hs_collect blocked) (transitive_failure_map g1)\<rparr>,
          blocked))"

text \<open>One round of the loop of \<open>clear_failure\<close>, with the list of unblocked drvs so far.\<close>

definition unblock_one ::
  "'c node_lru \<Rightarrow> DrvId \<Rightarrow> DrvId \<Rightarrow> 'c BuildGraph \<times> DrvId list \<Rightarrow> 'c BuildGraph \<times> DrvId list" where
  "unblock_one L formerly_failed blocked_id gu = (case gu of (g, unblocked) \<Rightarrow>
     (case lru_peek L (nodes g) blocked_id of
        None \<Rightarrow> (g, unblocked)
      | Some node \<Rightarrow>
          let rest = hs_remove formerly_failed (gn_blocking_failures node);
              node1 = node\<lparr>gn_blocking_failures := rest\<rparr>
          in if rest = []
             then (g\<lparr>nodes := lru_poke L (nodes g) blocked_id (node1\<lparr>gn_build_state := Queued\<rparr>),
                     by_state := index_insert Queued blocked_id
                       (index_remove (gn_build_state node) blocked_id (by_state g))\<rparr>,
                   unblocked @ [blocked_id])
             else (g\<lparr>nodes := lru_poke L (nodes g) blocked_id node1\<rparr>, unblocked)))"

definition graph_clear_failure ::
  "'c node_lru \<Rightarrow> DrvId \<Rightarrow> 'c BuildGraph \<Rightarrow> 'c BuildGraph \<times> DrvId list" where
  "graph_clear_failure L formerly_failed g =
     (case map_of (transitive_failure_map g) formerly_failed of
        None \<Rightarrow> (g, [])
      | Some blocked_set \<Rightarrow>
          fold (unblock_one L formerly_failed) blocked_set
            (g\<lparr>transitive_failure_map := AList.delete formerly_failed (transitive_failure_map g)\<rparr>, []))"

definition get_failed_dependencies :: "'c node_lru \<Rightarrow> 'c BuildGraph \<Rightarrow> DrvId \<Rightarrow> DrvId list" where
  "get_failed_dependencies L g drv_id =
     (case lru_peek L (nodes g) drv_id of Some node \<Rightarrow> gn_blocking_failures node | None \<Rightarrow> [])"

definition node_count :: "'c node_lru \<Rightarrow> 'c BuildGraph \<Rightarrow> nat" where
  "node_count L g = lru_len L (nodes g)"

definition graph_capacity :: "'c node_lru \<Rightarrow> 'c BuildGraph \<Rightarrow> nat" where
  "graph_capacity L g = lru_cap L (nodes g)"

definition all_build_states :: "DrvBuildState list" where
  "all_build_states =
     [Queued, Buildable, FailedRetry, Building, Completed Success, Completed Failure,
      Interrupted OutOfMemory, Interrupted Timeout, Interrupted Cancelled,
      Interrupted ProcessDeath, Interrupted SchedulerDeath, TransitiveFailure, Blocked,
      UnsatisfiableRequirements]"

definition estimate_memory_bytes :: "'c node_lru \<Rightarrow> 'c BuildGraph \<Rightarrow> nat" where
  "estimate_memory_bytes L g =
     (\<Sum>(_, node)\<leftarrow>lru_iter L (nodes g).
        300 + length (gn_dependencies node) * 80 + length (gn_dependents node) * 80
        + length (gn_blocking_failures node) * 80)
     + (\<Sum>s\<leftarrow>all_build_states. length (by_state g s) * 80)
     + length (failed_drvs g) * 80
     + (\<Sum>(_, blocked_set)\<leftarrow>transitive_failure_map g. 80 + length blocked_set * 80)"

definition drop_failure :: "DrvId \<Rightarrow> 'c BuildGraph \<Rightarrow> 'c BuildGraph" where
  "drop_failure d g =
     g\<lparr>failed_drvs := AList.delete d (failed_drvs g),
       transitive_failure_map := AList.delete d (transitive_failure_map g)\<rparr>"

definition evict_stale_failures :: "instant \<Rightarrow> 'c BuildGraph \<Rightarrow> 'c BuildGraph \<times> nat" where
  "evict_stale_failures now g =
     (let cutoff = now - int (failure_ttl g);
          stale = map fst (filter (\<lambda>(_, ts). ts < cutoff) (failed_drvs g));
          g1 = fold drop_failure stale g
      in (g1, length stale))"

fun normalize_state :: "DrvBuildState \<Rightarrow> DrvBuildState" where
  "normalize_state Building = Queued"
| "normalize_state Buildable = Queued"
| "normalize_state Queued = Queued"
| "normalize_state FailedRetry = FailedRetry"
| "normalize_state terminal = terminal"

definition load_drv :: "'c node_lru \<Rightarrow> instant \<Rightarrow> Drv \<Rightarrow> 'c BuildGraph \<Rightarrow> 'c BuildGraph" where
  "load_drv L now drv g =
     fst (insert_node L now
       (drv\<lparr>drv_build_state := normalize_state (drv_build_state drv), drv_prefer_local_build := False\<rparr>) g)"

text \<open>\<open>from_database\<close>: the outer option is the panic of \<^const>\<open>graph_new\<close> on capacity 0.\<close>

definition from_database ::
  "'c node_lru \<Rightarrow> instant \<Rightarrow> 'db GraphDatabase \<Rightarrow> 'db \<Rightarrow> nat \<Rightarrow> (anyhow, 'c BuildGraph) result option" where
  "from_database L now D db capacity =
     (case db_get_all_drvs D db of
        Inl e \<Rightarrow> Some (Inl e)
      | Inr drvs \<Rightarrow>
          (case graph_new L capacity of
             None \<Rightarrow> None
           | Some g0 \<Rightarrow>
               let g1 = fold (load_drv L now) drvs g0
               in (case db_get_all_refs D db of
                     Inl e \<Rightarrow> Some (Inl e)
                   | Inr refs \<Rightarrow>
                       let g2 = fold (\<lambda>(referrer, reference). add_edge L referrer reference) refs g1;
                           failed = map fst (failed_drvs g2)
                       in Some (Inr (fold (\<lambda>f g. fst (graph_propagate_failure L f g)) failed g2)))))"

section \<open>What the operations do to the cached nodes\<close>

lemma set_index_insert [simp]:
  "set (index_insert s d ix s') = (if s' = s then insert d (set (ix s')) else set (ix s'))"
  by (simp add: index_insert_def)

lemma set_index_remove [simp]:
  "set (index_remove s d ix s') = (if s' = s then set (ix s') - {d} else set (ix s'))"
  by (simp add: index_remove_def)

lemma mark_blocked_idem [simp]: "mark_blocked f (mark_blocked f n) = mark_blocked f n"
  by (simp add: mark_blocked_def hs_insert_def)

lemma mark_blocked_sel [simp]:
  "gn_build_state (mark_blocked f n) = TransitiveFailure"
  "set (gn_blocking_failures (mark_blocked f n)) = insert f (set (gn_blocking_failures n))"
  "gn_dependencies (mark_blocked f n) = gn_dependencies n"
  "gn_dependents (mark_blocked f n) = gn_dependents n"
  "gn_drv_id (mark_blocked f n) = gn_drv_id n"
  by (simp_all add: mark_blocked_def)

lemma edge_node_sel [simp]:
  "gn_build_state (add_dependency r n) = gn_build_state n"
  "gn_build_state (add_dependent r n) = gn_build_state n"
  "gn_drv_id (add_dependency r n) = gn_drv_id n"
  "gn_drv_id (add_dependent r n) = gn_drv_id n"
  "gn_blocking_failures (add_dependency r n) = gn_blocking_failures n"
  "gn_blocking_failures (add_dependent r n) = gn_blocking_failures n"
  "set (gn_dependencies (add_dependency r n)) = insert r (set (gn_dependencies n))"
  "set (gn_dependents (add_dependent r n)) = insert r (set (gn_dependents n))"
  "gn_dependents (add_dependency r n) = gn_dependents n"
  "gn_dependencies (add_dependent r n) = gn_dependencies n"
  by (auto simp: add_dependency_def add_dependent_def)

text \<open>What \<open>clear_failure\<close> does to one node it visits.\<close>

definition clear_blocked :: "DrvId \<Rightarrow> GraphNode \<Rightarrow> GraphNode" where
  "clear_blocked f node =
     (let node1 = node\<lparr>gn_blocking_failures := hs_remove f (gn_blocking_failures node)\<rparr>
      in if gn_blocking_failures node1 = [] then node1\<lparr>gn_build_state := Queued\<rparr> else node1)"

lemma hs_remove_idem [simp]: "hs_remove x (hs_remove x xs) = hs_remove x xs"
  by (simp add: hs_remove_def)

lemma clear_blocked_sel [simp]:
  "gn_blocking_failures (clear_blocked f n) = hs_remove f (gn_blocking_failures n)"
  "gn_build_state (clear_blocked f n) =
     (if set (gn_blocking_failures n) \<subseteq> {f} then Queued else gn_build_state n)"
  "gn_dependencies (clear_blocked f n) = gn_dependencies n"
  "gn_dependents (clear_blocked f n) = gn_dependents n"
  "gn_drv_id (clear_blocked f n) = gn_drv_id n"
  by (auto simp: clear_blocked_def Let_def hs_remove_def filter_empty_conv)

lemma clear_blocked_idem [simp]: "clear_blocked f (clear_blocked f n) = clear_blocked f n"
  by (simp add: clear_blocked_def Let_def)

section \<open>Well-formed graphs\<close>

definition node_wf :: "DrvId \<Rightarrow> GraphNode \<Rightarrow> bool" where
  "node_wf k n = (gn_drv_id n = k \<and> distinct (gn_dependencies n) \<and> distinct (gn_dependents n)
     \<and> distinct (gn_blocking_failures n))"

text \<open>Every cached node is filed under its state (it may be filed under others too).\<close>

definition index_complete :: "'c node_lru \<Rightarrow> 'c BuildGraph \<Rightarrow> bool" where
  "index_complete L g =
     (\<forall>k n s. get_node L g k = Some n \<longrightarrow> gn_build_state n = s \<longrightarrow> k \<in> set (by_state g s))"

lemma index_completeI:
  "(\<And>k n. get_node L g k = Some n \<Longrightarrow> k \<in> set (by_state g (gn_build_state n))) \<Longrightarrow> index_complete L g"
  by (auto simp: index_complete_def)

lemma index_completeD:
  "index_complete L g \<Longrightarrow> get_node L g k = Some n \<Longrightarrow> gn_build_state n = s \<Longrightarrow> k \<in> set (by_state g s)"
  by (auto simp: index_complete_def)

text \<open>Every cached node is filed under its state and under no other.\<close>

definition index_exact :: "'c node_lru \<Rightarrow> 'c BuildGraph \<Rightarrow> bool" where
  "index_exact L g =
     (\<forall>k n s. get_node L g k = Some n \<longrightarrow> (k \<in> set (by_state g s) \<longleftrightarrow> s = gn_build_state n))"

definition sets_wf :: "'c BuildGraph \<Rightarrow> bool" where
  "sets_wf g = ((\<forall>s. distinct (by_state g s)) \<and> distinct (pinned g) \<and>
     distinct (map fst (failed_drvs g)) \<and> distinct (map fst (transitive_failure_map g)) \<and>
     (\<forall>e\<in>set (transitive_failure_map g). distinct (snd e)))"

definition graph_wf :: "'c node_lru \<Rightarrow> ('c \<Rightarrow> bool) \<Rightarrow> 'c BuildGraph \<Rightarrow> bool" where
  "graph_wf L invar g = (invar (nodes g) \<and> sets_wf g \<and> index_complete L g \<and>
     (\<forall>k n. get_node L g k = Some n \<longrightarrow> node_wf k n))"

lemma node_wf_ops [simp]:
  "node_wf k n \<Longrightarrow> node_wf k (add_dependency r n)"
  "node_wf k n \<Longrightarrow> node_wf k (add_dependent r n)"
  "node_wf k n \<Longrightarrow> node_wf k (mark_blocked f n)"
  "node_wf k n \<Longrightarrow> node_wf k (clear_blocked f n)"
  "node_wf k n \<Longrightarrow> node_wf k (n\<lparr>gn_build_state := s\<rparr>)"
  "node_wf (drv_path drv) (from_drv drv)"
  by (auto simp: node_wf_def add_dependency_def add_dependent_def from_drv_def mark_blocked_def)

lemma distinct_index [simp]:
  "\<forall>s. distinct (ix s) \<Longrightarrow> distinct (index_insert s d ix s')"
  "\<forall>s. distinct (ix s) \<Longrightarrow> distinct (index_remove s d ix s')"
  by (auto simp: index_insert_def index_remove_def)

lemma set_update_subset: "set (AList.update k v al) \<subseteq> insert (k, v) (set al)"
  by (induction al) auto

lemma set_delete_subset: "set (AList.delete k al) \<subseteq> set al"
  by (auto simp: AList.delete_eq)

lemma distinct_fst_delete: "distinct (map fst al) \<Longrightarrow> distinct (map fst (AList.delete k al))"
  by (simp add: AList.delete_eq distinct_map_filter)

lemma by_state_insert_node:
  "by_state (fst (insert_node L now drv g)) = index_insert (drv_build_state drv) (drv_path drv) (by_state g)"
  by (auto simp: insert_node_def Let_def split: prod.splits)

lemma by_state_add_edge [simp]: "by_state (add_edge L a b g) = by_state g"
  by (simp add: add_edge_def Let_def)

lemma sets_wf_insert_node: "sets_wf g \<Longrightarrow> sets_wf (fst (insert_node L now drv g))"
  by (auto simp: sets_wf_def insert_node_def Let_def distinct_update split: prod.splits)

lemma by_state_update_state:
  "get_node L g d = Some n \<Longrightarrow> by_state (update_state L now d s g) =
     index_insert s d (index_remove (gn_build_state n) d (by_state g))"
  by (auto simp: update_state_def get_node_def Let_def
      split: option.splits DrvBuildState.splits DrvBuildResult.splits)

lemma update_state_absent: "get_node L g d = None \<Longrightarrow> update_state L now d s g = g"
  by (simp add: update_state_def get_node_def)

lemma sets_wf_update_state: "sets_wf g \<Longrightarrow> sets_wf (update_state L now d s g)"
  by (auto simp: sets_wf_def update_state_def Let_def distinct_update distinct_fst_delete
      split: option.splits DrvBuildState.splits DrvBuildResult.splits)

lemma by_state_block_one:
  "by_state (block_one L f b g) = index_insert TransitiveFailure b
     (case get_node L g b of Some n \<Rightarrow> index_remove (gn_build_state n) b (by_state g) | None \<Rightarrow> by_state g)"
  by (auto simp: block_one_def get_node_def Let_def split: option.splits)

lemma block_one_frame [simp]:
  "failed_drvs (block_one L f b g) = failed_drvs g" "pinned (block_one L f b g) = pinned g"
  "transitive_failure_map (block_one L f b g) = transitive_failure_map g"
  "failure_ttl (block_one L f b g) = failure_ttl g"
  by (auto simp: block_one_def Let_def split: option.splits)

lemma fold_block_frame [simp]:
  "failed_drvs (fold (block_one L f) bs g) = failed_drvs g" "pinned (fold (block_one L f) bs g) = pinned g"
  "transitive_failure_map (fold (block_one L f) bs g) = transitive_failure_map g"
  by (induction bs arbitrary: g) auto

lemma sets_wf_block_one: "sets_wf g \<Longrightarrow> sets_wf (block_one L f b g)"
  by (auto simp: sets_wf_def by_state_block_one split: option.splits)

lemma by_state_unblock_one:
  "by_state (fst (unblock_one L f b gu)) =
     (case get_node L (fst gu) b of
        Some n \<Rightarrow> if set (gn_blocking_failures n) \<subseteq> {f}
          then index_insert Queued b (index_remove (gn_build_state n) b (by_state (fst gu)))
          else by_state (fst gu)
      | None \<Rightarrow> by_state (fst gu))"
  by (auto simp: unblock_one_def get_node_def Let_def hs_remove_def filter_empty_conv
      split: option.splits prod.splits)

lemma unblock_one_frame [simp]:
  "failed_drvs (fst (unblock_one L f b gu)) = failed_drvs (fst gu)"
  "pinned (fst (unblock_one L f b gu)) = pinned (fst gu)"
  "transitive_failure_map (fst (unblock_one L f b gu)) = transitive_failure_map (fst gu)"
  by (auto simp: unblock_one_def Let_def split: option.splits prod.splits)

lemma fold_unblock_frame [simp]:
  "failed_drvs (fst (fold (unblock_one L f) bs gu)) = failed_drvs (fst gu)"
  "pinned (fst (fold (unblock_one L f) bs gu)) = pinned (fst gu)"
  "transitive_failure_map (fst (fold (unblock_one L f) bs gu)) = transitive_failure_map (fst gu)"
  by (induction bs arbitrary: gu) auto

lemma sets_wf_unblock_one: "sets_wf (fst gu) \<Longrightarrow> sets_wf (fst (unblock_one L f b gu))"
  by (auto simp: sets_wf_def by_state_unblock_one split: option.splits)

lemma fold_drop_failure:
  "nodes (fold drop_failure ids g) = nodes g"
  "by_state (fold drop_failure ids g) = by_state g"
  "pinned (fold drop_failure ids g) = pinned g"
  "failed_drvs (fold drop_failure ids g) = filter (\<lambda>e. fst e \<notin> set ids) (failed_drvs g)"
  "transitive_failure_map (fold drop_failure ids g) = filter (\<lambda>e. fst e \<notin> set ids) (transitive_failure_map g)"
  by (induction ids arbitrary: g)
    (auto simp: drop_failure_def AList.delete_eq case_prod_beta conj_commute intro!: filter_cong)

lemma evict_stale_frame:
  "nodes (fst (evict_stale_failures now g)) = nodes g"
  "by_state (fst (evict_stale_failures now g)) = by_state g"
  "pinned (fst (evict_stale_failures now g)) = pinned g"
  by (simp_all add: evict_stale_failures_def Let_def fold_drop_failure)

definition stale_failures :: "instant \<Rightarrow> 'c BuildGraph \<Rightarrow> DrvId set" where
  "stale_failures now g = fst ` {x \<in> set (failed_drvs g). snd x < now - int (failure_ttl g)}"

lemma evict_stale_maps:
  "failed_drvs (fst (evict_stale_failures now g)) =
     filter (\<lambda>e. fst e \<notin> stale_failures now g) (failed_drvs g)"
  "transitive_failure_map (fst (evict_stale_failures now g)) =
     filter (\<lambda>e. fst e \<notin> stale_failures now g) (transitive_failure_map g)"
proof -
  have "set (map fst (filter (\<lambda>(_, ts). ts < now - int (failure_ttl g)) (failed_drvs g))) = stale_failures now g"
    by (force simp: stale_failures_def)
  then show "failed_drvs (fst (evict_stale_failures now g)) =
       filter (\<lambda>e. fst e \<notin> stale_failures now g) (failed_drvs g)"
    "transitive_failure_map (fst (evict_stale_failures now g)) =
       filter (\<lambda>e. fst e \<notin> stale_failures now g) (transitive_failure_map g)"
    by (simp_all only: evict_stale_failures_def Let_def fold_drop_failure fst_conv)
qed

lemma sets_wf_evict_stale: "sets_wf g \<Longrightarrow> sets_wf (fst (evict_stale_failures now g))"
  by (auto simp: sets_wf_def evict_stale_frame evict_stale_maps distinct_map_filter)

section \<open>Reachable graphs\<close>

text \<open>The graphs that the operations can produce from an empty one, in any order.\<close>

inductive graph_reachable :: "'c node_lru \<Rightarrow> nat \<Rightarrow> 'c BuildGraph \<Rightarrow> bool" for L cap where
  init: "graph_new L cap = Some g \<Longrightarrow> graph_reachable L cap g"
| insert: "graph_reachable L cap g \<Longrightarrow> graph_reachable L cap (fst (insert_node L now drv g))"
| edge: "graph_reachable L cap g \<Longrightarrow> graph_reachable L cap (add_edge L a b g)"
| update: "graph_reachable L cap g \<Longrightarrow> graph_reachable L cap (update_state L now d s g)"
| propagate: "graph_reachable L cap g \<Longrightarrow> graph_reachable L cap (fst (graph_propagate_failure L d g))"
| clear: "graph_reachable L cap g \<Longrightarrow> graph_reachable L cap (fst (graph_clear_failure L d g))"
| prune: "graph_reachable L cap g \<Longrightarrow> graph_reachable L cap (fst (evict_stale_failures now g))"

locale graph_lru = lru_cache L invar
  for L :: "'c node_lru" and invar :: "'c \<Rightarrow> bool"
begin

lemma insert_node_invar: "invar (nodes g) \<Longrightarrow> invar (nodes (fst (insert_node L now drv g)))"
  by (auto simp: insert_node_def Let_def invar_push split: prod.splits)
    (metis fst_conv invar_push)+

lemma get_node_insert_node:
  assumes "invar (nodes g)" "insert_node L now drv g = (g', evicted)"
  shows "get_node L g' k =
    (if k = drv_path drv then Some (from_drv drv)
     else case evicted of
       Some (e, _) \<Rightarrow> if k = e then None else get_node L g k
     | None \<Rightarrow> get_node L g k)"
proof -
  have "nodes g' = fst (lru_push L (nodes g) (drv_path drv) (from_drv drv))"
    "evicted = snd (lru_push L (nodes g) (drv_path drv) (from_drv drv))"
    using assms(2) by (auto simp: insert_node_def Let_def split: prod.splits if_splits)
  then show ?thesis by (auto simp: get_node_def peek_push[OF assms(1)] split: option.splits)
qed

lemma insert_node_SomeD:
  assumes "invar (nodes g)" "get_node L (fst (insert_node L now drv g)) k = Some n"
  shows "k = drv_path drv \<and> n = from_drv drv \<or> k \<noteq> drv_path drv \<and> get_node L g k = Some n"
proof -
  obtain g' ev where "insert_node L now drv g = (g', ev)" by fastforce
  with assms show ?thesis
    using get_node_insert_node[OF assms(1)] by (auto split: if_splits option.splits)
qed

lemma add_edge_invar: "invar (nodes g) \<Longrightarrow> invar (nodes (add_edge L a b g))"
  by (simp add: add_edge_def Let_def invar_modify)

lemma get_node_add_edge:
  "invar (nodes g) \<Longrightarrow> get_node L (add_edge L a b g) k =
     map_option (\<lambda>n. (if k = b then add_dependent a else id) ((if k = a then add_dependency b else id) n))
       (get_node L g k)"
  by (auto simp: add_edge_def Let_def get_node_def invar_modify peek_modify option.map_comp o_def option.map_ident)

lemma update_state_invar: "invar (nodes g) \<Longrightarrow> invar (nodes (update_state L now d s g))"
  by (auto simp: update_state_def Let_def intro!: invar_poke
      split: option.splits DrvBuildState.splits DrvBuildResult.splits)

lemma nodes_update_state:
  "nodes (update_state L now d s g) = lru_modify L d (\<lambda>n. n\<lparr>gn_build_state := s\<rparr>) (nodes g)"
  by (auto simp: update_state_def Let_def lru_modify_def
      split: option.splits DrvBuildState.splits DrvBuildResult.splits)

lemma get_node_update_state:
  "invar (nodes g) \<Longrightarrow> get_node L (update_state L now d s g) k =
     (if k = d then map_option (\<lambda>n. n\<lparr>gn_build_state := s\<rparr>) (get_node L g k) else get_node L g k)"
  by (simp add: get_node_def nodes_update_state peek_modify)

lemma nodes_block_one: "nodes (block_one L f b g) = lru_modify L b (mark_blocked f) (nodes g)"
  by (auto simp: block_one_def Let_def lru_modify_def split: option.splits)

lemma block_one_invar: "invar (nodes g) \<Longrightarrow> invar (nodes (block_one L f b g))"
  by (simp add: nodes_block_one invar_modify)

lemma get_node_block_one:
  "invar (nodes g) \<Longrightarrow> get_node L (block_one L f b g) k =
     (if k = b then map_option (mark_blocked f) (get_node L g k) else get_node L g k)"
  by (simp add: get_node_def nodes_block_one peek_modify)

lemma fold_block_invar: "invar (nodes g) \<Longrightarrow> invar (nodes (fold (block_one L f) bs g))"
  by (induction bs arbitrary: g) (auto simp: block_one_invar)

lemma get_node_fold_block:
  "invar (nodes g) \<Longrightarrow> get_node L (fold (block_one L f) bs g) k =
     (if k \<in> set bs then map_option (mark_blocked f) (get_node L g k) else get_node L g k)"
  by (induction bs arbitrary: g)
    (auto simp: block_one_invar get_node_block_one option.map_comp o_def)

lemma nodes_unblock_one: "nodes (fst (unblock_one L f b gu)) = lru_modify L b (clear_blocked f) (nodes (fst gu))"
  by (auto simp: unblock_one_def Let_def lru_modify_def clear_blocked_def
      split: option.splits prod.splits)

lemma unblock_one_invar: "invar (nodes (fst gu)) \<Longrightarrow> invar (nodes (fst (unblock_one L f b gu)))"
  by (simp add: nodes_unblock_one invar_modify)

lemma get_node_unblock_one:
  "invar (nodes (fst gu)) \<Longrightarrow> get_node L (fst (unblock_one L f b gu)) k =
     (if k = b then map_option (clear_blocked f) (get_node L (fst gu) k) else get_node L (fst gu) k)"
  by (simp add: get_node_def nodes_unblock_one peek_modify)

lemma fold_unblock_invar: "invar (nodes (fst gu)) \<Longrightarrow> invar (nodes (fst (fold (unblock_one L f) bs gu)))"
  by (induction bs arbitrary: gu) (auto simp: unblock_one_invar)

lemma get_node_fold_unblock:
  "invar (nodes (fst gu)) \<Longrightarrow> get_node L (fst (fold (unblock_one L f) bs gu)) k =
     (if k \<in> set bs then map_option (clear_blocked f) (get_node L (fst gu) k) else get_node L (fst gu) k)"
  by (induction bs arbitrary: gu)
    (auto simp: unblock_one_invar get_node_unblock_one option.map_comp o_def)

lemma snd_unblock_one:
  "snd (unblock_one L f b gu) =
     (case get_node L (fst gu) b of
        Some n \<Rightarrow> if set (gn_blocking_failures n) \<subseteq> {f} then snd gu @ [b] else snd gu
      | None \<Rightarrow> snd gu)"
  by (auto simp: unblock_one_def get_node_def Let_def hs_remove_def filter_empty_conv
      split: option.splits prod.splits)

lemma snd_fold_unblock:
  "invar (nodes (fst gu)) \<Longrightarrow> distinct bs \<Longrightarrow>
   snd (fold (unblock_one L f) bs gu) =
     snd gu @ filter (\<lambda>b. \<exists>n. get_node L (fst gu) b = Some n \<and> set (gn_blocking_failures n) \<subseteq> {f}) bs"
proof (induction bs arbitrary: gu)
  case (Cons b bs)
  have "filter (\<lambda>b'. \<exists>n. get_node L (fst (unblock_one L f b gu)) b' = Some n \<and> set (gn_blocking_failures n) \<subseteq> {f}) bs
      = filter (\<lambda>b'. \<exists>n. get_node L (fst gu) b' = Some n \<and> set (gn_blocking_failures n) \<subseteq> {f}) bs"
    using Cons.prems by (intro filter_cong) (auto simp: get_node_unblock_one)
  then show ?case using Cons
    by (auto simp: unblock_one_invar snd_unblock_one split: option.splits)
qed simp

section \<open>The searches\<close>

lemma finite_graph_reach:
  assumes "invar (nodes g)" "finite S"
  shows "finite (reach (get_dependents L g) S)"
  by (rule finite_reach[OF finite_keys[OF assms(1)] _ assms(2)]) (simp add: get_dependents_def)

lemma transitive_dependents_set:
  assumes "invar (nodes g)"
  shows "set (get_all_transitive_dependents L g d) = reach (get_dependents L g) {d} - {d}
       \<and> distinct (get_all_transitive_dependents L g d)"
  using bfs_correct[of "[d]" "get_dependents L g"] finite_graph_reach[OF assms, of "{d}"]
  by (simp add: get_all_transitive_dependents_def)

lemma search_terminates:
  assumes "invar (nodes g)" "distinct v"
  shows "\<exists>t. while_option bfs_pending (bfs_step (get_dependents L g)) (v, v) = Some t"
  by (rule bfs_terminates[of _ "set v"])
    (use assms finite_graph_reach[OF assms(1), of "set v"] in \<open>auto simp: bfs_inv_def\<close>)

lemma reverse_reachable_set:
  assumes "invar (nodes g)"
  shows "set (reverse_reachable_from_set L g seeds) =
      reach (get_dependents L g) {s \<in> set seeds. get_node L g s \<noteq> None}
    \<and> distinct (reverse_reachable_from_set L g seeds)"
  using bfs_correct[of "hs_collect (filter (\<lambda>s. get_node L g s \<noteq> None) seeds)" "get_dependents L g"]
    finite_graph_reach[OF assms, of "{s \<in> set seeds. get_node L g s \<noteq> None}"]
  by (simp add: reverse_reachable_from_set_def Let_def get_node_def)

text \<open>A drv that is not cached has no recorded dependents.\<close>

lemma transitive_dependents_absent:
  assumes "invar (nodes g)" "get_node L g d = None"
  shows "get_all_transitive_dependents L g d = []"
proof -
  have "reach (get_dependents L g) {d} = {d}"
  proof -
    have "y = d" if "(d, y) \<in> (succ_rel (get_dependents L g))\<^sup>*" for y
      using that assms(2)
      by (cases rule: converse_rtranclE) (auto simp: succ_rel_def get_dependents_def get_node_def)
    then show ?thesis by auto
  qed
  then show ?thesis using transitive_dependents_set[OF assms(1), of d] by auto
qed

lemma propagate_invar: "invar (nodes g) \<Longrightarrow> invar (nodes (fst (graph_propagate_failure L f g)))"
  by (simp add: graph_propagate_failure_def Let_def fold_block_invar)

lemma clear_invar: "invar (nodes g) \<Longrightarrow> invar (nodes (fst (graph_clear_failure L f g)))"
  by (auto simp: graph_clear_failure_def fold_unblock_invar split: option.splits)

lemma get_node_propagate:
  "invar (nodes g) \<Longrightarrow> get_node L (fst (graph_propagate_failure L f g)) k =
     (if k \<in> set (get_all_transitive_dependents L g f) then map_option (mark_blocked f) (get_node L g k)
      else get_node L g k)"
  using get_node_fold_block[of g f "get_all_transitive_dependents L g f" k]
  by (simp add: graph_propagate_failure_def Let_def get_node_def)

lemma get_node_clear:
  "invar (nodes g) \<Longrightarrow> map_of (transitive_failure_map g) f = Some bs \<Longrightarrow>
   get_node L (fst (graph_clear_failure L f g)) k =
     (if k \<in> set bs then map_option (clear_blocked f) (get_node L g k) else get_node L g k)"
  using get_node_fold_unblock[of "(g\<lparr>transitive_failure_map := AList.delete f (transitive_failure_map g)\<rparr>, [])" f bs k]
  by (simp add: graph_clear_failure_def get_node_def)

lemma snd_clear:
  "invar (nodes g) \<Longrightarrow> map_of (transitive_failure_map g) f = Some bs \<Longrightarrow> distinct bs \<Longrightarrow>
   snd (graph_clear_failure L f g) =
     filter (\<lambda>b. \<exists>n. get_node L g b = Some n \<and> set (gn_blocking_failures n) \<subseteq> {f}) bs"
  using snd_fold_unblock[of "(g\<lparr>transitive_failure_map := AList.delete f (transitive_failure_map g)\<rparr>, [])" bs f]
  by (simp add: graph_clear_failure_def get_node_def)

section \<open>Preservation of well-formedness\<close>

lemma index_complete_ops:
  assumes "invar (nodes g)" "index_complete L g"
  shows "index_complete L (fst (insert_node L now drv g))"
    and "index_complete L (add_edge L a b g)"
    and "index_complete L (update_state L now d s g)"
    and "index_complete L (block_one L f d g)"
    and "index_complete L (fst (unblock_one L f d (g, u)))"
proof -
  note D = index_completeD[OF assms(2)]
  show "index_complete L (fst (insert_node L now drv g))"
    by (rule index_completeI)
      (auto dest!: insert_node_SomeD[OF assms(1)] simp: from_drv_def by_state_insert_node intro: D)
  have "by_state (add_edge L a b g) = by_state g" by (simp add: add_edge_def Let_def)
  then show "index_complete L (add_edge L a b g)"
    by (intro index_completeI) (auto simp: get_node_add_edge assms(1) intro: D)
  show "index_complete L (update_state L now d s g)"
    by (rule index_completeI, cases "get_node L g d")
      (auto simp: get_node_update_state assms(1) by_state_update_state update_state_absent intro: D
        split: if_splits)
  show "index_complete L (block_one L f d g)"
    by (rule index_completeI)
      (auto simp: get_node_block_one assms(1) by_state_block_one intro: D split: option.splits if_splits)
  show "index_complete L (fst (unblock_one L f d (g, u)))"
    by (rule index_completeI)
      (auto simp: get_node_unblock_one assms(1) by_state_unblock_one intro: D split: option.splits if_splits)
qed

lemma index_exact_ops:
  assumes "invar (nodes g)" "index_exact L g"
  shows "\<forall>s. s \<noteq> drv_build_state drv \<longrightarrow> drv_path drv \<notin> set (by_state g s) \<Longrightarrow>
      index_exact L (fst (insert_node L now drv g))"
    and "index_exact L (add_edge L a b g)"
    and "index_exact L (update_state L now d s g)"
    and "index_exact L (block_one L f d g)"
    and "index_exact L (fst (unblock_one L f d (g, u)))"
proof -
  show "index_exact L (fst (insert_node L now drv g))"
    if "\<forall>s. s \<noteq> drv_build_state drv \<longrightarrow> drv_path drv \<notin> set (by_state g s)"
    using assms(2) that unfolding index_exact_def by_state_insert_node
    by (auto dest!: insert_node_SomeD[OF assms(1)] simp: from_drv_def)
  show "index_exact L (add_edge L a b g)"
    using assms by (auto simp: index_exact_def get_node_add_edge)
  show "index_exact L (update_state L now d s g)"
    using assms by (cases "get_node L g d")
      (auto simp: index_exact_def get_node_update_state by_state_update_state update_state_absent)
  show "index_exact L (block_one L f d g)"
    using assms by (auto simp: index_exact_def get_node_block_one by_state_block_one split: option.splits)
  show "index_exact L (fst (unblock_one L f d (g, u)))"
    using assms by (auto simp: index_exact_def get_node_unblock_one by_state_unblock_one split: option.splits)
qed

text \<open>Lifting a fact about one round to the loops of \<open>propagate_failure\<close> and \<open>clear_failure\<close>.\<close>

lemma propagate_rule:
  assumes "invar (nodes g)" "P g"
    and "\<And>h b. invar (nodes h) \<Longrightarrow> P h \<Longrightarrow> P (block_one L f b h)"
    and "\<And>h bs. distinct bs \<Longrightarrow> P h \<Longrightarrow>
      P (h\<lparr>transitive_failure_map := AList.update f bs (transitive_failure_map h)\<rparr>)"
  shows "P (fst (graph_propagate_failure L f g))"
proof -
  have "P (fold (block_one L f) bs g)" for bs
    using assms(1,2) by (induction bs arbitrary: g) (auto simp: assms(3) block_one_invar)
  then show ?thesis
    unfolding graph_propagate_failure_def Let_def fst_conv
    by (intro assms(4)) simp_all
qed

lemma clear_rule:
  assumes "invar (nodes g)" "P g"
    and "\<And>g u b. invar (nodes g) \<Longrightarrow> P g \<Longrightarrow> P (fst (unblock_one L f b (g, u)))"
    and "P (g\<lparr>transitive_failure_map := AList.delete f (transitive_failure_map g)\<rparr>)"
  shows "P (fst (graph_clear_failure L f g))"
proof -
  have "P (fst (fold (unblock_one L f) bs gu))" if "invar (nodes (fst gu))" "P (fst gu)" for bs gu
    using that
  proof (induction bs arbitrary: gu)
    case (Cons b bs)
    then show ?case using assms(3)[of "fst gu" b "snd gu"] by (simp add: unblock_one_invar)
  qed simp
  then show ?thesis using assms by (auto simp: graph_clear_failure_def split: option.splits)
qed

lemma graph_wf_insert_node: "graph_wf L invar g \<Longrightarrow> graph_wf L invar (fst (insert_node L now drv g))"
  unfolding graph_wf_def
  by (auto simp: insert_node_invar sets_wf_insert_node index_complete_ops(1) dest!: insert_node_SomeD[rotated])

lemma graph_wf_add_edge: "graph_wf L invar g \<Longrightarrow> graph_wf L invar (add_edge L a b g)"
  unfolding graph_wf_def
  by (auto simp: add_edge_invar index_complete_ops(2) get_node_add_edge)
    (auto simp: sets_wf_def add_edge_def Let_def)

lemma graph_wf_update_state: "graph_wf L invar g \<Longrightarrow> graph_wf L invar (update_state L now d s g)"
  unfolding graph_wf_def
  by (auto simp: update_state_invar sets_wf_update_state index_complete_ops(3) get_node_update_state)

lemma graph_wf_block_one: "graph_wf L invar g \<Longrightarrow> graph_wf L invar (block_one L f b g)"
  unfolding graph_wf_def
  by (auto simp: block_one_invar sets_wf_block_one index_complete_ops(4) get_node_block_one)

lemma graph_wf_unblock_one: "graph_wf L invar g \<Longrightarrow> graph_wf L invar (fst (unblock_one L f b (g, u)))"
  unfolding graph_wf_def
  by (auto simp: unblock_one_invar sets_wf_unblock_one index_complete_ops(5) get_node_unblock_one)

lemma graph_wf_failure_map:
  "graph_wf L invar g \<Longrightarrow> distinct (map fst m) \<Longrightarrow> (\<And>e. e \<in> set m \<Longrightarrow> distinct (snd e)) \<Longrightarrow>
   graph_wf L invar (g\<lparr>transitive_failure_map := m\<rparr>)"
  by (auto simp: graph_wf_def sets_wf_def index_complete_def get_node_def)

lemma graph_wf_propagate:
  assumes "graph_wf L invar g"
  shows "graph_wf L invar (fst (graph_propagate_failure L f g))"
proof (rule propagate_rule)
  fix h :: "'c BuildGraph" and bs :: "DrvId list"
  assume "graph_wf L invar h" "distinct bs"
  then show "graph_wf L invar (h\<lparr>transitive_failure_map := AList.update f bs (transitive_failure_map h)\<rparr>)"
    using set_update_subset[of f bs "transitive_failure_map h"]
    by (intro graph_wf_failure_map) (force simp: graph_wf_def sets_wf_def distinct_update)+
qed (use assms graph_wf_block_one in \<open>auto simp: graph_wf_def\<close>)

lemma graph_wf_clear:
  assumes "graph_wf L invar g"
  shows "graph_wf L invar (fst (graph_clear_failure L f g))"
proof (rule clear_rule)
  show "graph_wf L invar (g\<lparr>transitive_failure_map := AList.delete f (transitive_failure_map g)\<rparr>)"
    using assms set_delete_subset[of f "transitive_failure_map g"]
    by (intro graph_wf_failure_map) (force simp: graph_wf_def sets_wf_def distinct_fst_delete)+
qed (use assms graph_wf_unblock_one in \<open>auto simp: graph_wf_def\<close>)

lemma graph_wf_evict_stale: "graph_wf L invar g \<Longrightarrow> graph_wf L invar (fst (evict_stale_failures now g))"
  by (auto simp: graph_wf_def sets_wf_evict_stale index_complete_def get_node_def evict_stale_frame)

lemma cap_ops:
  assumes "invar (nodes g)"
  shows "graph_capacity L (fst (insert_node L now drv g)) = graph_capacity L g"
    and "graph_capacity L (add_edge L a b g) = graph_capacity L g"
    and "graph_capacity L (update_state L now d s g) = graph_capacity L g"
    and "graph_capacity L (fst (graph_propagate_failure L f g)) = graph_capacity L g"
    and "graph_capacity L (fst (graph_clear_failure L f g)) = graph_capacity L g"
proof -
  have "nodes (fst (insert_node L now drv g)) = fst (lru_push L (nodes g) (drv_path drv) (from_drv drv))"
    by (auto simp: insert_node_def Let_def split: prod.splits)
  then show "graph_capacity L (fst (insert_node L now drv g)) = graph_capacity L g"
    by (simp add: graph_capacity_def cap_push assms)
  show "graph_capacity L (add_edge L a b g) = graph_capacity L g"
    by (simp add: graph_capacity_def add_edge_def Let_def cap_modify invar_modify assms)
  show "graph_capacity L (update_state L now d s g) = graph_capacity L g"
    by (simp add: graph_capacity_def nodes_update_state cap_modify assms)
  show "graph_capacity L (fst (graph_propagate_failure L f g)) = graph_capacity L g"
    by (rule propagate_rule[OF assms])
      (simp_all add: graph_capacity_def nodes_block_one cap_modify)
  show "graph_capacity L (fst (graph_clear_failure L f g)) = graph_capacity L g"
    by (rule clear_rule[OF assms])
      (simp_all add: graph_capacity_def nodes_unblock_one cap_modify)
qed

lemma node_count_le: "invar (nodes g) \<Longrightarrow> node_count L g \<le> graph_capacity L g"
  using cap_bound by (simp add: node_count_def graph_capacity_def lru_len_def)

lemmas graph_wf_ops = graph_wf_insert_node graph_wf_add_edge graph_wf_update_state
  graph_wf_propagate graph_wf_clear graph_wf_evict_stale

lemma graph_wf_invar [intro]: "graph_wf L invar g \<Longrightarrow> invar (nodes g)"
  by (simp add: graph_wf_def)

lemma graph_wf_new: "graph_new L cap = Some g \<Longrightarrow> graph_wf L invar g \<and> graph_capacity L g = cap"
  by (auto simp: graph_new_def graph_wf_def sets_wf_def index_complete_def get_node_def peek_new
      invar_new graph_capacity_def cap_new split: if_splits)

lemma reachable_wf: "graph_reachable L cap g \<Longrightarrow> graph_wf L invar g \<and> graph_capacity L g = cap"
proof (induction rule: graph_reachable.induct)
  case (prune g now)
  then show ?case by (simp add: graph_wf_evict_stale graph_capacity_def evict_stale_frame)
qed (simp_all add: graph_wf_ops cap_ops graph_wf_invar graph_wf_new)

end

interpretation list_graph: graph_lru list_lru list_lru_invar
  by unfold_locales

end
