(* ===== verification/Graph_Props.thy ===== *)
theory Graph_Props
  imports Build_Graph
begin

text \<open>
  The theorems about the dependency graph: the searches, failure propagation
  and its undoing, the state index, the capacity bound, and recovery from the
  database.  Each is stated for any cache that satisfies the \<open>lru_cache\<close> laws;
  the witnesses use the list-based cache on the small graph \<open>demo_graph\<close>.
\<close>

section \<open>A small graph\<close>

definition demo_drv :: "DrvId \<Rightarrow> DrvBuildState \<Rightarrow> Drv" where
  "demo_drv d s =
     \<lparr> drv_path = d, drv_system = ''x86_64-linux'', drv_prefer_local_build = False,
       drv_required_system_features = None, drv_is_fod = False, drv_build_state = s,
       drv_output_size = None, drv_closure_size = None, drv_pname = None, drv_version = None,
       drv_license_json = None, drv_maintainers_json = None, drv_meta_position = None,
       drv_broken = None, drv_insecure = None \<rparr>"

text \<open>Three drvs, \<open>c\<close> needing \<open>b\<close> needing \<open>a\<close>, in a cache of capacity three.\<close>

definition demo_graph :: "(DrvId, GraphNode) list_lru BuildGraph" where
  "demo_graph =
     add_edge list_lru ''c'' ''b'' (add_edge list_lru ''b'' ''a''
       (fst (insert_node list_lru 0 (demo_drv ''c'' Queued)
         (fst (insert_node list_lru 0 (demo_drv ''b'' Queued)
           (fst (insert_node list_lru 0 (demo_drv ''a'' Building)
             (the (graph_new list_lru 3)))))))))"

lemma demo_reachable: "graph_reachable list_lru 3 demo_graph"
  unfolding demo_graph_def
  by (intro graph_reachable.intros) (simp add: graph_new_def)

lemma demo_invar: "list_lru_invar (nodes demo_graph)"
  using list_graph.reachable_wf[OF demo_reachable] by (simp add: graph_wf_def)

definition demo_node :: "DrvId \<Rightarrow> DrvBuildState \<Rightarrow> DrvId list \<Rightarrow> DrvId list \<Rightarrow> GraphNode" where
  "demo_node d s deps dependents =
     (from_drv (demo_drv d s))\<lparr>gn_dependencies := deps, gn_dependents := dependents\<rparr>"

lemma demo_nodes:
  "nodes demo_graph = (3,
     [(''c'', demo_node ''c'' Queued [''b''] []),
      (''b'', demo_node ''b'' Queued [''a''] [''c'']),
      (''a'', demo_node ''a'' Building [] [''b''])])"
  by (simp add: demo_graph_def insert_node_def graph_new_def add_edge_def Let_def list_lru_push_def
      lru_modify_def add_dependency_def add_dependent_def demo_node_def demo_drv_def from_drv_def)

lemma demo_get_node:
  "get_node list_lru demo_graph ''a'' = Some (demo_node ''a'' Building [] [''b''])"
  "get_node list_lru demo_graph ''b'' = Some (demo_node ''b'' Queued [''a''] [''c''])"
  "get_node list_lru demo_graph ''c'' = Some (demo_node ''c'' Queued [''b''] [])"
  by (simp_all add: get_node_def demo_nodes)

lemma demo_dependents: "get_all_transitive_dependents list_lru demo_graph ''a'' = [''b'', ''c'']"
  by (simp add: get_all_transitive_dependents_def bfs_def while_unfold bfs_pending_def
      get_dependents_def demo_nodes demo_node_def hs_remove_def)

lemma demo_node_sel [simp]:
  "gn_build_state (demo_node d s ds rs) = s" "gn_blocking_failures (demo_node d s ds rs) = []"
  "gn_dependencies (demo_node d s ds rs) = ds" "gn_dependents (demo_node d s ds rs) = rs"
  by (simp_all add: demo_node_def from_drv_def demo_drv_def)

lemma demo_propagate: "snd (graph_propagate_failure list_lru ''a'' demo_graph) = [''b'', ''c'']"
  by (simp add: graph_propagate_failure_def Let_def demo_dependents)

section \<open>Searches\<close>

text \<open>C7: The search for transitive dependents always ends and returns, without
  duplicates, exactly the drvs other than the start that can be reached from
  it by one or more dependent edges of the cached graph.\<close>

theorem transitive_dependents_exact:
  assumes "graph_lru L invar" "invar (nodes g)"
  shows "(\<exists>t. while_option bfs_pending (bfs_step (get_dependents L g)) ([d], [d]) = Some t) \<and>
    set (get_all_transitive_dependents L g d) = {y. (d, y) \<in> (succ_rel (get_dependents L g))\<^sup>+ \<and> y \<noteq> d} \<and>
    distinct (get_all_transitive_dependents L g d)"
proof -
  have "reach (get_dependents L g) {d} - {d} = {y. (d, y) \<in> (succ_rel (get_dependents L g))\<^sup>+ \<and> y \<noteq> d}"
    by (auto simp: rtrancl_eq_or_trancl)
  then show ?thesis
    using graph_lru.transitive_dependents_set[OF assms, of d] graph_lru.search_terminates[OF assms, of "[d]"]
    by simp
qed

theorem transitive_dependents_exact_witness:
  "list_lru_invar (nodes demo_graph) \<and>
   set (get_all_transitive_dependents list_lru demo_graph ''a'') =
     {y. (''a'', y) \<in> (succ_rel (get_dependents list_lru demo_graph))\<^sup>+ \<and> y \<noteq> ''a''} \<and>
   set (get_all_transitive_dependents list_lru demo_graph ''a'') = {''b'', ''c''}"
  using transitive_dependents_exact[OF list_graph.graph_lru_axioms demo_invar, of "''a''"] demo_invar
  by (simp add: demo_dependents)

text \<open>The multi-source search returns every drv reachable from a cached seed, cached
  seeds included, and the per-seed blast radius of a seed is the number of drvs
  that transitively depend on it (zero for a seed that is not cached).\<close>

theorem reverse_reachability_exact:
  assumes "graph_lru L invar" "invar (nodes g)"
  shows "set (reverse_reachable_from_set L g seeds) =
      (succ_rel (get_dependents L g))\<^sup>* `` {s \<in> set seeds. get_node L g s \<noteq> None} \<and>
    map_of (blast_radius_per_seed L g seeds) s =
      (if s \<in> set seeds
       then Some (card {y. (s, y) \<in> (succ_rel (get_dependents L g))\<^sup>+ \<and> y \<noteq> s})
       else None)"
proof -
  let ?r = "\<lambda>s. card {y. (s, y) \<in> (succ_rel (get_dependents L g))\<^sup>+ \<and> y \<noteq> s}"
  have eq: "reach (get_dependents L g) {s} - {s} = {y. (s, y) \<in> (succ_rel (get_dependents L g))\<^sup>+ \<and> y \<noteq> s}" for s
    by (auto simp: rtrancl_eq_or_trancl)
  have len: "length (get_all_transitive_dependents L g s) = ?r s" for s
    using graph_lru.transitive_dependents_set[OF assms, of s] distinct_card
    by (fastforce simp: eq)
  have val: "(if lru_peek L (nodes g) s \<noteq> None then length (get_all_transitive_dependents L g s) else 0) = ?r s" for s
    using len[of s] graph_lru.transitive_dependents_absent[OF assms, of s]
    by (cases "lru_peek L (nodes g) s") (simp_all add: get_node_def)
  have "map_of (fold (\<lambda>s out. AList.update s (?r s) out) seeds out) s =
      (if s \<in> set seeds then Some (?r s) else map_of out s)" for out s
    by (induction seeds arbitrary: out) (auto simp: update_conv')
  then have "map_of (blast_radius_per_seed L g seeds) s = (if s \<in> set seeds then Some (?r s) else None)"
    unfolding blast_radius_per_seed_def val by simp
  then show ?thesis
    using graph_lru.reverse_reachable_set[OF assms, of seeds] by simp
qed

theorem reverse_reachability_exact_witness:
  "list_lru_invar (nodes demo_graph) \<and>
   map_of (blast_radius_per_seed list_lru demo_graph [''a'', ''z'']) ''a'' = Some 2 \<and>
   card {y. (''a'', y) \<in> (succ_rel (get_dependents list_lru demo_graph))\<^sup>+ \<and> y \<noteq> ''a''} = 2"
proof -
  have "map_of (blast_radius_per_seed list_lru demo_graph [''a'', ''z'']) ''a'' = Some 2"
    by (simp add: blast_radius_per_seed_def demo_nodes demo_dependents)
  then show ?thesis
    using reverse_reachability_exact[OF list_graph.graph_lru_axioms demo_invar, of "[''a'', ''z'']" "''a''"] demo_invar
    by simp
qed

section \<open>Failure propagation\<close>

text \<open>C1: Propagating a failure marks every transitive dependent that is cached as
  \<open>TransitiveFailure\<close> with the failed drv among its blockers, keeps everything
  else about it and about all other drvs, files the blocked drvs under
  \<open>TransitiveFailure\<close>, and records exactly the blocked drvs for the failed one.\<close>

theorem propagate_failure_effect:
  assumes "graph_lru L invar" "invar (nodes g)" "graph_propagate_failure L f g = (g', blocked)"
  shows "set blocked = {y. (f, y) \<in> (succ_rel (get_dependents L g))\<^sup>+ \<and> y \<noteq> f} \<and>
    (\<forall>k. get_node L g' k =
      (if k \<in> set blocked
       then map_option (\<lambda>n. n\<lparr>gn_build_state := TransitiveFailure,
              gn_blocking_failures := hs_insert f (gn_blocking_failures n)\<rparr>) (get_node L g k)
       else get_node L g k)) \<and>
    set blocked \<subseteq> set (get_drvs_by_state g' TransitiveFailure) \<and>
    (\<exists>bs. map_of (transitive_failure_map g') f = Some bs \<and> set bs = set blocked) \<and>
    (\<forall>f'. f' \<noteq> f \<longrightarrow> map_of (transitive_failure_map g') f' = map_of (transitive_failure_map g) f')"
proof (intro conjI allI impI)
  have b: "blocked = get_all_transitive_dependents L g f" and
    g': "g' = fst (graph_propagate_failure L f g)"
    using assms(3) by (auto simp: graph_propagate_failure_def Let_def)
  have t: "transitive_failure_map g' = AList.update f (hs_collect blocked) (transitive_failure_map g)"
    using assms(3) by (auto simp: graph_propagate_failure_def Let_def)
  have "reach (get_dependents L g) {f} - {f} = {y. (f, y) \<in> (succ_rel (get_dependents L g))\<^sup>+ \<and> y \<noteq> f}"
    by (auto simp: rtrancl_eq_or_trancl)
  then show "set blocked = {y. (f, y) \<in> (succ_rel (get_dependents L g))\<^sup>+ \<and> y \<noteq> f}"
    using graph_lru.transitive_dependents_set[OF assms(1,2), of f] b by simp
  show "get_node L g' k =
      (if k \<in> set blocked
       then map_option (\<lambda>n. n\<lparr>gn_build_state := TransitiveFailure,
              gn_blocking_failures := hs_insert f (gn_blocking_failures n)\<rparr>) (get_node L g k)
       else get_node L g k)" for k
    using graph_lru.get_node_propagate[OF assms(1,2), of f k]
    by (simp add: g' b mark_blocked_def[abs_def] cong: option.map_cong)
  have filed: "set (by_state h TransitiveFailure) \<union> set bs \<subseteq> set (by_state (fold (block_one L f) bs h) TransitiveFailure)"
    for bs and h :: "'a BuildGraph"
  proof (induction bs arbitrary: h)
    case (Cons x bs)
    have "insert x (set (by_state h TransitiveFailure)) \<subseteq> set (by_state (block_one L f x h) TransitiveFailure)"
      by (auto simp: by_state_block_one split: option.splits)
    then show ?case using Cons[of "block_one L f x h"] by auto
  qed simp
  show "set blocked \<subseteq> set (get_drvs_by_state g' TransitiveFailure)"
    using assms(3) filed[of g blocked] by (auto simp: graph_propagate_failure_def Let_def get_drvs_by_state_def)
  show "\<exists>bs. map_of (transitive_failure_map g') f = Some bs \<and> set bs = set blocked"
    by (simp add: t update_conv')
  show "map_of (transitive_failure_map g') f' = map_of (transitive_failure_map g) f'" if "f' \<noteq> f" for f'
    using that by (simp add: t update_conv')
qed

theorem propagate_failure_effect_witness:
  "list_lru_invar (nodes demo_graph) \<and>
   map_option gn_build_state (get_node list_lru (fst (graph_propagate_failure list_lru ''a'' demo_graph)) ''c'')
     = Some TransitiveFailure"
  using propagate_failure_effect[OF list_graph.graph_lru_axioms demo_invar prod.collapse[symmetric], of "''a''"]
    demo_propagate demo_invar by (simp add: demo_get_node)

text \<open>C2: Clearing a failure right after it was propagated undoes it: of the blocked drvs that are
  cached, those that nothing else blocks become \<open>Queued\<close> and are exactly the
  ones reported, the others keep \<open>TransitiveFailure\<close> and their other blockers;
  drvs outside the blocked set are as before, and the failure is forgotten.\<close>

theorem clear_undoes_propagate:
  assumes "graph_lru L invar" "invar (nodes g)"
    and "graph_propagate_failure L f g = (g1, blocked)" "graph_clear_failure L f g1 = (g2, unblocked)"
  shows "set unblocked = {k \<in> set blocked. \<exists>n. get_node L g k = Some n \<and> set (gn_blocking_failures n) \<subseteq> {f}} \<and>
    (\<forall>k n. k \<in> set blocked \<and> get_node L g k = Some n \<longrightarrow>
      (\<exists>n2. get_node L g2 k = Some n2 \<and>
        gn_build_state n2 = (if k \<in> set unblocked then Queued else TransitiveFailure) \<and>
        set (gn_blocking_failures n2) = set (gn_blocking_failures n) - {f} \<and>
        gn_dependencies n2 = gn_dependencies n \<and> gn_dependents n2 = gn_dependents n)) \<and>
    (\<forall>k. k \<notin> set blocked \<longrightarrow> get_node L g2 k = get_node L g k) \<and>
    map_of (transitive_failure_map g2) f = None"
proof -
  have e: "blocked = get_all_transitive_dependents L g f" "g1 = fst (graph_propagate_failure L f g)"
    "g2 = fst (graph_clear_failure L f g1)" "unblocked = snd (graph_clear_failure L f g1)"
    using assms(3,4) by (auto simp: graph_propagate_failure_def Let_def)
  have t: "map_of (transitive_failure_map g1) f = Some (hs_collect blocked)"
    using assms(3) by (auto simp: graph_propagate_failure_def Let_def update_conv')
  have i1: "invar (nodes g1)" using graph_lru.propagate_invar[OF assms(1,2)] e by simp
  have n1: "get_node L g1 k =
      (if k \<in> set blocked then map_option (mark_blocked f) (get_node L g k) else get_node L g k)" for k
    using graph_lru.get_node_propagate[OF assms(1,2)] e by simp
  have n2: "get_node L g2 k =
      (if k \<in> set blocked then map_option (clear_blocked f) (get_node L g1 k) else get_node L g1 k)" for k
    using graph_lru.get_node_clear[OF assms(1) i1 t] e by simp
  have u: "set unblocked = {k \<in> set blocked. \<exists>n. get_node L g k = Some n \<and> set (gn_blocking_failures n) \<subseteq> {f}}"
    using graph_lru.snd_clear[OF assms(1) i1 t] e(4) n1 by auto
  have "transitive_failure_map g2 = AList.delete f (transitive_failure_map g1)"
    using t e(3) by (simp add: graph_clear_failure_def)
  then show ?thesis
    using u n1 n2 by (auto simp: map_of_delete delete_conv')
qed

theorem clear_undoes_propagate_witness:
  "list_lru_invar (nodes demo_graph) \<and>
   set (snd (graph_clear_failure list_lru ''a'' (fst (graph_propagate_failure list_lru ''a'' demo_graph))))
     = {''b'', ''c''}"
proof -
  have "{k \<in> {''b'', ''c''}. \<exists>n. get_node list_lru demo_graph k = Some n \<and> set (gn_blocking_failures n) \<subseteq> {''a''}}
      = {''b'', ''c''}"
    by (auto simp: demo_get_node)
  then show ?thesis
    using clear_undoes_propagate[OF list_graph.graph_lru_axioms demo_invar prod.collapse[symmetric]
        prod.collapse[symmetric], of "''a''"] demo_invar by (simp add: demo_propagate)
qed

section \<open>Invariants\<close>

text \<open>C12: Whatever sequence of operations built it, a graph never holds more nodes than
  its capacity, every cached node is stored under its own identifier with
  duplicate-free edge lists, and the state index never misses it: it is filed
  under its current state.\<close>

theorem graph_reachable_invariant:
  assumes "graph_lru L invar" "graph_reachable L cap g"
  shows "node_count L g \<le> cap \<and> graph_capacity L g = cap \<and>
    (\<forall>k n. get_node L g k = Some n \<longrightarrow>
      gn_drv_id n = k \<and> distinct (gn_dependencies n) \<and> distinct (gn_dependents n) \<and>
      k \<in> set (get_drvs_by_state g (gn_build_state n)))"
  using graph_lru.reachable_wf[OF assms] graph_lru.node_count_le[OF assms(1), of g]
  by (auto simp: graph_wf_def node_wf_def index_complete_def get_drvs_by_state_def)

theorem graph_reachable_invariant_witness:
  "graph_reachable list_lru 3 demo_graph \<and> node_count list_lru demo_graph \<le> 3 \<and>
   ''b'' \<in> set (get_drvs_by_state demo_graph Queued)"
  using graph_reachable_invariant[OF list_graph.graph_lru_axioms demo_reachable] demo_reachable
  by (auto dest!: spec[of _ "''b''"] simp: demo_get_node)

text \<open>The state index stays exact (each cached drv is filed under its state only)
  under every operation, except that inserting a drv needs that the drv is not
  already filed under another state.\<close>

theorem state_index_stays_exact:
  assumes "graph_lru L invar" "invar (nodes g)" "index_exact L g"
  shows "index_exact L (update_state L now d s g) \<and> index_exact L (add_edge L a b g) \<and>
    index_exact L (fst (graph_propagate_failure L f g)) \<and>
    index_exact L (fst (graph_clear_failure L f g)) \<and>
    index_exact L (fst (evict_stale_failures now g)) \<and>
    ((\<forall>s. s \<noteq> drv_build_state drv \<longrightarrow> drv_path drv \<notin> set (by_state g s)) \<longrightarrow>
      index_exact L (fst (insert_node L now drv g)))"
proof -
  have tfm: "index_exact L h \<Longrightarrow> index_exact L (h\<lparr>transitive_failure_map := m\<rparr>)" for h m
    by (simp add: index_exact_def get_node_def)
  have "index_exact L (fst (graph_propagate_failure L f g))"
    by (rule graph_lru.propagate_rule[OF assms(1,2)])
      (use assms tfm graph_lru.index_exact_ops(4)[OF assms(1)] in auto)
  moreover have "index_exact L (fst (graph_clear_failure L f g))"
    by (rule graph_lru.clear_rule[OF assms(1,2)])
      (use assms tfm graph_lru.index_exact_ops(5)[OF assms(1)] in auto)
  ultimately show ?thesis
    using graph_lru.index_exact_ops[OF assms] assms(3)
    by (simp add: index_exact_def get_node_def evict_stale_frame)
qed

lemma demo_index_exact: "index_exact list_lru demo_graph"
proof -
  have b: "by_state demo_graph = (\<lambda>_. [])(Building := [''a''], Queued := [''b'', ''c''])"
    by (rule ext) (simp add: demo_graph_def by_state_insert_node by_state_add_edge graph_new_def
        demo_drv_def index_insert_def hs_insert_def)
  show ?thesis
    unfolding index_exact_def
  proof (intro allI impI)
    fix k n s
    assume "get_node list_lru demo_graph k = Some n"
    then have "(k, n) \<in> {(''a'', demo_node ''a'' Building [] [''b'']),
        (''b'', demo_node ''b'' Queued [''a''] [''c'']), (''c'', demo_node ''c'' Queued [''b''] [])}"
      by (auto simp: get_node_def demo_nodes split: if_splits)
    then show "k \<in> set (by_state demo_graph s) \<longleftrightarrow> s = gn_build_state n"
      by (elim insertE emptyE) (simp_all add: b)
  qed
qed

theorem state_index_stays_exact_witness:
  "index_exact list_lru demo_graph \<and>
   index_exact list_lru (update_state list_lru 5 ''a'' (Completed Success) demo_graph)"
  using state_index_stays_exact[OF list_graph.graph_lru_axioms demo_invar demo_index_exact] demo_index_exact
  by blast

text \<open>Re-inserting a cached drv with another state (what a re-evaluation does to a drv
  that has progressed) breaks the exactness: the drv stays filed under its old
  state as well, and its edges are dropped from the node.\<close>

theorem reinsert_breaks_index:
  assumes "graph_lru L invar" "invar (nodes g)" "index_exact L g"
    and "get_node L g (drv_path drv) = Some n" "gn_build_state n \<noteq> drv_build_state drv"
  shows "drv_path drv \<in> set (get_drvs_by_state (fst (insert_node L now drv g)) (gn_build_state n)) \<and>
    drv_path drv \<in> set (get_drvs_by_state (fst (insert_node L now drv g)) (drv_build_state drv)) \<and>
    get_dependencies L (fst (insert_node L now drv g)) (drv_path drv) = [] \<and>
    get_dependents L (fst (insert_node L now drv g)) (drv_path drv) = [] \<and>
    \<not> index_exact L (fst (insert_node L now drv g))"
proof -
  obtain g' ev where i: "insert_node L now drv g = (g', ev)" by fastforce
  have n: "get_node L g' (drv_path drv) = Some (from_drv drv)"
    using graph_lru.get_node_insert_node[OF assms(1,2) i] by simp
  have old: "drv_path drv \<in> set (by_state g (gn_build_state n))"
    using assms(3,4) by (simp add: index_exact_def)
  have b: "by_state g' = index_insert (drv_build_state drv) (drv_path drv) (by_state g)"
    using by_state_insert_node[of L now drv g] i by simp
  have "\<not> index_exact L g'"
    unfolding index_exact_def
    using n old b assms(5)
    by (auto intro!: exI[of _ "drv_path drv"] exI[of _ "from_drv drv"] exI[of _ "gn_build_state n"])
      (simp_all add: from_drv_def)
  then show ?thesis
    using i b old n by (auto simp: get_drvs_by_state_def get_dependencies_def get_dependents_def
        get_node_def from_drv_def split: option.splits)
qed

theorem reinsert_breaks_index_witness:
  "index_exact list_lru demo_graph \<and>
   \<not> index_exact list_lru (fst (insert_node list_lru 7 (demo_drv ''a'' Queued) demo_graph))"
proof -
  have d: "drv_path (demo_drv ''a'' Queued) = ''a''" "drv_build_state (demo_drv ''a'' Queued) = Queued"
    by (simp_all add: demo_drv_def)
  have "get_node list_lru demo_graph (drv_path (demo_drv ''a'' Queued))
      = Some (demo_node ''a'' Building [] [''b''])"
    by (simp add: d demo_get_node)
  then show ?thesis
    using reinsert_breaks_index[OF list_graph.graph_lru_axioms demo_invar demo_index_exact,
        of "demo_drv ''a'' Queued"] demo_index_exact by (simp add: d)
qed

text \<open>Inserting into a full cache evicts the least recently pushed node whether or not it
  is pinned: a pinned drv disappears from the graph while it stays in the
  pinned set and in the state index.\<close>

theorem full_cache_evicts_pinned:
  assumes "graph_lru L invar" "invar (nodes g)" "get_node L g (drv_path drv) = None"
    and "node_count L g = graph_capacity L g" "last (lru_iter L (nodes g)) = (k, n)"
    and "k \<in> set (pinned g)" "k \<in> set (by_state g (gn_build_state n))"
    and "insert_node L now drv g = (g', evicted)"
  shows "evicted = Some (k, n) \<and> get_node L g' k = None \<and> k \<in> set (pinned g') \<and>
    k \<in> set (get_drvs_by_state g' (gn_build_state n))"
proof -
  have l: "lru_cache L invar" using assms(1) by (simp add: graph_lru_def)
  have ev: "evicted = Some (k, n)"
    using lru_cache.push_full[OF l assms(2), of "drv_path drv" "from_drv drv"] assms(3-5,8)
    by (auto simp: get_node_def node_count_def graph_capacity_def lru_len_def insert_node_def Let_def
        split: prod.splits if_splits)
  moreover have "get_node L g k = Some n"
    using lru_cache.push_evicted[OF l assms(2), of "drv_path drv" "from_drv drv" k n] ev assms(8)
    by (auto simp: get_node_def insert_node_def Let_def split: prod.splits if_splits)
  then have "k \<noteq> drv_path drv" using assms(3) by auto
  then have "get_node L g' k = None"
    using graph_lru.get_node_insert_node[OF assms(1,2,8), of k] ev by simp
  moreover have "k \<in> set (pinned g')"
    using assms(6,8) by (auto simp: insert_node_def Let_def split: prod.splits if_splits)
  moreover have "k \<in> set (by_state g' (gn_build_state n))"
    using assms(7,8) by_state_insert_node[of L now drv g] by auto
  ultimately show ?thesis by (simp add: get_drvs_by_state_def)
qed

theorem full_cache_evicts_pinned_witness:
  "''a'' \<in> set (pinned demo_graph) \<and>
   get_node list_lru (fst (insert_node list_lru 9 (demo_drv ''d'' Queued) demo_graph)) ''a'' = None"
proof -
  have p: "''a'' \<in> set (pinned demo_graph)"
    by (simp add: demo_graph_def insert_node_def graph_new_def add_edge_def Let_def demo_drv_def
        split: prod.splits)
  have "node_count list_lru demo_graph = graph_capacity list_lru demo_graph"
    "last (lru_iter list_lru (nodes demo_graph)) = (''a'', demo_node ''a'' Building [] [''b''])"
    "get_node list_lru demo_graph (drv_path (demo_drv ''d'' Queued)) = None"
    by (simp_all add: node_count_def lru_len_def graph_capacity_def demo_nodes get_node_def demo_drv_def)
  moreover have "''a'' \<in> set (by_state demo_graph Building)"
    using demo_index_exact by (simp add: index_exact_def demo_get_node)
  ultimately show ?thesis
    using full_cache_evicts_pinned[OF list_graph.graph_lru_axioms demo_invar, of "demo_drv ''d'' Queued" "''a''"
        "demo_node ''a'' Building [] [''b'']", OF _ _ _ p _ prod.collapse[symmetric]] p by simp
qed

text \<open>Pruning drops exactly the failure records older than the time to live, together
  with what they blocked, reports their number, and leaves the nodes, the index
  and the pins alone.\<close>

theorem evict_stale_failures_exact:
  assumes "distinct (map fst (failed_drvs g))" "evict_stale_failures now g = (g', count)"
  shows "set (failed_drvs g') = {(d, ts) \<in> set (failed_drvs g). now - int (failure_ttl g) \<le> ts} \<and>
    count = card {(d, ts) \<in> set (failed_drvs g). ts < now - int (failure_ttl g)} \<and>
    map_of (transitive_failure_map g') d =
      (if \<exists>ts. (d, ts) \<in> set (failed_drvs g) \<and> ts < now - int (failure_ttl g) then None
       else map_of (transitive_failure_map g) d) \<and>
    nodes g' = nodes g \<and> by_state g' = by_state g \<and> pinned g' = pinned g"
proof -
  let ?cut = "now - int (failure_ttl g)"
  have g': "g' = fst (evict_stale_failures now g)" using assms(2) by simp
  have key: "fst e \<in> stale_failures now g \<longleftrightarrow> snd e < ?cut" if "e \<in> set (failed_drvs g)" for e
    using that assms(1)
      inj_on_image_mem_iff[of fst "set (failed_drvs g)" e "{x \<in> set (failed_drvs g). snd x < ?cut}"]
    by (simp add: stale_failures_def distinct_map)
  have "set (failed_drvs g') = {(d, ts) \<in> set (failed_drvs g). ?cut \<le> ts}"
    using key by (force simp: g' evict_stale_maps(1))
  moreover have "count = card {(d, ts) \<in> set (failed_drvs g). ts < ?cut}"
  proof -
    have "count = length (filter (\<lambda>(_, ts). ts < ?cut) (failed_drvs g))"
      using assms(2) by (auto simp: evict_stale_failures_def Let_def)
    moreover have "distinct (filter (\<lambda>(_, ts). ts < ?cut) (failed_drvs g))"
      using assms(1) by (simp add: distinct_map)
    moreover have "set (filter (\<lambda>(_, ts). ts < ?cut) (failed_drvs g)) = {(d, ts) \<in> set (failed_drvs g). ts < ?cut}"
      by auto
    ultimately show ?thesis by (metis distinct_card)
  qed
  moreover have "map_of (filter (\<lambda>e. fst e \<notin> S) m) d = (if d \<in> S then None else map_of m d)" for S and m :: "(DrvId \<times> DrvId list) list"
    by (induction m) auto
  then have "map_of (transitive_failure_map g') d = (if d \<in> stale_failures now g then None
       else map_of (transitive_failure_map g) d)"
    by (simp add: g' evict_stale_maps(2))
  moreover have "d \<in> stale_failures now g \<longleftrightarrow> (\<exists>ts. (d, ts) \<in> set (failed_drvs g) \<and> ts < ?cut)"
    by (force simp: stale_failures_def)
  ultimately show ?thesis by (simp add: g' evict_stale_frame)
qed

theorem evict_stale_failures_exact_witness:
  "snd (evict_stale_failures 200000000000000
     (update_state list_lru 3 ''a'' (Completed Failure) demo_graph)) = 1"
proof -
  let ?g = "update_state list_lru 3 ''a'' (Completed Failure) demo_graph"
  have "failed_drvs demo_graph = []"
    by (simp add: demo_graph_def insert_node_def graph_new_def add_edge_def Let_def demo_drv_def split: prod.splits)
  moreover have "failure_ttl demo_graph = DEFAULT_FAILURE_TTL"
    by (simp add: demo_graph_def insert_node_def graph_new_def add_edge_def Let_def demo_drv_def split: prod.splits)
  ultimately have f: "failed_drvs ?g = [(''a'', 3)]" "failure_ttl ?g = 86400000000000"
    by (simp_all add: update_state_def demo_nodes Let_def DEFAULT_FAILURE_TTL_def from_secs_def nanos_per_sec_def)
  have "{(d, ts). (d = ''a'' \<and> ts = 3) \<and> ts < (113600000000000::int)} = {(''a'', 3)}" by auto
  then show ?thesis
    using evict_stale_failures_exact[OF _ prod.collapse[symmetric], of ?g "200000000000000"] by (simp add: f)
qed

section \<open>Recovery from the database\<close>

lemma get_dependents_node:
  "get_dependents L g k = (case get_node L g k of Some n \<Rightarrow> gn_dependents n | None \<Rightarrow> [])"
  by (simp add: get_dependents_def get_node_def)

abbreviation loaded_node :: "Drv \<Rightarrow> GraphNode" where
  "loaded_node d \<equiv>
     from_drv (d\<lparr>drv_build_state := normalize_state (drv_build_state d), drv_prefer_local_build := False\<rparr>)"

abbreviation propagate_all :: "'c node_lru \<Rightarrow> DrvId list \<Rightarrow> 'c BuildGraph \<Rightarrow> 'c BuildGraph" where
  "propagate_all L fs g \<equiv> fold (\<lambda>f g. fst (graph_propagate_failure L f g)) fs g"

abbreviation add_edges :: "'c node_lru \<Rightarrow> (DrvId \<times> DrvId) list \<Rightarrow> 'c BuildGraph \<Rightarrow> 'c BuildGraph" where
  "add_edges L refs g \<equiv> fold (\<lambda>(referrer, reference). add_edge L referrer reference) refs g"

lemma normalize_state_eq: "normalize_state s = (if s \<in> {Building, Buildable} then Queued else s)"
  by (cases s rule: normalize_state.cases) auto

lemma normalize_state_failure [simp]: "normalize_state s = Completed Failure \<longleftrightarrow> s = Completed Failure"
  by (cases s rule: normalize_state.cases) auto

lemma loaded_node_sel [simp]:
  "gn_build_state (loaded_node d) = normalize_state (drv_build_state d)"
  "gn_dependents (loaded_node d) = []"
  by (simp_all add: from_drv_def)

lemma failed_drvs_load_drv:
  "fst ` set (failed_drvs (load_drv L now d g)) = fst ` set (failed_drvs g) \<union>
     (if drv_build_state d = Completed Failure then {drv_path d} else {})"
  by (auto simp: load_drv_def insert_node_def Let_def dom_update split: prod.splits)

lemma failed_drvs_fold_load:
  "fst ` set (failed_drvs (fold (load_drv L now) ds g)) = fst ` set (failed_drvs g) \<union>
     drv_path ` {d \<in> set ds. drv_build_state d = Completed Failure}"
  by (induction ds arbitrary: g) (auto simp: failed_drvs_load_drv)

lemma failed_drvs_add_edges [simp]: "failed_drvs (add_edges L refs g) = failed_drvs g"
  by (induction refs arbitrary: g) (auto simp: add_edge_def Let_def)

context graph_lru begin

lemma load_drv_room:
  assumes "invar (nodes g)" "get_node L g (drv_path d) = None"
    and "length (lru_iter L (nodes g)) < lru_cap L (nodes g)"
  shows "invar (nodes (load_drv L now d g)) \<and>
    length (lru_iter L (nodes (load_drv L now d g))) = Suc (length (lru_iter L (nodes g))) \<and>
    lru_cap L (nodes (load_drv L now d g)) = lru_cap L (nodes g) \<and>
    get_node L (load_drv L now d g) k = (if k = drv_path d then Some (loaded_node d) else get_node L g k)"
proof -
  have n: "nodes (load_drv L now d g) = fst (lru_push L (nodes g) (drv_path d) (loaded_node d))"
    by (auto simp: load_drv_def insert_node_def Let_def split: prod.splits)
  then show ?thesis
    using assms push_room[OF assms(1), of "drv_path d" "loaded_node d"] invar_push[OF assms(1)]
    by (simp add: get_node_def peek_push cap_push)
qed

lemma fold_load_room:
  assumes "invar (nodes g)" "distinct (map drv_path ds)" "\<forall>d\<in>set ds. get_node L g (drv_path d) = None"
    and "length (lru_iter L (nodes g)) + length ds \<le> lru_cap L (nodes g)"
  shows "invar (nodes (fold (load_drv L now) ds g)) \<and>
    get_node L (fold (load_drv L now) ds g) k =
      (case map_of (map (\<lambda>d. (drv_path d, d)) ds) k of Some d \<Rightarrow> Some (loaded_node d) | None \<Rightarrow> get_node L g k)"
  using assms
proof (induction ds arbitrary: g)
  case (Cons d ds)
  note r = load_drv_room[OF Cons.prems(1), of d now]
  have neq: "\<forall>d'\<in>set ds. drv_path d' \<noteq> drv_path d" using Cons.prems(2) by simp (metis image_eqI)
  have notin: "map_of (map (\<lambda>d. (drv_path d, d)) ds) (drv_path d) = None"
    using Cons.prems(2) by (auto simp: map_of_eq_None_iff)
  have "invar (nodes (fold (load_drv L now) ds (load_drv L now d g))) \<and>
      get_node L (fold (load_drv L now) ds (load_drv L now d g)) k =
      (case map_of (map (\<lambda>d. (drv_path d, d)) ds) k of Some d \<Rightarrow> Some (loaded_node d)
       | None \<Rightarrow> get_node L (load_drv L now d g) k)"
    by (rule Cons.IH) (use Cons.prems r neq in auto)
  then show ?case using r Cons.prems notin by (auto split: option.splits)
qed simp

lemma add_edges_spec:
  assumes "invar (nodes g)"
  shows "invar (nodes (add_edges L refs g)) \<and>
    rel_option (\<lambda>n n'. gn_build_state n' = gn_build_state n \<and>
        set (gn_dependents n') = set (gn_dependents n) \<union> {a. (a, k) \<in> set refs})
      (get_node L g k) (get_node L (add_edges L refs g) k)"
  using assms
proof (induction refs arbitrary: g)
  case Nil
  then show ?case by (simp add: option.rel_refl)
next
  case (Cons r refs)
  obtain a b where r: "r = (a, b)" by fastforce
  have "invar (nodes (add_edge L a b g))" using Cons.prems by (rule add_edge_invar)
  from Cons.IH[OF this] show ?case
    unfolding r by (cases "get_node L g k") (auto simp: get_node_add_edge[OF Cons.prems] option_rel_Some1)
qed

lemma get_dependents_propagate:
  "invar (nodes g) \<Longrightarrow> get_dependents L (fst (graph_propagate_failure L f g)) = get_dependents L g"
proof (rule ext)
  fix k assume i: "invar (nodes g)"
  show "get_dependents L (fst (graph_propagate_failure L f g)) k = get_dependents L g k"
    using get_node_propagate[OF i, of f k]
    by (auto simp: get_dependents_def get_node_def split: option.splits if_splits)
qed

lemma propagate_all_spec:
  assumes "invar (nodes g)"
  shows "map_option gn_build_state (get_node L (propagate_all L fs g) k) =
    map_option (\<lambda>n. if \<exists>f\<in>set fs. k \<in> set (get_all_transitive_dependents L g f)
      then TransitiveFailure else gn_build_state n) (get_node L g k)"
  using assms
proof (induction fs arbitrary: g)
  case (Cons f fs)
  have "get_all_transitive_dependents L (fst (graph_propagate_failure L f g)) = get_all_transitive_dependents L g"
    by (rule ext) (simp add: get_all_transitive_dependents_def get_dependents_propagate[OF Cons.prems])
  then show ?case
    using Cons.IH[OF propagate_invar[OF Cons.prems, of f]] get_node_propagate[OF Cons.prems, of f k]
    by (cases "get_node L g k") auto
qed (simp add: option.map_ident)

end

text \<open>C11: Loading the graph from the database, when the cache holds all drvs, yields a node
  for every stored drv and no other.  A drv that transitively depends (through
  stored drvs) on a permanently failed one comes up as \<open>TransitiveFailure\<close>;
  every other keeps its state, with the transient \<open>Building\<close> and \<open>Buildable\<close>
  put back to \<open>Queued\<close>.\<close>

theorem from_database_recovers:
  assumes "graph_lru L invar" "db_get_all_drvs D db = Inr drvs" "db_get_all_refs D db = Inr refs"
    and "distinct (map drv_path drvs)" "length drvs \<le> capacity" "0 < capacity"
  shows "\<exists>g. from_database L now D db capacity = Some (Inr g) \<and>
    (\<forall>k. get_node L g k = None \<longleftrightarrow> k \<notin> drv_path ` set drvs) \<and>
    (\<forall>d\<in>set drvs. map_option gn_build_state (get_node L g (drv_path d)) = Some
      (if \<exists>f\<in>set drvs. drv_build_state f = Completed Failure \<and> drv_path f \<noteq> drv_path d \<and>
          (drv_path f, drv_path d) \<in> {(b, a). (a, b) \<in> set refs \<and> b \<in> drv_path ` set drvs}\<^sup>+
       then TransitiveFailure
       else if drv_build_state d \<in> {Building, Buildable} then Queued else drv_build_state d))"
proof -
  have l: "lru_cache L invar" using assms(1) by (simp add: graph_lru_def)
  obtain g0 where g0: "graph_new L capacity = Some g0" using assms(6) by (simp add: graph_new_def)
  have i0: "invar (nodes g0)" "lru_iter L (nodes g0) = []" "lru_cap L (nodes g0) = capacity"
      "failed_drvs g0 = []" "get_node L g0 k = None" for k
    using g0 assms(6) lru_cache.invar_new[OF l] lru_cache.iter_new[OF l] lru_cache.cap_new[OF l]
      lru_cache.peek_new[OF l] by (auto simp: graph_new_def get_node_def split: if_splits)
  define g1 where "g1 = fold (load_drv L now) drvs g0"
  define g2 where "g2 = add_edges L refs g1"
  define g where "g = propagate_all L (map fst (failed_drvs g2)) g2"
  have res: "from_database L now D db capacity = Some (Inr g)"
    by (simp add: from_database_def assms(2,3) g0 g_def g2_def g1_def Let_def)
  have n1: "invar (nodes g1)" "get_node L g1 k = map_option loaded_node (map_of (map (\<lambda>d. (drv_path d, d)) drvs) k)" for k
    using graph_lru.fold_load_room[OF assms(1) i0(1) assms(4), of now k] i0 assms(5)
    by (auto simp: g1_def split: option.splits)
  have n2: "invar (nodes g2)" "rel_option (\<lambda>n n'. gn_build_state n' = gn_build_state n \<and>
        set (gn_dependents n') = set (gn_dependents n) \<union> {a. (a, k) \<in> set refs})
      (get_node L g1 k) (get_node L g2 k)" for k
    using graph_lru.add_edges_spec[OF assms(1) n1(1)] by (auto simp: g2_def)
  have at: "map_of (map (\<lambda>d. (drv_path d, d)) drvs) (drv_path d) = Some d" if "d \<in> set drvs" for d
    using that assms(4) by (intro map_of_is_SomeI) (auto simp: o_def)
  have absent: "map_of (map (\<lambda>d. (drv_path d, d)) drvs) k = None \<longleftrightarrow> k \<notin> drv_path ` set drvs" for k
    by (simp add: map_of_eq_None_iff image_image)
  have dom2: "get_node L g2 k = None \<longleftrightarrow> k \<notin> drv_path ` set drvs" for k
    using n2(2)[of k] absent[of k] by (cases "get_node L g2 k") (auto simp: n1(2) option_rel_Some2)
  have rel: "succ_rel (get_dependents L g2) = {(b, a). (a, b) \<in> set refs \<and> b \<in> drv_path ` set drvs}"
  proof -
    have "a \<in> set (get_dependents L g2 b) \<longleftrightarrow> (a, b) \<in> set refs \<and> b \<in> drv_path ` set drvs" for a b
      using n2(2)[of b] absent[of b] dom2[of b]
      by (cases "get_node L g2 b") (auto simp: n1(2) option_rel_Some2 get_dependents_node)
    then show ?thesis by (auto simp: succ_rel_def)
  qed
  have reach: "k \<in> set (get_all_transitive_dependents L g2 f) \<longleftrightarrow>
      k \<noteq> f \<and> (f, k) \<in> {(b, a). (a, b) \<in> set refs \<and> b \<in> drv_path ` set drvs}\<^sup>+" for k f
    using graph_lru.transitive_dependents_set[OF assms(1) n2(1), of f]
    by (auto simp: rel rtrancl_eq_or_trancl)
  have fs: "fst ` set (failed_drvs g2) = drv_path ` {d \<in> set drvs. drv_build_state d = Completed Failure}"
    using failed_drvs_fold_load[of L now drvs g0] i0(4) by (simp add: g2_def g1_def)
  note st = graph_lru.propagate_all_spec[OF assms(1) n2(1), of "map fst (failed_drvs g2)", folded g_def]
  have "get_node L g k = None \<longleftrightarrow> k \<notin> drv_path ` set drvs" for k
    using arg_cong[OF st[of k], of "\<lambda>x. x = None"] dom2[of k] by simp
  moreover have "map_option gn_build_state (get_node L g (drv_path d)) = Some
      (if \<exists>f\<in>set drvs. drv_build_state f = Completed Failure \<and> drv_path f \<noteq> drv_path d \<and>
          (drv_path f, drv_path d) \<in> {(b, a). (a, b) \<in> set refs \<and> b \<in> drv_path ` set drvs}\<^sup>+
       then TransitiveFailure else normalize_state (drv_build_state d))" if d: "d \<in> set drvs" for d
  proof -
    have "map_option gn_build_state (get_node L g2 (drv_path d)) = Some (normalize_state (drv_build_state d))"
      using n2(2)[of "drv_path d"] at[OF d] by (auto simp: n1(2) option_rel_Some1)
    moreover have "(\<exists>f\<in>set (map fst (failed_drvs g2)). drv_path d \<in> set (get_all_transitive_dependents L g2 f)) \<longleftrightarrow>
        (\<exists>f\<in>set drvs. drv_build_state f = Completed Failure \<and> drv_path f \<noteq> drv_path d \<and>
          (drv_path f, drv_path d) \<in> {(b, a). (a, b) \<in> set refs \<and> b \<in> drv_path ` set drvs}\<^sup>+)"
      unfolding reach set_map fs by auto
    ultimately show ?thesis unfolding st by (cases "get_node L g2 (drv_path d)") auto
  qed
  ultimately show ?thesis using res by (auto simp only: normalize_state_eq)
qed

definition demo_db :: "unit GraphDatabase" where
  "demo_db =
     \<lparr> db_get_drv = (\<lambda>_ _. Inr None), db_update_drv_status = (\<lambda>_ _ _. ((), Inr ())),
       db_get_all_drvs = (\<lambda>_. Inr [demo_drv ''a'' (Completed Failure), demo_drv ''b'' Building]),
       db_get_all_refs = (\<lambda>_. Inr [(''b'', ''a'')]),
       db_get_drv_refs = (\<lambda>_ _. Inr []), db_get_drv_dependents = (\<lambda>_ _. Inr []),
       db_insert_transitive_failures = (\<lambda>_ _ _. ((), Inr ())),
       db_clear_transitive_failures = (\<lambda>_ _. ((), Inr [])) \<rparr>"

theorem from_database_recovers_witness:
  "\<exists>g. from_database list_lru 0 demo_db () 10 = Some (Inr g) \<and>
     map_option gn_build_state (get_node list_lru g ''b'') = Some TransitiveFailure"
proof -
  let ?E = "{(b, a). (a, b) \<in> set [(''b'', ''a'')] \<and> b \<in> drv_path ` set [demo_drv ''a'' (Completed Failure), demo_drv ''b'' Building]}"
  have "(''a'', ''b'') \<in> ?E\<^sup>+" by (rule r_into_trancl) (simp add: demo_drv_def)
  then show ?thesis
    using from_database_recovers[OF list_graph.graph_lru_axioms, of demo_db "()"
        "[demo_drv ''a'' (Completed Failure), demo_drv ''b'' Building]" "[(''b'', ''a'')]" 10 0]
    by (auto simp: demo_db_def demo_drv_def)
qed

end
