(* ===== verification/Eviction.thy ===== *)
theory Eviction
  imports Graph_Props
begin

text \<open>
  Eviction candidates (\<open>graph/src/eviction.rs\<close>) and the periodic dry-run check
  that reports them (\<open>graph/src/service/metrics.rs\<close>).  The tracking maps of the
  service, last access times and reference counts, are arguments.
\<close>

section \<open>Tiers and candidates\<close>

datatype EvictionTier = Tier1 | Tier2 | Tier3

datatype TargetState = TargetTransitiveFailure | TargetCompletedFailure | TargetCompletedSuccess

fun target_state :: "EvictionTier \<Rightarrow> TargetState" where
  "target_state Tier1 = TargetTransitiveFailure"
| "target_state Tier2 = TargetCompletedFailure"
| "target_state Tier3 = TargetCompletedSuccess"

fun tier_name :: "EvictionTier \<Rightarrow> string" where
  "tier_name Tier1 = ''tier1_transitive_failure''"
| "tier_name Tier2 = ''tier2_completed_failure''"
| "tier_name Tier3 = ''tier3_completed_success''"

text \<open>The declaration order of the enum (\<open>derive(Ord)\<close>).\<close>

fun tier_rank :: "EvictionTier \<Rightarrow> nat" where
  "tier_rank Tier1 = 1"
| "tier_rank Tier2 = 2"
| "tier_rank Tier3 = 3"

record EvictionConfig =
  tier1_age_secs :: nat
  tier2_age_secs :: nat
  tier3_age_secs :: nat

definition EvictionConfig_default :: EvictionConfig where
  "EvictionConfig_default = \<lparr> tier1_age_secs = 3600, tier2_age_secs = 21600, tier3_age_secs = 86400 \<rparr>"

definition min_age_for_tier :: "EvictionConfig \<Rightarrow> EvictionTier \<Rightarrow> duration" where
  "min_age_for_tier cfg tier =
     from_secs (case tier of Tier1 \<Rightarrow> tier1_age_secs cfg | Tier2 \<Rightarrow> tier2_age_secs cfg | Tier3 \<Rightarrow> tier3_age_secs cfg)"

record EvictionCandidate =
  ec_drv_id :: DrvId
  ec_tier :: EvictionTier
  ec_age :: duration
  ec_ref_count :: nat

fun state_drvs :: "'c BuildGraph \<Rightarrow> TargetState \<Rightarrow> DrvId list" where
  "state_drvs g TargetTransitiveFailure = get_drvs_by_state g TransitiveFailure"
| "state_drvs g TargetCompletedFailure = get_drvs_by_state g (Completed Failure)"
| "state_drvs g TargetCompletedSuccess = get_drvs_by_state g (Completed Success)"

definition candidate_of ::
  "(DrvId \<rightharpoonup> instant) \<Rightarrow> (DrvId \<rightharpoonup> nat) \<Rightarrow> EvictionTier \<Rightarrow> duration \<Rightarrow> instant \<Rightarrow> DrvId \<Rightarrow> EvictionCandidate option" where
  "candidate_of last_accessed ref_counts tier min_age now drv_id =
     (let ref_count = (case ref_counts drv_id of Some n \<Rightarrow> n | None \<Rightarrow> 0) in
      if ref_count \<noteq> 0 then None
      else
        let last_access = (case last_accessed drv_id of Some t \<Rightarrow> t | None \<Rightarrow> now);
            age = duration_since now last_access
        in if age < min_age then None
           else Some \<lparr> ec_drv_id = drv_id, ec_tier = tier, ec_age = age, ec_ref_count = ref_count \<rparr>)"

text \<open>\<open>sort_by\<close> is stable and compares ages in descending order.\<close>

definition select_from_tier ::
  "EvictionConfig \<Rightarrow> 'c BuildGraph \<Rightarrow> (DrvId \<rightharpoonup> instant) \<Rightarrow> (DrvId \<rightharpoonup> nat) \<Rightarrow> EvictionTier \<Rightarrow> instant \<Rightarrow> nat
    \<Rightarrow> EvictionCandidate list" where
  "select_from_tier cfg g last_accessed ref_counts tier now limit =
     (let min_age = min_age_for_tier cfg tier;
          tier_candidates = List.map_filter (candidate_of last_accessed ref_counts tier min_age now)
            (state_drvs g (target_state tier))
      in take limit (sort_key (\<lambda>c. - int (ec_age c)) tier_candidates))"

fun select_tiers ::
  "EvictionConfig \<Rightarrow> 'c BuildGraph \<Rightarrow> (DrvId \<rightharpoonup> instant) \<Rightarrow> (DrvId \<rightharpoonup> nat) \<Rightarrow> instant \<Rightarrow> nat
    \<Rightarrow> EvictionTier list \<Rightarrow> EvictionCandidate list \<Rightarrow> EvictionCandidate list" where
  "select_tiers cfg g la rc now target_count [] candidates = candidates"
| "select_tiers cfg g la rc now target_count (tier # tiers) candidates =
     (if target_count \<le> length candidates then candidates
      else select_tiers cfg g la rc now target_count tiers
             (candidates @ select_from_tier cfg g la rc tier now (target_count - length candidates)))"

definition select_candidates ::
  "EvictionConfig \<Rightarrow> 'c BuildGraph \<Rightarrow> (DrvId \<rightharpoonup> instant) \<Rightarrow> (DrvId \<rightharpoonup> nat) \<Rightarrow> instant \<Rightarrow> nat
    \<Rightarrow> EvictionCandidate list" where
  "select_candidates cfg g la rc now target_count =
     take target_count (select_tiers cfg g la rc now target_count [Tier1, Tier2, Tier3] [])"

definition usize_max :: nat where
  "usize_max = 2 ^ 64 - 1"

definition count_candidates_by_tier ::
  "EvictionConfig \<Rightarrow> 'c BuildGraph \<Rightarrow> (DrvId \<rightharpoonup> instant) \<Rightarrow> (DrvId \<rightharpoonup> nat) \<Rightarrow> instant \<Rightarrow> EvictionTier \<Rightarrow> nat" where
  "count_candidates_by_tier cfg g la rc now tier =
     length (select_from_tier cfg g la rc tier now usize_max)"

section \<open>The dry-run check\<close>

text \<open>What the check logs: the number of candidates, their share of the nodes in per cent,
  the number per tier, and the candidates the code calls a bug.\<close>

record DryRunReport =
  dr_count :: nat
  dr_percent :: nat
  dr_tier1 :: nat
  dr_tier2 :: nat
  dr_tier3 :: nat
  dr_invalid :: nat

definition maybe_dry_run_eviction_check ::
  "'c node_lru \<Rightarrow> EvictionConfig \<Rightarrow> 'c BuildGraph \<Rightarrow> (DrvId \<rightharpoonup> instant) \<Rightarrow> (DrvId \<rightharpoonup> nat) \<Rightarrow> instant
    \<Rightarrow> instant \<Rightarrow> instant \<times> DryRunReport option" where
  "maybe_dry_run_eviction_check L cfg g la rc now last_dry_run_check =
     (if duration_since now last_dry_run_check < from_secs 300 then (last_dry_run_check, None)
      else
        let current_count = node_count L g;
            target_evict = current_count div 5
        in if target_evict = 0 then (now, None)
           else
             let candidates = select_candidates cfg g la rc now target_evict
             in if candidates = [] then (now, None)
                else (now, Some \<lparr> dr_count = length candidates,
                       dr_percent = (length candidates * 100) div current_count,
                       dr_tier1 = length (filter (\<lambda>c. ec_tier c = Tier1) candidates),
                       dr_tier2 = length (filter (\<lambda>c. ec_tier c = Tier2) candidates),
                       dr_tier3 = length (filter (\<lambda>c. ec_tier c = Tier3) candidates),
                       dr_invalid = length (filter (\<lambda>c. ec_ref_count c \<noteq> 0) candidates) \<rparr>))"

section \<open>Lemmas\<close>

text \<open>All candidates of a tier, oldest first.\<close>

definition tier_ranking ::
  "EvictionConfig \<Rightarrow> 'c BuildGraph \<Rightarrow> (DrvId \<rightharpoonup> instant) \<Rightarrow> (DrvId \<rightharpoonup> nat) \<Rightarrow> instant \<Rightarrow> EvictionTier
    \<Rightarrow> EvictionCandidate list" where
  "tier_ranking cfg g la rc now tier =
     sort_key (\<lambda>c. - int (ec_age c))
       (List.map_filter (candidate_of la rc tier (min_age_for_tier cfg tier) now) (state_drvs g (target_state tier)))"

text \<open>A drv qualifies in a tier when it is filed under the tier's state, nothing references
  it and it was last used long enough ago (a drv without a time stamp counts
  as just used).\<close>

definition qualifies ::
  "EvictionConfig \<Rightarrow> 'c BuildGraph \<Rightarrow> (DrvId \<rightharpoonup> instant) \<Rightarrow> (DrvId \<rightharpoonup> nat) \<Rightarrow> instant \<Rightarrow> EvictionTier \<Rightarrow> DrvId \<Rightarrow> duration \<Rightarrow> bool" where
  "qualifies cfg g la rc now tier d age =
     (d \<in> set (get_drvs_by_state g
        (case tier of Tier1 \<Rightarrow> TransitiveFailure | Tier2 \<Rightarrow> Completed Failure | Tier3 \<Rightarrow> Completed Success)) \<and>
      (rc d = None \<or> rc d = Some 0) \<and>
      age = (case la d of Some t \<Rightarrow> duration_since now t | None \<Rightarrow> 0) \<and>
      min_age_for_tier cfg tier \<le> age)"

lemma select_from_tier_ranking:
  "select_from_tier cfg g la rc tier now limit = take limit (tier_ranking cfg g la rc now tier)"
  by (simp add: select_from_tier_def tier_ranking_def Let_def)

lemma set_map_filter: "set (List.map_filter f xs) = {y. \<exists>x\<in>set xs. f x = Some y}"
  by (force simp: List.map_filter_def)

lemma candidate_of_Some:
  "candidate_of la rc tier min_age now d = Some c \<longleftrightarrow>
     c = \<lparr> ec_drv_id = d, ec_tier = tier, ec_age = (case la d of Some t \<Rightarrow> duration_since now t | None \<Rightarrow> 0), ec_ref_count = 0 \<rparr> \<and>
     (rc d = None \<or> rc d = Some 0) \<and>
     min_age \<le> (case la d of Some t \<Rightarrow> duration_since now t | None \<Rightarrow> 0)"
  by (auto simp: candidate_of_def Let_def duration_since_def split: option.splits)

lemma set_tier_ranking:
  "c \<in> set (tier_ranking cfg g la rc now tier) \<longleftrightarrow>
     ec_tier c = tier \<and> ec_ref_count c = 0 \<and> qualifies cfg g la rc now tier (ec_drv_id c) (ec_age c)"
proof -
  have s: "set (state_drvs g (target_state tier)) = set (get_drvs_by_state g
        (case tier of Tier1 \<Rightarrow> TransitiveFailure | Tier2 \<Rightarrow> Completed Failure | Tier3 \<Rightarrow> Completed Success))"
    by (cases tier) auto
  show ?thesis
    unfolding tier_ranking_def set_sort set_map_filter qualifies_def s[symmetric]
    by (cases c) (auto simp: candidate_of_Some)
qed

lemma tier_ranking_sorted: "sorted_wrt (\<lambda>a b. ec_age b \<le> ec_age a) (tier_ranking cfg g la rc now tier)"
proof -
  have "sorted (map (\<lambda>c. - int (ec_age c)) (tier_ranking cfg g la rc now tier))"
    by (simp add: tier_ranking_def)
  then show ?thesis by (simp add: sorted_map)
qed

lemma select_tiers_take:
  "length acc \<le> target \<Longrightarrow>
   select_tiers cfg g la rc now target tiers acc =
     take target (acc @ concat (map (tier_ranking cfg g la rc now) tiers))"
proof (induction tiers arbitrary: acc)
  case (Cons tier tiers)
  show ?case
  proof (cases "target \<le> length acc")
    case False
    let ?new = "select_from_tier cfg g la rc tier now (target - length acc)"
    have "length (acc @ ?new) \<le> target" using False by (simp add: select_from_tier_ranking)
    from Cons.IH[OF this] False show ?thesis
      by (cases "length (tier_ranking cfg g la rc now tier) \<le> target - length acc")
        (auto simp: select_from_tier_ranking)
  qed (use Cons.prems in simp)
qed simp

lemma select_candidates_take:
  "select_candidates cfg g la rc now target =
     take target (tier_ranking cfg g la rc now Tier1 @ tier_ranking cfg g la rc now Tier2
       @ tier_ranking cfg g la rc now Tier3)"
  unfolding select_candidates_def
  by (subst select_tiers_take) (simp_all del: take_append)

lemma length_select_candidates: "length (select_candidates cfg g la rc now target) \<le> target"
  by (simp add: select_candidates_def)

section \<open>Properties\<close>

text \<open>The tier-by-tier selection with early exit returns the first \<open>target\<close> elements of
  one ranking: all qualifying drvs, safest tier first and oldest first within a
  tier.  So every candidate qualifies (unreferenced, old enough, filed under
  its tier's terminal state), no qualifying drv of a safer tier, and none of
  the same tier that is older, is passed over for it, and fewer than \<open>target\<close> are
  returned only when all qualifying drvs are.\<close>

theorem select_candidates_ranking:
  "\<exists>ranking. select_candidates cfg g la rc now target = take target ranking \<and>
     (\<forall>c. c \<in> set ranking \<longleftrightarrow>
        ec_ref_count c = 0 \<and> qualifies cfg g la rc now (ec_tier c) (ec_drv_id c) (ec_age c)) \<and>
     sorted_wrt (\<lambda>a b. tier_rank (ec_tier a) < tier_rank (ec_tier b) \<or>
        ec_tier a = ec_tier b \<and> ec_age b \<le> ec_age a) ranking"
proof (intro exI conjI)
  let ?r = "tier_ranking cfg g la rc now"
  show "select_candidates cfg g la rc now target = take target (?r Tier1 @ ?r Tier2 @ ?r Tier3)"
    by (rule select_candidates_take)
  show "\<forall>c. c \<in> set (?r Tier1 @ ?r Tier2 @ ?r Tier3) \<longleftrightarrow>
        ec_ref_count c = 0 \<and> qualifies cfg g la rc now (ec_tier c) (ec_drv_id c) (ec_age c)"
  proof
    fix c
    show "c \<in> set (?r Tier1 @ ?r Tier2 @ ?r Tier3) \<longleftrightarrow>
        ec_ref_count c = 0 \<and> qualifies cfg g la rc now (ec_tier c) (ec_drv_id c) (ec_age c)"
      by (cases "ec_tier c") (auto simp: set_tier_ranking)
  qed
  have same: "sorted_wrt (\<lambda>a b. tier_rank (ec_tier a) < tier_rank (ec_tier b) \<or>
        ec_tier a = ec_tier b \<and> ec_age b \<le> ec_age a) (?r t)" for t
    by (rule sorted_wrt_mono_rel[OF _ tier_ranking_sorted]) (auto simp: set_tier_ranking)
  show "sorted_wrt (\<lambda>a b. tier_rank (ec_tier a) < tier_rank (ec_tier b) \<or>
        ec_tier a = ec_tier b \<and> ec_age b \<le> ec_age a) (?r Tier1 @ ?r Tier2 @ ?r Tier3)"
    using same by (auto simp: sorted_wrt_append set_tier_ranking)
qed

text \<open>The dry-run check never reaches its \<open>BUG\<close> report: no candidate it would evict has a
  reference; it reports at most a fifth of the nodes, and its per-tier counts
  add up.\<close>

theorem dry_run_check_sound:
  assumes "maybe_dry_run_eviction_check L cfg g la rc now prev = (last', Some r)"
  shows "dr_invalid r = 0 \<and> dr_count r * 5 \<le> node_count L g \<and> dr_percent r \<le> 20 \<and>
    dr_tier1 r + dr_tier2 r + dr_tier3 r = dr_count r \<and> last' = now"
proof -
  let ?c = "select_candidates cfg g la rc now (node_count L g div 5)"
  have r: "r = \<lparr> dr_count = length ?c, dr_percent = (length ?c * 100) div node_count L g,
      dr_tier1 = length (filter (\<lambda>c. ec_tier c = Tier1) ?c),
      dr_tier2 = length (filter (\<lambda>c. ec_tier c = Tier2) ?c),
      dr_tier3 = length (filter (\<lambda>c. ec_tier c = Tier3) ?c),
      dr_invalid = length (filter (\<lambda>c. ec_ref_count c \<noteq> 0) ?c) \<rparr>" and l: "last' = now"
    and n: "node_count L g div 5 \<noteq> 0"
    using assms by (auto simp: maybe_dry_run_eviction_check_def Let_def split: if_splits)
  have z: "\<forall>c\<in>set ?c. ec_ref_count c = 0"
    using set_tier_ranking by (fastforce simp: select_candidates_take dest!: in_set_takeD)
  have len: "length ?c * 5 \<le> node_count L g" 
    using length_select_candidates[of cfg g la rc now "node_count L g div 5"] by linarith
  have "length (filter (\<lambda>c. ec_tier c = Tier1) xs) + length (filter (\<lambda>c. ec_tier c = Tier2) xs)
      + length (filter (\<lambda>c. ec_tier c = Tier3) xs) = length xs" for xs
  proof (induction xs)
    case (Cons x xs)
    then show ?case by (cases "ec_tier x") auto
  qed simp
  moreover have "length ?c * 100 div node_count L g \<le> 20"
  proof -
    have "length ?c * 100 div node_count L g \<le> (node_count L g * 20) div node_count L g"
      by (rule div_le_mono) (use len in simp)
    then show ?thesis using n by simp
  qed
  ultimately show ?thesis using z len l by (simp add: r)
qed

definition demo_failed_graph :: "(DrvId, GraphNode) list_lru BuildGraph" where
  "demo_failed_graph =
     fold (\<lambda>d g. fst (insert_node list_lru 0 (demo_drv d TransitiveFailure) g))
       [''a'', ''b'', ''c'', ''d'', ''e''] (the (graph_new list_lru 8))"

theorem dry_run_check_sound_witness:
  "\<exists>r. maybe_dry_run_eviction_check list_lru EvictionConfig_default demo_failed_graph
      [''a'' \<mapsto> 0, ''b'' \<mapsto> 5] Map.empty 4000000000000 0 = (4000000000000, Some r) \<and>
     dr_invalid r = 0 \<and> dr_count r = 1"
proof -
  let ?m = "maybe_dry_run_eviction_check list_lru EvictionConfig_default demo_failed_graph
      [''a'' \<mapsto> 0, ''b'' \<mapsto> 5] Map.empty 4000000000000 0"
  have n: "node_count list_lru demo_failed_graph = 5"
    by (simp add: demo_failed_graph_def node_count_def lru_len_def graph_new_def insert_node_def Let_def
        list_lru_push_def demo_drv_def)
  have b: "by_state demo_failed_graph TransitiveFailure = [''a'', ''b'', ''c'', ''d'', ''e'']"
    by (simp add: demo_failed_graph_def by_state_insert_node graph_new_def demo_drv_def index_insert_def hs_insert_def)
  obtain r where r: "?m = (4000000000000, Some r)" "dr_count r = 1"
    by (simp add: maybe_dry_run_eviction_check_def n select_candidates_take duration_since_def
        from_secs_def nanos_per_sec_def tier_ranking_def get_drvs_by_state_def b List.map_filter_simps
        candidate_of_def EvictionConfig_default_def min_age_for_tier_def)
  then show ?thesis using dry_run_check_sound[OF r(1)] by simp
qed

end
