(* ===== verification/Graph_Service.thy ===== *)
theory Graph_Service
  imports Eviction "HOL-Library.Word"
begin

text \<open>
  The graph service (\<open>graph/src/service/\<close>): the actor that owns the graph, the
  read-only view of it that other tasks query without a message
  (\<open>handle.rs\<close>, \<open>cached_node.rs\<close>), the tracking maps for eviction, and the
  command handler.  Metrics collectors only observe and are left out.  A reply
  on a command's oneshot channel is the value the handler returns; an error
  drops the channel.
\<close>

section \<open>State\<close>

record CachedNode =
  cn_drv_id :: DrvId
  cn_system :: string
  cn_required_system_features :: "string option"
  cn_is_fod :: bool
  cn_build_state :: DrvBuildState
  cn_dependencies :: "DrvId list"

definition from_graph_node :: "GraphNode \<Rightarrow> CachedNode" where
  "from_graph_node node =
     \<lparr> cn_drv_id = gn_drv_id node,
       cn_system = gn_system node,
       cn_required_system_features = gn_required_system_features node,
       cn_is_fod = gn_is_fod node,
       cn_build_state = gn_build_state node,
       cn_dependencies = gn_dependencies node \<rparr>"

definition to_drv :: "CachedNode \<Rightarrow> Drv" where
  "to_drv c =
     \<lparr> drv_path = cn_drv_id c, drv_system = cn_system c, drv_prefer_local_build = False,
       drv_required_system_features = cn_required_system_features c, drv_is_fod = cn_is_fod c,
       drv_build_state = cn_build_state c, drv_output_size = None, drv_closure_size = None,
       drv_pname = None, drv_version = None, drv_license_json = None, drv_maintainers_json = None,
       drv_meta_position = None, drv_broken = None, drv_insecure = None \<rparr>"

type_synonym view = "(DrvId \<times> CachedNode) list"

record ('c, 'db) GraphService =
  gs_graph :: "'c BuildGraph"
  gs_view :: view
  gs_db :: 'db
  gs_last_accessed :: "DrvId \<rightharpoonup> instant"
  gs_ref_counts :: "DrvId \<rightharpoonup> nat"
  gs_last_dry_run_check :: instant

section \<open>The read side (\<open>handle.rs\<close>)\<close>

definition handle_is_buildable :: "view \<Rightarrow> DrvId \<Rightarrow> bool" where
  "handle_is_buildable v drv_id =
     (case map_of v drv_id of
        None \<Rightarrow> False
      | Some node \<Rightarrow>
          list_all (\<lambda>dep_id. case map_of v dep_id of
              None \<Rightarrow> False
            | Some dep \<Rightarrow> cn_build_state dep = Completed Success) (cn_dependencies node))"

definition handle_get_build_state :: "view \<Rightarrow> DrvId \<Rightarrow> DrvBuildState option" where
  "handle_get_build_state v drv_id = map_option cn_build_state (map_of v drv_id)"

definition handle_get_node :: "view \<Rightarrow> DrvId \<Rightarrow> CachedNode option" where
  "handle_get_node v drv_id = map_of v drv_id"

definition handle_node_count :: "view \<Rightarrow> nat" where
  "handle_node_count v = length v"

definition blocking_deps :: "view \<Rightarrow> DrvId \<Rightarrow> (DrvId \<times> DrvBuildState option) list" where
  "blocking_deps v drv_id =
     (case map_of v drv_id of
        None \<Rightarrow> []
      | Some node \<Rightarrow>
          List.map_filter (\<lambda>dep_id.
            let state = map_option cn_build_state (map_of v dep_id)
            in if state \<noteq> Some (Completed Success) then Some (dep_id, state) else None)
            (cn_dependencies node))"

definition get_dependents_from_view :: "view \<Rightarrow> DrvId \<Rightarrow> DrvId list" where
  "get_dependents_from_view v drv_id =
     map fst (filter (\<lambda>(_, node). drv_id \<in> set (cn_dependencies node)) v)"

section \<open>Operations (\<open>operations.rs\<close>)\<close>

text \<open>What both insertion paths do with the entry that the cache gave up.\<close>

definition release_ref :: "'c node_lru \<Rightarrow> 'c BuildGraph \<Rightarrow> DrvId \<Rightarrow> (DrvId \<rightharpoonup> nat) \<Rightarrow> (DrvId \<rightharpoonup> nat)" where
  "release_ref L g dep_id rc =
     (case rc dep_id of
        None \<Rightarrow> rc
      | Some count \<Rightarrow>
          let count' = count - 1
          in if count' = 0 \<and> \<not> lru_contains L (nodes g) dep_id then rc(dep_id := None)
             else rc(dep_id \<mapsto> count'))"

definition forget_evicted ::
  "'c node_lru \<Rightarrow> (DrvId \<times> GraphNode) option \<Rightarrow> ('c, 'db) GraphService \<Rightarrow> ('c, 'db) GraphService" where
  "forget_evicted L evicted s =
     (case evicted of
        None \<Rightarrow> s
      | Some (evicted_id, evicted_node) \<Rightarrow>
          let rc = fold (release_ref L (gs_graph s)) (gn_dependencies evicted_node) (gs_ref_counts s)
          in s\<lparr>gs_last_accessed := (gs_last_accessed s)(evicted_id := None),
               gs_ref_counts := rc(evicted_id := None),
               gs_view := AList.delete evicted_id (gs_view s)\<rparr>)"

definition bump_ref :: "DrvId \<Rightarrow> (DrvId \<rightharpoonup> nat) \<Rightarrow> (DrvId \<rightharpoonup> nat)" where
  "bump_ref d rc = rc(d \<mapsto> (case rc d of Some n \<Rightarrow> n | None \<Rightarrow> 0) + 1)"

definition load_dep :: "'c node_lru \<Rightarrow> DrvId \<Rightarrow> DrvId \<Rightarrow> ('c, 'db) GraphService \<Rightarrow> ('c, 'db) GraphService" where
  "load_dep L drv_id dep_id s =
     s\<lparr>gs_graph := add_edge L drv_id dep_id (gs_graph s),
       gs_ref_counts := bump_ref dep_id (gs_ref_counts s)\<rparr>"

definition load_dependent :: "'c node_lru \<Rightarrow> DrvId \<Rightarrow> DrvId \<Rightarrow> ('c, 'db) GraphService \<Rightarrow> ('c, 'db) GraphService" where
  "load_dependent L drv_id dependent_id s =
     s\<lparr>gs_graph := add_edge L dependent_id drv_id (gs_graph s),
       gs_ref_counts := bump_ref drv_id (gs_ref_counts s)\<rparr>"

definition refresh_view :: "'c node_lru \<Rightarrow> DrvId \<Rightarrow> ('c, 'db) GraphService \<Rightarrow> ('c, 'db) GraphService" where
  "refresh_view L drv_id s =
     (case get_node L (gs_graph s) drv_id of
        None \<Rightarrow> s
      | Some node \<Rightarrow> s\<lparr>gs_view := AList.update drv_id (from_graph_node node) (gs_view s)\<rparr>)"

definition ensure_loaded ::
  "'c node_lru \<Rightarrow> 'db GraphDatabase \<Rightarrow> instant \<Rightarrow> DrvId \<Rightarrow> ('c, 'db) GraphService
    \<Rightarrow> ('c, 'db) GraphService \<times> (anyhow, bool) result" where
  "ensure_loaded L D now drv_id s =
     (if lru_contains L (nodes (gs_graph s)) drv_id then (s, Inr False)
      else case db_get_drv D (gs_db s) drv_id of
        Inl e \<Rightarrow> (s, Inl e)
      | Inr None \<Rightarrow> (s, Inl (''Drv not found in database: DrvId('' @ [CHR 0x22] @ drv_id @ [CHR 0x22] @ '')''))
      | Inr (Some drv) \<Rightarrow>
          (case db_get_drv_refs D (gs_db s) drv_id of
             Inl e \<Rightarrow> (s, Inl e)
           | Inr deps \<Rightarrow>
               (case db_get_drv_dependents D (gs_db s) drv_id of
                  Inl e \<Rightarrow> (s, Inl e)
                | Inr dependents \<Rightarrow>
                    let (g, evicted) = insert_node L now drv (gs_graph s);
                        s1 = forget_evicted L evicted (s\<lparr>gs_graph := g\<rparr>);
                        s2 = s1\<lparr>gs_last_accessed := (gs_last_accessed s1)(drv_id \<mapsto> now)\<rparr>;
                        s3 = fold (load_dep L drv_id) deps s2;
                        s4 = fold (load_dependent L drv_id) dependents s3
                    in (refresh_view L drv_id s4, Inr True))))"

definition set_view_state :: "DrvId \<Rightarrow> DrvBuildState \<Rightarrow> view \<Rightarrow> view" where
  "set_view_state drv_id new_state v = AList.map_entry drv_id (\<lambda>c. c\<lparr>cn_build_state := new_state\<rparr>) v"

definition op_update_state ::
  "'c node_lru \<Rightarrow> 'db GraphDatabase \<Rightarrow> instant \<Rightarrow> DrvId \<Rightarrow> DrvBuildState \<Rightarrow> ('c, 'db) GraphService
    \<Rightarrow> ('c, 'db) GraphService \<times> (anyhow, unit) result" where
  "op_update_state L D now drv_id new_state s =
     (let s1 = s\<lparr>gs_graph := update_state L now drv_id new_state (gs_graph s)\<rparr>;
          s2 = s1\<lparr>gs_view := set_view_state drv_id new_state (gs_view s1)\<rparr>;
          (db, r) = db_update_drv_status D (gs_db s2) drv_id new_state
      in (s2\<lparr>gs_db := db\<rparr>, r))"

definition insert_drv :: "'c node_lru \<Rightarrow> instant \<Rightarrow> Drv \<Rightarrow> ('c, 'db) GraphService \<Rightarrow> ('c, 'db) GraphService" where
  "insert_drv L now drv s =
     (let drv_id = drv_path drv;
          (g, evicted) = insert_node L now drv (gs_graph s);
          s1 = forget_evicted L evicted (s\<lparr>gs_graph := g\<rparr>);
          s2 = s1\<lparr>gs_last_accessed := (gs_last_accessed s1)(drv_id \<mapsto> now)\<rparr>
      in refresh_view L drv_id s2)"

definition insert_ref :: "'c node_lru \<Rightarrow> DrvId \<times> DrvId \<Rightarrow> ('c, 'db) GraphService \<Rightarrow> ('c, 'db) GraphService" where
  "insert_ref L ref s = (case ref of (referrer, reference) \<Rightarrow>
     let s1 = s\<lparr>gs_graph := add_edge L referrer reference (gs_graph s),
                gs_ref_counts := bump_ref reference (gs_ref_counts s)\<rparr>
     in (case get_node L (gs_graph s1) referrer of
           None \<Rightarrow> s1
         | Some node \<Rightarrow>
             s1\<lparr>gs_view := AList.map_entry referrer
                  (\<lambda>c. c\<lparr>cn_dependencies := gn_dependencies node\<rparr>) (gs_view s1)\<rparr>))"

definition op_insert_drvs ::
  "'c node_lru \<Rightarrow> instant \<Rightarrow> Drv list \<Rightarrow> (DrvId \<times> DrvId) list \<Rightarrow> ('c, 'db) GraphService \<Rightarrow> ('c, 'db) GraphService" where
  "op_insert_drvs L now drvs refs s = fold (insert_ref L) refs (fold (insert_drv L now) drvs s)"

definition op_propagate_failure ::
  "'c node_lru \<Rightarrow> 'db GraphDatabase \<Rightarrow> DrvId \<Rightarrow> ('c, 'db) GraphService
    \<Rightarrow> ('c, 'db) GraphService \<times> (anyhow, DrvId list) result" where
  "op_propagate_failure L D failed_drv s =
     (let (g, blocked) = graph_propagate_failure L failed_drv (gs_graph s);
          s1 = s\<lparr>gs_graph := g,
                 gs_view := fold (\<lambda>b. set_view_state b TransitiveFailure) blocked (gs_view s)\<rparr>
      in if blocked = [] then (s1, Inr blocked)
         else case db_insert_transitive_failures D (gs_db s1) failed_drv blocked of
           (db, Inl e) \<Rightarrow> (s1\<lparr>gs_db := db\<rparr>, Inl e)
         | (db, Inr _) \<Rightarrow> (s1\<lparr>gs_db := db\<rparr>, Inr blocked))"

definition op_clear_failure ::
  "'c node_lru \<Rightarrow> 'db GraphDatabase \<Rightarrow> DrvId \<Rightarrow> ('c, 'db) GraphService
    \<Rightarrow> ('c, 'db) GraphService \<times> (anyhow, DrvId list) result" where
  "op_clear_failure L D formerly_failed s =
     (let (g, unblocked) = graph_clear_failure L formerly_failed (gs_graph s);
          s1 = s\<lparr>gs_graph := g,
                 gs_view := fold (\<lambda>b. set_view_state b Queued) unblocked (gs_view s)\<rparr>
      in case db_clear_transitive_failures D (gs_db s1) formerly_failed of
           (db, Inl e) \<Rightarrow> (s1\<lparr>gs_db := db\<rparr>, Inl e)
         | (db, Inr _) \<Rightarrow> (s1\<lparr>gs_db := db\<rparr>, Inr unblocked))"

section \<open>Commands (\<open>commands.rs\<close>, \<open>mod.rs\<close>)\<close>

datatype GraphCommand =
    UpdateState DrvId DrvBuildState
  | InsertDrvs "Drv list" "(DrvId \<times> DrvId) list"
  | PropagateFailure DrvId
  | ClearFailure DrvId
  | GetBuildableDrvs
  | GetDependents DrvId
  | GetDependencies DrvId
  | GetFailedDependencies DrvId
  | GetAllFailedDrvs
  | ReverseReachableFromSet "DrvId list"
  | BlastRadiusPerSeed "DrvId list"

datatype Reply =
    ReplyUnit
  | ReplyDrvs "DrvId list"
  | ReplyCounts "(DrvId \<times> nat) list"

type_synonym ('c, 'db) handled = "('c, 'db) GraphService \<times> (anyhow, Reply) result"

definition handle_update_state ::
  "'c node_lru \<Rightarrow> 'db GraphDatabase \<Rightarrow> instant \<Rightarrow> DrvId \<Rightarrow> DrvBuildState \<Rightarrow> ('c, 'db) GraphService \<Rightarrow> ('c, 'db) handled" where
  "handle_update_state L D now drv_id new_state s =
     (case op_update_state L D now drv_id new_state s of
        (s', Inl e) \<Rightarrow> (s', Inl e)
      | (s', Inr _) \<Rightarrow> (s', Inr ReplyUnit))"

definition handle_insert_drvs ::
  "'c node_lru \<Rightarrow> instant \<Rightarrow> Drv list \<Rightarrow> (DrvId \<times> DrvId) list \<Rightarrow> ('c, 'db) GraphService \<Rightarrow> ('c, 'db) handled" where
  "handle_insert_drvs L now drvs refs s = (op_insert_drvs L now drvs refs s, Inr ReplyUnit)"

definition handle_propagate_failure ::
  "'c node_lru \<Rightarrow> 'db GraphDatabase \<Rightarrow> DrvId \<Rightarrow> ('c, 'db) GraphService \<Rightarrow> ('c, 'db) handled" where
  "handle_propagate_failure L D failed_drv s =
     (case op_propagate_failure L D failed_drv s of
        (s', Inl e) \<Rightarrow> (s', Inl e)
      | (s', Inr blocked) \<Rightarrow> (s', Inr (ReplyDrvs blocked)))"

definition handle_clear_failure ::
  "'c node_lru \<Rightarrow> 'db GraphDatabase \<Rightarrow> DrvId \<Rightarrow> ('c, 'db) GraphService \<Rightarrow> ('c, 'db) handled" where
  "handle_clear_failure L D formerly_failed s =
     (case op_clear_failure L D formerly_failed s of
        (s', Inl e) \<Rightarrow> (s', Inl e)
      | (s', Inr unblocked) \<Rightarrow> (s', Inr (ReplyDrvs unblocked)))"

definition handle_get_buildable_drvs :: "('c, 'db) GraphService \<Rightarrow> ('c, 'db) handled" where
  "handle_get_buildable_drvs s = (s, Inr (ReplyDrvs (get_drvs_by_state (gs_graph s) Buildable)))"

text \<open>The three queries load the node first; a load error is logged and the reply is empty.\<close>

definition handle_get_dependents ::
  "'c node_lru \<Rightarrow> 'db GraphDatabase \<Rightarrow> instant \<Rightarrow> DrvId \<Rightarrow> ('c, 'db) GraphService \<Rightarrow> ('c, 'db) handled" where
  "handle_get_dependents L D now drv_id s =
     (case ensure_loaded L D now drv_id s of
        (s', Inl _) \<Rightarrow> (s', Inr (ReplyDrvs []))
      | (s', Inr _) \<Rightarrow> (s', Inr (ReplyDrvs (get_dependents L (gs_graph s') drv_id))))"

definition handle_get_dependencies ::
  "'c node_lru \<Rightarrow> 'db GraphDatabase \<Rightarrow> instant \<Rightarrow> DrvId \<Rightarrow> ('c, 'db) GraphService \<Rightarrow> ('c, 'db) handled" where
  "handle_get_dependencies L D now drv_id s =
     (case ensure_loaded L D now drv_id s of
        (s', Inl _) \<Rightarrow> (s', Inr (ReplyDrvs []))
      | (s', Inr _) \<Rightarrow> (s', Inr (ReplyDrvs (get_dependencies L (gs_graph s') drv_id))))"

definition handle_get_failed_dependencies ::
  "'c node_lru \<Rightarrow> 'db GraphDatabase \<Rightarrow> instant \<Rightarrow> DrvId \<Rightarrow> ('c, 'db) GraphService \<Rightarrow> ('c, 'db) handled" where
  "handle_get_failed_dependencies L D now drv_id s =
     (case ensure_loaded L D now drv_id s of
        (s', Inl _) \<Rightarrow> (s', Inr (ReplyDrvs []))
      | (s', Inr _) \<Rightarrow> (s', Inr (ReplyDrvs (get_failed_dependencies L (gs_graph s') drv_id))))"

definition handle_get_all_failed_drvs :: "('c, 'db) GraphService \<Rightarrow> ('c, 'db) handled" where
  "handle_get_all_failed_drvs s = (s, Inr (ReplyDrvs (get_drvs_by_state (gs_graph s) (Completed Failure))))"

definition load_seeds ::
  "'c node_lru \<Rightarrow> 'db GraphDatabase \<Rightarrow> instant \<Rightarrow> DrvId list \<Rightarrow> ('c, 'db) GraphService \<Rightarrow> ('c, 'db) GraphService" where
  "load_seeds L D now seeds s = fold (\<lambda>seed s. fst (ensure_loaded L D now seed s)) seeds s"

definition handle_reverse_reachable ::
  "'c node_lru \<Rightarrow> 'db GraphDatabase \<Rightarrow> instant \<Rightarrow> DrvId list \<Rightarrow> ('c, 'db) GraphService \<Rightarrow> ('c, 'db) handled" where
  "handle_reverse_reachable L D now seeds s =
     (let s' = load_seeds L D now seeds s
      in (s', Inr (ReplyDrvs (reverse_reachable_from_set L (gs_graph s') seeds))))"

definition handle_blast_radius ::
  "'c node_lru \<Rightarrow> 'db GraphDatabase \<Rightarrow> instant \<Rightarrow> DrvId list \<Rightarrow> ('c, 'db) GraphService \<Rightarrow> ('c, 'db) handled" where
  "handle_blast_radius L D now seeds s =
     (let s' = load_seeds L D now seeds s
      in (s', Inr (ReplyCounts (blast_radius_per_seed L (gs_graph s') seeds))))"

fun handle_command ::
  "'c node_lru \<Rightarrow> 'db GraphDatabase \<Rightarrow> instant \<Rightarrow> GraphCommand \<Rightarrow> ('c, 'db) GraphService \<Rightarrow> ('c, 'db) handled" where
  "handle_command L D now (UpdateState d st) s = handle_update_state L D now d st s"
| "handle_command L D now (InsertDrvs drvs refs) s = handle_insert_drvs L now drvs refs s"
| "handle_command L D now (PropagateFailure d) s = handle_propagate_failure L D d s"
| "handle_command L D now (ClearFailure d) s = handle_clear_failure L D d s"
| "handle_command L D now GetBuildableDrvs s = handle_get_buildable_drvs s"
| "handle_command L D now (GetDependents d) s = handle_get_dependents L D now d s"
| "handle_command L D now (GetDependencies d) s = handle_get_dependencies L D now d s"
| "handle_command L D now (GetFailedDependencies d) s = handle_get_failed_dependencies L D now d s"
| "handle_command L D now GetAllFailedDrvs s = handle_get_all_failed_drvs s"
| "handle_command L D now (ReverseReachableFromSet seeds) s = handle_reverse_reachable L D now seeds s"
| "handle_command L D now (BlastRadiusPerSeed seeds) s = handle_blast_radius L D now seeds s"

definition prune_stale_tracking_entries :: "'c node_lru \<Rightarrow> ('c, 'db) GraphService \<Rightarrow> ('c, 'db) GraphService" where
  "prune_stale_tracking_entries L s =
     (let keep = (\<lambda>d. lru_contains L (nodes (gs_graph s)) d)
      in s\<lparr>gs_last_accessed := (\<lambda>d. if keep d then gs_last_accessed s d else None),
           gs_ref_counts := (\<lambda>d. if keep d then gs_ref_counts s d else None)\<rparr>)"

text \<open>One round of \<open>run\<close>: handle the command (an error is only logged), count it, run the
  dry-run check, and every 5000 commands prune the tracking maps and the stale
  failures.\<close>

definition run_round ::
  "'c node_lru \<Rightarrow> 'db GraphDatabase \<Rightarrow> instant \<Rightarrow> GraphCommand \<Rightarrow> ('c, 'db) GraphService \<times> 64 word
    \<Rightarrow> ('c, 'db) GraphService \<times> 64 word" where
  "run_round L D now command sc = (case sc of (s, command_count) \<Rightarrow>
     let s1 = fst (handle_command L D now command s);
         count = command_count + 1;
         s2 = s1\<lparr>gs_last_dry_run_check := fst (maybe_dry_run_eviction_check L EvictionConfig_default
                (gs_graph s1) (gs_last_accessed s1) (gs_ref_counts s1) now (gs_last_dry_run_check s1))\<rparr>
     in if unat count mod 5000 = 0
        then let s3 = prune_stale_tracking_entries L s2
             in (s3\<lparr>gs_graph := fst (evict_stale_failures now (gs_graph s3))\<rparr>, count)
        else (s2, count))"

fun run :: "'c node_lru \<Rightarrow> 'db GraphDatabase \<Rightarrow> (instant \<times> GraphCommand) list \<Rightarrow> ('c, 'db) GraphService \<times> 64 word
    \<Rightarrow> ('c, 'db) GraphService \<times> 64 word" where
  "run L D [] sc = sc"
| "run L D ((now, command) # commands) sc = run L D commands (run_round L D now command sc)"

definition service_new ::
  "'c node_lru \<Rightarrow> 'db GraphDatabase \<Rightarrow> instant \<Rightarrow> 'db \<Rightarrow> nat \<Rightarrow> (anyhow, ('c, 'db) GraphService) result option" where
  "service_new L D now db lru_capacity =
     (case from_database L now D db lru_capacity of
        None \<Rightarrow> None
      | Some (Inl e) \<Rightarrow> Some (Inl e)
      | Some (Inr g) \<Rightarrow>
          let entries = lru_iter L (nodes g)
          in Some (Inr \<lparr> gs_graph = g,
               gs_view = fold (\<lambda>(d, n). AList.update d (from_graph_node n)) entries [],
               gs_db = db,
               gs_last_accessed = fold (\<lambda>(d, n) la. la(d \<mapsto> now)) entries Map.empty,
               gs_ref_counts = fold (\<lambda>(d, n). fold bump_ref (gn_dependencies n)) entries Map.empty,
               gs_last_dry_run_check = now \<rparr>))"

end
