(* ===== verification/Service_Props.thy ===== *)
theory Service_Props
  imports Graph_Service
begin

text \<open>
  What the graph service promises its readers: the lock-free view shows exactly
  the cached nodes, whatever commands were handled, so that the buildability
  check on the view answers what the graph would.  The locale \<open>graph_db\<close> states
  what the service relies on in the database.
\<close>

section \<open>The database contract\<close>

locale graph_db =
  fixes D :: "'db GraphDatabase"
    and db_ok :: "'db \<Rightarrow> bool"
  assumes get_drv_path: "valid_drv_id d \<Longrightarrow> db_get_drv D db d = Inr (Some drv) \<Longrightarrow> drv_path drv = d"
    and dependents_refs: "db_ok db \<Longrightarrow> valid_drv_id b \<Longrightarrow> db_get_drv_dependents D db b = Inr ds \<Longrightarrow> a \<in> set ds \<Longrightarrow>
      valid_drv_id a \<and> (\<exists>rs. db_get_drv_refs D db a = Inr rs \<and> b \<in> set rs)"
    and all_refs: "db_ok db \<Longrightarrow> valid_drv_id a \<Longrightarrow> db_get_all_refs D db = Inr refs \<Longrightarrow>
      db_get_drv_refs D db a = Inr rs \<Longrightarrow> b \<in> set rs \<Longrightarrow> (a, b) \<in> set refs"
    and refs_update: "db_get_drv_refs D (fst (db_update_drv_status D db d st)) = db_get_drv_refs D db"
    and refs_insert_failures: "db_get_drv_refs D (fst (db_insert_transitive_failures D db d ds)) = db_get_drv_refs D db"
    and refs_clear_failures: "db_get_drv_refs D (fst (db_clear_transitive_failures D db d)) = db_get_drv_refs D db"
    and ok_update: "db_ok db \<Longrightarrow> db_ok (fst (db_update_drv_status D db d st))"
    and ok_insert_failures: "db_ok db \<Longrightarrow> db_ok (fst (db_insert_transitive_failures D db d ds))"
    and ok_clear_failures: "db_ok db \<Longrightarrow> db_ok (fst (db_clear_transitive_failures D db d))"

section \<open>The view mirrors the cache\<close>

definition view_ok :: "'c node_lru \<Rightarrow> ('c, 'db) GraphService \<Rightarrow> bool" where
  "view_ok L s = (distinct (map fst (gs_view s)) \<and>
     (\<forall>k. map_of (gs_view s) k = map_option from_graph_node (get_node L (gs_graph s) k)))"

text \<open>A cached node (under a proper identifier) knows all the references the database has for it.\<close>

definition edges_known :: "'c node_lru \<Rightarrow> 'db GraphDatabase \<Rightarrow> ('c, 'db) GraphService \<Rightarrow> bool" where
  "edges_known L D s = (\<forall>k n rs. get_node L (gs_graph s) k = Some n \<longrightarrow> valid_drv_id k \<longrightarrow>
     db_get_drv_refs D (gs_db s) k = Inr rs \<longrightarrow> set rs \<subseteq> set (gn_dependencies n))"

definition service_ok ::
  "'c node_lru \<Rightarrow> ('c \<Rightarrow> bool) \<Rightarrow> 'db GraphDatabase \<Rightarrow> ('db \<Rightarrow> bool) \<Rightarrow> ('c, 'db) GraphService \<Rightarrow> bool" where
  "service_ok L invar D db_ok s =
     (graph_wf L invar (gs_graph s) \<and> view_ok L s \<and> edges_known L D s \<and> db_ok (gs_db s))"

text \<open>The commands the service gets: identifiers of queries are proper, and an \<open>InsertDrvs\<close>
  carries at least the stored references of the drvs it inserts.\<close>

fun command_ok :: "'db GraphDatabase \<Rightarrow> 'db \<Rightarrow> GraphCommand \<Rightarrow> bool" where
  "command_ok D db (InsertDrvs drvs refs) =
     (\<forall>d\<in>set drvs. \<forall>rs. db_get_drv_refs D db (drv_path d) = Inr rs \<longrightarrow> Pair (drv_path d) ` set rs \<subseteq> set refs)"
| "command_ok D db (GetDependents d) = valid_drv_id d"
| "command_ok D db (GetDependencies d) = valid_drv_id d"
| "command_ok D db (GetFailedDependencies d) = valid_drv_id d"
| "command_ok D db (ReverseReachableFromSet seeds) = list_all valid_drv_id seeds"
| "command_ok D db (BlastRadiusPerSeed seeds) = list_all valid_drv_id seeds"
| "command_ok D db _ = True"

lemma edges_known_mono:
  assumes "edges_known L D s" "db_get_drv_refs D (gs_db s') = db_get_drv_refs D (gs_db s)"
    and "\<And>k n'. get_node L (gs_graph s') k = Some n' \<Longrightarrow>
      \<exists>n. get_node L (gs_graph s) k = Some n \<and> set (gn_dependencies n) \<subseteq> set (gn_dependencies n')"
  shows "edges_known L D s'"
  unfolding edges_known_def
proof (intro allI impI)
  fix k n' rs
  assume "get_node L (gs_graph s') k = Some n'" "db_get_drv_refs D (gs_db s') k = Inr rs" and v: "valid_drv_id k"
  then obtain n where "get_node L (gs_graph s) k = Some n" "set (gn_dependencies n) \<subseteq> set (gn_dependencies n')"
      "db_get_drv_refs D (gs_db s) k = Inr rs"
    using assms(2,3) by metis
  then show "set rs \<subseteq> set (gn_dependencies n')" using assms(1) v unfolding edges_known_def by blast
qed

lemma service_okI:
  assumes "service_ok L invar D db_ok s" "graph_wf L invar (gs_graph s')" "distinct (map fst (gs_view s'))"
    and "\<And>k. map_of (gs_view s') k = map_option from_graph_node (get_node L (gs_graph s') k)"
    and "db_get_drv_refs D (gs_db s') = db_get_drv_refs D (gs_db s)" "db_ok (gs_db s')"
    and "\<And>k n'. get_node L (gs_graph s') k = Some n' \<Longrightarrow>
      \<exists>n. get_node L (gs_graph s) k = Some n \<and> set (gn_dependencies n) \<subseteq> set (gn_dependencies n')"
  shows "service_ok L invar D db_ok s'"
  using assms edges_known_mono[of L D s s'] by (simp add: service_ok_def view_ok_def)

lemma from_graph_node_sel [simp]:
  "cn_build_state (from_graph_node n) = gn_build_state n"
  "cn_dependencies (from_graph_node n) = gn_dependencies n"
  by (simp_all add: from_graph_node_def)

lemma from_graph_node_upd [simp]:
  "from_graph_node (n\<lparr>gn_build_state := st\<rparr>) = (from_graph_node n)\<lparr>cn_build_state := st\<rparr>"
  "from_graph_node (add_dependent r n) = from_graph_node n"
  "from_graph_node (mark_blocked f n) = (from_graph_node n)\<lparr>cn_build_state := TransitiveFailure\<rparr>"
  "r \<in> set (gn_dependencies n) \<Longrightarrow> from_graph_node (add_dependency r n) = from_graph_node n"
  by (simp_all add: from_graph_node_def add_dependent_def add_dependency_def mark_blocked_def)

lemma from_graph_node_clear [simp]:
  "from_graph_node (clear_blocked f n) =
     (if set (gn_blocking_failures n) \<subseteq> {f} then (from_graph_node n)\<lparr>cn_build_state := Queued\<rparr> else from_graph_node n)"
  by (auto simp: from_graph_node_def clear_blocked_def Let_def hs_remove_def filter_empty_conv)

lemma map_of_set_view_state:
  "map_of (set_view_state d st v) k =
     (if k = d then map_option (\<lambda>c. c\<lparr>cn_build_state := st\<rparr>) (map_of v k) else map_of v k)"
  by (auto simp: set_view_state_def AList.map_of_map_entry split: option.splits)

lemma map_of_fold_set_view_state:
  "map_of (fold (\<lambda>b. set_view_state b st) bs v) k =
     (if k \<in> set bs then map_option (\<lambda>c. c\<lparr>cn_build_state := st\<rparr>) (map_of v k) else map_of v k)"
  by (induction bs arbitrary: v) (auto simp: map_of_set_view_state option.map_comp o_def)

lemma distinct_set_view_state: "distinct (map fst v) \<Longrightarrow> distinct (map fst (set_view_state d st v))"
  by (simp add: set_view_state_def AList.distinct_map_entry)

lemma distinct_fold_set_view_state:
  "distinct (map fst v) \<Longrightarrow> distinct (map fst (fold (\<lambda>b. set_view_state b st) bs v))"
  by (induction bs arbitrary: v) (auto simp: distinct_set_view_state)

lemma forget_evicted_view:
  "map_of (gs_view (forget_evicted L ev s)) k =
     (case ev of Some (e, _) \<Rightarrow> if k = e then None else map_of (gs_view s) k | None \<Rightarrow> map_of (gs_view s) k)"
  by (auto simp: forget_evicted_def Let_def delete_conv' split: option.splits)

lemma forget_evicted_frame [simp]:
  "gs_graph (forget_evicted L ev s) = gs_graph s" "gs_db (forget_evicted L ev s) = gs_db s"
  by (auto simp: forget_evicted_def Let_def split: option.splits)

lemma forget_evicted_distinct:
  "distinct (map fst (gs_view s)) \<Longrightarrow> distinct (map fst (gs_view (forget_evicted L ev s)))"
  by (auto simp: forget_evicted_def Let_def distinct_fst_delete split: option.splits)

lemma fold_load_dep:
  "gs_graph (fold (load_dep L d) deps s) = add_edges L (map (Pair d) deps) (gs_graph s)"
  "gs_view (fold (load_dep L d) deps s) = gs_view s" "gs_db (fold (load_dep L d) deps s) = gs_db s"
  by (induction deps arbitrary: s) (auto simp: load_dep_def)

lemma fold_load_dependent:
  "gs_graph (fold (load_dependent L d) as s) = add_edges L (map (\<lambda>a. (a, d)) as) (gs_graph s)"
  "gs_view (fold (load_dependent L d) as s) = gs_view s" "gs_db (fold (load_dependent L d) as s) = gs_db s"
  by (induction as arbitrary: s) (auto simp: load_dependent_def)

lemma refresh_view_frame [simp]:
  "gs_graph (refresh_view L d s) = gs_graph s" "gs_db (refresh_view L d s) = gs_db s"
  by (auto simp: refresh_view_def split: option.splits)

text \<open>Refreshing one entry repairs a view that is right everywhere else.\<close>

lemma refresh_view_ok:
  assumes "distinct (map fst (gs_view s))" "get_node L (gs_graph s) d \<noteq> None"
    and "\<And>k. k \<noteq> d \<Longrightarrow> map_of (gs_view s) k = map_option from_graph_node (get_node L (gs_graph s) k)"
  shows "view_ok L (refresh_view L d s)"
  using assms by (auto simp: view_ok_def refresh_view_def update_conv' distinct_update split: option.splits)

context graph_lru begin

lemma add_edges_deps:
  assumes "invar (nodes g)" "get_node L (add_edges L es g) k = Some n'"
  shows "\<exists>n. get_node L g k = Some n \<and> set (gn_dependencies n') = set (gn_dependencies n) \<union> {b. (k, b) \<in> set es}"
  using assms
proof (induction es arbitrary: g)
  case (Cons e es)
  obtain a b where e: "e = (a, b)" by fastforce
  from Cons.IH[of "add_edge L a b g"] Cons.prems obtain m where
    "get_node L (add_edge L a b g) k = Some m"
    "set (gn_dependencies n') = set (gn_dependencies m) \<union> {b. (k, b) \<in> set es}"
    by (auto simp: e add_edge_invar)
  then show ?case using Cons.prems(1) by (auto simp: e get_node_add_edge split: if_splits)
qed simp

lemma add_edges_mirror:
  assumes "invar (nodes g)"
    and "\<And>b n. (k, b) \<in> set es \<Longrightarrow> get_node L g k = Some n \<Longrightarrow> b \<in> set (gn_dependencies n)"
  shows "map_option from_graph_node (get_node L (add_edges L es g) k) = map_option from_graph_node (get_node L g k)"
  using assms
proof (induction es arbitrary: g)
  case (Cons e es)
  obtain a b where e: "e = (a, b)" by fastforce
  have i: "invar (nodes (add_edge L a b g))" by (simp add: add_edge_invar Cons.prems(1))
  have "map_option from_graph_node (get_node L (add_edge L a b g) k) = map_option from_graph_node (get_node L g k)"
    using Cons.prems by (cases "get_node L g k") (auto simp: get_node_add_edge e)
  moreover have "map_option from_graph_node (get_node L (add_edges L es (add_edge L a b g)) k)
      = map_option from_graph_node (get_node L (add_edge L a b g) k)"
  proof (rule Cons.IH[OF i])
    fix b' m assume "(k, b') \<in> set es" "get_node L (add_edge L a b g) k = Some m"
    then show "b' \<in> set (gn_dependencies m)"
      using Cons.prems by (auto simp: get_node_add_edge e split: if_splits)
  qed
  ultimately show ?case by (simp add: e)
qed simp

lemma add_edges_invar: "invar (nodes g) \<Longrightarrow> invar (nodes (add_edges L es g))"
  using add_edges_spec by blast

lemma add_edges_wf: "graph_wf L invar g \<Longrightarrow> graph_wf L invar (add_edges L es g)"
  by (induction es arbitrary: g) (auto simp: graph_wf_add_edge)

text \<open>Inserting a node and forgetting what it evicted keeps the view right for all others.\<close>

lemma insert_forget_mirror:
  assumes "invar (nodes (gs_graph s))" "view_ok L s" "insert_node L now drv (gs_graph s) = (g, ev)"
    and "k \<noteq> drv_path drv"
  shows "map_of (gs_view (forget_evicted L ev (s\<lparr>gs_graph := g\<rparr>))) k = map_option from_graph_node (get_node L g k)"
  using get_node_insert_node[OF assms(1,3), of k] assms(2,4)
  by (auto simp: forget_evicted_view view_ok_def split: option.splits)

end

locale graph_service = graph_lru L invar + graph_db D db_ok
  for L :: "'c node_lru" and invar :: "'c \<Rightarrow> bool" and D :: "'db GraphDatabase" and db_ok :: "'db \<Rightarrow> bool"
begin

lemma ensure_loaded_ok:
  assumes "service_ok L invar D db_ok s" "valid_drv_id d"
  shows "service_ok L invar D db_ok (fst (ensure_loaded L D now d s)) \<and>
    gs_db (fst (ensure_loaded L D now d s)) = gs_db s"
proof (cases "lru_contains L (nodes (gs_graph s)) d \<or> (\<forall>drv deps as. \<not> (db_get_drv D (gs_db s) d = Inr (Some drv) \<and>
      db_get_drv_refs D (gs_db s) d = Inr deps \<and> db_get_drv_dependents D (gs_db s) d = Inr as))")
  case True
  then show ?thesis using assms
    by (auto simp: ensure_loaded_def Let_def split: sum.splits option.splits prod.splits)
next
  case False
  then obtain drv deps as where db: "db_get_drv D (gs_db s) d = Inr (Some drv)"
      "db_get_drv_refs D (gs_db s) d = Inr deps" "db_get_drv_dependents D (gs_db s) d = Inr as"
    and absent: "\<not> lru_contains L (nodes (gs_graph s)) d" by blast
  have inv: "invar (nodes (gs_graph s))" "view_ok L s" "edges_known L D s"
    using assms by (auto simp: service_ok_def)
  have wf: "graph_wf L invar (gs_graph s)" and dbok: "db_ok (gs_db s)" using assms by (simp_all add: service_ok_def)
  have path: "drv_path drv = d" using get_drv_path[OF assms(2) db(1)] .
  obtain g ev where ins: "insert_node L now drv (gs_graph s) = (g, ev)" by fastforce
  define s1 where "s1 = forget_evicted L ev (s\<lparr>gs_graph := g\<rparr>)"
  define es1 where "es1 = map (Pair d) deps"
  define es2 where "es2 = map (\<lambda>a. (a, d)) as"
  define s4 where "s4 = fold (load_dependent L d) as (fold (load_dep L d) deps
      (s1\<lparr>gs_last_accessed := (gs_last_accessed s1)(d \<mapsto> now)\<rparr>))"
  have res: "fst (ensure_loaded L D now d s) = refresh_view L d s4"
    using absent db ins by (simp add: ensure_loaded_def s4_def s1_def Let_def)
  have ig: "invar (nodes g)" using insert_node_invar[OF inv(1), of now drv] ins by simp
  have new: "get_node L g d = Some (from_drv drv)"
    using get_node_insert_node[OF inv(1) ins, of d] path by simp
  have old: "get_node L g k = Some n \<Longrightarrow> k \<noteq> d \<Longrightarrow> get_node L (gs_graph s) k = Some n" for k n
    using insert_node_SomeD[OF inv(1), of now drv k n] ins path by auto
  have g4: "gs_graph s4 = add_edges L (es1 @ es2) g"
    by (simp add: s4_def fold_load_dep fold_load_dependent s1_def es1_def es2_def)
  have v4: "gs_view s4 = gs_view s1" and db4: "gs_db s4 = gs_db s"
    by (simp_all add: s4_def fold_load_dep fold_load_dependent s1_def)
  have i4: "graph_wf L invar (gs_graph s4)"
    unfolding g4 using graph_wf_insert_node[OF wf, of now drv] ins by (intro add_edges_wf) simp
  have known: "d \<in> set (gn_dependencies n)" if "get_node L g k = Some n" "k \<in> set as" "k \<noteq> d" for k n
    using old[OF that(1,3)] dependents_refs[OF dbok assms(2) db(3) that(2)] inv(3) by (auto simp: edges_known_def)
  have "view_ok L (refresh_view L d s4)"
  proof (rule refresh_view_ok)
    show "distinct (map fst (gs_view s4))"
      using inv(2) by (simp add: v4 s1_def view_ok_def forget_evicted_distinct)
    have "rel_option (\<lambda>n n'. True) (get_node L g d) (get_node L (gs_graph s4) d)"
      using add_edges_spec[OF ig, of "es1 @ es2" d] unfolding g4 by (auto elim: option.rel_mono_strong)
    then show "get_node L (gs_graph s4) d \<noteq> None" using new by (auto simp: option_rel_Some1)
    show "map_of (gs_view s4) k = map_option from_graph_node (get_node L (gs_graph s4) k)" if k: "k \<noteq> d" for k
    proof -
      have "map_option from_graph_node (get_node L (add_edges L (es1 @ es2) g) k)
          = map_option from_graph_node (get_node L g k)"
        by (rule add_edges_mirror[OF ig]) (use k known in \<open>auto simp: es1_def es2_def\<close>)
      then show ?thesis
        using insert_forget_mirror[OF inv(1,2) ins, of k] k path by (simp add: g4 v4 s1_def)
    qed
  qed
  moreover have "edges_known L D (refresh_view L d s4)"
    unfolding edges_known_def
  proof (intro allI impI)
    fix k n' rs
    assume v: "valid_drv_id k" and k: "get_node L (gs_graph (refresh_view L d s4)) k = Some n'"
      "db_get_drv_refs D (gs_db (refresh_view L d s4)) k = Inr rs"
    then obtain n where n: "get_node L g k = Some n"
      "set (gn_dependencies n') = set (gn_dependencies n) \<union> {b. (k, b) \<in> set (es1 @ es2)}"
      using add_edges_deps[OF ig, of "es1 @ es2" k n'] by (auto simp: g4)
    show "set rs \<subseteq> set (gn_dependencies n')"
    proof (cases "k = d")
      case True
      then show ?thesis using k(2) db(2) n(2) by (auto simp: db4 es1_def)
    next
      case False
      then show ?thesis using old[OF n(1) False] k(2) inv(3) n(2) v by (auto simp: edges_known_def db4)
    qed
  qed
  ultimately show ?thesis using i4 db4 dbok by (simp add: res service_ok_def)
qed

lemma service_ok_dest:
  assumes "service_ok L invar D db_ok s"
  shows "invar (nodes (gs_graph s))" "distinct (map fst (gs_view s))"
    "map_of (gs_view s) k = map_option from_graph_node (get_node L (gs_graph s) k)"
  using assms by (auto simp: service_ok_def view_ok_def)

lemma service_ok_wf: "service_ok L invar D db_ok s \<Longrightarrow> graph_wf L invar (gs_graph s)"
  by (simp add: service_ok_def)

lemma service_ok_db: "service_ok L invar D db_ok s \<Longrightarrow> db_ok (gs_db s)"
  by (simp add: service_ok_def)

lemma update_state_ok:
  assumes "service_ok L invar D db_ok s"
  shows "service_ok L invar D db_ok (fst (op_update_state L D now d st s))"
proof -
  obtain db r where u: "db_update_drv_status D (gs_db s) d st = (db, r)" by fastforce
  have "db_get_drv_refs D db = db_get_drv_refs D (gs_db s)" "db_ok db"
    using refs_update[of "gs_db s" d st] ok_update[OF service_ok_db[OF assms], of d st] u by simp_all
  then show ?thesis
    using service_ok_dest[OF assms] service_ok_wf[OF assms] u
    by (intro service_okI[OF assms])
      (auto simp: op_update_state_def Let_def graph_wf_update_state distinct_set_view_state
        map_of_set_view_state get_node_update_state option.map_comp o_def split: if_splits)
qed

lemma propagate_ok:
  assumes "service_ok L invar D db_ok s"
  shows "service_ok L invar D db_ok (fst (op_propagate_failure L D f s))"
proof -
  note inv = service_ok_dest[OF assms]
  obtain g bs where p: "graph_propagate_failure L f (gs_graph s) = (g, bs)" by fastforce
  have g: "g = fst (graph_propagate_failure L f (gs_graph s))" and bs: "bs = get_all_transitive_dependents L (gs_graph s) f"
    using p by (auto simp: graph_propagate_failure_def Let_def)
  define s1 where "s1 = s\<lparr>gs_graph := g, gs_view := fold (\<lambda>b. set_view_state b TransitiveFailure) bs (gs_view s)\<rparr>"
  have n1: "get_node L (gs_graph s1) k =
      (if k \<in> set bs then map_option (mark_blocked f) (get_node L (gs_graph s) k) else get_node L (gs_graph s) k)" for k
    using get_node_propagate[OF inv(1), of f k] by (simp add: s1_def g bs)
  have "service_ok L invar D db_ok (s1\<lparr>gs_db := db\<rparr>)"
    if "db_get_drv_refs D db = db_get_drv_refs D (gs_db s)" "db_ok db" for db
  proof (rule service_okI[OF assms])
    show "graph_wf L invar (gs_graph (s1\<lparr>gs_db := db\<rparr>))"
      using graph_wf_propagate[OF service_ok_wf[OF assms]] by (simp add: s1_def g)
  qed (use that inv(2,3) n1 in \<open>auto simp: s1_def distinct_fold_set_view_state
      map_of_fold_set_view_state option.map_comp o_def split: if_splits\<close>)
  from this[of "gs_db s"] this[of "fst (db_insert_transitive_failures D (gs_db s) f bs)"]
  show ?thesis using p refs_insert_failures[of "gs_db s" f bs] service_ok_db[OF assms]
      ok_insert_failures[of "gs_db s" f bs]
    by (auto simp: op_propagate_failure_def Let_def s1_def split: prod.splits sum.splits)
qed

lemma clear_nodes:
  assumes "invar (nodes g)" "graph_clear_failure L f g = (g', us)"
    and "\<forall>e\<in>set (transitive_failure_map g). distinct (snd e)"
  shows "rel_option (\<lambda>n n'. gn_dependencies n' = gn_dependencies n \<and>
        from_graph_node n' = (if k \<in> set us then (from_graph_node n)\<lparr>cn_build_state := Queued\<rparr> else from_graph_node n))
      (get_node L g k) (get_node L g' k)"
proof (cases "map_of (transitive_failure_map g) f")
  case None
  then show ?thesis using assms(2) by (auto simp: graph_clear_failure_def option.rel_refl)
next
  case (Some bs)
  then have "distinct bs" using assms(3) map_of_SomeD[OF Some] by auto
  then show ?thesis
    using get_node_clear[OF assms(1) Some, of k] snd_clear[OF assms(1) Some] assms(2)
    by (cases "get_node L g k") auto
qed

lemma clear_ok:
  assumes "service_ok L invar D db_ok s"
  shows "service_ok L invar D db_ok (fst (op_clear_failure L D f s))"
proof -
  note inv = service_ok_dest[OF assms]
  obtain g us where p: "graph_clear_failure L f (gs_graph s) = (g, us)" by fastforce
  define s1 where "s1 = s\<lparr>gs_graph := g, gs_view := fold (\<lambda>b. set_view_state b Queued) us (gs_view s)\<rparr>"
  have "\<forall>e\<in>set (transitive_failure_map (gs_graph s)). distinct (snd e)"
    using service_ok_wf[OF assms] by (simp add: graph_wf_def sets_wf_def)
  note r = clear_nodes[OF inv(1) p this]
  have "service_ok L invar D db_ok (s1\<lparr>gs_db := db\<rparr>)"
    if "db_get_drv_refs D db = db_get_drv_refs D (gs_db s)" "db_ok db" for db
  proof (rule service_okI[OF assms])
    show "graph_wf L invar (gs_graph (s1\<lparr>gs_db := db\<rparr>))"
      using graph_wf_clear[OF service_ok_wf[OF assms], of f] p by (simp add: s1_def)
    show "map_of (gs_view (s1\<lparr>gs_db := db\<rparr>)) k =
        map_option from_graph_node (get_node L (gs_graph (s1\<lparr>gs_db := db\<rparr>)) k)" for k
      using r[of k] inv(3)[of k] by (cases "get_node L g k")
        (auto simp: s1_def map_of_fold_set_view_state option_rel_Some2)
    show "\<exists>n. get_node L (gs_graph s) k = Some n \<and> set (gn_dependencies n) \<subseteq> set (gn_dependencies n')"
      if "get_node L (gs_graph (s1\<lparr>gs_db := db\<rparr>)) k = Some n'" for k n'
      using r[of k] that by (auto simp: s1_def option_rel_Some2)
  qed (use that inv(2) in \<open>auto simp: s1_def distinct_fold_set_view_state\<close>)
  from this[of "fst (db_clear_transitive_failures D (gs_db s) f)"]
  show ?thesis using p refs_clear_failures[of "gs_db s" f] ok_clear_failures[OF service_ok_db[OF assms], of f]
    by (auto simp: op_clear_failure_def Let_def s1_def split: prod.splits sum.splits)
qed

lemma insert_drv_ok:
  assumes "graph_wf L invar (gs_graph s)" "view_ok L s"
  shows "graph_wf L invar (gs_graph (insert_drv L now drv s)) \<and> view_ok L (insert_drv L now drv s) \<and>
    gs_db (insert_drv L now drv s) = gs_db s \<and>
    (get_node L (gs_graph (insert_drv L now drv s)) k = Some n \<longrightarrow>
      k = drv_path drv \<or> get_node L (gs_graph s) k = Some n)"
proof -
  have i: "invar (nodes (gs_graph s))" using assms(1) by (rule graph_wf_invar)
  obtain g ev where ins: "insert_node L now drv (gs_graph s) = (g, ev)" by fastforce
  define s2 where "s2 = (forget_evicted L ev (s\<lparr>gs_graph := g\<rparr>))
      \<lparr>gs_last_accessed := (gs_last_accessed (forget_evicted L ev (s\<lparr>gs_graph := g\<rparr>)))(drv_path drv \<mapsto> now)\<rparr>"
  have res: "insert_drv L now drv s = refresh_view L (drv_path drv) s2"
    by (simp add: insert_drv_def Let_def ins s2_def)
  have "graph_wf L invar g" using graph_wf_insert_node[OF assms(1), of now drv] ins by simp
  moreover have "view_ok L (refresh_view L (drv_path drv) s2)"
  proof (rule refresh_view_ok)
    show "distinct (map fst (gs_view s2))"
      using assms(2) by (simp add: s2_def view_ok_def forget_evicted_distinct)
    show "get_node L (gs_graph s2) (drv_path drv) \<noteq> None"
      using get_node_insert_node[OF i ins, of "drv_path drv"] by (simp add: s2_def)
    show "map_of (gs_view s2) k = map_option from_graph_node (get_node L (gs_graph s2) k)"
      if "k \<noteq> drv_path drv" for k
      using insert_forget_mirror[OF i assms(2) ins that] by (simp add: s2_def)
  qed
  ultimately show ?thesis
    using insert_node_SomeD[OF i, of now drv k n] ins by (auto simp: res s2_def)
qed

lemma fold_insert_drv_ok:
  assumes "graph_wf L invar (gs_graph s)" "view_ok L s"
  shows "graph_wf L invar (gs_graph (fold (insert_drv L now) drvs s)) \<and> view_ok L (fold (insert_drv L now) drvs s) \<and>
    gs_db (fold (insert_drv L now) drvs s) = gs_db s \<and>
    (get_node L (gs_graph (fold (insert_drv L now) drvs s)) k = Some n \<longrightarrow>
      k \<in> drv_path ` set drvs \<or> get_node L (gs_graph s) k = Some n)"
  using assms
proof (induction drvs arbitrary: s)
  case (Cons drv drvs)
  note o = insert_drv_ok[OF Cons.prems, of now drv k n]
  show ?case using Cons.IH[of "insert_drv L now drv s"] o by auto
qed simp

lemma insert_ref_frame:
  "gs_graph (insert_ref L (a, b) s) = add_edge L a b (gs_graph s)" "gs_db (insert_ref L (a, b) s) = gs_db s"
  by (auto simp: insert_ref_def Let_def split: option.splits)

lemma insert_ref_ok:
  assumes "graph_wf L invar (gs_graph s)" "view_ok L s"
  shows "view_ok L (insert_ref L (a, b) s)"
proof -
  have i: "invar (nodes (gs_graph s))" using assms(1) by (rule graph_wf_invar)
  have e: "(from_graph_node n)\<lparr>cn_dependencies := gn_dependencies (add_dependency b n)\<rparr> = from_graph_node (add_dependency b n)" for n
    by (simp add: from_graph_node_def add_dependency_def)
  show ?thesis
    using assms(2)
    by (auto simp: view_ok_def insert_ref_def Let_def get_node_add_edge[OF i] AList.map_of_map_entry
        AList.distinct_map_entry e option.map_ident option.map_id split: option.splits)
qed

lemma fold_insert_ref_ok:
  assumes "graph_wf L invar (gs_graph s)" "view_ok L s"
  shows "gs_graph (fold (insert_ref L) refs s) = add_edges L refs (gs_graph s) \<and>
    gs_db (fold (insert_ref L) refs s) = gs_db s \<and> view_ok L (fold (insert_ref L) refs s)"
  using assms
proof (induction refs arbitrary: s)
  case (Cons r refs)
  obtain a b where r: "r = (a, b)" by fastforce
  show ?case using Cons.IH[of "insert_ref L r s"] Cons.prems insert_ref_ok[OF Cons.prems, of a b]
    by (simp add: r insert_ref_frame graph_wf_add_edge)
qed simp

lemma insert_drvs_ok:
  assumes "service_ok L invar D db_ok s" "command_ok D (gs_db s) (InsertDrvs drvs refs)"
  shows "service_ok L invar D db_ok (op_insert_drvs L now drvs refs s)"
proof -
  have wf: "graph_wf L invar (gs_graph s)" "view_ok L s" "edges_known L D s"
    using assms(1) by (auto simp: service_ok_def)
  define s1 where "s1 = fold (insert_drv L now) drvs s"
  note f1 = fold_insert_drv_ok[OF wf(1,2), of now drvs, folded s1_def]
  note f2 = fold_insert_ref_ok[of s1 refs]
  have g2: "gs_graph (op_insert_drvs L now drvs refs s) = add_edges L refs (gs_graph s1)"
    "gs_db (op_insert_drvs L now drvs refs s) = gs_db s" "view_ok L (op_insert_drvs L now drvs refs s)"
    using f1 f2 by (auto simp: op_insert_drvs_def s1_def)
  have "edges_known L D (op_insert_drvs L now drvs refs s)"
    unfolding edges_known_def g2
  proof (intro allI impI)
    fix k n' rs
    assume v: "valid_drv_id k" and k: "get_node L (add_edges L refs (gs_graph s1)) k = Some n'" "db_get_drv_refs D (gs_db s) k = Inr rs"
    have "invar (nodes (gs_graph s1))" using f1 graph_wf_invar by blast
    then obtain n where n: "get_node L (gs_graph s1) k = Some n"
      "set (gn_dependencies n') = set (gn_dependencies n) \<union> {b. (k, b) \<in> set refs}"
      using add_edges_deps[OF _ k(1)] by blast
    from n(1) f1 consider "k \<in> drv_path ` set drvs" | "get_node L (gs_graph s) k = Some n" by blast
    then show "set rs \<subseteq> set (gn_dependencies n')"
    proof cases
      case 1
      then show ?thesis using assms(2) k(2) n(2) by auto
    next
      case 2
      then show ?thesis using wf(3) k(2) n(2) v by (auto simp: edges_known_def)
    qed
  qed
  then show ?thesis using g2 f1 add_edges_wf service_ok_db[OF assms(1)] by (simp add: service_ok_def)
qed

lemma load_seeds_ok:
  "service_ok L invar D db_ok s \<Longrightarrow> list_all valid_drv_id seeds \<Longrightarrow> service_ok L invar D db_ok (load_seeds L D now seeds s)"
  unfolding load_seeds_def
  by (induction seeds arbitrary: s) (auto simp: ensure_loaded_ok)

lemma handle_command_ok:
  assumes "service_ok L invar D db_ok s" "command_ok D (gs_db s) c"
  shows "service_ok L invar D db_ok (fst (handle_command L D now c s))"
proof -
  have q: "ensure_loaded L D now d s = (s', r) \<Longrightarrow> valid_drv_id d \<Longrightarrow> service_ok L invar D db_ok s'"
    "op_update_state L D now d st s = (s', r') \<Longrightarrow> service_ok L invar D db_ok s'"
    "op_propagate_failure L D d s = (s', r'') \<Longrightarrow> service_ok L invar D db_ok s'"
    "op_clear_failure L D d s = (s', r'') \<Longrightarrow> service_ok L invar D db_ok s'" for d st s' r r' r''
    using ensure_loaded_ok[OF assms(1), of d now] update_state_ok[OF assms(1), of now d st]
      propagate_ok[OF assms(1), of d] clear_ok[OF assms(1), of d] by auto
  show ?thesis
    using assms load_seeds_ok[OF assms(1)] q
    by (cases c)
      (auto simp: handle_update_state_def handle_insert_drvs_def handle_propagate_failure_def
        handle_clear_failure_def handle_get_buildable_drvs_def handle_get_dependents_def
        handle_get_dependencies_def handle_get_failed_dependencies_def handle_get_all_failed_drvs_def
        handle_reverse_reachable_def handle_blast_radius_def Let_def insert_drvs_ok
        split: prod.splits sum.splits)
qed

text \<open>No command of the service changes the stored references.\<close>

lemma ensure_loaded_db: "gs_db (fst (ensure_loaded L D now d s)) = gs_db s"
  by (auto simp: ensure_loaded_def Let_def fold_load_dep fold_load_dependent
      split: prod.splits sum.splits option.splits)

lemma load_seeds_db: "gs_db (load_seeds L D now seeds s) = gs_db s"
  unfolding load_seeds_def by (induction seeds arbitrary: s) (auto simp: ensure_loaded_db)

lemma insert_drv_db: "gs_db (insert_drv L now drv s) = gs_db s"
  by (auto simp: insert_drv_def Let_def split: prod.splits)

lemma fold_insert_ref_db: "gs_db (fold (insert_ref L) refs s) = gs_db s"
  by (induction refs arbitrary: s) (auto simp: insert_ref_frame)

lemma fold_insert_drv_db: "gs_db (fold (insert_drv L now) drvs s) = gs_db s"
  by (induction drvs arbitrary: s) (auto simp: insert_drv_db)

lemma op_insert_drvs_db: "gs_db (op_insert_drvs L now drvs refs s) = gs_db s"
  by (simp add: op_insert_drvs_def fold_insert_ref_db fold_insert_drv_db)

lemma handle_command_refs:
  "db_get_drv_refs D (gs_db (fst (handle_command L D now c s))) = db_get_drv_refs D (gs_db s)"
proof (cases c)
  case (UpdateState d st)
  then show ?thesis using refs_update[of "gs_db s" d st]
    by (auto simp: handle_update_state_def op_update_state_def Let_def split: prod.splits sum.splits)
next
  case (PropagateFailure d)
  then show ?thesis using refs_insert_failures[of "gs_db s" d]
    by (auto simp: handle_propagate_failure_def op_propagate_failure_def Let_def split: prod.splits sum.splits)
      (metis fst_conv)+
next
  case (ClearFailure d)
  then show ?thesis using refs_clear_failures[of "gs_db s" d]
    by (auto simp: handle_clear_failure_def op_clear_failure_def Let_def split: prod.splits sum.splits)
next
  case (GetDependents d)
  then show ?thesis using ensure_loaded_db[of now d s]
    by (auto simp: handle_get_dependents_def split: prod.splits sum.splits)
next
  case (GetDependencies d)
  then show ?thesis using ensure_loaded_db[of now d s]
    by (auto simp: handle_get_dependencies_def split: prod.splits sum.splits)
next
  case (GetFailedDependencies d)
  then show ?thesis using ensure_loaded_db[of now d s]
    by (auto simp: handle_get_failed_dependencies_def split: prod.splits sum.splits)
qed (auto simp: handle_insert_drvs_def op_insert_drvs_db handle_get_buildable_drvs_def
    handle_get_all_failed_drvs_def handle_reverse_reachable_def handle_blast_radius_def Let_def load_seeds_db)

lemma command_ok_cong:
  "db_get_drv_refs D db = db_get_drv_refs D db' \<Longrightarrow> command_ok D db c = command_ok D db' c"
  by (cases c) auto

lemma run_round_ok:
  assumes "service_ok L invar D db_ok s" "command_ok D (gs_db s) c"
  shows "service_ok L invar D db_ok (fst (run_round L D now c (s, n))) \<and>
    db_get_drv_refs D (gs_db (fst (run_round L D now c (s, n)))) = db_get_drv_refs D (gs_db s)"
proof -
  have frame: "service_ok L invar D db_ok (t\<lparr>gs_last_dry_run_check := i\<rparr>)"
    "service_ok L invar D db_ok (prune_stale_tracking_entries L t)"
    "service_ok L invar D db_ok (t\<lparr>gs_graph := fst (evict_stale_failures now (gs_graph t))\<rparr>)"
    if "service_ok L invar D db_ok t" for t i
    using that graph_wf_evict_stale
    by (auto simp: service_ok_def view_ok_def edges_known_def prune_stale_tracking_entries_def Let_def
        get_node_def evict_stale_frame)
  have db: "gs_db (prune_stale_tracking_entries L t) = gs_db t" for t
    by (simp add: prune_stale_tracking_entries_def Let_def)
  show ?thesis
    using handle_command_ok[OF assms, of now] handle_command_refs[of now c s] frame
    by (auto simp: run_round_def Let_def db)
qed

lemma run_ok:
  assumes "service_ok L invar D db_ok s" "\<forall>(now, c)\<in>set cs. command_ok D (gs_db s) c"
  shows "service_ok L invar D db_ok (fst (run L D cs (s, n)))"
  using assms
proof (induction cs arbitrary: s n)
  case (Cons x cs)
  obtain now c where x: "x = (now, c)" by fastforce
  obtain s1 n1 where r: "run_round L D now c (s, n) = (s1, n1)" by fastforce
  have o: "service_ok L invar D db_ok s1" "db_get_drv_refs D (gs_db s1) = db_get_drv_refs D (gs_db s)"
    using run_round_ok[OF Cons.prems(1), of c now n] Cons.prems(2) r by (auto simp: x)
  then have "\<forall>(now, c)\<in>set cs. command_ok D (gs_db s1) c"
    using Cons.prems(2) command_ok_cong[OF o(2)] by auto
  then show ?case using Cons.IH[OF o(1)] by (simp add: x r)
qed simp

text \<open>A service that starts up is in order.\<close>

lemma propagate_all_nodes:
  assumes "graph_wf L invar g"
  shows "graph_wf L invar (propagate_all L fs g) \<and>
    (get_node L (propagate_all L fs g) k = Some n' \<longrightarrow>
      (\<exists>n. get_node L g k = Some n \<and> gn_dependencies n' = gn_dependencies n))"
  using assms
proof (induction fs arbitrary: g)
  case (Cons f fs)
  have w: "graph_wf L invar (fst (graph_propagate_failure L f g))" using graph_wf_propagate[OF Cons.prems] .
  show ?case using Cons.IH[OF w] w get_node_propagate[OF graph_wf_invar[OF Cons.prems], of f k]
    by (auto split: if_splits)
qed simp

lemma fold_load_wf: "graph_wf L invar g \<Longrightarrow> graph_wf L invar (fold (load_drv L now) drvs g)"
  by (induction drvs arbitrary: g) (auto simp: load_drv_def graph_wf_insert_node)

lemma view_of_entries:
  "distinct (map fst es) \<Longrightarrow> distinct (map fst v) \<Longrightarrow>
   distinct (map fst (fold (\<lambda>(d, n). AList.update d (from_graph_node n)) es v)) \<and>
   map_of (fold (\<lambda>(d, n). AList.update d (from_graph_node n)) es v) k =
     (case map_of es k of Some n \<Rightarrow> Some (from_graph_node n) | None \<Rightarrow> map_of v k)"
proof (induction es arbitrary: v)
  case (Cons e es)
  obtain d n where e: "e = (d, n)" by fastforce
  then have "map_of es d = None" using Cons.prems by (auto simp: map_of_eq_None_iff)
  then show ?case using Cons.IH[of "AList.update d (from_graph_node n) v"] Cons.prems
    by (auto simp: e distinct_update update_conv' split: option.splits)
qed simp

lemma service_new_ok:
  assumes "service_new L D now db cap = Some (Inr s)" "db_ok db"
  shows "service_ok L invar D db_ok s \<and> gs_db s = db"
proof -
  obtain g where f: "from_database L now D db cap = Some (Inr g)" and
    s: "gs_graph s = g" "gs_db s = db"
      "gs_view s = fold (\<lambda>(d, n). AList.update d (from_graph_node n)) (lru_iter L (nodes g)) []"
    using assms by (auto simp: service_new_def Let_def split: option.splits sum.splits)
  obtain drvs refs g0 where d: "db_get_all_refs D db = Inr refs" "graph_new L cap = Some g0"
    and g: "g = propagate_all L (map fst (failed_drvs (add_edges L refs (fold (load_drv L now) drvs g0))))
        (add_edges L refs (fold (load_drv L now) drvs g0))"
    using f by (auto simp: from_database_def Let_def split: sum.splits option.splits)
  have w1: "graph_wf L invar (fold (load_drv L now) drvs g0)" using graph_wf_new[OF d(2)] fold_load_wf by blast
  note w2 = add_edges_wf[OF w1, of refs]
  note p = propagate_all_nodes[OF w2, of "map fst (failed_drvs (add_edges L refs (fold (load_drv L now) drvs g0)))", folded g]
  have "edges_known L D s"
    unfolding edges_known_def s
  proof (intro allI impI)
    fix k n' rs
    assume v: "valid_drv_id k" and k: "get_node L g k = Some n'" "db_get_drv_refs D db k = Inr rs"
    then obtain n where "get_node L (add_edges L refs (fold (load_drv L now) drvs g0)) k = Some n"
      "gn_dependencies n' = gn_dependencies n" using p by blast
    then show "set rs \<subseteq> set (gn_dependencies n')"
      using add_edges_deps[OF graph_wf_invar[OF w1]] all_refs[OF assms(2) v d(1) k(2)] by fastforce
  qed
  moreover have "view_ok L s"
    using view_of_entries[OF distinct_iter, of "nodes g" "[]"] p
    by (auto simp: view_ok_def s get_node_def peek_iter graph_wf_invar split: option.splits)
  ultimately show ?thesis using p assms(2) by (simp add: service_ok_def s)
qed

text \<open>What a reader of the view gets.\<close>

lemma view_answers:
  assumes "service_ok L invar D db_ok s"
  shows "handle_is_buildable (gs_view s) d = graph_is_buildable L (gs_graph s) d"
    and "handle_get_build_state (gs_view s) d = map_option gn_build_state (get_node L (gs_graph s) d)"
    and "set (get_dependents_from_view (gs_view s) d) =
      {k. \<exists>n. get_node L (gs_graph s) k = Some n \<and> d \<in> set (gn_dependencies n)}"
proof -
  note v = service_ok_dest[OF assms]
  show "handle_is_buildable (gs_view s) d = graph_is_buildable L (gs_graph s) d"
    using v(3) by (auto simp: handle_is_buildable_def graph_is_buildable_def get_node_def list_all_iff
        split: option.splits)
  show "handle_get_build_state (gs_view s) d = map_option gn_build_state (get_node L (gs_graph s) d)"
    using v(3)[of d] by (simp add: handle_get_build_state_def option.map_comp o_def)
  have "(k, c) \<in> set (gs_view s) \<longleftrightarrow> (\<exists>n. get_node L (gs_graph s) k = Some n \<and> c = from_graph_node n)" for k c
    unfolding map_of_eq_Some_iff[OF v(2), symmetric] v(3)[of k] by auto
  then show "set (get_dependents_from_view (gs_view s) d) =
      {k. \<exists>n. get_node L (gs_graph s) k = Some n \<and> d \<in> set (gn_dependencies n)}"
    by (force simp: get_dependents_from_view_def)
qed

end

end
