(* ===== verification/Database.thy ===== *)
theory Database
  imports Service_Props "HOL-Library.List_Lexorder"
begin

text \<open>
  The tables behind the graph (\<open>server/sql/migrations/20250426_drv.sql\<close>), the
  queries on them (\<open>server/src/db/model/drv/queries.rs\<close>) and the adapter that
  gives them the interface of the graph crate
  (\<open>server/src/db/graph_impl.rs\<close>).  A table is the list of its rows in row-id
  order; \<open>UNIQUE \<dots> ON CONFLICT IGNORE\<close> and the foreign keys, which the
  connection enables, are part of the model.  Failures of the database engine
  itself are not.  Build states are stored decoded; their byte codes are in
  \<open>Build_State\<close>.
\<close>

section \<open>Tables\<close>

record LocalDrv =
  ld_drv_path :: string
  ld_system :: string
  ld_prefer_local_build :: bool
  ld_required_system_features :: "string option"
  ld_is_fod :: bool
  ld_build_state :: LocalState
  ld_output_size :: "int option"
  ld_closure_size :: "int option"
  ld_pname :: "string option"
  ld_version :: "string option"
  ld_license_json :: "string option"
  ld_maintainers_json :: "string option"
  ld_meta_position :: "string option"
  ld_broken :: "bool option"
  ld_insecure :: "bool option"

record Database =
  drv_rows :: "LocalDrv list"
  ref_rows :: "(string \<times> string) list"
  tf_rows :: "(string \<times> string) list"
  event_rows :: "(string \<times> nat \<times> LocalState) list"

definition coalesce :: "'a option \<Rightarrow> 'a option \<Rightarrow> 'a option" where
  "coalesce a b = (case a of Some x \<Rightarrow> Some x | None \<Rightarrow> b)"

definition drv_paths :: "Database \<Rightarrow> string set" where
  "drv_paths db = ld_drv_path ` set (drv_rows db)"

definition fk_error :: anyhow where
  "fk_error = ''FOREIGN KEY constraint failed''"

section \<open>Queries\<close>

definition q_get_drv :: "string \<Rightarrow> Database \<Rightarrow> LocalDrv option" where
  "q_get_drv derivation db = find (\<lambda>r. ld_drv_path r = derivation) (drv_rows db)"

definition has_drv :: "Database \<Rightarrow> string \<Rightarrow> bool" where
  "has_drv db path = list_ex (\<lambda>r. ld_drv_path r = local_strip_store_path path) (drv_rows db)"

text \<open>The metadata columns are taken from the new row where it has them.\<close>

definition enrich_row :: "LocalDrv \<Rightarrow> LocalDrv \<Rightarrow> LocalDrv" where
  "enrich_row excluded r =
     r\<lparr>ld_pname := coalesce (ld_pname excluded) (ld_pname r),
       ld_version := coalesce (ld_version excluded) (ld_version r),
       ld_license_json := coalesce (ld_license_json excluded) (ld_license_json r),
       ld_maintainers_json := coalesce (ld_maintainers_json excluded) (ld_maintainers_json r),
       ld_meta_position := coalesce (ld_meta_position excluded) (ld_meta_position r),
       ld_broken := coalesce (ld_broken excluded) (ld_broken r),
       ld_insecure := coalesce (ld_insecure excluded) (ld_insecure r)\<rparr>"

definition upsert_row :: "LocalDrv \<Rightarrow> LocalDrv list \<Rightarrow> LocalDrv list" where
  "upsert_row drv rows =
     (if ld_drv_path drv \<in> ld_drv_path ` set rows
      then map (\<lambda>r. if ld_drv_path r = ld_drv_path drv then enrich_row drv r else r) rows
      else rows @ [drv\<lparr>ld_prefer_local_build := False\<rparr>])"

definition insert_ignore :: "'a \<Rightarrow> 'a list \<Rightarrow> 'a list" where
  "insert_ignore x xs = (if x \<in> set xs then xs else xs @ [x])"

fun chunks :: "nat \<Rightarrow> 'a list \<Rightarrow> 'a list list" where
  "chunks n [] = []"
| "chunks n (x # xs) = take (max n 1) (x # xs) # chunks n (drop (max n 1) (x # xs))"

text \<open>Each chunk of references is one transaction: it is inserted as a whole or, when a
  reference names an unknown drv, the call fails with the earlier chunks kept.\<close>

fun insert_ref_chunks :: "(string \<times> string) list list \<Rightarrow> Database \<Rightarrow> Database \<times> (anyhow, unit) result" where
  "insert_ref_chunks [] db = (db, Inr ())"
| "insert_ref_chunks (c # cs) db =
     (if \<forall>(a, b)\<in>set c. a \<in> drv_paths db \<and> b \<in> drv_paths db
      then insert_ref_chunks cs (db\<lparr>ref_rows := fold insert_ignore c (ref_rows db)\<rparr>)
      else (db, Inl fk_error))"

definition insert_drvs_and_references ::
  "Database \<Rightarrow> LocalDrv list \<Rightarrow> (string \<times> string) list \<Rightarrow> Database \<times> (anyhow, unit) result" where
  "insert_drvs_and_references db drvs drv_refs =
     (let db1 = fold (\<lambda>chunk db. db\<lparr>drv_rows := fold upsert_row chunk (drv_rows db)\<rparr>) (chunks 2340 drvs) db
      in insert_ref_chunks (chunks 16380 drv_refs) db1)"

definition q_insert_drv_ref :: "Database \<Rightarrow> string \<Rightarrow> string \<Rightarrow> Database \<times> (anyhow, unit) result" where
  "q_insert_drv_ref db referrer_id reference_id =
     (if referrer_id \<in> drv_paths db \<and> reference_id \<in> drv_paths db
      then (db\<lparr>ref_rows := insert_ignore (referrer_id, reference_id) (ref_rows db)\<rparr>, Inr ())
      else (db, Inl fk_error))"

definition q_insert_drv :: "Database \<Rightarrow> LocalDrv \<Rightarrow> Database" where
  "q_insert_drv db drv =
     db\<lparr>drv_rows := upsert_row (drv\<lparr>ld_build_state := LocalQueued, ld_output_size := None,
          ld_closure_size := None\<rparr>) (drv_rows db)\<rparr>"

record DrvPackageMetadata =
  pm_pname :: "string option"
  pm_version :: "string option"
  pm_license_json :: "string option"
  pm_maintainers_json :: "string option"
  pm_meta_position :: "string option"
  pm_broken :: "bool option"
  pm_insecure :: "bool option"

definition update_row_metadata :: "string \<times> DrvPackageMetadata \<Rightarrow> LocalDrv list \<Rightarrow> LocalDrv list" where
  "update_row_metadata item rows = (case item of (drv_id, m) \<Rightarrow>
     if pm_pname m = None \<and> pm_version m = None \<and> pm_license_json m = None \<and> pm_maintainers_json m = None \<and>
        pm_meta_position m = None \<and> pm_broken m = None \<and> pm_insecure m = None
     then rows
     else map (\<lambda>r. if ld_drv_path r = drv_id
            then r\<lparr>ld_pname := coalesce (pm_pname m) (ld_pname r),
                   ld_version := coalesce (pm_version m) (ld_version r),
                   ld_license_json := coalesce (pm_license_json m) (ld_license_json r),
                   ld_maintainers_json := coalesce (pm_maintainers_json m) (ld_maintainers_json r),
                   ld_meta_position := coalesce (pm_meta_position m) (ld_meta_position r),
                   ld_broken := coalesce (pm_broken m) (ld_broken r),
                   ld_insecure := coalesce (pm_insecure m) (ld_insecure r)\<rparr>
            else r) rows)"

definition update_drv_package_metadata :: "Database \<Rightarrow> (string \<times> DrvPackageMetadata) list \<Rightarrow> Database" where
  "update_drv_package_metadata db items = db\<lparr>drv_rows := fold update_row_metadata items (drv_rows db)\<rparr>"

definition set_row_state :: "string \<Rightarrow> LocalState \<Rightarrow> LocalDrv list \<Rightarrow> LocalDrv list" where
  "set_row_state d st rows = map (\<lambda>r. if ld_drv_path r = d then r\<lparr>ld_build_state := st\<rparr> else r) rows"

definition q_update_drv_status :: "Database \<Rightarrow> string \<Rightarrow> LocalState \<Rightarrow> Database" where
  "q_update_drv_status db drv_id build_state =
     db\<lparr>drv_rows := set_row_state drv_id build_state (drv_rows db),
        event_rows := event_rows db @ [(store_path drv_id, 1, build_state)]\<rparr>"

definition q_drv_references :: "Database \<Rightarrow> string \<Rightarrow> LocalDrv list" where
  "q_drv_references db drv = filter (\<lambda>r. (drv, ld_drv_path r) \<in> set (ref_rows db)) (drv_rows db)"

definition get_derivations_in_state :: "LocalState \<Rightarrow> Database \<Rightarrow> string list" where
  "get_derivations_in_state st db = map ld_drv_path (filter (\<lambda>r. ld_build_state r = st) (drv_rows db))"

definition get_buildable_and_retry_drvs :: "Database \<Rightarrow> string list" where
  "get_buildable_and_retry_drvs db =
     map ld_drv_path (filter (\<lambda>r. ld_build_state r = LocalBuildable \<or> ld_build_state r = LocalFailedRetry) (drv_rows db))"

definition referrers_of :: "Database \<Rightarrow> string \<Rightarrow> string list" where
  "referrers_of db d = map fst (filter (\<lambda>(a, b). b = d) (ref_rows db))"

text \<open>The recursive common table expression: \<open>UNION\<close> keeps each row once.\<close>

definition get_all_transitive_referrers :: "string \<Rightarrow> Database \<Rightarrow> string list" where
  "get_all_transitive_referrers drv db =
     (let start = hs_collect (referrers_of db drv) in bfs (referrers_of db) start start)"

fun insert_failure_rows :: "string \<Rightarrow> string list \<Rightarrow> Database \<Rightarrow> Database option" where
  "insert_failure_rows failed_drv [] db = Some db"
| "insert_failure_rows failed_drv (referrer # rs) db =
     (if failed_drv \<in> drv_paths db \<and> referrer \<in> drv_paths db
      then insert_failure_rows failed_drv rs
             (db\<lparr>tf_rows := insert_ignore (failed_drv, referrer) (tf_rows db),
                 drv_rows := set_row_state referrer LocalTransitiveFailure (drv_rows db)\<rparr>)
      else None)"

definition q_insert_transitive_failures :: "string \<Rightarrow> string list \<Rightarrow> Database \<Rightarrow> Database \<times> (anyhow, unit) result" where
  "q_insert_transitive_failures failed_drv transitive_referrers db =
     (if transitive_referrers = [] then (db, Inr ())
      else case insert_failure_rows failed_drv transitive_referrers db of
        Some db' \<Rightarrow> (db', Inr ())
      | None \<Rightarrow> (db, Inl fk_error))"

definition q_clear_transitive_failures :: "string \<Rightarrow> Database \<Rightarrow> Database \<times> string list" where
  "q_clear_transitive_failures failed_drv db =
     (db\<lparr>tf_rows := filter (\<lambda>(f, _). f \<noteq> failed_drv) (tf_rows db)\<rparr>,
      map snd (filter (\<lambda>(f, _). f = failed_drv) (tf_rows db)))"

definition q_get_failed_dependencies :: "string \<Rightarrow> Database \<Rightarrow> string list" where
  "q_get_failed_dependencies drv db = map fst (filter (\<lambda>(_, r). r = drv) (tf_rows db))"

definition count_drv_dependencies :: "string \<Rightarrow> Database \<Rightarrow> nat" where
  "count_drv_dependencies drv_id db = length (filter (\<lambda>(a, _). a = drv_id) (ref_rows db))"

definition q_get_all_drvs :: "Database \<Rightarrow> LocalDrv list" where
  "q_get_all_drvs db = drv_rows db"

definition parse_error :: anyhow where
  "parse_error = ''Invalid derivation identifier''"

fun parse_ids :: "string list \<Rightarrow> (anyhow, DrvId list) result" where
  "parse_ids [] = Inr []"
| "parse_ids (x # xs) =
     (case local_DrvId_try_from x of
        Inl _ \<Rightarrow> Inl parse_error
      | Inr d \<Rightarrow> (case parse_ids xs of Inl e \<Rightarrow> Inl e | Inr ds \<Rightarrow> Inr (d # ds)))"

fun parse_pairs :: "(string \<times> string) list \<Rightarrow> (anyhow, (DrvId \<times> DrvId) list) result" where
  "parse_pairs [] = Inr []"
| "parse_pairs ((a, b) # xs) =
     (case local_DrvId_try_from a of
        Inl _ \<Rightarrow> Inl parse_error
      | Inr a' \<Rightarrow> (case local_DrvId_try_from b of
          Inl _ \<Rightarrow> Inl parse_error
        | Inr b' \<Rightarrow> (case parse_pairs xs of Inl e \<Rightarrow> Inl e | Inr ps \<Rightarrow> Inr ((a', b') # ps))))"

definition q_get_all_refs :: "Database \<Rightarrow> (anyhow, (DrvId \<times> DrvId) list) result" where
  "q_get_all_refs db = parse_pairs (ref_rows db)"

text \<open>Strings in the lexicographic byte order of \<open>ORDER BY\<close>.\<close>

definition sort_text :: "string list \<Rightarrow> string list" where
  "sort_text xs = map (map char_of) (sort (map (map (of_char :: char \<Rightarrow> nat)) xs))"

definition q_get_drv_refs :: "string \<Rightarrow> Database \<Rightarrow> (anyhow, DrvId list) result" where
  "q_get_drv_refs drv_id db =
     parse_ids (sort_text (map snd (filter (\<lambda>(a, _). a = drv_id) (ref_rows db))))"

definition q_get_drv_dependents :: "string \<Rightarrow> Database \<Rightarrow> (anyhow, DrvId list) result" where
  "q_get_drv_dependents drv_id db =
     parse_ids (sort_text (map fst (filter (\<lambda>(_, b). b = drv_id) (ref_rows db))))"

section \<open>The adapter\<close>

text \<open>The conversions go through the text form and parse it with the other crate's parser.\<close>

definition to_shared_drv :: "LocalDrv \<Rightarrow> (anyhow, Drv) result" where
  "to_shared_drv d =
     (case DrvId_try_from (ld_drv_path d) of
        Inl _ \<Rightarrow> Inl parse_error
      | Inr path \<Rightarrow> Inr \<lparr> drv_path = path, drv_system = ld_system d,
          drv_prefer_local_build = ld_prefer_local_build d,
          drv_required_system_features = ld_required_system_features d, drv_is_fod = ld_is_fod d,
          drv_build_state = convert_build_state (ld_build_state d), drv_output_size = ld_output_size d,
          drv_closure_size = ld_closure_size d, drv_pname = ld_pname d, drv_version = ld_version d,
          drv_license_json = ld_license_json d, drv_maintainers_json = ld_maintainers_json d,
          drv_meta_position = ld_meta_position d, drv_broken = ld_broken d, drv_insecure = ld_insecure d \<rparr>)"

fun to_shared_ids :: "DrvId list \<Rightarrow> (anyhow, DrvId list) result" where
  "to_shared_ids [] = Inr []"
| "to_shared_ids (x # xs) =
     (case DrvId_try_from x of
        Inl _ \<Rightarrow> Inl parse_error
      | Inr d \<Rightarrow> (case to_shared_ids xs of Inl e \<Rightarrow> Inl e | Inr ds \<Rightarrow> Inr (d # ds)))"

fun to_shared_pairs :: "(DrvId \<times> DrvId) list \<Rightarrow> (anyhow, (DrvId \<times> DrvId) list) result" where
  "to_shared_pairs [] = Inr []"
| "to_shared_pairs ((a, b) # xs) =
     (case DrvId_try_from a of
        Inl _ \<Rightarrow> Inl parse_error
      | Inr a' \<Rightarrow> (case DrvId_try_from b of
          Inl _ \<Rightarrow> Inl parse_error
        | Inr b' \<Rightarrow> (case to_shared_pairs xs of Inl e \<Rightarrow> Inl e | Inr ps \<Rightarrow> Inr ((a', b') # ps))))"

fun to_shared_drvs :: "LocalDrv list \<Rightarrow> (anyhow, Drv list) result" where
  "to_shared_drvs [] = Inr []"
| "to_shared_drvs (d # ds) =
     (case to_shared_drv d of
        Inl e \<Rightarrow> Inl e
      | Inr x \<Rightarrow> (case to_shared_drvs ds of Inl e \<Rightarrow> Inl e | Inr xs \<Rightarrow> Inr (x # xs)))"

definition impl_get_drv :: "Database \<Rightarrow> DrvId \<Rightarrow> (anyhow, Drv option) result" where
  "impl_get_drv db d =
     (case local_DrvId_try_from d of
        Inl _ \<Rightarrow> Inl parse_error
      | Inr local_id \<Rightarrow>
          (case q_get_drv local_id db of
             None \<Rightarrow> Inr None
           | Some r \<Rightarrow> (case to_shared_drv r of Inl e \<Rightarrow> Inl e | Inr x \<Rightarrow> Inr (Some x))))"

definition impl_update_drv_status :: "Database \<Rightarrow> DrvId \<Rightarrow> DrvBuildState \<Rightarrow> Database \<times> (anyhow, unit) result" where
  "impl_update_drv_status db d st =
     (case local_DrvId_try_from d of
        Inl _ \<Rightarrow> (db, Inl parse_error)
      | Inr local_id \<Rightarrow> (q_update_drv_status db local_id (convert_build_state_back st), Inr ()))"

definition impl_get_all_drvs :: "Database \<Rightarrow> (anyhow, Drv list) result" where
  "impl_get_all_drvs db = to_shared_drvs (q_get_all_drvs db)"

definition impl_get_all_refs :: "Database \<Rightarrow> (anyhow, (DrvId \<times> DrvId) list) result" where
  "impl_get_all_refs db = (case q_get_all_refs db of Inl e \<Rightarrow> Inl e | Inr refs \<Rightarrow> to_shared_pairs refs)"

definition impl_get_drv_refs :: "Database \<Rightarrow> DrvId \<Rightarrow> (anyhow, DrvId list) result" where
  "impl_get_drv_refs db d =
     (case local_DrvId_try_from d of
        Inl _ \<Rightarrow> Inl parse_error
      | Inr local_id \<Rightarrow> (case q_get_drv_refs local_id db of Inl e \<Rightarrow> Inl e | Inr ids \<Rightarrow> to_shared_ids ids))"

definition impl_get_drv_dependents :: "Database \<Rightarrow> DrvId \<Rightarrow> (anyhow, DrvId list) result" where
  "impl_get_drv_dependents db d =
     (case local_DrvId_try_from d of
        Inl _ \<Rightarrow> Inl parse_error
      | Inr local_id \<Rightarrow> (case q_get_drv_dependents local_id db of Inl e \<Rightarrow> Inl e | Inr ids \<Rightarrow> to_shared_ids ids))"

definition impl_insert_transitive_failures :: "Database \<Rightarrow> DrvId \<Rightarrow> DrvId list \<Rightarrow> Database \<times> (anyhow, unit) result" where
  "impl_insert_transitive_failures db failed_drv transitive_referrers =
     (case local_DrvId_try_from failed_drv of
        Inl _ \<Rightarrow> (db, Inl parse_error)
      | Inr local_failed \<Rightarrow>
          (case parse_ids transitive_referrers of
             Inl e \<Rightarrow> (db, Inl e)
           | Inr local_referrers \<Rightarrow> q_insert_transitive_failures local_failed local_referrers db))"

definition impl_clear_transitive_failures :: "Database \<Rightarrow> DrvId \<Rightarrow> Database \<times> (anyhow, DrvId list) result" where
  "impl_clear_transitive_failures db d =
     (case local_DrvId_try_from d of
        Inl _ \<Rightarrow> (db, Inl parse_error)
      | Inr local_id \<Rightarrow>
          (case q_clear_transitive_failures local_id db of (db', ids) \<Rightarrow> (db', to_shared_ids ids)))"

definition DbService_db :: "Database GraphDatabase" where
  "DbService_db =
     \<lparr> db_get_drv = impl_get_drv, db_update_drv_status = impl_update_drv_status,
       db_get_all_drvs = impl_get_all_drvs, db_get_all_refs = impl_get_all_refs,
       db_get_drv_refs = impl_get_drv_refs, db_get_drv_dependents = impl_get_drv_dependents,
       db_insert_transitive_failures = impl_insert_transitive_failures,
       db_clear_transitive_failures = impl_clear_transitive_failures \<rparr>"

section \<open>Lemmas\<close>

text \<open>The reference table holds identifiers.\<close>

definition db_wf :: "Database \<Rightarrow> bool" where
  "db_wf db = (\<forall>(a, b)\<in>set (ref_rows db). valid_drv_id a \<and> valid_drv_id b)"

lemma DbService_db_sel [simp]:
  "db_get_drv DbService_db = impl_get_drv" "db_update_drv_status DbService_db = impl_update_drv_status"
  "db_get_all_drvs DbService_db = impl_get_all_drvs" "db_get_all_refs DbService_db = impl_get_all_refs"
  "db_get_drv_refs DbService_db = impl_get_drv_refs" "db_get_drv_dependents DbService_db = impl_get_drv_dependents"
  "db_insert_transitive_failures DbService_db = impl_insert_transitive_failures"
  "db_clear_transitive_failures DbService_db = impl_clear_transitive_failures"
  by (simp_all add: DbService_db_def)

lemma try_from_id: "valid_drv_id d \<Longrightarrow> DrvId_try_from d = Inr d"
  by (simp add: try_from_valid strip_store_path_id valid_drv_id_no_slash)

lemma to_shared_ids_eq: "to_shared_ids = parse_ids"
proof
  fix xs show "to_shared_ids xs = parse_ids xs"
    by (induction xs) (auto simp: local_try_from_eq split: sum.splits)
qed

lemma to_shared_pairs_eq: "to_shared_pairs = parse_pairs"
proof
  fix xs show "to_shared_pairs xs = parse_pairs xs"
    by (induction xs rule: parse_pairs.induct) (auto simp: local_try_from_eq split: sum.splits)
qed

lemma parse_ids_valid: "list_all valid_drv_id xs \<Longrightarrow> parse_ids xs = Inr xs"
  by (induction xs) (auto simp: local_try_from_eq try_from_id)

lemma parse_pairs_valid: "\<forall>(a, b)\<in>set xs. valid_drv_id a \<and> valid_drv_id b \<Longrightarrow> parse_pairs xs = Inr xs"
  by (induction xs rule: parse_pairs.induct) (auto simp: local_try_from_eq try_from_id)

lemma set_sort_text [simp]: "set (sort_text xs) = set xs"
  by (force simp: sort_text_def o_def)

lemma impl_refs_wf:
  assumes "db_wf db" "valid_drv_id d"
  shows "\<exists>rs. impl_get_drv_refs db d = Inr rs \<and> set rs = {b. (d, b) \<in> set (ref_rows db)}"
    and "\<exists>ds. impl_get_drv_dependents db d = Inr ds \<and> set ds = {a. (a, d) \<in> set (ref_rows db)}"
proof -
  let ?r = "sort_text (map snd (filter (\<lambda>(a, _). a = d) (ref_rows db)))"
  have r: "set ?r = {b. (d, b) \<in> set (ref_rows db)}" by force
  then have "list_all valid_drv_id ?r" using assms(1) by (auto simp: list_all_iff db_wf_def)
  then have "impl_get_drv_refs db d = Inr ?r"
    by (simp add: impl_get_drv_refs_def local_try_from_eq try_from_id assms(2) q_get_drv_refs_def
        to_shared_ids_eq parse_ids_valid)
  with r show "\<exists>rs. impl_get_drv_refs db d = Inr rs \<and> set rs = {b. (d, b) \<in> set (ref_rows db)}" by blast
  let ?d = "sort_text (map fst (filter (\<lambda>(_, b). b = d) (ref_rows db)))"
  have r: "set ?d = {a. (a, d) \<in> set (ref_rows db)}" by force
  then have "list_all valid_drv_id ?d" using assms(1) by (auto simp: list_all_iff db_wf_def)
  then have "impl_get_drv_dependents db d = Inr ?d"
    by (simp add: impl_get_drv_dependents_def local_try_from_eq try_from_id assms(2) q_get_drv_dependents_def
        to_shared_ids_eq parse_ids_valid)
  with r show "\<exists>ds. impl_get_drv_dependents db d = Inr ds \<and> set ds = {a. (a, d) \<in> set (ref_rows db)}" by blast
qed

lemma insert_failure_rows_refs: "insert_failure_rows f rs db = Some db' \<Longrightarrow> ref_rows db' = ref_rows db"
  by (induction rs arbitrary: db) (auto split: if_splits)

lemma refs_cong: "ref_rows db = ref_rows db' \<Longrightarrow> impl_get_drv_refs db = impl_get_drv_refs db'"
  by (rule ext) (simp add: impl_get_drv_refs_def q_get_drv_refs_def split: sum.splits)

lemma ref_rows_ops:
  "ref_rows (fst (impl_update_drv_status db d st)) = ref_rows db"
  "ref_rows (fst (impl_insert_transitive_failures db d ds)) = ref_rows db"
  "ref_rows (fst (impl_clear_transitive_failures db d)) = ref_rows db"
  by (auto simp: impl_update_drv_status_def q_update_drv_status_def impl_insert_transitive_failures_def
      q_insert_transitive_failures_def impl_clear_transitive_failures_def q_clear_transitive_failures_def
      insert_failure_rows_refs split: sum.splits option.splits)

interpretation sqlite: graph_db DbService_db db_wf
proof (unfold_locales, goal_cases)
  case (1 d db drv)
  then show ?case
    by (auto simp: impl_get_drv_def local_try_from_eq try_from_id to_shared_drv_def q_get_drv_def
        find_Some_iff split: option.splits sum.splits)
next
  case (2 db b ds a)
  then show ?case
    using impl_refs_wf(2)[of db b] impl_refs_wf(1)[of db a] by (auto simp: db_wf_def)
next
  case (3 db a refs rs b)
  then show ?case
    using impl_refs_wf(1)[of db a] parse_pairs_valid[of "ref_rows db"]
    by (auto simp: impl_get_all_refs_def q_get_all_refs_def to_shared_pairs_eq db_wf_def)
qed (auto simp: db_wf_def ref_rows_ops intro: refs_cong)

lemma DbService_graph_service: "graph_lru L invar \<Longrightarrow> graph_service L invar DbService_db db_wf"
  by (intro graph_service.intro sqlite.graph_db_axioms)

interpretation list_service: graph_service list_lru list_lru_invar DbService_db db_wf
  by (rule DbService_graph_service[OF list_graph.graph_lru_axioms])

section \<open>Rows survive re-insertion\<close>

text \<open>What a row keeps: everything but metadata it did not have.\<close>

definition row_extends :: "LocalDrv \<Rightarrow> LocalDrv \<Rightarrow> bool" where
  "row_extends r r' =
     (ld_drv_path r' = ld_drv_path r \<and> ld_build_state r' = ld_build_state r \<and> ld_system r' = ld_system r \<and>
      ld_required_system_features r' = ld_required_system_features r \<and> ld_is_fod r' = ld_is_fod r \<and>
      ld_output_size r' = ld_output_size r \<and> ld_closure_size r' = ld_closure_size r \<and>
      (ld_pname r \<noteq> None \<longrightarrow> ld_pname r' \<noteq> None) \<and> (ld_version r \<noteq> None \<longrightarrow> ld_version r' \<noteq> None) \<and>
      (ld_license_json r \<noteq> None \<longrightarrow> ld_license_json r' \<noteq> None) \<and>
      (ld_maintainers_json r \<noteq> None \<longrightarrow> ld_maintainers_json r' \<noteq> None) \<and>
      (ld_meta_position r \<noteq> None \<longrightarrow> ld_meta_position r' \<noteq> None) \<and>
      (ld_broken r \<noteq> None \<longrightarrow> ld_broken r' \<noteq> None) \<and> (ld_insecure r \<noteq> None \<longrightarrow> ld_insecure r' \<noteq> None))"

lemma row_extends_refl [simp]: "row_extends r r"
  by (simp add: row_extends_def)

lemma row_extends_trans: "row_extends a b \<Longrightarrow> row_extends b c \<Longrightarrow> row_extends a c"
  by (auto simp: row_extends_def)

lemma row_extends_enrich [simp]: "row_extends r (enrich_row x r)"
  by (auto simp: row_extends_def enrich_row_def coalesce_def split: option.splits)

definition rows_extend :: "LocalDrv list \<Rightarrow> LocalDrv list \<Rightarrow> bool" where
  "rows_extend rows rows' = (\<exists>front new. rows' = front @ new \<and> list_all2 row_extends rows front)"

lemma rows_extend_refl [simp]: "rows_extend rows rows"
  by (auto simp: rows_extend_def list_all2_refl intro: exI[of _ rows])

lemma rows_extend_upsert: "rows_extend rows (upsert_row d rows)"
proof (cases "ld_drv_path d \<in> ld_drv_path ` set rows")
  case True
  have "list_all2 row_extends rows (map (\<lambda>r. if ld_drv_path r = ld_drv_path d then enrich_row d r else r) rows)"
    by (induction rows) auto
  then show ?thesis using True unfolding rows_extend_def upsert_row_def by (intro exI[of _ "[]"] exI) auto
next
  case False
  then show ?thesis unfolding rows_extend_def upsert_row_def by (auto simp: list_all2_refl)
qed

lemma rows_extend_trans:
  assumes "rows_extend a b" "rows_extend b c"
  shows "rows_extend a c"
proof -
  obtain f n where b: "b = f @ n" "list_all2 row_extends a f" using assms(1) by (auto simp: rows_extend_def)
  obtain f' n' where c: "c = f' @ n'" "list_all2 row_extends b f'" using assms(2) by (auto simp: rows_extend_def)
  obtain x y where x: "f' = x @ y" "list_all2 row_extends f x"
    using c(2) unfolding b(1) list_all2_append1 by blast
  have "list_all2 row_extends a x"
    by (rule list_all2_trans[of row_extends row_extends row_extends, OF _ b(2) x(2)]) (rule row_extends_trans)
  then show ?thesis unfolding rows_extend_def c(1) x(1) by (intro exI[of _ x] exI[of _ "y @ n'"]) simp
qed

lemma rows_extend_fold: "rows_extend rows (fold upsert_row ds rows)"
  by (induction ds arbitrary: rows) (auto intro: rows_extend_trans rows_extend_upsert)

lemma rows_extend_find:
  assumes "rows_extend rows rows'" "find (\<lambda>r. ld_drv_path r = d) rows = Some r"
  shows "\<exists>r'. find (\<lambda>r. ld_drv_path r = d) rows' = Some r' \<and> row_extends r r'"
proof -
  obtain f n where f: "rows' = f @ n" "list_all2 row_extends rows f" using assms(1) by (auto simp: rows_extend_def)
  from f(2) assms(2) show ?thesis unfolding f(1)
    by (induction rule: list_all2_induct) (auto simp: row_extends_def split: if_splits)
qed

lemma drv_rows_insert_ref_chunks: "drv_rows (fst (insert_ref_chunks cs db)) = drv_rows db"
  by (induction cs arbitrary: db) auto

lemma insert_drvs_rows:
  "rows_extend (drv_rows db) (drv_rows (fst (insert_drvs_and_references db drvs refs)))"
proof -
  have "rows_extend (drv_rows db) (drv_rows (fold (\<lambda>chunk db. db\<lparr>drv_rows := fold upsert_row chunk (drv_rows db)\<rparr>) cs db))"
    for cs and db :: Database
  proof (induction cs arbitrary: db)
    case (Cons c cs)
    show ?case
      using rows_extend_trans[OF rows_extend_fold[of "drv_rows db" c]]
        Cons.IH[of "db\<lparr>drv_rows := fold upsert_row c (drv_rows db)\<rparr>"] by simp
  qed simp
  then show ?thesis by (simp add: insert_drvs_and_references_def Let_def drv_rows_insert_ref_chunks)
qed

section \<open>Properties\<close>


definition demo_id_a :: DrvId where
  "demo_id_a = ''00000000000000000000000000000000-a.drv''"

definition demo_id_b :: DrvId where
  "demo_id_b = ''00000000000000000000000000000000-b.drv''"

definition demo_row :: "DrvId \<Rightarrow> LocalState \<Rightarrow> LocalDrv" where
  "demo_row d st =
     \<lparr> ld_drv_path = d, ld_system = ''x86_64-linux'', ld_prefer_local_build = False,
       ld_required_system_features = None, ld_is_fod = False, ld_build_state = st, ld_output_size = None,
       ld_closure_size = None, ld_pname = None, ld_version = None, ld_license_json = None,
       ld_maintainers_json = None, ld_meta_position = None, ld_broken = None, ld_insecure = None \<rparr>"

definition demo_tables :: Database where
  "demo_tables =
     \<lparr> drv_rows = [demo_row demo_id_a (LocalCompleted LocalSuccess), demo_row demo_id_b LocalQueued],
       ref_rows = [(demo_id_b, demo_id_a)], tf_rows = [], event_rows = [] \<rparr>"

lemma demo_ids_valid: "valid_drv_id demo_id_a" "valid_drv_id demo_id_b"
  by code_simp+




text \<open>Re-inserting drvs never loses what is stored: a drv that has a row keeps its
  build state, its build attributes and every piece of metadata it had; only
  missing metadata is filled in.\<close>

theorem reinsert_keeps_row:
  assumes "q_get_drv d db = Some r" "insert_drvs_and_references db drvs refs = (db', res)"
  shows "\<exists>r'. q_get_drv d db' = Some r' \<and> row_extends r r'"
  using rows_extend_find[OF insert_drvs_rows[of db drvs refs]] assms by (simp add: q_get_drv_def)

theorem reinsert_keeps_row_witness:
  "\<exists>r'. q_get_drv demo_id_a (fst (insert_drvs_and_references demo_tables [demo_row demo_id_a LocalQueued] [])) = Some r' \<and>
     ld_build_state r' = LocalCompleted LocalSuccess"
proof -
  have "q_get_drv demo_id_a demo_tables = Some (demo_row demo_id_a (LocalCompleted LocalSuccess))"
    by (simp add: q_get_drv_def demo_tables_def demo_row_def)
  from reinsert_keeps_row[OF this prod.collapse[symmetric]] show ?thesis
    by (auto simp: row_extends_def demo_row_def)
qed

text \<open>The recursive query for transitive referrers returns exactly the drvs that reach the
  given one through one or more stored references.\<close>

theorem transitive_referrers_exact:
  "set (get_all_transitive_referrers d db) = {a. (a, d) \<in> (set (ref_rows db))\<^sup>+} \<and>
   distinct (get_all_transitive_referrers d db)"
proof -
  have rel: "succ_rel (referrers_of db) = (set (ref_rows db))\<inverse>"
    by (force simp: succ_rel_def referrers_of_def)
  have fin: "finite (reach (referrers_of db) S)" if "finite S" for S
    by (rule finite_reach[of "snd ` set (ref_rows db)"])
      (use that in \<open>force simp: referrers_of_def filter_empty_conv\<close>)+
  have "set (referrers_of db d) = {a. (a, d) \<in> set (ref_rows db)}" by (force simp: referrers_of_def)
  then have "reach (referrers_of db) (set (referrers_of db d)) = {a. (a, d) \<in> (set (ref_rows db))\<^sup>+}"
    unfolding rel rtrancl_converse by (auto intro: rtrancl_into_trancl1 dest: tranclD2 elim: converse_tranclE rtrancl_trancl_trancl dest: tranclD2)
  then show ?thesis
    using bfs_correct[of "hs_collect (referrers_of db d)" "referrers_of db"] fin[of "set (referrers_of db d)"]
    by (simp add: get_all_transitive_referrers_def Let_def)
qed

text \<open>Clearing a failure leaves the database behind: every drv the service unblocks is
  \<open>Queued\<close> in the graph, but its stored state is the one it had before, so a
  drv stored as \<open>TransitiveFailure\<close> stays so although nothing blocks it.\<close>

theorem clear_failure_leaves_stored_state:
  assumes "graph_lru L invar" "service_ok L invar DbService_db db_wf s"
    and "op_clear_failure L DbService_db f s = (s', r)"
    and "u \<in> set (snd (graph_clear_failure L f (gs_graph s)))"
    and "impl_get_drv (gs_db s) u = Inr (Some drv)"
  shows "handle_get_build_state (gs_view s') u = Some Queued \<and>
    impl_get_drv (gs_db s') u = Inr (Some drv)"
proof -
  have gs: "graph_service L invar DbService_db db_wf" using assms(1) by (rule DbService_graph_service)
  note inv = graph_service.service_ok_dest[OF gs assms(2)]
  obtain g us where p: "graph_clear_failure L f (gs_graph s) = (g, us)" by fastforce
  have s': "gs_view s' = fold (\<lambda>b. set_view_state b Queued) us (gs_view s)"
    "gs_db s' = fst (impl_clear_transitive_failures (gs_db s) f)"
    using assms(3) p by (auto simp: op_clear_failure_def Let_def split: prod.splits sum.splits)
  have "drv_rows (gs_db s') = drv_rows (gs_db s)"
    by (auto simp: s' impl_clear_transitive_failures_def q_clear_transitive_failures_def split: sum.splits)
  then have "impl_get_drv (gs_db s') u = impl_get_drv (gs_db s) u"
    by (simp add: impl_get_drv_def q_get_drv_def split: sum.splits)
  moreover have "get_node L (gs_graph s) u \<noteq> None"
  proof -
    obtain bs where "map_of (transitive_failure_map (gs_graph s)) f = Some bs" "distinct bs"
      using assms(4) graph_service.service_ok_wf[OF gs assms(2)]
      by (cases "map_of (transitive_failure_map (gs_graph s)) f")
        (auto simp: graph_clear_failure_def graph_wf_def sets_wf_def dest: map_of_SomeD)
    then show ?thesis using graph_lru.snd_clear[OF assms(1) inv(1)] assms(4) by auto
  qed
  ultimately show ?thesis
    using assms(4,5) inv(3)[of u] p by (auto simp: s' handle_get_build_state_def map_of_fold_set_view_state)
qed

definition demo_failed_tables :: Database where
  "demo_failed_tables =
     \<lparr> drv_rows = [demo_row demo_id_a (LocalCompleted LocalFailure), demo_row demo_id_b LocalTransitiveFailure],
       ref_rows = [(demo_id_b, demo_id_a)], tf_rows = [(demo_id_a, demo_id_b)], event_rows = [] \<rparr>"

lemma demo_neq: "demo_id_a \<noteq> demo_id_b" "demo_id_b \<noteq> demo_id_a"
  by (simp_all add: demo_id_a_def demo_id_b_def)

lemma demo_failed_db:
  "db_wf demo_failed_tables"
  "impl_get_all_drvs demo_failed_tables = Inr [demo_drv demo_id_a (Completed Failure), demo_drv demo_id_b TransitiveFailure]"
  "impl_get_all_refs demo_failed_tables = Inr [(demo_id_b, demo_id_a)]"
  "impl_get_drv demo_failed_tables demo_id_b = Inr (Some (demo_drv demo_id_b TransitiveFailure))"
  by (simp_all add: demo_failed_tables_def db_wf_def demo_ids_valid impl_get_all_drvs_def q_get_all_drvs_def
    to_shared_drv_def demo_row_def try_from_id impl_get_all_refs_def q_get_all_refs_def local_try_from_eq demo_drv_def
    impl_get_drv_def q_get_drv_def demo_neq)


definition demo_g0 :: "(DrvId, GraphNode) list_lru BuildGraph" where
  "demo_g0 = add_edge list_lru demo_id_b demo_id_a
     (fold (load_drv list_lru 0) [demo_drv demo_id_a (Completed Failure), demo_drv demo_id_b TransitiveFailure]
       (the (graph_new list_lru 4)))"

lemma demo_g0_nodes:
  "nodes demo_g0 = (4, [(demo_id_b, demo_node demo_id_b TransitiveFailure [demo_id_a] []),
     (demo_id_a, demo_node demo_id_a (Completed Failure) [] [demo_id_b])])"
  "failed_drvs demo_g0 = [(demo_id_a, 0)]"
  by (simp_all add: demo_g0_def load_drv_def insert_node_def graph_new_def add_edge_def Let_def list_lru_push_def
      lru_modify_def add_dependency_def add_dependent_def demo_node_def demo_drv_def from_drv_def demo_neq)

lemma demo_g0_dependents: "get_all_transitive_dependents list_lru demo_g0 demo_id_a = [demo_id_b]"
  by (simp add: get_all_transitive_dependents_def bfs_def while_unfold bfs_pending_def
      get_dependents_def demo_g0_nodes demo_node_def hs_remove_def demo_neq)

lemma demo_failed_start:
  "\<exists>s. service_new list_lru DbService_db 0 demo_failed_tables 4 = Some (Inr s) \<and>
     gs_graph s = fst (graph_propagate_failure list_lru demo_id_a demo_g0) \<and> gs_db s = demo_failed_tables"
proof -
  have "from_database list_lru 0 DbService_db demo_failed_tables 4 =
     Some (Inr (fst (graph_propagate_failure list_lru demo_id_a demo_g0)))"
    using demo_g0_nodes(2) by (simp add: from_database_def demo_failed_db Let_def demo_g0_def graph_new_def)
  then show ?thesis by (simp add: service_new_def Let_def)
qed

lemma demo_g0_unblocked:
 "set (snd (graph_clear_failure list_lru demo_id_a (fst (graph_propagate_failure list_lru demo_id_a demo_g0)))) = {demo_id_b}"
proof -
  have i: "list_lru_invar (nodes demo_g0)" by (simp add: list_lru_invar_def demo_g0_nodes demo_neq)
  have b: "snd (graph_propagate_failure list_lru demo_id_a demo_g0) = [demo_id_b]"
    by (simp add: graph_propagate_failure_def Let_def demo_g0_dependents)
  have t: "map_of (transitive_failure_map (fst (graph_propagate_failure list_lru demo_id_a demo_g0))) demo_id_a = Some [demo_id_b]"
    by (simp add: graph_propagate_failure_def Let_def demo_g0_dependents update_conv' hs_collect_def hs_insert_def)
  have n: "get_node list_lru (fst (graph_propagate_failure list_lru demo_id_a demo_g0)) demo_id_b =
      Some (mark_blocked demo_id_a (demo_node demo_id_b TransitiveFailure [demo_id_a] []))"
    using list_graph.get_node_propagate[OF i, of demo_id_a demo_id_b] demo_g0_dependents
    by (simp add: get_node_def demo_g0_nodes)
  show ?thesis
    using list_graph.snd_clear[OF list_graph.propagate_invar[OF i] t] n by simp
qed

theorem clear_failure_leaves_stored_state_witness:
  "\<exists>s. service_new list_lru DbService_db 0 demo_failed_tables 4 = Some (Inr s) \<and>
     (let s' = fst (op_clear_failure list_lru DbService_db demo_id_a s) in
      handle_get_build_state (gs_view s') demo_id_b = Some Queued \<and>
      impl_get_drv (gs_db s') demo_id_b = Inr (Some (demo_drv demo_id_b TransitiveFailure)))"
proof -
  obtain s where s: "service_new list_lru DbService_db 0 demo_failed_tables 4 = Some (Inr s)"
    "gs_graph s = fst (graph_propagate_failure list_lru demo_id_a demo_g0)" "gs_db s = demo_failed_tables"
    using demo_failed_start by blast
  have "service_ok list_lru list_lru_invar DbService_db db_wf s"
    using list_service.service_new_ok[OF s(1) demo_failed_db(1)] by blast
  from clear_failure_leaves_stored_state[OF list_graph.graph_lru_axioms this prod.collapse[symmetric], of demo_id_b demo_id_a]
  show ?thesis using s demo_g0_unblocked demo_failed_db(4) by (auto simp: Let_def)
qed

end
