(* ===== verification/Channel.thy ===== *)
theory Channel
  imports Prelude
begin

text \<open>
  Bounded queues between tasks, as \<open>tokio::sync::mpsc::channel\<close> gives them: the
  items sent and not yet received, and the capacity.  \<open>try_send\<close> and
  \<open>try_reserve\<close> followed by \<open>send\<close> succeed exactly when there is room; the
  receiver takes the oldest item.
\<close>

record 'a channel =
  ch_capacity :: nat
  ch_items :: "'a list"

definition ch_new :: "nat \<Rightarrow> 'a channel" where
  "ch_new capacity = \<lparr> ch_capacity = capacity, ch_items = [] \<rparr>"

definition ch_has_room :: "'a channel \<Rightarrow> bool" where
  "ch_has_room ch = (length (ch_items ch) < ch_capacity ch)"

definition ch_try_send :: "'a \<Rightarrow> 'a channel \<Rightarrow> 'a channel option" where
  "ch_try_send x ch = (if ch_has_room ch then Some (ch\<lparr>ch_items := ch_items ch @ [x]\<rparr>) else None)"

definition ch_try_recv :: "'a channel \<Rightarrow> ('a \<times> 'a channel) option" where
  "ch_try_recv ch = (case ch_items ch of [] \<Rightarrow> None | x # xs \<Rightarrow> Some (x, ch\<lparr>ch_items := xs\<rparr>))"

text \<open>\<open>send().await\<close>, which waits for room, and a \<open>try_send\<close> whose failure is only logged.\<close>

definition ch_send :: "'a \<Rightarrow> 'a channel \<Rightarrow> 'a channel" where
  "ch_send x ch = ch\<lparr>ch_items := ch_items ch @ [x]\<rparr>"

definition ch_offer :: "'a \<Rightarrow> 'a channel \<Rightarrow> 'a channel" where
  "ch_offer x ch = (case ch_try_send x ch of None \<Rightarrow> ch | Some ch' \<Rightarrow> ch')"

text \<open>Sending as many items as there is room for, oldest first: what is left, and the channel.\<close>

fun ch_send_some :: "'a list \<Rightarrow> 'a channel \<Rightarrow> 'a list \<times> 'a channel" where
  "ch_send_some [] ch = ([], ch)"
| "ch_send_some (x # xs) ch =
     (case ch_try_send x ch of None \<Rightarrow> (x # xs, ch) | Some ch' \<Rightarrow> ch_send_some xs ch')"

lemma ch_try_send_Some:
  "ch_try_send x ch = Some ch' \<longleftrightarrow> ch_has_room ch \<and> ch' = ch\<lparr>ch_items := ch_items ch @ [x]\<rparr>"
  by (auto simp: ch_try_send_def)

lemma ch_try_recv_Some:
  "ch_try_recv ch = Some (x, ch') \<longleftrightarrow> (\<exists>xs. ch_items ch = x # xs \<and> ch' = ch\<lparr>ch_items := xs\<rparr>)"
  by (auto simp: ch_try_recv_def split: list.splits)

lemma ch_capacity_offer [simp]: "ch_capacity (ch_offer x ch) = ch_capacity ch"
  by (simp add: ch_offer_def ch_try_send_def)

lemma ch_items_offer: "ch_items (ch_offer x ch) = ch_items ch @ (if ch_has_room ch then [x] else [])"
  by (simp add: ch_offer_def ch_try_send_def)

lemma ch_offer_full: "\<not> ch_has_room ch \<Longrightarrow> ch_offer x ch = ch"
  by (simp add: ch_offer_def ch_try_send_def)

lemma ch_offers_all:
  "length (ch_items ch) + length xs \<le> ch_capacity ch \<Longrightarrow> ch_items (fold ch_offer xs ch) = ch_items ch @ xs"
  by (induction xs arbitrary: ch) (auto simp: ch_items_offer ch_has_room_def)

lemma ch_send_some_take:
  "ch_send_some xs ch =
     (drop (ch_capacity ch - length (ch_items ch)) xs,
      ch\<lparr>ch_items := ch_items ch @ take (ch_capacity ch - length (ch_items ch)) xs\<rparr>)"
proof (induction xs arbitrary: ch)
  case Nil
  then show ?case by simp
next
  case (Cons x xs)
  show ?case
  proof (cases "ch_has_room ch")
    case True
    then have "ch_capacity ch - length (ch_items ch) = Suc (ch_capacity ch - Suc (length (ch_items ch)))"
      by (simp add: ch_has_room_def)
    then show ?thesis using True Cons.IH[of "ch\<lparr>ch_items := ch_items ch @ [x]\<rparr>"]
      by (simp add: ch_try_send_def)
  qed (simp add: ch_try_send_def ch_has_room_def)
qed

lemma ch_send_some_conserves:
  "ch_send_some xs ch = (rest, ch') \<Longrightarrow> ch_items ch' @ rest = ch_items ch @ xs \<and> ch_capacity ch' = ch_capacity ch"
  by (auto simp: ch_send_some_take)

lemma ch_send_some_full:
  "ch_send_some xs ch = (rest, ch') \<Longrightarrow> rest \<noteq> [] \<Longrightarrow> \<not> ch_has_room ch'"
  by (auto simp: ch_send_some_take ch_has_room_def)

end
