(* ===== verification/Circuit_Breaker.thy ===== *)
theory Circuit_Breaker
  imports Prelude
begin

text \<open>
  The circuit breaker that takes failing remote builders out of service
  (\<open>server/src/scheduler/build/circuit_breaker.rs\<close>).  The registry is shared
  between builder threads behind a mutex; each locked section is one atomic
  step.  \<open>try_recover\<close> has two of them, around a probe that runs without the
  lock, so it is split at that point, and the step relation \<open>cb_step\<close> lets other
  threads run in between.
\<close>

section \<open>One breaker\<close>

datatype BreakerState = Closed | Open instant | HalfOpen

record BuilderBreaker =
  bb_state :: BreakerState
  bb_recent_failures :: "instant list"
  bb_backoff :: duration

definition FAILURE_THRESHOLD :: nat where
  "FAILURE_THRESHOLD = 3"

definition FAILURE_WINDOW :: duration where
  "FAILURE_WINDOW = from_secs 120"

definition INITIAL_BACKOFF :: duration where
  "INITIAL_BACKOFF = from_secs 30"

definition MAX_BACKOFF :: duration where
  "MAX_BACKOFF = from_secs 600"

definition breaker_new :: BuilderBreaker where
  "breaker_new = \<lparr> bb_state = Closed, bb_recent_failures = [], bb_backoff = INITIAL_BACKOFF \<rparr>"

definition record_failure :: "instant \<Rightarrow> BuilderBreaker \<Rightarrow> BuilderBreaker \<times> bool" where
  "record_failure now b =
     (let recent = filter (\<lambda>t. duration_since now t < FAILURE_WINDOW) (bb_recent_failures b) @ [now];
          b1 = b\<lparr>bb_recent_failures := recent\<rparr>
      in if FAILURE_THRESHOLD \<le> length recent \<and> bb_state b1 = Closed
         then (b1\<lparr>bb_state := Open (now + int (bb_backoff b1))\<rparr>, True)
         else if bb_state b1 = HalfOpen
         then let backoff = min (bb_backoff b1 * 2) MAX_BACKOFF
              in (b1\<lparr>bb_backoff := backoff, bb_state := Open (now + int backoff)\<rparr>, True)
         else (b1, False))"

definition record_success :: "BuilderBreaker \<Rightarrow> BuilderBreaker" where
  "record_success b = b\<lparr>bb_state := Closed, bb_recent_failures := [], bb_backoff := INITIAL_BACKOFF\<rparr>"

definition breaker_is_available :: "instant \<Rightarrow> BuilderBreaker \<Rightarrow> bool" where
  "breaker_is_available now b =
     (case bb_state b of Closed \<Rightarrow> True | HalfOpen \<Rightarrow> False | Open recover_at \<Rightarrow> recover_at \<le> now)"

definition try_half_open :: "instant \<Rightarrow> BuilderBreaker \<Rightarrow> BuilderBreaker \<times> bool" where
  "try_half_open now b =
     (case bb_state b of
        Open recover_at \<Rightarrow> if recover_at \<le> now then (b\<lparr>bb_state := HalfOpen\<rparr>, True) else (b, False)
      | _ \<Rightarrow> (b, False))"

section \<open>The registry\<close>

type_synonym CircuitBreakerRegistry = "string \<rightharpoonup> BuilderBreaker"

definition registry_register :: "string \<Rightarrow> CircuitBreakerRegistry \<Rightarrow> CircuitBreakerRegistry" where
  "registry_register name r = (case r name of Some _ \<Rightarrow> r | None \<Rightarrow> r(name \<mapsto> breaker_new))"

definition registry_record_failure :: "instant \<Rightarrow> string \<Rightarrow> CircuitBreakerRegistry \<Rightarrow> CircuitBreakerRegistry \<times> bool" where
  "registry_record_failure now name r =
     (case r name of
        None \<Rightarrow> (r, False)
      | Some b \<Rightarrow> (case record_failure now b of (b', tripped) \<Rightarrow> (r(name \<mapsto> b'), tripped)))"

definition registry_record_success :: "string \<Rightarrow> CircuitBreakerRegistry \<Rightarrow> CircuitBreakerRegistry" where
  "registry_record_success name r =
     (case r name of None \<Rightarrow> r | Some b \<Rightarrow> r(name \<mapsto> record_success b))"

definition registry_is_available :: "instant \<Rightarrow> string \<Rightarrow> CircuitBreakerRegistry \<Rightarrow> bool" where
  "registry_is_available now name r =
     (case r name of None \<Rightarrow> True | Some b \<Rightarrow> breaker_is_available now b)"

text \<open>The two locked sections of \<open>try_recover\<close>: the first either answers at once or asks for a
  probe, the second takes the probe's result.\<close>

datatype recover_answer = Answer bool | Probe

definition try_recover_begin :: "instant \<Rightarrow> string \<Rightarrow> CircuitBreakerRegistry \<Rightarrow> CircuitBreakerRegistry \<times> recover_answer" where
  "try_recover_begin now name r =
     (case r name of
        None \<Rightarrow> (r, Answer True)
      | Some b \<Rightarrow>
          if bb_state b = Closed then (r, Answer True)
          else (case try_half_open now b of
                  (b', False) \<Rightarrow> (r(name \<mapsto> b'), Answer False)
                | (b', True) \<Rightarrow> (r(name \<mapsto> b'), Probe)))"

definition try_recover_end :: "instant \<Rightarrow> string \<Rightarrow> bool \<Rightarrow> CircuitBreakerRegistry \<Rightarrow> CircuitBreakerRegistry \<times> bool" where
  "try_recover_end now name probe_ok r =
     (case r name of
        None \<Rightarrow> (r, probe_ok)
      | Some b \<Rightarrow>
          if probe_ok then (r(name \<mapsto> record_success b), True)
          else (r(name \<mapsto> fst (record_failure now b)), False))"

text \<open>\<open>try_recover\<close> when nothing runs in between: \<open>probe\<close> is the outcome of the ping.\<close>

definition try_recover :: "instant \<Rightarrow> instant \<Rightarrow> string \<Rightarrow> bool \<Rightarrow> CircuitBreakerRegistry \<Rightarrow> CircuitBreakerRegistry \<times> bool" where
  "try_recover now later name probe r =
     (case try_recover_begin now name r of
        (r', Answer a) \<Rightarrow> (r', a)
      | (r', Probe) \<Rightarrow> try_recover_end later name probe r')"

definition connection_patterns :: "string list" where
  "connection_patterns =
     [''connection refused'', ''connection timed out'', ''connection reset'', ''no route to host'',
      ''host is unreachable'', ''name or service not known'', ''ssh_exchange_identification'',
      ''permission denied (publickey'', ''broken pipe'', ''failed to connect to'', ''cannot connect to'']"

definition is_connection_failure :: "int option \<Rightarrow> string \<Rightarrow> bool" where
  "is_connection_failure exit_code stderr =
     (if exit_code = Some 255 then True
      else list_ex (\<lambda>p. sublist p (map ascii_lower stderr)) connection_patterns)"

section \<open>Threads sharing the registry\<close>

text \<open>The state is the registry and the names for which a probe is under way.\<close>

inductive cb_step :: "CircuitBreakerRegistry \<times> string list \<Rightarrow> CircuitBreakerRegistry \<times> string list \<Rightarrow> bool" where
  register: "cb_step (r, ps) (registry_register name r, ps)"
| failure: "cb_step (r, ps) (fst (registry_record_failure now name r), ps)"
| success: "cb_step (r, ps) (registry_record_success name r, ps)"
| begin_answer: "try_recover_begin now name r = (r', Answer a) \<Longrightarrow> cb_step (r, ps) (r', ps)"
| begin_probe: "try_recover_begin now name r = (r', Probe) \<Longrightarrow> cb_step (r, ps) (r', name # ps)"
| end_probe: "name \<in> set ps \<Longrightarrow> cb_step (r, ps) (fst (try_recover_end now name ok r), remove1 name ps)"

inductive cb_reachable :: "CircuitBreakerRegistry \<times> string list \<Rightarrow> bool" where
  start: "cb_reachable (Map.empty, [])"
| step: "cb_reachable s \<Longrightarrow> cb_step s s' \<Longrightarrow> cb_reachable s'"

definition breaker_ok :: "BuilderBreaker \<Rightarrow> bool" where
  "breaker_ok b = (INITIAL_BACKOFF \<le> bb_backoff b \<and> bb_backoff b \<le> MAX_BACKOFF \<and>
     (bb_state b = Closed \<longrightarrow> length (bb_recent_failures b) < FAILURE_THRESHOLD))"

lemmas cb_consts = FAILURE_THRESHOLD_def FAILURE_WINDOW_def INITIAL_BACKOFF_def MAX_BACKOFF_def
  from_secs_def nanos_per_sec_def

lemma breaker_ok_new: "breaker_ok breaker_new"
  by (simp add: breaker_ok_def breaker_new_def cb_consts)

lemma breaker_ok_failure: "breaker_ok b \<Longrightarrow> breaker_ok (fst (record_failure now b))"
  by (auto simp: breaker_ok_def record_failure_def Let_def cb_consts)

lemma breaker_ok_success: "breaker_ok (record_success b)"
  by (simp add: breaker_ok_def record_success_def cb_consts)

lemma breaker_ok_half_open: "breaker_ok b \<Longrightarrow> breaker_ok (fst (try_half_open now b))"
  by (auto simp: breaker_ok_def try_half_open_def split: BreakerState.splits)

lemma failure_not_half_open: "bb_state (fst (record_failure now b)) \<noteq> HalfOpen"
  by (auto simp: record_failure_def Let_def)

lemma half_open_iff: "bb_state (fst (record_failure now b)) = Closed \<Longrightarrow> bb_state b = Closed"
  by (auto simp: record_failure_def Let_def split: if_splits)

definition registry_ok :: "CircuitBreakerRegistry \<times> string list \<Rightarrow> bool" where
  "registry_ok s = (case s of (r, ps) \<Rightarrow>
     (\<forall>name b. r name = Some b \<longrightarrow> breaker_ok b \<and> (bb_state b = HalfOpen \<longrightarrow> name \<in> set ps)))"

lemma registry_ok_step:
  assumes "cb_step s s'" "registry_ok s"
  shows "registry_ok s'"
  using assms
proof (induction rule: cb_step.induct)
  case (register r ps name)
  then show ?case
    by (auto simp: registry_ok_def registry_register_def breaker_ok_new split: option.splits)
      (simp add: breaker_new_def)
next
  case (failure r ps now name)
  show ?case
  proof (cases "r name")
    case None
    then show ?thesis using failure by (simp add: registry_record_failure_def)
  next
    case (Some b)
    then show ?thesis
      using failure failure_not_half_open[of now b] breaker_ok_failure[of b now]
      by (auto simp: registry_ok_def registry_record_failure_def case_prod_beta)
  qed
next
  case (success r ps name)
  then show ?case
    by (auto simp: registry_ok_def registry_record_success_def breaker_ok_success split: option.splits)
      (simp add: record_success_def)
next
  case (begin_answer now name r r' a ps)
  then show ?case
    by (auto simp: registry_ok_def try_recover_begin_def try_half_open_def
        split: option.splits if_splits prod.splits bool.splits BreakerState.splits)
next
  case (begin_probe now name r r' ps)
  then obtain b where b: "r name = Some b" "r' = r(name \<mapsto> fst (try_half_open now b))"
    by (auto simp: try_recover_begin_def split: option.splits if_splits prod.splits bool.splits)
  then show ?case using begin_probe breaker_ok_half_open by (auto simp: registry_ok_def)
next
  case (end_probe name ps r now ok)
  have rem: "m \<noteq> name \<Longrightarrow> m \<in> set ps \<Longrightarrow> m \<in> set (remove1 name ps)" for m by simp
  show ?case
  proof (cases "r name")
    case None
    then have "r m = Some b \<Longrightarrow> m \<noteq> name" for m b by auto
    with None show ?thesis using end_probe rem by (auto simp: registry_ok_def try_recover_end_def)
  next
    case (Some b)
    then show ?thesis
      using end_probe rem failure_not_half_open[of now b] breaker_ok_failure[of b now] breaker_ok_success[of b]
      by (auto simp: registry_ok_def try_recover_end_def record_success_def)
  qed
qed

lemma reachable_registry_ok: "cb_reachable s \<Longrightarrow> registry_ok s"
proof (induction rule: cb_reachable.induct)
  case start
  then show ?case by (simp add: registry_ok_def)
next
  case (step s s')
  then show ?case by (blast intro: registry_ok_step)
qed

section \<open>Properties\<close>

text \<open>C33: However threads interleave, every builder's backoff stays between 30 and 600 seconds,
  a builder in service has fewer than three recent failures, and a builder in the
  half-open state always has a probe under way, whose end takes it out of that
  state: back to service if the probe succeeded, out of service until the end of
  its backoff otherwise.\<close>

theorem breaker_never_stuck:
  assumes "cb_reachable (r, ps)" "r name = Some b"
  shows "from_secs 30 \<le> bb_backoff b \<and> bb_backoff b \<le> from_secs 600 \<and>
    (bb_state b = Closed \<longrightarrow> length (bb_recent_failures b) < 3) \<and>
    (bb_state b = HalfOpen \<longrightarrow> name \<in> set ps \<and>
      (\<exists>b'. fst (try_recover_end now name ok r) name = Some b' \<and>
        bb_state b' = (if ok then Closed else Open (now + int (min (bb_backoff b * 2) (from_secs 600))))))"
proof -
  have "breaker_ok b" "bb_state b = HalfOpen \<longrightarrow> name \<in> set ps"
    using reachable_registry_ok[OF assms(1)] assms(2) by (auto simp: registry_ok_def)
  then show ?thesis
    using assms(2)
    by (auto simp: breaker_ok_def cb_consts try_recover_end_def record_success_def record_failure_def Let_def)
qed

definition demo_half_open :: "CircuitBreakerRegistry \<times> string list" where
  "demo_half_open =
     ([''b'' \<mapsto> \<lparr> bb_state = HalfOpen, bb_recent_failures = [1, 2, 3], bb_backoff = from_secs 30 \<rparr>], [''b''])"

lemma demo_half_open_reachable: "cb_reachable demo_half_open"
proof -
  let ?o = "\<lparr> bb_state = Open 30000000003, bb_recent_failures = [1, 2, 3], bb_backoff = from_secs 30 \<rparr>"
  have "registry_register ''b'' Map.empty = [''b'' \<mapsto> breaker_new]"
    by (simp add: registry_register_def)
  then have 1: "cb_reachable ([''b'' \<mapsto> breaker_new], [])"
    using cb_reachable.step[OF cb_reachable.start cb_step.register[of _ _ "''b''"]] by metis
  have "fst (registry_record_failure 3 ''b'' (fst (registry_record_failure 2 ''b''
      (fst (registry_record_failure 1 ''b'' [''b'' \<mapsto> breaker_new]))))) = [''b'' \<mapsto> ?o]"
    by (simp add: registry_record_failure_def record_failure_def breaker_new_def cb_consts duration_since_def)
  then have 2: "cb_reachable ([''b'' \<mapsto> ?o], [])"
    using 1 cb_reachable.step cb_step.failure by metis
  have "try_recover_begin 40000000000 ''b'' [''b'' \<mapsto> ?o] = (fst demo_half_open, Probe)"
    by (simp add: try_recover_begin_def try_half_open_def demo_half_open_def)
  then show ?thesis using cb_reachable.step[OF 2 cb_step.begin_probe] by (simp add: demo_half_open_def)
qed

theorem breaker_never_stuck_witness:
  "\<exists>b. fst demo_half_open ''b'' = Some b \<and> bb_state b = HalfOpen \<and> ''b'' \<in> set (snd demo_half_open)"
  using breaker_never_stuck[of "fst demo_half_open" "snd demo_half_open" "''b''"] demo_half_open_reachable
  by (simp add: demo_half_open_def)

text \<open>A failure takes a builder in service out exactly when it is the third within two
  minutes, for the length of its backoff; until then the builder stays available.\<close>

theorem breaker_trips_at_threshold:
  assumes "bb_state b = Closed" "record_failure now b = (b', tripped)"
  shows "(tripped \<longleftrightarrow> 2 \<le> length (filter (\<lambda>t. now - t < 120 * 1000000000) (bb_recent_failures b))) \<and>
    (if tripped then bb_state b' = Open (now + int (bb_backoff b)) else bb_state b' = Closed) \<and>
    (\<forall>t. breaker_is_available t b' \<longleftrightarrow> \<not> tripped \<or> now + int (bb_backoff b) \<le> t)"
proof -
  have w: "(\<lambda>t. duration_since now t < FAILURE_WINDOW) = (\<lambda>t. now - t < 120 * 1000000000)"
    by (auto simp: fun_eq_iff duration_since_def cb_consts)
  show ?thesis
    using assms by (auto simp: record_failure_def Let_def w FAILURE_THRESHOLD_def breaker_is_available_def split: if_splits)
qed

theorem breaker_trips_at_threshold_witness:
  "snd (record_failure 50 (breaker_new\<lparr>bb_recent_failures := [10, 20]\<rparr>))"
  using breaker_trips_at_threshold[of "breaker_new\<lparr>bb_recent_failures := [10, 20]\<rparr>" 50
      "fst (record_failure 50 (breaker_new\<lparr>bb_recent_failures := [10, 20]\<rparr>))"
      "snd (record_failure 50 (breaker_new\<lparr>bb_recent_failures := [10, 20]\<rparr>))"]
  by (simp add: breaker_new_def)

text \<open>The breaker after \<open>n\<close> failed recovery attempts, each made once its cooldown has elapsed.\<close>

fun failed_probes :: "string \<Rightarrow> (instant \<times> instant) list \<Rightarrow> CircuitBreakerRegistry \<Rightarrow> CircuitBreakerRegistry" where
  "failed_probes name [] r = r"
| "failed_probes name ((now, later) # ts) r = failed_probes name ts (fst (try_recover now later name False r))"

fun probes_due :: "string \<Rightarrow> (instant \<times> instant) list \<Rightarrow> CircuitBreakerRegistry \<Rightarrow> bool" where
  "probes_due name [] r = True"
| "probes_due name ((now, later) # ts) r =
     ((case r name of Some b \<Rightarrow> (case bb_state b of Open at \<Rightarrow> at \<le> now | _ \<Rightarrow> False) | None \<Rightarrow> False) \<and>
      probes_due name ts (fst (try_recover now later name False r)))"

lemma failed_probe:
  assumes "r name = Some b" "bb_state b = Open at" "at \<le> now"
  shows "\<exists>b'. fst (try_recover now later name False r) name = Some b' \<and>
    bb_backoff b' = min (bb_backoff b * 2) MAX_BACKOFF"
  using assms by (auto simp: try_recover_def try_recover_begin_def try_half_open_def try_recover_end_def record_failure_def Let_def)

lemma min_double_cap: "min (min (x * 2) m * 2 ^ k) m = min (x * (2 * 2 ^ k)) (m :: nat)"
proof (cases "x * 2 \<le> m")
  case False
  have a: "m \<le> m * 2 ^ k" and "x * 2 \<le> x * 2 * 2 ^ k" by simp_all
  then have b: "m \<le> x * (2 * 2 ^ k)" using False by (simp only: mult.assoc)
  have "min (x * 2) m = m" using False by simp
  then show ?thesis using a b by (simp only: min.absorb2)
qed (simp add: mult.assoc)

text \<open>The backoff doubles with every failed recovery probe and is capped: after \<open>n\<close> of them it is
  the smaller of \<open>2^n\<close> times the initial one and 600 seconds.\<close>

theorem backoff_doubles:
  assumes "r name = Some b" "bb_backoff b \<le> from_secs 600" "probes_due name ts r"
  shows "\<exists>b'. failed_probes name ts r name = Some b' \<and>
    bb_backoff b' = min (bb_backoff b * 2 ^ length ts) (from_secs 600)"
  using assms
proof (induction ts arbitrary: r b)
  case Nil
  then show ?case by simp
next
  case (Cons t ts)
  obtain now later where t: "t = (now, later)" by fastforce
  obtain at where "bb_state b = Open at" "at \<le> now"
    using Cons.prems by (auto simp: t split: BreakerState.splits)
  from failed_probe[of r name, OF Cons.prems(1) this, of later] obtain b1 where
    b1: "fst (try_recover now later name False r) name = Some b1"
      "bb_backoff b1 = min (bb_backoff b * 2) (from_secs 600)" by (auto simp: MAX_BACKOFF_def)
  from Cons.IH[of "fst (try_recover now later name False r)" b1, OF b1(1)] obtain b' where
    "failed_probes name ts (fst (try_recover now later name False r)) name = Some b'"
    "bb_backoff b' = min (bb_backoff b1 * 2 ^ length ts) (from_secs 600)"
    using Cons.prems(3) b1(2) by (auto simp: t)
  then show ?case using b1(2) min_double_cap[of "bb_backoff b" "from_secs 600" "length ts"] by (simp add: t)
qed

theorem backoff_doubles_witness:
  "\<exists>b'. failed_probes ''b'' [(40, 41), (10 ^ 12, 10 ^ 12)]
      [''b'' \<mapsto> \<lparr> bb_state = Open 40, bb_recent_failures = [], bb_backoff = from_secs 30 \<rparr>] ''b'' = Some b' \<and>
     bb_backoff b' = from_secs 120"
proof -
  let ?r = "[''b'' \<mapsto> \<lparr> bb_state = Open 40, bb_recent_failures = [], bb_backoff = from_secs 30 \<rparr>]"
  have "probes_due ''b'' [(40, 41), (10 ^ 12, 10 ^ 12)] ?r"
    by (simp add: try_recover_def try_recover_begin_def try_half_open_def try_recover_end_def record_failure_def
        Let_def cb_consts)
  from backoff_doubles[of ?r "''b''", OF _ _ this] show ?thesis by (simp add: cb_consts)
qed

text \<open>A breaker that has tripped is not armed again by failing builds.  Once it is open, any number of
  further failures leaves it open with the same recovery time and backoff, so from that
  time on the builder counts as available however often it fails; and as long as it does
  not count as available, a recovery attempt at that moment is refused without a probe.
  The caller in \<open>loop_builds\<close> attempts recovery only for a builder that is not available.\<close>

theorem open_breaker_never_rearms:
  assumes "r name = Some b" "bb_state b = Open at"
  shows "let r' = fold (\<lambda>t r. fst (registry_record_failure t name r)) failures r
    in (\<exists>b'. r' name = Some b' \<and> bb_state b' = Open at \<and> bb_backoff b' = bb_backoff b) \<and>
       (\<forall>t. registry_is_available t name r' \<longleftrightarrow> at \<le> t) \<and>
       (\<forall>t. \<not> registry_is_available t name r' \<longrightarrow> try_recover_begin t name r' = (r', Answer False))"
proof -
  have inv: "\<exists>b'. fold (\<lambda>t r. fst (registry_record_failure t name r)) failures r name = Some b' \<and>
      bb_state b' = Open at \<and> bb_backoff b' = bb_backoff b"
    using assms
  proof (induction failures arbitrary: r b)
    case (Cons t ts)
    let ?b = "fst (record_failure t b)"
    have "fst (registry_record_failure t name r) = r(name \<mapsto> ?b)"
      using Cons.prems(1) by (simp add: registry_record_failure_def case_prod_beta)
    moreover have "bb_state ?b = Open at" "bb_backoff ?b = bb_backoff b"
      using Cons.prems(2) by (simp_all add: record_failure_def Let_def)
    ultimately show ?case using Cons.IH[of "r(name \<mapsto> ?b)" ?b] by (simp del: fun_upd_apply add: fun_upd_same)
  qed simp
  then show ?thesis
    by (auto simp: Let_def registry_is_available_def breaker_is_available_def try_recover_begin_def
        try_half_open_def map_upd_triv)
qed

theorem open_breaker_never_rearms_witness:
  "registry_is_available 50 ''b'' (fold (\<lambda>t r. fst (registry_record_failure t ''b'' r)) [41, 42, 43, 44]
      [''b'' \<mapsto> \<lparr> bb_state = Open 40, bb_recent_failures = [1, 2, 3], bb_backoff = from_secs 30 \<rparr>])"
  using open_breaker_never_rearms[of "[''b'' \<mapsto> \<lparr> bb_state = Open 40, bb_recent_failures = [1, 2, 3],
      bb_backoff = from_secs 30 \<rparr>]" "''b''" _ 40 "[41, 42, 43, 44]"]
  by (simp add: Let_def del: fold.simps fold_Cons)

end
