(* ===== verification/Build_Queue.thy ===== *)
theory Build_Queue
  imports Database Channel Circuit_Breaker
begin

text \<open>
  The build queue: from a buildable drv to the pool that builds it
  (\<open>server/src/scheduler/build.rs\<close>, \<open>build/queue.rs\<close> and the routing half of
  \<open>build/system_queue.rs\<close>).  A request is a drv; \<open>poll_for_builds\<close> sorts requests
  by platform into unbounded accumulators and moves them, as far as there is
  room, into the bounded channel of their platform, where
  \<open>PlatformQueue::loop_all_builds\<close> rejects what no builder can build and routes
  the rest.  Every task is a step of an interleaving; metrics and logging are
  left out.
\<close>

section \<open>Builders and system features\<close>

type_synonym Platform = string

type_synonym BuildRequest = LocalDrv

record Builder =
  bd_is_local :: bool
  bd_max_jobs :: nat
  bd_remote_uri :: "string option"
  bd_builder_name :: string
  bd_platform :: Platform
  bd_supported_features :: "string list"
  bd_mandatory_features :: "string list"

definition required_features :: "string option \<Rightarrow> string list" where
  "required_features features =
     (case features of None \<Rightarrow> [] | Some s \<Rightarrow> map trim (split_on (CHR '','') s))"

definition can_build :: "(string list \<times> string list) list \<Rightarrow> string option \<Rightarrow> bool" where
  "can_build builders features =
     (let required = required_features features
      in if required = [] then True
         else list_ex (\<lambda>(supported, mandatory).
           if mandatory \<noteq> [] \<and> \<not> list_ex (\<lambda>req. req \<in> set mandatory) required then False
           else list_all (\<lambda>req. req \<in> set supported) required) builders)"

text \<open>The test that \<open>can_handle_drv\<close> and \<open>loop_builds\<close> apply to one builder.\<close>

definition builder_accepts :: "string list \<Rightarrow> string list \<Rightarrow> string list \<Rightarrow> bool" where
  "builder_accepts supported mandatory required =
     (if mandatory \<noteq> [] \<and> \<not> list_ex (\<lambda>req. req \<in> set mandatory) required then False
      else list_all (\<lambda>req. req \<in> set supported) required)"

definition builder_is_available :: "(string \<Rightarrow> bool) \<Rightarrow> Builder \<Rightarrow> bool" where
  "builder_is_available ping b =
     (if bd_is_local b then True
      else case bd_remote_uri b of None \<Rightarrow> False | Some uri \<Rightarrow> ping uri)"

section \<open>Platform queues\<close>

record PlatformQueue =
  pq_platform :: Platform
  pq_builders :: "(string \<times> Builder) list"
  pq_local_builder :: "Builder option"
  pq_fod_builder :: "Builder option"

definition platform_queue_new :: "Platform \<Rightarrow> PlatformQueue" where
  "platform_queue_new platform =
     \<lparr> pq_platform = platform, pq_builders = [], pq_local_builder = None, pq_fod_builder = None \<rparr>"

definition pq_add_builder :: "(string \<Rightarrow> bool) \<Rightarrow> Builder \<Rightarrow> PlatformQueue \<Rightarrow> PlatformQueue" where
  "pq_add_builder ping b q =
     (if \<not> builder_is_available ping b then q
      else if bd_is_local b then q\<lparr>pq_local_builder := Some b\<rparr>
      else q\<lparr>pq_builders := AList.update (bd_builder_name b) b (pq_builders q)\<rparr>)"

definition pq_add_fod_builder :: "Builder \<Rightarrow> PlatformQueue \<Rightarrow> PlatformQueue" where
  "pq_add_fod_builder b q = q\<lparr>pq_fod_builder := Some b\<rparr>"

type_synonym system_queues = "Platform \<rightharpoonup> PlatformQueue"

definition ensure_queue :: "Platform \<Rightarrow> system_queues \<Rightarrow> system_queues" where
  "ensure_queue p qs = (case qs p of Some _ \<Rightarrow> qs | None \<Rightarrow> qs(p \<mapsto> platform_queue_new p))"

definition bq_add_builder :: "(string \<Rightarrow> bool) \<Rightarrow> Builder \<Rightarrow> system_queues \<Rightarrow> system_queues" where
  "bq_add_builder ping b qs =
     (let qs' = ensure_queue (bd_platform b) qs
      in qs'(bd_platform b := map_option (pq_add_builder ping b) (qs' (bd_platform b))))"

definition bq_add_fod_builder :: "Builder \<Rightarrow> system_queues \<Rightarrow> system_queues" where
  "bq_add_fod_builder b qs =
     (let qs' = ensure_queue (bd_platform b) qs
      in qs'(bd_platform b := map_option (pq_add_fod_builder b) (qs' (bd_platform b))))"

definition build_queue_init :: "(string \<Rightarrow> bool) \<Rightarrow> Builder list \<Rightarrow> Builder list \<Rightarrow> system_queues" where
  "build_queue_init ping builders fod_builders =
     fold bq_add_fod_builder fod_builders (fold (bq_add_builder ping) builders Map.empty)"

text \<open>The feature sets that \<open>loop_all_builds\<close> extracts, and the test on them.\<close>

definition all_builder_features :: "PlatformQueue \<Rightarrow> (string list \<times> string list) list" where
  "all_builder_features q =
     (let features = (\<lambda>b. (bd_supported_features b, bd_mandatory_features b))
      in (case pq_fod_builder q of None \<Rightarrow> [] | Some b \<Rightarrow> [features b]) @
         (case pq_local_builder q of None \<Rightarrow> [] | Some b \<Rightarrow> [features b]) @
         map (features \<circ> snd) (pq_builders q))"

definition can_handle_drv :: "PlatformQueue \<Rightarrow> BuildRequest \<Rightarrow> bool" where
  "can_handle_drv q drv =
     list_ex (\<lambda>(supported, mandatory).
       builder_accepts supported mandatory (required_features (ld_required_system_features drv)))
       (all_builder_features q)"

datatype Pool = FodPool | LocalPool | RemotePool

definition pool_builders :: "PlatformQueue \<Rightarrow> Pool \<Rightarrow> Builder list" where
  "pool_builders q p =
     (case p of
        FodPool \<Rightarrow> (case pq_fod_builder q of None \<Rightarrow> [] | Some b \<Rightarrow> [b])
      | LocalPool \<Rightarrow> (case pq_local_builder q of None \<Rightarrow> [] | Some b \<Rightarrow> [b])
      | RemotePool \<Rightarrow> map snd (pq_builders q))"

text \<open>What the loop of each of the six cases does with a request that is no orphan.  In the last
  case the task has returned at once when there is no local builder: the result
  is \<open>None\<close>, and nothing is ever received.\<close>

definition route :: "PlatformQueue \<Rightarrow> BuildRequest \<Rightarrow> Pool option" where
  "route q work =
     (let has_fod = pq_fod_builder q \<noteq> None;
          has_local = pq_local_builder q \<noteq> None;
          has_remote = pq_builders q \<noteq> []
      in if has_fod \<and> has_local \<and> has_remote then
           Some (if ld_is_fod work then FodPool else if ld_prefer_local_build work then LocalPool else RemotePool)
         else if has_fod \<and> has_local then Some (if ld_is_fod work then FodPool else LocalPool)
         else if has_fod \<and> has_remote then Some (if ld_is_fod work then FodPool else RemotePool)
         else if has_local \<and> has_remote then
           Some (if ld_prefer_local_build work then LocalPool else RemotePool)
         else if has_remote then Some RemotePool
         else if has_local then Some LocalPool else None)"

datatype Handled = Stopped | Orphan | Routed Pool

definition loop_all_builds_step :: "PlatformQueue \<Rightarrow> BuildRequest \<Rightarrow> Handled" where
  "loop_all_builds_step q work =
     (case route q work of
        None \<Rightarrow> Stopped
      | Some pool \<Rightarrow> if \<not> can_handle_drv q work then Orphan else Routed pool)"

section \<open>The accumulating queue\<close>

type_synonym pending = "(Platform \<times> BuildRequest list) list"

definition request_platform :: "string option \<Rightarrow> BuildRequest \<Rightarrow> Platform option" where
  "request_platform default_platform request =
     (if ld_system request = ''builtin'' then default_platform else Some (ld_system request))"

definition push_pending :: "Platform \<Rightarrow> BuildRequest \<Rightarrow> pending \<Rightarrow> pending" where
  "push_pending p request pend =
     AList.update p ((case map_of pend p of None \<Rightarrow> [] | Some q \<Rightarrow> q) @ [request]) pend"

definition classify_and_enqueue :: "BuildRequest \<Rightarrow> string option \<Rightarrow> pending \<Rightarrow> pending" where
  "classify_and_enqueue request default_platform pend =
     (case request_platform default_platform request of
        None \<Rightarrow> pend
      | Some p \<Rightarrow> push_pending p request pend)"

type_synonym senders = "Platform \<rightharpoonup> BuildRequest channel"

fun dispatch :: "pending \<Rightarrow> senders \<Rightarrow> pending \<times> senders" where
  "dispatch [] S = ([], S)"
| "dispatch ((p, q) # pend) S =
     (case S p of
        None \<Rightarrow> (case dispatch pend S of (pend', S') \<Rightarrow> ((p, []) # pend', S'))
      | Some sender \<Rightarrow>
          (case ch_send_some q sender of (q', sender') \<Rightarrow>
             (case dispatch pend (S(p \<mapsto> sender')) of (pend', S') \<Rightarrow> ((p, q') # pend', S'))))"

definition all_empty :: "pending \<Rightarrow> bool" where
  "all_empty pend = list_all (\<lambda>(_, q). q = []) pend"

text \<open>
  The task of \<open>poll_for_builds\<close> with the tasks around it: scheduler ingress sends
  into \<open>bq_receiver\<close>, the platform queues take from \<open>bq_senders\<close>.  \<open>bq_sent\<close> and
  \<open>bq_taken\<close> record what they did and are not read by the code.
\<close>

datatype PollPhase = Draining | Dispatching | Waiting

record BuildQueue =
  bq_phase :: PollPhase
  bq_receiver :: "BuildRequest channel"
  bq_pending :: pending
  bq_senders :: senders
  bq_sent :: "BuildRequest list"
  bq_taken :: "Platform \<Rightarrow> BuildRequest list"

definition poll_start :: "(Platform \<Rightarrow> bool) \<Rightarrow> BuildQueue" where
  "poll_start platforms =
     \<lparr> bq_phase = Draining, bq_receiver = ch_new 100, bq_pending = [],
       bq_senders = (\<lambda>p. if platforms p then Some (ch_new 1000) else None),
       bq_sent = [], bq_taken = (\<lambda>_. []) \<rparr>"

inductive poll_step :: "string option \<Rightarrow> BuildQueue \<Rightarrow> BuildQueue \<Rightarrow> bool" for dp where
  drain: "bq_phase s = Draining \<Longrightarrow> ch_try_recv (bq_receiver s) = Some (r, rx) \<Longrightarrow>
    poll_step dp s (s\<lparr>bq_receiver := rx, bq_pending := classify_and_enqueue r dp (bq_pending s)\<rparr>)"
| drained: "bq_phase s = Draining \<Longrightarrow> ch_try_recv (bq_receiver s) = None \<Longrightarrow>
    poll_step dp s (s\<lparr>bq_phase := Dispatching\<rparr>)"
| dispatch: "bq_phase s = Dispatching \<Longrightarrow> dispatch (bq_pending s) (bq_senders s) = (pend, S) \<Longrightarrow>
    poll_step dp s (s\<lparr>bq_phase := Waiting, bq_pending := pend, bq_senders := S\<rparr>)"
| block_recv: "bq_phase s = Waiting \<Longrightarrow> all_empty (bq_pending s) \<Longrightarrow>
    ch_try_recv (bq_receiver s) = Some (r, rx) \<Longrightarrow>
    poll_step dp s (s\<lparr>bq_phase := Draining, bq_receiver := rx,
      bq_pending := classify_and_enqueue r dp (bq_pending s)\<rparr>)"
| tick: "bq_phase s = Waiting \<Longrightarrow> \<not> all_empty (bq_pending s) \<Longrightarrow> poll_step dp s (s\<lparr>bq_phase := Draining\<rparr>)"
| send: "ch_try_send r (bq_receiver s) = Some tx \<Longrightarrow>
    poll_step dp s (s\<lparr>bq_receiver := tx, bq_sent := bq_sent s @ [r]\<rparr>)"
| take: "bq_senders s p = Some ch \<Longrightarrow> ch_try_recv ch = Some (r, ch') \<Longrightarrow>
    poll_step dp s (s\<lparr>bq_senders := (bq_senders s)(p \<mapsto> ch'), bq_taken := (bq_taken s)(p := bq_taken s p @ [r])\<rparr>)"

inductive poll_reachable :: "string option \<Rightarrow> (Platform \<Rightarrow> bool) \<Rightarrow> BuildQueue \<Rightarrow> bool" for dp platforms where
  start: "poll_reachable dp platforms (poll_start platforms)"
| step: "poll_reachable dp platforms s \<Longrightarrow> poll_step dp s s' \<Longrightarrow> poll_reachable dp platforms s'"

section \<open>Lemmas on the accumulators\<close>

definition pending_for :: "pending \<Rightarrow> Platform \<Rightarrow> BuildRequest list" where
  "pending_for pend p = (case map_of pend p of None \<Rightarrow> [] | Some q \<Rightarrow> q)"

lemma pending_for_push: "pending_for (push_pending p r pend) p' = pending_for pend p' @ (if p' = p then [r] else [])"
  by (simp add: pending_for_def push_pending_def update_conv)

lemma pending_for_enqueue:
  "pending_for (classify_and_enqueue r dp pend) p =
     pending_for pend p @ filter (\<lambda>r. request_platform dp r = Some p) [r]"
  by (auto simp: classify_and_enqueue_def pending_for_push split: option.splits)

lemma distinct_enqueue: "distinct (map fst pend) \<Longrightarrow> distinct (map fst (classify_and_enqueue r dp pend))"
  by (auto simp: classify_and_enqueue_def push_pending_def distinct_update split: option.splits)

lemma pending_for_Cons [simp]: "pending_for ((p0, q) # pend) p = (if p = p0 then q else pending_for pend p)"
  by (simp add: pending_for_def)

lemma pending_for_Nil [simp]: "pending_for [] p = []"
  by (simp add: pending_for_def)

text \<open>One step of the pass, in one shape for both cases.\<close>

lemma dispatch_ConsE:
  assumes "dispatch ((p0, q) # pend) S = (pend', S')"
  obtains S1 q' pend1 where "dispatch pend S1 = (pend1, S')" "pend' = (p0, q') # pend1"
    "\<And>p. p \<noteq> p0 \<Longrightarrow> S1 p = S p" "S p0 = None \<Longrightarrow> q' = [] \<and> S1 p0 = None"
    "\<And>ch. S p0 = Some ch \<Longrightarrow> \<exists>ch'. S1 p0 = Some ch' \<and> ch_send_some q ch = (q', ch')"
proof (cases "S p0")
  case None
  then obtain pend1 where "dispatch pend S = (pend1, S')" "pend' = (p0, []) # pend1"
    using assms by (auto split: prod.splits)
  with None show ?thesis using that[of S pend1 "[]"] by simp
next
  case (Some ch)
  then obtain q' ch' pend1 where "ch_send_some q ch = (q', ch')" "dispatch pend (S(p0 \<mapsto> ch')) = (pend1, S')"
    "pend' = (p0, q') # pend1"
    using assms by (auto split: prod.splits)
  with Some show ?thesis using that[of "S(p0 \<mapsto> ch')" pend1 q'] by simp
qed

lemma dispatch_keys: "dispatch pend S = (pend', S') \<Longrightarrow> map fst pend' = map fst pend"
  by (induction pend arbitrary: pend' S S') (auto split: option.splits prod.splits)

lemma dispatch_frame: "dispatch pend S = (pend', S') \<Longrightarrow> p \<notin> fst ` set pend \<Longrightarrow> S' p = S p"
proof (induction pend arbitrary: pend' S S')
  case (Cons e pend)
  obtain p0 q where e: "e = (p0, q)" by fastforce
  show ?case using Cons.prems(1) unfolding e
  proof (rule dispatch_ConsE)
    fix S1 pend1
    assume "dispatch pend S1 = (pend1, S')" "\<And>p. p \<noteq> p0 \<Longrightarrow> S1 p = S p"
    then show ?thesis using Cons.IH[of S1 pend1 S'] Cons.prems(2) by (simp add: e)
  qed
qed simp

lemma dispatch_none: "dispatch pend S = (pend', S') \<Longrightarrow> S p = None \<Longrightarrow> S' p = None \<and> pending_for pend' p = []"
proof (induction pend arbitrary: pend' S S')
  case (Cons e pend)
  obtain p0 q where e: "e = (p0, q)" by fastforce
  show ?case using Cons.prems(1) unfolding e
  proof (rule dispatch_ConsE)
    fix S1 q' pend1
    assume "dispatch pend S1 = (pend1, S')" "pend' = (p0, q') # pend1" "\<And>p. p \<noteq> p0 \<Longrightarrow> S1 p = S p"
      "S p0 = None \<Longrightarrow> q' = [] \<and> S1 p0 = None"
    then show ?thesis using Cons.IH[of S1 pend1 S'] Cons.prems(2) by (cases "p = p0") simp_all
  qed
qed simp

text \<open>A pass of \<open>dispatch\<close> moves requests of a configured platform from its accumulator to its
  channel in order, until one is empty or the other full.\<close>

lemma dispatch_some:
  assumes "dispatch pend S = (pend', S')" "S p = Some ch" "distinct (map fst pend)"
  shows "\<exists>ch'. S' p = Some ch' \<and> ch_send_some (pending_for pend p) ch = (pending_for pend' p, ch')"
  using assms
proof (induction pend arbitrary: pend' S S')
  case (Cons e pend)
  obtain p0 q where e: "e = (p0, q)" by fastforce
  from Cons.prems(1)[unfolded e] show ?case
  proof (rule dispatch_ConsE)
    fix S1 q' pend1
    assume h: "dispatch pend S1 = (pend1, S')" "pend' = (p0, q') # pend1" "\<And>p. p \<noteq> p0 \<Longrightarrow> S1 p = S p"
      "\<And>ch. S p0 = Some ch \<Longrightarrow> \<exists>ch'. S1 p0 = Some ch' \<and> ch_send_some q ch = (q', ch')"
    show ?thesis
    proof (cases "p = p0")
      case True
      then have "S' p = S1 p" using dispatch_frame[OF h(1)] Cons.prems(3) by (simp add: e)
      then show ?thesis using True h(2) h(4)[of ch] Cons.prems(2) by (auto simp: e)
    next
      case False
      then show ?thesis using Cons.IH[OF h(1)] h(2,3) Cons.prems(2,3) by (simp add: e)
    qed
  qed
qed simp

section \<open>Conservation\<close>

definition in_flight :: "string option \<Rightarrow> BuildQueue \<Rightarrow> Platform \<Rightarrow> BuildRequest channel \<Rightarrow> BuildRequest list" where
  "in_flight dp s p ch =
     ch_items ch @ pending_for (bq_pending s) p @
     filter (\<lambda>r. request_platform dp r = Some p) (ch_items (bq_receiver s))"

definition poll_ok :: "string option \<Rightarrow> (Platform \<Rightarrow> bool) \<Rightarrow> BuildQueue \<Rightarrow> bool" where
  "poll_ok dp platforms s = (distinct (map fst (bq_pending s)) \<and>
     (\<forall>p. (bq_senders s p \<noteq> None) = platforms p) \<and>
     (\<forall>p ch. bq_senders s p = Some ch \<longrightarrow>
        ch_capacity ch = 1000 \<and>
        filter (\<lambda>r. request_platform dp r = Some p) (bq_sent s) = bq_taken s p @ in_flight dp s p ch))"

lemma poll_ok_start: "poll_ok dp platforms (poll_start platforms)"
  by (auto simp: poll_ok_def poll_start_def in_flight_def pending_for_def ch_new_def split: if_splits)

lemma poll_ok_dispatch:
  assumes ok: "poll_ok dp platforms s" and d: "dispatch (bq_pending s) (bq_senders s) = (pend, S)"
  shows "poll_ok dp platforms (s\<lparr>bq_phase := ph, bq_pending := pend, bq_senders := S\<rparr>)"
proof -
  let ?t = "s\<lparr>bq_phase := ph, bq_pending := pend, bq_senders := S\<rparr>"
  have dist: "distinct (map fst (bq_pending s))" using ok by (simp add: poll_ok_def)
  have moved: "ch_capacity ch' = ch_capacity ch \<and> in_flight dp ?t p ch' = in_flight dp s p ch"
    if "bq_senders s p = Some ch" "S p = Some ch'" for p ch ch'
    using dispatch_some[OF d that(1) dist] that(2) ch_send_some_conserves
    by (fastforce simp: in_flight_def)
  have dom: "(S p = None) = (bq_senders s p = None)" for p
    using dispatch_none[OF d] dispatch_some[OF d _ dist] by (cases "bq_senders s p") fastforce+
  have "ch_capacity ch' = 1000 \<and>
      filter (\<lambda>r. request_platform dp r = Some p) (bq_sent s) = bq_taken s p @ in_flight dp ?t p ch'"
    if S: "S p = Some ch'" for p ch'
  proof -
    obtain ch where "bq_senders s p = Some ch" using dom[of p] S by (cases "bq_senders s p") auto
    then show ?thesis using moved[OF _ S] ok by (simp add: poll_ok_def)
  qed
  then show ?thesis using ok dispatch_keys[OF d] dom by (simp add: poll_ok_def)
qed

lemma poll_ok_step:
  assumes "poll_step dp s s'" "poll_ok dp platforms s"
  shows "poll_ok dp platforms s'"
  using assms
proof (cases rule: poll_step.cases)
  case (dispatch pend S)
  then show ?thesis using assms(2) poll_ok_dispatch by simp
next
  case (take p ch r ch')
  then show ?thesis using assms(2) by (auto simp: poll_ok_def in_flight_def ch_try_recv_Some)
qed (auto simp: poll_ok_def in_flight_def ch_try_recv_Some ch_try_send_Some pending_for_enqueue distinct_enqueue)

lemma reachable_poll_ok: "poll_reachable dp platforms s \<Longrightarrow> poll_ok dp platforms s"
  by (induction rule: poll_reachable.induct) (auto intro: poll_ok_start poll_ok_step)

section \<open>Properties\<close>

text \<open>C4: The build queue neither loses, duplicates nor reorders requests.  However the tasks
  interleave, the requests sent for a platform that has a queue are, in the order they
  were sent, those its platform queue has taken, those in its channel, those in its
  accumulator and those still in the receiver.\<close>

theorem build_queue_fifo:
  assumes "poll_reachable dp platforms s" "platforms p"
  shows "\<exists>ch. bq_senders s p = Some ch \<and> ch_capacity ch = 1000 \<and>
    filter (\<lambda>r. request_platform dp r = Some p) (bq_sent s) =
      bq_taken s p @ ch_items ch @ pending_for (bq_pending s) p @
      filter (\<lambda>r. request_platform dp r = Some p) (ch_items (bq_receiver s))"
  using reachable_poll_ok[OF assms(1)] assms(2) by (fastforce simp: poll_ok_def in_flight_def)

definition demo_request :: "DrvId \<Rightarrow> string \<Rightarrow> BuildRequest" where
  "demo_request d system = (demo_row d LocalQueued)\<lparr>ld_system := system\<rparr>"

lemma demo_request_simps [simp]: "ld_system (demo_request d system) = system"
  by (simp add: demo_request_def)

definition demo_poll :: BuildQueue where
  "demo_poll = (poll_start (\<lambda>p. p = ''x86''))
     \<lparr>bq_phase := Waiting,
      bq_pending := [(''x86'', []), (''arm'', [])],
      bq_senders := [''x86'' \<mapsto> \<lparr> ch_capacity = 1000, ch_items = [demo_request demo_id_a ''builtin''] \<rparr>],
      bq_sent := [demo_request demo_id_a ''builtin'', demo_request demo_id_b ''arm'']\<rparr>"

lemma poll_then:
  "poll_reachable dp platforms s \<Longrightarrow> poll_step dp s s' \<Longrightarrow> s'' = s' \<Longrightarrow> poll_reachable dp platforms s''"
  using poll_reachable.step by simp

lemma demo_poll_reachable: "poll_reachable (Some ''x86'') (\<lambda>p. p = ''x86'') demo_poll"
proof -
  let ?R = "poll_reachable (Some ''x86'') (\<lambda>p. p = ''x86'')"
  let ?a = "demo_request demo_id_a ''builtin''" and ?b = "demo_request demo_id_b ''arm''"
  let ?s0 = "poll_start (\<lambda>p. p = ''x86'')"
  let ?s1 = "?s0\<lparr>bq_receiver := \<lparr> ch_capacity = 100, ch_items = [?a] \<rparr>, bq_sent := [?a]\<rparr>"
  let ?s2 = "?s0\<lparr>bq_receiver := \<lparr> ch_capacity = 100, ch_items = [?a, ?b] \<rparr>, bq_sent := [?a, ?b]\<rparr>"
  let ?s3 = "?s2\<lparr>bq_receiver := \<lparr> ch_capacity = 100, ch_items = [?b] \<rparr>, bq_pending := [(''x86'', [?a])]\<rparr>"
  let ?s4 = "?s2\<lparr>bq_receiver := ch_new 100, bq_pending := [(''x86'', [?a]), (''arm'', [?b])]\<rparr>"
  let ?s5 = "?s4\<lparr>bq_phase := Dispatching\<rparr>"
  note chan = poll_start_def ch_new_def ch_try_send_def ch_try_recv_def ch_has_room_def
  note enq = classify_and_enqueue_def request_platform_def push_pending_def
  have "?R ?s1"
    by (rule poll_then[OF poll_reachable.start poll_step.send[of ?a _ "bq_receiver ?s1"]]) (simp_all add: chan)
  then have "?R ?s2"
    by (rule poll_then[OF _ poll_step.send[of ?b _ "bq_receiver ?s2"]]) (simp_all add: chan)
  then have "?R ?s3"
    by (rule poll_then[OF _ poll_step.drain[of _ ?a "bq_receiver ?s3"]]) (simp_all add: chan enq)
  then have "?R ?s4"
    by (rule poll_then[OF _ poll_step.drain[of _ ?b "bq_receiver ?s4"]]) (simp_all add: chan enq)
  then have "?R ?s5"
    by (rule poll_then[OF _ poll_step.drained]) (simp_all add: chan)
  then show ?thesis
    by (rule poll_then[OF _ poll_step.dispatch[of _ "bq_pending demo_poll" "bq_senders demo_poll"]])
      (auto simp: chan demo_poll_def fun_eq_iff)
qed

theorem build_queue_fifo_witness:
  "filter (\<lambda>r. request_platform (Some ''x86'') r = Some ''x86'') (bq_sent demo_poll) =
     [demo_request demo_id_a ''builtin'']"
  using build_queue_fifo[of "Some ''x86''" "\<lambda>p. p = ''x86''" demo_poll "''x86''"] demo_poll_reachable
  by (simp add: demo_poll_def poll_start_def ch_new_def)

text \<open>A dispatch pass never blocks and is greedy: for a platform with a queue it moves exactly as
  many of the oldest pending requests as its channel has room for; the requests of a
  platform without one are dropped.\<close>

theorem dispatch_exact:
  assumes "dispatch pend S = (pend', S')" "distinct (map fst pend)"
  shows "(case S p of
      Some ch \<Rightarrow>
        let room = ch_capacity ch - length (ch_items ch)
        in S' p = Some (ch\<lparr>ch_items := ch_items ch @ take room (pending_for pend p)\<rparr>) \<and>
           pending_for pend' p = drop room (pending_for pend p)
    | None \<Rightarrow> S' p = None \<and> pending_for pend' p = [])"
  using dispatch_none[OF assms(1)] dispatch_some[OF assms(1) _ assms(2)]
  by (auto simp: ch_send_some_take Let_def split: option.splits)

theorem dispatch_exact_witness:
  "pending_for (fst (dispatch [(''x86'', [demo_request demo_id_a ''x86'', demo_request demo_id_b ''x86''])]
      [''x86'' \<mapsto> \<lparr> ch_capacity = 1, ch_items = [] \<rparr>])) ''x86'' = [demo_request demo_id_b ''x86'']"
proof -
  let ?p = "[(''x86'', [demo_request demo_id_a ''x86'', demo_request demo_id_b ''x86''])]"
  let ?S = "[''x86'' \<mapsto> \<lparr> ch_capacity = 1, ch_items = [] \<rparr>]"
  show ?thesis
    using dispatch_exact[of ?p ?S "fst (dispatch ?p ?S)" "snd (dispatch ?p ?S)" "''x86''"]
    by (simp add: Let_def)
qed

text \<open>A platform queue with a local or a remote builder rejects a request exactly when no builder
  of the platform accepts its features; it sends a fixed-output derivation to the
  dedicated builder if there is one, any other request to the local builder when the
  request prefers it or there is no remote one, and to the remote builders otherwise.
  The pool it picks always has a builder.\<close>

theorem routing_exact:
  assumes "pq_local_builder q \<noteq> None \<or> pq_builders q \<noteq> []"
  shows "loop_all_builds_step q work =
      (if \<forall>pool. \<forall>b\<in>set (pool_builders q pool).
            \<not> builder_accepts (bd_supported_features b) (bd_mandatory_features b)
                (required_features (ld_required_system_features work))
       then Orphan
       else Routed (if ld_is_fod work \<and> pq_fod_builder q \<noteq> None then FodPool
                    else if pq_local_builder q \<noteq> None \<and> (ld_prefer_local_build work \<or> pq_builders q = [])
                    then LocalPool else RemotePool)) \<and>
    (\<forall>pool. loop_all_builds_step q work = Routed pool \<longrightarrow> pool_builders q pool \<noteq> [])"
proof -
  have all: "(\<forall>pool. P pool) \<longleftrightarrow> P FodPool \<and> P LocalPool \<and> P RemotePool" for P
    by (metis Pool.exhaust)
  have orphan: "can_handle_drv q work \<longleftrightarrow>
      (\<exists>pool. \<exists>b\<in>set (pool_builders q pool). builder_accepts (bd_supported_features b) (bd_mandatory_features b)
        (required_features (ld_required_system_features work)))"
    using all[of "\<lambda>pool. \<forall>b\<in>set (pool_builders q pool). \<not> builder_accepts (bd_supported_features b)
        (bd_mandatory_features b) (required_features (ld_required_system_features work))"]
    by (auto simp: can_handle_drv_def all_builder_features_def pool_builders_def list_ex_iff split: option.splits)
  show ?thesis using assms
    by (auto simp: loop_all_builds_step_def orphan route_def Let_def pool_builders_def)
qed

definition demo_builder :: "string \<Rightarrow> bool \<Rightarrow> string list \<Rightarrow> Builder" where
  "demo_builder name is_local features =
     \<lparr> bd_is_local = is_local, bd_max_jobs = 1, bd_remote_uri = (if is_local then None else Some name),
       bd_builder_name = name, bd_platform = ''x86'', bd_supported_features = features,
       bd_mandatory_features = [] \<rparr>"

definition demo_platform :: PlatformQueue where
  "demo_platform =
     \<lparr> pq_platform = ''x86'', pq_builders = [(''r'', demo_builder ''r'' False [''kvm''])],
       pq_local_builder = Some (demo_builder ''l'' True []), pq_fod_builder = Some (demo_builder ''f'' True []) \<rparr>"

lemmas demo_platform_simps = demo_platform_def demo_builder_def demo_request_def demo_row_def
  pool_builders_def builder_accepts_def required_features_def trim_def trim_end_def trim_start_def is_ascii_ws_def

theorem routing_exact_witness:
  "loop_all_builds_step demo_platform (demo_request demo_id_a ''x86'') = Routed RemotePool"
proof -
  have "\<exists>pool. \<exists>b\<in>set (pool_builders demo_platform pool). builder_accepts (bd_supported_features b)
      (bd_mandatory_features b) (required_features (ld_required_system_features (demo_request demo_id_a ''x86'')))"
    by (rule exI[of _ LocalPool]) (simp add: demo_platform_simps)
  then show ?thesis
    using routing_exact[of demo_platform "demo_request demo_id_a ''x86''"]
    by (auto simp: demo_platform_def demo_request_def demo_row_def)
qed

end
