(* ===== verification/Recorder.thy ===== *)
theory Recorder
  imports Build_Queue
begin

text \<open>
  The recorder (\<open>server/src/scheduler/recorder/request_handler.rs\<close>,
  \<open>state.rs\<close>): what happens to a drv when a build result is reported.  The
  state holds the graph service, the queue of commands to it, and the channels
  between the scheduler's tasks.  A command sent with \<open>try_send\<close> waits in the
  queue until the graph service gets to it; a request that awaits its reply is
  answered after everything queued before it.  A handler is one step.  Post-build
  hooks, reference capture and size checks, which only run nix and write other
  tables, are the list of drvs they were started for; notification of forges and
  channels is left out.
\<close>

section \<open>State\<close>

datatype IngressTask =
    EvalRequest DrvId
  | CheckBuildable DrvId
  | CheckSubstitution DrvId
  | RebuildFailed DrvId
  | RebuildAllFailed

record RecorderTask =
  rt_derivation :: DrvId
  rt_result :: LocalState

record 'c Scheduler =
  sc_service :: "('c, Database) GraphService"
  sc_count :: "64 word"
  sc_commands :: "GraphCommand channel"
  sc_ingress :: "IngressTask channel"
  sc_builds :: "BuildRequest channel"
  sc_recorder :: "RecorderTask channel"
  sc_changes :: "(DrvId \<times> LocalState \<times> LocalState) list"
  sc_post_build :: "DrvId list"

abbreviation sc_db :: "'c Scheduler \<Rightarrow> Database" where
  "sc_db s \<equiv> gs_db (sc_service s)"

abbreviation sc_view :: "'c Scheduler \<Rightarrow> view" where
  "sc_view s \<equiv> gs_view (sc_service s)"

definition set_db :: "Database \<Rightarrow> 'c Scheduler \<Rightarrow> 'c Scheduler" where
  "set_db db s = s\<lparr>sc_service := (sc_service s)\<lparr>gs_db := db\<rparr>\<rparr>"

definition set_shared_state :: "DrvId \<Rightarrow> DrvBuildState \<Rightarrow> 'c Scheduler \<Rightarrow> 'c Scheduler" where
  "set_shared_state d st s = s\<lparr>sc_service := (sc_service s)\<lparr>gs_view := set_view_state d st (sc_view s)\<rparr>\<rparr>"

type_synonym ('s, 'a) outcome = "'s \<times> (anyhow, 'a) result"

text \<open>The \<open>?\<close> operator: go on with the value, or stop with the error and the state so far.\<close>

definition and_then :: "('s, 'a) outcome \<Rightarrow> ('s \<Rightarrow> 'a \<Rightarrow> ('s, 'b) outcome) \<Rightarrow> ('s, 'b) outcome" where
  "and_then m f = (case m of (s, Inl e) \<Rightarrow> (s, Inl e) | (s, Inr x) \<Rightarrow> f s x)"

definition to_shared_drv_id :: "DrvId \<Rightarrow> (anyhow, DrvId) result" where
  "to_shared_drv_id d = (case DrvId_from_str d of Inl _ \<Rightarrow> Inl parse_error | Inr x \<Rightarrow> Inr x)"

definition to_server_drv_id :: "DrvId \<Rightarrow> (anyhow, DrvId) result" where
  "to_server_drv_id d = (case local_DrvId_try_from d of Inl _ \<Rightarrow> Inl parse_error | Inr x \<Rightarrow> Inr x)"

section \<open>Talking to the graph service\<close>

definition offer_command :: "GraphCommand \<Rightarrow> 'c Scheduler \<Rightarrow> 'c Scheduler" where
  "offer_command cmd s = s\<lparr>sc_commands := ch_offer cmd (sc_commands s)\<rparr>"

text \<open>The graph service handles the oldest command.\<close>

definition serve_command :: "'c node_lru \<Rightarrow> instant \<Rightarrow> 'c Scheduler \<Rightarrow> 'c Scheduler" where
  "serve_command L now s =
     (case ch_try_recv (sc_commands s) of
        None \<Rightarrow> s
      | Some (cmd, ch) \<Rightarrow>
          (case run_round L DbService_db now cmd (sc_service s, sc_count s) of (g, n) \<Rightarrow>
             s\<lparr>sc_service := g, sc_count := n, sc_commands := ch\<rparr>))"

text \<open>A command whose reply is awaited: the queue is served first.  When the handler fails it drops the
  reply channel, and the caller gets an error.\<close>

definition recv_error :: anyhow where
  "recv_error = ''channel closed''"

definition call_graph :: "'c node_lru \<Rightarrow> instant \<Rightarrow> GraphCommand \<Rightarrow> 'c Scheduler \<Rightarrow> ('c Scheduler, Reply) outcome" where
  "call_graph L now cmd s =
     (case run L DbService_db (map (Pair now) (ch_items (sc_commands s))) (sc_service s, sc_count s) of (g, n) \<Rightarrow>
      case run_round L DbService_db now cmd (g, n) of (g', n') \<Rightarrow>
        (s\<lparr>sc_service := g', sc_count := n', sc_commands := (sc_commands s)\<lparr>ch_items := []\<rparr>\<rparr>,
         case snd (handle_command L DbService_db now cmd g) of Inl _ \<Rightarrow> Inl recv_error | Inr reply \<Rightarrow> Inr reply))"

fun reply_drvs :: "Reply \<Rightarrow> DrvId list" where
  "reply_drvs (ReplyDrvs ds) = ds"
| "reply_drvs _ = []"

definition update_graph_state :: "DrvId \<Rightarrow> LocalState \<Rightarrow> 'c Scheduler \<Rightarrow> ('c Scheduler, unit) outcome" where
  "update_graph_state drv new_state s =
     (case to_shared_drv_id drv of
        Inl e \<Rightarrow> (s, Inl e)
      | Inr d \<Rightarrow>
          (offer_command (UpdateState d (convert_build_state new_state))
             (set_shared_state d (convert_build_state new_state) s), Inr ()))"

definition broadcast_state_change :: "DrvId \<Rightarrow> LocalState \<Rightarrow> LocalState \<Rightarrow> 'c Scheduler \<Rightarrow> 'c Scheduler" where
  "broadcast_state_change drv old_state new_state s =
     s\<lparr>sc_changes := sc_changes s @ [(drv, old_state, new_state)]\<rparr>"

definition update_and_broadcast ::
  "DrvId \<Rightarrow> LocalState \<Rightarrow> LocalState \<Rightarrow> 'c Scheduler \<Rightarrow> ('c Scheduler, unit) outcome" where
  "update_and_broadcast drv old_state new_state s =
     and_then (update_graph_state drv new_state (set_db (q_update_drv_status (sc_db s) drv new_state) s))
       (\<lambda>s _. (broadcast_state_change drv old_state new_state s, Inr ()))"

definition clear_graph_failure :: "'c node_lru \<Rightarrow> instant \<Rightarrow> DrvId \<Rightarrow> 'c Scheduler \<Rightarrow> ('c Scheduler, DrvId list) outcome" where
  "clear_graph_failure L now drv s =
     (case to_shared_drv_id drv of
        Inl e \<Rightarrow> (s, Inl e)
      | Inr d \<Rightarrow> and_then (call_graph L now (ClearFailure d) s) (\<lambda>s reply. (s, parse_ids (reply_drvs reply))))"

definition propagate_graph_failure ::
  "'c node_lru \<Rightarrow> instant \<Rightarrow> DrvId \<Rightarrow> 'c Scheduler \<Rightarrow> ('c Scheduler, DrvId list) outcome" where
  "propagate_graph_failure L now drv s =
     (case to_shared_drv_id drv of
        Inl e \<Rightarrow> (s, Inl e)
      | Inr d \<Rightarrow> and_then (call_graph L now (PropagateFailure d) s) (\<lambda>s reply. (s, parse_ids (reply_drvs reply))))"

section \<open>Handling a result\<close>

definition offer_check :: "DrvId \<Rightarrow> 'c Scheduler \<Rightarrow> 'c Scheduler" where
  "offer_check d s = s\<lparr>sc_ingress := ch_offer (CheckBuildable d) (sc_ingress s)\<rparr>"

definition requeue :: "DrvId \<Rightarrow> 'c Scheduler \<Rightarrow> 'c Scheduler" where
  "requeue d s = s\<lparr>sc_ingress := ch_send (CheckBuildable d) (sc_ingress s)\<rparr>"

fun check_referrers :: "DrvId list \<Rightarrow> 'c Scheduler \<Rightarrow> ('c Scheduler, unit) outcome" where
  "check_referrers [] s = (s, Inr ())"
| "check_referrers (r # rs) s =
     (case to_server_drv_id r of
        Inl e \<Rightarrow> (s, Inl e)
      | Inr d \<Rightarrow> check_referrers rs (offer_check d s))"

definition drv_not_found :: "DrvId \<Rightarrow> anyhow" where
  "drv_not_found drv = ''Drv not found: '' @ store_path drv"

definition record_state :: "'c Scheduler \<Rightarrow> DrvId \<Rightarrow> LocalState option" where
  "record_state s drv = map_option ld_build_state (q_get_drv drv (sc_db s))"

text \<open>The block that ends every permanent failure.\<close>

definition propagate_and_persist :: "'c node_lru \<Rightarrow> instant \<Rightarrow> DrvId \<Rightarrow> 'c Scheduler \<Rightarrow> ('c Scheduler, unit) outcome" where
  "propagate_and_persist L now drv s =
     and_then (propagate_graph_failure L now drv s)
       (\<lambda>s blocked.
          if blocked = [] then (s, Inr ())
          else case q_insert_transitive_failures drv blocked (sc_db s) of (db, r) \<Rightarrow> (set_db db s, r))"

definition record_completed_success ::
  "'c node_lru \<Rightarrow> instant \<Rightarrow> DrvId \<Rightarrow> LocalState option \<Rightarrow> 'c Scheduler \<Rightarrow> ('c Scheduler, unit) outcome" where
  "record_completed_success L now drv current_state s =
     (let old_state = (case current_state of None \<Rightarrow> LocalQueued | Some st \<Rightarrow> st)
      in and_then (update_and_broadcast drv old_state (LocalCompleted LocalSuccess) s) (\<lambda>s _.
           let was_built_locally = (old_state = LocalBuilding);
               s1 = (if was_built_locally then s\<lparr>sc_post_build := sc_post_build s @ [drv]\<rparr> else s);
               s2 = set_db (fst (q_clear_transitive_failures drv (sc_db s1))) s1
           in and_then (clear_graph_failure L now drv s2) (\<lambda>s unblocked_drvs.
                let s' = fold offer_check unblocked_drvs s
                in case to_shared_drv_id drv of
                     Inl e \<Rightarrow> (s', Inl e)
                   | Inr d \<Rightarrow> check_referrers (get_dependents_from_view (sc_view s') d) s')))"

definition record_completed_failure ::
  "'c node_lru \<Rightarrow> instant \<Rightarrow> DrvId \<Rightarrow> 'c Scheduler \<Rightarrow> ('c Scheduler, unit) outcome" where
  "record_completed_failure L now drv s =
     (case record_state s drv of
        None \<Rightarrow> (s, Inl (drv_not_found drv))
      | Some st \<Rightarrow>
          if st = LocalBuilding then
            and_then (update_and_broadcast drv st LocalFailedRetry s) (\<lambda>s _. (requeue drv s, Inr ()))
          else if st = LocalFailedRetry then
            and_then (update_and_broadcast drv st (LocalCompleted LocalFailure) s)
              (\<lambda>s _. propagate_and_persist L now drv s)
          else (s, Inr ()))"

definition record_interrupted ::
  "'c node_lru \<Rightarrow> instant \<Rightarrow> DrvId \<Rightarrow> LocalInterrupt \<Rightarrow> 'c Scheduler \<Rightarrow> ('c Scheduler, unit) outcome" where
  "record_interrupted L now drv kind s =
     (case record_state s drv of
        None \<Rightarrow> (s, Inl (drv_not_found drv))
      | Some st \<Rightarrow>
          if local_is_terminal st then (s, Inr ())
          else if local_is_retryable kind then
            (if st = LocalFailedRetry then
               and_then (update_and_broadcast drv st (LocalCompleted LocalFailure) s)
                 (\<lambda>s _. propagate_and_persist L now drv s)
             else and_then (update_and_broadcast drv st LocalFailedRetry s) (\<lambda>s _. (requeue drv s, Inr ())))
          else and_then (update_and_broadcast drv st (LocalInterrupted kind) s)
                 (\<lambda>s _. propagate_and_persist L now drv s))"

definition record_unsatisfiable ::
  "'c node_lru \<Rightarrow> instant \<Rightarrow> DrvId \<Rightarrow> 'c Scheduler \<Rightarrow> ('c Scheduler, unit) outcome" where
  "record_unsatisfiable L now drv s =
     (let old_state = (case record_state s drv of None \<Rightarrow> LocalQueued | Some st \<Rightarrow> st)
      in if local_is_terminal old_state then (s, Inr ())
         else and_then (update_and_broadcast drv old_state LocalUnsatisfiableRequirements s)
                (\<lambda>s _. propagate_and_persist L now drv s))"

definition handle_recorder_request ::
  "'c node_lru \<Rightarrow> instant \<Rightarrow> RecorderTask \<Rightarrow> 'c Scheduler \<Rightarrow> ('c Scheduler, unit) outcome" where
  "handle_recorder_request L now task s =
     (let drv = rt_derivation task
      in case rt_result task of
           LocalCompleted LocalSuccess \<Rightarrow> record_completed_success L now drv (record_state s drv) s
         | LocalCompleted LocalFailure \<Rightarrow> record_completed_failure L now drv s
         | LocalInterrupted kind \<Rightarrow> record_interrupted L now drv kind s
         | LocalUnsatisfiableRequirements \<Rightarrow> record_unsatisfiable L now drv s
         | _ \<Rightarrow> (s, Inr ()))"

end
