(* ===== verification/Ingress.thy ===== *)
theory Ingress
  imports Recorder
begin

text \<open>
  The two ends of the scheduler's loop: the ingress worker that decides whether a
  drv can be built now and sends it on (\<open>server/src/scheduler/ingress.rs\<close>), and
  the builder thread that takes the request, marks the drv as building, runs
  \<open>nix-build\<close> under two deadlines and reports the result to the recorder
  (\<open>build/builder_thread.rs\<close>).  Both work on the state of \<open>Recorder\<close>.
\<close>

section \<open>Ingress\<close>

definition to_server_drv :: "Drv \<Rightarrow> (anyhow, LocalDrv) result" where
  "to_server_drv d =
     (case to_server_drv_id (drv_path d) of
        Inl e \<Rightarrow> Inl e
      | Inr path \<Rightarrow> Inr \<lparr> ld_drv_path = path, ld_system = drv_system d,
          ld_prefer_local_build = drv_prefer_local_build d,
          ld_required_system_features = drv_required_system_features d, ld_is_fod = drv_is_fod d,
          ld_build_state = convert_build_state_back (drv_build_state d), ld_output_size = drv_output_size d,
          ld_closure_size = drv_closure_size d, ld_pname = drv_pname d, ld_version = drv_version d,
          ld_license_json = drv_license_json d, ld_maintainers_json = drv_maintainers_json d,
          ld_meta_position = drv_meta_position d, ld_broken = drv_broken d, ld_insecure = drv_insecure d \<rparr>)"

definition handle_update :: "'c node_lru \<Rightarrow> instant \<Rightarrow> DrvId \<Rightarrow> DrvBuildState \<Rightarrow> 'c Scheduler \<Rightarrow> ('c Scheduler, unit) outcome" where
  "handle_update L now d st s = and_then (call_graph L now (UpdateState d st) s) (\<lambda>s _. (s, Inr ()))"

definition missing_error :: anyhow where
  "missing_error = ''drv is missing from graph''"

definition send_recorder :: "DrvId \<Rightarrow> LocalState \<Rightarrow> 'c Scheduler \<Rightarrow> 'c Scheduler" where
  "send_recorder drv st s = s\<lparr>sc_recorder := ch_send \<lparr> rt_derivation = drv, rt_result = st \<rparr> (sc_recorder s)\<rparr>"

definition offer_build :: "BuildRequest \<Rightarrow> 'c Scheduler \<Rightarrow> 'c Scheduler" where
  "offer_build r s = s\<lparr>sc_builds := ch_offer r (sc_builds s)\<rparr>"

definition handle_check_buildable_task ::
  "'c node_lru \<Rightarrow> instant \<Rightarrow> (string list \<times> string list) list \<Rightarrow> DrvId \<Rightarrow> 'c Scheduler \<Rightarrow> ('c Scheduler, unit) outcome" where
  "handle_check_buildable_task L now builder_features drv_id s =
     (case to_shared_drv_id drv_id of
        Inl e \<Rightarrow> (s, Inl e)
      | Inr shared_id \<Rightarrow>
          if \<not> handle_is_buildable (sc_view s) shared_id then (s, Inr ())
          else case handle_get_node (sc_view s) shared_id of
            None \<Rightarrow> (s, Inl missing_error)
          | Some cached_node \<Rightarrow>
              if \<not> can_build builder_features (cn_required_system_features cached_node)
              then (send_recorder drv_id LocalUnsatisfiableRequirements s, Inr ())
              else and_then
                (if cn_build_state cached_node \<noteq> FailedRetry then handle_update L now shared_id Buildable s
                 else (s, Inr ()))
                (\<lambda>s _. case to_server_drv (to_drv cached_node) of
                    Inl e \<Rightarrow> (s, Inl e)
                  | Inr server_drv \<Rightarrow> (offer_build server_drv s, Inr ())))"

definition sweep_candidates :: "view \<Rightarrow> DrvId list" where
  "sweep_candidates v =
     map fst (filter (\<lambda>(d, c). (cn_build_state c = Queued \<and> handle_is_buildable v d) \<or> cn_build_state c = Buildable) v)"

definition sweep_one ::
  "'c node_lru \<Rightarrow> instant \<Rightarrow> (string list \<times> string list) list \<Rightarrow> DrvId \<Rightarrow> 'c Scheduler \<Rightarrow> 'c Scheduler" where
  "sweep_one L now builder_features shared_id s =
     (case to_server_drv_id shared_id of
        Inl _ \<Rightarrow> s
      | Inr server_id \<Rightarrow> fst (handle_check_buildable_task L now builder_features server_id s))"

definition sweep_buildable_drvs ::
  "'c node_lru \<Rightarrow> instant \<Rightarrow> (string list \<times> string list) list \<Rightarrow> 'c Scheduler \<Rightarrow> 'c Scheduler" where
  "sweep_buildable_drvs L now builder_features s =
     fold (sweep_one L now builder_features) (sweep_candidates (sc_view s)) s"

section \<open>Builder threads\<close>

text \<open>What \<open>loop_for_builds\<close> does with a request: skip it when the drv is already finished, mark it as
  building otherwise.  The second component says whether a build is started.\<close>

definition start_build :: "BuildRequest \<Rightarrow> 'c Scheduler \<Rightarrow> 'c Scheduler \<times> bool" where
  "start_build req s =
     (case to_shared_drv_id (ld_drv_path req) of
        Inl _ \<Rightarrow> (s, True)
      | Inr shared_id \<Rightarrow>
          if (case handle_get_build_state (sc_view s) shared_id of None \<Rightarrow> False | Some st \<Rightarrow> is_terminal st)
          then (s, False)
          else (offer_command (UpdateState shared_id (convert_build_state LocalBuilding))
                  (set_shared_state shared_id (convert_build_state LocalBuilding) s), True))"

datatype BuildOutcome =
    OutcomeSuccess
  | OutcomeFailure "int option" string
  | OutcomeTimeout
  | OutcomeAbsoluteTimeout

text \<open>The loop of \<open>build_drv_with_logging\<close>: events of the child, each a line of output or its exit,
  race against a deadline that every line moves and one that nothing moves.\<close>

datatype watch_result = ChildExited | QuietTimeout | AbsoluteTimeout

fun watch_build :: "duration \<Rightarrow> instant \<Rightarrow> instant \<Rightarrow> (instant \<times> bool) list \<Rightarrow> instant \<times> watch_result" where
  "watch_build quiet timeout absolute events =
     (case events of
        (t, exited) # es \<Rightarrow>
          if t \<le> timeout \<and> t \<le> absolute
          then if exited then (t, ChildExited) else watch_build quiet (t + int quiet) absolute es
          else if timeout \<le> absolute then (timeout, QuietTimeout) else (absolute, AbsoluteTimeout)
      | [] \<Rightarrow> if timeout \<le> absolute then (timeout, QuietTimeout) else (absolute, AbsoluteTimeout))"

declare watch_build.simps [simp del]

definition build_drv_with_logging ::
  "nat \<Rightarrow> nat \<Rightarrow> instant \<Rightarrow> (instant \<times> bool) list \<Rightarrow> int option \<Rightarrow> string \<Rightarrow> instant \<times> BuildOutcome" where
  "build_drv_with_logging no_output_timeout_seconds max_duration_seconds spawn_time events status stderr_tail =
     (case watch_build (from_secs no_output_timeout_seconds)
             (spawn_time + int (from_secs no_output_timeout_seconds))
             (spawn_time + int (from_secs max_duration_seconds)) events of
        (t, ChildExited) \<Rightarrow> (t, if status = Some 0 then OutcomeSuccess else OutcomeFailure status stderr_tail)
      | (t, QuietTimeout) \<Rightarrow> (t, OutcomeTimeout)
      | (t, AbsoluteTimeout) \<Rightarrow> (t, OutcomeAbsoluteTimeout))"

definition report_to_breaker ::
  "instant \<Rightarrow> bool \<Rightarrow> string \<Rightarrow> BuildOutcome \<Rightarrow> CircuitBreakerRegistry \<Rightarrow> CircuitBreakerRegistry" where
  "report_to_breaker now is_remote builder_name result reg =
     (if \<not> is_remote then reg
      else case result of
        OutcomeSuccess \<Rightarrow> registry_record_success builder_name reg
      | OutcomeFailure exit_code stderr_tail \<Rightarrow>
          if is_connection_failure exit_code stderr_tail then fst (registry_record_failure now builder_name reg) else reg
      | _ \<Rightarrow> reg)"

text \<open>\<open>exists\<close>, \<open>reconstituted\<close> and \<open>built\<close> are what the file check, the reconstitution and the
  build itself return.\<close>

definition perform_build ::
  "instant \<Rightarrow> bool \<Rightarrow> string \<Rightarrow> bool \<Rightarrow> (anyhow, bool) result \<Rightarrow> (anyhow, BuildOutcome) result
    \<Rightarrow> CircuitBreakerRegistry \<Rightarrow> CircuitBreakerRegistry \<times> LocalState" where
  "perform_build now is_remote builder_name exists reconstituted built reg =
     (if \<not> exists \<and> reconstituted \<noteq> Inr True then (reg, LocalInterrupted LocalProcessDeath)
      else case built of
        Inl _ \<Rightarrow> (reg, LocalInterrupted LocalProcessDeath)
      | Inr result \<Rightarrow>
          (report_to_breaker now is_remote builder_name result reg,
           case result of
             OutcomeSuccess \<Rightarrow> LocalCompleted LocalSuccess
           | OutcomeFailure _ _ \<Rightarrow> LocalCompleted LocalFailure
           | OutcomeTimeout \<Rightarrow> LocalInterrupted LocalTimeout
           | OutcomeAbsoluteTimeout \<Rightarrow> LocalInterrupted LocalTimeout))"

definition attempt_build :: "DrvId \<Rightarrow> LocalState \<Rightarrow> 'c Scheduler \<Rightarrow> 'c Scheduler" where
  "attempt_build drv_id build_state s = send_recorder drv_id build_state s"

end
