(* ===== verification/Build_Pool.thy ===== *)
theory Build_Pool
  imports Build_Queue
begin

text \<open>
  The loop that hands the requests of a pool to its builders (\<open>loop_builds\<close> in
  \<open>server/src/scheduler/build/system_queue.rs\<close>).  The loop buffers everything it
  receives, picks the builders that can take the oldest request and whose
  breaker lets them, and waits until one of them has a free slot.  Builder
  threads, the sender of the pool and the threads that report build results to
  the breakers run in between.
\<close>

section \<open>The loop\<close>

record BuilderChannel =
  bc_builder_name :: string
  bc_remote_uri :: "string option"
  bc_supported_features :: "string list"
  bc_mandatory_features :: "string list"
  bc_channel :: "BuildRequest channel"

definition builder_channel :: "Builder \<Rightarrow> BuilderChannel" where
  "builder_channel b =
     \<lparr> bc_builder_name = bd_builder_name b, bc_remote_uri = bd_remote_uri b,
       bc_supported_features = bd_supported_features b, bc_mandatory_features = bd_mandatory_features b,
       bc_channel = ch_new (bd_max_jobs b) \<rparr>"

definition channel_accepts :: "BuilderChannel \<Rightarrow> BuildRequest \<Rightarrow> bool" where
  "channel_accepts bc job =
     builder_accepts (bc_supported_features bc) (bc_mandatory_features bc)
       (required_features (ld_required_system_features job))"

text \<open>The clock readings made for a builder: by \<open>is_available\<close>, and by the two locked sections of
  \<open>try_recover\<close>.\<close>

type_synonym readings = "string \<Rightarrow> instant \<times> instant \<times> instant"

fun compatible_builders ::
  "(string \<Rightarrow> bool) \<Rightarrow> readings \<Rightarrow> BuildRequest \<Rightarrow> BuilderChannel list \<Rightarrow> nat \<Rightarrow> CircuitBreakerRegistry
    \<Rightarrow> CircuitBreakerRegistry \<times> nat list" where
  "compatible_builders ping clock job [] i r = (r, [])"
| "compatible_builders ping clock job (bc # bcs) i r =
     (if \<not> channel_accepts bc job then compatible_builders ping clock job bcs (Suc i) r
      else case bc_remote_uri bc of
        None \<Rightarrow> map_prod id ((#) i) (compatible_builders ping clock job bcs (Suc i) r)
      | Some uri \<Rightarrow>
          (case clock (bc_builder_name bc) of (t1, t2, t3) \<Rightarrow>
             if registry_is_available t1 (bc_builder_name bc) r
             then map_prod id ((#) i) (compatible_builders ping clock job bcs (Suc i) r)
             else case try_recover t2 t3 (bc_builder_name bc) (ping uri) r of
               (r', True) \<Rightarrow> map_prod id ((#) i) (compatible_builders ping clock job bcs (Suc i) r')
             | (r', False) \<Rightarrow> compatible_builders ping clock job bcs (Suc i) r'))"

text \<open>\<open>Reserving cs\<close>: the inner loop, which tries the builders \<open>cs\<close> in turn.  \<open>pl_arrived\<close> and
  \<open>pl_dispatched\<close> record what was sent to the pool and which builder got it.\<close>

datatype PoolPhase = Scanning | Reserving "nat list"

record PoolLoop =
  pl_phase :: PoolPhase
  pl_receiver :: "BuildRequest channel"
  pl_buffer :: "BuildRequest list"
  pl_channels :: "BuilderChannel list"
  pl_registry :: CircuitBreakerRegistry
  pl_arrived :: "BuildRequest list"
  pl_dispatched :: "(nat \<times> BuildRequest) list"

definition pool_start :: "Builder list \<Rightarrow> CircuitBreakerRegistry \<Rightarrow> PoolLoop" where
  "pool_start builders r =
     \<lparr> pl_phase = Scanning, pl_receiver = ch_new 100, pl_buffer = [], pl_channels = map builder_channel builders,
       pl_registry = r, pl_arrived = [], pl_dispatched = [] \<rparr>"

definition free_builder :: "PoolLoop \<Rightarrow> nat list \<Rightarrow> nat option" where
  "free_builder s cs = find (\<lambda>i. ch_has_room (bc_channel (pl_channels s ! i))) cs"

definition push_request :: "BuildRequest \<Rightarrow> BuilderChannel \<Rightarrow> BuilderChannel" where
  "push_request job bc = bc\<lparr>bc_channel := (bc_channel bc)\<lparr>ch_items := ch_items (bc_channel bc) @ [job]\<rparr>\<rparr>"

inductive pool_step :: "PoolLoop \<Rightarrow> PoolLoop \<Rightarrow> bool" where
  buffer: "pl_phase s = Scanning \<Longrightarrow> ch_try_recv (pl_receiver s) = Some (r, rx) \<Longrightarrow>
    pool_step s (s\<lparr>pl_receiver := rx, pl_buffer := pl_buffer s @ [r]\<rparr>)"
| scan: "pl_phase s = Scanning \<Longrightarrow> ch_try_recv (pl_receiver s) = None \<Longrightarrow> pl_buffer s = job # rest \<Longrightarrow>
    compatible_builders ping clock job (pl_channels s) 0 (pl_registry s) = (reg, cs) \<Longrightarrow>
    pool_step s (s\<lparr>pl_phase := Reserving cs, pl_registry := reg\<rparr>)"
| grant: "pl_phase s = Reserving cs \<Longrightarrow> free_builder s cs = Some i \<Longrightarrow> pl_buffer s = job # rest \<Longrightarrow>
    pool_step s (s\<lparr>pl_phase := Scanning, pl_buffer := rest,
      pl_channels := (pl_channels s)[i := push_request job (pl_channels s ! i)],
      pl_dispatched := pl_dispatched s @ [(i, job)]\<rparr>)"
| buffer_waiting: "pl_phase s = Reserving cs \<Longrightarrow> free_builder s cs = None \<Longrightarrow>
    ch_try_recv (pl_receiver s) = Some (r, rx) \<Longrightarrow>
    pool_step s (s\<lparr>pl_receiver := rx, pl_buffer := pl_buffer s @ [r]\<rparr>)"
| arrive: "ch_try_send r (pl_receiver s) = Some tx \<Longrightarrow>
    pool_step s (s\<lparr>pl_receiver := tx, pl_arrived := pl_arrived s @ [r]\<rparr>)"
| take: "i < length (pl_channels s) \<Longrightarrow> ch_try_recv (bc_channel (pl_channels s ! i)) = Some (r, ch) \<Longrightarrow>
    pool_step s (s\<lparr>pl_channels := (pl_channels s)[i := (pl_channels s ! i)\<lparr>bc_channel := ch\<rparr>]\<rparr>)"
| build_failed: "pool_step s (s\<lparr>pl_registry := fst (registry_record_failure now name (pl_registry s))\<rparr>)"
| build_succeeded: "pool_step s (s\<lparr>pl_registry := registry_record_success name (pl_registry s)\<rparr>)"

inductive pool_steps :: "PoolLoop \<Rightarrow> PoolLoop \<Rightarrow> bool" where
  refl: "pool_steps s s"
| step: "pool_steps s s' \<Longrightarrow> pool_step s' s'' \<Longrightarrow> pool_steps s s''"

section \<open>Invariant\<close>

lemma compatible_builders_sound:
  assumes "compatible_builders ping clock job bcs i r = (r', cs)"
  shows "\<forall>c\<in>set cs. i \<le> c \<and> c - i < length bcs \<and> channel_accepts (bcs ! (c - i)) job"
  using assms
proof (induction bcs arbitrary: i r cs)
  case (Cons bc bcs)
  have shift: "c = i \<or> Suc i \<le> c \<Longrightarrow> \<forall>c\<in>set cs'. Suc i \<le> c \<and> c - Suc i < length bcs \<and> channel_accepts (bcs ! (c - Suc i)) job
      \<Longrightarrow> c \<in> set cs' \<Longrightarrow> i \<le> c \<and> c - i < length (bc # bcs) \<and> channel_accepts ((bc # bcs) ! (c - i)) job" for c cs'
    by (auto simp: nth_Cons' Suc_diff_Suc)
  obtain r1 cs1 where rest: "compatible_builders ping clock job bcs (Suc i) r1 = (r', cs1)"
    "cs = cs1 \<or> cs = i # cs1 \<and> channel_accepts bc job"
    using Cons.prems by (auto split: if_splits option.splits prod.splits bool.splits simp: map_prod_def)
  then show ?case using Cons.IH[OF rest(1)] shift by (fastforce simp: Suc_le_eq)
qed simp

text \<open>A builder that accepts the request and is left out has a breaker that is neither available nor
  recovers.\<close>

lemma compatible_builders_none:
  assumes "\<forall>bc\<in>set bcs. channel_accepts bc job \<longrightarrow> (\<exists>uri t1 t2 t3 b at. bc_remote_uri bc = Some uri \<and>
      clock (bc_builder_name bc) = (t1, t2, t3) \<and> r (bc_builder_name bc) = Some b \<and> bb_state b = Open at \<and> t1 < at \<and> t2 < at)"
  shows "compatible_builders ping clock job bcs i r = (r, [])"
  using assms
proof (induction bcs arbitrary: i)
  case (Cons bc bcs)
  have rest: "compatible_builders ping clock job bcs (Suc i) r = (r, [])" using Cons by simp
  show ?case
  proof (cases "channel_accepts bc job")
    case True
    with Cons.prems obtain uri t1 t2 t3 b at where h: "bc_remote_uri bc = Some uri"
      "clock (bc_builder_name bc) = (t1, t2, t3)" "r (bc_builder_name bc) = Some b" "bb_state b = Open at"
      "t1 < at" "t2 < at" by auto
    then have "\<not> registry_is_available t1 (bc_builder_name bc) r"
      "try_recover t2 t3 (bc_builder_name bc) (ping uri) r = (r, False)"
      by (auto simp: registry_is_available_def breaker_is_available_def try_recover_def try_recover_begin_def
          try_half_open_def map_upd_triv)
    then show ?thesis using True h rest by simp
  qed (use rest in simp)
qed simp

lemma accepts_push_request [simp]: "channel_accepts (push_request job bc) r = channel_accepts bc r"
  by (simp add: channel_accepts_def push_request_def)

lemma accepts_set_channel [simp]: "channel_accepts (bc\<lparr>bc_channel := ch\<rparr>) r = channel_accepts bc r"
  by (simp add: channel_accepts_def)

lemma accepts_list_update [simp]:
  "(\<And>r. channel_accepts bc' r = channel_accepts (bcs ! i) r) \<Longrightarrow> channel_accepts (bcs[i := bc'] ! j) r = channel_accepts (bcs ! j) r"
  by (cases "i < length bcs") (auto simp: nth_list_update list_update_beyond)

definition can_take :: "PoolLoop \<Rightarrow> BuildRequest \<Rightarrow> nat \<Rightarrow> bool" where
  "can_take s job i = (i < length (pl_channels s) \<and> channel_accepts (pl_channels s ! i) job)"

definition pool_ok :: "PoolLoop \<Rightarrow> bool" where
  "pool_ok s = (pl_arrived s = map snd (pl_dispatched s) @ pl_buffer s @ ch_items (pl_receiver s) \<and>
     (\<forall>cs. pl_phase s = Reserving cs \<longrightarrow> pl_buffer s \<noteq> [] \<and> (\<forall>i\<in>set cs. can_take s (hd (pl_buffer s)) i)) \<and>
     (\<forall>(i, job)\<in>set (pl_dispatched s). can_take s job i))"

lemma pool_ok_start: "pool_ok (pool_start builders r)"
  by (simp add: pool_ok_def pool_start_def ch_new_def)

lemma pool_ok_step:
  assumes "pool_step s s'" "pool_ok s"
  shows "pool_ok s'"
  using assms(1)
proof (cases rule: pool_step.cases)
  case (scan job rest ping clock reg cs)
  then show ?thesis using assms(2) compatible_builders_sound[OF scan(5)]
    by (auto simp: pool_ok_def can_take_def)
next
  case (grant cs i job rest)
  have "i \<in> set cs" using grant(3) by (auto simp: free_builder_def find_Some_iff)
  then show ?thesis using assms(2) grant by (auto simp: pool_ok_def can_take_def)
next
  case (take i r ch)
  then show ?thesis using assms(2) by (auto simp: pool_ok_def can_take_def)
qed (use assms(2) in \<open>auto simp: pool_ok_def can_take_def ch_try_recv_Some ch_try_send_Some\<close>)

lemma pool_ok_steps: "pool_steps s s' \<Longrightarrow> pool_ok s \<Longrightarrow> pool_ok s'"
  by (induction rule: pool_steps.induct) (auto intro: pool_ok_step)

lemma channels_fixed_step:
  assumes "pool_step s s'"
  shows "length (pl_channels s') = length (pl_channels s) \<and>
    (\<forall>i job. channel_accepts (pl_channels s' ! i) job = channel_accepts (pl_channels s ! i) job)"
  using assms by (cases rule: pool_step.cases) auto

lemma channels_fixed:
  "pool_steps s s' \<Longrightarrow> length (pl_channels s') = length (pl_channels s) \<and>
    (\<forall>i job. channel_accepts (pl_channels s' ! i) job = channel_accepts (pl_channels s ! i) job)"
  by (induction rule: pool_steps.induct) (auto dest: channels_fixed_step)

section \<open>Properties\<close>

text \<open>C14: The requests sent to a pool are handed to its builders in the order they came, each exactly
  once, and only to a builder that has every feature the request needs and whose
  mandatory features it asks for; the rest waits in the buffer and in the channel.\<close>

theorem pool_dispatch_sound:
  assumes "pool_steps (pool_start builders registry) s"
  shows "pl_arrived s = map snd (pl_dispatched s) @ pl_buffer s @ ch_items (pl_receiver s) \<and>
    (\<forall>i job. (i, job) \<in> set (pl_dispatched s) \<longrightarrow> i < length builders \<and>
      (let required = required_features (ld_required_system_features job)
       in set required \<subseteq> set (bd_supported_features (builders ! i)) \<and>
          (bd_mandatory_features (builders ! i) = [] \<or>
           set required \<inter> set (bd_mandatory_features (builders ! i)) \<noteq> {})))"
proof -
  have ok: "pool_ok s" by (rule pool_ok_steps[OF assms pool_ok_start])
  have "i < length builders \<and> channel_accepts (builder_channel (builders ! i)) job"
    if "(i, job) \<in> set (pl_dispatched s)" for i job
    using ok that channels_fixed[OF assms] by (auto simp: pool_ok_def can_take_def pool_start_def)
  then show ?thesis using ok
    by (fastforce simp: pool_ok_def channel_accepts_def builder_accepts_def builder_channel_def Let_def
        list_all_iff list_ex_iff split: if_splits)
qed

lemma pool_then: "pool_steps s s' \<Longrightarrow> pool_step s' s'' \<Longrightarrow> t = s'' \<Longrightarrow> pool_steps s t"
  using pool_steps.step by simp

definition demo_pool_start :: PoolLoop where
  "demo_pool_start = pool_start [demo_builder ''l'' True []] Map.empty"

definition demo_pool_end :: PoolLoop where
  "demo_pool_end = demo_pool_start
     \<lparr>pl_channels := [push_request (demo_request demo_id_a ''x86'') (builder_channel (demo_builder ''l'' True []))],
      pl_arrived := [demo_request demo_id_a ''x86''],
      pl_dispatched := [(0, demo_request demo_id_a ''x86'')]\<rparr>"

lemmas demo_pool_simps = demo_pool_start_def demo_pool_end_def pool_start_def builder_channel_def channel_accepts_def
  demo_platform_simps ch_new_def ch_try_send_def ch_try_recv_def ch_has_room_def free_builder_def push_request_def

lemma demo_pool_runs: "pool_steps demo_pool_start demo_pool_end"
proof -
  let ?R = "pool_steps demo_pool_start" and ?a = "demo_request demo_id_a ''x86''"
  let ?s1 = "demo_pool_start\<lparr>pl_receiver := \<lparr> ch_capacity = 100, ch_items = [?a] \<rparr>, pl_arrived := [?a]\<rparr>"
  let ?s2 = "demo_pool_start\<lparr>pl_buffer := [?a], pl_arrived := [?a]\<rparr>"
  let ?s3 = "?s2\<lparr>pl_phase := Reserving [0]\<rparr>"
  have "?R ?s1"
    by (rule pool_then[OF pool_steps.refl pool_step.arrive[of ?a _ "pl_receiver ?s1"]]) (simp_all add: demo_pool_simps)
  then have "?R ?s2"
    by (rule pool_then[OF _ pool_step.buffer[of _ ?a "ch_new 100"]]) (simp_all add: demo_pool_simps)
  then have "?R ?s3"
    by (rule pool_then[OF _ pool_step.scan[of _ ?a "[]" "\<lambda>_. False" "\<lambda>_. (0, 0, 0)" Map.empty "[0]"]])
      (simp_all add: demo_pool_simps)
  then show ?thesis
    by (rule pool_then[OF _ pool_step.grant[of _ "[0]" 0 ?a "[]"]]) (simp_all add: demo_pool_simps)
qed

theorem pool_dispatch_sound_witness:
  "pl_dispatched demo_pool_end = [(0, demo_request demo_id_a ''x86'')] \<and>
   pl_arrived demo_pool_end = map snd (pl_dispatched demo_pool_end) @ pl_buffer demo_pool_end"
  using pool_dispatch_sound[of "[demo_builder ''l'' True []]" Map.empty demo_pool_end] demo_pool_runs
  by (simp add: demo_pool_start_def demo_pool_end_def pool_start_def ch_new_def)

lemma starving_step:
  assumes "pool_step s s'" "pl_phase s = Reserving []"
  shows "pl_phase s' = Reserving [] \<and> pl_dispatched s' = pl_dispatched s \<and> prefix (pl_buffer s) (pl_buffer s')"
  using assms by (cases rule: pool_step.cases) (auto simp: free_builder_def)

lemma starving_steps:
  assumes "pool_steps s s'" "pl_phase s = Reserving []"
  shows "pl_phase s' = Reserving [] \<and> pl_dispatched s' = pl_dispatched s \<and> prefix (pl_buffer s) (pl_buffer s')"
  using assms
proof (induction rule: pool_steps.induct)
  case (step s s' s'')
  then show ?case using starving_step[OF step.hyps(2)] by auto
qed simp

text \<open>The candidates for a request are chosen once.  When every builder that has the features of
  the oldest request is out of service at that moment, or no builder has them, the loop
  waits for ever: whatever happens afterwards, even when all builders are back in service
  and idle, neither that request nor any later one is handed out.\<close>

theorem pool_stuck_without_candidates:
  assumes "pl_phase s = Scanning" "ch_items (pl_receiver s) = []" "pl_buffer s = job # rest"
    and "\<forall>bc\<in>set (pl_channels s). channel_accepts bc job \<longrightarrow> (\<exists>uri b at. bc_remote_uri bc = Some uri \<and>
      pl_registry s (bc_builder_name bc) = Some b \<and> bb_state b = Open at \<and> now < at)"
  shows "\<exists>s1. pool_step s s1 \<and> (\<forall>s'. pool_steps s1 s' \<longrightarrow>
      pl_dispatched s' = pl_dispatched s \<and> prefix (job # rest) (pl_buffer s'))"
proof -
  let ?s1 = "s\<lparr>pl_phase := Reserving []\<rparr>"
  have "compatible_builders (\<lambda>_. False) (\<lambda>_. (now, now, now)) job (pl_channels s) 0 (pl_registry s) = (pl_registry s, [])"
    by (rule compatible_builders_none) (use assms(4) in fastforce)
  from pool_step.scan[OF assms(1) _ assms(3) this] have "pool_step s ?s1"
    using assms(2) by (simp add: ch_try_recv_def)
  moreover have "pl_dispatched s' = pl_dispatched s \<and> prefix (job # rest) (pl_buffer s')" if "pool_steps ?s1 s'" for s'
    using starving_steps[OF that] assms(3) by simp
  ultimately show ?thesis by blast
qed

definition demo_tripped_pool :: PoolLoop where
  "demo_tripped_pool = (pool_start [demo_builder ''r'' False [''kvm'']]
       [''r'' \<mapsto> \<lparr> bb_state = Open 100, bb_recent_failures = [1, 2, 3], bb_backoff = from_secs 30 \<rparr>])
     \<lparr>pl_buffer := [demo_request demo_id_a ''x86'', demo_request demo_id_b ''x86'']\<rparr>"

theorem pool_stuck_without_candidates_witness:
  "\<exists>s1. pool_step demo_tripped_pool s1 \<and> (\<forall>s'. pool_steps s1 s' \<longrightarrow> pl_dispatched s' = [])"
proof -
  have "pl_dispatched demo_tripped_pool = []" by (simp add: demo_tripped_pool_def pool_start_def)
  then show ?thesis
    using pool_stuck_without_candidates[of demo_tripped_pool "demo_request demo_id_a ''x86''"
        "[demo_request demo_id_b ''x86'']" 50]
    by (fastforce simp: demo_tripped_pool_def demo_pool_simps)
qed

text \<open>The orphan check looks at all builders of the platform, the routing at the kind of the request.
  A fixed-output derivation that needs a feature which only another builder of the platform
  has passes the check and goes to the pool of the dedicated builder, none of whose
  builders accepts it.\<close>

theorem orphan_check_ignores_routing:
  assumes "pq_fod_builder q = Some fod" "pq_local_builder q \<noteq> None \<or> pq_builders q \<noteq> []" "ld_is_fod work"
    and "feature \<in> set (required_features (ld_required_system_features work))"
    and "feature \<notin> set (bd_supported_features fod)"
    and "other \<in> set (pool_builders q LocalPool) \<union> set (pool_builders q RemotePool)"
    and "builder_accepts (bd_supported_features other) (bd_mandatory_features other)
      (required_features (ld_required_system_features work))"
  shows "loop_all_builds_step q work = Routed FodPool \<and>
    (\<forall>b\<in>set (pool_builders q FodPool). \<not> channel_accepts (builder_channel b) work)"
proof
  have "can_handle_drv q work" using assms(6,7)
    by (auto simp: can_handle_drv_def all_builder_features_def pool_builders_def list_ex_iff split: option.splits)
  then show "loop_all_builds_step q work = Routed FodPool"
    using assms(1-3) by (auto simp: loop_all_builds_step_def route_def Let_def)
  show "\<forall>b\<in>set (pool_builders q FodPool). \<not> channel_accepts (builder_channel b) work"
    using assms(1,4,5)
    by (auto simp: pool_builders_def channel_accepts_def builder_channel_def builder_accepts_def list_all_iff)
qed

theorem orphan_check_ignores_routing_witness:
  "loop_all_builds_step demo_platform
     ((demo_request demo_id_a ''x86'')\<lparr>ld_is_fod := True, ld_required_system_features := Some ''kvm''\<rparr>) =
   Routed FodPool"
proof -
  let ?w = "(demo_request demo_id_a ''x86'')\<lparr>ld_is_fod := True, ld_required_system_features := Some ''kvm''\<rparr>"
  show ?thesis
    using orphan_check_ignores_routing[of demo_platform "demo_builder ''f'' True []" ?w "''kvm''"
        "demo_builder ''r'' False [''kvm'']"]
    by (simp add: demo_platform_simps)
qed

end
