(* ===== verification/Scheduler_Props.thy ===== *)
theory Scheduler_Props
  imports Ingress Build_Pool
begin

text \<open>
  Properties of the scheduler's loop: ingress, builder threads and recorder over
  the graph service and its database.
\<close>

section \<open>Lemmas\<close>

lemma and_then_simps [simp]:
  "and_then (s, Inl e) f = (s, Inl e)" "and_then (s, Inr x) f = f s x"
  by (simp_all add: and_then_def)

lemma to_shared_id: "valid_drv_id d \<Longrightarrow> to_shared_drv_id d = Inr d"
  by (simp add: to_shared_drv_id_def DrvId_from_str_def try_from_id)

lemma to_server_id: "valid_drv_id d \<Longrightarrow> to_server_drv_id d = Inr d"
  by (simp add: to_server_drv_id_def local_try_from_eq try_from_id)

lemma set_db_simps [simp]:
  "sc_service (set_db db s) = (sc_service s)\<lparr>gs_db := db\<rparr>" "sc_count (set_db db s) = sc_count s"
  "sc_commands (set_db db s) = sc_commands s" "sc_ingress (set_db db s) = sc_ingress s"
  "sc_builds (set_db db s) = sc_builds s" "sc_recorder (set_db db s) = sc_recorder s"
  by (simp_all add: set_db_def)

lemma set_shared_state_simps [simp]:
  "sc_db (set_shared_state d st s) = sc_db s" "sc_view (set_shared_state d st s) = set_view_state d st (sc_view s)"
  "sc_commands (set_shared_state d st s) = sc_commands s" "sc_ingress (set_shared_state d st s) = sc_ingress s"
  "sc_builds (set_shared_state d st s) = sc_builds s"
  by (simp_all add: set_shared_state_def)

lemma offer_command_simps [simp]:
  "sc_service (offer_command c s) = sc_service s" "sc_commands (offer_command c s) = ch_offer c (sc_commands s)"
  "sc_ingress (offer_command c s) = sc_ingress s" "sc_builds (offer_command c s) = sc_builds s"
  by (simp_all add: offer_command_def)

lemma broadcast_simps [simp]:
  "sc_service (broadcast_state_change d a b s) = sc_service s"
  "sc_commands (broadcast_state_change d a b s) = sc_commands s"
  "sc_ingress (broadcast_state_change d a b s) = sc_ingress s"
  "sc_builds (broadcast_state_change d a b s) = sc_builds s"
  by (simp_all add: broadcast_state_change_def)

lemma run_round_db_view:
  "gs_db (fst (run_round L D now cmd (g, n))) = gs_db (fst (handle_command L D now cmd g))"
  "gs_view (fst (run_round L D now cmd (g, n))) = gs_view (fst (handle_command L D now cmd g))"
  by (simp_all add: run_round_def Let_def prune_stale_tracking_entries_def)

lemma update_command_db_view:
  assumes "valid_drv_id d"
  shows "gs_db (fst (handle_command L DbService_db now (UpdateState d st) g)) =
      q_update_drv_status (gs_db g) d (convert_build_state_back st)"
    and "gs_view (fst (handle_command L DbService_db now (UpdateState d st) g)) = set_view_state d st (gs_view g)"
  using assms
  by (simp_all add: handle_update_state_def op_update_state_def Let_def case_prod_beta impl_update_drv_status_def
      local_try_from_eq try_from_id split: sum.splits)

lemma serve_update:
  assumes "ch_items (sc_commands s) = UpdateState d st # cs" "valid_drv_id d"
  shows "sc_db (serve_command L now s) = q_update_drv_status (sc_db s) d (convert_build_state_back st)"
    and "sc_view (serve_command L now s) = set_view_state d st (sc_view s)"
    and "sc_commands (serve_command L now s) = (sc_commands s)\<lparr>ch_items := cs\<rparr>"
    and "sc_ingress (serve_command L now s) = sc_ingress s" "sc_builds (serve_command L now s) = sc_builds s"
  using assms
  by (simp_all add: serve_command_def ch_try_recv_def case_prod_beta run_round_db_view update_command_db_view
      del: handle_command.simps)

lemma find_map_key:
  "(\<And>r. key (f r) = key r) \<Longrightarrow> find (\<lambda>r. key r = k) (map f rs) = map_option f (find (\<lambda>r. key r = k) rs)"
  by (induction rs) auto

lemma find_key: "find (\<lambda>r. key r = k) rs = Some r \<Longrightarrow> key r = k"
  by (auto simp: find_Some_iff)

lemma get_drv_update_status:
  "q_get_drv d (q_update_drv_status db d st) = map_option (\<lambda>r. r\<lparr>ld_build_state := st\<rparr>) (q_get_drv d db)"
proof -
  let ?f = "\<lambda>r. if ld_drv_path r = d then r\<lparr>ld_build_state := st\<rparr> else r"
  have "q_get_drv d (q_update_drv_status db d st) = map_option ?f (q_get_drv d db)"
    by (simp add: q_get_drv_def q_update_drv_status_def set_row_state_def find_map_key)
  then show ?thesis using find_key[of ld_drv_path d] by (cases "q_get_drv d db") (auto simp: q_get_drv_def)
qed

section \<open>Starting, failing and retrying a build\<close>

lemma start_build_marks:
  assumes "valid_drv_id d" "ld_drv_path req = d" "handle_get_build_state (sc_view s) d = Some st" "\<not> is_terminal st"
  shows "start_build req s = (offer_command (UpdateState d Building) (set_shared_state d Building s), True)"
  using assms by (simp add: start_build_def to_shared_id)

lemma first_failure_retries:
  assumes "valid_drv_id d" "record_state s d = Some LocalBuilding"
  shows "handle_recorder_request L now \<lparr> rt_derivation = d, rt_result = LocalCompleted LocalFailure \<rparr> s =
    (requeue d (broadcast_state_change d LocalBuilding LocalFailedRetry
      (offer_command (UpdateState d FailedRetry) (set_shared_state d FailedRetry
        (set_db (q_update_drv_status (sc_db s) d LocalFailedRetry) s)))), Inr ())"
  using assms
  by (simp add: handle_recorder_request_def record_completed_failure_def update_and_broadcast_def
      update_graph_state_def to_shared_id)

lemma to_server_drv_ok:
  "valid_drv_id (cn_drv_id c) \<Longrightarrow> \<exists>req. to_server_drv (to_drv c) = Inr req \<and> ld_drv_path req = cn_drv_id c"
  by (simp add: to_server_drv_def to_drv_def to_server_id)

lemma retry_is_sent:
  assumes "valid_drv_id d" "handle_is_buildable (sc_view s) d" "map_of (sc_view s) d = Some c"
    "cn_drv_id c = d" "cn_build_state c = FailedRetry" "can_build F (cn_required_system_features c)"
  shows "\<exists>req. ld_drv_path req = d \<and> handle_check_buildable_task L now F d s = (offer_build req s, Inr ())"
  using assms to_server_drv_ok[of c]
  by (auto simp: handle_check_buildable_task_def to_shared_id handle_get_node_def)

text \<open>One round of the loop for a drv whose build fails: a builder takes the request, the graph service
  handles the command the builder sent, the recorder handles the failure, the graph
  service handles its command, and ingress handles the re-check.\<close>

definition failing_cycle ::
  "'c node_lru \<Rightarrow> instant \<Rightarrow> (string list \<times> string list) list \<Rightarrow> 'c Scheduler \<Rightarrow> 'c Scheduler" where
  "failing_cycle L now F s =
     (case ch_try_recv (sc_builds s) of
        None \<Rightarrow> s
      | Some (req, builds) \<Rightarrow>
          let s1 = fst (start_build req (s\<lparr>sc_builds := builds\<rparr>));
              s2 = serve_command L now s1;
              s3 = fst (handle_recorder_request L now
                     \<lparr> rt_derivation = ld_drv_path req, rt_result = LocalCompleted LocalFailure \<rparr> s2);
              s4 = serve_command L now s3
          in case ch_try_recv (sc_ingress s4) of
               Some (CheckBuildable d, tasks) \<Rightarrow>
                 fst (handle_check_buildable_task L now F d (s4\<lparr>sc_ingress := tasks\<rparr>))
             | _ \<Rightarrow> s4)"

text \<open>A request for \<open>d\<close> is waiting, nothing else is under way, and \<open>d\<close> can be built.\<close>

definition build_waiting :: "(string list \<times> string list) list \<Rightarrow> DrvId \<Rightarrow> 'c Scheduler \<Rightarrow> bool" where
  "build_waiting F d s =
     (valid_drv_id d \<and> map ld_drv_path (ch_items (sc_builds s)) = [d] \<and> 0 < ch_capacity (sc_builds s) \<and>
      ch_items (sc_commands s) = [] \<and> 0 < ch_capacity (sc_commands s) \<and> ch_items (sc_ingress s) = [] \<and>
      q_get_drv d (sc_db s) \<noteq> None \<and> handle_is_buildable (sc_view s) d \<and>
      (case map_of (sc_view s) d of
         None \<Rightarrow> False
       | Some c \<Rightarrow> cn_drv_id c = d \<and> \<not> is_terminal (cn_build_state c) \<and> can_build F (cn_required_system_features c)))"

lemma set_view_state_twice [simp]: "set_view_state d st (set_view_state d st' v) = set_view_state d st v"
  by (induction v) (auto simp: set_view_state_def)

lemma buildable_set_view_state:
  assumes "handle_is_buildable v d" "map_of v d = Some c" "\<not> is_terminal (cn_build_state c)"
  shows "handle_is_buildable (set_view_state d st v) d"
proof -
  have "x \<noteq> d" if "x \<in> set (cn_dependencies c)" for x
    using assms that by (fastforce simp: handle_is_buildable_def list_all_iff split: option.splits)
  then show ?thesis
    using assms by (auto simp: handle_is_buildable_def map_of_set_view_state list_all_iff split: option.splits)
qed

lemma serve_offered:
  fixes L :: "'c node_lru" and now st
  assumes "ch_items (sc_commands s) = []" "0 < ch_capacity (sc_commands s)" "valid_drv_id d"
  defines "t \<equiv> serve_command L now (offer_command (UpdateState d st) s)"
  shows "sc_db t = q_update_drv_status (sc_db s) d (convert_build_state_back st)"
    and "sc_view t = set_view_state d st (sc_view s)" and "ch_items (sc_commands t) = []"
    and "ch_capacity (sc_commands t) = ch_capacity (sc_commands s)"
    and "sc_ingress t = sc_ingress s" "sc_builds t = sc_builds s"
proof -
  have "ch_items (sc_commands (offer_command (UpdateState d st) s)) = [UpdateState d st]"
    using assms(1,2) by (simp add: ch_items_offer ch_has_room_def)
  from serve_update[OF this assms(3)] show "sc_db t = q_update_drv_status (sc_db s) d (convert_build_state_back st)"
    and "sc_view t = set_view_state d st (sc_view s)" and "ch_items (sc_commands t) = []"
    and "ch_capacity (sc_commands t) = ch_capacity (sc_commands s)"
    and "sc_ingress t = sc_ingress s" "sc_builds t = sc_builds s"
    by (simp_all add: t_def)
qed

text \<open>The builder's half of the round, and the recorder's.\<close>

lemma builder_half:
  fixes L :: "'c node_lru" and now
  assumes "valid_drv_id d" "ld_drv_path req = d" "ch_items (sc_commands s) = []" "0 < ch_capacity (sc_commands s)"
    "map_of (sc_view s) d = Some c" "\<not> is_terminal (cn_build_state c)"
  defines "t \<equiv> serve_command L now (fst (start_build req s))"
  shows "sc_db t = q_update_drv_status (sc_db s) d LocalBuilding" "sc_view t = set_view_state d Building (sc_view s)"
    and "ch_items (sc_commands t) = []" "ch_capacity (sc_commands t) = ch_capacity (sc_commands s)"
    and "sc_ingress t = sc_ingress s" "sc_builds t = sc_builds s"
  using assms start_build_marks[of d req s "cn_build_state c"]
  by (simp_all add: t_def handle_get_build_state_def serve_offered)

lemma recorder_half:
  fixes L :: "'c node_lru" and now
  assumes d: "valid_drv_id d" and cmds: "ch_items (sc_commands s) = []" "0 < ch_capacity (sc_commands s)"
    and row: "record_state s d = Some LocalBuilding"
  defines "t \<equiv> serve_command L now (fst (handle_recorder_request L now
      \<lparr> rt_derivation = d, rt_result = LocalCompleted LocalFailure \<rparr> s))"
  shows "record_state t d = Some LocalFailedRetry" "sc_view t = set_view_state d FailedRetry (sc_view s)"
    and "ch_items (sc_commands t) = []" "ch_capacity (sc_commands t) = ch_capacity (sc_commands s)"
    and "ch_items (sc_ingress t) = ch_items (sc_ingress s) @ [CheckBuildable d]" "sc_builds t = sc_builds s"
proof -
  let ?s1 = "requeue d (broadcast_state_change d LocalBuilding LocalFailedRetry
      (offer_command (UpdateState d FailedRetry) (set_shared_state d FailedRetry
        (set_db (q_update_drv_status (sc_db s) d LocalFailedRetry) s))))"
  have t: "t = serve_command L now ?s1" by (simp add: t_def first_failure_retries[OF d row])
  have "ch_items (sc_commands ?s1) = [UpdateState d FailedRetry]"
    using cmds by (simp add: requeue_def ch_items_offer ch_has_room_def)
  note served = serve_update[OF this d, of L now, folded t]
  obtain r where "q_get_drv d (sc_db s) = Some r" using row by (auto simp: record_state_def)
  then show "record_state t d = Some LocalFailedRetry"
    using served by (simp add: requeue_def record_state_def get_drv_update_status)
  show "sc_view t = set_view_state d FailedRetry (sc_view s)" "ch_items (sc_commands t) = []"
    "ch_capacity (sc_commands t) = ch_capacity (sc_commands s)"
    "ch_items (sc_ingress t) = ch_items (sc_ingress s) @ [CheckBuildable d]" "sc_builds t = sc_builds s"
    using served by (simp_all add: requeue_def ch_send_def)
qed

lemma failing_cycle_repeats:
  assumes "build_waiting F d s"
  shows "build_waiting F d (failing_cycle L now F s) \<and> record_state (failing_cycle L now F s) d = Some LocalFailedRetry"
proof -
  obtain req c where req: "ch_items (sc_builds s) = [req]" "ld_drv_path req = d"
    and c: "map_of (sc_view s) d = Some c" "cn_drv_id c = d" "\<not> is_terminal (cn_build_state c)"
      "can_build F (cn_required_system_features c)"
    using assms by (auto simp: build_waiting_def split: option.splits)
  have w: "valid_drv_id d" "0 < ch_capacity (sc_builds s)" "ch_items (sc_commands s) = []"
      "0 < ch_capacity (sc_commands s)" "ch_items (sc_ingress s) = []" "q_get_drv d (sc_db s) \<noteq> None"
      "handle_is_buildable (sc_view s) d"
    using assms by (auto simp: build_waiting_def)
  let ?s0 = "s\<lparr>sc_builds := (sc_builds s)\<lparr>ch_items := []\<rparr>\<rparr>"
  define s2 where "s2 = serve_command L now (fst (start_build req ?s0))"
  define s4 where "s4 = serve_command L now (fst (handle_recorder_request L now
      \<lparr> rt_derivation = d, rt_result = LocalCompleted LocalFailure \<rparr> s2))"
  have s2: "sc_db s2 = q_update_drv_status (sc_db s) d LocalBuilding"
      "sc_view s2 = set_view_state d Building (sc_view s)" "ch_items (sc_commands s2) = []"
      "ch_capacity (sc_commands s2) = ch_capacity (sc_commands s)" "sc_ingress s2 = sc_ingress s"
      "sc_builds s2 = (sc_builds s)\<lparr>ch_items := []\<rparr>"
    using builder_half[of d req ?s0 c L now, folded s2_def] w c(1,3) req(2) by simp_all
  have "record_state s2 d = Some LocalBuilding"
    using w(6) by (auto simp: record_state_def s2(1) get_drv_update_status)
  from recorder_half[OF w(1) s2(3) _ this, of L now, folded s4_def]
  have s4: "record_state s4 d = Some LocalFailedRetry" "sc_view s4 = set_view_state d FailedRetry (sc_view s)"
      "ch_items (sc_commands s4) = []" "ch_capacity (sc_commands s4) = ch_capacity (sc_commands s)"
      "ch_items (sc_ingress s4) = [CheckBuildable d]" "sc_builds s4 = (sc_builds s)\<lparr>ch_items := []\<rparr>"
    using w(4,5) s2 by simp_all
  let ?s5 = "s4\<lparr>sc_ingress := (sc_ingress s4)\<lparr>ch_items := []\<rparr>\<rparr>"
  have view: "map_of (sc_view s4) d = Some (c\<lparr>cn_build_state := FailedRetry\<rparr>)" "handle_is_buildable (sc_view s4) d"
    using c(1) buildable_set_view_state[OF w(7) c(1,3)] by (simp_all add: s4(2) map_of_set_view_state)
  obtain req' where req': "ld_drv_path req' = d"
      "handle_check_buildable_task L now F d ?s5 = (offer_build req' ?s5, Inr ())"
    using retry_is_sent[of d ?s5 "c\<lparr>cn_build_state := FailedRetry\<rparr>" F L now] w(1) view c by auto
  have "failing_cycle L now F s = offer_build req' ?s5"
    using req s4(5) req'(2)
    by (simp add: failing_cycle_def ch_try_recv_def Let_def s2_def[symmetric] s4_def[symmetric])
  moreover have "q_get_drv d (sc_db s4) \<noteq> None" using s4(1) by (auto simp: record_state_def)
  ultimately show ?thesis
    using w c s4 view req'(1)
    by (auto simp: build_waiting_def offer_build_def ch_items_offer ch_has_room_def record_state_def)
qed

section \<open>Recording a success\<close>

lemma dependents_set_view_state [simp]:
  "get_dependents_from_view (set_view_state d st v) x = get_dependents_from_view v x"
  by (induction v) (auto simp: get_dependents_from_view_def set_view_state_def)

lemma dependents_fold_set_view_state [simp]:
  "get_dependents_from_view (fold (\<lambda>b. set_view_state b st) bs v) x = get_dependents_from_view v x"
  by (induction bs arbitrary: v) simp_all


lemma failure_map_update_state [simp]: "transitive_failure_map (update_state L now d st g) = transitive_failure_map g"
  by (auto simp: update_state_def Let_def split: option.splits DrvBuildState.splits DrvBuildResult.splits)








lemma get_drv_clear [simp]: "q_get_drv d (fst (q_clear_transitive_failures f db)) = q_get_drv d db"
  by (simp add: q_get_drv_def q_clear_transitive_failures_def)


section \<open>A scheduler to try the properties on\<close>

definition demo_cached :: "DrvId \<Rightarrow> DrvBuildState \<Rightarrow> DrvId list \<Rightarrow> CachedNode" where
  "demo_cached d st deps =
     \<lparr> cn_drv_id = d, cn_system = ''x86_64-linux'', cn_required_system_features = None, cn_is_fod = False,
       cn_build_state = st, cn_dependencies = deps \<rparr>"

definition demo_scheduler :: "nat \<Rightarrow> (DrvId, GraphNode) list_lru Scheduler" where
  "demo_scheduler commands =
     \<lparr> sc_service = \<lparr> gs_graph = demo_g0,
         gs_view = [(demo_id_a, demo_cached demo_id_a (Completed Success) []),
                    (demo_id_b, demo_cached demo_id_b Buildable [demo_id_a])],
         gs_db = demo_tables, gs_last_accessed = Map.empty, gs_ref_counts = Map.empty, gs_last_dry_run_check = 0 \<rparr>,
       sc_count = 0, sc_commands = ch_new commands, sc_ingress = ch_new 10,
       sc_builds = \<lparr> ch_capacity = 10, ch_items = [demo_row demo_id_b LocalBuildable] \<rparr>, sc_recorder = ch_new 10,
       sc_changes = [], sc_post_build = [] \<rparr>"


lemmas demo_scheduler_simps = demo_scheduler_def demo_cached_def demo_tables_def ch_new_def demo_neq demo_ids_valid
  record_state_def q_get_drv_def demo_row_def

lemma demo_build_waiting: "build_waiting [] demo_id_b (demo_scheduler 10)"
  by (simp add: build_waiting_def handle_is_buildable_def can_build_def required_features_def demo_scheduler_simps)

section \<open>Properties\<close>

text \<open>A build that keeps failing is retried for ever.  When a request is waiting for a drv that can be
  built, any number of failing rounds of builder, recorder and ingress leaves the drv in
  the retry state with its next request waiting: the builder marks it as building again
  before every attempt, so the recorder always sees a first failure.\<close>

theorem retry_budget_never_spent:
  assumes "build_waiting F d s"
  shows "build_waiting F d ((failing_cycle L now F ^^ n) s) \<and>
    (0 < n \<longrightarrow> record_state ((failing_cycle L now F ^^ n) s) d = Some LocalFailedRetry)"
  using assms by (induction n) (auto simp: failing_cycle_repeats)

theorem retry_budget_never_spent_witness:
  "record_state ((failing_cycle list_lru 0 [] ^^ 100) (demo_scheduler 10)) demo_id_b = Some LocalFailedRetry"
  using retry_budget_never_spent[OF demo_build_waiting, of 100 list_lru 0] by simp



text \<open>A drv that has reached a final state is not touched by late results: for a failure, an
  interruption, an unsatisfiable requirement or any other state but success, the recorder
  leaves everything as it is.\<close>

theorem finished_drv_ignores_late_results:
  assumes "record_state s d = Some st" "local_is_terminal st" "result \<noteq> LocalCompleted LocalSuccess"
  shows "handle_recorder_request L now \<lparr> rt_derivation = d, rt_result = result \<rparr> s = (s, Inr ())"
  using assms
  by (auto simp: handle_recorder_request_def record_completed_failure_def record_interrupted_def
      record_unsatisfiable_def Let_def split: LocalState.splits LocalResult.splits)

theorem finished_drv_ignores_late_results_witness:
  "handle_recorder_request list_lru 0 \<lparr> rt_derivation = demo_id_a, rt_result = LocalCompleted LocalFailure \<rparr>
     (demo_scheduler 10) = (demo_scheduler 10, Inr ())"
  by (rule finished_drv_ignores_late_results[of _ _ "LocalCompleted LocalSuccess"]) (simp_all add: demo_scheduler_simps)

lemma not_swept:
  assumes "distinct (map fst v)" "map_of v d = Some c" "cn_build_state c \<noteq> Queued" "cn_build_state c \<noteq> Buildable"
  shows "d \<notin> set (sweep_candidates v)"
  using assms by (auto simp: sweep_candidates_def dest: eq_key_imp_eq_value)

text \<open>A failed build is lost when the command queue of the graph service is full at its start.  The
  builder marks the drv as building in the shared view only; the recorder finds the old
  state in the database, so it neither retries nor fails the drv; and the sweep, which
  looks for queued and buildable drvs in the view, never picks it up.\<close>

theorem failure_lost_when_commands_full:
  assumes d: "valid_drv_id d" "ld_drv_path req = d" and full: "\<not> ch_has_room (sc_commands s)"
    and node: "map_of (sc_view s) d = Some c" "\<not> is_terminal (cn_build_state c)" "distinct (map fst (sc_view s))"
    and row: "record_state s d = Some st" "st \<noteq> LocalBuilding" "st \<noteq> LocalFailedRetry"
  shows "\<exists>s'. start_build req s = (s', True) \<and>
    handle_recorder_request L now \<lparr> rt_derivation = d, rt_result = LocalCompleted LocalFailure \<rparr> s' = (s', Inr ()) \<and>
    record_state s' d = Some st \<and> handle_get_build_state (sc_view s') d = Some Building \<and>
    sc_ingress s' = sc_ingress s \<and> sc_builds s' = sc_builds s \<and> d \<notin> set (sweep_candidates (sc_view s'))"
proof -
  let ?s' = "offer_command (UpdateState d Building) (set_shared_state d Building s)"
  have start: "start_build req s = (?s', True)"
    using d node start_build_marks[of d req s "cn_build_state c"] by (simp add: handle_get_build_state_def)
  have state: "record_state ?s' d = Some st" using row(1) by (simp add: record_state_def)
  have "handle_recorder_request L now \<lparr> rt_derivation = d, rt_result = LocalCompleted LocalFailure \<rparr> ?s' = (?s', Inr ())"
    using row(2,3) state by (simp add: handle_recorder_request_def record_completed_failure_def)
  moreover have view: "map_of (sc_view ?s') d = Some (c\<lparr>cn_build_state := Building\<rparr>)"
    using node(1) by (simp add: map_of_set_view_state)
  moreover have "d \<notin> set (sweep_candidates (sc_view ?s'))"
    using not_swept[OF _ view] node(3) by (simp add: distinct_set_view_state)
  ultimately show ?thesis using start state by (auto simp: handle_get_build_state_def)
qed

theorem failure_lost_when_commands_full_witness:
  "\<exists>s'. start_build (demo_row demo_id_b LocalBuildable) (demo_scheduler 0) = (s', True) \<and>
     handle_recorder_request list_lru 0 \<lparr> rt_derivation = demo_id_b, rt_result = LocalCompleted LocalFailure \<rparr> s' =
       (s', Inr ()) \<and>
     handle_get_build_state (sc_view s') demo_id_b = Some Building"
  using failure_lost_when_commands_full[of demo_id_b "demo_row demo_id_b LocalBuildable" "demo_scheduler 0"
      "demo_cached demo_id_b Buildable [demo_id_a]" LocalQueued list_lru 0]
  by (auto simp: ch_has_room_def demo_scheduler_simps)

lemma call_graph_builds: "call_graph L now cmd s = (s', r) \<Longrightarrow> sc_builds s' = sc_builds s"
  by (auto simp: call_graph_def split: prod.splits)

text \<open>Ingress sends a drv to be built only when it is ready: every dependency is completed
  successfully in the shared view, the early feature check passed, and the request
  carries the system and the features of the drv.\<close>

theorem ingress_sends_only_ready:
  assumes "handle_check_buildable_task L now F d s = (s', r)" "sc_builds s' \<noteq> sc_builds s"
  shows "\<exists>shared node req. to_shared_drv_id d = Inr shared \<and> map_of (sc_view s) shared = Some node \<and>
    ch_items (sc_builds s') = ch_items (sc_builds s) @ [req] \<and>
    (\<forall>dep\<in>set (cn_dependencies node). handle_get_build_state (sc_view s) dep = Some (Completed Success)) \<and>
    can_build F (cn_required_system_features node) \<and>
    ld_system req = cn_system node \<and> ld_required_system_features req = cn_required_system_features node \<and>
    ld_is_fod req = cn_is_fod node"
proof -
  obtain shared node where n: "to_shared_drv_id d = Inr shared" "map_of (sc_view s) shared = Some node"
      "handle_is_buildable (sc_view s) shared" "can_build F (cn_required_system_features node)"
    using assms by (auto simp: handle_check_buildable_task_def handle_get_node_def send_recorder_def
        split: sum.splits if_splits option.splits)
  obtain s1 req where s1: "sc_builds s1 = sc_builds s" "to_server_drv (to_drv node) = Inr req" "s' = offer_build req s1"
    using assms n
    by (auto simp: handle_check_buildable_task_def handle_get_node_def handle_update_def and_then_def
        dest: call_graph_builds split: sum.splits if_splits option.splits prod.splits)
  then have "ch_items (sc_builds s') = ch_items (sc_builds s) @ [req]"
    using assms(2) by (auto simp: offer_build_def ch_offer_def ch_try_send_def split: if_splits)
  moreover have "ld_system req = cn_system node" "ld_required_system_features req = cn_required_system_features node"
      "ld_is_fod req = cn_is_fod node"
    using s1(2) by (auto simp: to_server_drv_def to_drv_def split: sum.splits)
  ultimately show ?thesis
    using n by (fastforce simp: handle_is_buildable_def handle_get_build_state_def list_all_iff split: option.splits)
qed

definition demo_retrying :: "(DrvId, GraphNode) list_lru Scheduler" where
  "demo_retrying = set_shared_state demo_id_b FailedRetry (demo_scheduler 10)"

theorem ingress_sends_only_ready_witness:
  "\<exists>s'. handle_check_buildable_task list_lru 0 [] demo_id_b demo_retrying = (s', Inr ()) \<and>
     length (ch_items (sc_builds s')) = 2"
proof -
  have "\<exists>req. ld_drv_path req = demo_id_b \<and>
      handle_check_buildable_task list_lru 0 [] demo_id_b demo_retrying = (offer_build req demo_retrying, Inr ())"
    by (rule retry_is_sent[of _ _ "demo_cached demo_id_b FailedRetry [demo_id_a]"])
      (simp_all add: demo_retrying_def handle_is_buildable_def set_view_state_def can_build_def required_features_def
        demo_scheduler_simps)
  then obtain req where req:
      "handle_check_buildable_task list_lru 0 [] demo_id_b demo_retrying = (offer_build req demo_retrying, Inr ())"
    by blast
  have "sc_builds (offer_build req demo_retrying) \<noteq> sc_builds demo_retrying"
    by (simp add: offer_build_def demo_retrying_def demo_scheduler_def ch_offer_def ch_try_send_def ch_has_room_def)
  from ingress_sends_only_ready[OF req this] show ?thesis
    using req by (auto simp: demo_retrying_def demo_scheduler_def)
qed

text \<open>A request never goes to the local builder because the derivation asks for it.  The requests that
  ingress sends are rebuilt from the shared view, which does not keep the preference, so on
  a platform with local and remote builders they go to the remote ones, or to the
  dedicated builder if they are fixed-output derivations.\<close>

theorem prefer_local_never_honoured:
  assumes "to_server_drv (to_drv (from_graph_node (from_drv drv))) = Inr req"
    and "pq_local_builder q \<noteq> None" "pq_builders q \<noteq> []"
  shows "route q req = Some (if drv_is_fod drv \<and> pq_fod_builder q \<noteq> None then FodPool else RemotePool)"
  using assms
  by (auto simp: to_server_drv_def to_drv_def from_graph_node_def from_drv_def route_def Let_def split: sum.splits)

theorem prefer_local_never_honoured_witness:
  "\<exists>req. to_server_drv (to_drv (from_graph_node (from_drv
       ((demo_drv demo_id_a Queued)\<lparr>drv_prefer_local_build := True\<rparr>)))) = Inr req \<and>
     route demo_platform req = Some RemotePool"
proof -
  let ?d = "(demo_drv demo_id_a Queued)\<lparr>drv_prefer_local_build := True\<rparr>"
  obtain req where req: "to_server_drv (to_drv (from_graph_node (from_drv ?d))) = Inr req"
    using to_server_drv_ok[of "from_graph_node (from_drv ?d)"] demo_ids_valid(1)
    by (auto simp: from_graph_node_def from_drv_def demo_drv_def)
  then show ?thesis
    using prefer_local_never_honoured[OF req, of demo_platform] by (simp add: demo_platform_def demo_drv_def)
qed

section \<open>Deadlines of a build\<close>

fun gaps_ok :: "duration \<Rightarrow> instant \<Rightarrow> (instant \<times> bool) list \<Rightarrow> bool" where
  "gaps_ok quiet t [] = True"
| "gaps_ok quiet t ((t', _) # es) = (t' \<le> t + int quiet \<and> gaps_ok quiet t' es)"

lemma watch_simps:
  "watch_build quiet timeout absolute [] = (if timeout \<le> absolute then (timeout, QuietTimeout) else (absolute, AbsoluteTimeout))"
  "watch_build quiet timeout absolute ((t, x) # es) =
     (if t \<le> timeout \<and> t \<le> absolute
      then if x then (t, ChildExited) else watch_build quiet (t + int quiet) absolute es
      else if timeout \<le> absolute then (timeout, QuietTimeout) else (absolute, AbsoluteTimeout))"
  by (subst watch_build.simps, simp)+

lemma watch_ends:
  assumes "watch_build quiet (t0 + int quiet) absolute events = (t, r)"
  shows "t \<le> absolute \<and> (r = AbsoluteTimeout \<longrightarrow> t = absolute) \<and>
    (r = QuietTimeout \<longrightarrow> t - int quiet \<in> insert t0 (fst ` set events)) \<and>
    (r = ChildExited \<longrightarrow> (t, True) \<in> set events)"
  using assms
proof (induction events arbitrary: t0)
  case Nil
  then show ?case by (auto simp: watch_simps split: if_splits)
next
  case (Cons e es)
  obtain t1 x where e: "e = (t1, x)" by fastforce
  show ?case
  proof (cases "t1 \<le> t0 + int quiet \<and> t1 \<le> absolute \<and> \<not> x")
    case True
    then show ?thesis using Cons.IH[of t1] Cons.prems by (auto simp: watch_simps e)
  next
    case False
    then show ?thesis using Cons.prems by (auto simp: watch_simps e split: if_splits)
  qed
qed

lemma watch_exit:
  assumes "gaps_ok quiet t0 (outs @ [(te, True)])" "\<forall>(t, x)\<in>set outs. \<not> x \<and> t \<le> absolute" "te \<le> absolute"
  shows "watch_build quiet (t0 + int quiet) absolute (outs @ [(te, True)]) = (te, ChildExited)"
  using assms
proof (induction outs arbitrary: t0)
  case (Cons e outs)
  then show ?case by (cases e) (auto simp: watch_simps)
qed (simp add: watch_simps)

text \<open>No build outlives its deadlines.  Whatever the child prints, the build ends by the wall-clock
  cap; it is reported as over the cap only then, and as silent only when no line came for
  the whole quiet period.  A child that prints often enough and exits before the cap is
  reported with its exit status at the time it exits.\<close>

theorem build_deadlines:
  assumes "build_drv_with_logging quiet_secs max_secs spawn_time events status tail = (t, result)"
  shows "t \<le> spawn_time + int (from_secs max_secs) \<and>
    (result = OutcomeAbsoluteTimeout \<longrightarrow> t = spawn_time + int (from_secs max_secs)) \<and>
    (result = OutcomeTimeout \<longrightarrow> t - int (from_secs quiet_secs) \<in> insert spawn_time (fst ` set events)) \<and>
    (\<forall>outs te. events = outs @ [(te, True)] \<and> (\<forall>(t, x)\<in>set outs. \<not> x \<and> t \<le> spawn_time + int (from_secs max_secs)) \<and>
        te \<le> spawn_time + int (from_secs max_secs) \<and> gaps_ok (from_secs quiet_secs) spawn_time events
      \<longrightarrow> t = te \<and> result = (if status = Some 0 then OutcomeSuccess else OutcomeFailure status tail))"
proof -
  let ?q = "from_secs quiet_secs" and ?a = "spawn_time + int (from_secs max_secs)"
  obtain t' r where w: "watch_build ?q (spawn_time + int ?q) ?a events = (t', r)" by fastforce
  then have res: "t = t'" "result = (case r of
        ChildExited \<Rightarrow> if status = Some 0 then OutcomeSuccess else OutcomeFailure status tail
      | QuietTimeout \<Rightarrow> OutcomeTimeout | AbsoluteTimeout \<Rightarrow> OutcomeAbsoluteTimeout)"
    using assms by (auto simp: build_drv_with_logging_def split: watch_result.splits)
  have exit: "t = te \<and> result = (if status = Some 0 then OutcomeSuccess else OutcomeFailure status tail)"
    if "events = outs @ [(te, True)]" "\<forall>(t, x)\<in>set outs. \<not> x \<and> t \<le> ?a" "te \<le> ?a" "gaps_ok ?q spawn_time events"
    for outs te
    using watch_exit[of ?q spawn_time outs te ?a] that w res by simp
  show ?thesis using watch_ends[OF w] res exit by (cases r) (auto split: if_splits)
qed

theorem build_deadlines_witness:
  "snd (build_drv_with_logging 10 30 0 [(8000000000, False), (16000000000, False), (24000000000, False),
      (40000000000, True)] (Some 0) []) = OutcomeAbsoluteTimeout \<and>
   fst (build_drv_with_logging 10 30 0 [(8000000000, False), (16000000000, False), (24000000000, False),
      (40000000000, True)] (Some 0) []) = 30000000000"
proof -
  let ?e = "[(8000000000, False), (16000000000, False), (24000000000, False), (40000000000, True)] :: (instant \<times> bool) list"
  have r: "snd (build_drv_with_logging 10 30 0 ?e (Some 0) []) = OutcomeAbsoluteTimeout"
    by (simp add: build_drv_with_logging_def watch_simps from_secs_def nanos_per_sec_def)
  then show ?thesis
    using build_deadlines[OF prod.collapse[symmetric], of 10 30 0 ?e "Some 0" "[]"]
    by (simp add: from_secs_def nanos_per_sec_def)
qed

end
