(* ===== verification/Substitution.thy ===== *)
theory Substitution
  imports Scheduler_Props
begin

text \<open>
  Evaluation requests in ingress (\<open>server/src/scheduler/ingress.rs\<close>): a drv that
  evaluation reported is skipped when it is finished, recorded as successful
  together with its dependencies when nix can substitute it, sent to be built when
  nix needs to build nothing else, and left to the buildability check otherwise.
  The report of \<open>nix-store --realise --dry-run\<close> is an argument.
\<close>

section \<open>Definitions\<close>

record DryRunReport =
  will_build :: "string list"
  will_fetch :: "string list"

definition is_cached_path :: "DryRunReport \<Rightarrow> string \<Rightarrow> bool" where
  "is_cached_path report drv_store_path = (drv_store_path \<notin> set (will_build report))"

text \<open>The two conditions under which the search goes no further.\<close>

definition substitution_skips :: "DryRunReport \<Rightarrow> view \<Rightarrow> DrvId \<Rightarrow> bool" where
  "substitution_skips report v d =
     (store_path d \<in> set (will_build report) \<or>
      (case handle_get_build_state v d of
         None \<Rightarrow> False
       | Some st \<Rightarrow> local_is_terminal (convert_build_state_back st) \<or> convert_build_state_back st = LocalBuilding))"

definition view_dependencies :: "view \<Rightarrow> DrvId \<Rightarrow> DrvId list" where
  "view_dependencies v d = (case handle_get_node v d of None \<Rightarrow> [] | Some node \<Rightarrow> cn_dependencies node)"

definition record_cached :: "DrvId \<Rightarrow> 'c Scheduler \<Rightarrow> 'c Scheduler" where
  "record_cached d s =
     (case to_server_drv_id d of Inl _ \<Rightarrow> s | Inr server_id \<Rightarrow> send_recorder server_id (LocalCompleted LocalSuccess) s)"

text \<open>One round of the search: the queue, the visited drvs and the scheduler.\<close>

fun substitution_step ::
  "DryRunReport \<Rightarrow> DrvId list \<times> DrvId list \<times> 'c Scheduler \<Rightarrow> DrvId list \<times> DrvId list \<times> 'c Scheduler" where
  "substitution_step report ([], visited, s) = ([], visited, s)"
| "substitution_step report (d # queue, visited, s) =
     (if d \<in> set visited then (queue, visited, s)
      else let visited' = visited @ [d]
           in if substitution_skips report (sc_view s) d then (queue, visited', s)
              else (queue @ filter (\<lambda>dep. dep \<notin> set visited') (view_dependencies (sc_view s) d), visited', record_cached d s))"

definition substitution_pending :: "DrvId list \<times> DrvId list \<times> 'c Scheduler \<Rightarrow> bool" where
  "substitution_pending t = (fst t \<noteq> [])"

definition handle_check_substitution_task_with_report ::
  "DrvId \<Rightarrow> DryRunReport \<Rightarrow> 'c Scheduler \<Rightarrow> ('c Scheduler, unit) outcome" where
  "handle_check_substitution_task_with_report drv_id report s =
     (case to_shared_drv_id drv_id of
        Inl e \<Rightarrow> (s, Inl e)
      | Inr root \<Rightarrow>
          (snd (snd (while substitution_pending (substitution_step report) ([root], [], s))), Inr ()))"

definition handle_check_substitution_task ::
  "DrvId \<Rightarrow> (anyhow, DryRunReport) result \<Rightarrow> 'c Scheduler \<Rightarrow> ('c Scheduler, bool) outcome" where
  "handle_check_substitution_task drv_id dry_run s =
     (case dry_run of
        Inl e \<Rightarrow> (s, Inl e)
      | Inr report \<Rightarrow>
          if \<not> is_cached_path report (store_path drv_id) then (s, Inr False)
          else and_then (handle_check_substitution_task_with_report drv_id report s) (\<lambda>s _. (s, Inr True)))"

text \<open>\<open>will_build.len() == 1\<close> on a set.\<close>

definition handle_eval_task ::
  "'c node_lru \<Rightarrow> instant \<Rightarrow> (string list \<times> string list) list \<Rightarrow> DrvId \<Rightarrow> (anyhow, DryRunReport) result
    \<Rightarrow> 'c Scheduler \<Rightarrow> ('c Scheduler, unit) outcome" where
  "handle_eval_task L now builder_features drv_id dry_run s =
     (case to_shared_drv_id drv_id of
        Inl e \<Rightarrow> (s, Inl e)
      | Inr shared_id \<Rightarrow>
          if (case handle_get_build_state (sc_view s) shared_id of None \<Rightarrow> False | Some st \<Rightarrow> is_terminal st)
          then (s, Inr ())
          else case dry_run of
            Inl _ \<Rightarrow> handle_check_buildable_task L now builder_features drv_id s
          | Inr report \<Rightarrow>
              if is_cached_path report (store_path drv_id)
              then handle_check_substitution_task_with_report drv_id report s
              else if card (set (will_build report)) = 1 \<and> store_path drv_id \<in> set (will_build report)
              then (case handle_get_node (sc_view s) shared_id of
                      Some cached_node \<Rightarrow>
                        (let s1 = set_shared_state shared_id (convert_build_state LocalBuildable) s
                         in case to_server_drv (to_drv cached_node) of
                              Inl e \<Rightarrow> (s1, Inl e)
                            | Inr server_drv \<Rightarrow> (s1\<lparr>sc_builds := ch_send server_drv (sc_builds s1)\<rparr>, Inr ()))
                    | None \<Rightarrow> handle_check_buildable_task L now builder_features drv_id s)
              else handle_check_buildable_task L now builder_features drv_id s)"

section \<open>The search\<close>

text \<open>Where the search can go from a drv.\<close>

definition substitution_succ :: "DryRunReport \<Rightarrow> view \<Rightarrow> DrvId \<Rightarrow> DrvId list" where
  "substitution_succ report v d = (if substitution_skips report v d then [] else view_dependencies v d)"

lemma view_send_recorder [simp]: "sc_view (send_recorder d st s) = sc_view s"
  by (simp add: send_recorder_def)

lemma view_record_cached [simp]: "sc_view (record_cached d s) = sc_view s"
  by (simp add: record_cached_def split: sum.splits)

lemma view_fold_record_cached [simp]: "sc_view (fold record_cached ds s) = sc_view s"
  by (induction ds arbitrary: s) simp_all

definition substitution_inv ::
  "DryRunReport \<Rightarrow> DrvId \<Rightarrow> 'c Scheduler \<Rightarrow> DrvId list \<times> DrvId list \<times> 'c Scheduler \<Rightarrow> bool" where
  "substitution_inv report root s0 t = (case t of (queue, visited, s) \<Rightarrow>
     s = fold record_cached (filter (\<lambda>d. \<not> substitution_skips report (sc_view s0) d) visited) s0 \<and>
     distinct visited \<and> root \<in> set visited \<union> set queue \<and>
     set visited \<union> set queue \<subseteq> reach (substitution_succ report (sc_view s0)) {root} \<and>
     (\<forall>d\<in>set visited. set (substitution_succ report (sc_view s0) d) \<subseteq> set visited \<union> set queue))"

lemma substitution_step_new:
  "d \<notin> set visited \<Longrightarrow> substitution_step report (d # queue, visited, s) =
    (queue @ filter (\<lambda>dep. dep \<notin> set (visited @ [d])) (substitution_succ report (sc_view s) d), visited @ [d],
     if substitution_skips report (sc_view s) d then s else record_cached d s)"
  by (simp add: Let_def substitution_succ_def)

lemma substitution_inv_step:
  assumes "substitution_inv report root s0 t" "substitution_pending t"
  shows "substitution_inv report root s0 (substitution_step report t)"
proof -
  obtain d queue visited s where t: "t = (d # queue, visited, s)"
    using assms(2) by (cases t; cases "fst t") (auto simp: substitution_pending_def)
  let ?succ = "substitution_succ report (sc_view s0)"
  have view: "sc_view s = sc_view s0" and d: "d \<in> reach ?succ {root}"
    using assms(1) by (auto simp: t substitution_inv_def)
  have next_reach: "set (?succ d) \<subseteq> reach ?succ {root}"
    using d by (auto simp: succ_rel_def intro: rtrancl_into_rtrancl)
  show ?thesis
  proof (cases "d \<in> set visited")
    case True
    then show ?thesis using assms(1) by (auto simp: t substitution_inv_def)
  next
    case False
    then show ?thesis
      using assms(1) next_reach
      unfolding t substitution_step_new[OF False] substitution_inv_def prod.case view by (auto split: if_splits)
  qed
qed

lemma substitution_terminates:
  assumes fin: "finite (reach (substitution_succ report (sc_view s0)) {root})"
  shows "\<exists>t. while_option substitution_pending (substitution_step report) ([root], [], s0) = Some t"
proof -
  let ?succ = "substitution_succ report (sc_view s0)"
  let ?R = "reach ?succ {root}"
  let ?f = "\<lambda>t. (\<Sum>x\<in>?R - set (fst (snd t)). length (?succ x) + 1) + length (fst t)"
  have "?f (substitution_step report t) < ?f t" if i: "substitution_inv report root s0 t" and p: "substitution_pending t" for t
  proof -
    obtain d queue visited s where t: "t = (d # queue, visited, s)"
      using p by (cases t; cases "fst t") (auto simp: substitution_pending_def)
    have view: "sc_view s = sc_view s0" and d: "d \<in> ?R" using i by (auto simp: t substitution_inv_def)
    show ?thesis
    proof (cases "d \<in> set visited")
      case False
      have split: "(\<Sum>x\<in>?R - set visited. length (?succ x) + 1) =
          (length (?succ d) + 1) + (\<Sum>x\<in>?R - set visited - {d}. length (?succ x) + 1)"
        using False d fin by (intro sum.remove) auto
      have "?R - set (visited @ [d]) = ?R - set visited - {d}" by auto
      then show ?thesis
        using split unfolding t substitution_step_new[OF False] view by (simp add: less_Suc_eq_le le_SucI)
    qed (simp add: t)
  qed
  moreover have "substitution_inv report root s0 ([root], [], s0)" by (simp add: substitution_inv_def)
  ultimately show ?thesis
    using substitution_inv_step
    by (intro measure_while_option_Some[where P = "substitution_inv report root s0" and f = ?f]) auto
qed

lemma finite_substitution: "finite (reach (substitution_succ report v) {root})"
  by (rule finite_reach[of "dom (map_of v)"])
    (auto simp: substitution_succ_def view_dependencies_def handle_get_node_def finite_dom_map_of)

section \<open>Property\<close>

lemma record_cached_all:
  "\<forall>d\<in>set ds. valid_drv_id d \<Longrightarrow> fold record_cached ds s = s\<lparr>sc_recorder := (sc_recorder s)
     \<lparr>ch_items := ch_items (sc_recorder s) @ map (\<lambda>d. \<lparr> rt_derivation = d, rt_result = LocalCompleted LocalSuccess \<rparr>) ds\<rparr>\<rparr>"
  by (induction ds arbitrary: s) (auto simp: record_cached_def to_server_id send_recorder_def ch_send_def)

text \<open>The substitution search ends and is exact.  Starting from a drv that nix can substitute, it reports
  as successful, each once and changing nothing else, exactly the drvs that can be reached
  through the dependencies in the shared view without passing a drv that must be built, is
  finished or is being built, and that are none of these themselves.\<close>

theorem substitution_marks_exactly:
  fixes s :: "'c Scheduler"
  assumes "valid_drv_id d" "\<forall>x\<in>reach (substitution_succ report (sc_view s)) {d}. valid_drv_id x"
  shows "\<exists>marked. distinct marked \<and>
    set marked = {x \<in> reach (substitution_succ report (sc_view s)) {d}. \<not> substitution_skips report (sc_view s) x} \<and>
    handle_check_substitution_task_with_report d report s =
      (s\<lparr>sc_recorder := (sc_recorder s)\<lparr>ch_items := ch_items (sc_recorder s) @
          map (\<lambda>x. \<lparr> rt_derivation = x, rt_result = LocalCompleted LocalSuccess \<rparr>) marked\<rparr>\<rparr>, Inr ())"
proof -
  let ?succ = "substitution_succ report (sc_view s)"
  have i: "substitution_inv report d s ([d], [], s)" by (simp add: substitution_inv_def)
  obtain t where t: "while_option substitution_pending (substitution_step report) ([d], [], s) = Some t"
    using substitution_terminates[OF finite_substitution] by blast
  have inv: "substitution_inv report d s t"
    using while_option_rule[of "substitution_inv report d s", OF _ t i] substitution_inv_step by blast
  obtain visited s' where vs: "t = ([], visited, s')"
    using while_option_stop[OF t] by (cases t) (auto simp: substitution_pending_def)
  have closed: "y \<in> set visited" if "(x, y) \<in> (succ_rel ?succ)\<^sup>*" "x \<in> set visited" for x y
    using that inv by (induction rule: rtrancl_induct) (auto simp: vs substitution_inv_def succ_rel_def)
  then have visited: "set visited = reach ?succ {d}" using inv by (auto simp: vs substitution_inv_def)
  let ?m = "filter (\<lambda>x. \<not> substitution_skips report (sc_view s) x) visited"
  have "s' = fold record_cached ?m s" using inv by (simp add: vs substitution_inv_def)
  moreover have "\<forall>x\<in>set ?m. valid_drv_id x" using assms(2) visited by auto
  ultimately have "handle_check_substitution_task_with_report d report s =
      (s\<lparr>sc_recorder := (sc_recorder s)\<lparr>ch_items := ch_items (sc_recorder s) @
          map (\<lambda>x. \<lparr> rt_derivation = x, rt_result = LocalCompleted LocalSuccess \<rparr>) ?m\<rparr>\<rparr>, Inr ())"
    using t assms(1)
    by (simp add: handle_check_substitution_task_with_report_def to_shared_id while_def vs record_cached_all)
  moreover have "distinct ?m" using inv by (simp add: vs substitution_inv_def)
  ultimately show ?thesis using visited by (intro exI[of _ ?m]) auto
qed

definition demo_uncached :: "(DrvId, GraphNode) list_lru Scheduler" where
  "demo_uncached = set_shared_state demo_id_a Queued (demo_scheduler 10)"

theorem substitution_marks_exactly_witness:
  "\<exists>marked. set marked = {demo_id_a, demo_id_b} \<and>
    ch_items (sc_recorder (fst (handle_check_substitution_task_with_report demo_id_b
      \<lparr> will_build = [], will_fetch = [] \<rparr> demo_uncached))) =
    map (\<lambda>x. \<lparr> rt_derivation = x, rt_result = LocalCompleted LocalSuccess \<rparr>) marked"
proof -
  let ?r = "\<lparr> will_build = [], will_fetch = [] \<rparr>" and ?v = "sc_view demo_uncached"
  let ?succ = "substitution_succ ?r ?v"
  have view: "?v = [(demo_id_a, demo_cached demo_id_a Queued []), (demo_id_b, demo_cached demo_id_b Buildable [demo_id_a])]"
    by (simp add: demo_uncached_def set_view_state_def demo_scheduler_simps)
  have succ: "?succ x = (if x = demo_id_b then [demo_id_a] else [])" "\<not> substitution_skips ?r ?v x" for x
    by (auto simp: substitution_succ_def substitution_skips_def view_dependencies_def handle_get_node_def
        handle_get_build_state_def view demo_cached_def demo_neq)
  have "y = demo_id_a \<or> y = demo_id_b" if "(demo_id_b, y) \<in> (succ_rel ?succ)\<^sup>*" for y
    using that by (induction rule: rtrancl_induct) (auto simp: succ_rel_def succ)
  moreover have "(demo_id_b, demo_id_a) \<in> (succ_rel ?succ)\<^sup>*" by (rule r_into_rtrancl) (simp add: succ_rel_def succ)
  ultimately have reach: "reach ?succ {demo_id_b} = {demo_id_a, demo_id_b}" by auto
  have "ch_items (sc_recorder demo_uncached) = []"
    by (simp add: demo_uncached_def set_shared_state_def demo_scheduler_def ch_new_def)
  with substitution_marks_exactly[OF demo_ids_valid(2), of ?r demo_uncached] show ?thesis
    unfolding reach using demo_ids_valid succ(2) by auto
qed

end
