(* ===== verification/Task_Journal.thy ===== *)
theory Task_Journal
  imports Prelude
begin

text \<open>
  The write-ahead journal of the service tasks
  (\<open>server/src/services/task_journal.rs\<close>, table \<open>TaskJournal\<close>) and the loop in
  which a worker uses it (\<open>ingest_requests\<close> of \<open>scheduler/recorder/mod.rs\<close> and
  \<open>scheduler/ingress.rs\<close>).  The table is shared by all services; rows are in the
  order of their ids, which are never used twice.  Serialisation of tasks is a
  parameter, \<open>enc\<close> and \<open>dec\<close>.  The worker may stop at any point and be started
  again on the same table.
\<close>

section \<open>The journal\<close>







section \<open>A worker\<close>






section \<open>Invariant\<close>



















section \<open>Property\<close>





end
