(* ===== verification/Release_Channel.thy ===== *)
theory Release_Channel
  imports Build_State Channel "HOL-Library.AList" "HOL-Library.List_Lexorder" "HOL-Library.Char_ord" "HOL-Library.Multiset"
begin

text \<open>
  Release channels: their configuration and its validation
  (\<open>server/src/config.rs\<close>), the lookup of channels by branch
  (\<open>server/src/channels/mod.rs\<close>), the coalescer and the promotion evaluator
  (\<open>channels/coalescer.rs\<close>, \<open>channels/evaluator.rs\<close>), and the table
  \<open>ChannelPromotion\<close> (\<open>server/src/db/channels.rs\<close>).  A channel watches a tracking
  branch and moves its target branch to a commit when the jobs of that commit allow
  it.  JSON columns hold the values they encode.
\<close>

section \<open>Configuration\<close>

datatype ChannelForge = GitHub | GitLab string | Gitea string

fun as_id_prefix :: "ChannelForge \<Rightarrow> string" where
  "as_id_prefix GitHub = ''github''"
| "as_id_prefix (GitLab domain) = ''gitlab:'' @ domain"
| "as_id_prefix (Gitea domain) = ''gitea:'' @ domain"

record ChannelConfig =
  cc_forge :: ChannelForge
  cc_owner :: string
  cc_repo :: string
  cc_name :: string
  cc_tracking_branch :: string
  cc_target_branch :: string
  cc_required :: "string list"
  cc_packages :: "string list"
  cc_dry_run :: bool

definition channel_id :: "ChannelConfig \<Rightarrow> string" where
  "channel_id c = join_with ''/'' [as_id_prefix (cc_forge c), cc_owner c, cc_repo c, cc_name c]"

type_synonym branch_key = "ChannelForge \<times> string \<times> string \<times> string"

definition tracking_key :: "ChannelConfig \<Rightarrow> branch_key" where
  "tracking_key c = (cc_forge c, cc_owner c, cc_repo c, cc_tracking_branch c)"

definition target_key :: "ChannelConfig \<Rightarrow> branch_key" where
  "target_key c = (cc_forge c, cc_owner c, cc_repo c, cc_target_branch c)"

datatype ChannelError =
    InvalidName string | SelfPromotion string | SameTarget string string | ChainedTarget string | DuplicateId string

text \<open>The two passes of the validation: names and branches, then the registry with the target
  branches seen so far.  A hash map is iterated in the order of the list.\<close>

fun check_names :: "(string \<times> ChannelConfig) list \<Rightarrow> branch_key list \<Rightarrow> (ChannelError, branch_key list) result" where
  "check_names [] tracking = Inr tracking"
| "check_names ((key, c) # rest) tracking =
     (if cc_name c = [] \<or> CHR ''/'' \<in> set (cc_name c) then Inl (InvalidName key)
      else if cc_tracking_branch c = cc_target_branch c then Inl (SelfPromotion (channel_id c))
      else check_names rest (hs_insert (tracking_key c) tracking))"

fun build_registry ::
  "branch_key list \<Rightarrow> (string \<times> ChannelConfig) list \<Rightarrow> (branch_key \<times> string) list
    \<Rightarrow> (string \<times> ChannelConfig) list \<Rightarrow> (ChannelError, (string \<times> ChannelConfig) list) result" where
  "build_registry tracking [] seen_target channels = Inr channels"
| "build_registry tracking ((key, c) # rest) seen_target channels =
     (case map_of seen_target (target_key c) of
        Some other \<Rightarrow> Inl (SameTarget other (channel_id c))
      | None \<Rightarrow>
          if target_key c \<in> set tracking then Inl (ChainedTarget (channel_id c))
          else if map_of channels (channel_id c) \<noteq> None then Inl (DuplicateId (channel_id c))
          else build_registry tracking rest (AList.update (target_key c) (channel_id c) seen_target)
                 (AList.update (channel_id c) c channels))"

definition validate_channels :: "(string \<times> ChannelConfig) list \<Rightarrow> (ChannelError, (string \<times> ChannelConfig) list) result" where
  "validate_channels raw =
     (case check_names raw [] of Inl e \<Rightarrow> Inl e | Inr tracking \<Rightarrow> build_registry tracking raw [] [])"

definition match_push_channels ::
  "(string \<times> ChannelConfig) list \<Rightarrow> ChannelForge \<Rightarrow> string \<Rightarrow> string \<Rightarrow> string \<Rightarrow> ChannelConfig list" where
  "match_push_channels channels forge owner repo branch =
     filter (\<lambda>c. cc_forge c = forge \<and> eq_ignore_ascii_case (cc_owner c) owner \<and> cc_repo c = repo \<and>
                 cc_tracking_branch c = branch) (map snd channels)"

definition match_target_branch_channels ::
  "(string \<times> ChannelConfig) list \<Rightarrow> ChannelForge \<Rightarrow> string \<Rightarrow> string \<Rightarrow> string \<Rightarrow> ChannelConfig list" where
  "match_target_branch_channels channels forge owner repo branch =
     filter (\<lambda>c. cc_forge c = forge \<and> eq_ignore_ascii_case (cc_owner c) owner \<and> cc_repo c = repo \<and>
                 cc_target_branch c = branch) (map snd channels)"

section \<open>Decisions\<close>

datatype PromotionStatus = Evaluating | PromotionBlocked | Promoted | PushFailed | Skipped

fun as_i64 :: "PromotionStatus \<Rightarrow> int" where
  "as_i64 Evaluating = 0"
| "as_i64 PromotionBlocked = 1"
| "as_i64 Promoted = 2"
| "as_i64 PushFailed = 3"
| "as_i64 Skipped = 4"

text \<open>A \<open>BTreeMap\<close> is a list of pairs in the order of its keys.\<close>

type_synonym results = "(string \<times> LocalState) list"

definition bt_insert :: "'k::linorder \<Rightarrow> 'v \<Rightarrow> ('k \<times> 'v) list \<Rightarrow> ('k \<times> 'v) list" where
  "bt_insert k v m = insort_key fst (k, v) (filter (\<lambda>(k', _). k' \<noteq> k) m)"

datatype PromotionDecision =
    DecisionReady results
  | DecisionBlocked "string list" results
  | DecisionWaiting "string list" "string list"

text \<open>The loop over the required jobs, with its three collections.\<close>

definition scan_one ::
  "(string \<rightharpoonup> LocalState) \<Rightarrow> string \<Rightarrow> results \<times> string list \<times> string list \<Rightarrow> results \<times> string list \<times> string list" where
  "scan_one job_states name = (\<lambda>(res, failed, waiting).
     case job_states name of
       Some state \<Rightarrow>
         (if local_is_failure state then (bt_insert name state res, failed @ [name], waiting)
          else if state = LocalCompleted LocalSuccess then (bt_insert name state res, failed, waiting)
          else if local_is_terminal state then (bt_insert name state res, failed @ [name], waiting)
          else (res, failed, waiting @ [name]))
     | None \<Rightarrow> (res, failed, waiting @ [name]))"

definition scan_required :: "(string \<rightharpoonup> LocalState) \<Rightarrow> string list \<Rightarrow> results \<times> string list \<times> string list" where
  "scan_required job_states names = fold (scan_one job_states) names ([], [], [])"

definition pending_packages :: "(string \<rightharpoonup> LocalState) \<Rightarrow> string list \<Rightarrow> string list" where
  "pending_packages job_states names =
     filter (\<lambda>name. case job_states name of Some state \<Rightarrow> \<not> local_is_terminal state | None \<Rightarrow> True) names"

definition evaluate_promotion :: "ChannelConfig \<Rightarrow> (string \<rightharpoonup> LocalState) \<Rightarrow> PromotionDecision" where
  "evaluate_promotion c job_states =
     (case scan_required job_states (cc_required c) of
        (res, failed, waiting) \<Rightarrow>
          if failed \<noteq> [] then DecisionBlocked (sort failed) res
          else let waiting_packages = pending_packages job_states (cc_packages c)
               in if waiting = [] \<and> waiting_packages = [] then DecisionReady res
                  else DecisionWaiting (sort waiting) (sort waiting_packages))"

datatype CoalesceAction = StartFresh | AlreadyInFlight | DeferAsPending "string option"

definition coalesce :: "string option \<Rightarrow> string option \<Rightarrow> string \<Rightarrow> CoalesceAction" where
  "coalesce in_flight_sha current_pending_sha candidate_sha =
     (case in_flight_sha of
        None \<Rightarrow> StartFresh
      | Some sha \<Rightarrow>
          if sha = candidate_sha then AlreadyInFlight
          else (case current_pending_sha of
                  Some prev \<Rightarrow> if prev = candidate_sha then AlreadyInFlight else DeferAsPending (Some prev)
                | None \<Rightarrow> DeferAsPending None))"

section \<open>The table\<close>

record ChannelPromotionRow =
  cp_rowid :: int
  cp_channel_id :: string
  cp_tracking_sha :: string
  cp_target_branch :: string
  cp_previous_target_sha :: "string option"
  cp_status :: int
  cp_blocked_reason :: "string list option"
  cp_required_results :: "results option"
  cp_started_at :: int
  cp_completed_at :: "int option"

text \<open>Rows in the order of their rowids, and the next one.\<close>

record PromotionTable =
  pt_rows :: "ChannelPromotionRow list"
  pt_next :: int

definition unique_error :: anyhow where
  "unique_error = ''UNIQUE constraint failed: ChannelPromotion.channel_id''"

text \<open>Insertion respects the index \<open>ChannelPromotionInFlight\<close>: one row with status 0 for a channel.\<close>

definition insert_evaluating ::
  "int \<Rightarrow> string \<Rightarrow> string \<Rightarrow> string \<Rightarrow> PromotionTable \<Rightarrow> PromotionTable \<times> (anyhow, int) result" where
  "insert_evaluating now cid sha target t =
     (if \<exists>r\<in>set (pt_rows t). cp_channel_id r = cid \<and> cp_status r = as_i64 Evaluating then (t, Inl unique_error)
      else (t\<lparr>pt_rows := pt_rows t @ [\<lparr> cp_rowid = pt_next t, cp_channel_id = cid, cp_tracking_sha = sha,
               cp_target_branch = target, cp_previous_target_sha = None, cp_status = as_i64 Evaluating,
               cp_blocked_reason = None, cp_required_results = None, cp_started_at = now, cp_completed_at = None \<rparr>],
              pt_next := pt_next t + 1\<rparr>, Inr (pt_next t)))"

definition insert_skipped :: "int \<Rightarrow> string \<Rightarrow> string \<Rightarrow> string \<Rightarrow> PromotionTable \<Rightarrow> PromotionTable" where
  "insert_skipped now cid sha target t =
     t\<lparr>pt_rows := pt_rows t @ [\<lparr> cp_rowid = pt_next t, cp_channel_id = cid, cp_tracking_sha = sha,
         cp_target_branch = target, cp_previous_target_sha = None, cp_status = as_i64 Skipped,
         cp_blocked_reason = None, cp_required_results = None, cp_started_at = now, cp_completed_at = Some now \<rparr>],
       pt_next := pt_next t + 1\<rparr>"

definition is_open_row :: "string \<Rightarrow> string \<Rightarrow> ChannelPromotionRow \<Rightarrow> bool" where
  "is_open_row cid sha r = (cp_channel_id r = cid \<and> cp_tracking_sha r = sha \<and> cp_status r = as_i64 Evaluating)"

definition finalise_evaluation ::
  "int \<Rightarrow> string \<Rightarrow> string \<Rightarrow> PromotionStatus \<Rightarrow> string list option \<Rightarrow> results option \<Rightarrow> string option
    \<Rightarrow> PromotionTable \<Rightarrow> PromotionTable \<times> nat" where
  "finalise_evaluation now cid sha new_status blocked_reason required_results previous_target_sha t =
     (t\<lparr>pt_rows := map (\<lambda>r. if is_open_row cid sha r
         then r\<lparr>cp_status := as_i64 new_status, cp_blocked_reason := blocked_reason,
                cp_required_results := required_results, cp_previous_target_sha := previous_target_sha,
                cp_completed_at := Some now\<rparr>
         else r) (pt_rows t)\<rparr>,
      length (filter (is_open_row cid sha) (pt_rows t)))"

definition get_in_flight :: "string \<Rightarrow> PromotionTable \<Rightarrow> ChannelPromotionRow option" where
  "get_in_flight cid t = find (\<lambda>r. cp_channel_id r = cid \<and> cp_status r = as_i64 Evaluating) (pt_rows t)"

definition get_latest_for_sha :: "string \<Rightarrow> string \<Rightarrow> PromotionTable \<Rightarrow> ChannelPromotionRow option" where
  "get_latest_for_sha cid sha t = find (\<lambda>r. cp_channel_id r = cid \<and> cp_tracking_sha r = sha) (rev (pt_rows t))"

text \<open>A row of the join of \<open>Job\<close>, \<open>GitHubJobSets\<close> and \<open>Drv\<close>.  Where a name occurs more than once, the
  last row stays in the map.\<close>

record JobRow =
  jr_owner :: string
  jr_repo :: string
  jr_sha :: string
  jr_name :: string
  jr_state :: LocalState

definition snapshot_job_states_for_sha ::
  "string \<Rightarrow> string \<Rightarrow> string \<Rightarrow> string list \<Rightarrow> JobRow list \<Rightarrow> (string \<rightharpoonup> LocalState)" where
  "snapshot_job_states_for_sha owner repo sha job_names jobs =
     map_of (rev (map (\<lambda>j. (jr_name j, jr_state j))
       (filter (\<lambda>j. jr_owner j = owner \<and> jr_repo j = repo \<and> jr_sha j = sha \<and> jr_name j \<in> set job_names) jobs)))"

section \<open>The evaluator\<close>

definition job_failed :: "(string \<rightharpoonup> LocalState) \<Rightarrow> string \<Rightarrow> bool" where
  "job_failed job_states n = (\<exists>st. job_states n = Some st \<and> local_is_terminal st \<and> st \<noteq> LocalCompleted LocalSuccess)"

definition job_terminal :: "(string \<rightharpoonup> LocalState) \<Rightarrow> string \<Rightarrow> bool" where
  "job_terminal job_states n = (\<exists>st. job_states n = Some st \<and> local_is_terminal st)"

lemma failure_terminal: "local_is_failure st \<longleftrightarrow> local_is_terminal st \<and> st \<noteq> LocalCompleted LocalSuccess"
  by (cases st rule: LocalState_flat_cases) auto

lemma map_of_insort_key: "k \<notin> fst ` set m \<Longrightarrow> map_of (insort_key fst (k, v) m) = (map_of m)(k \<mapsto> v)"
  by (induction m) (auto simp: fun_eq_iff)

lemma map_of_bt_insert: "map_of (bt_insert k v m) = (map_of m)(k \<mapsto> v)"
proof -
  have "map_of (filter (\<lambda>(k', _). k' \<noteq> k) m) = (map_of m)(k := None)" by (induction m) (auto simp: fun_eq_iff)
  then show ?thesis unfolding bt_insert_def by (subst map_of_insort_key) auto
qed

lemma scan_one_eq:
  "scan_one js n (res, failed, waiting) =
     (if job_terminal js n then bt_insert n (the (js n)) res else res,
      failed @ filter (job_failed js) [n], waiting @ filter (\<lambda>n. \<not> job_terminal js n) [n])"
  by (auto simp: scan_one_def job_failed_def job_terminal_def failure_terminal split: option.split)

lemma fold_scan_one:
  "fold (scan_one js) ns (res, failed, waiting) =
     (fold (\<lambda>n. if job_terminal js n then bt_insert n (the (js n)) else id) ns res,
      failed @ filter (job_failed js) ns, waiting @ filter (\<lambda>n. \<not> job_terminal js n) ns)"
  by (induction ns arbitrary: res failed waiting) (simp_all add: scan_one_eq)

lemma map_of_results:
  "map_of (fold (\<lambda>n. if job_terminal js n then bt_insert n (the (js n)) else id) ns res) =
     map_of res ++ (js |` {n \<in> set ns. job_terminal js n})"
proof (induction ns arbitrary: res)
  case (Cons n ns)
  show ?case
  proof (cases "job_terminal js n")
    case True
    then obtain st where st: "js n = Some st" by (auto simp: job_terminal_def)
    have "(map_of res)(n \<mapsto> st) ++ (js |` {m \<in> set ns. job_terminal js m}) =
        map_of res ++ (js |` {m \<in> set (n # ns). job_terminal js m})"
      using True st by (auto simp: fun_eq_iff map_add_def restrict_map_def split: option.split)
    then show ?thesis using True st by (simp only: fold_Cons comp_apply Cons.IH map_of_bt_insert if_True option.sel)
  next
    case False
    then have "{m \<in> set (n # ns). job_terminal js m} = {m \<in> set ns. job_terminal js m}" by auto
    then show ?thesis using False by (simp add: Cons.IH)
  qed
qed simp

lemma evaluate_promotion_eq:
  "evaluate_promotion c js =
     (let res = fold (\<lambda>n. if job_terminal js n then bt_insert n (the (js n)) else id) (cc_required c) [];
          failed = filter (job_failed js) (cc_required c);
          waiting = filter (\<lambda>n. \<not> job_terminal js n) (cc_required c);
          packages = filter (\<lambda>n. \<not> job_terminal js n) (cc_packages c)
      in if failed \<noteq> [] then DecisionBlocked (sort failed) res
         else if waiting = [] \<and> packages = [] then DecisionReady res
         else DecisionWaiting (sort waiting) (sort packages))"
proof -
  have "pending_packages js ns = filter (\<lambda>n. \<not> job_terminal js n) ns" for ns
    by (auto simp: pending_packages_def job_terminal_def intro!: filter_cong split: option.splits)
  then show ?thesis by (simp add: evaluate_promotion_def scan_required_def fold_scan_one Let_def)
qed

lemma evaluate_Ready:
  assumes "evaluate_promotion c js = DecisionReady res"
  shows "\<forall>n\<in>set (cc_required c). js n = Some (LocalCompleted LocalSuccess)" "\<forall>n\<in>set (cc_packages c). job_terminal js n"
    and "map_of res = js |` set (cc_required c)"
proof -
  have all: "\<forall>n\<in>set (cc_required c). job_terminal js n \<and> \<not> job_failed js n" "\<forall>n\<in>set (cc_packages c). job_terminal js n"
    using assms by (auto simp: evaluate_promotion_eq Let_def filter_empty_conv split: if_splits)
  then show "\<forall>n\<in>set (cc_required c). js n = Some (LocalCompleted LocalSuccess)" "\<forall>n\<in>set (cc_packages c). job_terminal js n"
    by (auto simp: job_failed_def job_terminal_def)
  have "{n \<in> set (cc_required c). job_terminal js n} = set (cc_required c)" using all by blast
  moreover have "res = fold (\<lambda>n. if job_terminal js n then bt_insert n (the (js n)) else id) (cc_required c) []"
    using assms by (simp add: evaluate_promotion_eq Let_def split: if_splits)
  ultimately show "map_of res = js |` set (cc_required c)" by (simp add: map_of_results)
qed

lemma evaluate_Ready_intro:
  assumes "\<forall>n\<in>set (cc_required c). js n = Some (LocalCompleted LocalSuccess)" "\<forall>n\<in>set (cc_packages c). job_terminal js n"
  shows "\<exists>res. evaluate_promotion c js = DecisionReady res"
proof -
  have "\<forall>n\<in>set (cc_required c). job_terminal js n \<and> \<not> job_failed js n"
    using assms(1) by (auto simp: job_terminal_def job_failed_def)
  then show ?thesis using assms(2) by (auto simp: evaluate_promotion_eq Let_def filter_empty_conv)
qed

lemma sort_Nil_iff: "sort xs = [] \<longleftrightarrow> xs = []"
  by (metis mset_sort mset_zero_iff)

text \<open>The promotion evaluator decides every case as documented.  It is ready exactly with all
  required jobs successful and all packages finished; it is blocked when a required job
  finished without success, whatever else is outstanding, and names all such jobs in
  order; otherwise it waits and names all jobs it waits for.  The recorded results are
  the finished required jobs.\<close>

theorem evaluate_promotion_exact:
  "case evaluate_promotion c js of
     DecisionReady res \<Rightarrow>
       (\<forall>n\<in>set (cc_required c). js n = Some (LocalCompleted LocalSuccess)) \<and>
       (\<forall>n\<in>set (cc_packages c). job_terminal js n) \<and> map_of res = js |` set (cc_required c)
   | DecisionBlocked failed res \<Rightarrow>
       failed \<noteq> [] \<and> sorted failed \<and> mset failed = filter_mset (job_failed js) (mset (cc_required c)) \<and>
       map_of res = js |` {n \<in> set (cc_required c). job_terminal js n}
   | DecisionWaiting waiting packages \<Rightarrow>
       (\<forall>n\<in>set (cc_required c). \<not> job_failed js n) \<and> waiting @ packages \<noteq> [] \<and> sorted waiting \<and> sorted packages \<and>
       mset waiting = filter_mset (\<lambda>n. \<not> job_terminal js n) (mset (cc_required c)) \<and>
       mset packages = filter_mset (\<lambda>n. \<not> job_terminal js n) (mset (cc_packages c))"
proof (cases "evaluate_promotion c js")
  case (DecisionReady res)
  then show ?thesis using evaluate_Ready[OF DecisionReady] by simp
next
  case (DecisionBlocked failed res)
  then have "failed = sort (filter (job_failed js) (cc_required c))" "filter (job_failed js) (cc_required c) \<noteq> []"
      "res = fold (\<lambda>n. if job_terminal js n then bt_insert n (the (js n)) else id) (cc_required c) []"
    by (auto simp: evaluate_promotion_eq Let_def split: if_splits)
  then show ?thesis using DecisionBlocked by (simp add: sort_Nil_iff map_of_results)
next
  case (DecisionWaiting waiting packages)
  then have "waiting = sort (filter (\<lambda>n. \<not> job_terminal js n) (cc_required c))"
      "packages = sort (filter (\<lambda>n. \<not> job_terminal js n) (cc_packages c))"
      "filter (job_failed js) (cc_required c) = []"
      "filter (\<lambda>n. \<not> job_terminal js n) (cc_required c) \<noteq> [] \<or> filter (\<lambda>n. \<not> job_terminal js n) (cc_packages c) \<noteq> []"
    by (auto simp: evaluate_promotion_eq Let_def split: if_splits)
  then show ?thesis using DecisionWaiting by (simp add: sort_Nil_iff filter_empty_conv)
qed

definition demo_channel :: ChannelConfig where
  "demo_channel = \<lparr> cc_forge = GitHub, cc_owner = ''eka'', cc_repo = ''pkgs'', cc_name = ''stable'',
     cc_tracking_branch = ''master'', cc_target_branch = ''unstable'', cc_required = [''zlib'', ''bash''],
     cc_packages = [''vim''], cc_dry_run = False \<rparr>"

definition demo_states :: "string \<rightharpoonup> LocalState" where
  "demo_states = [''zlib'' \<mapsto> LocalTransitiveFailure, ''bash'' \<mapsto> LocalCompleted LocalFailure]"

lemma demo_blocked:
  "evaluate_promotion demo_channel demo_states =
     DecisionBlocked [''bash'', ''zlib''] [(''bash'', LocalCompleted LocalFailure), (''zlib'', LocalTransitiveFailure)]"
  by (simp add: evaluate_promotion_def scan_required_def scan_one_def bt_insert_def demo_channel_def demo_states_def
      insort_key_def less_eq_char_def)

theorem evaluate_promotion_exact_witness:
  "map_of [(''bash'', LocalCompleted LocalFailure), (''zlib'', LocalTransitiveFailure)] =
     demo_states |` {n \<in> set (cc_required demo_channel). job_terminal demo_states n}"
  using evaluate_promotion_exact[of demo_channel demo_states] by (simp only: demo_blocked PromotionDecision.case)

section \<open>Validation\<close>

definition channel_names_ok :: "ChannelConfig \<Rightarrow> bool" where
  "channel_names_ok c =
     (cc_name c \<noteq> [] \<and> CHR ''/'' \<notin> set (cc_name c) \<and> cc_tracking_branch c \<noteq> cc_target_branch c)"

lemma check_names_Inr:
  "check_names raw tracking = Inr T \<longleftrightarrow>
     (\<forall>c\<in>snd ` set raw. channel_names_ok c) \<and> T = fold hs_insert (map (tracking_key \<circ> snd) raw) tracking"
  by (induction raw tracking rule: check_names.induct) (auto simp: channel_names_ok_def)

lemma update_fresh: "k \<notin> fst ` set al \<Longrightarrow> AList.update k v al = al @ [(k, v)]"
  by (induction al) auto

lemma build_registry_Inr:
  "build_registry tracking raw seen channels = Inr res \<longleftrightarrow>
     (let cs = map snd raw in
      distinct (map target_key cs) \<and> distinct (map channel_id cs) \<and>
      (\<forall>c\<in>set cs. target_key c \<notin> set tracking \<and> target_key c \<notin> fst ` set seen \<and> channel_id c \<notin> fst ` set channels) \<and>
      res = channels @ map (\<lambda>c. (channel_id c, c)) cs)"
proof (induction tracking raw seen channels rule: build_registry.induct)
  case (2 tracking key c rest seen channels)
  show ?case
  proof (cases "map_of seen (target_key c) = None \<and> target_key c \<notin> set tracking \<and> map_of channels (channel_id c) = None")
    case True
    then have fresh: "target_key c \<notin> fst ` set seen" "channel_id c \<notin> fst ` set channels"
      by (simp_all add: map_of_eq_None_iff)
    have step: "build_registry tracking ((key, c) # rest) seen channels =
        build_registry tracking rest (seen @ [(target_key c, channel_id c)]) (channels @ [(channel_id c, c)])"
      using True fresh by (simp add: update_fresh)
    have "build_registry tracking rest (seen @ [(target_key c, channel_id c)]) (channels @ [(channel_id c, c)]) = Inr res
        \<longleftrightarrow> (let cs = map snd rest in
          distinct (map target_key cs) \<and> distinct (map channel_id cs) \<and>
          (\<forall>d\<in>set cs. target_key d \<notin> set tracking \<and> target_key d \<notin> fst ` set (seen @ [(target_key c, channel_id c)]) \<and>
             channel_id d \<notin> fst ` set (channels @ [(channel_id c, c)])) \<and>
          res = (channels @ [(channel_id c, c)]) @ map (\<lambda>c. (channel_id c, c)) cs)"
      using 2 True fresh by (simp add: update_fresh)
    then show ?thesis using True fresh unfolding step Let_def 
      by (simp add: ball_conj_distrib image_iff conj_ac eq_commute[of "target_key c" "target_key _"]
          eq_commute[of "channel_id c" "channel_id _"])
  next
    case False
    then have "target_key c \<in> fst ` set seen \<or> target_key c \<in> set tracking \<or> channel_id c \<in> fst ` set channels"
      by (auto simp: map_of_eq_None_iff)
    moreover have "build_registry tracking ((key, c) # rest) seen channels \<noteq> Inr res"
      using False by (cases "map_of seen (target_key c)") auto
    ultimately show ?thesis unfolding Let_def list.map snd_conv list.set by blast
  qed
qed (auto simp: Let_def)

text \<open>The validation of release channels accepts a configuration exactly when it keeps the
  documented rules: names are not empty and free of slashes, no channel promotes to
  its own tracking branch or to one that any channel tracks, target branches and
  channel identifiers are unique.  The result does not depend on the order in which a hash
  map is visited, and the registry has every channel under its identifier.\<close>

theorem validate_channels_exact:
  "validate_channels raw = Inr channels \<longleftrightarrow>
     (\<forall>c\<in>snd ` set raw. channel_names_ok c \<and> target_key c \<notin> tracking_key ` snd ` set raw) \<and>
     distinct (map (target_key \<circ> snd) raw) \<and> distinct (map (channel_id \<circ> snd) raw) \<and>
     channels = map (\<lambda>(_, c). (channel_id c, c)) raw"
proof (cases "\<forall>c\<in>snd ` set raw. channel_names_ok c")
  case True
  then have "check_names raw [] = Inr (fold hs_insert (map (tracking_key \<circ> snd) raw) [])" by (simp add: check_names_Inr)
  then have "validate_channels raw = build_registry (fold hs_insert (map (tracking_key \<circ> snd) raw) []) raw [] []"
    by (simp add: validate_channels_def)
  then show ?thesis using True by (auto simp: build_registry_Inr Let_def comp_def case_prod_beta image_image)
next
  case False
  then have "\<nexists>T. check_names raw [] = Inr T" by (simp add: check_names_Inr)
  then obtain e where "check_names raw [] = Inl e" by (cases "check_names raw []") auto
  then show ?thesis using False by (auto simp: validate_channels_def)
qed

theorem validate_channels_exact_witness:
  "validate_channels [(''stable'', demo_channel)] = Inr [(channel_id demo_channel, demo_channel)]"
  by (subst validate_channels_exact) (simp add: demo_channel_def channel_names_ok_def target_key_def tracking_key_def)

text \<open>Owners are compared as written, although pushes are matched without regard to case: two
  channels of one repository may push to the same branch, and one may push to the branch
  another tracks.\<close>

lemma validate_channels_owner_case:
  fixes c d e
  defines "c \<equiv> demo_channel" and "d \<equiv> demo_channel\<lparr>cc_owner := ''Eka'', cc_name := ''beta''\<rparr>"
    and "e \<equiv> demo_channel\<lparr>cc_owner := ''EKA'', cc_tracking_branch := ''unstable'', cc_target_branch := ''old''\<rparr>"
  shows "\<exists>channels. validate_channels [(''c'', c), (''d'', d), (''e'', e)] = Inr channels \<and>
    match_target_branch_channels channels GitHub ''eka'' ''pkgs'' ''unstable'' = [c, d] \<and>
    match_push_channels channels GitHub ''eka'' ''pkgs'' ''unstable'' = [e]"
proof -
  let ?r = "[(channel_id c, c), (channel_id d, d), (channel_id e, e)]"
  have "validate_channels [(''c'', c), (''d'', d), (''e'', e)] = Inr ?r"
    by (subst validate_channels_exact)
       (simp add: c_def d_def e_def demo_channel_def channel_names_ok_def target_key_def tracking_key_def channel_id_def)
  moreover have "ascii_lower CHR ''E'' = CHR ''e''" "ascii_lower CHR ''K'' = CHR ''k''" "ascii_lower CHR ''A'' = CHR ''a''"
      "ascii_lower CHR ''e'' = CHR ''e''" "ascii_lower CHR ''k'' = CHR ''k''" "ascii_lower CHR ''a'' = CHR ''a''"
    by code_simp+
  then have "match_target_branch_channels ?r GitHub ''eka'' ''pkgs'' ''unstable'' = [c, d]"
      "match_push_channels ?r GitHub ''eka'' ''pkgs'' ''unstable'' = [e]"
    by (simp_all add: match_target_branch_channels_def match_push_channels_def c_def d_def e_def demo_channel_def
        eq_ignore_ascii_case_def)
  ultimately show ?thesis by blast
qed

end
