(* ===== verification/Channel_Service.thy ===== *)
theory Channel_Service
  imports Release_Channel
begin

text \<open>
  The service that promotes release channels (\<open>server/src/channels/service.rs\<close>) and
  the handler of push webhooks that feeds it (\<open>server/src/github/webhook/push.rs\<close>).
  \<open>ChannelEnv\<close> is what a handler reads: the configured channels and senders, the job
  table, the clock and the answers of GitHub.  GitHub is asked through octocrab's raw
  \<open>_patch\<close>, which returns the response whatever its status code is; only failures of the
  transport are errors.
\<close>

section \<open>State\<close>

datatype ChannelTask = EvaluatePush ChannelConfig string | JobsetComplete ChannelForge string string string

record ChannelEnv =
  ce_channels :: "(string \<times> ChannelConfig) list"
  ce_octocrab :: "(string \<Rightarrow> string \<Rightarrow> (anyhow, nat) result) option"
  ce_github_sender :: bool
  ce_channel_sender :: bool
  ce_search_index_sender :: bool
  ce_jobs :: "JobRow list"
  ce_now :: int

text \<open>The table, the pending commits and the task queue, and what was sent: check runs, index
  requests, checkouts and requests to move a branch.\<close>

record ChannelService =
  cs_table :: PromotionTable
  cs_pending :: "string \<rightharpoonup> string"
  cs_tasks :: "ChannelTask channel"
  cs_checks :: "(string \<times> string \<times> string \<times> string \<times> PromotionStatus \<times> string list option) list"
  cs_indexes :: "(string \<times> ChannelConfig \<times> string) list"
  cs_checkouts :: "(string \<times> string \<times> string) list"
  cs_patches :: "(string \<times> string) list"

definition CHANNEL_TASK_BUFFER :: nat where
  "CHANNEL_TASK_BUFFER = 1000"

definition channel_service_new :: "PromotionTable \<Rightarrow> ChannelService" where
  "channel_service_new t = \<lparr> cs_table = t, cs_pending = Map.empty, cs_tasks = ch_new CHANNEL_TASK_BUFFER,
     cs_checks = [], cs_indexes = [], cs_checkouts = [], cs_patches = [] \<rparr>"

text \<open>The result of a handler; \<open>None\<close> when it waits for a place in the queue that only it empties.\<close>

type_synonym channel_outcome = "ChannelService \<times> (anyhow, unit) result option"

section \<open>Operations\<close>

definition fire_github_check_run ::
  "ChannelEnv \<Rightarrow> ChannelConfig \<Rightarrow> string \<Rightarrow> PromotionStatus \<Rightarrow> string list option \<Rightarrow> ChannelService \<Rightarrow> ChannelService" where
  "fire_github_check_run env c sha status reason s =
     (if ce_github_sender env \<and> cc_forge c = GitHub
      then s\<lparr>cs_checks := cs_checks s @ [(cc_owner c, cc_repo c, sha, cc_name c, status, reason)]\<rparr>
      else s)"

definition snapshot_job_states :: "ChannelEnv \<Rightarrow> ChannelConfig \<Rightarrow> string \<Rightarrow> (string \<rightharpoonup> LocalState)" where
  "snapshot_job_states env c sha =
     snapshot_job_states_for_sha (cc_owner c) (cc_repo c) sha (cc_required c @ cc_packages c) (ce_jobs env)"

definition ref_route :: "ChannelConfig \<Rightarrow> string" where
  "ref_route c = ''/repos/'' @ cc_owner c @ ''/'' @ cc_repo c @ ''/git/refs/heads/'' @ cc_target_branch c"

definition perform_github_promotion ::
  "ChannelEnv \<Rightarrow> ChannelConfig \<Rightarrow> string \<Rightarrow> ChannelService \<Rightarrow> ChannelService \<times> (anyhow, string option) result" where
  "perform_github_promotion env c sha s =
     (case ce_octocrab env of
        None \<Rightarrow> (s, Inl ''octocrab client unavailable'')
      | Some patch \<Rightarrow>
          (let s1 = s\<lparr>cs_patches := cs_patches s @ [(ref_route c, sha)]\<rparr>
           in case patch (ref_route c) sha of
                Inl e \<Rightarrow> (s1, Inl e)
              | Inr _ \<Rightarrow> (s1, Inr None)))"

definition perform_promotion ::
  "ChannelEnv \<Rightarrow> ChannelConfig \<Rightarrow> string \<Rightarrow> ChannelService \<Rightarrow> ChannelService \<times> (anyhow, string option) result" where
  "perform_promotion env c sha s =
     (if cc_dry_run c then (s, Inr None)
      else case cc_forge c of
             GitHub \<Rightarrow> perform_github_promotion env c sha s
           | _ \<Rightarrow> (s, Inl ''only GitHub is supported in this release''))"

definition dispatch_search_index :: "ChannelEnv \<Rightarrow> ChannelConfig \<Rightarrow> string \<Rightarrow> ChannelService \<Rightarrow> ChannelService" where
  "dispatch_search_index env c sha s =
     (if ce_search_index_sender env then s\<lparr>cs_indexes := cs_indexes s @ [(channel_id c, c, sha)]\<rparr> else s)"

definition already_decided :: "string \<Rightarrow> string \<Rightarrow> ChannelService \<Rightarrow> bool" where
  "already_decided cid sha s =
     (case get_latest_for_sha cid sha (cs_table s) of
        Some r \<Rightarrow> cp_status r = as_i64 Promoted \<or> cp_status r = as_i64 PromotionBlocked \<or> cp_status r = as_i64 PushFailed
      | None \<Rightarrow> False)"

definition drain_pending :: "ChannelConfig \<Rightarrow> ChannelService \<Rightarrow> channel_outcome" where
  "drain_pending c s =
     (let s1 = s\<lparr>cs_pending := (cs_pending s)(channel_id c := None)\<rparr>
      in case cs_pending s (channel_id c) of
           None \<Rightarrow> (s1, Some (Inr ()))
         | Some sha \<Rightarrow>
             if ch_has_room (cs_tasks s1)
             then (s1\<lparr>cs_tasks := ch_send (EvaluatePush c sha) (cs_tasks s1)\<rparr>, Some (Inr ()))
             else (s1, None))"

definition finalise ::
  "ChannelEnv \<Rightarrow> ChannelConfig \<Rightarrow> string \<Rightarrow> PromotionStatus \<Rightarrow> string list option \<Rightarrow> results \<Rightarrow> string option
    \<Rightarrow> ChannelService \<Rightarrow> ChannelService" where
  "finalise env c sha status reason res prev s =
     s\<lparr>cs_table := fst (finalise_evaluation (ce_now env) (channel_id c) sha status reason (Some res) prev (cs_table s))\<rparr>"

text \<open>Steps 4 and 5 of \<open>handle_evaluate_push\<close>, which \<open>handle_jobset_complete\<close> repeats.\<close>

definition settle_promotion :: "ChannelEnv \<Rightarrow> ChannelConfig \<Rightarrow> string \<Rightarrow> ChannelService \<Rightarrow> channel_outcome" where
  "settle_promotion env c sha s =
     (case evaluate_promotion c (snapshot_job_states env c sha) of
        DecisionReady res \<Rightarrow>
          (case perform_promotion env c sha s of
             (s1, Inl e) \<Rightarrow> (s1, Some (Inl e))
           | (s1, Inr prev) \<Rightarrow>
               drain_pending c
                 (dispatch_search_index env c sha
                   (fire_github_check_run env c sha Promoted None
                     (finalise env c sha Promoted None res prev s1))))
      | DecisionBlocked failed res \<Rightarrow>
          drain_pending c
            (fire_github_check_run env c sha PromotionBlocked (Some failed)
              (finalise env c sha PromotionBlocked (Some failed) res None s))
      | DecisionWaiting _ _ \<Rightarrow> (s, Some (Inr ())))"

definition skip_superseded :: "ChannelEnv \<Rightarrow> ChannelConfig \<Rightarrow> string \<Rightarrow> ChannelService \<Rightarrow> ChannelService" where
  "skip_superseded env c prev s =
     fire_github_check_run env c prev Skipped None
       (s\<lparr>cs_table := insert_skipped (ce_now env) (channel_id c) prev (cc_target_branch c) (cs_table s)\<rparr>)"

definition handle_evaluate_push :: "ChannelEnv \<Rightarrow> ChannelConfig \<Rightarrow> string \<Rightarrow> ChannelService \<Rightarrow> channel_outcome" where
  "handle_evaluate_push env c sha s =
     (let cid = channel_id c in
      if already_decided cid sha s then (s, Some (Inr ()))
      else case coalesce (map_option cp_tracking_sha (get_in_flight cid (cs_table s))) (cs_pending s cid) sha of
             AlreadyInFlight \<Rightarrow> (s, Some (Inr ()))
           | DeferAsPending previous \<Rightarrow>
               (let s1 = (case previous of None \<Rightarrow> s | Some prev \<Rightarrow> skip_superseded env c prev s)
                in (s1\<lparr>cs_pending := (cs_pending s1)(cid \<mapsto> sha)\<rparr>, Some (Inr ())))
           | StartFresh \<Rightarrow>
               (case insert_evaluating (ce_now env) cid sha (cc_target_branch c) (cs_table s) of
                  (t, Inl e) \<Rightarrow> (s\<lparr>cs_table := t\<rparr>, Some (Inl e))
                | (t, Inr _) \<Rightarrow>
                    settle_promotion env c sha (fire_github_check_run env c sha Evaluating None (s\<lparr>cs_table := t\<rparr>))))"

fun jobset_loop :: "ChannelEnv \<Rightarrow> string \<Rightarrow> ChannelConfig list \<Rightarrow> ChannelService \<Rightarrow> channel_outcome" where
  "jobset_loop env sha [] s = (s, Some (Inr ()))"
| "jobset_loop env sha (c # cs) s =
     (case get_in_flight (channel_id c) (cs_table s) of
        None \<Rightarrow> jobset_loop env sha cs s
      | Some row \<Rightarrow>
          if cp_tracking_sha row \<noteq> sha then jobset_loop env sha cs s
          else (case settle_promotion env c sha s of
                  (s1, Some (Inr _)) \<Rightarrow> jobset_loop env sha cs s1
                | (s1, r) \<Rightarrow> (s1, r)))"

definition handle_jobset_complete ::
  "ChannelEnv \<Rightarrow> ChannelForge \<Rightarrow> string \<Rightarrow> string \<Rightarrow> string \<Rightarrow> ChannelService \<Rightarrow> channel_outcome" where
  "handle_jobset_complete env forge owner repo sha s =
     jobset_loop env sha
       (filter (\<lambda>c. cc_forge c = forge \<and> eq_ignore_ascii_case (cc_owner c) owner \<and> cc_repo c = repo)
         (map snd (ce_channels env))) s"

fun channel_handle_task :: "ChannelEnv \<Rightarrow> ChannelTask \<Rightarrow> ChannelService \<Rightarrow> channel_outcome" where
  "channel_handle_task env (EvaluatePush c sha) s = handle_evaluate_push env c sha s"
| "channel_handle_task env (JobsetComplete forge owner repo sha) s = handle_jobset_complete env forge owner repo sha s"

section \<open>Push webhooks\<close>

record PushPayload =
  pp_deleted :: bool
  pp_ref :: string
  pp_after :: string

definition handle_tracking_branch ::
  "ChannelEnv \<Rightarrow> string \<Rightarrow> string \<Rightarrow> string \<Rightarrow> string \<Rightarrow> ChannelService \<Rightarrow> ChannelService" where
  "handle_tracking_branch env owner repo branch sha s =
     (let matches = match_push_channels (ce_channels env) GitHub owner repo branch in
      if matches = [] then s
      else let s1 = s\<lparr>cs_checkouts := cs_checkouts s @ [(owner, repo, sha)]\<rparr>
           in if ce_channel_sender env
              then fold (\<lambda>c s. s\<lparr>cs_tasks := ch_send (EvaluatePush c sha) (cs_tasks s)\<rparr>) matches s1
              else s1)"

definition handle_target_branch ::
  "ChannelEnv \<Rightarrow> string \<Rightarrow> string \<Rightarrow> string \<Rightarrow> string \<Rightarrow> ChannelService \<Rightarrow> ChannelService" where
  "handle_target_branch env owner repo branch sha s =
     (if ce_search_index_sender env
      then fold (\<lambda>c s. s\<lparr>cs_indexes := cs_indexes s @ [(channel_id c, c, sha)]\<rparr>)
             (match_target_branch_channels (ce_channels env) GitHub owner repo branch) s
      else s)"

definition handle_github_push ::
  "ChannelEnv \<Rightarrow> PushPayload \<Rightarrow> (string \<times> string) option \<Rightarrow> ChannelService \<Rightarrow> ChannelService" where
  "handle_github_push env payload repository_info s =
     (if pp_deleted payload then s
      else case repository_info of
             None \<Rightarrow> s
           | Some (owner, repo) \<Rightarrow>
               (case strip_prefix_str ''refs/heads/'' (pp_ref payload) of
                  None \<Rightarrow> s
                | Some branch \<Rightarrow>
                    handle_target_branch env owner repo branch (pp_after payload)
                      (handle_tracking_branch env owner repo branch (pp_after payload) s)))"

section \<open>Runs of the service\<close>

text \<open>A run with its arrivals since the last start.  Tasks are handled one at a time in the order of
  the queue; the environment may differ at every step.  A restart keeps the table only.\<close>

inductive channel_reachable :: "(ChannelConfig \<times> string) list \<Rightarrow> bool \<Rightarrow> ChannelService \<Rightarrow> bool" where
  start: "channel_reachable [] False (channel_service_new \<lparr> pt_rows = [], pt_next = 1 \<rparr>)"
| arrive_push: "channel_reachable arrived hung s \<Longrightarrow> ch_has_room (cs_tasks s) \<Longrightarrow>
    channel_reachable (arrived @ [(c, sha)]) hung (s\<lparr>cs_tasks := ch_send (EvaluatePush c sha) (cs_tasks s)\<rparr>)"
| arrive_jobset: "channel_reachable arrived hung s \<Longrightarrow> ch_has_room (cs_tasks s) \<Longrightarrow>
    channel_reachable arrived hung (s\<lparr>cs_tasks := ch_send (JobsetComplete forge owner repo sha) (cs_tasks s)\<rparr>)"
| serve: "channel_reachable arrived False s \<Longrightarrow> ch_try_recv (cs_tasks s) = Some (t, ch) \<Longrightarrow>
    channel_handle_task env t (s\<lparr>cs_tasks := ch\<rparr>) = (s', r) \<Longrightarrow> channel_reachable arrived (r = None) s'"
| restart: "channel_reachable arrived hung s \<Longrightarrow> channel_reachable [] False (channel_service_new (cs_table s))"

end
