(* ===== verification/Channel_Props.thy ===== *)
theory Channel_Props
  imports Channel_Service
begin

text \<open>
  Properties of the channel service.  The invariant speaks of the rows of one channel
  at a time: at most one is open, the rows of one commit are skipped ones followed by
  at most one other, and a pending commit has only skipped rows while another commit is
  being evaluated.
\<close>

section \<open>The rows of a channel\<close>

definition chan_rows :: "string \<Rightarrow> PromotionTable \<Rightarrow> ChannelPromotionRow list" where
  "chan_rows cid t = filter (\<lambda>r. cp_channel_id r = cid) (pt_rows t)"

definition is_open :: "ChannelPromotionRow \<Rightarrow> bool" where
  "is_open r = (cp_status r = as_i64 Evaluating)"

definition is_skipped :: "ChannelPromotionRow \<Rightarrow> bool" where
  "is_skipped r = (cp_status r = as_i64 Skipped)"

definition is_decided :: "ChannelPromotionRow \<Rightarrow> bool" where
  "is_decided r = (cp_status r \<in> {as_i64 Promoted, as_i64 PromotionBlocked, as_i64 PushFailed})"

abbreviation of_sha :: "string \<Rightarrow> ChannelPromotionRow \<Rightarrow> bool" where
  "of_sha sha r \<equiv> cp_tracking_sha r = sha"

definition rows_ok :: "ChannelPromotionRow list \<Rightarrow> bool" where
  "rows_ok rs = (length (filter is_open rs) \<le> 1 \<and>
     (\<forall>sha. list_all is_skipped (butlast (filter (of_sha sha) rs))) \<and>
     list_all (\<lambda>r. is_open r \<or> is_skipped r \<or> is_decided r) rs)"

definition only_skipped :: "string \<Rightarrow> ChannelPromotionRow list \<Rightarrow> bool" where
  "only_skipped sha rs = list_all is_skipped (filter (of_sha sha) rs)"

lemma status_exclusive:
  "is_open r \<Longrightarrow> \<not> is_skipped r" "is_open r \<Longrightarrow> \<not> is_decided r" "is_skipped r \<Longrightarrow> \<not> is_decided r"
  "is_skipped r \<Longrightarrow> \<not> is_open r" "is_decided r \<Longrightarrow> \<not> is_open r" "is_decided r \<Longrightarrow> \<not> is_skipped r"
  by (auto simp: is_open_def is_skipped_def is_decided_def)

lemma rows_ok_snoc:
  assumes "rows_ok rs" "only_skipped (cp_tracking_sha r) rs" "is_skipped r \<or> is_open r \<and> filter is_open rs = []"
  shows "rows_ok (rs @ [r])"
  using assms by (auto simp: rows_ok_def only_skipped_def dest: status_exclusive)

lemma map_keeps_filter: "(\<And>r. P (f r) = P r) \<Longrightarrow> filter P (map f rs) = map f (filter P rs)"
  by (induction rs) auto

text \<open>The update of \<open>finalise_evaluation\<close> on the rows of a channel.\<close>

lemma rows_ok_close:
  assumes ok: "rows_ok rs"
    and f: "\<And>r. cp_tracking_sha (f r) = cp_tracking_sha r" "\<And>r. \<not> is_open r \<Longrightarrow> f r = r"
      "\<And>r. is_open r \<Longrightarrow> f r = r \<or> is_decided (f r)"
  shows "rows_ok (map f rs)"
proof -
  have "length (filter is_open (map f rs)) \<le> length (filter is_open rs)"
  proof (induction rs)
    case (Cons r rs)
    have "is_open r" if "is_open (f r)" using that f(2)[of r] by (cases "is_open r") auto
    then show ?case using Cons by auto
  qed simp
  moreover have "list_all is_skipped (butlast (filter (of_sha sha) (map f rs)))" for sha
  proof -
    have "f r = r" if "is_skipped r" for r using f(2)[of r] that status_exclusive by blast
    then have "list_all is_skipped (map f xs)" if "list_all is_skipped xs" for xs
      using that by (induction xs) auto
    then show ?thesis using ok f(1) by (simp add: rows_ok_def map_keeps_filter map_butlast[symmetric])
  qed
  moreover have "is_open (f r) \<or> is_skipped (f r) \<or> is_decided (f r)" if "r \<in> set rs" for r
  proof -
    have "is_open r \<or> is_skipped r \<or> is_decided r" using that ok by (simp add: rows_ok_def list_all_iff)
    then show ?thesis using f(2)[of r] f(3)[of r] by (cases "is_open r") auto
  qed
  ultimately show ?thesis using ok unfolding rows_ok_def by (auto simp: list_all_iff)
qed

lemma find_mem: "find P xs = Some x \<Longrightarrow> x \<in> set xs \<and> P x"
  by (induction xs) (auto split: if_splits)

lemma find_rev_last: "find P (rev rs) = (if filter P rs = [] then None else Some (last (filter P rs)))"
  by (induction rs rule: rev_induct) auto

text \<open>A commit without a decision that is not being evaluated was skipped every time.\<close>

lemma only_skipped_undecided:
  assumes ok: "rows_ok rs" and undec: "\<And>r. find (of_sha sha) (rev rs) = Some r \<Longrightarrow> \<not> is_decided r"
    and closed: "\<And>r. r \<in> set rs \<Longrightarrow> is_open r \<Longrightarrow> cp_tracking_sha r \<noteq> sha"
  shows "only_skipped sha rs"
proof (cases "filter (of_sha sha) rs = []")
  case False
  let ?fs = "filter (of_sha sha) rs"
  have "last ?fs \<in> set rs" "cp_tracking_sha (last ?fs) = sha" using last_in_set[OF False] by auto
  moreover have "\<not> is_decided (last ?fs)" using undec False by (simp add: find_rev_last)
  ultimately have "is_skipped (last ?fs)" using ok closed by (auto simp: rows_ok_def list_all_iff)
  moreover have "list_all is_skipped (butlast ?fs)" using ok by (simp add: rows_ok_def)
  ultimately have "list_all is_skipped (butlast ?fs @ [last ?fs])" by simp
  then show ?thesis unfolding only_skipped_def append_butlast_last_id[OF False] .
qed (simp add: only_skipped_def)

lemma rows_ok_one_decision:
  assumes "rows_ok rs"
  shows "length (filter (\<lambda>r. of_sha sha r \<and> is_decided r) rs) \<le> 1"
proof -
  let ?fs = "filter (of_sha sha) rs"
  have "filter is_decided (butlast ?fs) = []"
    using assms by (auto simp: rows_ok_def list_all_iff filter_empty_conv dest: status_exclusive)
  then have "length (filter is_decided ?fs) \<le> 1"
    by (cases "?fs = []") (simp, metis append_butlast_last_id filter_append append_Nil length_filter_le length_Cons list.size(3) One_nat_def)
  then show ?thesis by (simp add: filter_filter conj_commute)
qed

lemma rows_ok_open_unique:
  assumes "rows_ok rs" "r \<in> set rs" "is_open r" "r' \<in> set rs" "is_open r'"
  shows "r = r'"
proof -
  obtain x where "filter is_open rs = [x] \<or> filter is_open rs = []"
    using assms(1) by (cases "filter is_open rs") (auto simp: rows_ok_def)
  moreover have "r \<in> set (filter is_open rs)" "r' \<in> set (filter is_open rs)" using assms by auto
  ultimately have "r \<in> set [x] \<and> r' \<in> set [x]" by (metis empty_iff list.set(1))
  then show ?thesis by simp
qed

section \<open>Operations and the rows of a channel\<close>

lemma fire_simps [simp]:
  "cs_table (fire_github_check_run env c sha st re s) = cs_table s"
  "cs_pending (fire_github_check_run env c sha st re s) = cs_pending s"
  "cs_tasks (fire_github_check_run env c sha st re s) = cs_tasks s"
  "cs_patches (fire_github_check_run env c sha st re s) = cs_patches s"
  by (simp_all add: fire_github_check_run_def)

lemma dispatch_simps [simp]:
  "cs_table (dispatch_search_index env c sha s) = cs_table s"
  "cs_pending (dispatch_search_index env c sha s) = cs_pending s"
  "cs_tasks (dispatch_search_index env c sha s) = cs_tasks s"
  "cs_patches (dispatch_search_index env c sha s) = cs_patches s"
  by (simp_all add: dispatch_search_index_def)

lemma perform_promotion_same:
  assumes "perform_promotion env c sha s = (s1, r)"
  shows "cs_table s1 = cs_table s" "cs_pending s1 = cs_pending s" "cs_tasks s1 = cs_tasks s"
  using assms by (auto simp: perform_promotion_def perform_github_promotion_def Let_def
      split: if_splits ChannelForge.splits option.splits sum.splits)

lemma finalise_simps [simp]:
  "cs_pending (finalise env c sha st re res prev s) = cs_pending s"
  "cs_tasks (finalise env c sha st re res prev s) = cs_tasks s"
  "cs_patches (finalise env c sha st re res prev s) = cs_patches s"
  by (simp_all add: finalise_def)

lemma drain_pending_table [simp]: "cs_table (fst (drain_pending c s)) = cs_table s"
    "cs_patches (fst (drain_pending c s)) = cs_patches s"
  by (simp_all add: drain_pending_def Let_def split: option.split)

lemma drain_pending_pending [simp]: "cs_pending (fst (drain_pending c s)) = (cs_pending s)(channel_id c := None)"
  by (simp add: drain_pending_def Let_def split: option.split)

definition close_row ::
  "int \<Rightarrow> string \<Rightarrow> PromotionStatus \<Rightarrow> string list option \<Rightarrow> results option \<Rightarrow> string option \<Rightarrow> ChannelPromotionRow \<Rightarrow> ChannelPromotionRow" where
  "close_row now sha st re res prev r =
     (if of_sha sha r \<and> is_open r
      then r\<lparr>cp_status := as_i64 st, cp_blocked_reason := re, cp_required_results := res,
             cp_previous_target_sha := prev, cp_completed_at := Some now\<rparr>
      else r)"

lemma chan_rows_finalise:
  "chan_rows cid (cs_table (finalise env c sha st re res prev s)) =
     (if cid = channel_id c then map (close_row (ce_now env) sha st re (Some res) prev) (chan_rows cid (cs_table s))
      else chan_rows cid (cs_table s))"
proof -
  let ?f = "\<lambda>r. if is_open_row (channel_id c) sha r
         then r\<lparr>cp_status := as_i64 st, cp_blocked_reason := re, cp_required_results := Some res,
                cp_previous_target_sha := prev, cp_completed_at := Some (ce_now env)\<rparr>
         else r"
  have "filter (\<lambda>r. cp_channel_id r = cid) (map ?f rs) =
      (if cid = channel_id c then map (close_row (ce_now env) sha st re (Some res) prev) (filter (\<lambda>r. cp_channel_id r = cid) rs)
       else filter (\<lambda>r. cp_channel_id r = cid) rs)" for rs
    by (induction rs) (auto simp: close_row_def is_open_row_def is_open_def)
  then show ?thesis by (simp add: finalise_def finalise_evaluation_def chan_rows_def)
qed

lemma get_in_flight_rows: "get_in_flight cid t = find is_open (chan_rows cid t)"
proof -
  have "find (\<lambda>r. cp_channel_id r = cid \<and> cp_status r = as_i64 Evaluating) rs =
      find is_open (filter (\<lambda>r. cp_channel_id r = cid) rs)" for rs
    by (induction rs) (auto simp: is_open_def)
  then show ?thesis by (simp add: get_in_flight_def chan_rows_def)
qed

lemma in_flight_None: "get_in_flight cid t = None \<longleftrightarrow> (\<forall>r\<in>set (chan_rows cid t). \<not> is_open r)"
  by (auto simp: get_in_flight_rows find_None_iff)

lemma get_latest_rows: "get_latest_for_sha cid sha t = find (of_sha sha) (rev (chan_rows cid t))"
proof -
  have "find (\<lambda>r. cp_channel_id r = cid \<and> cp_tracking_sha r = sha) rs =
      find (of_sha sha) (filter (\<lambda>r. cp_channel_id r = cid) rs)" for rs
    by (induction rs) auto
  then show ?thesis by (simp add: get_latest_for_sha_def chan_rows_def rev_filter)
qed

lemma chan_rows_skipped:
  "chan_rows cid (insert_skipped now cid' sha target t) =
     chan_rows cid t @ (if cid = cid' then [last (pt_rows (insert_skipped now cid' sha target t))] else [])"
  by (simp add: chan_rows_def insert_skipped_def)

lemma last_skipped:
  "is_skipped (last (pt_rows (insert_skipped now cid sha target t)))"
  "cp_tracking_sha (last (pt_rows (insert_skipped now cid sha target t))) = sha"
  by (simp_all add: insert_skipped_def is_skipped_def)

lemma insert_evaluating_rows:
  assumes "insert_evaluating now cid sha target t = (t', Inr i)"
  shows "filter is_open (chan_rows cid t) = []"
    and "\<exists>r. is_open r \<and> cp_tracking_sha r = sha \<and> chan_rows cid' t' = chan_rows cid' t @ (if cid' = cid then [r] else [])"
  using assms
  by (auto simp: insert_evaluating_def chan_rows_def is_open_def filter_empty_conv split: if_splits
      intro!: exI[of _ "last (pt_rows t')"])

section \<open>Invariant\<close>

definition chan_inv :: "ChannelService \<Rightarrow> bool" where
  "chan_inv s = (\<forall>cid. rows_ok (chan_rows cid (cs_table s)) \<and>
     (\<forall>p. cs_pending s cid = Some p \<longrightarrow>
        (\<exists>r\<in>set (chan_rows cid (cs_table s)). is_open r) \<and> only_skipped p (chan_rows cid (cs_table s))))"

lemma chan_inv_new: "(\<And>cid. rows_ok (chan_rows cid t)) \<Longrightarrow> chan_inv (channel_service_new t)"
  by (simp add: chan_inv_def channel_service_new_def)

lemma chan_inv_cong: "cs_table s' = cs_table s \<Longrightarrow> cs_pending s' = cs_pending s \<Longrightarrow> chan_inv s' = chan_inv s"
  by (simp add: chan_inv_def)

lemma chan_inv_close:
  assumes "chan_inv s" "cs_table s' = cs_table (finalise env c sha st re res prev s)"
    and "cs_pending s' = (cs_pending s)(channel_id c := None)" "st \<in> {Promoted, PromotionBlocked}"
  shows "chan_inv s'"
proof -
  have "rows_ok (map (close_row now sha st re res' prev) rs)" if "rows_ok rs" for rs now res'
    using assms(4) by (intro rows_ok_close[OF that]) (auto simp: close_row_def is_open_def is_decided_def)
  then show ?thesis using assms by (auto simp: chan_inv_def chan_rows_finalise)
qed

lemma settle_inv:
  assumes "chan_inv s"
  shows "chan_inv (fst (settle_promotion env c sha s))"
proof (cases "evaluate_promotion c (snapshot_job_states env c sha)")
  case (DecisionReady res)
  obtain s1 r where pp: "perform_promotion env c sha s = (s1, r)" by (cases "perform_promotion env c sha s")
  note same = perform_promotion_same[OF pp]
  have inv1: "chan_inv s1" using assms same by (simp add: chan_inv_def)
  show ?thesis
  proof (cases r)
    case (Inr prev)
    let ?s2 = "finalise env c sha Promoted None res prev s1"
    let ?s' = "fst (drain_pending c (dispatch_search_index env c sha (fire_github_check_run env c sha Promoted None ?s2)))"
    have "chan_inv ?s'" by (rule chan_inv_close[OF inv1, where st = Promoted]) simp_all
    then show ?thesis using DecisionReady pp Inr by (simp add: settle_promotion_def)
  qed (use DecisionReady pp inv1 in \<open>simp add: settle_promotion_def\<close>)
next
  case (DecisionBlocked failed res)
  let ?s1 = "finalise env c sha PromotionBlocked (Some failed) res None s"
  have "chan_inv (fst (drain_pending c (fire_github_check_run env c sha PromotionBlocked (Some failed) ?s1)))"
    by (rule chan_inv_close[OF assms, where st = PromotionBlocked]) simp_all
  then show ?thesis using DecisionBlocked by (simp add: settle_promotion_def)
qed (use assms in \<open>simp add: settle_promotion_def\<close>)

lemma undecided_only_skipped:
  assumes inv: "chan_inv s" and undec: "\<not> already_decided cid sha s"
    and fl: "map_option cp_tracking_sha (get_in_flight cid (cs_table s)) \<noteq> Some sha"
  shows "only_skipped sha (chan_rows cid (cs_table s))"
proof (rule only_skipped_undecided)
  show ok: "rows_ok (chan_rows cid (cs_table s))" using inv by (simp add: chan_inv_def)
  show "\<not> is_decided r" if "find (of_sha sha) (rev (chan_rows cid (cs_table s))) = Some r" for r
    using undec that by (auto simp: already_decided_def get_latest_rows is_decided_def)
  show "cp_tracking_sha r \<noteq> sha" if r: "r \<in> set (chan_rows cid (cs_table s))" "is_open r" for r
  proof -
    obtain r0 where r0: "find is_open (chan_rows cid (cs_table s)) = Some r0"
      using r by (cases "find is_open (chan_rows cid (cs_table s))") (auto simp: find_None_iff)
    then have "r0 \<in> set (chan_rows cid (cs_table s))" "is_open r0" by (auto simp: find_Some_iff in_set_conv_nth)
    then have "r0 = r" using rows_ok_open_unique[OF ok] r by blast
    then show ?thesis using fl r0 by (simp add: get_in_flight_rows)
  qed
qed

lemma skip_superseded_simps [simp]:
  "cs_pending (skip_superseded env c prev s) = cs_pending s"
  "cs_tasks (skip_superseded env c prev s) = cs_tasks s"
  "cs_patches (skip_superseded env c prev s) = cs_patches s"
  by (simp_all add: skip_superseded_def)

lemma skip_superseded_rows:
  "\<exists>r. is_skipped r \<and> cp_tracking_sha r = prev \<and>
     chan_rows cid (cs_table (skip_superseded env c prev s)) =
       chan_rows cid (cs_table s) @ (if cid = channel_id c then [r] else [])"
  by (rule exI[of _ "last (pt_rows (insert_skipped (ce_now env) (channel_id c) prev (cc_target_branch c) (cs_table s)))"])
     (simp add: skip_superseded_def chan_rows_skipped last_skipped)

lemma skip_superseded_inv:
  assumes "chan_inv s" "only_skipped prev (chan_rows (channel_id c) (cs_table s))"
  shows "chan_inv (skip_superseded env c prev s)"
  unfolding chan_inv_def
proof (intro allI)
  fix cid
  obtain r where r: "is_skipped r" "cp_tracking_sha r = prev"
      "chan_rows cid (cs_table (skip_superseded env c prev s)) =
         chan_rows cid (cs_table s) @ (if cid = channel_id c then [r] else [])"
    using skip_superseded_rows by metis
  have ok: "rows_ok (chan_rows cid (cs_table s))" using assms(1) by (simp add: chan_inv_def)
  have "rows_ok (chan_rows cid (cs_table s) @ [r])" if "cid = channel_id c"
    using rows_ok_snoc[OF ok, of r] assms(2) r that by simp
  then show "rows_ok (chan_rows cid (cs_table (skip_superseded env c prev s))) \<and>
      (\<forall>p. cs_pending (skip_superseded env c prev s) cid = Some p \<longrightarrow>
        (\<exists>r\<in>set (chan_rows cid (cs_table (skip_superseded env c prev s))). is_open r) \<and>
        only_skipped p (chan_rows cid (cs_table (skip_superseded env c prev s))))"
    using assms(1) ok r by (auto simp: chan_inv_def only_skipped_def)
qed

lemma defer_inv:
  assumes "chan_inv s" "only_skipped sha (chan_rows (channel_id c) (cs_table s))"
    and "get_in_flight (channel_id c) (cs_table s) = Some row"
  shows "chan_inv (s\<lparr>cs_pending := (cs_pending s)(channel_id c \<mapsto> sha)\<rparr>)"
proof -
  have "\<exists>r\<in>set (chan_rows (channel_id c) (cs_table s)). is_open r"
    using assms(3) by (auto simp: get_in_flight_rows find_Some_iff intro!: bexI[of _ row])
  then show ?thesis using assms(1,2) by (auto simp: chan_inv_def)
qed

lemma fresh_inv:
  assumes inv: "chan_inv s" and skip: "only_skipped sha (chan_rows (channel_id c) (cs_table s))"
    and ins: "insert_evaluating now (channel_id c) sha target (cs_table s) = (t, Inr i)"
  shows "chan_inv (s\<lparr>cs_table := t\<rparr>)"
  unfolding chan_inv_def
proof (intro allI)
  fix cid
  note rows = insert_evaluating_rows[OF ins]
  obtain r where r: "is_open r" "cp_tracking_sha r = sha"
      "chan_rows cid t = chan_rows cid (cs_table s) @ (if cid = channel_id c then [r] else [])"
    using rows(2) by metis
  have ok: "rows_ok (chan_rows cid (cs_table s))" using inv by (simp add: chan_inv_def)
  have "rows_ok (chan_rows cid (cs_table s) @ [r])" if "cid = channel_id c"
    using rows_ok_snoc[OF ok, of r] skip r rows(1) that by simp
  moreover have "cs_pending s (channel_id c) = None"
    using inv rows(1) by (cases "cs_pending s (channel_id c)") (auto simp: chan_inv_def filter_empty_conv)
  ultimately show "rows_ok (chan_rows cid (cs_table (s\<lparr>cs_table := t\<rparr>))) \<and>
      (\<forall>p. cs_pending (s\<lparr>cs_table := t\<rparr>) cid = Some p \<longrightarrow>
        (\<exists>r\<in>set (chan_rows cid (cs_table (s\<lparr>cs_table := t\<rparr>))). is_open r) \<and>
        only_skipped p (chan_rows cid (cs_table (s\<lparr>cs_table := t\<rparr>))))"
    using inv ok r by (auto simp: chan_inv_def)
qed

text \<open>What each branch of the coalescer means.\<close>

lemma coalesce_cases:
  "coalesce fl pend sha = StartFresh \<longleftrightarrow> fl = None"
  "coalesce fl pend sha = AlreadyInFlight \<longleftrightarrow> fl = Some sha \<or> fl \<noteq> None \<and> pend = Some sha"
  "coalesce fl pend sha = DeferAsPending prev \<longleftrightarrow> fl \<noteq> None \<and> fl \<noteq> Some sha \<and> pend \<noteq> Some sha \<and> prev = pend"
  by (auto simp: coalesce_def split: option.splits)

lemma evaluate_push_inv:
  assumes inv: "chan_inv s"
  shows "chan_inv (fst (handle_evaluate_push env c sha s))"
proof (cases "already_decided (channel_id c) sha s")
  case False
  let ?fl = "map_option cp_tracking_sha (get_in_flight (channel_id c) (cs_table s))"
  let ?rows = "chan_rows (channel_id c) (cs_table s)"
  show ?thesis
  proof (cases "coalesce ?fl (cs_pending s (channel_id c)) sha")
    case StartFresh
    then have nofl: "?fl \<noteq> Some sha" by (simp add: coalesce_cases)
    have skip: "only_skipped sha ?rows" by (rule undecided_only_skipped[OF inv False nofl])
    obtain t r where ins: "insert_evaluating (ce_now env) (channel_id c) sha (cc_target_branch c) (cs_table s) = (t, r)"
      by (cases "insert_evaluating (ce_now env) (channel_id c) sha (cc_target_branch c) (cs_table s)")
    show ?thesis
    proof (cases r)
      case (Inl e)
      then have "t = cs_table s" using ins by (auto simp: insert_evaluating_def split: if_splits)
      then show ?thesis using inv False StartFresh ins Inl by (simp add: handle_evaluate_push_def Let_def chan_inv_def)
    next
      case (Inr i)
      have "chan_inv (fire_github_check_run env c sha Evaluating None (s\<lparr>cs_table := t\<rparr>))"
        using fresh_inv[OF inv skip] ins Inr by (subst chan_inv_cong[of _ "s\<lparr>cs_table := t\<rparr>"]) auto
      then show ?thesis using False StartFresh ins Inr settle_inv by (simp add: handle_evaluate_push_def Let_def)
    qed
  next
    case AlreadyInFlight
    then show ?thesis using inv False by (simp add: handle_evaluate_push_def Let_def)
  next
    case (DeferAsPending prev)
    then have fl: "?fl \<noteq> None" "?fl \<noteq> Some sha" "cs_pending s (channel_id c) = prev" "prev \<noteq> Some sha"
      by (auto simp: coalesce_cases)
    have skip: "only_skipped sha ?rows" by (rule undecided_only_skipped[OF inv False fl(2)])
    let ?s1 = "case prev of None \<Rightarrow> s | Some p \<Rightarrow> skip_superseded env c p s"
    have inv1: "chan_inv ?s1"
      using inv fl(3) skip_superseded_inv[OF inv] by (auto simp: chan_inv_def split: option.split)
    have "\<exists>rs. chan_rows (channel_id c) (cs_table ?s1) = ?rows @ rs \<and> list_all (\<lambda>r. is_skipped r \<and> \<not> of_sha sha r) rs"
    proof (cases prev)
      case (Some p)
      then show ?thesis using skip_superseded_rows[of p "channel_id c" env c s] fl(4) by fastforce
    qed simp
    then obtain rs where rs: "chan_rows (channel_id c) (cs_table ?s1) = ?rows @ rs" "list_all (\<lambda>r. is_skipped r \<and> \<not> of_sha sha r) rs"
      by blast
    have "only_skipped sha (chan_rows (channel_id c) (cs_table ?s1))"
      using skip rs by (auto simp: only_skipped_def list_all_iff)
    moreover have "get_in_flight (channel_id c) (cs_table ?s1) \<noteq> None"
      using fl(1) rs(1) by (auto simp: in_flight_None)
    ultimately show ?thesis using defer_inv[OF inv1] False DeferAsPending
      by (auto simp: handle_evaluate_push_def Let_def)
  qed
qed (use inv in \<open>simp add: handle_evaluate_push_def Let_def\<close>)

lemma jobset_loop_inv: "chan_inv s \<Longrightarrow> chan_inv (fst (jobset_loop env sha cs s))"
proof (induction env sha cs s rule: jobset_loop.induct)
  case (2 env sha c cs s)
  have "chan_inv (fst (settle_promotion env c sha s))" by (rule settle_inv[OF 2(4)])
  then show ?case using 2 by (auto split: option.splits sum.splits prod.splits)
qed simp

lemma handle_task_inv: "chan_inv s \<Longrightarrow> chan_inv (fst (channel_handle_task env t s))"
  by (cases t) (simp_all add: evaluate_push_inv jobset_loop_inv handle_jobset_complete_def)

lemma channel_reachable_inv: "channel_reachable arrived hung s \<Longrightarrow> chan_inv s"
proof (induction rule: channel_reachable.induct)
  case (serve arrived s t ch env s' r)
  have "chan_inv (s\<lparr>cs_tasks := ch\<rparr>)" using serve(4) by (simp add: chan_inv_def)
  from handle_task_inv[OF this, of env t] show ?case using serve(3) by simp
next
  case (restart arrived hung s)
  then show ?case by (intro chan_inv_new) (simp add: chan_inv_def)
qed (simp_all add: chan_inv_def channel_service_new_def rows_ok_def chan_rows_def)

text \<open>C5: In every state of the channel service, after any pushes, finished jobsets, failed promotions
  and restarts: a channel evaluates at most one commit, a commit of a channel gets at
  most one decision, and a pending commit waits for the evaluation of another one and has
  not been evaluated itself.\<close>

theorem channel_service_invariant:
  assumes "channel_reachable arrived hung s"
  shows "length (filter (\<lambda>r. cp_channel_id r = cid \<and> cp_status r = as_i64 Evaluating) (pt_rows (cs_table s))) \<le> 1 \<and>
    length (filter (\<lambda>r. cp_channel_id r = cid \<and> cp_tracking_sha r = sha \<and>
        cp_status r \<in> {as_i64 Promoted, as_i64 PromotionBlocked, as_i64 PushFailed}) (pt_rows (cs_table s))) \<le> 1 \<and>
    (cs_pending s cid = Some sha \<longrightarrow>
       (\<exists>r\<in>set (pt_rows (cs_table s)). cp_channel_id r = cid \<and> cp_status r = as_i64 Evaluating) \<and>
       (\<forall>r\<in>set (pt_rows (cs_table s)). cp_channel_id r = cid \<and> cp_tracking_sha r = sha \<longrightarrow> cp_status r = as_i64 Skipped))"
proof -
  have inv: "chan_inv s" by (rule channel_reachable_inv[OF assms])
  then have ok: "rows_ok (chan_rows cid (cs_table s))" by (simp add: chan_inv_def)
  have "length (filter is_open (chan_rows cid (cs_table s))) \<le> 1" using ok by (simp add: rows_ok_def)
  moreover have "length (filter (\<lambda>r. of_sha sha r \<and> is_decided r) (chan_rows cid (cs_table s))) \<le> 1"
    by (rule rows_ok_one_decision[OF ok])
  moreover have "(\<exists>r\<in>set (chan_rows cid (cs_table s)). is_open r) \<and> only_skipped sha (chan_rows cid (cs_table s))"
    if "cs_pending s cid = Some sha" using inv that by (simp add: chan_inv_def)
  ultimately show ?thesis
    by (auto simp: chan_rows_def is_open_def is_decided_def only_skipped_def is_skipped_def list_all_iff conj_commute)
qed

section \<open>Evidence for promotions\<close>

definition promotable :: "ChannelEnv \<Rightarrow> ChannelConfig \<Rightarrow> string \<Rightarrow> bool" where
  "promotable env c sha =
     ((\<forall>n\<in>set (cc_required c). snapshot_job_states env c sha n = Some (LocalCompleted LocalSuccess)) \<and>
      (\<forall>n\<in>set (cc_packages c). job_terminal (snapshot_job_states env c sha) n))"

text \<open>Every request to move a branch and every new promotion between two states belongs to a channel
  of \<open>C\<close> whose jobs allow it.\<close>

definition evidence :: "ChannelEnv \<Rightarrow> ChannelConfig set \<Rightarrow> ChannelService \<Rightarrow> ChannelService \<Rightarrow> bool" where
  "evidence env C s s' =
     ((\<exists>ps. cs_patches s' = cs_patches s @ ps \<and>
        (\<forall>(route, sha)\<in>set ps. \<exists>c\<in>C. route = ref_route c \<and> cc_forge c = GitHub \<and> \<not> cc_dry_run c \<and> promotable env c sha)) \<and>
      (\<forall>r\<in>set (pt_rows (cs_table s')). cp_status r = as_i64 Promoted \<longrightarrow>
         r \<in> set (pt_rows (cs_table s)) \<or> (\<exists>c\<in>C. channel_id c = cp_channel_id r \<and> promotable env c (cp_tracking_sha r))))"

lemma evidence_refl: "cs_patches s' = cs_patches s \<Longrightarrow> cs_table s' = cs_table s \<Longrightarrow> evidence env C s s'"
  by (simp add: evidence_def)

lemma evidence_trans:
  assumes "evidence env C s s1" "evidence env C s1 s2"
  shows "evidence env C s s2"
proof -
  obtain ps qs where "cs_patches s2 = cs_patches s @ ps @ qs"
      "\<forall>(route, sha)\<in>set (ps @ qs). \<exists>c\<in>C. route = ref_route c \<and> cc_forge c = GitHub \<and> \<not> cc_dry_run c \<and> promotable env c sha"
    using assms by (force simp: evidence_def)
  then show ?thesis using assms unfolding evidence_def by blast
qed

lemma evidence_rows:
  assumes "cs_patches s' = cs_patches s"
    and "\<And>r. r \<in> set (pt_rows (cs_table s')) \<Longrightarrow> cp_status r = as_i64 Promoted \<Longrightarrow> r \<in> set (pt_rows (cs_table s))"
  shows "evidence env C s s'"
  using assms by (auto simp: evidence_def)

lemma evidence_perform:
  assumes "perform_promotion env c sha s = (s1, r)" "promotable env c sha" "c \<in> C"
  shows "evidence env C s s1"
  using assms by (auto simp: perform_promotion_def perform_github_promotion_def evidence_def Let_def
      split: if_splits ChannelForge.splits option.splits sum.splits)

lemma evidence_finalise:
  assumes "st = Promoted \<Longrightarrow> promotable env c sha" "c \<in> C" "st \<in> {Promoted, PromotionBlocked}"
    and "cs_table s' = cs_table (finalise env c sha st re res prev s)" "cs_patches s' = cs_patches s"
  shows "evidence env C s s'"
  using assms by (auto simp: evidence_def finalise_def finalise_evaluation_def is_open_row_def split: if_splits)

lemma settle_evidence:
  assumes "c \<in> C"
  shows "evidence env C s (fst (settle_promotion env c sha s))"
proof (cases "evaluate_promotion c (snapshot_job_states env c sha)")
  case (DecisionReady res)
  have pr: "promotable env c sha" using evaluate_Ready[OF DecisionReady] by (simp add: promotable_def)
  obtain s1 r where pp: "perform_promotion env c sha s = (s1, r)" by (cases "perform_promotion env c sha s")
  have ev: "evidence env C s s1" by (rule evidence_perform[OF pp pr assms])
  show ?thesis
  proof (cases r)
    case (Inr prev)
    let ?s' = "fst (drain_pending c (dispatch_search_index env c sha (fire_github_check_run env c sha Promoted None
      (finalise env c sha Promoted None res prev s1))))"
    have "evidence env C s1 ?s'" by (rule evidence_finalise[OF _ assms, where st = Promoted]) (simp_all add: pr)
    then show ?thesis using evidence_trans[OF ev] DecisionReady pp Inr by (simp add: settle_promotion_def)
  qed (use DecisionReady pp ev in \<open>simp add: settle_promotion_def\<close>)
next
  case (DecisionBlocked failed res)
  let ?s' = "fst (drain_pending c (fire_github_check_run env c sha PromotionBlocked (Some failed)
    (finalise env c sha PromotionBlocked (Some failed) res None s)))"
  have "evidence env C s ?s'" by (rule evidence_finalise[OF _ assms, where st = PromotionBlocked]) simp_all
  then show ?thesis using DecisionBlocked by (simp add: settle_promotion_def)
qed (simp add: settle_promotion_def evidence_refl)

lemma skip_evidence: "evidence env C s (skip_superseded env c prev s)"
  by (rule evidence_rows) (auto simp: skip_superseded_def insert_skipped_def)

lemma push_evidence: "evidence env {c} s (fst (handle_evaluate_push env c sha s))"
proof (cases "already_decided (channel_id c) sha s")
  case False
  show ?thesis
  proof (cases "coalesce (map_option cp_tracking_sha (get_in_flight (channel_id c) (cs_table s))) (cs_pending s (channel_id c)) sha")
    case StartFresh
    obtain t r where ins: "insert_evaluating (ce_now env) (channel_id c) sha (cc_target_branch c) (cs_table s) = (t, r)"
      by (cases "insert_evaluating (ce_now env) (channel_id c) sha (cc_target_branch c) (cs_table s)")
    let ?s1 = "fire_github_check_run env c sha Evaluating None (s\<lparr>cs_table := t\<rparr>)"
    have "evidence env {c} s ?s1" "evidence env {c} s (s\<lparr>cs_table := t\<rparr>)"
      using ins by (auto intro!: evidence_rows simp: insert_evaluating_def split: if_splits)
    then show ?thesis using False StartFresh ins evidence_trans[OF _ settle_evidence, of env "{c}" s ?s1 c sha]
      by (auto simp: handle_evaluate_push_def Let_def split: sum.split)
  next
    case (DeferAsPending prev)
    have "evidence env {c} s (case prev of None \<Rightarrow> s | Some p \<Rightarrow> skip_superseded env c p s)"
      by (simp add: evidence_refl skip_evidence split: option.split)
    then show ?thesis using False DeferAsPending
      by (simp add: handle_evaluate_push_def Let_def) (simp add: evidence_def)
  qed (use False in \<open>simp add: handle_evaluate_push_def Let_def evidence_refl\<close>)
qed (simp add: handle_evaluate_push_def Let_def evidence_refl)

lemma jobset_evidence: "set cs \<subseteq> C \<Longrightarrow> evidence env C s (fst (jobset_loop env sha cs s))"
proof (induction env sha cs s rule: jobset_loop.induct)
  case (2 env sha c cs s)
  have "evidence env C s (fst (settle_promotion env c sha s))" using 2(4) by (simp add: settle_evidence)
  moreover note evidence_trans[OF this]
  ultimately show ?case using 2 by (auto split: option.splits sum.splits prod.splits)
qed (simp add: evidence_refl)

text \<open>The channels a task may promote.\<close>

fun task_channels :: "ChannelEnv \<Rightarrow> ChannelTask \<Rightarrow> ChannelConfig set" where
  "task_channels env (EvaluatePush c _) = {c}"
| "task_channels env (JobsetComplete forge _ repo _) = {c \<in> snd ` set (ce_channels env). cc_forge c = forge \<and> cc_repo c = repo}"

text \<open>C9: Whatever task the service handles, it asks a forge to move a target branch, and records a
  promotion, only for a channel of the task and a commit at which all required jobs of that channel
  are successful and all its packages finished; and it asks only for GitHub channels that
  are not in dry-run mode.\<close>

theorem promotion_needs_evidence:
  assumes "channel_handle_task env t s = (s', r)"
  shows "(\<exists>ps. cs_patches s' = cs_patches s @ ps \<and>
       (\<forall>(route, sha)\<in>set ps. \<exists>c\<in>task_channels env t.
          route = ref_route c \<and> cc_forge c = GitHub \<and> \<not> cc_dry_run c \<and> promotable env c sha)) \<and>
    (\<forall>row\<in>set (pt_rows (cs_table s')). cp_status row = as_i64 Promoted \<longrightarrow>
       row \<in> set (pt_rows (cs_table s)) \<or>
       (\<exists>c\<in>task_channels env t. channel_id c = cp_channel_id row \<and> promotable env c (cp_tracking_sha row)))"
proof -
  have "evidence env (task_channels env t) s (fst (channel_handle_task env t s))"
  proof (cases t)
    case (JobsetComplete forge owner repo sha)
    then show ?thesis unfolding JobsetComplete channel_handle_task.simps handle_jobset_complete_def
      by (intro jobset_evidence) auto
  qed (simp add: push_evidence)
  then show ?thesis using assms by (simp add: evidence_def)
qed

section \<open>No push is forgotten\<close>

text \<open>A commit of a channel is in the queue, pending, or has a row.\<close>

definition accounted :: "string \<Rightarrow> string \<Rightarrow> ChannelService \<Rightarrow> bool" where
  "accounted cid sha s =
     ((\<exists>c. EvaluatePush c sha \<in> set (ch_items (cs_tasks s)) \<and> channel_id c = cid) \<or>
      cs_pending s cid = Some sha \<or> sha \<in> cp_tracking_sha ` set (chan_rows cid (cs_table s)))"

lemma accounted_mono:
  assumes "accounted cid sha s" "set (ch_items (cs_tasks s)) \<subseteq> set (ch_items (cs_tasks s'))"
    and "cs_pending s cid = Some sha \<Longrightarrow> accounted cid sha s'"
    and "cp_tracking_sha ` set (chan_rows cid (cs_table s)) \<subseteq> cp_tracking_sha ` set (chan_rows cid (cs_table s'))"
  shows "accounted cid sha s'"
  using assms unfolding accounted_def by blast

lemma shas_finalise:
  "cp_tracking_sha ` set (chan_rows cid (cs_table (finalise env c sha st re res prev s))) =
     cp_tracking_sha ` set (chan_rows cid (cs_table s))"
proof -
  have "cp_tracking_sha (close_row now sha st re res' prev r) = cp_tracking_sha r" for now res' r
    by (simp add: close_row_def)
  then show ?thesis by (simp add: chan_rows_finalise image_image)
qed

lemma drain_accounted:
  assumes "drain_pending c s = (s', Some r)" "accounted cid sha s"
  shows "accounted cid sha s'"
proof -
  have "cs_table s' = cs_table s" using drain_pending_table[of c s] assms(1) by simp
  then show ?thesis using assms
    by (auto simp: drain_pending_def accounted_def Let_def ch_send_def split: option.splits if_splits)
qed

lemma accounted_cong:
  assumes "cs_tasks s' = cs_tasks s" "cs_pending s' = cs_pending s"
    "cp_tracking_sha ` set (chan_rows cid (cs_table s')) = cp_tracking_sha ` set (chan_rows cid (cs_table s))"
  shows "accounted cid sha s' = accounted cid sha s"
  using assms by (simp add: accounted_def)

lemma settle_accounted:
  assumes "settle_promotion env c sha0 s = (s', Some r)" "accounted cid sha s"
  shows "accounted cid sha s'"
proof (cases "evaluate_promotion c (snapshot_job_states env c sha0)")
  case (DecisionReady res)
  obtain s1 q where pp: "perform_promotion env c sha0 s = (s1, q)" by (cases "perform_promotion env c sha0 s")
  have acc1: "accounted cid sha s1" using assms(2) perform_promotion_same[OF pp] by (simp add: accounted_def)
  show ?thesis
  proof (cases q)
    case (Inr prev)
    let ?s2 = "dispatch_search_index env c sha0 (fire_github_check_run env c sha0 Promoted None
      (finalise env c sha0 Promoted None res prev s1))"
    have "accounted cid sha ?s2" using acc1 by (subst accounted_cong[of _ s1]) (simp_all add: shas_finalise)
    then show ?thesis using drain_accounted assms(1) DecisionReady pp Inr by (simp add: settle_promotion_def)
  qed (use assms(1) DecisionReady pp acc1 in \<open>simp add: settle_promotion_def\<close>)
next
  case (DecisionBlocked failed res)
  let ?s1 = "fire_github_check_run env c sha0 PromotionBlocked (Some failed)
    (finalise env c sha0 PromotionBlocked (Some failed) res None s)"
  have "accounted cid sha ?s1" using assms(2) by (subst accounted_cong[of _ s]) (simp_all add: shas_finalise)
  then show ?thesis using drain_accounted assms(1) DecisionBlocked by (simp add: settle_promotion_def)
qed (use assms in \<open>simp add: settle_promotion_def\<close>)

lemma skip_accounted:
  assumes "cs_pending s (channel_id c) = Some prev" "accounted cid sha s"
  shows "accounted cid sha (skip_superseded env c prev s) \<and>
    prev \<in> cp_tracking_sha ` set (chan_rows (channel_id c) (cs_table (skip_superseded env c prev s)))"
  using skip_superseded_rows[of prev cid env c s] skip_superseded_rows[of prev "channel_id c" env c s] assms(2)
  by (auto simp: accounted_def)

lemma push_accounted:
  assumes "handle_evaluate_push env c sha0 s = (s', Some r)" "accounted cid sha s \<or> cid = channel_id c \<and> sha = sha0"
  shows "accounted cid sha s'"
proof (cases "already_decided (channel_id c) sha0 s")
  case True
  then obtain row where "find (of_sha sha0) (rev (chan_rows (channel_id c) (cs_table s))) = Some row"
    by (auto simp: already_decided_def get_latest_rows split: option.splits)
  from find_mem[OF this] have "sha0 \<in> cp_tracking_sha ` set (chan_rows (channel_id c) (cs_table s))" by force
  then show ?thesis using assms True by (auto simp: handle_evaluate_push_def Let_def accounted_def)
next
  case False
  let ?fl = "map_option cp_tracking_sha (get_in_flight (channel_id c) (cs_table s))"
  show ?thesis
  proof (cases "coalesce ?fl (cs_pending s (channel_id c)) sha0")
    case StartFresh
    obtain t q where ins: "insert_evaluating (ce_now env) (channel_id c) sha0 (cc_target_branch c) (cs_table s) = (t, q)"
      by (cases "insert_evaluating (ce_now env) (channel_id c) sha0 (cc_target_branch c) (cs_table s)")
    have "?fl = None" using StartFresh by (simp add: coalesce_cases)
    then obtain i where i: "q = Inr i" using ins
      by (auto simp: insert_evaluating_def in_flight_None chan_rows_def is_open_def split: if_splits)
    let ?s1 = "fire_github_check_run env c sha0 Evaluating None (s\<lparr>cs_table := t\<rparr>)"
    have "accounted cid sha ?s1"
      using assms(2) insert_evaluating_rows(2)[of "ce_now env" "channel_id c" sha0 "cc_target_branch c" "cs_table s" t i cid] ins i
      by (auto simp: accounted_def)
    then show ?thesis using settle_accounted assms(1) False StartFresh ins i
      by (simp add: handle_evaluate_push_def Let_def)
  next
    case AlreadyInFlight
    then have "?fl = Some sha0 \<or> cs_pending s (channel_id c) = Some sha0" by (auto simp: coalesce_cases)
    then have "accounted (channel_id c) sha0 s"
      by (auto simp: accounted_def get_in_flight_rows dest!: find_mem)
    then show ?thesis using assms False AlreadyInFlight by (auto simp: handle_evaluate_push_def Let_def)
  next
    case (DeferAsPending prev)
    then have prev: "cs_pending s (channel_id c) = prev" by (auto simp: coalesce_cases)
    let ?s1 = "case prev of None \<Rightarrow> s | Some p \<Rightarrow> skip_superseded env c p s"
    have s': "s' = ?s1\<lparr>cs_pending := (cs_pending ?s1)(channel_id c \<mapsto> sha0)\<rparr>"
      using assms(1) False DeferAsPending by (simp add: handle_evaluate_push_def Let_def)
    show ?thesis
    proof (cases prev)
      case None
      then show ?thesis using assms(2) prev s' by (auto simp: accounted_def)
    next
      case (Some p)
      then show ?thesis using assms(2) s' skip_accounted[of s c p cid sha env] prev by (auto simp: accounted_def)
    qed
  qed
qed

lemma jobset_accounted:
  "jobset_loop env sha0 cs s = (s', Some r) \<Longrightarrow> accounted cid sha s \<Longrightarrow> accounted cid sha s'"
proof (induction env sha0 cs s rule: jobset_loop.induct)
  case (2 env sha0 c cs s)
  show ?case
    using 2 settle_accounted[of env c sha0 s] by (auto split: option.splits sum.splits prod.splits if_splits)
qed simp

text \<open>As long as the service runs and does not hang, every commit that was pushed to a channel
  since its start is in the queue, pending, being evaluated, or recorded with a decision or as
  skipped.\<close>

theorem channel_push_accounted:
  assumes "channel_reachable arrived False s" "(c, sha) \<in> set arrived"
  shows "(\<exists>d. EvaluatePush d sha \<in> set (ch_items (cs_tasks s)) \<and> channel_id d = channel_id c) \<or>
    cs_pending s (channel_id c) = Some sha \<or>
    (\<exists>row\<in>set (pt_rows (cs_table s)). cp_channel_id row = channel_id c \<and> cp_tracking_sha row = sha)"
proof -
  have "\<not> hung \<Longrightarrow> (c, sha) \<in> set arrived \<Longrightarrow> accounted (channel_id c) sha s" if "channel_reachable arrived hung s" for hung
    using that
  proof (induction rule: channel_reachable.induct)
    case (serve arrived s t ch env s' r)
    then have acc: "accounted (channel_id c) sha s" by simp
    obtain xs where xs: "ch_items (cs_tasks s) = t # xs" "ch_items ch = xs"
      using serve(2) by (auto simp: ch_try_recv_Some)
    obtain q where q: "r = Some q" using serve(5) by auto
    show ?case
    proof (cases t)
      case (EvaluatePush d sha0)
      have "accounted (channel_id c) sha (s\<lparr>cs_tasks := ch\<rparr>) \<or> channel_id c = channel_id d \<and> sha = sha0"
        using acc xs EvaluatePush by (auto simp: accounted_def)
      then show ?thesis using push_accounted[of env d sha0 "s\<lparr>cs_tasks := ch\<rparr>" s' q] serve(3) EvaluatePush q by simp
    next
      case (JobsetComplete forge owner repo sha0)
      have "accounted (channel_id c) sha (s\<lparr>cs_tasks := ch\<rparr>)" using acc xs JobsetComplete by (auto simp: accounted_def)
      then show ?thesis using jobset_accounted serve(3) JobsetComplete q by (simp add: handle_jobset_complete_def)
    qed
  qed (auto simp: accounted_def ch_send_def)
  then show ?thesis using assms by (auto simp: accounted_def chan_rows_def)
qed

section \<open>Where the service does not do what it means to\<close>

text \<open>An open row stays open as long as no jobset of its commit finishes.\<close>

lemma settle_other_rows:
  assumes "cid \<noteq> channel_id c"
  shows "chan_rows cid (cs_table (fst (settle_promotion env c sha s))) = chan_rows cid (cs_table s)"
proof (cases "perform_promotion env c sha s")
  case (Pair s1 r)
  note same = perform_promotion_same[OF Pair]
  show ?thesis using assms Pair same
    by (auto simp: settle_promotion_def chan_rows_finalise split: PromotionDecision.split sum.split)
qed

lemma find_open_snoc: "\<not> is_open r \<Longrightarrow> find is_open (rs @ [r]) = find is_open rs"
  by (induction rs) auto

lemma push_keeps_in_flight:
  assumes fl: "get_in_flight cid (cs_table s) = Some row"
  shows "get_in_flight cid (cs_table (fst (handle_evaluate_push env c sha s))) = Some row"
proof (cases "already_decided (channel_id c) sha s")
  case False
  show ?thesis
  proof (cases "coalesce (map_option cp_tracking_sha (get_in_flight (channel_id c) (cs_table s))) (cs_pending s (channel_id c)) sha")
    case StartFresh
    then have other: "cid \<noteq> channel_id c" using fl by (auto simp: coalesce_cases)
    obtain t r where ins: "insert_evaluating (ce_now env) (channel_id c) sha (cc_target_branch c) (cs_table s) = (t, r)"
      by (cases "insert_evaluating (ce_now env) (channel_id c) sha (cc_target_branch c) (cs_table s)")
    have "chan_rows cid t = chan_rows cid (cs_table s)"
      using ins other by (auto simp: insert_evaluating_def chan_rows_def split: if_splits)
    then have "chan_rows cid (cs_table (fst (handle_evaluate_push env c sha s))) = chan_rows cid (cs_table s)"
      using False StartFresh ins other by (simp add: handle_evaluate_push_def Let_def settle_other_rows split: sum.split)
    then show ?thesis using fl by (simp add: get_in_flight_rows)
  next
    case (DeferAsPending prev)
    have "find is_open (chan_rows cid (cs_table (skip_superseded env c p s))) = find is_open (chan_rows cid (cs_table s))" for p
      using skip_superseded_rows[of p cid env c s] status_exclusive(4) by (auto simp: find_open_snoc)
    then show ?thesis using fl False DeferAsPending
      by (simp add: handle_evaluate_push_def Let_def get_in_flight_rows split: option.split)
  qed (use fl False in \<open>simp add: handle_evaluate_push_def Let_def\<close>)
qed (use fl in \<open>simp add: handle_evaluate_push_def Let_def\<close>)

lemma jobset_keeps_in_flight:
  "get_in_flight cid (cs_table s) = Some row \<Longrightarrow> cp_tracking_sha row \<noteq> sha \<Longrightarrow>
     get_in_flight cid (cs_table (fst (jobset_loop env sha cs s))) = Some row"
proof (induction env sha cs s rule: jobset_loop.induct)
  case (2 env sha c cs s)
  show ?case
  proof (cases "channel_id c = cid")
    case True
    then show ?thesis using 2 by simp
  next
    case False
    have "get_in_flight cid (cs_table (fst (settle_promotion env c sha s))) = Some row"
      using settle_other_rows[of cid c env sha s] False 2(4) by (simp add: get_in_flight_rows)
    then show ?thesis using 2 by (auto split: option.splits sum.splits prod.splits)
  qed
qed simp

lemma find_open_last: "is_open r \<Longrightarrow> \<forall>x\<in>set rs. \<not> is_open x \<Longrightarrow> find is_open (rs @ [r]) = Some r"
  by (induction rs) auto

definition serve_all :: "(ChannelEnv \<times> ChannelTask) list \<Rightarrow> ChannelService \<Rightarrow> ChannelService" where
  "serve_all = fold (\<lambda>(env, t) s. fst (channel_handle_task env t s))"

lemma serve_all_keeps_in_flight:
  "get_in_flight cid (cs_table s) = Some row \<Longrightarrow>
     (\<And>env forge owner repo. (env, JobsetComplete forge owner repo (cp_tracking_sha row)) \<notin> set ts) \<Longrightarrow>
     get_in_flight cid (cs_table (serve_all ts s)) = Some row"
proof (induction ts arbitrary: s)
  case (Cons t ts)
  obtain env u where t: "t = (env, u)" by (cases t)
  have "get_in_flight cid (cs_table (fst (channel_handle_task env u s))) = Some row"
    using Cons(2) Cons(3)[of env] t
    by (cases u) (auto simp: push_keeps_in_flight jobset_keeps_in_flight handle_jobset_complete_def)
  then show ?case using Cons t by (simp add: serve_all_def)
qed (simp add: serve_all_def)

lemma fresh_evaluation:
  assumes "\<not> already_decided (channel_id c) sha s" "get_in_flight (channel_id c) (cs_table s) = None"
  shows "\<exists>t i. insert_evaluating (ce_now env) (channel_id c) sha (cc_target_branch c) (cs_table s) = (t, Inr i) \<and>
    channel_handle_task env (EvaluatePush c sha) s =
      settle_promotion env c sha (fire_github_check_run env c sha Evaluating None (s\<lparr>cs_table := t\<rparr>))"
proof -
  have "\<not> (\<exists>r\<in>set (pt_rows (cs_table s)). cp_channel_id r = channel_id c \<and> cp_status r = as_i64 Evaluating)"
    using assms(2) by (auto simp: in_flight_None chan_rows_def is_open_def)
  then show ?thesis using assms by (simp add: insert_evaluating_def handle_evaluate_push_def Let_def coalesce_def)
qed

text \<open>A push that fails stops its channel.  When the evaluation of a commit is positive but the
  branch cannot be moved, because the client is missing, the transport fails, or the forge
  is not GitHub, the handler reports an error and leaves the row as being evaluated; no
  PushFailed row is written.  From then on no other commit of the channel is evaluated,
  whatever is pushed, unless a jobset of the same commit finishes again.\<close>

theorem failed_push_wedges_channel:
  assumes "\<not> already_decided (channel_id c) sha s" "get_in_flight (channel_id c) (cs_table s) = None"
    and "promotable env c sha" "\<And>s. snd (perform_promotion env c sha s) = Inl e"
    and "\<And>env forge owner repo. (env, JobsetComplete forge owner repo sha) \<notin> set later"
  shows "\<exists>s' row. channel_handle_task env (EvaluatePush c sha) s = (s', Some (Inl e)) \<and>
    cp_tracking_sha row = sha \<and> get_in_flight (channel_id c) (cs_table (serve_all later s')) = Some row"
proof -
  obtain res where ready: "evaluate_promotion c (snapshot_job_states env c sha) = DecisionReady res"
    using assms(3) evaluate_Ready_intro[of c "snapshot_job_states env c sha"] by (auto simp: promotable_def)
  obtain t i where ins: "insert_evaluating (ce_now env) (channel_id c) sha (cc_target_branch c) (cs_table s) = (t, Inr i)"
    and run: "channel_handle_task env (EvaluatePush c sha) s =
      settle_promotion env c sha (fire_github_check_run env c sha Evaluating None (s\<lparr>cs_table := t\<rparr>))"
    using fresh_evaluation[OF assms(1,2)] by blast
  obtain row where row: "is_open row" "cp_tracking_sha row = sha" "chan_rows (channel_id c) t = chan_rows (channel_id c) (cs_table s) @ [row]"
    using insert_evaluating_rows(2)[OF ins, of "channel_id c"] by auto
  let ?s1 = "fire_github_check_run env c sha Evaluating None (s\<lparr>cs_table := t\<rparr>)"
  obtain s' where pp: "perform_promotion env c sha ?s1 = (s', Inl e)"
    using assms(4)[of ?s1] by (cases "perform_promotion env c sha ?s1") auto
  have "channel_handle_task env (EvaluatePush c sha) s = (s', Some (Inl e))"
    unfolding run by (simp add: settle_promotion_def ready pp)
  moreover have "find is_open (chan_rows (channel_id c) (cs_table s) @ [row]) = Some row"
    using assms(2) row(1) by (auto simp: get_in_flight_rows find_None_iff intro: find_open_last)
  then have "get_in_flight (channel_id c) (cs_table s') = Some row"
    using perform_promotion_same(1)[OF pp] row(3) by (simp add: get_in_flight_rows)
  then have "get_in_flight (channel_id c) (cs_table (serve_all later s')) = Some row"
    by (rule serve_all_keeps_in_flight) (use assms(5) row(2) in blast)
  ultimately show ?thesis using row(2) by blast
qed

text \<open>The answer of GitHub to the request for moving a branch is not looked at.  Whatever its status
  code is, 422 for a branch that cannot be fast-forwarded included, the commit is recorded as
  promoted.\<close>

theorem rejected_push_counts_as_promoted:
  assumes "cc_forge c = GitHub" "\<not> cc_dry_run c" "ce_octocrab env = Some patch" "patch (ref_route c) sha = Inr code"
    and "promotable env c sha" "\<not> already_decided (channel_id c) sha s"
      "get_in_flight (channel_id c) (cs_table s) = None"
  shows "\<exists>s' r row. channel_handle_task env (EvaluatePush c sha) s = (s', r) \<and>
    cs_patches s' = cs_patches s @ [(ref_route c, sha)] \<and> row \<in> set (pt_rows (cs_table s')) \<and>
    cp_channel_id row = channel_id c \<and> cp_tracking_sha row = sha \<and> cp_status row = as_i64 Promoted"
proof -
  obtain res where ready: "evaluate_promotion c (snapshot_job_states env c sha) = DecisionReady res"
    using assms(5) evaluate_Ready_intro[of c "snapshot_job_states env c sha"] by (auto simp: promotable_def)
  obtain t i where ins: "insert_evaluating (ce_now env) (channel_id c) sha (cc_target_branch c) (cs_table s) = (t, Inr i)"
    and run: "channel_handle_task env (EvaluatePush c sha) s =
      settle_promotion env c sha (fire_github_check_run env c sha Evaluating None (s\<lparr>cs_table := t\<rparr>))"
    using fresh_evaluation[OF assms(6,7)] by blast
  let ?s1 = "fire_github_check_run env c sha Evaluating None (s\<lparr>cs_table := t\<rparr>)"
  let ?s2 = "?s1\<lparr>cs_patches := cs_patches ?s1 @ [(ref_route c, sha)]\<rparr>"
  let ?s3 = "finalise env c sha Promoted None res None ?s2"
  let ?out = "drain_pending c (dispatch_search_index env c sha (fire_github_check_run env c sha Promoted None ?s3))"
  have "perform_promotion env c sha ?s1 = (?s2, Inr None)"
    using assms(1-4) by (simp add: perform_promotion_def perform_github_promotion_def Let_def)
  then have out: "channel_handle_task env (EvaluatePush c sha) s = ?out"
    unfolding run by (simp add: settle_promotion_def ready)
  obtain row where row: "is_open row" "cp_tracking_sha row = sha" "row \<in> set (chan_rows (channel_id c) t)"
    using insert_evaluating_rows(2)[OF ins, of "channel_id c"] by auto
  then have "close_row (ce_now env) sha Promoted None (Some res) None row \<in> set (chan_rows (channel_id c) (cs_table ?s3))"
    by (simp add: chan_rows_finalise)
  moreover have "cp_status (close_row (ce_now env) sha Promoted None (Some res) None row) = as_i64 Promoted"
      "cp_tracking_sha (close_row (ce_now env) sha Promoted None (Some res) None row) = sha"
    using row by (simp_all add: close_row_def)
  ultimately have "\<exists>r\<in>set (pt_rows (cs_table (fst ?out))). cp_channel_id r = channel_id c \<and> cp_tracking_sha r = sha \<and>
      cp_status r = as_i64 Promoted"
    by (auto simp: chan_rows_def)
  moreover have "cs_patches (fst ?out) = cs_patches s @ [(ref_route c, sha)]" by simp
  ultimately show ?thesis unfolding out by (metis prod.collapse)
qed

text \<open>The service can wait for itself.  When an evaluation ends while another commit of the channel
  is pending and the task queue is full, the handler, which alone empties the queue, waits
  for a free place in it; the pending commit is then neither queued nor pending.\<close>

theorem full_queue_hangs_service:
  assumes "filter (\<lambda>c. cc_forge c = forge \<and> eq_ignore_ascii_case (cc_owner c) owner \<and> cc_repo c = repo)
      (map snd (ce_channels env)) = c # cs"
    and "get_in_flight (channel_id c) (cs_table s) = Some row" "cp_tracking_sha row = sha"
    and "\<exists>n\<in>set (cc_required c). job_failed (snapshot_job_states env c sha) n"
    and "cs_pending s (channel_id c) = Some p" "\<not> ch_has_room (cs_tasks s)"
  shows "\<exists>s'. channel_handle_task env (JobsetComplete forge owner repo sha) s = (s', None) \<and>
    cs_pending s' (channel_id c) = None \<and> cs_tasks s' = cs_tasks s"
proof -
  have "filter (job_failed (snapshot_job_states env c sha)) (cc_required c) \<noteq> []"
    using assms(4) by (auto simp: filter_empty_conv)
  then obtain failed res where blocked: "evaluate_promotion c (snapshot_job_states env c sha) = DecisionBlocked failed res"
    by (simp add: evaluate_promotion_eq Let_def)
  let ?s1 = "fire_github_check_run env c sha PromotionBlocked (Some failed)
    (finalise env c sha PromotionBlocked (Some failed) res None s)"
  have "drain_pending c ?s1 = (?s1\<lparr>cs_pending := (cs_pending ?s1)(channel_id c := None)\<rparr>, None)"
    using assms(5,6) by (simp add: drain_pending_def Let_def)
  then have "settle_promotion env c sha s = (?s1\<lparr>cs_pending := (cs_pending ?s1)(channel_id c := None)\<rparr>, None)"
    by (simp add: settle_promotion_def blocked)
  then show ?thesis using assms(1-3) by (simp add: handle_jobset_complete_def)
qed

section \<open>Examples\<close>

definition demo_job :: "string \<Rightarrow> LocalState \<Rightarrow> JobRow" where
  "demo_job name st = \<lparr> jr_owner = ''eka'', jr_repo = ''pkgs'', jr_sha = ''s1'', jr_name = name, jr_state = st \<rparr>"

definition demo_env :: "LocalState \<Rightarrow> ChannelEnv" where
  "demo_env st = \<lparr> ce_channels = [(channel_id demo_channel, demo_channel)], ce_octocrab = Some (\<lambda>_ _. Inr 422),
     ce_github_sender = True, ce_channel_sender = True, ce_search_index_sender = True,
     ce_jobs = [demo_job ''zlib'' (LocalCompleted LocalSuccess), demo_job ''bash'' st, demo_job ''vim'' LocalTransitiveFailure],
     ce_now = 0 \<rparr>"

definition demo_service :: ChannelService where
  "demo_service = channel_service_new \<lparr> pt_rows = [], pt_next = 1 \<rparr>"

lemmas demo_channel_simps = demo_service_def channel_service_new_def demo_env_def demo_job_def demo_channel_def
  snapshot_job_states_def snapshot_job_states_for_sha_def promotable_def job_terminal_def job_failed_def
  already_decided_def get_latest_for_sha_def get_in_flight_def

lemma demo_fresh:
  "\<not> already_decided cid sha demo_service" "get_in_flight cid (cs_table demo_service) = None"
  by (simp_all add: demo_channel_simps)

lemma demo_promotable: "promotable (demo_env (LocalCompleted LocalSuccess)) demo_channel ''s1''"
  by (simp add: demo_channel_simps)

theorem rejected_push_counts_as_promoted_witness:
  "\<exists>s' r row. channel_handle_task (demo_env (LocalCompleted LocalSuccess)) (EvaluatePush demo_channel ''s1'') demo_service = (s', r) \<and>
    row \<in> set (pt_rows (cs_table s')) \<and> cp_status row = as_i64 Promoted"
  using rejected_push_counts_as_promoted[of demo_channel "demo_env (LocalCompleted LocalSuccess)" "\<lambda>_ _. Inr 422" "''s1''" 422
      demo_service, OF _ _ _ _ demo_promotable demo_fresh]
  by (auto simp: demo_channel_def demo_env_def)

theorem failed_push_wedges_channel_witness:
  "\<exists>s' row. channel_handle_task ((demo_env (LocalCompleted LocalSuccess))\<lparr>ce_octocrab := None\<rparr>)
      (EvaluatePush demo_channel ''s1'') demo_service = (s', Some (Inl ''octocrab client unavailable'')) \<and>
    cp_tracking_sha row = ''s1'' \<and>
    get_in_flight (channel_id demo_channel)
      (cs_table (serve_all [(demo_env LocalBuilding, EvaluatePush demo_channel ''s2'')] s')) = Some row"
proof (rule failed_push_wedges_channel[OF demo_fresh])
  show "promotable ((demo_env (LocalCompleted LocalSuccess))\<lparr>ce_octocrab := None\<rparr>) demo_channel ''s1''"
    using demo_promotable by (simp add: promotable_def snapshot_job_states_def)
  show "snd (perform_promotion ((demo_env (LocalCompleted LocalSuccess))\<lparr>ce_octocrab := None\<rparr>) demo_channel ''s1'' s) =
      Inl ''octocrab client unavailable''" for s
    by (simp add: perform_promotion_def perform_github_promotion_def demo_channel_def)
qed simp

theorem promotion_needs_evidence_witness:
  "\<exists>s' r. channel_handle_task (demo_env LocalBuilding) (EvaluatePush demo_channel ''s1'') demo_service = (s', r) \<and>
    cs_patches s' = []"
proof -
  obtain s' r where run: "channel_handle_task (demo_env LocalBuilding) (EvaluatePush demo_channel ''s1'') demo_service = (s', r)"
    by (cases "channel_handle_task (demo_env LocalBuilding) (EvaluatePush demo_channel ''s1'') demo_service")
  have "\<not> promotable (demo_env LocalBuilding) demo_channel sha" for sha by (auto simp: demo_channel_simps)
  moreover obtain ps where "cs_patches s' = ps" "\<forall>(route, sha)\<in>set ps. promotable (demo_env LocalBuilding) demo_channel sha"
    using promotion_needs_evidence[OF run] by (auto simp: demo_service_def channel_service_new_def)
  ultimately have "cs_patches s' = []" by (cases "cs_patches s'") fastforce+
  then show ?thesis using run by blast
qed

text \<open>The service after a push whose jobs are not finished.\<close>

definition demo_waiting :: ChannelService where
  "demo_waiting = demo_service\<lparr>
     cs_table := \<lparr> pt_rows = [\<lparr> cp_rowid = 1, cp_channel_id = channel_id demo_channel, cp_tracking_sha = ''s1'',
         cp_target_branch = ''unstable'', cp_previous_target_sha = None, cp_status = 0, cp_blocked_reason = None,
         cp_required_results = None, cp_started_at = 0, cp_completed_at = None \<rparr>], pt_next = 2 \<rparr>,
     cs_checks := [(''eka'', ''pkgs'', ''s1'', ''stable'', Evaluating, None)]\<rparr>"

lemma demo_waits:
  "channel_handle_task (demo_env LocalBuilding) (EvaluatePush demo_channel ''s1'') demo_service = (demo_waiting, Some (Inr ()))"
  by (simp add: handle_evaluate_push_def demo_fresh coalesce_def insert_evaluating_def settle_promotion_def
      evaluate_promotion_eq demo_channel_simps demo_waiting_def fire_github_check_run_def Let_def)

lemma demo_waiting_reachable: "channel_reachable [(demo_channel, ''s1'')] False demo_waiting"
proof -
  have "channel_reachable ([] @ [(demo_channel, ''s1'')]) False
      (demo_service\<lparr>cs_tasks := ch_send (EvaluatePush demo_channel ''s1'') (cs_tasks demo_service)\<rparr>)"
    unfolding demo_service_def by (intro channel_reachable.arrive_push channel_reachable.start)
      (simp add: channel_service_new_def ch_new_def ch_has_room_def CHANNEL_TASK_BUFFER_def)
  moreover have "ch_try_recv (ch_send (EvaluatePush demo_channel ''s1'') (cs_tasks demo_service)) =
      Some (EvaluatePush demo_channel ''s1'', cs_tasks demo_service)"
    by (simp add: ch_try_recv_def ch_send_def demo_service_def channel_service_new_def ch_new_def)
  ultimately have "channel_reachable [(demo_channel, ''s1'')] (Some (Inr () :: (anyhow, unit) result) = None) demo_waiting"
    using channel_reachable.serve[of "[(demo_channel, ''s1'')]" _ "EvaluatePush demo_channel ''s1''" "cs_tasks demo_service"
        "demo_env LocalBuilding" demo_waiting "Some (Inr ())"] demo_waits by simp
  then show ?thesis by simp
qed

theorem channel_service_invariant_witness:
  "length (filter (\<lambda>r. cp_channel_id r = channel_id demo_channel \<and> cp_status r = as_i64 Evaluating)
     (pt_rows (cs_table demo_waiting))) = 1"
  using channel_service_invariant[OF demo_waiting_reachable, of "channel_id demo_channel"] by (simp add: demo_waiting_def)

theorem channel_push_accounted_witness:
  "\<exists>row\<in>set (pt_rows (cs_table demo_waiting)). cp_channel_id row = channel_id demo_channel \<and> cp_tracking_sha row = ''s1''"
  using channel_push_accounted[OF demo_waiting_reachable, of demo_channel "''s1''"]
  by (simp add: demo_waiting_def demo_service_def channel_service_new_def ch_new_def)

theorem full_queue_hangs_service_witness:
  "\<exists>s'. channel_handle_task (demo_env (LocalCompleted LocalFailure)) (JobsetComplete GitHub ''eka'' ''pkgs'' ''s1'')
     (demo_waiting\<lparr>cs_pending := [channel_id demo_channel \<mapsto> ''s2''],
        cs_tasks := \<lparr> ch_capacity = 1000, ch_items = replicate 1000 (EvaluatePush demo_channel ''s3'') \<rparr>\<rparr>) = (s', None)"
proof -
  let ?s = "demo_waiting\<lparr>cs_pending := [channel_id demo_channel \<mapsto> ''s2''],
        cs_tasks := \<lparr> ch_capacity = 1000, ch_items = replicate 1000 (EvaluatePush demo_channel ''s3'') \<rparr>\<rparr>"
  have "\<exists>s'. channel_handle_task (demo_env (LocalCompleted LocalFailure)) (JobsetComplete GitHub ''eka'' ''pkgs'' ''s1'') ?s = (s', None) \<and>
    cs_pending s' (channel_id demo_channel) = None \<and> cs_tasks s' = cs_tasks ?s"
    by (rule full_queue_hangs_service[where cs = "[]" and row = "hd (pt_rows (cs_table demo_waiting))" and p = "''s2''"])
       (simp_all add: demo_env_def eq_ignore_ascii_case_def demo_waiting_def get_in_flight_def ch_has_room_def,
        simp_all add: demo_channel_simps)
  then show ?thesis by blast
qed

end
