(* ===== verification/Comment_Command.thy ===== *)
theory Comment_Command
  imports Prelude "HOL-Library.AList"
begin

text \<open>
  Commands in comments on pull requests: the parser for GitHub with its rate limit
  (\<open>server/src/github/webhook/comment_command.rs\<close>) and the parser that GitLab and Gitea
  share (\<open>server/src/gitea/webhook/comment_command.rs\<close>, \<open>gitlab/webhook/comment_command.rs\<close>).
\<close>

section \<open>White space in UTF-8 text\<close>

text \<open>The number of bytes of the white space character that a string starts with, 0 if it starts
  with another one (\<open>char::is_whitespace\<close>).\<close>

definition ws2 :: "char \<Rightarrow> char \<Rightarrow> bool" where
  "ws2 a b = (a = CHR 0xC2 \<and> (b = CHR 0x85 \<or> b = CHR 0xA0))"

definition ws3 :: "char \<Rightarrow> char \<Rightarrow> char \<Rightarrow> bool" where
  "ws3 a b c =
     ((a = CHR 0xE1 \<and> b = CHR 0x9A \<and> c = CHR 0x80) \<or>
      (a = CHR 0xE2 \<and> b = CHR 0x80 \<and> (128 \<le> (of_char c :: nat) \<and> (of_char c :: nat) \<le> 138 \<or>
         c = CHR 0xA8 \<or> c = CHR 0xA9 \<or> c = CHR 0xAF)) \<or>
      (a = CHR 0xE2 \<and> b = CHR 0x81 \<and> c = CHR 0x9F) \<or>
      (a = CHR 0xE3 \<and> b = CHR 0x80 \<and> c = CHR 0x80))"

fun ws_len :: "string \<Rightarrow> nat" where
  "ws_len (a # b # c # s) = (if is_ascii_ws a then 1 else if ws2 a b then 2 else if ws3 a b c then 3 else 0)"
| "ws_len [a, b] = (if is_ascii_ws a then 1 else if ws2 a b then 2 else 0)"
| "ws_len [a] = (if is_ascii_ws a then 1 else 0)"
| "ws_len [] = 0"

text \<open>\<open>split_whitespace\<close>, with the word read so far, \<open>trim_start\<close>, \<open>trim_end\<close> and \<open>lines\<close>.\<close>

function words_from :: "string \<Rightarrow> string \<Rightarrow> string list" where
  "words_from cur [] = (if cur = [] then [] else [rev cur])"
| "words_from cur (x # xs) =
     (if ws_len (x # xs) = 0 then words_from (x # cur) xs
      else (if cur = [] then [] else [rev cur]) @ words_from [] (drop (ws_len (x # xs) - 1) xs))"
  by pat_completeness auto
termination by (relation "measure (\<lambda>(cur, s). length s)") auto

definition split_whitespace :: "string \<Rightarrow> string list" where
  "split_whitespace s = words_from [] s"

function skip_ws :: "string \<Rightarrow> string" where
  "skip_ws [] = []"
| "skip_ws (x # xs) = (if ws_len (x # xs) = 0 then x # xs else skip_ws (drop (ws_len (x # xs) - 1) xs))"
  by pat_completeness auto
termination by (relation "measure length") auto

fun drop_ws_end :: "string \<Rightarrow> string" where
  "drop_ws_end [] = []"
| "drop_ws_end (x # xs) = (if skip_ws (x # xs) = [] then [] else x # drop_ws_end xs)"

definition str_trim :: "string \<Rightarrow> string" where
  "str_trim s = drop_ws_end (skip_ws s)"

definition strip_cr :: "string \<Rightarrow> string" where
  "strip_cr l = (if l \<noteq> [] \<and> last l = CHR 0x0D then butlast l else l)"

text \<open>A line break at the very end does not open another line; \<open>\r\<close> is removed only before a line break.\<close>

definition str_lines :: "string \<Rightarrow> string list" where
  "str_lines s =
     (let ps = split_on (CHR 0x0A) s
      in map strip_cr (butlast ps) @ (if last ps = [] then [] else [last ps]))"

definition to_ascii_lowercase :: "string \<Rightarrow> string" where
  "to_ascii_lowercase = map ascii_lower"

section \<open>The parser for GitHub\<close>

datatype MergeMethod = MethodMerge | MethodSquash | MethodRebase

fun merge_method_str :: "MergeMethod \<Rightarrow> string" where
  "merge_method_str MethodMerge = ''merge''"
| "merge_method_str MethodSquash = ''squash''"
| "merge_method_str MethodRebase = ''rebase''"

datatype CommentCommand = Merge "MergeMethod option" | MergeCancel

definition BOT_MENTION :: string where
  "BOT_MENTION = ''@eka-ci''"

definition parse_argument :: "string option \<Rightarrow> CommentCommand" where
  "parse_argument arg =
     (case arg of
        None \<Rightarrow> Merge None
      | Some arg \<Rightarrow>
          (let arg_lc = to_ascii_lowercase arg in
           if arg_lc = ''cancel'' then MergeCancel
           else if arg_lc = ''merge'' then Merge (Some MethodMerge)
           else if arg_lc = ''squash'' then Merge (Some MethodSquash)
           else if arg_lc = ''rebase'' then Merge (Some MethodRebase)
           else Merge None))"

definition parse_line :: "string \<Rightarrow> CommentCommand option" where
  "parse_line line =
     (case split_whitespace (skip_ws line) of
        mention # verb # rest \<Rightarrow>
          if eq_ignore_ascii_case mention BOT_MENTION \<and> to_ascii_lowercase verb = ''merge''
          then Some (parse_argument (case rest of [] \<Rightarrow> None | arg # _ \<Rightarrow> Some arg))
          else None
      | _ \<Rightarrow> None)"

fun first_command :: "string list \<Rightarrow> CommentCommand option" where
  "first_command [] = None"
| "first_command (l # ls) = (case parse_line l of Some cmd \<Rightarrow> Some cmd | None \<Rightarrow> first_command ls)"

definition parse_comment_command :: "string \<Rightarrow> CommentCommand option" where
  "parse_comment_command body = first_command (str_lines body)"

section \<open>The parser for GitLab and Gitea\<close>

datatype ForgeCommand = ForgeMerge "string option" | ForgeMergeCancel

definition forge_parse_comment_command :: "string \<Rightarrow> ForgeCommand option" where
  "forge_parse_comment_command body =
     (case strip_prefix_str BOT_MENTION (str_trim body) of
        None \<Rightarrow> None
      | Some after \<Rightarrow>
          (let after_mention = str_trim after in
           case strip_prefix_str ''merge'' after_mention of
             None \<Rightarrow> None
           | Some rest \<Rightarrow>
               (let after_merge = str_trim rest in
                if after_merge = [] then Some (ForgeMerge None)
                else if after_merge = ''cancel'' then Some ForgeMergeCancel
                else (case split_whitespace after_merge of
                        [] \<Rightarrow> None
                      | method # _ \<Rightarrow> Some (ForgeMerge (Some method))))))"

section \<open>Rate limit\<close>

type_synonym rate_key = "int \<times> string \<times> string"

definition COMMAND_MIN_INTERVAL :: duration where
  "COMMAND_MIN_INTERVAL = from_secs 5"

definition RATE_LIMIT_MAP_MAX_ENTRIES :: nat where
  "RATE_LIMIT_MAP_MAX_ENTRIES = 10000"

text \<open>The clock starts at 0, before which \<open>checked_sub\<close> has no answer.\<close>

definition check_and_record_rate_limit_inner ::
  "rate_key \<Rightarrow> instant \<Rightarrow> duration \<Rightarrow> (rate_key \<times> instant) list \<Rightarrow> (rate_key \<times> instant) list \<times> bool" where
  "check_and_record_rate_limit_inner key now min_interval m =
     (if (case map_of m key of None \<Rightarrow> False | Some previous \<Rightarrow> duration_since now previous < min_interval)
      then (m, False)
      else let m1 = AList.update key now m
           in (if length m1 > RATE_LIMIT_MAP_MAX_ENTRIES \<and> int (min_interval * 2) \<le> now
               then filter (\<lambda>(_, ts). ts > now - int (min_interval * 2)) m1 else m1, True))"

definition check_and_record_rate_limit ::
  "rate_key \<Rightarrow> instant \<Rightarrow> (rate_key \<times> instant) list \<Rightarrow> (rate_key \<times> instant) list \<times> bool" where
  "check_and_record_rate_limit key now m = check_and_record_rate_limit_inner key now COMMAND_MIN_INTERVAL m"

text \<open>A run of the limiter: the calls in the order of their lock, and which were accepted.\<close>

fun rate_run :: "(rate_key \<times> instant) list \<Rightarrow> (rate_key \<times> instant) list \<Rightarrow> (rate_key \<times> instant \<times> bool) list" where
  "rate_run m [] = []"
| "rate_run m ((key, now) # calls) =
     (let (m', ok) = check_and_record_rate_limit key now m in (key, now, ok) # rate_run m' calls)"

section \<open>Words and lines\<close>

text \<open>Printable ASCII characters.\<close>

definition plain_char :: "char \<Rightarrow> bool" where
  "plain_char c = (33 \<le> (of_char c :: nat) \<and> (of_char c :: nat) \<le> 126)"

definition plain_word :: "string \<Rightarrow> bool" where
  "plain_word w = (w \<noteq> [] \<and> list_all plain_char w)"

lemma plain_not_ws:
  "plain_char a \<Longrightarrow> \<not> is_ascii_ws a" "plain_char a \<Longrightarrow> \<not> ws2 a b" "plain_char a \<Longrightarrow> \<not> ws3 a b c"
  "plain_char b \<Longrightarrow> \<not> ws2 a b" "plain_char c \<Longrightarrow> \<not> ws3 a b c"
  by (auto simp: plain_char_def is_ascii_ws_def ws2_def ws3_def)

lemma ws_len_plain: "plain_char a \<Longrightarrow> ws_len (a # s) = 0"
  by (cases "a # s" rule: ws_len.cases) (auto simp: plain_not_ws)

lemma ws_len_le: "ws_len s \<le> length s"
  by (cases s rule: ws_len.cases) auto

lemma split_whitespace_skip: "split_whitespace (skip_ws s) = split_whitespace s"
  by (induction s rule: skip_ws.induct) (auto simp: split_whitespace_def)

lemma ws_len_cr: "x # xs \<noteq> [] \<Longrightarrow> ws_len (x # xs @ [CHR 0x0D]) = ws_len (x # xs)"
  by (cases "x # xs" rule: ws_len.cases) (auto simp: ws2_def ws3_def)

lemma words_from_cr: "words_from cur (s @ [CHR 0x0D]) = words_from cur s"
proof (induction cur s rule: words_from.induct)
  case (1 cur)
  then show ?case by (simp add: is_ascii_ws_def)
next
  case (2 cur x xs)
  have "ws_len (x # xs) - 1 \<le> length xs" using ws_len_le[of "x # xs"] by simp
  then show ?case using 2 ws_len_cr[of x xs] by simp
qed

lemma parse_line_words:
  "parse_line l = (case split_whitespace l of
     mention # verb # rest \<Rightarrow>
       if eq_ignore_ascii_case mention BOT_MENTION \<and> to_ascii_lowercase verb = ''merge''
       then Some (parse_argument (case rest of [] \<Rightarrow> None | arg # _ \<Rightarrow> Some arg))
       else None
   | _ \<Rightarrow> None)"
  by (simp add: parse_line_def split_whitespace_skip)

lemma parse_line_strip_cr: "parse_line (strip_cr l) = parse_line l"
proof (cases "l \<noteq> [] \<and> last l = CHR 0x0D")
  case True
  then have "l = butlast l @ [CHR 0x0D]" by (metis append_butlast_last_id)
  then have "split_whitespace (butlast l) = split_whitespace l" by (metis split_whitespace_def words_from_cr)
  then show ?thesis using True by (simp add: parse_line_words strip_cr_def)
next
  case False
  then show ?thesis by (simp only: strip_cr_def if_False)
qed

lemma first_command_append:
  "first_command (xs @ ys) = (case first_command xs of Some cmd \<Rightarrow> Some cmd | None \<Rightarrow> first_command ys)"
  by (induction xs) (auto split: option.split)

lemma first_command_strip: "first_command (map strip_cr ls) = first_command ls"
  by (induction ls) (simp_all add: parse_line_strip_cr split: option.split)

lemma parse_by_lines: "parse_comment_command body = first_command (split_on (CHR 0x0A) body)"
proof -
  let ?ps = "split_on (CHR 0x0A) body"
  have "parse_line [] = None" by (simp add: parse_line_words split_whitespace_def)
  then have "first_command (xs @ (if l = [] then [] else [l])) = first_command (xs @ [l])" for xs l
    by (simp add: first_command_append split: option.split)
  then have "first_command (butlast ?ps @ (if last ?ps = [] then [] else [last ?ps])) = first_command (butlast ?ps @ [last ?ps])" .
  also have "butlast ?ps @ [last ?ps] = ?ps" by (rule append_butlast_last_id) simp
  finally show ?thesis
    by (simp add: parse_comment_command_def str_lines_def Let_def first_command_append first_command_strip)
qed

lemma split_on_append_sep: "split_on c (a @ c # b) = split_on c a @ split_on c b"
  by (induction a) (auto split: list.splits)

text \<open>Words separated by single spaces.\<close>

lemma words_from_word:
  "list_all plain_char w \<Longrightarrow> words_from cur (w @ s) = words_from (rev w @ cur) s"
  by (induction w arbitrary: cur) (simp_all add: ws_len_plain)

lemma words_from_join:
  "\<forall>w\<in>set ws. plain_word w \<Longrightarrow> split_whitespace (join_with '' '' ws) = ws"
proof (induction "'' ''" ws rule: join_with.induct)
  case (2 x)
  then show ?case using words_from_word[of x "[]" "[]"] by (simp add: split_whitespace_def plain_word_def)
next
  case (3 x y xs)
  have "ws_len (CHR '' '' # s) = 1" for s
    by (cases "CHR '' '' # s" rule: ws_len.cases) (auto simp: is_ascii_ws_def)
  then show ?case using 3 words_from_word[of x "[]" "CHR '' '' # join_with '' '' (y # xs)"]
    by (simp add: split_whitespace_def plain_word_def)
qed (simp add: split_whitespace_def)

lemma join_no_newline:
  "\<forall>w\<in>set ws. plain_word w \<Longrightarrow> CHR 0x0A \<notin> set (join_with '' '' ws)"
  by (induction "'' ''" ws rule: join_with.induct) (auto simp: plain_word_def plain_char_def list_all_iff)

section \<open>Properties of the parsers\<close>

fun command_words :: "CommentCommand \<Rightarrow> string list" where
  "command_words (Merge None) = [''@eka-ci'', ''merge'']"
| "command_words (Merge (Some m)) = [''@eka-ci'', ''merge'', merge_method_str m]"
| "command_words MergeCancel = [''@eka-ci'', ''merge'', ''cancel'']"

lemma command_words_plain: "\<forall>w\<in>set (command_words cmd). plain_word w"
proof -
  have "list_all plain_word [''@eka-ci'', ''merge'', ''squash'', ''rebase'', ''cancel'']" by code_simp
  moreover from this have "plain_word (merge_method_str m)" for m by (cases m) simp_all
  ultimately show ?thesis by (cases cmd rule: command_words.cases) simp_all
qed

lemma parse_command_line:
  assumes "\<forall>w\<in>set trailing. plain_word w" "cmd = Merge None \<Longrightarrow> trailing = []"
  shows "parse_line (join_with '' '' (command_words cmd @ trailing)) = Some cmd"
proof -
  have words: "split_whitespace (join_with '' '' (command_words cmd @ trailing)) = command_words cmd @ trailing"
    using words_from_join[of "command_words cmd @ trailing"] command_words_plain assms(1) by auto
  have lower: "to_ascii_lowercase ''merge'' = ''merge''" "to_ascii_lowercase ''cancel'' = ''cancel''"
      "to_ascii_lowercase ''squash'' = ''squash''" "to_ascii_lowercase ''rebase'' = ''rebase''"
      "eq_ignore_ascii_case ''@eka-ci'' BOT_MENTION"
    by code_simp+
  show ?thesis
  proof (cases cmd)
    case (Merge m)
    then show ?thesis using assms(2) words lower
      by (cases m; cases "the m") (simp_all add: parse_line_words parse_argument_def)
  qed (use words lower in \<open>simp add: parse_line_words parse_argument_def\<close>)
qed

text \<open>C32: A command is read back from a comment in which it stands on a line of its own, whatever
  follows that line, whatever words follow the method or \<open>cancel\<close> on it, and
  whatever text without a command precedes it.\<close>

theorem comment_command_roundtrip:
  assumes "parse_comment_command before = None" "\<forall>w\<in>set trailing. plain_word w" "cmd = Merge None \<Longrightarrow> trailing = []"
  shows "parse_comment_command (before @ [CHR 0x0A] @ join_with '' '' (command_words cmd @ trailing) @ [CHR 0x0A] @ after) = Some cmd"
proof -
  let ?l = "join_with '' '' (command_words cmd @ trailing)"
  have "CHR 0x0A \<notin> set ?l" using join_no_newline[of "command_words cmd @ trailing"] command_words_plain assms(2) by auto
  then have "split_on (CHR 0x0A) (before @ CHR 0x0A # ?l @ CHR 0x0A # after) =
      split_on (CHR 0x0A) before @ ?l # split_on (CHR 0x0A) after"
    by (simp add: split_on_append_sep split_on_no_sep)
  then show ?thesis using assms(1) parse_command_line[OF assms(2,3)]
    by (simp add: parse_by_lines first_command_append)
qed

theorem comment_command_roundtrip_witness:
  "parse_comment_command (''lgtm'' @ [CHR 0x0A] @ join_with '' '' (command_words MergeCancel @ [''please'']) @ [CHR 0x0A] @ ''thanks'')
     = Some MergeCancel"
  by (rule comment_command_roundtrip) (code_simp | simp)+

text \<open>Trimming keeps text that starts and ends with printable characters.\<close>

lemma skip_ws_last: "t \<noteq> [] \<Longrightarrow> plain_char (last t) \<Longrightarrow> skip_ws t \<noteq> []"
proof (induction t rule: skip_ws.induct)
  case (2 x xs)
  let ?n = "ws_len (x # xs)"
  show ?case
  proof (cases "?n = 0")
    case False
    have "?n < length (x # xs)"
      using 2(3) False by (cases "x # xs" rule: ws_len.cases) (auto simp: plain_not_ws split: if_splits)
    then have "drop (?n - 1) xs \<noteq> []" using False by auto
    moreover from this have "last (drop (?n - 1) xs) = last (x # xs)" by (cases xs) (simp_all add: last_drop)
    ultimately show ?thesis using 2 False by simp
  qed simp
qed simp

lemma drop_ws_end_plain: "s \<noteq> [] \<Longrightarrow> plain_char (last s) \<Longrightarrow> drop_ws_end s = s"
proof (induction s)
  case (Cons x xs)
  have "skip_ws (x # xs) \<noteq> []" using skip_ws_last Cons.prems by blast
  then show ?case using Cons by (cases xs) auto
qed simp

lemma str_trim_plain: "s \<noteq> [] \<Longrightarrow> plain_char (hd s) \<Longrightarrow> plain_char (last s) \<Longrightarrow> str_trim s = s"
  using drop_ws_end_plain[of s] by (cases s) (simp_all add: str_trim_def ws_len_plain)

lemma forge_parse_method:
  assumes "str_trim body = BOT_MENTION @ a" "str_trim a = ''merge'' @ b" "str_trim b = c" "c \<noteq> []" "c \<noteq> ''cancel''"
    and "split_whitespace c = method # rest"
  shows "forge_parse_comment_command body = Some (ForgeMerge (Some method))"
proof -
  have strip: "strip_prefix_str p (p @ s) = Some s" for p s by (simp add: strip_prefix_Some)
  show ?thesis unfolding forge_parse_comment_command_def Let_def assms(1) strip option.case assms(2)
    using assms(3-6) by simp
qed

lemma str_trim_space: "s \<noteq> [] \<Longrightarrow> plain_char (hd s) \<Longrightarrow> plain_char (last s) \<Longrightarrow> str_trim (CHR '' '' # s) = s"
proof -
  assume s: "s \<noteq> []" "plain_char (hd s)" "plain_char (last s)"
  have "ws_len (CHR '' '' # s) = 1" by (cases "CHR '' '' # s" rule: ws_len.cases) (auto simp: is_ascii_ws_def)
  then show ?thesis using str_trim_plain[OF s] by (simp add: str_trim_def)
qed

lemma join_ends:
  "ws \<noteq> [] \<Longrightarrow> \<forall>w\<in>set ws. plain_word w \<Longrightarrow>
     join_with '' '' ws \<noteq> [] \<and> plain_char (hd (join_with '' '' ws)) \<and> plain_char (last (join_with '' '' ws))"
proof (induction "'' ''" ws rule: join_with.induct)
  case (2 x)
  then show ?case by (auto simp: plain_word_def list_all_iff)
next
  case (3 x y xs)
  then show ?case by (cases x) (auto simp: plain_word_def)
qed simp

text \<open>On GitLab and Gitea a request to cancel a merge that is followed by any other word is
  taken as a request to merge, with the method \<open>cancel\<close>, while GitHub cancels; and any
  word that begins with \<open>merge\<close> asks for a merge.\<close>

theorem forge_cancel_becomes_merge:
  assumes "words \<noteq> []" "\<forall>w\<in>set words. plain_word w"
  shows "forge_parse_comment_command (join_with '' '' ([''@eka-ci'', ''merge'', ''cancel''] @ words)) = Some (ForgeMerge (Some ''cancel'')) \<and>
    parse_comment_command (join_with '' '' ([''@eka-ci'', ''merge'', ''cancel''] @ words)) = Some MergeCancel \<and>
    forge_parse_comment_command (join_with '' '' ([''@eka-ci'', ''merge-base''] @ words)) = Some (ForgeMerge (Some ''-base''))"
proof -
  have plain: "plain_word ''@eka-ci''" "plain_word ''merge''" "plain_word ''cancel''" "plain_word ''merge-base''" "plain_word ''-base''"
    by code_simp+
  let ?t = "join_with '' '' words"
  have trim: "str_trim (CHR '' '' # join_with '' '' ws) = join_with '' '' ws"
      "str_trim (join_with '' '' ws) = join_with '' '' ws" if "ws \<noteq> []" "\<forall>w\<in>set ws. plain_word w" for ws
    using join_ends[OF that] by (simp_all add: str_trim_space str_trim_plain)
  have join: "join_with '' '' (w # words) = w @ '' '' @ ?t" for w using assms(1) by (simp add: join_with_Cons)
  have join2: "join_with '' '' (v # w # words) = v @ '' '' @ join_with '' '' (w # words)" for v w by simp
  have "forge_parse_comment_command (join_with '' '' ([''@eka-ci'', ''merge'', ''cancel''] @ words)) = Some (ForgeMerge (Some ''cancel''))"
  proof (rule forge_parse_method)
    show "str_trim (join_with '' '' ([''@eka-ci'', ''merge'', ''cancel''] @ words)) =
        BOT_MENTION @ '' '' @ join_with '' '' ([''merge'', ''cancel''] @ words)"
      using trim(2)[of "[''@eka-ci'', ''merge'', ''cancel''] @ words"] assms plain by (simp add: BOT_MENTION_def)
    show "str_trim ('' '' @ join_with '' '' ([''merge'', ''cancel''] @ words)) = ''merge'' @ '' '' @ join_with '' '' ([''cancel''] @ words)"
      using trim(1)[of "[''merge'', ''cancel''] @ words"] assms plain by simp
    show "str_trim ('' '' @ join_with '' '' ([''cancel''] @ words)) = join_with '' '' ([''cancel''] @ words)"
      using trim(1)[of "[''cancel''] @ words"] assms plain by simp
    show "split_whitespace (join_with '' '' ([''cancel''] @ words)) = ''cancel'' # words"
      using words_from_join[of "[''cancel''] @ words"] assms plain by simp
  qed (simp_all add: join)
  moreover have "forge_parse_comment_command (join_with '' '' ([''@eka-ci'', ''merge-base''] @ words)) = Some (ForgeMerge (Some ''-base''))"
  proof (rule forge_parse_method)
    show "str_trim (join_with '' '' ([''@eka-ci'', ''merge-base''] @ words)) = BOT_MENTION @ '' '' @ join_with '' '' (''merge-base'' # words)"
      using trim(2)[of "[''@eka-ci'', ''merge-base''] @ words"] assms plain by (simp add: BOT_MENTION_def)
    show "str_trim ('' '' @ join_with '' '' (''merge-base'' # words)) = ''merge'' @ join_with '' '' (''-base'' # words)"
      using trim(1)[of "''merge-base'' # words"] assms plain by (simp add: join)
    show "str_trim (join_with '' '' (''-base'' # words)) = join_with '' '' (''-base'' # words)"
      using trim(2)[of "''-base'' # words"] assms plain by simp
    show "split_whitespace (join_with '' '' (''-base'' # words)) = ''-base'' # words"
      using words_from_join[of "''-base'' # words"] assms plain by simp
  qed (simp_all add: join)
  moreover have "CHR 0x0A \<notin> set (join_with '' '' (command_words MergeCancel @ words))"
    using join_no_newline[of "command_words MergeCancel @ words"] plain assms(2) by auto
  then have "parse_comment_command (join_with '' '' (command_words MergeCancel @ words)) = Some MergeCancel"
    using parse_command_line[of words MergeCancel] assms(2) by (simp add: parse_by_lines split_on_no_sep)
  ultimately show ?thesis by simp
qed

theorem forge_cancel_becomes_merge_witness:
  "forge_parse_comment_command (join_with '' '' ([''@eka-ci'', ''merge'', ''cancel''] @ [''please''])) = Some (ForgeMerge (Some ''cancel''))"
  using forge_cancel_becomes_merge[of "[''please'']"] by (simp add: plain_word_def plain_char_def)

section \<open>The rate limit\<close>

text \<open>A limiter that remembers every accepted command.\<close>

fun reference_run :: "(rate_key \<times> instant) list \<Rightarrow> (rate_key \<times> instant) list \<Rightarrow> (rate_key \<times> instant \<times> bool) list" where
  "reference_run accepted [] = []"
| "reference_run accepted ((key, now) # calls) =
     (let ok = (\<forall>(k, t)\<in>set accepted. k = key \<longrightarrow> t + int COMMAND_MIN_INTERVAL \<le> now)
      in (key, now, ok) # reference_run (if ok then (key, now) # accepted else accepted) calls)"

text \<open>What the map keeps of the accepted commands: the latest of each key, unless it is too old to
  matter.\<close>

definition rate_inv :: "(rate_key \<times> instant) list \<Rightarrow> (rate_key \<times> instant) list \<Rightarrow> instant \<Rightarrow> bool" where
  "rate_inv accepted m now =
     (distinct (map fst m) \<and> set m \<subseteq> set accepted \<and> (\<forall>(k, t)\<in>set accepted. t \<le> now) \<and>
      (\<forall>(k, t)\<in>set accepted. (\<exists>t'\<ge>t. (k, t') \<in> set m) \<or> t + int COMMAND_MIN_INTERVAL \<le> now))"

lemma rate_inv_later: "rate_inv accepted m now \<Longrightarrow> now \<le> now' \<Longrightarrow> rate_inv accepted m now'"
  by (fastforce simp: rate_inv_def)

lemma rate_check_exact:
  assumes inv: "rate_inv accepted m now"
  shows "snd (check_and_record_rate_limit key now m) =
    (\<forall>(k, t)\<in>set accepted. k = key \<longrightarrow> t + int COMMAND_MIN_INTERVAL \<le> now)"
proof (cases "map_of m key")
  case None
  then have "(key, t) \<notin> set m" for t by (force simp: map_of_eq_None_iff)
  then have "\<forall>(k, t)\<in>set accepted. k = key \<longrightarrow> t + int COMMAND_MIN_INTERVAL \<le> now"
    using inv by (fastforce simp: rate_inv_def)
  then show ?thesis using None by (simp add: check_and_record_rate_limit_def check_and_record_rate_limit_inner_def Let_def)
next
  case (Some t0)
  have t0: "(key, t0) \<in> set accepted" "t0 \<le> now"
    using inv map_of_SomeD[OF Some] by (auto simp: rate_inv_def)
  have "(key, t') \<in> set m \<Longrightarrow> t' = t0" for t'
    using inv Some by (auto simp: rate_inv_def)
  then have latest: "t \<le> t0 \<or> t + int COMMAND_MIN_INTERVAL \<le> now" if "(key, t) \<in> set accepted" for t
    using inv that by (fastforce simp: rate_inv_def)
  have "snd (check_and_record_rate_limit key now m) = (t0 + int COMMAND_MIN_INTERVAL \<le> now)"
    using Some t0(2) by (simp add: check_and_record_rate_limit_def check_and_record_rate_limit_inner_def Let_def
        duration_since_def) linarith
  moreover have "(\<forall>(k, t)\<in>set accepted. k = key \<longrightarrow> t + int COMMAND_MIN_INTERVAL \<le> now) \<longleftrightarrow> t0 + int COMMAND_MIN_INTERVAL \<le> now"
    using t0(1) latest by force
  ultimately show ?thesis by simp
qed

lemma set_update_distinct:
  "distinct (map fst m) \<Longrightarrow> set (AList.update k v m) = insert (k, v) {(k', v') \<in> set m. k' \<noteq> k}"
  by (induction m) (auto simp: rev_image_eqI)

lemma rate_check_inv:
  assumes inv: "rate_inv accepted m now" and ok: "check_and_record_rate_limit key now m = (m', True)"
  shows "rate_inv ((key, now) # accepted) m' now"
proof -
  let ?m1 = "AList.update key now m"
  have d: "distinct (map fst m)" using inv by (simp add: rate_inv_def)
  have m1: "rate_inv ((key, now) # accepted) ?m1 now"
  proof -
    have "(\<exists>t'\<ge>t. (k, t') \<in> set ?m1) \<or> t + int COMMAND_MIN_INTERVAL \<le> now" if "(k, t) \<in> set ((key, now) # accepted)" for k t
    proof (cases "k = key")
      case True
      have "t \<le> now" using that inv by (auto simp: rate_inv_def)
      then show ?thesis using True d by (auto simp: set_update_distinct)
    next
      case False
      then show ?thesis using that inv d by (fastforce simp: rate_inv_def set_update_distinct)
    qed
    moreover have "set ?m1 \<subseteq> set ((key, now) # accepted)" using inv d by (auto simp: rate_inv_def set_update_distinct)
    moreover have "\<forall>(k, t)\<in>set ((key, now) # accepted). t \<le> now" using inv by (auto simp: rate_inv_def)
    moreover have "distinct (map fst ?m1)" using d by (rule distinct_update)
    ultimately show ?thesis unfolding rate_inv_def by blast
  qed
  have m': "m' = ?m1 \<or> m' = filter (\<lambda>(_, ts). ts > now - int (COMMAND_MIN_INTERVAL * 2)) ?m1"
    using ok by (auto simp: check_and_record_rate_limit_def check_and_record_rate_limit_inner_def Let_def split: if_splits)
  have "(\<exists>t'\<ge>t. (k, t') \<in> set (filter (\<lambda>(_, ts). ts > now - int (COMMAND_MIN_INTERVAL * 2)) ?m1)) \<or> t + int COMMAND_MIN_INTERVAL \<le> now"
    if "(k, t) \<in> set ((key, now) # accepted)" for k t
  proof (cases "t + int COMMAND_MIN_INTERVAL \<le> now")
    case False
    have "\<forall>(k, t)\<in>set ((key, now) # accepted). (\<exists>t'\<ge>t. (k, t') \<in> set ?m1) \<or> t + int COMMAND_MIN_INTERVAL \<le> now"
      using m1 unfolding rate_inv_def by blast
    from bspec[OF this that] obtain t' where "t' \<ge> t" "(k, t') \<in> set ?m1" using False by auto
    then show ?thesis using False by auto
  qed simp
  then have "rate_inv ((key, now) # accepted) (filter (\<lambda>(_, ts). ts > now - int (COMMAND_MIN_INTERVAL * 2)) ?m1) now"
  proof -
    assume ex: "\<And>k t. (k, t) \<in> set ((key, now) # accepted) \<Longrightarrow>
      (\<exists>t'\<ge>t. (k, t') \<in> set (filter (\<lambda>(_, ts). ts > now - int (COMMAND_MIN_INTERVAL * 2)) ?m1)) \<or> t + int COMMAND_MIN_INTERVAL \<le> now"
    have "distinct (map fst (filter (\<lambda>(_, ts). ts > now - int (COMMAND_MIN_INTERVAL * 2)) ?m1))"
      by (rule distinct_map_filter) (use m1 in \<open>simp add: rate_inv_def\<close>)
    moreover have "set (filter (\<lambda>(_, ts). ts > now - int (COMMAND_MIN_INTERVAL * 2)) ?m1) \<subseteq> set ((key, now) # accepted)"
      using m1 by (auto simp: rate_inv_def)
    moreover have "\<forall>(k, t)\<in>set ((key, now) # accepted). t \<le> now" using m1 by (simp add: rate_inv_def)
    ultimately show ?thesis using ex unfolding rate_inv_def by blast
  qed
  then show ?thesis using m1 m' by auto
qed

text \<open>The limiter accepts exactly the commands of a user on a repository that come at least five
  seconds after every earlier accepted one.  The pruning of the map never
  changes an answer: the limiter decides as one that remembers all accepted commands.\<close>

theorem rate_limit_equiv:
  assumes "sorted (map snd calls)"
  shows "rate_run [] calls = reference_run [] calls"
proof -
  have "rate_run m cs = reference_run accepted cs"
    if "rate_inv accepted m t0" "sorted (map snd cs)" "\<forall>c\<in>set cs. t0 \<le> snd c" for accepted m t0 cs
    using that
  proof (induction cs arbitrary: accepted m t0)
    case (Cons c cs)
    obtain key now where c: "c = (key, now)" by (cases c)
    have inv: "rate_inv accepted m now" using rate_inv_later[OF Cons(2)] Cons(4) c by auto
    obtain m' ok where chk: "check_and_record_rate_limit key now m = (m', ok)"
      by (cases "check_and_record_rate_limit key now m")
    have ok: "ok = (\<forall>(k, t)\<in>set accepted. k = key \<longrightarrow> t + int COMMAND_MIN_INTERVAL \<le> now)"
      using rate_check_exact[OF inv, of key] chk by simp
    have "m' = m" if "\<not> ok" using that chk
      by (auto simp: check_and_record_rate_limit_def check_and_record_rate_limit_inner_def Let_def split: if_splits)
    then have "rate_inv (if ok then (key, now) # accepted else accepted) m' now"
      using inv rate_check_inv[OF inv, of key m'] chk by auto
    moreover have "sorted (map snd cs)" "\<forall>c\<in>set cs. now \<le> snd c" using Cons(3) c by auto
    ultimately have "rate_run m' cs = reference_run (if ok then (key, now) # accepted else accepted) cs"
      by (rule Cons.IH)
    then show ?case using c chk ok by (simp add: Let_def)
  qed simp
  from this[of "[]" "[]" "if calls = [] then 0 else snd (hd calls)" calls] assms
  show ?thesis by (cases calls) (auto simp: rate_inv_def)
qed

theorem rate_limit_equiv_witness:
  "rate_run [] [((7, ''o'', ''r''), 0), ((7, ''o'', ''r''), 1000000000), ((7, ''o'', ''r''), 6000000000)] =
     [((7, ''o'', ''r''), 0, True), ((7, ''o'', ''r''), 1000000000, False), ((7, ''o'', ''r''), 6000000000, True)]"
  using rate_limit_equiv[of "[((7, ''o'', ''r''), 0), ((7, ''o'', ''r''), 1000000000), ((7, ''o'', ''r''), 6000000000)]"]
  by (simp add: COMMAND_MIN_INTERVAL_def from_secs_def nanos_per_sec_def)

end
