(* ===== verification/Permissions.thy ===== *)
theory Permissions
  imports Prelude
begin

text \<open>
  Checks at the border of the server: which repositories and branches may use a cache or a
  GitHub app (\<open>server/src/cache_permissions.rs\<close>, \<open>github_permissions.rs\<close>), whether a path stays
  in its workspace (\<open>path_safety.rs\<close>), and whether a webhook is signed
  (\<open>webhook_security.rs\<close>).  The file system, hexadecimal decoding and the message
  authentication code are arguments.
\<close>

section \<open>Permissions\<close>

record PermissionContext =
  pc_repo_owner :: string
  pc_repo_name :: string
  pc_branch :: "string option"

record PermissionRules =
  pm_allow_all :: bool
  pm_allowed_repos :: "string list"
  pm_allowed_branches :: "string list"

definition repo_full_name :: "PermissionContext \<Rightarrow> string" where
  "repo_full_name ctx = pc_repo_owner ctx @ ''/'' @ pc_repo_name ctx"

definition matches_glob_pattern :: "string \<Rightarrow> string \<Rightarrow> bool" where
  "matches_glob_pattern v pattern =
     (if pattern = ''*'' then True
      else case strip_suffix_str ''/*'' pattern of
             Some p \<Rightarrow> prefix p v
           | None \<Rightarrow>
               (case strip_prefix_str ''*/'' pattern of
                  Some p \<Rightarrow> suffix p v
                | None \<Rightarrow> v = pattern))"

datatype PermissionError = RepoNotAllowed string string | BranchNotAllowed string string | BranchRequired string

definition check_cache_permission :: "string \<Rightarrow> PermissionRules \<Rightarrow> PermissionContext \<Rightarrow> (PermissionError, unit) result" where
  "check_cache_permission cache_id rules ctx =
     (if pm_allow_all rules then Inr ()
      else if pm_allowed_repos rules \<noteq> [] \<and> repo_full_name ctx \<notin> set (pm_allowed_repos rules)
        then Inl (RepoNotAllowed (repo_full_name ctx) cache_id)
      else if pm_allowed_branches rules \<noteq> []
        then (case pc_branch ctx of
                Some branch \<Rightarrow>
                  if list_ex (matches_glob_pattern branch) (pm_allowed_branches rules) then Inr ()
                  else Inl (BranchNotAllowed branch cache_id)
              | None \<Rightarrow> Inl (BranchRequired cache_id))
      else Inr ())"

definition check_github_app_permission :: "string \<Rightarrow> PermissionRules \<Rightarrow> PermissionContext \<Rightarrow> (PermissionError, unit) result" where
  "check_github_app_permission app_id rules ctx =
     (if pm_allow_all rules then Inr ()
      else if pm_allowed_repos rules \<noteq> [] \<and> repo_full_name ctx \<notin> set (pm_allowed_repos rules)
        then Inl (RepoNotAllowed (repo_full_name ctx) app_id)
      else if pm_allowed_branches rules \<noteq> []
        then (case pc_branch ctx of
                Some branch \<Rightarrow>
                  if list_ex (matches_glob_pattern branch) (pm_allowed_branches rules) then Inr ()
                  else Inl (BranchNotAllowed branch app_id)
              | None \<Rightarrow> Inl (BranchRequired app_id))
      else Inr ())"

section \<open>Paths\<close>

datatype Component = RootDir | CurDir | ParentDir | Normal string

text \<open>\<open>Path::components\<close> on Unix: a leading slash, then the names between slashes; empty names and \<open>.\<close>
  are dropped, but a leading \<open>.\<close> of a relative path is kept.\<close>

definition name_component :: "string \<Rightarrow> Component" where
  "name_component s = (if s = ''..'' then ParentDir else Normal s)"

definition path_components :: "string \<Rightarrow> Component list" where
  "path_components p =
     (let parts = split_on (CHR ''/'') p;
          root = (if p \<noteq> [] \<and> hd p = CHR ''/'' then [RootDir] else if hd parts = ''.'' then [CurDir] else [])
      in root @ map name_component (filter (\<lambda>s. s \<noteq> [] \<and> s \<noteq> ''.'') parts))"

definition path_starts_with :: "string \<Rightarrow> string \<Rightarrow> bool" where
  "path_starts_with p base = prefix (path_components base) (path_components p)"

definition canonical_within :: "(string \<Rightarrow> (anyhow, string) result) \<Rightarrow> string \<Rightarrow> string \<Rightarrow> (anyhow, string) result" where
  "canonical_within canonicalize path root =
     (case canonicalize path of
        Inl e \<Rightarrow> Inl e
      | Inr canonical \<Rightarrow>
          (case canonicalize root of
             Inl e \<Rightarrow> Inl e
           | Inr canonical_root \<Rightarrow>
               if path_starts_with canonical canonical_root then Inr canonical
               else Inl ''path is outside workspace root''))"

definition reject_parent_components :: "string \<Rightarrow> (anyhow, unit) result" where
  "reject_parent_components path =
     (if ParentDir \<in> set (path_components path) then Inl ''path contains a parent-directory component'' else Inr ())"

section \<open>Webhook signatures\<close>

definition verify_webhook_signature ::
  "(string \<Rightarrow> string option) \<Rightarrow> (string \<Rightarrow> string \<Rightarrow> string) \<Rightarrow> string \<Rightarrow> string \<Rightarrow> string \<Rightarrow> (string, unit) result" where
  "verify_webhook_signature hex_decode hmac secret signature_header payload =
     (case strip_prefix_str ''sha256='' signature_header of
        None \<Rightarrow> Inl ''Signature header missing 'sha256=' prefix''
      | Some hex \<Rightarrow>
          (case hex_decode hex of
             None \<Rightarrow> Inl ''Failed to decode signature hex''
           | Some sig \<Rightarrow> if sig = hmac secret payload then Inr () else Inl ''Signature verification failed''))"

section \<open>Properties\<close>

lemma permission_same: "check_github_app_permission i rules ctx = check_cache_permission i rules ctx"
  by (simp add: check_github_app_permission_def check_cache_permission_def)

lemma cache_permission_iff:
  "check_cache_permission i rules ctx = Inr () \<longleftrightarrow>
     pm_allow_all rules \<or>
     (pm_allowed_repos rules = [] \<or> repo_full_name ctx \<in> set (pm_allowed_repos rules)) \<and>
     (pm_allowed_branches rules = [] \<or>
      (\<exists>b. pc_branch ctx = Some b \<and> (\<exists>p\<in>set (pm_allowed_branches rules). matches_glob_pattern b p)))"
  by (auto simp: check_cache_permission_def list_ex_iff split: option.splits)

text \<open>A branch pattern that ends in \<open>/*\<close> is not bound to its directory.  It accepts every branch
  whose name continues the part before the slash, with or without a slash, so a cache
  or app that is restricted to \<open>dir/*\<close> can be used from \<open>dir-other\<close>; and a pattern
  \<open>*/name\<close> accepts every branch that ends in that name.\<close>

theorem glob_ignores_separator:
  assumes "\<not> pm_allow_all rules" "pm_allowed_repos rules = [repo_full_name ctx]"
    and "pm_allowed_branches rules = [dir @ ''/*'']" "pc_branch ctx = Some (dir @ other)"
  shows "check_cache_permission cache_id rules ctx = Inr () \<and> check_github_app_permission app_id rules ctx = Inr () \<and>
    (\<not> suffix ''/*'' (''*/'' @ name) \<longrightarrow> matches_glob_pattern (other @ name) (''*/'' @ name))"
proof -
  have "strip_suffix_str ''/*'' (dir @ ''/*'') = Some dir" by (simp add: strip_suffix_Some)
  then have "matches_glob_pattern (dir @ other) (dir @ ''/*'')" unfolding matches_glob_pattern_def by simp
  then have "check_cache_permission i rules ctx = Inr ()" for i
    using assms by (auto simp: cache_permission_iff)
  moreover have "matches_glob_pattern (other @ name) (''*/'' @ name)" if "\<not> suffix ''/*'' (''*/'' @ name)"
  proof -
    have "strip_suffix_str ''/*'' (''*/'' @ name) = None" using that by (simp add: strip_suffix_str_def)
    moreover have "strip_prefix_str ''*/'' (''*/'' @ name) = Some name" by (simp add: strip_prefix_str_def)
    ultimately show ?thesis unfolding matches_glob_pattern_def by (simp add: suffix_def)
  qed
  ultimately show ?thesis by (simp add: permission_same)
qed

theorem glob_ignores_separator_witness:
  "check_cache_permission ''cache'' \<lparr> pm_allow_all = False, pm_allowed_repos = [''o/r''], pm_allowed_branches = [''release/*''] \<rparr>
     \<lparr> pc_repo_owner = ''o'', pc_repo_name = ''r'', pc_branch = Some ''release-evil'' \<rparr> = Inr ()"
  using glob_ignores_separator[of "\<lparr> pm_allow_all = False, pm_allowed_repos = [''o/r''], pm_allowed_branches = [''release/*''] \<rparr>"
      "\<lparr> pc_repo_owner = ''o'', pc_repo_name = ''r'', pc_branch = Some ''release-evil'' \<rparr>" "''release''" "''-evil''"]
  by (simp add: repo_full_name_def)

text \<open>An accepted path lies under the root: it is the root followed by more names, when canonical paths
  are absolute and free of \<open>..\<close>.\<close>

lemma canonical_within_sound:
  assumes "\<And>p q. canonicalize p = Inr q \<Longrightarrow> \<exists>names. path_components q = RootDir # map Normal names"
    and "canonical_within canonicalize path root = Inr p"
  shows "\<exists>r names. canonicalize path = Inr p \<and> canonicalize root = Inr r \<and>
    path_components p = path_components r @ map Normal names"
proof -
  obtain r where r: "canonicalize path = Inr p" "canonicalize root = Inr r" "prefix (path_components r) (path_components p)"
    using assms(2) by (auto simp: canonical_within_def path_starts_with_def split: sum.splits if_splits)
  obtain ns ms where "path_components p = RootDir # map Normal ns" "path_components r = RootDir # map Normal ms"
    using assms(1)[OF r(1)] assms(1)[OF r(2)] by auto
  moreover from this have "\<exists>names. ns = ms @ names"
    using r(3) by (auto simp: prefix_def map_eq_append_conv dest!: map_injective[rotated] simp: inj_def)
  ultimately show ?thesis using r(1,2) by auto
qed

lemma signature_accepted_iff:
  "verify_webhook_signature hex_decode hmac secret header payload = Inr () \<longleftrightarrow>
     (\<exists>hex. header = ''sha256='' @ hex \<and> hex_decode hex = Some (hmac secret payload))"
proof (cases "strip_prefix_str ''sha256='' header")
  case None
  then have "\<nexists>hex. header = ''sha256='' @ hex" by (auto simp: strip_prefix_str_def split: if_splits)
  then show ?thesis using None by (simp add: verify_webhook_signature_def)
next
  case (Some hex)
  then have "header = ''sha256='' @ hex" by (simp add: strip_prefix_Some)
  then show ?thesis using Some by (auto simp: verify_webhook_signature_def split: option.splits)
qed

end
