(* ===== verification/Auto_Merge.thy ===== *)
theory Auto_Merge
  imports Build_State Channel_Service Comment_Command Permissions
begin

text \<open>
  Merging pull requests on GitHub: the shared rules (\<open>server/src/auto_merge/mod.rs\<close>), the
  evaluator and the merge commands (\<open>server/src/github/service/auto_merge/\<close>), the queries
  behind them (\<open>server/src/db/github/auto_merge.rs\<close>, \<open>jobsets.rs\<close>, \<open>types.rs\<close>,
  \<open>db/maintainers.rs\<close>).  The answers of GitHub are an argument.  Columns that none of this
  reads are left out, and the texts of comments are abbreviated.
  The code reads a column \<open>jobset_id\<close> of the pull requests and a table \<open>job_difference\<close>
  that no migration under \<open>sql/\<close> creates; the model is of a schema that has them.
\<close>

section \<open>Tables\<close>

record PullRequest =
  pr_number :: int
  pr_owner :: string
  pr_repo_name :: string
  pr_head_sha :: string
  pr_state :: string
  pr_jobset_id :: "int option"
  pr_auto_merge_enabled :: bool
  pr_merge_method :: "string option"
  pr_merged_by_user_id :: "int option"
  pr_cm_sha :: "string option"
  pr_cm_method :: "string option"
  pr_cm_requester_id :: "int option"
  pr_cm_requester_login :: "string option"
  pr_cm_comment_id :: "int option"
  pr_cm_requested_at :: "int option"

record CommentMergeRequest =
  cmr_sha :: string
  cmr_method :: "string option"
  cmr_requester_id :: int
  cmr_requester_login :: string
  cmr_comment_id :: int
  cmr_requested_at :: int

definition pending_comment_merge :: "PullRequest \<Rightarrow> CommentMergeRequest option" where
  "pending_comment_merge pr =
     (case (pr_cm_sha pr, pr_cm_requester_id pr, pr_cm_requester_login pr, pr_cm_comment_id pr, pr_cm_requested_at pr) of
        (Some sha, Some rid, Some login, Some cid, Some at) \<Rightarrow>
          Some \<lparr> cmr_sha = sha, cmr_method = pr_cm_method pr, cmr_requester_id = rid, cmr_requester_login = login,
                 cmr_comment_id = cid, cmr_requested_at = at \<rparr>
      | _ \<Rightarrow> None)"

datatype JobDifference = DiffNew | DiffChanged | DiffRemoved

record JobSet =
  jst_rowid :: int
  jst_sha :: string
  jst_job :: string
  jst_owner :: string
  jst_repo_name :: string

record JobOfSet =
  jbs_jobset :: int
  jbs_name :: string
  jbs_drv :: string
  jbs_difference :: JobDifference
  jbs_state :: LocalState

record MergeDb =
  md_prs :: "PullRequest list"
  md_jobsets :: "JobSet list"
  md_jobs :: "JobOfSet list"
  md_differences :: "(int \<times> string \<times> string) list"
  md_maintainers :: "(string \<times> int \<times> string) list"
  md_check_runs :: "string list"
  md_approved_users :: "(string \<times> int) list"

section \<open>Queries\<close>

definition is_pr :: "string \<Rightarrow> string \<Rightarrow> int \<Rightarrow> PullRequest \<Rightarrow> bool" where
  "is_pr owner repo n pr = (pr_owner pr = owner \<and> pr_repo_name pr = repo \<and> pr_number pr = n)"

definition get_pull_request_row :: "string \<Rightarrow> string \<Rightarrow> int \<Rightarrow> MergeDb \<Rightarrow> PullRequest option" where
  "get_pull_request_row owner repo n db = find (is_pr owner repo n) (md_prs db)"

definition update_prs :: "string \<Rightarrow> string \<Rightarrow> int \<Rightarrow> (PullRequest \<Rightarrow> PullRequest) \<Rightarrow> MergeDb \<Rightarrow> MergeDb" where
  "update_prs owner repo n f db = db\<lparr>md_prs := map (\<lambda>pr. if is_pr owner repo n pr then f pr else pr) (md_prs db)\<rparr>"

definition enable_auto_merge :: "string \<Rightarrow> string \<Rightarrow> int \<Rightarrow> string option \<Rightarrow> MergeDb \<Rightarrow> MergeDb" where
  "enable_auto_merge owner repo n method =
     update_prs owner repo n (\<lambda>pr. pr\<lparr>pr_auto_merge_enabled := True, pr_merge_method := method\<rparr>)"

definition disable_auto_merge :: "string \<Rightarrow> string \<Rightarrow> int \<Rightarrow> MergeDb \<Rightarrow> MergeDb" where
  "disable_auto_merge owner repo n =
     update_prs owner repo n (\<lambda>pr. pr\<lparr>pr_auto_merge_enabled := False, pr_merge_method := None\<rparr>)"

definition clear_request :: "PullRequest \<Rightarrow> PullRequest" where
  "clear_request pr = pr\<lparr>pr_cm_sha := None, pr_cm_method := None, pr_cm_requester_id := None,
     pr_cm_requester_login := None, pr_cm_comment_id := None, pr_cm_requested_at := None\<rparr>"

definition mark_pr_merged :: "string \<Rightarrow> string \<Rightarrow> int \<Rightarrow> int option \<Rightarrow> MergeDb \<Rightarrow> MergeDb" where
  "mark_pr_merged owner repo n by_user =
     update_prs owner repo n (\<lambda>pr. (clear_request pr)\<lparr>pr_state := ''merged'', pr_merged_by_user_id := by_user\<rparr>)"

definition set_comment_merge_request ::
  "int \<Rightarrow> string \<Rightarrow> string \<Rightarrow> int \<Rightarrow> string \<Rightarrow> string option \<Rightarrow> int \<Rightarrow> string \<Rightarrow> int \<Rightarrow> MergeDb \<Rightarrow> MergeDb \<times> nat" where
  "set_comment_merge_request now owner repo n sha method requester_id requester_login comment_id db =
     (update_prs owner repo n (\<lambda>pr. pr\<lparr>pr_cm_sha := Some sha, pr_cm_method := method,
        pr_cm_requester_id := Some requester_id, pr_cm_requester_login := Some requester_login,
        pr_cm_comment_id := Some comment_id, pr_cm_requested_at := Some now\<rparr>) db,
      length (filter (is_pr owner repo n) (md_prs db)))"

definition clear_comment_merge_request :: "string \<Rightarrow> string \<Rightarrow> int \<Rightarrow> MergeDb \<Rightarrow> MergeDb" where
  "clear_comment_merge_request owner repo n = update_prs owner repo n clear_request"

definition upsert_pull_request :: "int \<Rightarrow> string \<Rightarrow> string \<Rightarrow> string \<Rightarrow> string \<Rightarrow> MergeDb \<Rightarrow> MergeDb" where
  "upsert_pull_request n owner repo head_sha state db =
     (if \<exists>pr\<in>set (md_prs db). is_pr owner repo n pr
      then update_prs owner repo n (\<lambda>pr. pr\<lparr>pr_head_sha := head_sha, pr_state := state\<rparr>) db
      else db\<lparr>md_prs := md_prs db @ [\<lparr> pr_number = n, pr_owner = owner, pr_repo_name = repo, pr_head_sha = head_sha,
             pr_state = state, pr_jobset_id = None, pr_auto_merge_enabled = False, pr_merge_method = None,
             pr_merged_by_user_id = None, pr_cm_sha = None, pr_cm_method = None, pr_cm_requester_id = None,
             pr_cm_requester_login = None, pr_cm_comment_id = None, pr_cm_requested_at = None \<rparr>]\<rparr>)"

text \<open>The jobsets of a pull request's head, in the order of the table; the queries take the first.\<close>

definition head_jobsets :: "string \<Rightarrow> string \<Rightarrow> int \<Rightarrow> MergeDb \<Rightarrow> (PullRequest \<times> JobSet) list" where
  "head_jobsets owner repo n db =
     [(pr, js). pr \<leftarrow> filter (is_pr owner repo n) (md_prs db),
       js \<leftarrow> filter (\<lambda>js. jst_sha js = pr_head_sha pr \<and> jst_owner js = owner \<and> jst_repo_name js = repo) (md_jobsets db)]"

definition state_code :: "LocalState \<Rightarrow> int" where
  "state_code st = sint (encode_state st)"

definition all_jobs_concluded :: "int \<Rightarrow> MergeDb \<Rightarrow> bool" where
  "all_jobs_concluded jobset db =
     (length (filter (\<lambda>j. jbs_jobset j = jobset \<and> state_code (jbs_state j) \<in> {0, 1, 2, 7, 100}) (md_jobs db)) = 0)"

definition jobset_has_new_or_changed_failures :: "int \<Rightarrow> MergeDb \<Rightarrow> bool" where
  "jobset_has_new_or_changed_failures jobset db =
     (length (filter (\<lambda>j. jbs_jobset j = jobset \<and> jbs_difference j \<in> {DiffNew, DiffChanged} \<and> state_code (jbs_state j) < 0)
        (md_jobs db)) > 0)"

definition pr_head_build_succeeded :: "string \<Rightarrow> string \<Rightarrow> int \<Rightarrow> MergeDb \<Rightarrow> bool" where
  "pr_head_build_succeeded owner repo n db =
     (case head_jobsets owner repo n db of
        [] \<Rightarrow> False
      | (_, js) # _ \<Rightarrow>
          all_jobs_concluded (jst_rowid js) db \<and> \<not> jobset_has_new_or_changed_failures (jst_rowid js) db)"

definition get_pr_changed_packages :: "string \<Rightarrow> string \<Rightarrow> int \<Rightarrow> MergeDb \<Rightarrow> (anyhow, string list) result" where
  "get_pr_changed_packages owner repo n db =
     (case head_jobsets owner repo n db of
        [] \<Rightarrow> Inr []
      | (pr, _) # _ \<Rightarrow>
          (case pr_jobset_id pr of
             None \<Rightarrow> Inl ''unexpected null''
           | Some jobset \<Rightarrow>
               Inr (hs_collect (map (\<lambda>(_, attr, _). attr)
                 (filter (\<lambda>(i, _, status). i = jobset \<and> status \<in> {''changed'', ''new''}) (md_differences db))))))"

definition is_maintainer :: "string \<Rightarrow> int \<Rightarrow> MergeDb \<Rightarrow> bool" where
  "is_maintainer attr_path user_id db = (\<exists>(a, u, _)\<in>set (md_maintainers db). a = attr_path \<and> u = user_id)"

definition is_maintainer_of_all_packages :: "int \<Rightarrow> string list \<Rightarrow> MergeDb \<Rightarrow> bool" where
  "is_maintainer_of_all_packages user_id attr_paths db =
     (attr_paths \<noteq> [] \<and> list_all (\<lambda>a. is_maintainer a user_id db) attr_paths)"

definition get_maintainers_for_attr_path :: "string \<Rightarrow> MergeDb \<Rightarrow> string list" where
  "get_maintainers_for_attr_path attr_path db = [name. (a, _, name) \<leftarrow> md_maintainers db, a = attr_path]"

section \<open>The shared rules\<close>

datatype MergeEligibility =
    Eligible string
  | BuildInProgress
  | MergeNotFound
  | SHADrift string string
  | NotEnabled
  | NoChangedPackages
  | MissingApprovals "string list"
  | MethodNotAllowed string "string list"

record AutoMergeState =
  ams_auto_merge_enabled :: bool
  ams_comment_merge :: "(string \<times> string option) option"
  ams_head_sha :: string
  ams_build_succeeded :: bool
  ams_changed_packages :: "string list"
  ams_missing_approvals :: "string list"
  ams_merge_method :: "string option"
  ams_allowed_merge_methods :: "string list"

definition or_else :: "'a option \<Rightarrow> 'a option \<Rightarrow> 'a option" where
  "or_else a b = (case a of None \<Rightarrow> b | Some x \<Rightarrow> Some x)"

definition evaluate_eligibility :: "AutoMergeState \<Rightarrow> MergeEligibility" where
  "evaluate_eligibility st =
     (if \<not> ams_build_succeeded st then BuildInProgress
      else if (case ams_comment_merge st of Some (sha, _) \<Rightarrow> sha \<noteq> ams_head_sha st | None \<Rightarrow> False)
        then SHADrift (fst (the (ams_comment_merge st))) (ams_head_sha st)
      else if \<not> ams_auto_merge_enabled st \<and> ams_comment_merge st = None then NotEnabled
      else if ams_changed_packages st = [] then NoChangedPackages
      else if ams_comment_merge st = None \<and> ams_missing_approvals st \<noteq> [] then MissingApprovals (ams_missing_approvals st)
      else let method = (case or_else (Option.bind (ams_comment_merge st) snd) (ams_merge_method st) of
                           Some m \<Rightarrow> m | None \<Rightarrow> ''squash'')
           in if ams_allowed_merge_methods st \<noteq> [] \<and> method \<notin> set (ams_allowed_merge_methods st)
              then MethodNotAllowed method (ams_allowed_merge_methods st)
              else Eligible method)"

section \<open>GitHub\<close>

datatype GitHubPermission = PermNone | PermRead | PermTriage | PermWrite | PermMaintain | PermAdmin

text \<open>Answers of GitHub: the role of a user, the reviews (state and login), the merge methods a
  repository allows, the date of a commit, whether a merge succeeds, and the head it merges.\<close>

record GitHubApi =
  gh_installed :: bool
  gh_role :: "string \<Rightarrow> (anyhow, string option) result"
  gh_reviews :: "(anyhow, (string option \<times> string option) list) result"
  gh_allowed_methods :: "(anyhow, string list) result"
  gh_commit_date :: "string \<Rightarrow> (anyhow, instant option) result"
  gh_merge :: "MergeMethod \<Rightarrow> (anyhow, unit) result"
  gh_head :: string

text \<open>A pull request event, and what the check runs are created for.\<close>

datatype PrAction = PrOpened | PrSynchronize | PrReopened | PrClosed | PrConvertedToDraft | PrEnqueued | PrOther

record PrPayload =
  pl_action :: PrAction
  pl_number :: int
  pl_user :: "(string \<times> int) option"
  pl_base_repo :: "(string option \<times> string) option"
  pl_base_ref :: string
  pl_base_sha :: string
  pl_head_repo :: "(string option \<times> string) option"
  pl_head_sha :: string
  pl_merged :: bool

record CICheckInfo =
  ci_commit :: string
  ci_base_commit :: "string option"
  ci_owner :: string
  ci_repo_name :: string

datatype GitHubTask =
    CheckAutoMerge string string int
  | ProcessMergeCommand string string int int int string string instant
  | CommentMergeDriftCancelled string string int string string string
  | ReactToComment string string int string
  | CreateApprovalRequiredCheckRun CICheckInfo string
  | CancelCheckRunsForCommit CICheckInfo
  | CreateFailureCheckRun string int string JobDifference
  | UpdateBuildStatus string LocalState

text \<open>What the handlers change: the tables, the merges (with the commit that was merged), reactions,
  comments, the tasks of the GitHub service, the checkouts asked of the git service, the last
  commands of the rate limit, the tasks of the channel service, and the queue of the ingress.\<close>

record Merger =
  mg_db :: MergeDb
  mg_merges :: "(string \<times> string \<times> int \<times> MergeMethod \<times> string) list"
  mg_reactions :: "(int \<times> string) list"
  mg_comments :: "(int \<times> string) list"
  mg_tasks :: "GitHubTask list"
  mg_git :: "PrPayload list"
  mg_rates :: "(rate_key \<times> instant) list"
  mg_channel_tasks :: "ChannelTask list"
  mg_ingress :: "string channel"

definition react :: "int \<Rightarrow> string \<Rightarrow> Merger \<Rightarrow> Merger" where
  "react comment_id content s = s\<lparr>mg_reactions := mg_reactions s @ [(comment_id, content)]\<rparr>"

definition comment :: "int \<Rightarrow> string \<Rightarrow> Merger \<Rightarrow> Merger" where
  "comment n body s = s\<lparr>mg_comments := mg_comments s @ [(n, body)]\<rparr>"

definition send_task :: "GitHubTask \<Rightarrow> Merger \<Rightarrow> Merger" where
  "send_task t s = s\<lparr>mg_tasks := mg_tasks s @ [t]\<rparr>"

text \<open>A missing collaborator is an answer without a role.\<close>

definition check_repo_permission_for_user :: "GitHubApi \<Rightarrow> string \<Rightarrow> (anyhow, GitHubPermission) result" where
  "check_repo_permission_for_user api login =
     (case gh_role api login of
        Inl e \<Rightarrow> Inl e
      | Inr None \<Rightarrow> Inr PermNone
      | Inr (Some role) \<Rightarrow>
          Inr (if role = ''admin'' then PermAdmin else if role = ''maintain'' then PermMaintain
               else if role = ''write'' then PermWrite else if role = ''triage'' then PermTriage
               else if role = ''read'' then PermRead else PermNone))"

definition check_pr_maintainer_approvals ::
  "GitHubApi \<Rightarrow> string list \<Rightarrow> MergeDb \<Rightarrow> (anyhow, bool \<times> (string \<times> string list) list) result" where
  "check_pr_maintainer_approvals api changed db =
     (if changed = [] then Inr (False, [])
      else case gh_reviews api of
        Inl e \<Rightarrow> Inl e
      | Inr reviews \<Rightarrow>
          (let approved = filter (\<lambda>(state, _). state = Some ''APPROVED'') reviews in
           if approved = [] then Inr (False, map (\<lambda>p. (p, [])) changed)
           else let approvers = List.map_filter snd approved;
                    missing = filter (\<lambda>p. \<not> list_ex (\<lambda>m. m \<in> set approvers) (get_maintainers_for_attr_path p db)) changed
                in Inr (missing = [], map (\<lambda>p. (p, get_maintainers_for_attr_path p db)) missing)))"

datatype MergeMethodCheck = MethodOk | MethodRefused "string list"

definition validate_merge_method :: "GitHubApi \<Rightarrow> string \<Rightarrow> (anyhow, MergeMethodCheck) result" where
  "validate_merge_method api method =
     (case gh_allowed_methods api of
        Inl e \<Rightarrow> Inl e
      | Inr allowed \<Rightarrow> Inr (if method \<in> set allowed then MethodOk else MethodRefused allowed))"

definition api_method :: "string \<Rightarrow> MergeMethod" where
  "api_method method =
     (if method = ''merge'' then MethodMerge else if method = ''squash'' then MethodSquash
      else if method = ''rebase'' then MethodRebase else MethodSquash)"

text \<open>The request names no commit: GitHub merges the head it has.\<close>

definition merge_pull_request :: "GitHubApi \<Rightarrow> string \<Rightarrow> string \<Rightarrow> int \<Rightarrow> string \<Rightarrow> Merger \<Rightarrow> Merger \<times> (anyhow, unit) result" where
  "merge_pull_request api owner repo n method s =
     (case gh_merge api (api_method method) of
        Inl e \<Rightarrow> (s, Inl e)
      | Inr _ \<Rightarrow> (s\<lparr>mg_merges := mg_merges s @ [(owner, repo, n, api_method method, gh_head api)]\<rparr>, Inr ()))"

section \<open>The evaluator\<close>

definition drift_cancel :: "string \<Rightarrow> string \<Rightarrow> int \<Rightarrow> CommentMergeRequest \<Rightarrow> string \<Rightarrow> Merger \<Rightarrow> Merger" where
  "drift_cancel owner repo n cmr current_head s =
     (let s1 = send_task (CommentMergeDriftCancelled owner repo n (cmr_sha cmr) current_head (cmr_requester_login cmr)) s;
          s2 = send_task (ReactToComment owner repo (cmr_comment_id cmr) ''confused'') s1
      in s2\<lparr>mg_db := clear_comment_merge_request owner repo n (mg_db s2)\<rparr>)"

definition auto_merge_execute ::
  "GitHubApi \<Rightarrow> string \<Rightarrow> string \<Rightarrow> int \<Rightarrow> string \<Rightarrow> CommentMergeRequest option \<Rightarrow> Merger \<Rightarrow> Merger" where
  "auto_merge_execute api owner repo n method pending s =
     (case merge_pull_request api owner repo n method s of
        (s1, Inl _) \<Rightarrow> s1
      | (s1, Inr _) \<Rightarrow>
          (let s2 = s1\<lparr>mg_db := mark_pr_merged owner repo n (map_option cmr_requester_id pending) (mg_db s1)\<rparr>
           in case pending of
                None \<Rightarrow> s2
              | Some cmr \<Rightarrow> send_task (ReactToComment owner repo (cmr_comment_id cmr) ''rocket'') s2))"

definition merge_method_of :: "CommentMergeRequest option \<Rightarrow> PullRequest \<Rightarrow> string" where
  "merge_method_of pending pr =
     (case or_else (Option.bind pending cmr_method) (pr_merge_method pr) of Some m \<Rightarrow> m | None \<Rightarrow> ''squash'')"

text \<open>The gates after the row is known, in their order.\<close>

definition try_merge ::
  "GitHubApi \<Rightarrow> string \<Rightarrow> string \<Rightarrow> int \<Rightarrow> PullRequest \<Rightarrow> Merger \<Rightarrow> Merger \<times> (anyhow, unit) result" where
  "try_merge api owner repo n pr s =
     (let pending = pending_comment_merge pr in
      case get_pr_changed_packages owner repo n (mg_db s) of
        Inl e \<Rightarrow> (s, Inl e)
      | Inr changed \<Rightarrow>
          if changed = [] then (s, Inr ())
          else (case (if pending = None then check_pr_maintainer_approvals api changed (mg_db s) else Inr (True, [])) of
                  Inl e \<Rightarrow> (s, Inl e)
                | Inr (eligible, _) \<Rightarrow>
                    if \<not> eligible then (s, Inr ())
                    else (case validate_merge_method api (merge_method_of pending pr) of
                            Inr MethodOk \<Rightarrow> (auto_merge_execute api owner repo n (merge_method_of pending pr) pending s, Inr ())
                          | _ \<Rightarrow> (s, Inr ()))))"

definition handle_check_auto_merge ::
  "GitHubApi \<Rightarrow> string \<Rightarrow> string \<Rightarrow> int \<Rightarrow> Merger \<Rightarrow> Merger \<times> (anyhow, unit) result" where
  "handle_check_auto_merge api owner repo n s =
     (if \<not> gh_installed api then (s, Inl ''No installation associated with owner'')
      else if \<not> pr_head_build_succeeded owner repo n (mg_db s) then (s, Inr ())
      else case get_pull_request_row owner repo n (mg_db s) of
        None \<Rightarrow> (s, Inr ())
      | Some pr \<Rightarrow>
          (case pending_comment_merge pr of
             Some cmr \<Rightarrow>
               if cmr_sha cmr \<noteq> pr_head_sha pr then (drift_cancel owner repo n cmr (pr_head_sha pr) s, Inr ())
               else try_merge api owner repo n pr s
           | None \<Rightarrow> if \<not> pr_auto_merge_enabled pr then (s, Inr ()) else try_merge api owner repo n pr s))"

section \<open>Merge commands\<close>

datatype Authorization = Granted bool | Denied | Abort

definition authorize_commenter :: "GitHubApi \<Rightarrow> string \<Rightarrow> string \<Rightarrow> int \<Rightarrow> int \<Rightarrow> string \<Rightarrow> MergeDb \<Rightarrow> Authorization" where
  "authorize_commenter api owner repo n requester_id login db =
     (case check_repo_permission_for_user api login of
        Inl _ \<Rightarrow> Abort
      | Inr perm \<Rightarrow>
          if perm \<in> {PermAdmin, PermMaintain, PermWrite} then Granted True
          else let changed = (case get_pr_changed_packages owner repo n db of Inl _ \<Rightarrow> [] | Inr c \<Rightarrow> c)
               in if changed \<noteq> [] \<and> is_maintainer_of_all_packages requester_id changed db then Granted False else Denied)"

definition PUSH_GRACE :: duration where
  "PUSH_GRACE = from_secs 30"

definition check_push_timing :: "GitHubApi \<Rightarrow> int \<Rightarrow> int \<Rightarrow> string \<Rightarrow> instant \<Rightarrow> Merger \<Rightarrow> Merger \<times> bool" where
  "check_push_timing api n comment_id head_sha created_at s =
     (case gh_commit_date api head_sha of
        Inr (Some date) \<Rightarrow>
          if date > created_at + int PUSH_GRACE
          then (comment n ''head commit pushed after the command'' (react comment_id ''-1'' s), False)
          else (s, True)
      | _ \<Rightarrow> (s, True))"

definition handle_merge_cancel ::
  "GitHubApi \<Rightarrow> string \<Rightarrow> string \<Rightarrow> int \<Rightarrow> int \<Rightarrow> int \<Rightarrow> string \<Rightarrow> Merger \<Rightarrow> Merger" where
  "handle_merge_cancel api owner repo n comment_id requester_id login s =
     (case Option.bind (get_pull_request_row owner repo n (mg_db s)) pending_comment_merge of
        None \<Rightarrow> s
      | Some pending \<Rightarrow>
          (let auth = (if requester_id = cmr_requester_id pending then Granted True
                       else authorize_commenter api owner repo n requester_id login (mg_db s))
           in case auth of
                Abort \<Rightarrow> s
              | Denied \<Rightarrow> comment n ''merge cancel denied'' (react comment_id ''-1'' s)
              | Granted _ \<Rightarrow>
                  react comment_id ''+1'' (s\<lparr>mg_db := clear_comment_merge_request owner repo n (mg_db s)\<rparr>)))"

definition handle_merge_accept ::
  "GitHubApi \<Rightarrow> int \<Rightarrow> string \<Rightarrow> string \<Rightarrow> int \<Rightarrow> int \<Rightarrow> int \<Rightarrow> string \<Rightarrow> string option \<Rightarrow> instant \<Rightarrow> Merger \<Rightarrow> Merger" where
  "handle_merge_accept api now owner repo n comment_id requester_id login method created_at s =
     (case authorize_commenter api owner repo n requester_id login (mg_db s) of
        Abort \<Rightarrow> s
      | Denied \<Rightarrow> comment n ''merge denied'' (react comment_id ''-1'' s)
      | Granted _ \<Rightarrow>
          (case get_pull_request_row owner repo n (mg_db s) of
             None \<Rightarrow> s
           | Some pr \<Rightarrow>
               (case check_push_timing api n comment_id (pr_head_sha pr) created_at s of
                  (s1, False) \<Rightarrow> s1
                | (s1, True) \<Rightarrow>
                    (case set_comment_merge_request now owner repo n (pr_head_sha pr) method requester_id login comment_id (mg_db s1) of
                       (db, rows) \<Rightarrow>
                         (let s2 = s1\<lparr>mg_db := db\<rparr>
                          in if rows = 0 then s2
                             else send_task (CheckAutoMerge owner repo n) (react comment_id ''+1'' s2))))))"

definition handle_process_merge_command ::
  "GitHubApi \<Rightarrow> int \<Rightarrow> string \<Rightarrow> string \<Rightarrow> int \<Rightarrow> int \<Rightarrow> int \<Rightarrow> string \<Rightarrow> string \<Rightarrow> instant \<Rightarrow> Merger
    \<Rightarrow> Merger \<times> (anyhow, unit) result" where
  "handle_process_merge_command api now owner repo n comment_id requester_id login body created_at s =
     (if \<not> gh_installed api then (s, Inl ''No installation associated with owner'')
      else case parse_comment_command body of
        None \<Rightarrow> (s, Inr ())
      | Some MergeCancel \<Rightarrow> (handle_merge_cancel api owner repo n comment_id requester_id login s, Inr ())
      | Some (Merge method) \<Rightarrow>
          (handle_merge_accept api now owner repo n comment_id requester_id login (map_option merge_method_str method) created_at s, Inr ()))"

end
