(* ===== verification/Merge_Evaluator.thy ===== *)
theory Merge_Evaluator
  imports Auto_Merge
begin

text \<open>
  What the evaluators of the three forges have in common: each gathers the state of a pull request
  and does what the shared rules (\<open>server/src/auto_merge/mod.rs\<close>) say about it.  The locale
  states this contract; what a merge needs follows from it once.
\<close>

section \<open>The rules\<close>

text \<open>The request or the setting that a merge rests on, and the method it uses.\<close>

definition merge_basis :: "AutoMergeState \<Rightarrow> bool" where
  "merge_basis st =
     (case ams_comment_merge st of
        Some (sha, _) \<Rightarrow> sha = ams_head_sha st
      | None \<Rightarrow> ams_auto_merge_enabled st \<and> ams_missing_approvals st = [])"

definition rule_method :: "AutoMergeState \<Rightarrow> string" where
  "rule_method st =
     (case or_else (Option.bind (ams_comment_merge st) snd) (ams_merge_method st) of Some m \<Rightarrow> m | None \<Rightarrow> ''squash'')"

lemma eligible_iff:
  "evaluate_eligibility st = Eligible m \<longleftrightarrow>
     ams_build_succeeded st \<and> merge_basis st \<and> ams_changed_packages st \<noteq> [] \<and> m = rule_method st \<and>
     (ams_allowed_merge_methods st = [] \<or> m \<in> set (ams_allowed_merge_methods st))"
  by (cases "ams_comment_merge st")
    (auto simp: evaluate_eligibility_def merge_basis_def rule_method_def Let_def)

lemma drift_iff:
  "evaluate_eligibility st = SHADrift expected actual \<longleftrightarrow>
     ams_build_succeeded st \<and> actual = ams_head_sha st \<and> expected \<noteq> actual \<and>
     (\<exists>method. ams_comment_merge st = Some (expected, method))"
  by (cases "ams_comment_merge st") (auto simp: evaluate_eligibility_def Let_def)

section \<open>The contract\<close>

locale merge_evaluator =
  fixes check :: "'k \<Rightarrow> 's \<Rightarrow> 's"
    and gathered :: "'k \<Rightarrow> 's \<Rightarrow> AutoMergeState \<Rightarrow> bool"
    and execute :: "'k \<Rightarrow> string \<Rightarrow> 's \<Rightarrow> 's"
    and cancel :: "'k \<Rightarrow> 's \<Rightarrow> 's"
    and merges :: "'s \<Rightarrow> 'm list"
  assumes follows: "gathered k s st \<Longrightarrow>
      check k s = (case evaluate_eligibility st of Eligible m \<Rightarrow> execute k m s | SHADrift _ _ \<Rightarrow> cancel k s | _ \<Rightarrow> s)"
    and merging_gathers: "merges (check k s) \<noteq> merges s \<Longrightarrow> \<exists>st. gathered k s st"
    and cancel_merges: "merges (cancel k s) = merges s"
    and execute_merges: "merges (execute k m s) \<noteq> merges s \<Longrightarrow> \<exists>x. merges (execute k m s) = merges s @ [x]"
begin

lemma merge_eligible:
  assumes "merges (check k s) \<noteq> merges s"
  shows "\<exists>st m. gathered k s st \<and> evaluate_eligibility st = Eligible m \<and> check k s = execute k m s"
proof -
  obtain st where st: "gathered k s st" using merging_gathers[OF assms] by blast
  then show ?thesis using follows[OF st] assms cancel_merges
    by (cases "evaluate_eligibility st") auto
qed

lemma merge_needs:
  assumes "merges (check k s) \<noteq> merges s"
  shows "\<exists>st. gathered k s st \<and> ams_build_succeeded st \<and> merge_basis st \<and> ams_changed_packages st \<noteq> [] \<and>
    (ams_allowed_merge_methods st = [] \<or> rule_method st \<in> set (ams_allowed_merge_methods st)) \<and>
    check k s = execute k (rule_method st) s"
  using merge_eligible[OF assms] by (auto simp: eligible_iff)

lemma merge_once:
  assumes "merges (check k s) \<noteq> merges s"
  shows "\<exists>x. merges (check k s) = merges s @ [x]"
proof -
  obtain m where "check k s = execute k m s" using merge_eligible[OF assms] by blast
  then show ?thesis using execute_merges assms by metis
qed

lemma drift_cancels:
  "gathered k s st \<Longrightarrow> ams_build_succeeded st \<Longrightarrow> ams_comment_merge st = Some (sha, method) \<Longrightarrow> sha \<noteq> ams_head_sha st \<Longrightarrow>
     check k s = cancel k s"
  using follows[of k s st] by (simp add: evaluate_eligibility_def)

end

end
