(* ===== verification/Forge_Merge.thy ===== *)
theory Forge_Merge
  imports Merge_Evaluator
begin

text \<open>
  Merging on Gitea and GitLab (\<open>server/src/gitea/service/auto_merge/\<close>,
  \<open>server/src/gitlab/service/auto_merge/\<close>, the merge helpers of \<open>actions.rs\<close>, and
  \<open>server/src/db/gitea.rs\<close>, \<open>db/gitlab.rs\<close>), with the webhooks of both.  The two differ in what
  identifies a repository (\<open>'c\<close>: domain, owner and name on Gitea, domain and project id on
  GitLab), in permissions, methods and the merge request, so their common text is here once,
  over \<open>'c\<close>.  Jobs of GitHub are in the table \<open>Job\<close>, those of the other forges in tables of their
  own; row ids of jobsets are counted per forge.  Texts of comments are abbreviated.
\<close>

section \<open>Tables\<close>

record 'c ForgeRow =
  fr_scope :: 'c
  fr_number :: int
  fr_head_sha :: string
  fr_state :: string
  fr_auto_merge_enabled :: bool
  fr_merge_method :: "string option"
  fr_merged_by :: "int option"
  fr_cm_sha :: "string option"
  fr_cm_method :: "string option"
  fr_cm_requester_id :: "int option"
  fr_cm_requester_login :: "string option"
  fr_cm_comment_id :: "int option"

record ForgeRequest =
  fq_sha :: string
  fq_method :: "string option"
  fq_requester_id :: int
  fq_requester_login :: string

definition forge_pending_comment_merge :: "'c ForgeRow \<Rightarrow> ForgeRequest option" where
  "forge_pending_comment_merge r =
     (case (fr_cm_sha r, fr_cm_requester_login r) of
        (Some sha, Some login) \<Rightarrow>
          Some \<lparr> fq_sha = sha, fq_method = fr_cm_method r,
                 fq_requester_id = (case fr_cm_requester_id r of Some i \<Rightarrow> i | None \<Rightarrow> 0), fq_requester_login = login \<rparr>
      | _ \<Rightarrow> None)"

record 'c ForgeJobSet =
  fj_rowid :: int
  fj_scope :: 'c
  fj_sha :: string

text \<open>\<open>fd_server\<close> holds the tables that are not of this forge, with the jobs of GitHub and the maintainers.\<close>

record 'c ForgeDb =
  fd_rows :: "'c ForgeRow list"
  fd_jobsets :: "'c ForgeJobSet list"
  fd_forge_jobs :: "JobOfSet list"
  fd_differences :: "(int \<times> string) list"
  fd_server :: MergeDb

section \<open>Queries\<close>

definition is_row :: "'c \<Rightarrow> int \<Rightarrow> 'c ForgeRow \<Rightarrow> bool" where
  "is_row c n r = (fr_scope r = c \<and> fr_number r = n)"

definition forge_get_row :: "'c \<Rightarrow> int \<Rightarrow> 'c ForgeDb \<Rightarrow> 'c ForgeRow option" where
  "forge_get_row c n db = find (is_row c n) (fd_rows db)"

definition update_rows :: "'c \<Rightarrow> int \<Rightarrow> ('c ForgeRow \<Rightarrow> 'c ForgeRow) \<Rightarrow> 'c ForgeDb \<Rightarrow> 'c ForgeDb" where
  "update_rows c n f db = db\<lparr>fd_rows := map (\<lambda>r. if is_row c n r then f r else r) (fd_rows db)\<rparr>"

definition forge_upsert :: "int \<Rightarrow> 'c \<Rightarrow> string \<Rightarrow> string \<Rightarrow> 'c ForgeDb \<Rightarrow> 'c ForgeDb" where
  "forge_upsert n c head_sha state db =
     (if \<exists>r\<in>set (fd_rows db). is_row c n r
      then update_rows c n (\<lambda>r. r\<lparr>fr_head_sha := head_sha, fr_state := state\<rparr>) db
      else db\<lparr>fd_rows := fd_rows db @ [\<lparr> fr_scope = c, fr_number = n, fr_head_sha = head_sha, fr_state = state,
             fr_auto_merge_enabled = False, fr_merge_method = None, fr_merged_by = None, fr_cm_sha = None,
             fr_cm_method = None, fr_cm_requester_id = None, fr_cm_requester_login = None, fr_cm_comment_id = None \<rparr>]\<rparr>)"

definition forge_set_comment_merge ::
  "'c \<Rightarrow> int \<Rightarrow> string \<Rightarrow> string option \<Rightarrow> int \<Rightarrow> string \<Rightarrow> int \<Rightarrow> 'c ForgeDb \<Rightarrow> 'c ForgeDb \<times> nat" where
  "forge_set_comment_merge c n sha method requester_id login comment_id db =
     (update_rows c n (\<lambda>r. r\<lparr>fr_cm_sha := Some sha, fr_cm_method := method, fr_cm_requester_id := Some requester_id,
        fr_cm_requester_login := Some login, fr_cm_comment_id := Some comment_id\<rparr>) db,
      length (filter (is_row c n) (fd_rows db)))"

definition forge_clear :: "'c ForgeRow \<Rightarrow> 'c ForgeRow" where
  "forge_clear r = r\<lparr>fr_cm_sha := None, fr_cm_method := None, fr_cm_requester_id := None,
     fr_cm_requester_login := None, fr_cm_comment_id := None\<rparr>"

definition forge_clear_comment_merge :: "'c \<Rightarrow> int \<Rightarrow> 'c ForgeDb \<Rightarrow> 'c ForgeDb" where
  "forge_clear_comment_merge c n = update_rows c n forge_clear"

definition forge_enable_auto_merge :: "'c \<Rightarrow> int \<Rightarrow> string option \<Rightarrow> 'c ForgeDb \<Rightarrow> 'c ForgeDb" where
  "forge_enable_auto_merge c n method = update_rows c n (\<lambda>r. r\<lparr>fr_auto_merge_enabled := True, fr_merge_method := method\<rparr>)"

definition forge_disable_auto_merge :: "'c \<Rightarrow> int \<Rightarrow> 'c ForgeDb \<Rightarrow> 'c ForgeDb" where
  "forge_disable_auto_merge c n = update_rows c n (\<lambda>r. r\<lparr>fr_auto_merge_enabled := False, fr_merge_method := None\<rparr>)"

definition forge_mark_merged :: "'c \<Rightarrow> int \<Rightarrow> int option \<Rightarrow> 'c ForgeDb \<Rightarrow> 'c ForgeDb" where
  "forge_mark_merged c n by_user = update_rows c n (\<lambda>r. (forge_clear r)\<lparr>fr_state := ''merged'', fr_merged_by := by_user\<rparr>)"

text \<open>The jobsets of a head, in the order of the table; the queries take the first.\<close>

definition forge_head_jobsets :: "'c \<Rightarrow> int \<Rightarrow> 'c ForgeDb \<Rightarrow> int list" where
  "forge_head_jobsets c n db =
     [fj_rowid js. r \<leftarrow> filter (is_row c n) (fd_rows db), js \<leftarrow> filter (\<lambda>js. fj_sha js = fr_head_sha r \<and> fj_scope js = c) (fd_jobsets db)]"

definition forge_changed_packages :: "'c \<Rightarrow> int \<Rightarrow> 'c ForgeDb \<Rightarrow> string list" where
  "forge_changed_packages c n db =
     (case forge_head_jobsets c n db of
        [] \<Rightarrow> []
      | i # _ \<Rightarrow> sort (remdups (map snd (filter (\<lambda>(j, _). j = i) (fd_differences db)))))"

definition forge_head_build_succeeded :: "'c \<Rightarrow> int \<Rightarrow> 'c ForgeDb \<Rightarrow> bool" where
  "forge_head_build_succeeded c n db =
     (case forge_head_jobsets c n db of
        [] \<Rightarrow> False
      | i # _ \<Rightarrow> all_jobs_concluded i (fd_server db) \<and> \<not> jobset_has_new_or_changed_failures i (fd_server db))"

section \<open>The forges\<close>

text \<open>Answers of a forge: the level or the permission of a user, the date of a commit, whether a merge with
  the method that is sent succeeds, and the head it merges.\<close>

record ForgeApi =
  fa_access_level :: "int \<Rightarrow> (anyhow, int) result"
  fa_permission :: "string \<Rightarrow> (anyhow, string) result"
  fa_commit_date :: "string \<Rightarrow> (anyhow, instant option) result"
  fa_merge :: "string option \<Rightarrow> (anyhow, unit) result"
  fa_head :: string

datatype 'c ForgeTask =
    ForgeCheckAutoMerge 'c int
  | ForgeMergeCommand 'c int int int string string instant
  | ForgeDriftCancelled 'c int string string string

record 'c ForgeMerger =
  fm_db :: "'c ForgeDb"
  fm_merges :: "('c \<times> int \<times> string option \<times> string) list"
  fm_comments :: "('c \<times> int \<times> string) list"
  fm_tasks :: "'c ForgeTask list"

definition forge_comment :: "'c \<Rightarrow> int \<Rightarrow> string \<Rightarrow> 'c ForgeMerger \<Rightarrow> 'c ForgeMerger" where
  "forge_comment c n body s = s\<lparr>fm_comments := fm_comments s @ [(c, n, body)]\<rparr>"

definition forge_send :: "'c ForgeTask \<Rightarrow> 'c ForgeMerger \<Rightarrow> 'c ForgeMerger" where
  "forge_send t s = s\<lparr>fm_tasks := fm_tasks s @ [t]\<rparr>"

definition check_project_permission_for_user :: "ForgeApi \<Rightarrow> int \<Rightarrow> (anyhow, int) result" where
  "check_project_permission_for_user api user_id =
     (case fa_access_level api user_id of Inr level \<Rightarrow> Inr level | Inl _ \<Rightarrow> Inr 0)"

definition gitea_check_repo_permission :: "ForgeApi \<Rightarrow> string \<Rightarrow> (anyhow, bool \<times> bool) result" where
  "gitea_check_repo_permission api login =
     (case fa_permission api login of
        Inr p \<Rightarrow> Inr (p \<in> {''admin'', ''write''}, p = ''admin'')
      | Inl _ \<Rightarrow> Inr (False, False))"

definition gitlab_validate_merge_method :: "string \<Rightarrow> (anyhow, MergeMethodCheck) result" where
  "gitlab_validate_merge_method method =
     Inr (if method \<in> {''merge'', ''rebase_merge'', ''ff''} then MethodOk else MethodRefused [''merge'', ''rebase_merge'', ''ff''])"

definition gitea_validate_merge_method :: "string \<Rightarrow> (anyhow, MergeMethodCheck) result" where
  "gitea_validate_merge_method method =
     Inr (if method \<in> {''merge'', ''rebase'', ''squash''} then MethodOk else MethodRefused [''merge'', ''rebase'', ''squash''])"

definition forge_check_maintainer_approvals :: "string list \<Rightarrow> (anyhow, bool \<times> string list) result" where
  "forge_check_maintainer_approvals changed = Inr (True, [])"

definition forge_fetch_head_commit_date :: "ForgeApi \<Rightarrow> string \<Rightarrow> (anyhow, instant option) result" where
  "forge_fetch_head_commit_date api sha = (case fa_commit_date api sha of Inr d \<Rightarrow> Inr d | Inl _ \<Rightarrow> Inr None)"

section \<open>The evaluator\<close>

definition forge_drift_cancel :: "'c \<Rightarrow> int \<Rightarrow> ForgeRequest \<Rightarrow> string \<Rightarrow> 'c ForgeMerger \<Rightarrow> 'c ForgeMerger" where
  "forge_drift_cancel c n q current_head s =
     (let s1 = forge_send (ForgeDriftCancelled c n (fq_sha q) current_head (fq_requester_login q)) s
      in s1\<lparr>fm_db := forge_clear_comment_merge c n (fm_db s1)\<rparr>)"

text \<open>\<open>sent\<close> says which method the merge request carries: the method on Gitea, none on GitLab.\<close>

definition forge_merge_execute ::
  "(string \<Rightarrow> string option) \<Rightarrow> ForgeApi \<Rightarrow> 'c \<Rightarrow> int \<Rightarrow> string \<Rightarrow> ForgeRequest option \<Rightarrow> 'c ForgeMerger \<Rightarrow> 'c ForgeMerger" where
  "forge_merge_execute sent api c n method pending s =
     (case fa_merge api (sent method) of
        Inl _ \<Rightarrow> s
      | Inr _ \<Rightarrow> s\<lparr>fm_merges := fm_merges s @ [(c, n, sent method, fa_head api)],
                  fm_db := forge_mark_merged c n (map_option fq_requester_id pending) (fm_db s)\<rparr>)"

definition forge_method_of :: "string \<Rightarrow> ForgeRequest option \<Rightarrow> 'c ForgeRow \<Rightarrow> string" where
  "forge_method_of preset pending r =
     (case or_else (Option.bind pending fq_method) (fr_merge_method r) of Some m \<Rightarrow> m | None \<Rightarrow> preset)"

definition forge_check_auto_merge ::
  "string \<Rightarrow> (string \<Rightarrow> (anyhow, MergeMethodCheck) result) \<Rightarrow> (string \<Rightarrow> string option) \<Rightarrow> ForgeApi \<Rightarrow> 'c \<Rightarrow> int \<Rightarrow> 'c ForgeMerger
    \<Rightarrow> 'c ForgeMerger \<times> (anyhow, unit) result" where
  "forge_check_auto_merge preset validate sent api c n s =
     (if \<not> forge_head_build_succeeded c n (fm_db s) then (s, Inr ())
      else case forge_get_row c n (fm_db s) of
        None \<Rightarrow> (s, Inr ())
      | Some r \<Rightarrow>
          (let pending = forge_pending_comment_merge r;
               method = forge_method_of preset pending r;
               changed = forge_changed_packages c n (fm_db s)
           in if (case pending of Some q \<Rightarrow> fq_sha q \<noteq> fr_head_sha r | None \<Rightarrow> False)
              then (forge_drift_cancel c n (the pending) (fr_head_sha r) s, Inr ())
              else if \<not> fr_auto_merge_enabled r \<and> pending = None then (s, Inr ())
              else if changed = [] then (s, Inr ())
              else case (if pending = None then forge_check_maintainer_approvals changed else Inr (True, [])) of
                Inl e \<Rightarrow> (s, Inl e)
              | Inr (eligible, _) \<Rightarrow>
                  if \<not> eligible then (s, Inr ())
                  else (case validate method of
                          Inr MethodOk \<Rightarrow> (forge_merge_execute sent api c n method pending s, Inr ())
                        | _ \<Rightarrow> (s, Inr ()))))"

type_synonym gitea_scope = "string \<times> string \<times> string"
type_synonym gitlab_scope = "string \<times> int"

definition gitea_handle_check_auto_merge ::
  "ForgeApi \<Rightarrow> gitea_scope \<Rightarrow> int \<Rightarrow> gitea_scope ForgeMerger \<Rightarrow> gitea_scope ForgeMerger \<times> (anyhow, unit) result" where
  "gitea_handle_check_auto_merge = forge_check_auto_merge ''squash'' gitea_validate_merge_method Some"

definition gitlab_handle_check_auto_merge ::
  "ForgeApi \<Rightarrow> gitlab_scope \<Rightarrow> int \<Rightarrow> gitlab_scope ForgeMerger \<Rightarrow> gitlab_scope ForgeMerger \<times> (anyhow, unit) result" where
  "gitlab_handle_check_auto_merge = forge_check_auto_merge ''merge'' gitlab_validate_merge_method (\<lambda>_. None)"

section \<open>Merge commands\<close>

definition forge_authorize_commenter :: "(anyhow, bool) result \<Rightarrow> 'c \<Rightarrow> int \<Rightarrow> int \<Rightarrow> 'c ForgeDb \<Rightarrow> Authorization" where
  "forge_authorize_commenter has_write c n requester_id db =
     (case has_write of
        Inl _ \<Rightarrow> Abort
      | Inr True \<Rightarrow> Granted True
      | Inr False \<Rightarrow>
          (let changed = forge_changed_packages c n db
           in if changed \<noteq> [] \<and> is_maintainer_of_all_packages requester_id changed (fd_server db)
              then Granted False else Denied))"

definition gitea_authorize_commenter :: "ForgeApi \<Rightarrow> gitea_scope \<Rightarrow> int \<Rightarrow> int \<Rightarrow> string \<Rightarrow> gitea_scope ForgeDb \<Rightarrow> Authorization" where
  "gitea_authorize_commenter api c n requester_id login db =
     forge_authorize_commenter (map_sum id (\<lambda>(can_push, is_admin). can_push \<or> is_admin) (gitea_check_repo_permission api login))
       c n requester_id db"

definition gitlab_authorize_commenter :: "ForgeApi \<Rightarrow> gitlab_scope \<Rightarrow> int \<Rightarrow> int \<Rightarrow> string \<Rightarrow> gitlab_scope ForgeDb \<Rightarrow> Authorization" where
  "gitlab_authorize_commenter api c n requester_id username db =
     forge_authorize_commenter (map_sum id (\<lambda>level. level \<ge> 30) (check_project_permission_for_user api requester_id))
       c n requester_id db"

definition forge_check_push_timing :: "ForgeApi \<Rightarrow> 'c \<Rightarrow> int \<Rightarrow> string \<Rightarrow> instant \<Rightarrow> 'c ForgeMerger \<Rightarrow> 'c ForgeMerger \<times> bool" where
  "forge_check_push_timing api c n head_sha created_at s =
     (case forge_fetch_head_commit_date api head_sha of
        Inr (Some date) \<Rightarrow>
          if date > created_at + int PUSH_GRACE
          then (forge_comment c n ''head commit pushed after the command'' s, False) else (s, True)
      | _ \<Rightarrow> (s, True))"

text \<open>\<open>auth\<close> is the forge's \<open>authorize_commenter\<close>.\<close>

definition forge_handle_merge_cancel ::
  "(int \<Rightarrow> string \<Rightarrow> 'c ForgeDb \<Rightarrow> Authorization) \<Rightarrow> 'c \<Rightarrow> int \<Rightarrow> int \<Rightarrow> string \<Rightarrow> 'c ForgeMerger \<Rightarrow> 'c ForgeMerger" where
  "forge_handle_merge_cancel auth c n requester_id login s =
     (case Option.bind (forge_get_row c n (fm_db s)) forge_pending_comment_merge of
        None \<Rightarrow> s
      | Some pending \<Rightarrow>
          (case (if requester_id = fq_requester_id pending then Granted True else auth requester_id login (fm_db s)) of
             Abort \<Rightarrow> s
           | Denied \<Rightarrow> forge_comment c n ''merge cancel denied'' s
           | Granted _ \<Rightarrow> s\<lparr>fm_db := forge_clear_comment_merge c n (fm_db s)\<rparr>))"

definition forge_handle_merge_accept ::
  "(int \<Rightarrow> string \<Rightarrow> 'c ForgeDb \<Rightarrow> Authorization) \<Rightarrow> ForgeApi \<Rightarrow> 'c \<Rightarrow> int \<Rightarrow> int \<Rightarrow> int \<Rightarrow> string \<Rightarrow> string option \<Rightarrow> instant
    \<Rightarrow> 'c ForgeMerger \<Rightarrow> 'c ForgeMerger" where
  "forge_handle_merge_accept auth api c n comment_id requester_id login method created_at s =
     (case auth requester_id login (fm_db s) of
        Abort \<Rightarrow> s
      | Denied \<Rightarrow> forge_comment c n ''merge denied'' s
      | Granted _ \<Rightarrow>
          (case forge_get_row c n (fm_db s) of
             None \<Rightarrow> s
           | Some r \<Rightarrow>
               (case forge_check_push_timing api c n (fr_head_sha r) created_at s of
                  (s1, False) \<Rightarrow> s1
                | (s1, True) \<Rightarrow>
                    (case forge_set_comment_merge c n (fr_head_sha r) method requester_id login comment_id (fm_db s1) of
                       (db, rows) \<Rightarrow>
                         (let s2 = s1\<lparr>fm_db := db\<rparr> in if rows = 0 then s2 else forge_send (ForgeCheckAutoMerge c n) s2)))))"

definition forge_process_merge_command ::
  "(int \<Rightarrow> string \<Rightarrow> 'c ForgeDb \<Rightarrow> Authorization) \<Rightarrow> ForgeApi \<Rightarrow> 'c \<Rightarrow> int \<Rightarrow> int \<Rightarrow> int \<Rightarrow> string \<Rightarrow> string \<Rightarrow> instant
    \<Rightarrow> 'c ForgeMerger \<Rightarrow> 'c ForgeMerger" where
  "forge_process_merge_command auth api c n comment_id requester_id login body created_at s =
     (case forge_parse_comment_command body of
        None \<Rightarrow> s
      | Some ForgeMergeCancel \<Rightarrow> forge_handle_merge_cancel auth c n requester_id login s
      | Some (ForgeMerge method) \<Rightarrow>
          forge_handle_merge_accept auth api c n comment_id requester_id login method created_at s)"

definition gitea_handle_process_merge_command ::
  "ForgeApi \<Rightarrow> gitea_scope \<Rightarrow> int \<Rightarrow> int \<Rightarrow> int \<Rightarrow> string \<Rightarrow> string \<Rightarrow> instant \<Rightarrow> gitea_scope ForgeMerger \<Rightarrow> gitea_scope ForgeMerger" where
  "gitea_handle_process_merge_command api c n = forge_process_merge_command (gitea_authorize_commenter api c n) api c n"

definition gitlab_handle_process_merge_command ::
  "ForgeApi \<Rightarrow> gitlab_scope \<Rightarrow> int \<Rightarrow> int \<Rightarrow> int \<Rightarrow> string \<Rightarrow> string \<Rightarrow> instant \<Rightarrow> gitlab_scope ForgeMerger \<Rightarrow> gitlab_scope ForgeMerger" where
  "gitlab_handle_process_merge_command api c n = forge_process_merge_command (gitlab_authorize_commenter api c n) api c n"

text \<open>The forges abbreviate a longer sha only.\<close>

definition forge_short_sha :: "string \<Rightarrow> string" where
  "forge_short_sha sha = (if length sha > 7 then take 7 sha else sha)"

definition forge_drift_cancelled :: "'c \<Rightarrow> int \<Rightarrow> string \<Rightarrow> string \<Rightarrow> string \<Rightarrow> 'c ForgeMerger \<Rightarrow> 'c ForgeMerger" where
  "forge_drift_cancelled c n expected actual login s =
     forge_comment c n (''@'' @ login @ '' merge cancelled: '' @ forge_short_sha expected @ '' is now '' @ forge_short_sha actual) s"

section \<open>Webhooks\<close>

definition extract_domain :: "string \<Rightarrow> string \<Rightarrow> string" where
  "extract_domain preset url =
     (case or_else (strip_prefix_str ''https://'' url) (strip_prefix_str ''http://'' url) of
        Some rest \<Rightarrow> takeWhile (\<lambda>ch. ch \<noteq> CHR ''/'') rest
      | None \<Rightarrow> preset)"

definition parse_path_with_namespace :: "string \<Rightarrow> string \<times> string" where
  "parse_path_with_namespace path =
     (case dropWhile (\<lambda>ch. ch \<noteq> CHR ''/'') path of
        [] \<Rightarrow> (''unknown'', path)
      | _ # repo \<Rightarrow> (takeWhile (\<lambda>ch. ch \<noteq> CHR ''/'') path, repo))"

record GiteaPrEvent =
  ge_action :: string
  ge_number :: int
  ge_html_url :: string
  ge_owner :: string
  ge_repo :: string
  ge_head_sha :: string
  ge_state :: string

definition gitea_handle_pull_request_event :: "GiteaPrEvent \<Rightarrow> gitea_scope ForgeMerger \<Rightarrow> gitea_scope ForgeMerger" where
  "gitea_handle_pull_request_event ev s =
     (let c = (extract_domain ''gitea.local'' (ge_html_url ev), ge_owner ev, ge_repo ev);
          s1 = s\<lparr>fm_db := forge_upsert (ge_number ev) c (ge_head_sha ev) (ge_state ev) (fm_db s)\<rparr>
      in if ge_action ev \<in> {''opened'', ''synchronize'', ''reopened''}
         then forge_send (ForgeCheckAutoMerge c (ge_number ev)) s1 else s1)"

record GitLabMrEvent =
  gl_action :: "string option"
  gl_iid :: int
  gl_web_url :: string
  gl_project_id :: int
  gl_last_commit :: string
  gl_state :: string

definition gitlab_handle_merge_request_event :: "GitLabMrEvent \<Rightarrow> gitlab_scope ForgeMerger \<Rightarrow> gitlab_scope ForgeMerger" where
  "gitlab_handle_merge_request_event ev s =
     (let c = (extract_domain ''gitlab.com'' (gl_web_url ev), gl_project_id ev);
          s1 = s\<lparr>fm_db := forge_upsert (gl_iid ev) c (gl_last_commit ev) (gl_state ev) (fm_db s)\<rparr>
      in if gl_action ev \<in> {Some ''update'', Some ''open'', Some ''reopen'', Some ''approved''}
         then forge_send (ForgeCheckAutoMerge c (gl_iid ev)) s1 else s1)"

text \<open>A comment: on a pull request or not, its creation time if it parses, and the clock.\<close>

definition gitea_handle_issue_comment_event ::
  "instant \<Rightarrow> bool \<Rightarrow> string \<Rightarrow> string \<Rightarrow> string \<Rightarrow> string \<Rightarrow> int \<Rightarrow> int \<Rightarrow> int \<Rightarrow> string \<Rightarrow> string \<Rightarrow> instant option
    \<Rightarrow> gitea_scope ForgeMerger \<Rightarrow> gitea_scope ForgeMerger" where
  "gitea_handle_issue_comment_event now on_pr action html_url owner repo n comment_id sender_id login body created s =
     (if \<not> on_pr \<or> action \<noteq> ''created'' \<or> forge_parse_comment_command body = None then s
      else forge_send (ForgeMergeCommand (extract_domain ''gitea.local'' html_url, owner, repo) n comment_id sender_id login body
             (case created of Some t \<Rightarrow> t | None \<Rightarrow> now)) s)"

definition gitlab_handle_note_event ::
  "instant \<Rightarrow> int option \<Rightarrow> string \<Rightarrow> int \<Rightarrow> int \<Rightarrow> int \<Rightarrow> string \<Rightarrow> string \<Rightarrow> instant option
    \<Rightarrow> gitlab_scope ForgeMerger \<Rightarrow> gitlab_scope ForgeMerger" where
  "gitlab_handle_note_event now mr web_url project_id note_id user_id username body created s =
     (case mr of
        None \<Rightarrow> s
      | Some iid \<Rightarrow>
          if forge_parse_comment_command body = None then s
          else forge_send (ForgeMergeCommand (extract_domain ''gitlab.com'' web_url, project_id) iid note_id user_id username body
                 (case created of Some t \<Rightarrow> t | None \<Rightarrow> now)) s)"

text \<open>A push: the checkout it asks for, if a release channel watches the branch.\<close>

definition forge_push_checkout ::
  "(string \<times> ChannelConfig) list \<Rightarrow> ChannelForge \<Rightarrow> string \<Rightarrow> string \<Rightarrow> string \<Rightarrow> string \<Rightarrow> (string \<times> string \<times> string) option" where
  "forge_push_checkout channels forge owner repo ref after =
     (if list_all (\<lambda>ch. ch = CHR ''0'') after then None
      else case strip_prefix_str ''refs/heads/'' ref of
             None \<Rightarrow> None
           | Some branch \<Rightarrow>
               if match_push_channels channels forge owner repo branch = [] then None else Some (owner, repo, after))"

definition gitea_handle_push_event ::
  "(string \<times> ChannelConfig) list \<Rightarrow> string \<Rightarrow> string \<Rightarrow> string \<Rightarrow> string \<Rightarrow> string \<Rightarrow> (string \<times> string \<times> string) option" where
  "gitea_handle_push_event channels html_url owner repo ref after =
     forge_push_checkout channels (Gitea (extract_domain ''gitea.local'' html_url)) owner repo ref after"

definition gitlab_handle_push_event ::
  "(string \<times> ChannelConfig) list \<Rightarrow> string \<Rightarrow> string \<Rightarrow> string \<Rightarrow> string \<Rightarrow> (string \<times> string \<times> string) option" where
  "gitlab_handle_push_event channels web_url path ref after =
     (case parse_path_with_namespace path of
        (owner, repo) \<Rightarrow> forge_push_checkout channels (GitLab (extract_domain ''gitlab.com'' web_url)) owner repo ref after)"

end
