(* ===== verification/Forge_Events.thy ===== *)
theory Forge_Events
  imports Auto_Merge
begin

text \<open>
  What drives the merging of pull requests: the webhooks of GitHub for pull requests, comments
  and reviews (\<open>server/src/github/webhook/\<close>), the merge tasks of the GitHub service
  (\<open>github/service/task_handler.rs\<close>), the notifications of the recorder
  (\<open>scheduler/recorder/forge_notify.rs\<close>) and the web handlers (\<open>server/src/web/pull_requests.rs\<close>).
  The other services run, so that a task sent to them is queued.
\<close>

section \<open>Pull request events\<close>

text \<open>\<open>check_comment_merge_drift\<close> for a new head.\<close>

definition check_comment_merge_drift :: "PrPayload \<Rightarrow> Merger \<Rightarrow> Merger" where
  "check_comment_merge_drift pl s =
     (case pl_base_repo pl of
        Some (Some owner, repo) \<Rightarrow>
          (case Option.bind (get_pull_request_row owner repo (pl_number pl) (mg_db s)) pending_comment_merge of
             None \<Rightarrow> s
           | Some pending \<Rightarrow>
               if cmr_sha pending = pl_head_sha pl then s
               else drift_cancel owner repo (pl_number pl) pending (pl_head_sha pl) s)
      | _ \<Rightarrow> s)"

definition store_pr_metadata :: "PrPayload \<Rightarrow> string \<Rightarrow> Merger \<Rightarrow> Merger" where
  "store_pr_metadata pl state s =
     (case (pl_user pl, pl_base_repo pl) of
        (Some _, Some (Some owner, repo)) \<Rightarrow>
          s\<lparr>mg_db := upsert_pull_request (pl_number pl) owner repo (pl_head_sha pl) state (mg_db s)\<rparr>
      | _ \<Rightarrow> s)"

definition is_user_approved :: "string \<Rightarrow> int \<Rightarrow> MergeDb \<Rightarrow> bool" where
  "is_user_approved username user_id db = (\<exists>(u, i)\<in>set (md_approved_users db). u = username \<or> i = user_id)"

definition is_valid_user :: "PrPayload \<Rightarrow> MergeDb \<Rightarrow> (anyhow, unit) result" where
  "is_valid_user pl db =
     (case pl_user pl of
        None \<Rightarrow> Inl ''Missing github user for PR''
      | Some (login, i) \<Rightarrow> if is_user_approved login i db then Inr () else Inl ''User is not approved for workflows'')"

definition from_gh_pr_head :: "PrPayload \<Rightarrow> (anyhow, CICheckInfo) result" where
  "from_gh_pr_head pl =
     (case pl_head_repo pl of
        None \<Rightarrow> Inl ''PR head has no repository information''
      | Some (None, _) \<Rightarrow> Inl ''PR head repository has no owner information''
      | Some (Some owner, repo) \<Rightarrow>
          Inr \<lparr> ci_commit = pl_head_sha pl, ci_base_commit = Some (pl_base_sha pl), ci_owner = owner, ci_repo_name = repo \<rparr>)"

text \<open>The approval gate in front of a checkout, which two branches share.\<close>

definition gate_and_checkout :: "bool \<Rightarrow> PrPayload \<Rightarrow> Merger \<Rightarrow> Merger" where
  "gate_and_checkout require_approval pl s =
     (if require_approval \<and> is_valid_user pl (mg_db s) \<noteq> Inr ()
      then (case (pl_user pl, from_gh_pr_head pl) of
              (Some (login, _), Inr ci) \<Rightarrow> send_task (CreateApprovalRequiredCheckRun ci login) s
            | _ \<Rightarrow> s)
      else s\<lparr>mg_git := mg_git s @ [pl]\<rparr>)"

definition has_app_permission :: "(string \<times> PermissionRules) list \<Rightarrow> PrPayload \<Rightarrow> bool" where
  "has_app_permission apps pl =
     (case pl_base_repo pl of
        None \<Rightarrow> True
      | Some (owner, repo) \<Rightarrow>
          list_ex (\<lambda>(i, rules). check_github_app_permission i rules
            \<lparr> pc_repo_owner = (case owner of Some x \<Rightarrow> x | None \<Rightarrow> []), pc_repo_name = repo,
              pc_branch = Some (pl_base_ref pl) \<rparr> = Inr ()) apps)"

text \<open>\<open>up\<close> says whether the server runs a GitHub service.\<close>

definition handle_github_pr :: "bool \<Rightarrow> bool \<Rightarrow> (string \<times> PermissionRules) list \<Rightarrow> PrPayload \<Rightarrow> Merger \<Rightarrow> Merger" where
  "handle_github_pr up require_approval apps pl s =
     (if \<not> up then s
      else if pl_action pl \<in> {PrOpened, PrSynchronize, PrReopened}
        then if \<not> has_app_permission apps pl then s
             else (let s1 = store_pr_metadata pl ''open'' s;
                       s2 = (if pl_action pl = PrSynchronize then check_comment_merge_drift pl s1 else s1)
                   in gate_and_checkout require_approval pl s2)
      else if pl_action pl \<in> {PrClosed, PrConvertedToDraft}
        then (let state = (if pl_action pl = PrClosed then (if pl_merged pl then ''merged'' else ''closed'') else ''open'');
                  s1 = store_pr_metadata pl state s
              in case from_gh_pr_head pl of Inl _ \<Rightarrow> s1 | Inr ci \<Rightarrow> send_task (CancelCheckRunsForCommit ci) s1)
      else if pl_action pl = PrEnqueued
        then gate_and_checkout require_approval pl (store_pr_metadata pl ''open'' s)
      else s)"

section \<open>Comments and reviews\<close>

record CommentEvent =
  ce_created :: bool
  ce_is_pr :: bool
  ce_number :: int
  ce_user_type :: string
  ce_user_id :: int
  ce_login :: string
  ce_body :: "string option"
  ce_comment_id :: int
  ce_created_at :: instant

definition handle_github_issue_comment :: "bool \<Rightarrow> instant \<Rightarrow> (string \<times> string) option \<Rightarrow> CommentEvent \<Rightarrow> Merger \<Rightarrow> Merger" where
  "handle_github_issue_comment up now repository ev s =
     (if \<not> up \<or> \<not> ce_created ev \<or> \<not> ce_is_pr ev \<or> eq_ignore_ascii_case (ce_user_type ev) ''Bot'' then s
      else case ce_body ev of
        None \<Rightarrow> s
      | Some body \<Rightarrow>
          if parse_comment_command body = None then s
          else (case repository of
                  None \<Rightarrow> s
                | Some (owner, repo) \<Rightarrow>
                    (let (rates, ok) = check_and_record_rate_limit (ce_user_id ev, owner, repo) now (mg_rates s);
                         s1 = s\<lparr>mg_rates := rates\<rparr>
                     in if \<not> ok then s1
                        else send_task (ProcessMergeCommand owner repo (ce_number ev) (ce_comment_id ev) (ce_user_id ev)
                               (ce_login ev) body (ce_created_at ev)) s1)))"

datatype ReviewAction = ReviewSubmitted | ReviewDismissed | ReviewEdited

definition get_pr_by_head_sha :: "string \<Rightarrow> string \<Rightarrow> string \<Rightarrow> MergeDb \<Rightarrow> PullRequest option" where
  "get_pr_by_head_sha sha owner repo db =
     find (\<lambda>pr. pr_head_sha pr = sha \<and> pr_owner pr = owner \<and> pr_repo_name pr = repo) (md_prs db)"

definition handle_github_pr_review :: "bool \<Rightarrow> ReviewAction \<Rightarrow> string option \<Rightarrow> PrPayload \<Rightarrow> Merger \<Rightarrow> Merger" where
  "handle_github_pr_review up action review_state pl s =
     (if \<not> up \<or> action = ReviewEdited \<or> (action = ReviewSubmitted \<and> review_state \<noteq> Some ''APPROVED'') then s
      else case pl_base_repo pl of
        Some (Some owner, repo) \<Rightarrow>
          (case get_pr_by_head_sha (pl_head_sha pl) owner repo (mg_db s) of
             None \<Rightarrow> s
           | Some pr \<Rightarrow>
               if \<not> pr_auto_merge_enabled pr \<or> pr_state pr \<noteq> ''open'' then s
               else send_task (CheckAutoMerge owner repo (pl_number pl)) s)
      | _ \<Rightarrow> s)"

section \<open>Tasks of the GitHub service\<close>

definition short_sha :: "string \<Rightarrow> string" where
  "short_sha sha = (if length sha \<ge> 7 then take 7 sha else sha)"

definition handle_comment_merge_drift_cancelled ::
  "GitHubApi \<Rightarrow> int \<Rightarrow> string \<Rightarrow> string \<Rightarrow> string \<Rightarrow> Merger \<Rightarrow> Merger \<times> (anyhow, unit) result" where
  "handle_comment_merge_drift_cancelled api n expected actual login s =
     (if \<not> gh_installed api then (s, Inl ''No installation associated with owner'')
      else (comment n (''@'' @ login @ '' merge cancelled: '' @ short_sha expected @ '' is now '' @ short_sha actual) s, Inr ()))"

text \<open>The tasks of merging; the others create and update check runs.\<close>

fun handle_merge_task :: "GitHubApi \<Rightarrow> int \<Rightarrow> GitHubTask \<Rightarrow> Merger \<Rightarrow> (Merger \<times> (anyhow, unit) result) option" where
  "handle_merge_task api now (CheckAutoMerge owner repo n) s = Some (handle_check_auto_merge api owner repo n s)"
| "handle_merge_task api now (ProcessMergeCommand owner repo n cid rid login body created) s =
     Some (handle_process_merge_command api now owner repo n cid rid login body created s)"
| "handle_merge_task api now (CommentMergeDriftCancelled owner repo n expected actual login) s =
     Some (handle_comment_merge_drift_cancelled api n expected actual login s)"
| "handle_merge_task api now (ReactToComment owner repo cid content) s =
     Some (if \<not> gh_installed api then (s, Inl ''No installation associated with owner'') else (react cid content s, Inr ()))"
| "handle_merge_task api now _ s = None"

section \<open>Notifications of the recorder\<close>

definition get_job_info_for_drv :: "string \<Rightarrow> MergeDb \<Rightarrow> JobOfSet list" where
  "get_job_info_for_drv drv db = filter (\<lambda>j. jbs_drv j = drv) (md_jobs db)"

definition get_new_or_changed_jobs :: "int \<Rightarrow> MergeDb \<Rightarrow> JobOfSet list" where
  "get_new_or_changed_jobs jobset db =
     filter (\<lambda>j. jbs_jobset j = jobset \<and> jbs_difference j \<in> {DiffNew, DiffChanged}) (md_jobs db)"

definition get_jobset_info :: "int \<Rightarrow> MergeDb \<Rightarrow> (anyhow, JobSet) result" where
  "get_jobset_info jobset db =
     (case find (\<lambda>js. jst_rowid js = jobset) (md_jobsets db) of None \<Rightarrow> Inl ''no rows returned'' | Some js \<Rightarrow> Inr js)"

definition recorder_check_auto_merge :: "JobSet \<Rightarrow> Merger \<Rightarrow> Merger" where
  "recorder_check_auto_merge js s =
     (case get_pr_by_head_sha (jst_sha js) (jst_owner js) (jst_repo_name js) (mg_db s) of
        None \<Rightarrow> s
      | Some pr \<Rightarrow>
          if pr_state pr = ''open'' \<and> (pr_auto_merge_enabled pr \<or> pr_cm_sha pr \<noteq> None)
          then send_task (CheckAutoMerge (jst_owner js) (jst_repo_name js) (pr_number pr)) s else s)"

fun completion_loop :: "bool \<Rightarrow> int list \<Rightarrow> Merger \<Rightarrow> Merger \<times> (anyhow, unit) result" where
  "completion_loop channels [] s = (s, Inr ())"
| "completion_loop channels (jobset # rest) s =
     (if \<not> all_jobs_concluded jobset (mg_db s) then completion_loop channels rest s
      else let has_failures = jobset_has_new_or_changed_failures jobset (mg_db s) in
           case get_jobset_info jobset (mg_db s) of
             Inl e \<Rightarrow> (s, Inl e)
           | Inr js \<Rightarrow>
               (let s1 = (if channels
                          then s\<lparr>mg_channel_tasks := mg_channel_tasks s @
                                 [JobsetComplete GitHub (jst_owner js) (jst_repo_name js) (jst_sha js)]\<rparr>
                          else s);
                    s2 = (if has_failures then s1 else recorder_check_auto_merge js s1)
                in completion_loop channels rest s2))"

definition check_jobset_completion :: "bool \<Rightarrow> string \<Rightarrow> Merger \<Rightarrow> Merger \<times> (anyhow, unit) result" where
  "check_jobset_completion channels drv s =
     completion_loop channels (map jbs_jobset (get_job_info_for_drv drv (mg_db s))) s"

definition redispatch_queued :: "JobOfSet list \<Rightarrow> Merger \<Rightarrow> Merger" where
  "redispatch_queued job_infos s =
     s\<lparr>mg_ingress := fold (\<lambda>q. ch_offer (jbs_drv q))
       [q. j \<leftarrow> job_infos, q \<leftarrow> get_new_or_changed_jobs (jbs_jobset j) (mg_db s), jbs_state q = LocalQueued] (mg_ingress s)\<rparr>"

definition notify_forge_and_channels ::
  "bool \<Rightarrow> bool \<Rightarrow> string \<Rightarrow> LocalState \<Rightarrow> JobOfSet list \<Rightarrow> Merger \<Rightarrow> Merger \<times> (anyhow, unit) result" where
  "notify_forge_and_channels up channels drv result job_infos s =
     (if \<not> up then (s, Inr ())
      else let has_check_runs = (drv \<in> set (md_check_runs (mg_db s)));
               s1 = (if local_is_failure result \<and> \<not> has_check_runs
                     then fold (\<lambda>j. send_task (CreateFailureCheckRun drv (jbs_jobset j) (jbs_name j) (jbs_difference j)))
                            (get_job_info_for_drv drv (mg_db s)) s
                     else s);
               s2 = (if has_check_runs then send_task (UpdateBuildStatus drv result) s1 else s1);
               s3 = (if has_check_runs \<and> result = LocalCompleted LocalSuccess then redispatch_queued job_infos s2 else s2)
           in if local_is_terminal result then check_jobset_completion channels drv s3 else (s3, Inr ()))"

section \<open>Web handlers\<close>

text \<open>The answers by their status, and of the merge request the user who asks (by GitHub id).\<close>

datatype WebReply =
    WebOk
  | WebBadRequest string
  | WebForbidden
  | WebNotFound
  | WebConflict "string list"
  | WebInternal anyhow
  | WebUnavailable

definition ensure_pr_maintainer_access :: "int \<Rightarrow> string \<Rightarrow> string \<Rightarrow> int \<Rightarrow> MergeDb \<Rightarrow> (WebReply, string list) result" where
  "ensure_pr_maintainer_access github_id owner repo n db =
     (case get_pr_changed_packages owner repo n db of
        Inl e \<Rightarrow> Inl (WebInternal e)
      | Inr changed \<Rightarrow>
          if changed = [] then Inl (WebBadRequest ''No changed packages found for this PR'')
          else if \<not> is_maintainer_of_all_packages github_id changed db then Inl WebForbidden
          else Inr changed)"

definition enable_auto_merge_handler ::
  "int \<Rightarrow> string \<Rightarrow> string \<Rightarrow> int \<Rightarrow> string option \<Rightarrow> Merger \<Rightarrow> Merger \<times> WebReply" where
  "enable_auto_merge_handler github_id owner repo n merge_method s =
     (case ensure_pr_maintainer_access github_id owner repo n (mg_db s) of
        Inl resp \<Rightarrow> (s, resp)
      | Inr _ \<Rightarrow>
          if (case merge_method of None \<Rightarrow> False
              | Some m \<Rightarrow> m \<noteq> ''merge'' \<and> m \<noteq> ''squash'' \<and> m \<noteq> ''rebase'')
          then (s, WebBadRequest ''Invalid merge method'')
          else (s\<lparr>mg_db := enable_auto_merge owner repo n merge_method (mg_db s)\<rparr>, WebOk))"

definition disable_auto_merge_handler :: "int \<Rightarrow> string \<Rightarrow> string \<Rightarrow> int \<Rightarrow> Merger \<Rightarrow> Merger \<times> WebReply" where
  "disable_auto_merge_handler github_id owner repo n s =
     (case ensure_pr_maintainer_access github_id owner repo n (mg_db s) of
        Inl resp \<Rightarrow> (s, resp)
      | Inr _ \<Rightarrow> (s\<lparr>mg_db := disable_auto_merge owner repo n (mg_db s)\<rparr>, WebOk))"

text \<open>\<open>users\<close> maps a GitHub id to the row of the user; \<open>available\<close> says whether the server has a GitHub client.\<close>

definition manual_merge_pr_handler ::
  "GitHubApi \<Rightarrow> bool \<Rightarrow> string \<Rightarrow> (int \<Rightarrow> int option) \<Rightarrow> int \<Rightarrow> string \<Rightarrow> string \<Rightarrow> int \<Rightarrow> string option \<Rightarrow> Merger
    \<Rightarrow> Merger \<times> WebReply" where
  "manual_merge_pr_handler api available default_merge_method users github_id owner repo n merge_method s =
     (if \<not> available then (s, WebUnavailable)
      else case ensure_pr_maintainer_access github_id owner repo n (mg_db s) of
        Inl resp \<Rightarrow> (s, resp)
      | Inr _ \<Rightarrow>
          (let method = (case merge_method of Some m \<Rightarrow> m | None \<Rightarrow> default_merge_method) in
           if method \<noteq> ''merge'' \<and> method \<noteq> ''squash'' \<and> method \<noteq> ''rebase''
           then (s, WebBadRequest ''Invalid merge method'')
           else case validate_merge_method api method of
                  Inl e \<Rightarrow> (s, WebInternal e)
                | Inr (MethodRefused allowed) \<Rightarrow> (s, WebConflict allowed)
                | Inr MethodOk \<Rightarrow>
                    (case merge_pull_request api owner repo n method s of
                       (s1, Inl e) \<Rightarrow> (s1, WebInternal e)
                     | (s1, Inr _) \<Rightarrow>
                         (s1\<lparr>mg_db := mark_pr_merged owner repo n (users github_id) (mg_db s1)\<rparr>, WebOk))))"

record EligibilityReply =
  er_eligible :: bool
  er_auto_merge_enabled :: bool
  er_gates_passed :: bool
  er_has_maintainer_approvals :: bool
  er_changed_packages :: "string list"
  er_missing_approvals :: "(string \<times> string list) list"

definition check_merge_eligibility_handler ::
  "GitHubApi \<Rightarrow> bool \<Rightarrow> string \<Rightarrow> string \<Rightarrow> int \<Rightarrow> MergeDb \<Rightarrow> (WebReply, EligibilityReply) result" where
  "check_merge_eligibility_handler api available owner repo n db =
     (if \<not> available then Inl WebUnavailable
      else case get_pull_request_row owner repo n db of
        None \<Rightarrow> Inl WebNotFound
      | Some pr \<Rightarrow>
          (case get_pr_changed_packages owner repo n db of
             Inl e \<Rightarrow> Inl (WebInternal e)
           | Inr changed \<Rightarrow>
               (let gates = (case pr_jobset_id pr of None \<Rightarrow> False
                   | Some i \<Rightarrow> all_jobs_concluded i db \<and> \<not> jobset_has_new_or_changed_failures i db);
                    (approved, missing) =
                      (case check_pr_maintainer_approvals api changed db of Inl _ \<Rightarrow> (False, []) | Inr r \<Rightarrow> r)
                in Inr \<lparr> er_eligible = (pr_auto_merge_enabled pr \<and> gates \<and> approved),
                         er_auto_merge_enabled = pr_auto_merge_enabled pr, er_gates_passed = gates,
                         er_has_maintainer_approvals = approved, er_changed_packages = changed,
                         er_missing_approvals = missing \<rparr>)))"

section \<open>Histories\<close>

text \<open>The state as the handlers leave it: the server starts without pull requests, the GitHub service takes
  its tasks in their order, and webhooks, the recorder and users of the web interface come at
  any time.  Jobsets, jobs, differences, maintainers, check runs and approved users, and the
  jobset of a pull request, belong to other parts of the server, which also empty the other
  queues.\<close>

inductive merger_reachable :: "Merger \<Rightarrow> bool" where
  merger_start: "md_prs (mg_db s) = [] \<Longrightarrow> mg_tasks s = [] \<Longrightarrow> merger_reachable s"
| merger_task: "merger_reachable s \<Longrightarrow> mg_tasks s = t # ts \<Longrightarrow>
    handle_merge_task api now t (s\<lparr>mg_tasks := ts\<rparr>) = Some (s', r) \<Longrightarrow> merger_reachable s'"
| merger_other: "merger_reachable s \<Longrightarrow> mg_tasks s = t # ts \<Longrightarrow>
    handle_merge_task api now t (s\<lparr>mg_tasks := ts\<rparr>) = None \<Longrightarrow> merger_reachable (s\<lparr>mg_tasks := ts\<rparr>)"
| merger_event: "merger_reachable s \<Longrightarrow> merger_reachable (handle_github_pr up require apps pl s)"
| merger_comment: "merger_reachable s \<Longrightarrow> merger_reachable (handle_github_issue_comment up now repository ev s)"
| merger_review: "merger_reachable s \<Longrightarrow> merger_reachable (handle_github_pr_review up action st pl s)"
| merger_notify: "merger_reachable s \<Longrightarrow>
    merger_reachable (fst (notify_forge_and_channels up channels drv result job_infos s))"
| merger_enable: "merger_reachable s \<Longrightarrow> merger_reachable (fst (enable_auto_merge_handler gid owner repo n m s))"
| merger_disable: "merger_reachable s \<Longrightarrow> merger_reachable (fst (disable_auto_merge_handler gid owner repo n s))"
| merger_manual: "merger_reachable s \<Longrightarrow>
    merger_reachable (fst (manual_merge_pr_handler api available dm users gid owner repo n m s))"
| merger_outside: "merger_reachable s \<Longrightarrow>
    merger_reachable (s\<lparr>mg_db := update_prs owner repo n (\<lambda>pr. pr\<lparr>pr_jobset_id := i\<rparr>)
      ((mg_db s)\<lparr>md_jobsets := js, md_jobs := jobs, md_differences := diffs, md_maintainers := ms,
         md_check_runs := runs, md_approved_users := users\<rparr>), mg_git := gs, mg_channel_tasks := cs, mg_ingress := q\<rparr>)"

end
