(* ===== verification/Merge_Props.thy ===== *)
theory Merge_Props
  imports Forge_Events
begin

text \<open>
  Properties of merging: which gates stand before a merge, who may ask for one, that the columns
  of a request are set together, and that the evaluator agrees with the shared rules.
\<close>

section \<open>Build states in the queries\<close>

lemma state_codes:
  "state_code st \<in> {0, 1, 2, 7, 100} \<longleftrightarrow> \<not> local_is_terminal st" "state_code st < 0 \<longleftrightarrow> local_is_failure st"
  by (cases st rule: LocalState_flat_cases; simp add: state_code_def encode_state_def)+

definition jobset_succeeded :: "int \<Rightarrow> MergeDb \<Rightarrow> bool" where
  "jobset_succeeded i db = (\<forall>j\<in>set (md_jobs db). jbs_jobset j = i \<longrightarrow>
     local_is_terminal (jbs_state j) \<and> (jbs_difference j \<noteq> DiffRemoved \<longrightarrow> \<not> local_is_failure (jbs_state j)))"

lemma difference_not_removed: "d \<in> {DiffNew, DiffChanged} \<longleftrightarrow> d \<noteq> DiffRemoved"
  by (cases d) auto

lemma concluded_succeeded:
  "jobset_succeeded i db \<longleftrightarrow> all_jobs_concluded i db \<and> \<not> jobset_has_new_or_changed_failures i db"
  unfolding all_jobs_concluded_def jobset_has_new_or_changed_failures_def jobset_succeeded_def state_codes
    difference_not_removed length_0_conv length_greater_0_conv filter_empty_conv not_not by blast

lemma head_build_first:
  "pr_head_build_succeeded owner repo n db =
     (case head_jobsets owner repo n db of [] \<Rightarrow> False | (_, js) # _ \<Rightarrow> jobset_succeeded (jst_rowid js) db)"
  by (simp add: pr_head_build_succeeded_def concluded_succeeded split: list.split)

lemma head_jobsets_mem:
  "(pr, js) \<in> set (head_jobsets owner repo n db) \<longleftrightarrow>
     pr \<in> set (md_prs db) \<and> is_pr owner repo n pr \<and> js \<in> set (md_jobsets db) \<and>
     jst_sha js = pr_head_sha pr \<and> jst_owner js = owner \<and> jst_repo_name js = repo"
  by (auto simp: head_jobsets_def)

section \<open>Operations and their effects\<close>

lemma effect_simps [simp]:
  "mg_db (react i c s) = mg_db s" "mg_db (comment n b s) = mg_db s" "mg_db (send_task t s) = mg_db s"
  "mg_merges (react i c s) = mg_merges s" "mg_merges (comment n b s) = mg_merges s" "mg_merges (send_task t s) = mg_merges s"
  by (simp_all add: react_def comment_def send_task_def)

lemma drift_cancel_simps [simp]:
  "mg_merges (drift_cancel owner repo n cmr h s) = mg_merges s"
  "mg_db (drift_cancel owner repo n cmr h s) = clear_comment_merge_request owner repo n (mg_db s)"
  by (simp_all add: drift_cancel_def Let_def)

lemma execute_merges:
  "mg_merges (auto_merge_execute api owner repo n method pending s) =
     mg_merges s @ (case gh_merge api (api_method method) of Inl _ \<Rightarrow> [] | Inr _ \<Rightarrow> [(owner, repo, n, api_method method, gh_head api)])"
  by (simp add: auto_merge_execute_def merge_pull_request_def Let_def split: sum.split option.split)

lemma execute_db:
  "mg_db (auto_merge_execute api owner repo n method pending s) =
     (case gh_merge api (api_method method) of Inl _ \<Rightarrow> mg_db s
      | Inr _ \<Rightarrow> mark_pr_merged owner repo n (map_option cmr_requester_id pending) (mg_db s))"
  by (simp add: auto_merge_execute_def merge_pull_request_def Let_def split: sum.split option.split)

text \<open>When \<open>try_merge\<close> reaches the merge.\<close>

definition approved_by_maintainers :: "GitHubApi \<Rightarrow> string list \<Rightarrow> MergeDb \<Rightarrow> bool" where
  "approved_by_maintainers api changed db =
     (\<exists>reviews. gh_reviews api = Inr reviews \<and>
        (\<forall>p\<in>set changed. \<exists>name. name \<in> set (get_maintainers_for_attr_path p db) \<and> (Some ''APPROVED'', Some name) \<in> set reviews))"

definition merge_gates :: "GitHubApi \<Rightarrow> string \<Rightarrow> string \<Rightarrow> int \<Rightarrow> PullRequest \<Rightarrow> MergeDb \<Rightarrow> bool" where
  "merge_gates api owner repo n pr db =
     (\<exists>changed allowed. get_pr_changed_packages owner repo n db = Inr changed \<and> changed \<noteq> [] \<and>
        (pending_comment_merge pr = None \<longrightarrow> approved_by_maintainers api changed db) \<and>
        gh_allowed_methods api = Inr allowed \<and> merge_method_of (pending_comment_merge pr) pr \<in> set allowed)"

lemma map_filter_mem: "x \<in> set (List.map_filter f xs) \<longleftrightarrow> (\<exists>y\<in>set xs. f y = Some x)"
  by (force simp: map_filter_def)

lemma approvals_iff:
  assumes "changed \<noteq> []"
  shows "(\<exists>m. check_pr_maintainer_approvals api changed db = Inr (True, m)) \<longleftrightarrow> approved_by_maintainers api changed db"
proof (cases "gh_reviews api")
  case (Inr reviews)
  let ?appr = "filter (\<lambda>(state, _). state = Some ''APPROVED'') reviews"
  have mem: "name \<in> set (List.map_filter snd ?appr) \<longleftrightarrow> (Some ''APPROVED'', Some name) \<in> set reviews" for name
    by (auto simp: map_filter_mem)
  show ?thesis
  proof (cases "?appr = []")
    case True
    then have "(Some ''APPROVED'', Some name) \<notin> set reviews" for name by (auto simp: filter_empty_conv)
    then have "\<not> approved_by_maintainers api changed db"
      using assms Inr by (cases changed) (auto simp: approved_by_maintainers_def)
    then show ?thesis using True assms Inr by (simp add: check_pr_maintainer_approvals_def)
  next
    case False
    have "(\<exists>m. check_pr_maintainer_approvals api changed db = Inr (True, m)) \<longleftrightarrow>
        filter (\<lambda>p. \<not> list_ex (\<lambda>m. m \<in> set (List.map_filter snd ?appr)) (get_maintainers_for_attr_path p db)) changed = []"
      using False assms Inr by (simp add: check_pr_maintainer_approvals_def Let_def)
    also have "\<dots> \<longleftrightarrow> approved_by_maintainers api changed db"
      unfolding filter_empty_conv not_not list_ex_iff mem approved_by_maintainers_def Inr by blast
    finally show ?thesis .
  qed
qed (simp add: check_pr_maintainer_approvals_def approved_by_maintainers_def assms)

lemma validate_case:
  "fst (case validate_merge_method api m of Inr MethodOk \<Rightarrow> (x, y) | _ \<Rightarrow> (s, y)) =
     (if \<exists>allowed. gh_allowed_methods api = Inr allowed \<and> m \<in> set allowed then x else s)"
  by (auto simp: validate_merge_method_def split: sum.splits)

lemma try_merge_effect:
  "fst (try_merge api owner repo n pr s) =
     (if merge_gates api owner repo n pr (mg_db s)
      then auto_merge_execute api owner repo n (merge_method_of (pending_comment_merge pr) pr) (pending_comment_merge pr) s
      else s)"
proof (cases "get_pr_changed_packages owner repo n (mg_db s)")
  case (Inr changed)
  show ?thesis
  proof (cases "changed = []")
    case False
    show ?thesis
    proof (cases "pending_comment_merge pr")
      case None
      obtain q where q: "check_pr_maintainer_approvals api changed (mg_db s) = q" by simp
      have app: "(\<exists>m. q = Inr (True, m)) \<longleftrightarrow> approved_by_maintainers api changed (mg_db s)"
        using approvals_iff[OF False, of api "mg_db s"] q by simp
      show ?thesis
      proof (cases "\<exists>m. q = Inr (True, m)")
        case True
        then have "fst (try_merge api owner repo n pr s) =
            (if \<exists>allowed. gh_allowed_methods api = Inr allowed \<and> merge_method_of None pr \<in> set allowed
             then auto_merge_execute api owner repo n (merge_method_of None pr) None s else s)"
          using None False Inr q by (auto simp: try_merge_def Let_def validate_case)
        then show ?thesis using True None False Inr app by (auto simp: merge_gates_def)
      next
        case no: False
        then have "fst (try_merge api owner repo n pr s) = s"
          using None False Inr q by (auto simp: try_merge_def Let_def split: sum.split)
        then show ?thesis using no None app Inr by (auto simp: merge_gates_def)
      qed
    next
      case (Some cmr)
      then show ?thesis using False Inr by (auto simp: try_merge_def merge_gates_def Let_def validate_case)
    qed
  qed (simp add: Inr try_merge_def merge_gates_def)
qed (simp add: try_merge_def merge_gates_def)

lemma find_hd_filter: "find P xs = Some x \<Longrightarrow> hd (filter P xs) = x"
  by (induction xs) (auto split: if_splits)

section \<open>What a merge needs\<close>

definition may_merge :: "PullRequest \<Rightarrow> bool" where
  "may_merge pr =
     (case pending_comment_merge pr of Some cmr \<Rightarrow> cmr_sha cmr = pr_head_sha pr | None \<Rightarrow> pr_auto_merge_enabled pr)"

lemma check_auto_merge_merges:
  "mg_merges (fst (handle_check_auto_merge api owner repo n s)) = mg_merges s @
     (case get_pull_request_row owner repo n (mg_db s) of
        None \<Rightarrow> []
      | Some pr \<Rightarrow>
          if gh_installed api \<and> pr_head_build_succeeded owner repo n (mg_db s) \<and> may_merge pr \<and> merge_gates api owner repo n pr (mg_db s)
          then (let m = api_method (merge_method_of (pending_comment_merge pr) pr)
                in case gh_merge api m of Inl _ \<Rightarrow> [] | Inr _ \<Rightarrow> [(owner, repo, n, m, gh_head api)])
          else [])"
proof (cases "get_pull_request_row owner repo n (mg_db s)")
  case (Some pr)
  then show ?thesis
    by (cases "pending_comment_merge pr") (simp_all add: handle_check_auto_merge_def may_merge_def try_merge_effect execute_merges Let_def)
qed (simp add: handle_check_auto_merge_def)

section \<open>Rows of the table\<close>

text \<open>A row: the columns of a request are set together, and a method is one of the three.\<close>

definition pr_key :: "PullRequest \<Rightarrow> string \<times> string \<times> int" where
  "pr_key pr = (pr_owner pr, pr_repo_name pr, pr_number pr)"

definition method_ok :: "string option \<Rightarrow> bool" where
  "method_ok m = (\<forall>x. m = Some x \<longrightarrow> x \<in> {''merge'', ''squash'', ''rebase''})"

definition row_ok :: "PullRequest \<Rightarrow> bool" where
  "row_ok pr \<longleftrightarrow>
     (pr_cm_sha pr = None \<longrightarrow> pr_cm_method pr = None \<and> pr_cm_requester_id pr = None \<and>
        pr_cm_requester_login pr = None \<and> pr_cm_comment_id pr = None \<and> pr_cm_requested_at pr = None) \<and>
     (pr_cm_sha pr \<noteq> None \<longrightarrow> pr_cm_requester_id pr \<noteq> None \<and>
        pr_cm_requester_login pr \<noteq> None \<and> pr_cm_comment_id pr \<noteq> None \<and> pr_cm_requested_at pr \<noteq> None) \<and>
     method_ok (pr_cm_method pr) \<and> method_ok (pr_merge_method pr)"

definition rows_ok :: "MergeDb \<Rightarrow> bool" where
  "rows_ok db \<longleftrightarrow> distinct (map pr_key (md_prs db)) \<and> list_all row_ok (md_prs db)"

lemma rows_ok_update:
  assumes "rows_ok db" "\<And>pr. pr_key (f pr) = pr_key pr" "\<And>pr. row_ok pr \<Longrightarrow> row_ok (f pr)"
  shows "rows_ok (update_prs owner repo n f db)"
proof -
  have "pr_key \<circ> (\<lambda>pr. if is_pr owner repo n pr then f pr else pr) = pr_key"
    using assms(2) by auto
  then show ?thesis using assms(1,3) by (auto simp: rows_ok_def update_prs_def list_all_iff)
qed

named_theorems rows_intro

lemma rows_ok_updates [rows_intro]:
  assumes "rows_ok db"
  shows "rows_ok (disable_auto_merge owner repo n db)" "rows_ok (mark_pr_merged owner repo n u db)"
    "rows_ok (clear_comment_merge_request owner repo n db)"
    "method_ok m \<Longrightarrow> rows_ok (enable_auto_merge owner repo n m db)"
    "method_ok m \<Longrightarrow> rows_ok (fst (set_comment_merge_request now owner repo n sha m rid login cid db))"
  unfolding disable_auto_merge_def mark_pr_merged_def clear_comment_merge_request_def enable_auto_merge_def
    set_comment_merge_request_def fst_conv
  by (rule rows_ok_update[OF assms]; simp add: row_ok_def pr_key_def clear_request_def method_ok_def)+

lemma rows_ok_upsert [rows_intro]:
  assumes "rows_ok db"
  shows "rows_ok (upsert_pull_request n owner repo sha st db)"
proof (cases "\<exists>pr\<in>set (md_prs db). is_pr owner repo n pr")
  case True
  then show ?thesis unfolding upsert_pull_request_def
    by (simp add: True) (rule rows_ok_update[OF assms]; simp add: row_ok_def pr_key_def)
next
  case False
  then have "(owner, repo, n) \<notin> pr_key ` set (md_prs db)" by (auto simp: is_pr_def pr_key_def)
  then show ?thesis using assms
    unfolding upsert_pull_request_def by (auto simp: False rows_ok_def row_ok_def method_ok_def pr_key_def)
qed

lemma rows_ok_outside [rows_intro]:
  assumes "rows_ok db"
  shows "rows_ok (update_prs owner repo n (\<lambda>pr. pr\<lparr>pr_jobset_id := i\<rparr>)
    (db\<lparr>md_jobsets := js, md_jobs := jobs, md_differences := diffs, md_maintainers := ms,
       md_check_runs := runs, md_approved_users := users\<rparr>))"
  by (rule rows_ok_update; use assms in \<open>simp add: rows_ok_def row_ok_def pr_key_def\<close>)

lemma parsed_method_ok: "method_ok (map_option merge_method_str m)"
  by (cases m; cases "the m") (auto simp: method_ok_def)

lemma check_auto_merge_db:
  "\<exists>u. mg_db (fst (handle_check_auto_merge api owner repo n s)) \<in>
     {mg_db s, mark_pr_merged owner repo n u (mg_db s), clear_comment_merge_request owner repo n (mg_db s)}"
  by (auto simp: handle_check_auto_merge_def try_merge_effect execute_db split: option.split sum.split)

lemma push_timing_db [simp]: "mg_db (fst (check_push_timing api n cid sha at s)) = mg_db s"
  by (simp add: check_push_timing_def split: sum.split option.split)

lemma accept_db:
  "mg_db (handle_merge_accept api now owner repo n cid rid login m at s) =
     (case get_pull_request_row owner repo n (mg_db s) of
        None \<Rightarrow> mg_db s
      | Some pr \<Rightarrow>
          if (\<exists>b. authorize_commenter api owner repo n rid login (mg_db s) = Granted b) \<and>
             snd (check_push_timing api n cid (pr_head_sha pr) at s)
          then fst (set_comment_merge_request now owner repo n (pr_head_sha pr) m rid login cid (mg_db s))
          else mg_db s)"
proof (cases "get_pull_request_row owner repo n (mg_db s)")
  case (Some pr)
  obtain s1 ok where t: "check_push_timing api n cid (pr_head_sha pr) at s = (s1, ok)" by fastforce
  then have "mg_db s1 = mg_db s" using push_timing_db[of api n cid "pr_head_sha pr" at s] by simp
  then show ?thesis using Some t
    by (cases ok) (auto simp: handle_merge_accept_def Let_def set_comment_merge_request_def split: Authorization.split)
qed (auto simp: handle_merge_accept_def split: Authorization.split)

lemma cancel_db:
  "mg_db (handle_merge_cancel api owner repo n cid rid login s) =
     (case Option.bind (get_pull_request_row owner repo n (mg_db s)) pending_comment_merge of
        None \<Rightarrow> mg_db s
      | Some pending \<Rightarrow>
          if rid = cmr_requester_id pending \<or> (\<exists>b. authorize_commenter api owner repo n rid login (mg_db s) = Granted b)
          then clear_comment_merge_request owner repo n (mg_db s) else mg_db s)"
  by (auto simp: handle_merge_cancel_def split: option.split Authorization.split)

lemma manual_merge_db:
  "\<exists>u. mg_db (fst (manual_merge_pr_handler api available dm users gid owner repo n m s)) \<in>
     {mg_db s, mark_pr_merged owner repo n u (mg_db s)}"
proof -
  define bad where "bad x = (x \<noteq> ''merge'' \<and> x \<noteq> ''squash'' \<and> x \<noteq> ''rebase'')" for x
  show ?thesis unfolding manual_merge_pr_handler_def merge_pull_request_def Let_def bad_def[symmetric]
    by (auto split: sum.split MergeMethodCheck.split)
qed

lemma gate_simps [simp]: "mg_db (gate_and_checkout r pl s) = mg_db s" "mg_merges (gate_and_checkout r pl s) = mg_merges s"
  by (auto simp: gate_and_checkout_def split: option.split sum.split)

lemma rows_ok_store [rows_intro]: "rows_ok (mg_db s) \<Longrightarrow> rows_ok (mg_db (store_pr_metadata pl st s))"
  by (auto simp: store_pr_metadata_def rows_intro split: option.split)

lemma rows_ok_drift [rows_intro]: "rows_ok (mg_db s) \<Longrightarrow> rows_ok (mg_db (check_comment_merge_drift pl s))"
  by (auto simp: check_comment_merge_drift_def rows_intro split: option.split)

lemma rows_ok_event: "rows_ok (mg_db s) \<Longrightarrow> rows_ok (mg_db (handle_github_pr up require apps pl s))"
  by (simp add: handle_github_pr_def Let_def rows_intro split: sum.split)

definition completion_step :: "bool \<Rightarrow> int \<Rightarrow> JobSet \<Rightarrow> Merger \<Rightarrow> Merger" where
  "completion_step channels jobset js s =
     (let s1 = (if channels then s\<lparr>mg_channel_tasks := mg_channel_tasks s @
           [JobsetComplete GitHub (jst_owner js) (jst_repo_name js) (jst_sha js)]\<rparr> else s)
      in if jobset_has_new_or_changed_failures jobset (mg_db s) then s1 else recorder_check_auto_merge js s1)"

lemma completion_loop_Cons:
  "completion_loop channels (jobset # rest) s =
     (if \<not> all_jobs_concluded jobset (mg_db s) then completion_loop channels rest s
      else case get_jobset_info jobset (mg_db s) of
             Inl e \<Rightarrow> (s, Inl e) | Inr js \<Rightarrow> completion_loop channels rest (completion_step channels jobset js s))"
  by (simp add: completion_step_def Let_def split: sum.split)

declare completion_loop.simps(2) [simp del]

lemma completion_step_simps [simp]:
  "mg_db (completion_step channels jobset js s) = mg_db s" "mg_merges (completion_step channels jobset js s) = mg_merges s"
  by (simp_all add: completion_step_def recorder_check_auto_merge_def Let_def split: option.split)

lemma completion_step_grows: "set (mg_tasks s) \<subseteq> set (mg_tasks (completion_step channels jobset js s))"
  by (auto simp: completion_step_def recorder_check_auto_merge_def send_task_def Let_def split: option.split)

lemma completion_simps [simp]:
  "mg_db (fst (completion_loop channels jobsets s)) = mg_db s" "mg_merges (fst (completion_loop channels jobsets s)) = mg_merges s"
  by (induction jobsets arbitrary: s) (auto simp: completion_loop_Cons split: sum.split)

lemma fold_send_simps [simp]:
  "mg_db (fold (\<lambda>j. send_task (f j)) js s) = mg_db s" "mg_merges (fold (\<lambda>j. send_task (f j)) js s) = mg_merges s"
  by (induction js arbitrary: s) auto

lemma notify_db [simp]: "mg_db (fst (notify_forge_and_channels up channels drv result infos s)) = mg_db s"
  by (simp add: notify_forge_and_channels_def check_jobset_completion_def redispatch_queued_def Let_def)

lemma comment_event_db [simp]: "mg_db (handle_github_issue_comment up now repository ev s) = mg_db s"
  by (auto simp: handle_github_issue_comment_def Let_def split: option.split prod.split)

lemma review_event_db [simp]: "mg_db (handle_github_pr_review up action st pl s) = mg_db s"
  by (auto simp: handle_github_pr_review_def split: option.split prod.split)

lemma rows_ok_command:
  assumes "rows_ok (mg_db s)"
  shows "rows_ok (mg_db (fst (handle_process_merge_command api now owner repo n cid rid login body created s)))"
proof -
  have "rows_ok (fst (set_comment_merge_request now owner repo n sha (map_option merge_method_str m) rid login cid (mg_db s)))" for sha m
    using assms parsed_method_ok by (rule rows_intro)
  then show ?thesis using assms
    by (auto simp: handle_process_merge_command_def accept_db cancel_db rows_intro split: option.split CommentCommand.split)
qed

lemma rows_ok_task:
  assumes "handle_merge_task api now t s = Some (s', r)" "rows_ok (mg_db s)"
  shows "rows_ok (mg_db s')"
proof (cases t)
  case (CheckAutoMerge owner repo n)
  then have "s' = fst (handle_check_auto_merge api owner repo n s)" using assms(1) by simp
  then show ?thesis using assms(2) check_auto_merge_db[of api owner repo n s] by (auto intro: rows_intro)
next
  case (ProcessMergeCommand owner repo n cid rid login body created)
  then have "s' = fst (handle_process_merge_command api now owner repo n cid rid login body created s)" using assms(1) by simp
  then show ?thesis using rows_ok_command[OF assms(2)] by simp
qed (use assms in \<open>auto simp: handle_comment_merge_drift_cancelled_def split: if_splits\<close>)

lemma reachable_rows_ok: "merger_reachable s \<Longrightarrow> rows_ok (mg_db s)"
proof (induction rule: merger_reachable.induct)
  case (merger_task s t ts api now s' r)
  then show ?case using rows_ok_task[OF merger_task.hyps(3)] by simp
next
  case (merger_enable s gid owner repo n m)
  then show ?case
    by (auto simp: enable_auto_merge_handler_def method_ok_def intro!: rows_intro split: sum.split option.split)
next
  case (merger_manual s api available dm users gid owner repo n m)
  then show ?case using manual_merge_db[of api available dm users gid owner repo n m s] by (auto intro: rows_intro)
next
  case (merger_disable s gid owner repo n)
  then show ?case by (auto simp: disable_auto_merge_handler_def intro!: rows_intro split: sum.split)
next
  case (merger_event s up require apps pl)
  then show ?case by (intro rows_ok_event)
qed (simp_all add: rows_ok_def[of "mg_db s" for s] rows_intro)

lemma pending_iff: "row_ok pr \<Longrightarrow> pending_comment_merge pr = None \<longleftrightarrow> pr_cm_sha pr = None"
  by (auto simp: row_ok_def pending_comment_merge_def split: option.split)

lemma get_row_unique:
  assumes "rows_ok db" "get_pull_request_row owner repo n db = Some pr"
  shows "filter (is_pr owner repo n) (md_prs db) = [pr]"
proof -
  have hd: "hd (filter (is_pr owner repo n) (md_prs db)) = pr"
    using assms(2) unfolding get_pull_request_row_def by (rule find_hd_filter)
  have "distinct (map pr_key (filter (is_pr owner repo n) (md_prs db)))"
    using assms(1) by (simp add: rows_ok_def distinct_map_filter)
  moreover have "\<forall>x\<in>set (filter (is_pr owner repo n) (md_prs db)). pr_key x = (owner, repo, n)"
    by (auto simp: pr_key_def is_pr_def)
  moreover have "filter (is_pr owner repo n) (md_prs db) \<noteq> []"
    using assms(2) by (auto simp: get_pull_request_row_def find_Some_iff filter_empty_conv)
  ultimately show ?thesis using hd
    by (cases "filter (is_pr owner repo n) (md_prs db)"; cases "tl (filter (is_pr owner repo n) (md_prs db))") auto
qed

text \<open>C6: A pull request is merged only through all gates: a jobset of its head in the table has only
  finished jobs and no failed one among the new and changed ones, packages changed, the
  repository allows the method, and either someone's pending request names the head in the
  table, or automatic merging is on and every changed package has an approving review by
  one of its maintainers.  At most one merge is asked for.\<close>

theorem auto_merge_gates:
  assumes "merger_reachable s" "handle_check_auto_merge api owner repo n s = (s', r)" "mg_merges s' \<noteq> mg_merges s"
  shows "\<exists>pr js changed allowed method.
    get_pull_request_row owner repo n (mg_db s) = Some pr \<and>
    js \<in> set (md_jobsets (mg_db s)) \<and> jst_sha js = pr_head_sha pr \<and> jobset_succeeded (jst_rowid js) (mg_db s) \<and>
    get_pr_changed_packages owner repo n (mg_db s) = Inr changed \<and> changed \<noteq> [] \<and>
    gh_allowed_methods api = Inr allowed \<and> method \<in> set allowed \<and>
    mg_merges s' = mg_merges s @ [(owner, repo, n, api_method method, gh_head api)] \<and>
    (case pending_comment_merge pr of
       Some cmr \<Rightarrow> cmr_sha cmr = pr_head_sha pr
     | None \<Rightarrow> pr_auto_merge_enabled pr \<and> approved_by_maintainers api changed (mg_db s))"
proof -
  have m: "mg_merges s' = mg_merges (fst (handle_check_auto_merge api owner repo n s))" using assms(2) by simp
  obtain pr where pr: "get_pull_request_row owner repo n (mg_db s) = Some pr"
    and ok: "pr_head_build_succeeded owner repo n (mg_db s)" "may_merge pr" "merge_gates api owner repo n pr (mg_db s)"
    and merged: "mg_merges s' = mg_merges s @ [(owner, repo, n, api_method (merge_method_of (pending_comment_merge pr) pr), gh_head api)]"
    using assms(3) unfolding m check_auto_merge_merges
    by (auto simp: Let_def split: option.splits if_splits sum.splits)
  obtain pr' js rest where hj: "head_jobsets owner repo n (mg_db s) = (pr', js) # rest"
    and succ: "jobset_succeeded (jst_rowid js) (mg_db s)"
    using ok(1) unfolding head_build_first by (auto split: list.splits prod.splits)
  have "pr' = pr"
    using hj get_row_unique[OF reachable_rows_ok[OF assms(1)] pr] by (auto simp: head_jobsets_def)
  have "js \<in> set (md_jobsets (mg_db s))" "jst_sha js = pr_head_sha pr"
    using head_jobsets_mem[of pr' js owner repo n "mg_db s"] hj \<open>pr' = pr\<close> by simp_all
  then show ?thesis using pr ok(2,3) merged succ
    by (auto simp: may_merge_def merge_gates_def split: option.splits)
qed

text \<open>A pull request with one changed package whose head has a finished jobset and a pending request.\<close>

definition ex_pr :: PullRequest where
  "ex_pr = \<lparr> pr_number = 7, pr_owner = ''o'', pr_repo_name = ''r'', pr_head_sha = ''aa'', pr_state = ''open'',
     pr_jobset_id = Some 1, pr_auto_merge_enabled = False, pr_merge_method = None, pr_merged_by_user_id = None,
     pr_cm_sha = Some ''aa'', pr_cm_method = None, pr_cm_requester_id = Some 5, pr_cm_requester_login = Some ''u'',
     pr_cm_comment_id = Some 9, pr_cm_requested_at = Some 0 \<rparr>"

definition ex_merge_db :: MergeDb where
  "ex_merge_db = \<lparr> md_prs = [ex_pr],
     md_jobsets = [\<lparr> jst_rowid = 1, jst_sha = ''aa'', jst_job = ''j'', jst_owner = ''o'', jst_repo_name = ''r'' \<rparr>],
     md_jobs = [\<lparr> jbs_jobset = 1, jbs_name = ''hello'', jbs_drv = ''d'', jbs_difference = DiffChanged, jbs_state = LocalCompleted LocalSuccess \<rparr>],
     md_differences = [(1, ''hello'', ''changed'')], md_maintainers = [], md_check_runs = [], md_approved_users = [] \<rparr>"

definition ex_merger :: Merger where
  "ex_merger = \<lparr> mg_db = ex_merge_db, mg_merges = [], mg_reactions = [(9, ''+1'')], mg_comments = [],
     mg_tasks = [CheckAutoMerge ''o'' ''r'' 7], mg_git = [], mg_rates = [((5, ''o'', ''r''), 0)], mg_channel_tasks = [],
     mg_ingress = ch_new 10 \<rparr>"

definition ex_api :: GitHubApi where
  "ex_api = \<lparr> gh_installed = True, gh_role = (\<lambda>_. Inr (Some ''write'')), gh_reviews = Inr [], gh_allowed_methods = Inr [''squash''],
     gh_commit_date = (\<lambda>_. Inr None), gh_merge = (\<lambda>_. Inr ()), gh_head = ''aa'' \<rparr>"

text \<open>The history of that state: the pull request is opened, its author asks for the merge, the GitHub
  service stores the request, and the jobset of the head is built.\<close>

definition ex_merger0 :: Merger where
  "ex_merger0 = \<lparr> mg_db = \<lparr> md_prs = [], md_jobsets = [], md_jobs = [], md_differences = [], md_maintainers = [],
       md_check_runs = [], md_approved_users = [] \<rparr>,
     mg_merges = [], mg_reactions = [], mg_comments = [], mg_tasks = [], mg_git = [], mg_rates = [], mg_channel_tasks = [],
     mg_ingress = ch_new 10 \<rparr>"

definition ex_payload :: PrPayload where
  "ex_payload = \<lparr> pl_action = PrOpened, pl_number = 7, pl_user = Some (''u'', 5), pl_base_repo = Some (Some ''o'', ''r''),
     pl_base_ref = ''main'', pl_base_sha = ''00'', pl_head_repo = Some (Some ''u'', ''r''), pl_head_sha = ''aa'', pl_merged = False \<rparr>"

definition ex_asked :: Merger where
  "ex_asked = handle_github_issue_comment True 0 (Some (''o'', ''r''))
     \<lparr> ce_created = True, ce_is_pr = True, ce_number = 7, ce_user_type = ''User'', ce_user_id = 5, ce_login = ''u'',
       ce_body = Some ''@eka-ci merge'', ce_comment_id = 9, ce_created_at = 0 \<rparr>
     (handle_github_pr True False [(''a'', \<lparr> pm_allow_all = True, pm_allowed_repos = [], pm_allowed_branches = [] \<rparr>)] ex_payload ex_merger0)"

definition ex_stored :: Merger where
  "ex_stored = fst (handle_process_merge_command ex_api 0 ''o'' ''r'' 7 9 5 ''u'' ''@eka-ci merge'' 0 (ex_asked\<lparr>mg_tasks := []\<rparr>))"

definition ex_opened :: Merger where
  "ex_opened = \<lparr> mg_db = \<lparr> md_prs = [\<lparr> pr_number = 7, pr_owner = ''o'', pr_repo_name = ''r'', pr_head_sha = ''aa'', pr_state = ''open'',
       pr_jobset_id = None, pr_auto_merge_enabled = False, pr_merge_method = None, pr_merged_by_user_id = None,
       pr_cm_sha = None, pr_cm_method = None, pr_cm_requester_id = None, pr_cm_requester_login = None,
       pr_cm_comment_id = None, pr_cm_requested_at = None \<rparr>],
       md_jobsets = [], md_jobs = [], md_differences = [], md_maintainers = [], md_check_runs = [], md_approved_users = [] \<rparr>,
     mg_merges = [], mg_reactions = [], mg_comments = [], mg_tasks = [], mg_git = [ex_payload], mg_rates = [], mg_channel_tasks = [],
     mg_ingress = ch_new 10 \<rparr>"

lemma ex_opened_eq:
  "handle_github_pr True False [(''a'', \<lparr> pm_allow_all = True, pm_allowed_repos = [], pm_allowed_branches = [] \<rparr>)] ex_payload ex_merger0 = ex_opened"
  by code_simp

lemma ex_asked_eq:
  "ex_asked = ex_opened\<lparr>mg_rates := [((5, ''o'', ''r''), 0)],
     mg_tasks := [ProcessMergeCommand ''o'' ''r'' 7 9 5 ''u'' ''@eka-ci merge'' 0]\<rparr>"
proof -
  have "parse_comment_command ''@eka-ci merge'' \<noteq> None" "\<not> eq_ignore_ascii_case ''User'' ''Bot''" by code_simp+
  moreover have "mg_rates ex_opened = []" "mg_tasks ex_opened = []" by (simp_all add: ex_opened_def)
  ultimately show ?thesis
    by (simp add: ex_asked_def ex_opened_eq handle_github_issue_comment_def check_and_record_rate_limit_def
        check_and_record_rate_limit_inner_def RATE_LIMIT_MAP_MAX_ENTRIES_def send_task_def)
qed

lemma ex_history:
  "mg_tasks ex_asked = [ProcessMergeCommand ''o'' ''r'' 7 9 5 ''u'' ''@eka-ci merge'' 0]"
  "ex_merger = ex_stored\<lparr>mg_db := update_prs ''o'' ''r'' 7 (\<lambda>pr. pr\<lparr>pr_jobset_id := Some 1\<rparr>)
     ((mg_db ex_stored)\<lparr>md_jobsets := md_jobsets ex_merge_db, md_jobs := md_jobs ex_merge_db,
        md_differences := md_differences ex_merge_db, md_maintainers := [], md_check_runs := [], md_approved_users := []\<rparr>),
     mg_git := [], mg_channel_tasks := [], mg_ingress := ch_new 10\<rparr>"
  unfolding ex_stored_def ex_asked_eq by (simp, code_simp)

lemma ex_merger_reachable: "merger_reachable ex_merger"
proof -
  have "merger_reachable ex_merger0" by (rule merger_start) (simp_all add: ex_merger0_def)
  then have "merger_reachable ex_asked" unfolding ex_asked_def by (intro merger_comment merger_event)
  moreover obtain r where "handle_merge_task ex_api 0 (ProcessMergeCommand ''o'' ''r'' 7 9 5 ''u'' ''@eka-ci merge'' 0)
      (ex_asked\<lparr>mg_tasks := []\<rparr>) = Some (ex_stored, r)"
    unfolding ex_stored_def by (metis handle_merge_task.simps(2) prod.collapse)
  ultimately have "merger_reachable ex_stored" using ex_history(1) by (blast intro: merger_task)
  then show ?thesis unfolding ex_history(2) by (rule merger_outside)
qed

lemma ex_check:
  "mg_merges (fst (handle_check_auto_merge (ex_api\<lparr>gh_head := x\<rparr>) ''o'' ''r'' 7 ex_merger)) = [(''o'', ''r'', 7, MethodSquash, x)]"
  "mg_merges ex_merger = []"
  by code_simp+

theorem auto_merge_gates_witness:
  "\<exists>pr js changed allowed method.
    get_pull_request_row ''o'' ''r'' 7 ex_merge_db = Some pr \<and>
    js \<in> set (md_jobsets ex_merge_db) \<and> jst_sha js = pr_head_sha pr \<and> jobset_succeeded (jst_rowid js) ex_merge_db \<and>
    get_pr_changed_packages ''o'' ''r'' 7 ex_merge_db = Inr changed \<and> changed \<noteq> [] \<and>
    gh_allowed_methods ex_api = Inr allowed \<and> method \<in> set allowed \<and>
    [(''o'', ''r'', 7, MethodSquash, ''aa'')] = [(''o'', ''r'', 7, api_method method, gh_head ex_api)]"
proof -
  obtain s' r where c: "handle_check_auto_merge ex_api ''o'' ''r'' 7 ex_merger = (s', r)" by fastforce
  have "ex_api\<lparr>gh_head := ''aa''\<rparr> = ex_api" by (simp add: ex_api_def)
  then have m: "mg_merges s' = [(''o'', ''r'', 7, MethodSquash, ''aa'')]" using ex_check(1)[of "''aa''"] c by simp
  have db: "mg_db ex_merger = ex_merge_db" by (simp add: ex_merger_def)
  show ?thesis
    using auto_merge_gates[OF ex_merger_reachable c] unfolding m ex_check(2) db append_Nil by blast
qed

text \<open>C13: In every history the table of pull requests has one row per pull request, the five columns of a
  pending request are set together or not at all, so that the request is pending exactly when
  its commit is there, and a stored method is one of merge, squash and rebase.\<close>

theorem merge_rows_well_typed:
  assumes "merger_reachable s" "pr \<in> set (md_prs (mg_db s))"
  shows "filter (is_pr (pr_owner pr) (pr_repo_name pr) (pr_number pr)) (md_prs (mg_db s)) = [pr] \<and>
    (pending_comment_merge pr = None \<longleftrightarrow> pr_cm_sha pr = None) \<and>
    (pr_cm_requester_id pr = None \<longleftrightarrow> pr_cm_sha pr = None) \<and>
    (pr_cm_requester_login pr = None \<longleftrightarrow> pr_cm_sha pr = None) \<and>
    (pr_cm_comment_id pr = None \<longleftrightarrow> pr_cm_sha pr = None) \<and>
    (pr_cm_requested_at pr = None \<longleftrightarrow> pr_cm_sha pr = None) \<and>
    {pr_cm_method pr, pr_merge_method pr} \<subseteq> {None, Some ''merge'', Some ''squash'', Some ''rebase''}"
proof -
  have ok: "rows_ok (mg_db s)" using assms(1) by (rule reachable_rows_ok)
  then have row: "row_ok pr" using assms(2) by (auto simp: rows_ok_def list_all_iff)
  obtain pr' where g: "get_pull_request_row (pr_owner pr) (pr_repo_name pr) (pr_number pr) (mg_db s) = Some pr'"
    using assms(2) by (cases "get_pull_request_row (pr_owner pr) (pr_repo_name pr) (pr_number pr) (mg_db s)")
      (auto simp: get_pull_request_row_def find_None_iff is_pr_def)
  have "pr \<in> set (filter (is_pr (pr_owner pr) (pr_repo_name pr) (pr_number pr)) (md_prs (mg_db s)))"
    using assms(2) by (simp add: is_pr_def)
  then have one: "filter (is_pr (pr_owner pr) (pr_repo_name pr) (pr_number pr)) (md_prs (mg_db s)) = [pr]"
    using get_row_unique[OF ok g] by simp
  have cols: "(pr_cm_requester_id pr = None \<longleftrightarrow> pr_cm_sha pr = None) \<and> (pr_cm_requester_login pr = None \<longleftrightarrow> pr_cm_sha pr = None) \<and>
    (pr_cm_comment_id pr = None \<longleftrightarrow> pr_cm_sha pr = None) \<and> (pr_cm_requested_at pr = None \<longleftrightarrow> pr_cm_sha pr = None)"
    using row unfolding row_ok_def by blast
  have known: "m \<in> {None, Some ''merge'', Some ''squash'', Some ''rebase''}" if "method_ok m" for m
    using that by (cases m) (auto simp only: method_ok_def)
  have "method_ok (pr_cm_method pr)" "method_ok (pr_merge_method pr)" using row by (simp_all add: row_ok_def)
  then have "{pr_cm_method pr, pr_merge_method pr} \<subseteq> {None, Some ''merge'', Some ''squash'', Some ''rebase''}"
    by (intro insert_subsetI empty_subsetI known)
  with one cols pending_iff[OF row] show ?thesis by (intro conjI) simp_all
qed

theorem merge_rows_well_typed_witness:
  "filter (is_pr ''o'' ''r'' 7) (md_prs ex_merge_db) = [ex_pr] \<and> (pending_comment_merge ex_pr = None \<longleftrightarrow> pr_cm_sha ex_pr = None)"
proof -
  have "ex_pr \<in> set (md_prs (mg_db ex_merger))" "mg_db ex_merger = ex_merge_db"
    "pr_owner ex_pr = ''o''" "pr_repo_name ex_pr = ''r''" "pr_number ex_pr = 7"
    by (simp_all add: ex_merger_def ex_merge_db_def ex_pr_def)
  then show ?thesis
    using merge_rows_well_typed[OF ex_merger_reachable, of ex_pr] by simp
qed

section \<open>The evaluator and the shared rules\<close>

text \<open>The state that the evaluator gathers for a pull request.\<close>

definition gathered_state ::
  "PullRequest \<Rightarrow> bool \<Rightarrow> string list \<Rightarrow> (string \<times> string list) list \<Rightarrow> string list \<Rightarrow> AutoMergeState" where
  "gathered_state pr built changed missing allowed =
     \<lparr> ams_auto_merge_enabled = pr_auto_merge_enabled pr,
       ams_comment_merge = map_option (\<lambda>c. (cmr_sha c, cmr_method c)) (pending_comment_merge pr),
       ams_head_sha = pr_head_sha pr, ams_build_succeeded = built, ams_changed_packages = changed,
       ams_missing_approvals = map fst missing, ams_merge_method = pr_merge_method pr,
       ams_allowed_merge_methods = allowed \<rparr>"

lemma approvals_missing:
  "check_pr_maintainer_approvals api changed db = Inr (ok, missing) \<Longrightarrow> changed \<noteq> [] \<Longrightarrow> ok \<longleftrightarrow> missing = []"
  by (auto simp: check_pr_maintainer_approvals_def Let_def split: sum.splits if_splits)

lemma try_merge_rules:
  assumes "get_pr_changed_packages owner repo n (mg_db s) = Inr changed"
    and "check_pr_maintainer_approvals api changed (mg_db s) = Inr (ok, missing)"
    and "gh_allowed_methods api = Inr allowed"
  shows "fst (try_merge api owner repo n pr s) =
     (if changed \<noteq> [] \<and> (pending_comment_merge pr = None \<longrightarrow> missing = []) \<and>
         merge_method_of (pending_comment_merge pr) pr \<in> set allowed
      then auto_merge_execute api owner repo n (merge_method_of (pending_comment_merge pr) pr) (pending_comment_merge pr) s
      else s)"
proof (cases "changed = []")
  case False
  then have "approved_by_maintainers api changed (mg_db s) \<longleftrightarrow> missing = []"
    using approvals_iff[of changed api "mg_db s"] approvals_missing[OF assms(2)] assms(2) by auto
  then have "merge_gates api owner repo n pr (mg_db s) \<longleftrightarrow>
      (pending_comment_merge pr = None \<longrightarrow> missing = []) \<and> merge_method_of (pending_comment_merge pr) pr \<in> set allowed"
    using assms(1,3) False by (simp add: merge_gates_def)
  then show ?thesis using False by (simp add: try_merge_effect)
qed (simp add: try_merge_effect merge_gates_def assms(1))

text \<open>The evaluator of GitHub, which repeats the rules with its own queries, does exactly what the shared rules
  say about the state it gathers: an eligible pull request is merged with the method they
  name, a drifted request is cancelled, and in every other case nothing happens.  The
  repository allows at least one method, since with none the rules allow every method and the
  evaluator none.\<close>

theorem eligibility_agrees:
  assumes "gh_installed api" "get_pull_request_row owner repo n (mg_db s) = Some pr"
    and "get_pr_changed_packages owner repo n (mg_db s) = Inr changed"
    and "check_pr_maintainer_approvals api changed (mg_db s) = Inr (ok, missing)"
    and "gh_allowed_methods api = Inr allowed" "allowed \<noteq> []"
  shows "fst (handle_check_auto_merge api owner repo n s) =
     (case evaluate_eligibility (gathered_state pr (pr_head_build_succeeded owner repo n (mg_db s)) changed missing allowed) of
        Eligible method \<Rightarrow> auto_merge_execute api owner repo n method (pending_comment_merge pr) s
      | SHADrift expected actual \<Rightarrow> drift_cancel owner repo n (the (pending_comment_merge pr)) actual s
      | _ \<Rightarrow> s)"
proof (cases "pending_comment_merge pr")
  case None
  then show ?thesis using assms
    by (simp add: handle_check_auto_merge_def evaluate_eligibility_def gathered_state_def try_merge_rules[OF assms(3-5)]
        merge_method_of_def Let_def)
next
  case (Some cmr)
  then show ?thesis using assms
    by (simp add: handle_check_auto_merge_def evaluate_eligibility_def gathered_state_def try_merge_rules[OF assms(3-5)]
        merge_method_of_def Let_def)
qed

theorem eligibility_agrees_witness:
  "fst (handle_check_auto_merge ex_api ''o'' ''r'' 7 ex_merger) =
     (case evaluate_eligibility (gathered_state ex_pr True [''hello''] [(''hello'', [])] [''squash'']) of
        Eligible method \<Rightarrow> auto_merge_execute ex_api ''o'' ''r'' 7 method (pending_comment_merge ex_pr) ex_merger
      | SHADrift expected actual \<Rightarrow> drift_cancel ''o'' ''r'' 7 (the (pending_comment_merge ex_pr)) actual ex_merger
      | _ \<Rightarrow> ex_merger)"
proof -
  have "gh_installed ex_api" "get_pull_request_row ''o'' ''r'' 7 (mg_db ex_merger) = Some ex_pr"
    "get_pr_changed_packages ''o'' ''r'' 7 (mg_db ex_merger) = Inr [''hello'']"
    "check_pr_maintainer_approvals ex_api [''hello''] (mg_db ex_merger) = Inr (False, [(''hello'', [])])"
    "gh_allowed_methods ex_api = Inr [''squash'']" "pr_head_build_succeeded ''o'' ''r'' 7 (mg_db ex_merger)"
    by code_simp+
  then show ?thesis using eligibility_agrees[of ex_api "''o''" "''r''" 7 ex_merger ex_pr "[''hello'']" False "[(''hello'', [])]" "[''squash'']"]
    by simp
qed

section \<open>Who may ask\<close>

definition has_authority :: "GitHubApi \<Rightarrow> string \<Rightarrow> string \<Rightarrow> int \<Rightarrow> int \<Rightarrow> string \<Rightarrow> MergeDb \<Rightarrow> bool" where
  "has_authority api owner repo n user login db =
     ((\<exists>role\<in>{''admin'', ''maintain'', ''write''}. gh_role api login = Inr (Some role)) \<or>
      (\<exists>changed. get_pr_changed_packages owner repo n db = Inr changed \<and> changed \<noteq> [] \<and>
         (\<forall>p\<in>set changed. \<exists>name. (p, user, name) \<in> set (md_maintainers db))))"

lemma permission_role:
  "check_repo_permission_for_user api login = Inr p \<Longrightarrow> p \<in> {PermAdmin, PermMaintain, PermWrite} \<Longrightarrow>
     \<exists>role\<in>{''admin'', ''maintain'', ''write''}. gh_role api login = Inr (Some role)"
  by (auto simp: check_repo_permission_for_user_def split: sum.splits option.splits if_splits)

lemma granted_authority:
  assumes "authorize_commenter api owner repo n user login db = Granted b"
  shows "has_authority api owner repo n user login db"
proof -
  obtain p where p: "check_repo_permission_for_user api login = Inr p"
    using assms by (auto simp: authorize_commenter_def split: sum.splits)
  show ?thesis
  proof (cases "p \<in> {PermAdmin, PermMaintain, PermWrite}")
    case True
    then show ?thesis using permission_role[OF p] by (simp only: has_authority_def simp_thms)
  next
    case False
    then have "\<exists>changed. get_pr_changed_packages owner repo n db = Inr changed \<and> changed \<noteq> [] \<and>
        is_maintainer_of_all_packages user changed db"
      using assms p by (cases "get_pr_changed_packages owner repo n db") (auto simp: authorize_commenter_def Let_def split: if_splits)
    then show ?thesis
      unfolding has_authority_def is_maintainer_of_all_packages_def is_maintainer_def list_all_iff by blast
  qed
qed

lemma push_timing_date:
  "snd (check_push_timing api n cid sha at s) \<longleftrightarrow> (\<forall>date. gh_commit_date api sha = Inr (Some date) \<longrightarrow> date \<le> at + int (from_secs 30))"
  by (auto simp: check_push_timing_def PUSH_GRACE_def split: sum.splits option.splits)

lemma command_merges:
  "mg_merges (fst (handle_process_merge_command api now owner repo n cid user login body created s)) = mg_merges s"
proof -
  have t: "mg_merges (fst (check_push_timing api n cid sha created s)) = mg_merges s" for sha
    by (simp add: check_push_timing_def split: sum.split option.split)
  have "mg_merges (handle_merge_accept api now owner repo n cid user login m created s) = mg_merges s" for m
    using t by (auto simp: handle_merge_accept_def Let_def set_comment_merge_request_def
        split: Authorization.split option.split prod.split bool.split) (metis fst_conv)+
  moreover have "mg_merges (handle_merge_cancel api owner repo n cid user login s) = mg_merges s"
    by (auto simp: handle_merge_cancel_def split: option.split Authorization.split)
  ultimately show ?thesis by (simp add: handle_process_merge_command_def split: option.split CommentCommand.split)
qed

text \<open>C10: A comment changes the tables only as a command, and never merges by itself.  A request is stored only for
  someone who may write to the repository or maintains every changed package, it names the
  head in the table, and that commit is not more than thirty seconds younger than the comment.
  A request is withdrawn only by its author or by someone with the same authority.\<close>

theorem command_needs_authority:
  assumes "handle_process_merge_command api now owner repo n cid user login body created s = (s', r)" "mg_db s' \<noteq> mg_db s"
  shows "mg_merges s' = mg_merges s \<and> ((\<exists>method pr. parse_comment_command body = Some (Merge method) \<and> has_authority api owner repo n user login (mg_db s) \<and>
       get_pull_request_row owner repo n (mg_db s) = Some pr \<and>
       (\<forall>date. gh_commit_date api (pr_head_sha pr) = Inr (Some date) \<longrightarrow> date \<le> created + int (from_secs 30)) \<and>
       mg_db s' = fst (set_comment_merge_request now owner repo n (pr_head_sha pr) (map_option merge_method_str method) user login cid (mg_db s)))
    \<or> (\<exists>pr pending. parse_comment_command body = Some MergeCancel \<and>
       get_pull_request_row owner repo n (mg_db s) = Some pr \<and> pending_comment_merge pr = Some pending \<and>
       (user = cmr_requester_id pending \<or> has_authority api owner repo n user login (mg_db s)) \<and>
       mg_db s' = clear_comment_merge_request owner repo n (mg_db s)))"
proof -
  have s': "s' = fst (handle_process_merge_command api now owner repo n cid user login body created s)" using assms(1) by simp
  then have merges: "mg_merges s' = mg_merges s" by (simp add: command_merges)
  consider (accept) m where "parse_comment_command body = Some (Merge m)"
      "s' = handle_merge_accept api now owner repo n cid user login (map_option merge_method_str m) created s"
    | (cancel) "parse_comment_command body = Some MergeCancel" "s' = handle_merge_cancel api owner repo n cid user login s"
    using assms(2) unfolding s' handle_process_merge_command_def by (auto split: if_splits option.splits CommentCommand.splits)
  then show ?thesis
  proof cases
    case accept
    then obtain pr b where "get_pull_request_row owner repo n (mg_db s) = Some pr"
        "authorize_commenter api owner repo n user login (mg_db s) = Granted b"
        "snd (check_push_timing api n cid (pr_head_sha pr) created s)"
        "mg_db s' = fst (set_comment_merge_request now owner repo n (pr_head_sha pr) (map_option merge_method_str m) user login cid (mg_db s))"
      using assms(2) by (auto simp: accept_db split: option.splits if_splits)
    with merges accept(1) granted_authority push_timing_date show ?thesis by metis
  next
    case cancel
    then obtain pr pending where "get_pull_request_row owner repo n (mg_db s) = Some pr" "pending_comment_merge pr = Some pending"
        "user = cmr_requester_id pending \<or> (\<exists>b. authorize_commenter api owner repo n user login (mg_db s) = Granted b)"
        "mg_db s' = clear_comment_merge_request owner repo n (mg_db s)"
      using assms(2) by (auto simp: cancel_db split: option.splits if_splits bind_splits)
    with merges cancel(1) granted_authority show ?thesis by metis
  qed
qed

theorem command_needs_authority_witness:
  "has_authority ex_api ''o'' ''r'' 7 5 ''u'' (mg_db ex_merger) \<or> 5 = cmr_requester_id (the (pending_comment_merge ex_pr))"
proof -
  obtain s' r where c: "handle_process_merge_command ex_api 1 ''o'' ''r'' 7 10 5 ''u'' ''@eka-ci merge cancel'' 0 ex_merger = (s', r)"
    by fastforce
  have "mg_db (fst (handle_process_merge_command ex_api 1 ''o'' ''r'' 7 10 5 ''u'' ''@eka-ci merge cancel'' 0 ex_merger)) \<noteq> mg_db ex_merger"
    by code_simp
  then have "mg_db s' \<noteq> mg_db ex_merger" using c by simp
  moreover have "get_pull_request_row ''o'' ''r'' 7 (mg_db ex_merger) = Some ex_pr" by code_simp
  ultimately show ?thesis using command_needs_authority[OF c] by auto
qed

section \<open>What starts a merge and a checkout\<close>

lemma completion_tasks_grow: "set (mg_tasks s) \<subseteq> set (mg_tasks (fst (completion_loop channels jobsets s)))"
proof (induction jobsets arbitrary: s)
  case (Cons i rest)
  then show ?case using completion_step_grows[of s channels i] by (auto simp: completion_loop_Cons split: sum.split)
qed simp

lemma completion_loop_ok:
  "\<forall>i\<in>set jobsets. \<exists>js. get_jobset_info i (mg_db s) = Inr js \<Longrightarrow> snd (completion_loop channels jobsets s) = Inr ()"
  by (induction jobsets arbitrary: s) (auto simp: completion_loop_Cons split: sum.split)

definition wants_merge :: "JobSet \<Rightarrow> PullRequest \<Rightarrow> MergeDb \<Rightarrow> bool" where
  "wants_merge js pr db \<longleftrightarrow> get_pr_by_head_sha (jst_sha js) (jst_owner js) (jst_repo_name js) db = Some pr \<and>
     pr_state pr = ''open'' \<and> (pr_auto_merge_enabled pr \<or> pr_cm_sha pr \<noteq> None)"

lemma completion_step_checks:
  "jobset_succeeded i (mg_db s) \<Longrightarrow> wants_merge js pr (mg_db s) \<Longrightarrow>
     CheckAutoMerge (jst_owner js) (jst_repo_name js) (pr_number pr) \<in> set (mg_tasks (completion_step channels i js s))"
  by (simp add: completion_step_def concluded_succeeded recorder_check_auto_merge_def wants_merge_def send_task_def Let_def)

lemma completion_loop_checks:
  assumes "\<forall>i\<in>set jobsets. \<exists>js. get_jobset_info i (mg_db s) = Inr js" "i \<in> set jobsets"
    "get_jobset_info i (mg_db s) = Inr js" "jobset_succeeded i (mg_db s)" "wants_merge js pr (mg_db s)"
  shows "CheckAutoMerge (jst_owner js) (jst_repo_name js) (pr_number pr) \<in> set (mg_tasks (fst (completion_loop channels jobsets s)))"
  using assms
proof (induction jobsets arbitrary: s)
  case (Cons k rest)
  show ?case
  proof (cases "i = k")
    case True
    then have "completion_loop channels (k # rest) s = completion_loop channels rest (completion_step channels i js s)"
      using Cons.prems(3,4) by (simp add: completion_loop_Cons concluded_succeeded)
    then show ?thesis using completion_step_checks[OF Cons.prems(4,5), of channels] completion_tasks_grow by (metis subsetD)
  next
    case False
    then show ?thesis using Cons by (auto simp: completion_loop_Cons split: sum.split)
  qed
qed simp

lemma notify_completes:
  assumes "local_is_terminal result"
  shows "\<exists>s3. mg_db s3 = mg_db s \<and> notify_forge_and_channels True channels drv result infos s = check_jobset_completion channels drv s3"
  unfolding notify_forge_and_channels_def Let_def simp_thms if_False eqTrueI[OF assms] if_True
  by (rule exI, rule conjI[rotated], rule refl) (simp add: redispatch_queued_def)

text \<open>When the last derivation of a green head finishes, the pull request is checked for merging: if a jobset of
  the derivation has only finished jobs and no failed new or changed one, and the pull request
  found for its commit is open and is to be merged automatically or on request, then the recorder
  hands the check to the GitHub service.\<close>

theorem green_head_is_checked:
  assumes "local_is_terminal result" "j \<in> set (md_jobs (mg_db s))" "jbs_drv j = drv"
    and "\<forall>k\<in>set (md_jobs (mg_db s)). \<exists>js. get_jobset_info (jbs_jobset k) (mg_db s) = Inr js"
    and "get_jobset_info (jbs_jobset j) (mg_db s) = Inr js" "jobset_succeeded (jbs_jobset j) (mg_db s)"
    and "wants_merge js pr (mg_db s)"
  shows "\<exists>s'. notify_forge_and_channels True channels drv result infos s = (s', Inr ()) \<and>
    CheckAutoMerge (jst_owner js) (jst_repo_name js) (pr_number pr) \<in> set (mg_tasks s')"
proof -
  define jobsets where "jobsets = map jbs_jobset (get_job_info_for_drv drv (mg_db s))"
  obtain s3 where db: "mg_db s3 = mg_db s"
    and "notify_forge_and_channels True channels drv result infos s = check_jobset_completion channels drv s3"
    using notify_completes[OF assms(1)] by blast
  then have n: "notify_forge_and_channels True channels drv result infos s = completion_loop channels jobsets s3"
    by (simp add: check_jobset_completion_def jobsets_def)
  have all: "\<forall>i\<in>set jobsets. \<exists>js. get_jobset_info i (mg_db s3) = Inr js" and mem: "jbs_jobset j \<in> set jobsets"
    using assms(2-4) db by (auto simp: jobsets_def get_job_info_for_drv_def)
  have "CheckAutoMerge (jst_owner js) (jst_repo_name js) (pr_number pr) \<in> set (mg_tasks (fst (completion_loop channels jobsets s3)))"
    using completion_loop_checks[OF all mem] assms(5-7) db by simp
  then show ?thesis using completion_loop_ok[OF all, of channels] n by (metis prod.collapse)
qed

theorem green_head_is_checked_witness:
  "\<exists>s'. notify_forge_and_channels True True ''d'' (LocalCompleted LocalSuccess) [] ex_merger = (s', Inr ()) \<and>
     CheckAutoMerge ''o'' ''r'' 7 \<in> set (mg_tasks s')"
proof -
  let ?j = "hd (md_jobs ex_merge_db)" and ?js = "hd (md_jobsets ex_merge_db)"
  have "local_is_terminal (LocalCompleted LocalSuccess)" "?j \<in> set (md_jobs (mg_db ex_merger))" "jbs_drv ?j = ''d''"
    "\<forall>k\<in>set (md_jobs (mg_db ex_merger)). \<exists>js. get_jobset_info (jbs_jobset k) (mg_db ex_merger) = Inr js"
    "get_jobset_info (jbs_jobset ?j) (mg_db ex_merger) = Inr ?js" "jobset_succeeded (jbs_jobset ?j) (mg_db ex_merger)"
    "wants_merge ?js ex_pr (mg_db ex_merger)" "jst_owner ?js = ''o''" "jst_repo_name ?js = ''r''" "pr_number ex_pr = 7"
    by (simp_all add: ex_merger_def ex_merge_db_def ex_pr_def get_jobset_info_def jobset_succeeded_def wants_merge_def get_pr_by_head_sha_def)
  then show ?thesis using green_head_is_checked[of "LocalCompleted LocalSuccess" ?j ex_merger "''d''" ?js ex_pr True "[]"] by simp
qed



section \<open>What the gates leave open\<close>

text \<open>The merge is not pinned to the commit that was checked: whenever the evaluator merges a pull request, it
  would have merged any other commit that GitHub holds as the head, also one that differs
  from the commit of the pending request, whose builds and authority were checked.\<close>

theorem merge_not_pinned:
  assumes "mg_merges (fst (handle_check_auto_merge api owner repo n s)) \<noteq> mg_merges s"
  shows "\<exists>method. mg_merges (fst (handle_check_auto_merge (api\<lparr>gh_head := other\<rparr>) owner repo n s)) =
    mg_merges s @ [(owner, repo, n, method, other)]"
proof -
  have "merge_gates (api\<lparr>gh_head := other\<rparr>) owner repo n pr db = merge_gates api owner repo n pr db" for pr db
    by (simp add: merge_gates_def approved_by_maintainers_def)
  then show ?thesis using assms unfolding check_auto_merge_merges
    by (auto simp: Let_def split: option.splits if_splits sum.splits)
qed

theorem merge_not_pinned_witness:
  "cmr_sha (the (pending_comment_merge ex_pr)) = ''aa'' \<and>
   (\<exists>method. mg_merges (fst (handle_check_auto_merge (ex_api\<lparr>gh_head := ''bb''\<rparr>) ''o'' ''r'' 7 ex_merger)) = [(''o'', ''r'', 7, method, ''bb'')])"
proof -
  have "ex_api\<lparr>gh_head := ''aa''\<rparr> = ex_api" by (simp add: ex_api_def)
  then have "mg_merges (fst (handle_check_auto_merge ex_api ''o'' ''r'' 7 ex_merger)) \<noteq> mg_merges ex_merger"
    using ex_check(1)[of "''aa''"] ex_check(2) by simp
  from merge_not_pinned[OF this, of "''bb''"] show ?thesis
    by (simp add: ex_check(2) ex_pr_def pending_comment_merge_def)
qed

text \<open>Of the jobsets of a head only the first decides: whatever jobs the others get, failing or unfinished ones
  included, the head counts as built as before.\<close>

theorem one_jobset_decides:
  assumes "head_jobsets owner repo n db = (pr, js) # rest" "\<forall>j\<in>set extra. jbs_jobset j \<noteq> jst_rowid js"
  shows "pr_head_build_succeeded owner repo n (db\<lparr>md_jobs := md_jobs db @ extra\<rparr>) = pr_head_build_succeeded owner repo n db"
proof -
  have "head_jobsets owner repo n (db\<lparr>md_jobs := md_jobs db @ extra\<rparr>) = head_jobsets owner repo n db"
    by (simp add: head_jobsets_def)
  then show ?thesis using assms by (auto simp: head_build_first jobset_succeeded_def)
qed

definition ex_two_jobsets :: MergeDb where
  "ex_two_jobsets = ex_merge_db\<lparr>md_jobsets := md_jobsets ex_merge_db @
     [\<lparr> jst_rowid = 2, jst_sha = ''aa'', jst_job = ''k'', jst_owner = ''o'', jst_repo_name = ''r'' \<rparr>]\<rparr>"

theorem one_jobset_decides_witness:
  "pr_head_build_succeeded ''o'' ''r'' 7 (ex_two_jobsets\<lparr>md_jobs := md_jobs ex_two_jobsets @
     [\<lparr> jbs_jobset = 2, jbs_name = ''x'', jbs_drv = ''e'', jbs_difference = DiffNew, jbs_state = LocalCompleted LocalFailure \<rparr>]\<rparr>)"
proof -
  have "head_jobsets ''o'' ''r'' 7 ex_two_jobsets = (ex_pr, hd (md_jobsets ex_merge_db)) #
      [(ex_pr, \<lparr> jst_rowid = 2, jst_sha = ''aa'', jst_job = ''k'', jst_owner = ''o'', jst_repo_name = ''r'' \<rparr>)]"
    "pr_head_build_succeeded ''o'' ''r'' 7 ex_two_jobsets" "jst_rowid (hd (md_jobsets ex_merge_db)) = 1"
    by code_simp+
  then show ?thesis using one_jobset_decides by simp
qed

end
