(* ===== verification/Forge_Props.thy ===== *)
theory Forge_Props
  imports Forge_Merge Merge_Props
begin

text \<open>
  Properties of merging on all forges: the evaluators of GitHub, Gitea and GitLab interpret the
  contract \<open>merge_evaluator\<close>; what they leave open on Gitea and GitLab.
\<close>

section \<open>GitHub\<close>

definition approvals_known :: "GitHubApi \<Rightarrow> PullRequest \<Rightarrow> string list \<Rightarrow> MergeDb \<Rightarrow> (string \<times> string list) list \<Rightarrow> bool" where
  "approvals_known api pr changed db missing =
     (pending_comment_merge pr = None \<longrightarrow> (\<exists>ok. check_pr_maintainer_approvals api changed db = Inr (ok, missing)))"

definition github_gathered :: "GitHubApi \<Rightarrow> string \<times> string \<times> int \<Rightarrow> Merger \<Rightarrow> AutoMergeState \<Rightarrow> bool" where
  "github_gathered api k s st =
     (case k of (owner, repo, n) \<Rightarrow> gh_installed api \<and>
        (\<exists>pr changed missing allowed. get_pull_request_row owner repo n (mg_db s) = Some pr \<and>
           get_pr_changed_packages owner repo n (mg_db s) = Inr changed \<and>
           approvals_known api pr changed (mg_db s) missing \<and>
           gh_allowed_methods api = Inr allowed \<and> allowed \<noteq> [] \<and>
           st = gathered_state pr (pr_head_build_succeeded owner repo n (mg_db s)) changed missing allowed))"

definition github_pending :: "string \<times> string \<times> int \<Rightarrow> Merger \<Rightarrow> CommentMergeRequest option" where
  "github_pending k s = (case k of (owner, repo, n) \<Rightarrow> Option.bind (get_pull_request_row owner repo n (mg_db s)) pending_comment_merge)"

definition github_check :: "GitHubApi \<Rightarrow> string \<times> string \<times> int \<Rightarrow> Merger \<Rightarrow> Merger" where
  "github_check api k s = (case k of (owner, repo, n) \<Rightarrow> fst (handle_check_auto_merge api owner repo n s))"

definition github_execute :: "GitHubApi \<Rightarrow> string \<times> string \<times> int \<Rightarrow> string \<Rightarrow> Merger \<Rightarrow> Merger" where
  "github_execute api k m s = (case k of (owner, repo, n) \<Rightarrow> auto_merge_execute api owner repo n m (github_pending k s) s)"

definition github_cancel :: "string \<times> string \<times> int \<Rightarrow> Merger \<Rightarrow> Merger" where
  "github_cancel k s =
     (case k of (owner, repo, n) \<Rightarrow>
        (case get_pull_request_row owner repo n (mg_db s) of
           None \<Rightarrow> s
         | Some pr \<Rightarrow> (case pending_comment_merge pr of None \<Rightarrow> s | Some q \<Rightarrow> drift_cancel owner repo n q (pr_head_sha pr) s)))"

lemma try_merge_pending_rules:
  assumes "get_pr_changed_packages owner repo n (mg_db s) = Inr changed" "gh_allowed_methods api = Inr allowed"
    "approvals_known api pr changed (mg_db s) missing"
  shows "fst (try_merge api owner repo n pr s) =
     (if changed \<noteq> [] \<and> (pending_comment_merge pr = None \<longrightarrow> missing = []) \<and>
         merge_method_of (pending_comment_merge pr) pr \<in> set allowed
      then auto_merge_execute api owner repo n (merge_method_of (pending_comment_merge pr) pr) (pending_comment_merge pr) s
      else s)"
proof (cases "pending_comment_merge pr = None")
  case True
  then show ?thesis using try_merge_rules[OF assms(1) _ assms(2)] assms(3) by (auto simp: approvals_known_def)
next
  case False
  then show ?thesis using assms(1,2) by (auto simp: try_merge_effect merge_gates_def)
qed

lemma github_follows:
  assumes "github_gathered api k s st"
  shows "github_check api k s =
    (case evaluate_eligibility st of Eligible m \<Rightarrow> github_execute api k m s | SHADrift _ _ \<Rightarrow> github_cancel k s | _ \<Rightarrow> s)"
proof -
  obtain owner repo n where k: "k = (owner, repo, n)" by (cases k) auto
  obtain pr changed missing allowed where inst: "gh_installed api"
    and row: "get_pull_request_row owner repo n (mg_db s) = Some pr"
    and ch: "get_pr_changed_packages owner repo n (mg_db s) = Inr changed"
    and ap: "approvals_known api pr changed (mg_db s) missing"
    and al: "gh_allowed_methods api = Inr allowed" "allowed \<noteq> []"
    and st: "st = gathered_state pr (pr_head_build_succeeded owner repo n (mg_db s)) changed missing allowed"
    using assms unfolding github_gathered_def k prod.case by blast
  note rules = try_merge_pending_rules[OF ch al(1) ap]
  show ?thesis
    by (cases "pending_comment_merge pr")
      (simp_all add: k st inst row al github_check_def github_execute_def github_cancel_def github_pending_def
        handle_check_auto_merge_def evaluate_eligibility_def gathered_state_def rules merge_method_of_def Let_def)
qed

lemma github_merging_gathers:
  assumes "mg_merges (github_check api k s) \<noteq> mg_merges s"
  shows "\<exists>st. github_gathered api k s st"
proof -
  obtain owner repo n where k: "k = (owner, repo, n)" by (cases k) auto
  obtain pr where row: "get_pull_request_row owner repo n (mg_db s) = Some pr" and inst: "gh_installed api"
    and gates: "merge_gates api owner repo n pr (mg_db s)"
    using assms by (auto simp: k github_check_def check_auto_merge_merges Let_def split: option.splits if_splits)
  obtain changed allowed where g: "get_pr_changed_packages owner repo n (mg_db s) = Inr changed" "changed \<noteq> []"
    "pending_comment_merge pr = None \<longrightarrow> approved_by_maintainers api changed (mg_db s)"
    "gh_allowed_methods api = Inr allowed" and m: "merge_method_of (pending_comment_merge pr) pr \<in> set allowed"
    using gates by (cases "pending_comment_merge pr = None") (simp_all add: merge_gates_def, blast+)
  have ne: "allowed \<noteq> []" using m by auto
  have "\<exists>missing. approvals_known api pr changed (mg_db s) missing"
    using g(3) approvals_iff[OF g(2)] unfolding approvals_known_def by metis
  then show ?thesis using row inst g ne unfolding github_gathered_def k prod.case by blast
qed

interpretation github: merge_evaluator "github_check api" "github_gathered api" "github_execute api" github_cancel mg_merges
  for api
proof
  fix k s st
  assume "github_gathered api k s st"
  then show "github_check api k s =
      (case evaluate_eligibility st of Eligible m \<Rightarrow> github_execute api k m s | SHADrift _ _ \<Rightarrow> github_cancel k s | _ \<Rightarrow> s)"
    by (rule github_follows)
next
  fix k s
  assume "mg_merges (github_check api k s) \<noteq> mg_merges s"
  then show "\<exists>st. github_gathered api k s st" by (rule github_merging_gathers)
next
  fix k s
  show "mg_merges (github_cancel k s) = mg_merges s" by (auto simp: github_cancel_def split: option.split prod.split)
next
  fix k m s
  show "mg_merges (github_execute api k m s) \<noteq> mg_merges s \<Longrightarrow> \<exists>x. mg_merges (github_execute api k m s) = mg_merges s @ [x]"
    by (auto simp: github_execute_def execute_merges split: sum.splits prod.splits)
qed

section \<open>Gitea and GitLab\<close>

lemma forge_simps [simp]:
  "fm_db (forge_comment c n b s) = fm_db s" "fm_merges (forge_comment c n b s) = fm_merges s"
  "fm_db (forge_send t s) = fm_db s" "fm_merges (forge_send t s) = fm_merges s"
  "fm_merges (forge_drift_cancel c n q h s) = fm_merges s"
  by (simp_all add: forge_comment_def forge_send_def forge_drift_cancel_def Let_def)

definition forge_state :: "string \<Rightarrow> string list \<Rightarrow> bool \<Rightarrow> string list \<Rightarrow> 'c ForgeRow \<Rightarrow> AutoMergeState" where
  "forge_state preset allowed built changed r =
     \<lparr> ams_auto_merge_enabled = fr_auto_merge_enabled r,
       ams_comment_merge = map_option (\<lambda>q. (fq_sha q, fq_method q)) (forge_pending_comment_merge r),
       ams_head_sha = fr_head_sha r, ams_build_succeeded = built, ams_changed_packages = changed,
       ams_missing_approvals = [], ams_merge_method = or_else (fr_merge_method r) (Some preset),
       ams_allowed_merge_methods = allowed \<rparr>"

definition forge_gathered :: "string \<Rightarrow> string list \<Rightarrow> 'c \<times> int \<Rightarrow> 'c ForgeMerger \<Rightarrow> AutoMergeState \<Rightarrow> bool" where
  "forge_gathered preset allowed k s st =
     (case k of (c, n) \<Rightarrow> \<exists>r. forge_get_row c n (fm_db s) = Some r \<and>
        st = forge_state preset allowed (forge_head_build_succeeded c n (fm_db s)) (forge_changed_packages c n (fm_db s)) r)"

definition forge_request :: "'c \<times> int \<Rightarrow> 'c ForgeMerger \<Rightarrow> ForgeRequest option" where
  "forge_request k s = (case k of (c, n) \<Rightarrow> Option.bind (forge_get_row c n (fm_db s)) forge_pending_comment_merge)"

definition forge_check ::
  "string \<Rightarrow> (string \<Rightarrow> (anyhow, MergeMethodCheck) result) \<Rightarrow> (string \<Rightarrow> string option) \<Rightarrow> ForgeApi \<Rightarrow> 'c \<times> int \<Rightarrow> 'c ForgeMerger \<Rightarrow> 'c ForgeMerger" where
  "forge_check preset validate sent api k s = (case k of (c, n) \<Rightarrow> fst (forge_check_auto_merge preset validate sent api c n s))"

definition forge_execute :: "(string \<Rightarrow> string option) \<Rightarrow> ForgeApi \<Rightarrow> 'c \<times> int \<Rightarrow> string \<Rightarrow> 'c ForgeMerger \<Rightarrow> 'c ForgeMerger" where
  "forge_execute sent api k m s = (case k of (c, n) \<Rightarrow> forge_merge_execute sent api c n m (forge_request k s) s)"

definition forge_cancel :: "'c \<times> int \<Rightarrow> 'c ForgeMerger \<Rightarrow> 'c ForgeMerger" where
  "forge_cancel k s =
     (case k of (c, n) \<Rightarrow>
        (case forge_get_row c n (fm_db s) of
           None \<Rightarrow> s
         | Some r \<Rightarrow> (case forge_pending_comment_merge r of None \<Rightarrow> s | Some q \<Rightarrow> forge_drift_cancel c n q (fr_head_sha r) s)))"

text \<open>A forge that accepts a fixed list of methods.\<close>

locale forge_methods =
  fixes preset :: string
    and validate :: "string \<Rightarrow> (anyhow, MergeMethodCheck) result"
    and sent :: "string \<Rightarrow> string option"
    and allowed :: "string list"
  assumes validate_eq: "validate m = Inr (if m \<in> set allowed then MethodOk else MethodRefused allowed)"
    and some_method: "allowed \<noteq> []"
begin

lemma forge_follows:
  assumes "forge_gathered preset allowed k s st"
  shows "forge_check preset validate sent api k s =
    (case evaluate_eligibility st of Eligible m \<Rightarrow> forge_execute sent api k m s | SHADrift _ _ \<Rightarrow> forge_cancel k s | _ \<Rightarrow> s)"
proof -
  obtain c n where k: "k = (c, n)" by (cases k)
  obtain r where row: "forge_get_row c n (fm_db s) = Some r"
    and st: "st = forge_state preset allowed (forge_head_build_succeeded c n (fm_db s)) (forge_changed_packages c n (fm_db s)) r"
    using assms by (auto simp: forge_gathered_def k)
  have "or_else (or_else a b) (Some d) = or_else a (or_else b (Some d))" for a b and d :: string
    by (simp add: or_else_def split: option.split)
  moreover have "(case or_else a (Some d) of None \<Rightarrow> e | Some m \<Rightarrow> m) = (case a of None \<Rightarrow> d | Some m \<Rightarrow> m)" for a and d e :: string
    by (simp add: or_else_def split: option.split)
  ultimately show ?thesis
    by (cases "forge_pending_comment_merge r"; cases "or_else (fr_merge_method r) (Some preset)")
      (auto simp: k st row forge_check_def forge_execute_def forge_cancel_def forge_request_def forge_check_auto_merge_def
        forge_check_maintainer_approvals_def evaluate_eligibility_def forge_state_def forge_method_of_def Let_def
        validate_eq some_method or_else_def split: option.splits)
qed

lemma forge_merging_gathers:
  assumes "fm_merges (forge_check preset validate sent api k s) \<noteq> fm_merges s"
  shows "\<exists>st. forge_gathered preset allowed k s st"
proof -
  obtain c n where k: "k = (c, n)" by (cases k)
  have "forge_check preset validate sent api k s = s" if "forge_get_row c n (fm_db s) = None"
    using that by (simp add: k forge_check_def forge_check_auto_merge_def)
  then have "forge_get_row c n (fm_db s) \<noteq> None" using assms by metis
  then show ?thesis by (auto simp: forge_gathered_def k)
qed

lemma forge_execute_once:
  "fm_merges (forge_execute sent api k m s) \<noteq> fm_merges s \<Longrightarrow> \<exists>x. fm_merges (forge_execute sent api k m s) = fm_merges s @ [x]"
  by (auto simp: forge_execute_def forge_merge_execute_def split: sum.splits prod.splits)

end

lemma forge_cancel_merges: "fm_merges (forge_cancel k s) = fm_merges s"
  by (auto simp: forge_cancel_def split: option.split prod.split)

sublocale forge_methods \<subseteq> evaluator: merge_evaluator
  "forge_check preset validate sent api" "forge_gathered preset allowed" "forge_execute sent api" forge_cancel fm_merges for api
  by unfold_locales (rule forge_follows forge_merging_gathers forge_cancel_merges forge_execute_once; assumption)+

interpretation gitea: forge_methods "''squash''" gitea_validate_merge_method Some "[''merge'', ''rebase'', ''squash'']"
  by unfold_locales (simp_all add: gitea_validate_merge_method_def)

interpretation gitlab: forge_methods "''merge''" gitlab_validate_merge_method "\<lambda>_. None" "[''merge'', ''rebase_merge'', ''ff'']"
  by unfold_locales (simp_all add: gitlab_validate_merge_method_def)

section \<open>What a merge on Gitea and GitLab needs\<close>

lemma forge_checks:
  "fst (gitea_handle_check_auto_merge api c n s) = forge_check ''squash'' gitea_validate_merge_method Some api (c, n) s"
  "fst (gitlab_handle_check_auto_merge api g n t) = forge_check ''merge'' gitlab_validate_merge_method (\<lambda>_. None) api (g, n) t"
  by (simp_all add: forge_check_def gitea_handle_check_auto_merge_def gitlab_handle_check_auto_merge_def)





context forge_methods
begin

lemma gates:
  assumes "fm_merges (forge_check preset validate sent api (c, n) s) \<noteq> fm_merges s"
  shows "\<exists>r method. forge_get_row c n (fm_db s) = Some r \<and> forge_head_build_succeeded c n (fm_db s) \<and>
    forge_changed_packages c n (fm_db s) \<noteq> [] \<and> method \<in> set allowed \<and>
    (case forge_pending_comment_merge r of Some q \<Rightarrow> fq_sha q = fr_head_sha r | None \<Rightarrow> fr_auto_merge_enabled r) \<and>
    fm_merges (forge_check preset validate sent api (c, n) s) = fm_merges s @ [(c, n, sent method, fa_head api)]"
proof -
  obtain st where st: "forge_gathered preset allowed (c, n) s st" "ams_build_succeeded st" "merge_basis st"
      "ams_changed_packages st \<noteq> []" "ams_allowed_merge_methods st = [] \<or> rule_method st \<in> set (ams_allowed_merge_methods st)"
    and ex: "forge_check preset validate sent api (c, n) s = forge_execute sent api (c, n) (rule_method st) s"
    using evaluator.merge_needs[OF assms] by blast
  obtain r where r: "forge_get_row c n (fm_db s) = Some r"
    and state: "st = forge_state preset allowed (forge_head_build_succeeded c n (fm_db s)) (forge_changed_packages c n (fm_db s)) r"
    using st(1) by (auto simp: forge_gathered_def)
  have merged: "fm_merges (forge_check preset validate sent api (c, n) s) = fm_merges s @ [(c, n, sent (rule_method st), fa_head api)]"
    using assms unfolding ex by (auto simp: forge_execute_def forge_merge_execute_def split: sum.splits)
  have m: "rule_method st \<in> set allowed" using st(5) some_method by (simp add: state forge_state_def)
  have "case forge_pending_comment_merge r of Some q \<Rightarrow> fq_sha q = fr_head_sha r | None \<Rightarrow> fr_auto_merge_enabled r"
    using st(3) by (auto simp: state forge_state_def merge_basis_def split: option.splits)
  then show ?thesis using r m merged st(2,4) by (intro exI[of _ r] exI[of _ "rule_method st"]) (simp add: state forge_state_def)
qed

end

text \<open>On Gitea and GitLab a merge needs a head that counts as built, changed packages, and either a pending
  request for the head in the table or automatic merging; one merge is asked for, with an
  allowed method on Gitea and without a method on GitLab.\<close>

theorem forge_merge_gates:
  "(fm_merges (fst (gitea_handle_check_auto_merge api c n s)) \<noteq> fm_merges s \<longrightarrow>
     (\<exists>r method. forge_get_row c n (fm_db s) = Some r \<and> forge_head_build_succeeded c n (fm_db s) \<and>
        forge_changed_packages c n (fm_db s) \<noteq> [] \<and> method \<in> {''merge'', ''rebase'', ''squash''} \<and>
        (case forge_pending_comment_merge r of Some q \<Rightarrow> fq_sha q = fr_head_sha r | None \<Rightarrow> fr_auto_merge_enabled r) \<and>
        fm_merges (fst (gitea_handle_check_auto_merge api c n s)) = fm_merges s @ [(c, n, Some method, fa_head api)])) \<and>
   (fm_merges (fst (gitlab_handle_check_auto_merge api g k t)) \<noteq> fm_merges t \<longrightarrow>
     (\<exists>r. forge_get_row g k (fm_db t) = Some r \<and> forge_head_build_succeeded g k (fm_db t) \<and> forge_changed_packages g k (fm_db t) \<noteq> [] \<and>
        (case forge_pending_comment_merge r of Some q \<Rightarrow> fq_sha q = fr_head_sha r | None \<Rightarrow> fr_auto_merge_enabled r) \<and>
        fm_merges (fst (gitlab_handle_check_auto_merge api g k t)) = fm_merges t @ [(g, k, None, fa_head api)]))"
proof -
  have "{''merge'', ''rebase'', ''squash''} = set [''merge'', ''rebase'', ''squash'']" by simp
  then show ?thesis unfolding forge_checks using gitea.gates[of api c n s] gitlab.gates[of api g k t] by metis
qed

text \<open>A pull request on Gitea whose only jobset has a failed job, with automatic merging.\<close>

definition ex_forge :: "'c \<Rightarrow> 'c ForgeMerger" where
  "ex_forge c = \<lparr> fm_db = \<lparr>
       fd_rows = [\<lparr> fr_scope = c, fr_number = 3, fr_head_sha = ''aa'', fr_state = ''open'', fr_auto_merge_enabled = True,
         fr_merge_method = None, fr_merged_by = None, fr_cm_sha = None, fr_cm_method = None, fr_cm_requester_id = None,
         fr_cm_requester_login = None, fr_cm_comment_id = None \<rparr>],
       fd_jobsets = [\<lparr> fj_rowid = 4, fj_scope = c, fj_sha = ''aa'' \<rparr>],
       fd_forge_jobs = [\<lparr> jbs_jobset = 4, jbs_name = ''x'', jbs_drv = ''d'', jbs_difference = DiffNew,
         jbs_state = LocalCompleted LocalFailure \<rparr>],
       fd_differences = [(4, ''hello'')],
       fd_server = \<lparr> md_prs = [], md_jobsets = [], md_jobs = [], md_differences = [], md_maintainers = [(''hello'', 12, ''u'')],
         md_check_runs = [], md_approved_users = [] \<rparr> \<rparr>,
     fm_merges = [], fm_comments = [], fm_tasks = [] \<rparr>"

definition ex_forge_api :: ForgeApi where
  "ex_forge_api = \<lparr> fa_access_level = (\<lambda>_. Inr 10), fa_permission = (\<lambda>_. Inr ''read''), fa_commit_date = (\<lambda>_. Inr None),
     fa_merge = (\<lambda>_. Inr ()), fa_head = ''aa'' \<rparr>"

lemma ex_forge_merges:
  "fm_merges (fst (gitea_handle_check_auto_merge ex_forge_api (''d'', ''o'', ''r'') 3 (ex_forge (''d'', ''o'', ''r'')))) =
     [((''d'', ''o'', ''r''), 3, Some ''squash'', ''aa'')]"
  "fm_merges (fst (gitlab_handle_check_auto_merge ex_forge_api (''d'', 8) 3 (ex_forge (''d'', 8)))) = [((''d'', 8), 3, None, ''aa'')]"
  by code_simp+

theorem forge_merge_gates_witness:
  "forge_head_build_succeeded (''d'', ''o'', ''r'') 3 (fm_db (ex_forge (''d'', ''o'', ''r''))) \<and>
   forge_changed_packages (''d'', ''o'', ''r'') 3 (fm_db (ex_forge (''d'', ''o'', ''r''))) \<noteq> []"
proof -
  have "fm_merges (ex_forge (''d'', ''o'', ''r'')) = []" by (simp add: ex_forge_def)
  then show ?thesis
    using forge_merge_gates[of ex_forge_api "(''d'', ''o'', ''r'')" 3 "ex_forge (''d'', ''o'', ''r'')" "(''d'', 8)" 3 "ex_forge (''d'', 8)"]
      ex_forge_merges(1) by auto
qed


section \<open>What the gates of Gitea and GitLab leave open\<close>

text \<open>On Gitea and GitLab the gate of a merge looks up the jobs of the head's first jobset under
  that jobset's row number in the table of GitHub's jobs: when that table has no job of the
  number, the head counts as built, whatever the forge's own job table holds.\<close>

theorem forge_gate_reads_other_jobs:
  assumes "forge_head_jobsets c n db = i # rest" "\<forall>j\<in>set (md_jobs (fd_server db)). jbs_jobset j \<noteq> i"
  shows "forge_head_build_succeeded c n (db\<lparr>fd_forge_jobs := jobs\<rparr>)"
proof -
  have "forge_head_jobsets c n (db\<lparr>fd_forge_jobs := jobs\<rparr>) = i # rest" using assms(1) by (simp add: forge_head_jobsets_def)
  moreover have "jobset_succeeded i (fd_server db)" using assms(2) by (simp add: jobset_succeeded_def)
  ultimately show ?thesis by (simp add: forge_head_build_succeeded_def concluded_succeeded)
qed

theorem forge_gate_reads_other_jobs_witness:
  "forge_head_build_succeeded (''d'', 8::int) 3 (fm_db (ex_forge (''d'', 8)))"
proof -
  let ?db = "fm_db (ex_forge (''d'', 8::int))"
  have "forge_head_jobsets (''d'', 8) 3 ?db = [4]" "\<forall>j\<in>set (md_jobs (fd_server ?db)). jbs_jobset j \<noteq> 4" "?db\<lparr>fd_forge_jobs := fd_forge_jobs ?db\<rparr> = ?db"
    by (simp_all add: ex_forge_def forge_head_jobsets_def is_row_def)
  then show ?thesis using forge_gate_reads_other_jobs[of "(''d'', 8)" 3 ?db 4 "[]" "fd_forge_jobs ?db"] by simp
qed

text \<open>Authority crosses forges by number: a GitLab user without write access may ask for a merge as soon as
  his user id there equals the GitHub id of someone who maintains every changed package.\<close>

theorem foreign_id_grants_authority:
  assumes "fa_access_level api user = Inr level" "level < 30" "forge_changed_packages g n db \<noteq> []"
    and "\<forall>p\<in>set (forge_changed_packages g n db). \<exists>github_name. (p, user, github_name) \<in> set (md_maintainers (fd_server db))"
  shows "gitlab_authorize_commenter api g n user gitlab_name db = Granted False"
proof -
  have "is_maintainer_of_all_packages user (forge_changed_packages g n db) (fd_server db)"
    using assms(3,4) by (fastforce simp: is_maintainer_of_all_packages_def is_maintainer_def list_all_iff)
  then show ?thesis using assms(1-3)
    by (simp add: gitlab_authorize_commenter_def forge_authorize_commenter_def check_project_permission_for_user_def)
qed

theorem foreign_id_grants_authority_witness:
  "gitlab_authorize_commenter ex_forge_api (''d'', 8) 3 12 ''mallory'' (fm_db (ex_forge (''d'', 8))) = Granted False"
proof -
  have "forge_changed_packages (''d'', 8::int) 3 (fm_db (ex_forge (''d'', 8))) = [''hello'']" by code_simp
  then show ?thesis
    using foreign_id_grants_authority[of ex_forge_api 12 10 "(''d'', 8)" 3 "fm_db (ex_forge (''d'', 8))" "''mallory''"]
    by (auto simp: ex_forge_def ex_forge_api_def)
qed

end
