(* ===== verification/Package_Name.thy ===== *)
theory Package_Name
  imports Drv_Id
begin

text \<open>
  UTF-8 text as bytes: character boundaries, slices that panic inside a character and
  decimal numbers; and the functions that split the name of a derivation into package name
  and version (\<open>evaluator/src/utils.rs\<close>).  \<^const>\<open>None\<close> is a panic.
\<close>

named_theorems panic_free \<open>conditions under which an operation does not panic\<close>

section \<open>Characters in bytes\<close>

definition is_continuation :: "char \<Rightarrow> bool" where
  "is_continuation c = (128 \<le> (of_char c :: nat) \<and> (of_char c :: nat) < 192)"

definition is_ascii :: "char \<Rightarrow> bool" where
  "is_ascii c = ((of_char c :: nat) < 128)"

definition is_char_boundary :: "string \<Rightarrow> nat \<Rightarrow> bool" where
  "is_char_boundary s i = (i = 0 \<or> i = length s \<or> i < length s \<and> \<not> is_continuation (s ! i))"

text \<open>\<open>&s[..i]\<close>\<close>

definition str_prefix :: "string \<Rightarrow> nat \<Rightarrow> string option" where
  "str_prefix s i = (if is_char_boundary s i then Some (take i s) else None)"

text \<open>\<open>s.chars().nth(1)\<close>, of which the callers look at the first byte only.\<close>

definition second_char :: "string \<Rightarrow> char option" where
  "second_char s = (case dropWhile is_continuation (tl s) of [] \<Rightarrow> None | c # _ \<Rightarrow> Some c)"

fun display_nat :: "nat \<Rightarrow> string" where
  "display_nat n =
     (if n < 10 then [char_of (48 + n)] else display_nat (n div 10) @ [char_of (48 + n mod 10)])"

declare display_nat.simps [simp del]

text \<open>A loop that appends to its output and may panic in every round.\<close>

fun opt_concat_map :: "('a \<Rightarrow> 'b list option) \<Rightarrow> 'a list \<Rightarrow> 'b list option" where
  "opt_concat_map f [] = Some []"
| "opt_concat_map f (x # xs) =
     (case f x of
        None \<Rightarrow> None
      | Some ys \<Rightarrow> map_option ((@) ys) (opt_concat_map f xs))"

section \<open>Names and versions\<close>

definition looks_like_version :: "string \<Rightarrow> bool option" where
  "looks_like_version s =
     (if length s < 2 then Some False
      else case second_char s of
        None \<Rightarrow> None
      | Some second \<Rightarrow>
          if (hd s = CHR ''v'' \<or> hd s = CHR ''r'') \<and> is_ascii_digit second then Some True
          else if list_ex is_ascii_digit s \<and> list_all (\<lambda>c. is_ascii_digit c \<or> c = CHR ''.'') s then Some True
          else Some (is_ascii_digit (hd s)))"

text \<open>The loop from the last part to the first, with the index found so far.\<close>

fun version_index :: "(nat \<times> string) list \<Rightarrow> nat \<Rightarrow> nat option" where
  "version_index [] k = Some k"
| "version_index ((i, part) # parts) k =
     (case looks_like_version part of
        None \<Rightarrow> None
      | Some True \<Rightarrow> version_index parts i
      | Some False \<Rightarrow> Some k)"

definition pname_from_name :: "string \<Rightarrow> string option" where
  "pname_from_name name =
     (let parts = split_on (CHR ''-'') name in
      if length parts = 1 then Some name
      else case version_index (rev (enumerate 0 parts)) (length parts) of
        None \<Rightarrow> None
      | Some keep_parts \<Rightarrow>
          if keep_parts = 0 then Some name else Some (join_with ''-'' (take keep_parts parts)))"

definition version_from_name :: "string \<Rightarrow> string option option" where
  "version_from_name name =
     (let parts = split_on (CHR ''-'') name in
      if length parts = 1 then Some None
      else case version_index (rev (enumerate 0 parts)) (length parts) of
        None \<Rightarrow> None
      | Some first_version_idx \<Rightarrow>
          if first_version_idx = 0 \<or> first_version_idx = length parts then Some None
          else Some (Some (join_with ''-'' (drop first_version_idx parts))))"

section \<open>Lemmas on text\<close>

lemma ascii_not_continuation: "is_ascii c \<Longrightarrow> \<not> is_continuation c"
  by (simp add: is_ascii_def is_continuation_def)

lemma str_prefix_all [simp]: "str_prefix s (length s) = Some s"
  by (simp add: str_prefix_def is_char_boundary_def)

lemma str_prefix_zero [simp]: "str_prefix s 0 = Some []"
  by (simp add: str_prefix_def is_char_boundary_def)

lemma str_prefix_ascii [panic_free]:
  "list_all is_ascii s \<Longrightarrow> i \<le> length s \<Longrightarrow> str_prefix s i = Some (take i s)"
  using ascii_not_continuation
  by (fastforce simp: str_prefix_def is_char_boundary_def list_all_length)

lemma str_prefix_SomeD: "str_prefix s i = Some p \<Longrightarrow> p = take i s \<and> length p \<le> length s"
  by (auto simp: str_prefix_def split: if_splits)

lemma str_prefix_None: "str_prefix s i = None \<longleftrightarrow> i \<noteq> 0 \<and> i \<noteq> length s \<and> (i < length s \<longrightarrow> is_continuation (s ! i))"
  by (auto simp: str_prefix_def is_char_boundary_def)

lemma second_char_ascii [panic_free]:
  "list_all is_ascii s \<Longrightarrow> 2 \<le> length s \<Longrightarrow> second_char s = Some (s ! 1)"
  by (cases s; cases "tl s") (auto simp: second_char_def dest: ascii_not_continuation)

lemma opt_concat_map_Some:
  "opt_concat_map f xs = Some ys \<longleftrightarrow>
     (\<forall>x\<in>set xs. f x \<noteq> None) \<and> ys = concat (map (\<lambda>x. the (f x)) xs)"
  by (induction xs arbitrary: ys) (auto split: option.split)

lemma opt_concat_map_None: "opt_concat_map f xs = None \<longleftrightarrow> (\<exists>x\<in>set xs. f x = None)"
  by (induction xs) (auto split: option.split)

lemma display_nat_not_Nil [simp]: "display_nat n \<noteq> []"
  by (subst display_nat.simps) simp

section \<open>The split of a name\<close>

lemma looks_like_version_ascii [panic_free]: "list_all is_ascii s \<Longrightarrow> looks_like_version s \<noteq> None"
  by (auto simp: looks_like_version_def second_char_ascii)

definition version_part :: "string \<Rightarrow> bool" where
  "version_part s = (looks_like_version s = Some True)"

lemma version_index_snoc:
  "version_index (rev (enumerate 0 (xs @ [x]))) k =
     (case looks_like_version x of
        None \<Rightarrow> None
      | Some True \<Rightarrow> version_index (rev (enumerate 0 xs)) (length xs)
      | Some False \<Rightarrow> Some k)"
  by (simp add: enumerate_append_eq)

lemma version_index_exact:
  assumes "list_all (list_all is_ascii) parts"
  shows "\<exists>k \<le> length parts. version_index (rev (enumerate 0 parts)) (length parts) = Some k \<and>
     list_all version_part (drop k parts) \<and> (0 < k \<longrightarrow> \<not> version_part (parts ! (k - 1)))"
  using assms
proof (induction parts rule: rev_induct)
  case Nil
  then show ?case by simp
next
  case (snoc x xs)
  then obtain b where b: "looks_like_version x = Some b"
    using looks_like_version_ascii [of x] by auto
  show ?case
  proof (cases b)
    case True
    from snoc obtain k where k: "k \<le> length xs" "version_index (rev (enumerate 0 xs)) (length xs) = Some k"
      "list_all version_part (drop k xs)" "0 < k \<longrightarrow> \<not> version_part (xs ! (k - 1))" by auto
    have "version_index (rev (enumerate 0 (xs @ [x]))) (length (xs @ [x])) = Some k"
      unfolding version_index_snoc using b True k(2) by simp
    moreover have "list_all version_part (drop k (xs @ [x]))"
      using k(1,3) b True by (simp add: version_part_def)
    moreover have "0 < k \<longrightarrow> \<not> version_part ((xs @ [x]) ! (k - 1))"
      using k(1,4) by (auto simp: nth_append)
    ultimately show ?thesis using k(1) by (intro exI [of _ k]) simp
  next
    case False
    then have "version_index (rev (enumerate 0 (xs @ [x]))) (length (xs @ [x])) = Some (length (xs @ [x]))"
      unfolding version_index_snoc using b by simp
    then show ?thesis
      using b False by (intro exI [of _ "length (xs @ [x])"]) (simp add: version_part_def nth_append)
  qed
qed

lemma set_split_on: "p \<in> set (split_on c s) \<Longrightarrow> set p \<subseteq> set s"
  by (induction c s arbitrary: p rule: split_on.induct) (auto split: if_splits list.splits, force+)

lemma split_on_ascii: "list_all is_ascii s \<Longrightarrow> list_all (list_all is_ascii) (split_on c s)"
  using set_split_on by (fastforce simp: list_all_iff)

lemma join_take_drop:
  "0 < k \<Longrightarrow> k < length xs \<Longrightarrow> join_with sep (take k xs) @ sep @ join_with sep (drop k xs) = join_with sep xs"
proof (induction xs arbitrary: k)
  case (Cons x xs)
  then show ?case
  proof (cases "k = 1")
    case True
    with Cons.prems show ?thesis by (simp add: join_with_Cons)
  next
    case False
    with Cons.prems have k: "0 < k - 1" "k - 1 < length xs" by auto
    then have "take (k - 1) xs \<noteq> []" "xs \<noteq> []" by auto
    with Cons.IH [OF k] False Cons.prems(1) show ?thesis
      by (simp add: join_with_Cons take_Cons' drop_Cons')
  qed
qed simp

text \<open>Name and version of every ASCII name are the parts before and after one hyphen: the
  longest run of version-like parts at the end, unless that is nothing or everything.\<close>

lemma name_split:
  assumes "list_all is_ascii name"
  shows "\<exists>p v. pname_from_name name = Some p \<and> version_from_name name = Some v \<and>
     (case v of
        None \<Rightarrow> p = name \<and>
          (length (split_on (CHR ''-'') name) = 1 \<or> list_all version_part (split_on (CHR ''-'') name) \<or>
           \<not> version_part (last (split_on (CHR ''-'') name)))
      | Some w \<Rightarrow> name = p @ ''-'' @ w \<and> list_all version_part (split_on (CHR ''-'') w) \<and>
          \<not> version_part (last (split_on (CHR ''-'') p)))"
proof -
  define parts where "parts = split_on (CHR ''-'') name"
  have join: "join_with ''-'' parts = name" by (simp add: parts_def)
  obtain k where k: "k \<le> length parts" "version_index (rev (enumerate 0 parts)) (length parts) = Some k"
    "list_all version_part (drop k parts)" "0 < k \<longrightarrow> \<not> version_part (parts ! (k - 1))"
    using version_index_exact [OF split_on_ascii [OF assms]] parts_def by blast
  have free: "\<forall>p\<in>set parts. CHR ''-'' \<notin> set p" using split_on_free unfolding parts_def by blast
  consider "length parts = 1" | "length parts \<noteq> 1" "k = 0" | "length parts \<noteq> 1" "k = length parts"
    | "length parts \<noteq> 1" "0 < k" "k < length parts" using k(1) by linarith
  then show ?thesis
  proof cases
    case 1
    then show ?thesis using parts_def by (simp add: pname_from_name_def version_from_name_def)
  next
    case 2
    with k show ?thesis
      by (auto simp: pname_from_name_def version_from_name_def simp flip: parts_def)
  next
    case 3
    moreover have "parts \<noteq> []" by (simp add: parts_def)
    ultimately show ?thesis
      using k join by (auto simp: pname_from_name_def version_from_name_def last_conv_nth simp flip: parts_def)
  next
    case 4
    have split: "split_on (CHR ''-'') (join_with ''-'' (take k parts)) = take k parts"
      "split_on (CHR ''-'') (join_with ''-'' (drop k parts)) = drop k parts"
      using 4 free by (auto intro!: split_on_join dest: in_set_takeD in_set_dropD)
    have "last (take k parts) = parts ! (k - 1)" using 4 by (subst last_conv_nth) auto
    with 4 k split show ?thesis
      using join_take_drop [of k parts "''-''"] join
      by (simp add: pname_from_name_def version_from_name_def flip: parts_def)
  qed
qed

end
