(* ===== verification/Classify.thy ===== *)
theory Classify
  imports Package_Name Database Auto_Merge
begin

text \<open>
  The classification of package changes (\<open>change_summary/src/classify.rs\<close>,
  \<open>change_summary/src/types.rs\<close>): the rows of two jobsets are joined by attribute path and
  compared.  The JSON parser is an argument (\<open>SummaryJson\<close>); \<^const>\<open>None\<close> is a panic.
\<close>

section \<open>Types\<close>

datatype PackageChange =
    Added (change_attr_path: string) "string option" "string option" DrvId
  | Removed (change_attr_path: string) "string option" "string option"
  | VersionBump (change_attr_path: string) string string string DrvId
  | Renamed (change_attr_path: string) string string "string option" DrvId
  | RebuildOnly (change_attr_path: string) "string option" "string option" DrvId
  | LicenseChange (change_attr_path: string) string "string list" "string list" DrvId
  | MaintainerChange (change_attr_path: string) string "string list" "string list" DrvId

fun change_kind :: "PackageChange \<Rightarrow> string" where
  "change_kind (Added _ _ _ _) = ''Added''"
| "change_kind (Removed _ _ _) = ''Removed''"
| "change_kind (VersionBump _ _ _ _ _) = ''VersionBump''"
| "change_kind (Renamed _ _ _ _ _) = ''Renamed''"
| "change_kind (RebuildOnly _ _ _ _) = ''RebuildOnly''"
| "change_kind (LicenseChange _ _ _ _ _) = ''LicenseChange''"
| "change_kind (MaintainerChange _ _ _ _ _) = ''MaintainerChange''"

record JobDrvRow =
  jd_attr_path :: string
  jd_drv_path :: DrvId
  jd_name :: string
  jd_pname :: "string option"
  jd_version :: "string option"
  jd_license_json :: "string option"
  jd_maintainers_json :: "string option"

record LicenseEntryPartial =
  le_spdx_id :: "string option"
  le_short_name :: "string option"
  le_full_name :: "string option"

record MaintainerPartial =
  mp_github :: "string option"
  mp_name :: "string option"
  mp_email :: "string option"

text \<open>\<open>serde_json::from_str\<close> at the two types; \<^const>\<open>None\<close> is its error.\<close>

record SummaryJson =
  sj_licenses :: "string \<Rightarrow> LicenseEntryPartial list option"
  sj_maintainers :: "string \<Rightarrow> MaintainerPartial list option"

section \<open>Rows\<close>

definition pname_or_heuristic :: "JobDrvRow \<Rightarrow> string option option" where
  "pname_or_heuristic r =
     (case jd_pname r of
        Some p \<Rightarrow> if p \<noteq> [] then Some (Some p)
                  else if jd_name r = [] then Some None else map_option Some (pname_from_name (jd_name r))
      | None \<Rightarrow> if jd_name r = [] then Some None else map_option Some (pname_from_name (jd_name r)))"

definition version_or_heuristic :: "JobDrvRow \<Rightarrow> string option option" where
  "version_or_heuristic r =
     (case jd_version r of
        Some v \<Rightarrow> if v \<noteq> [] then Some (Some v)
                  else if jd_name r = [] then Some None else version_from_name (jd_name r)
      | None \<Rightarrow> if jd_name r = [] then Some None else version_from_name (jd_name r))"

definition drv_name_from_path :: "string \<Rightarrow> string" where
  "drv_name_from_path path =
     (let after_store = last (split_on (CHR ''/'') path);
          no_drv = (case strip_suffix_str ''.drv'' after_store of Some s \<Rightarrow> s | None \<Rightarrow> after_store)
      in case split_once (CHR ''-'') no_drv of
           Some (_, rest) \<Rightarrow> rest
         | None \<Rightarrow> no_drv)"

fun collect_results :: "('a \<Rightarrow> (anyhow, 'b) result) \<Rightarrow> 'a list \<Rightarrow> (anyhow, 'b list) result" where
  "collect_results f [] = Inr []"
| "collect_results f (x # xs) =
     (case f x of
        Inl e \<Rightarrow> Inl e
      | Inr y \<Rightarrow> (case collect_results f xs of Inl e \<Rightarrow> Inl e | Inr ys \<Rightarrow> Inr (y # ys)))"

text \<open>The join of \<open>Job\<close> and \<open>Drv\<close>: a job row names its drv by path.\<close>

definition join_job_drv :: "JobOfSet list \<Rightarrow> LocalDrv list \<Rightarrow> (JobOfSet \<times> LocalDrv) list" where
  "join_job_drv jobs drvs =
     concat (map (\<lambda>j. map (Pair j) (filter (\<lambda>d. ld_drv_path d = jbs_drv j) drvs)) jobs)"

definition to_job_drv_row :: "JobOfSet \<times> LocalDrv \<Rightarrow> (anyhow, JobDrvRow) result" where
  "to_job_drv_row = (\<lambda>(j, d).
     case DrvId_try_from (ld_drv_path d) of
       Inl _ \<Rightarrow> Inl ''Invalid drv_path in DB''
     | Inr path \<Rightarrow> Inr \<lparr> jd_attr_path = jbs_name j, jd_drv_path = path,
         jd_name = drv_name_from_path (ld_drv_path d), jd_pname = ld_pname d, jd_version = ld_version d,
         jd_license_json = ld_license_json d, jd_maintainers_json = ld_maintainers_json d \<rparr>)"

definition load_job_drv_rows :: "JobOfSet list \<Rightarrow> LocalDrv list \<Rightarrow> int \<Rightarrow> (anyhow, JobDrvRow list) result" where
  "load_job_drv_rows jobs drvs jobset_id =
     collect_results to_job_drv_row (join_job_drv (filter (\<lambda>j. jbs_jobset j = jobset_id) jobs) drvs)"

section \<open>Licenses and maintainers\<close>

definition license_label :: "LicenseEntryPartial \<Rightarrow> string" where
  "license_label e =
     (case le_spdx_id e of Some l \<Rightarrow> l
      | None \<Rightarrow> (case le_short_name e of Some l \<Rightarrow> l
        | None \<Rightarrow> (case le_full_name e of Some l \<Rightarrow> l | None \<Rightarrow> ''<unknown license>'')))"

definition parse_license_labels :: "SummaryJson \<Rightarrow> string option \<Rightarrow> string list" where
  "parse_license_labels J json =
     (case json of
        None \<Rightarrow> []
      | Some s \<Rightarrow>
          let entries = (case sj_licenses J s of Some es \<Rightarrow> es | None \<Rightarrow> [])
          in remdups_adj (sort (map license_label entries)))"

definition diff_license :: "SummaryJson \<Rightarrow> string option \<Rightarrow> string option \<Rightarrow> (string list \<times> string list) option" where
  "diff_license J head base =
     (let head_labels = parse_license_labels J head; base_labels = parse_license_labels J base
      in if head_labels = base_labels then None else Some (base_labels, head_labels))"

definition maintainer_label :: "MaintainerPartial \<Rightarrow> string option" where
  "maintainer_label m =
     (case mp_github m of Some l \<Rightarrow> Some l
      | None \<Rightarrow> (case mp_name m of Some l \<Rightarrow> Some l | None \<Rightarrow> mp_email m))"

text \<open>A \<open>BTreeSet\<close> is its elements in order.\<close>

definition parse_maintainer_labels :: "SummaryJson \<Rightarrow> string option \<Rightarrow> string list" where
  "parse_maintainer_labels J json =
     (case json of
        None \<Rightarrow> []
      | Some s \<Rightarrow>
          let entries = (case sj_maintainers J s of Some es \<Rightarrow> es | None \<Rightarrow> [])
          in sort (remdups (filter (\<lambda>l. l \<noteq> []) (List.map_filter maintainer_label entries))))"

definition diff_maintainers :: "SummaryJson \<Rightarrow> string option \<Rightarrow> string option \<Rightarrow> (string list \<times> string list) option" where
  "diff_maintainers J head base =
     (let head_set = parse_maintainer_labels J head; base_set = parse_maintainer_labels J base in
      if head_set = base_set then None
      else let added = filter (\<lambda>l. l \<notin> set base_set) head_set;
               removed = filter (\<lambda>l. l \<notin> set head_set) base_set
           in if added = [] \<and> removed = [] then None else Some (sort added, sort removed))"

section \<open>Classification\<close>

definition primary_change ::
  "JobDrvRow \<Rightarrow> string option \<Rightarrow> string option \<Rightarrow> string option \<Rightarrow> string option \<Rightarrow> PackageChange" where
  "primary_change head hp bp hv bv =
     (if hp \<noteq> None \<and> bp \<noteq> None \<and> hp \<noteq> bp
      then Renamed (jd_attr_path head) (the bp) (the hp) hv (jd_drv_path head)
      else if hv \<noteq> bv \<and> hv \<noteq> None \<and> bv \<noteq> None
      then VersionBump (jd_attr_path head) (case hp of Some p \<Rightarrow> p | None \<Rightarrow> jd_attr_path head)
             (the bv) (the hv) (jd_drv_path head)
      else RebuildOnly (jd_attr_path head) hp hv (jd_drv_path head))"

definition license_changes :: "SummaryJson \<Rightarrow> string option \<Rightarrow> JobDrvRow \<Rightarrow> JobDrvRow \<Rightarrow> PackageChange list" where
  "license_changes J pname head base =
     (case pname of
        Some p \<Rightarrow>
          if jd_license_json head = jd_license_json base then []
          else (case diff_license J (jd_license_json head) (jd_license_json base) of
                  Some (old, new) \<Rightarrow> [LicenseChange (jd_attr_path head) p old new (jd_drv_path head)]
                | None \<Rightarrow> [])
      | None \<Rightarrow> [])"

definition maintainer_changes :: "SummaryJson \<Rightarrow> string option \<Rightarrow> JobDrvRow \<Rightarrow> JobDrvRow \<Rightarrow> PackageChange list" where
  "maintainer_changes J pname head base =
     (case pname of
        Some p \<Rightarrow>
          if jd_maintainers_json head = jd_maintainers_json base then []
          else (case diff_maintainers J (jd_maintainers_json head) (jd_maintainers_json base) of
                  Some (added, removed) \<Rightarrow> [MaintainerChange (jd_attr_path head) p added removed (jd_drv_path head)]
                | None \<Rightarrow> [])
      | None \<Rightarrow> [])"

definition classify_changed :: "SummaryJson \<Rightarrow> JobDrvRow \<Rightarrow> JobDrvRow \<Rightarrow> PackageChange list option" where
  "classify_changed J head base =
     (case (pname_or_heuristic head, pname_or_heuristic base,
            version_or_heuristic head, version_or_heuristic base) of
        (Some head_pname, Some base_pname, Some head_version, Some base_version) \<Rightarrow>
          let pname_changed = (head_pname \<noteq> None \<and> base_pname \<noteq> None \<and> head_pname \<noteq> base_pname);
              pname = (if pname_changed then None else head_pname)
          in Some (primary_change head head_pname base_pname head_version base_version #
                   license_changes J pname head base @ maintainer_changes J pname head base)
      | _ \<Rightarrow> None)"

definition by_attr :: "JobDrvRow list \<Rightarrow> (string \<times> JobDrvRow) list" where
  "by_attr rows = fold (\<lambda>r. bt_insert (jd_attr_path r) r) rows []"

definition head_changes :: "SummaryJson \<Rightarrow> (string \<times> JobDrvRow) list \<Rightarrow> string \<times> JobDrvRow \<Rightarrow> PackageChange list option" where
  "head_changes J base_by_attr = (\<lambda>(attr, head_row).
     case map_of base_by_attr attr of
       None \<Rightarrow>
         (case (pname_or_heuristic head_row, version_or_heuristic head_row) of
            (Some p, Some v) \<Rightarrow> Some [Added (jd_attr_path head_row) p v (jd_drv_path head_row)]
          | _ \<Rightarrow> None)
     | Some base_row \<Rightarrow>
         if jd_drv_path head_row = jd_drv_path base_row then Some []
         else classify_changed J head_row base_row)"

definition base_changes :: "(string \<times> JobDrvRow) list \<Rightarrow> string \<times> JobDrvRow \<Rightarrow> PackageChange list option" where
  "base_changes head_by_attr = (\<lambda>(attr, base_row).
     if map_of head_by_attr attr \<noteq> None then Some []
     else (case (pname_or_heuristic base_row, version_or_heuristic base_row) of
             (Some p, Some v) \<Rightarrow> Some [Removed (jd_attr_path base_row) p v]
           | _ \<Rightarrow> None))"

definition compute_package_changes ::
  "SummaryJson \<Rightarrow> JobDrvRow list \<Rightarrow> JobDrvRow list \<Rightarrow> (PackageChange list \<times> bool) option" where
  "compute_package_changes J head base =
     (let head_by_attr = by_attr head; base_by_attr = by_attr base;
          metadata_available = list_ex (\<lambda>r. jd_pname r \<noteq> None \<or> jd_version r \<noteq> None) (head @ base)
      in case opt_concat_map (head_changes J base_by_attr) head_by_attr of
           None \<Rightarrow> None
         | Some out \<Rightarrow>
             (case opt_concat_map (base_changes head_by_attr) base_by_attr of
                None \<Rightarrow> None
              | Some removed \<Rightarrow> Some (out @ removed, metadata_available)))"

lemma collect_results_mem:
  "collect_results f xs = Inr ys \<Longrightarrow> y \<in> set ys \<Longrightarrow> \<exists>x\<in>set xs. f x = Inr y"
  by (induction xs arbitrary: ys) (auto split: sum.splits)

section \<open>Ordered maps\<close>

lemma bt_insert_sorted:
  assumes "sorted_wrt (<) (map fst m)"
  shows "sorted_wrt (<) (map fst (bt_insert k v m))"
proof -
  have "sorted (map fst (filter (\<lambda>(k', _). k' \<noteq> k) m))" "distinct (map fst (filter (\<lambda>(k', _). k' \<noteq> k) m))"
    using assms sorted_filter [of fst m] by (auto simp: strict_sorted_iff intro: distinct_map_filter)
  moreover have "k \<notin> fst ` set (filter (\<lambda>(k', _). k' \<noteq> k) m)" by auto
  ultimately show ?thesis
    unfolding strict_sorted_iff bt_insert_def
    by (simp add: sorted_insort_key distinct_map set_insort_key inj_on_def distinct_insort)
qed

lemma set_bt_insert: "set (bt_insert k v m) = insert (k, v) {x \<in> set m. fst x \<noteq> k}"
  by (auto simp: bt_insert_def set_insort_key)

definition last_row :: "JobDrvRow list \<Rightarrow> string \<Rightarrow> JobDrvRow option" where
  "last_row rows a = find (\<lambda>r. jd_attr_path r = a) (rev rows)"

lemma by_attr_snoc: "by_attr (rows @ [r]) = bt_insert (jd_attr_path r) r (by_attr rows)"
  by (simp add: by_attr_def)

lemma by_attr_sorted: "sorted_wrt (<) (map fst (by_attr rows))"
  by (induction rows rule: rev_induct) (simp_all only: by_attr_snoc bt_insert_sorted, simp add: by_attr_def)

lemma map_of_by_attr: "map_of (by_attr rows) a = last_row rows a"
  by (induction rows rule: rev_induct)
    (simp_all add: by_attr_snoc map_of_bt_insert last_row_def, simp add: by_attr_def)

lemma last_row_Some: "last_row rows a = Some r \<Longrightarrow> r \<in> set rows \<and> jd_attr_path r = a"
  unfolding last_row_def find_Some_iff by (metis length_rev nth_mem set_rev)

lemma in_by_attr: "(a, r) \<in> set (by_attr rows) \<longleftrightarrow> last_row rows a = Some r"
  using by_attr_sorted [of rows] map_of_by_attr [of rows a]
  by (auto simp: strict_sorted_iff map_of_eq_Some_iff)

lemmas by_attr_simps = map_of_by_attr in_by_attr

lemma filter_concat_key:
  assumes "distinct (map fst m)" "\<And>k r c. (k, r) \<in> set m \<Longrightarrow> c \<in> set (g (k, r)) \<Longrightarrow> key c = k"
  shows "filter (\<lambda>c. key c = a) (concat (map g m)) = (case map_of m a of None \<Rightarrow> [] | Some r \<Rightarrow> g (a, r))"
  using assms
proof (induction m)
  case (Cons x m)
  obtain k r where x: "x = (k, r)" by (cases x)
  have own: "filter (\<lambda>c. key c = a) (g (k, r)) = (if k = a then g (k, r) else [])"
    using Cons.prems(2) [of k r] x by (auto simp: filter_id_conv filter_empty_conv)
  have "map_of m k = None" using Cons.prems(1) x by (simp add: map_of_eq_None_iff)
  moreover have "filter (\<lambda>c. key c = a) (concat (map g m)) = (case map_of m a of None \<Rightarrow> [] | Some r \<Rightarrow> g (a, r))"
    using Cons.prems by (intro Cons.IH) auto
  ultimately show ?case using own x by auto
qed simp

lemma sorted_concat_key:
  assumes "sorted_wrt (<) (map fst m)" "\<And>k r c. (k, r) \<in> set m \<Longrightarrow> c \<in> set (g (k, r)) \<Longrightarrow> key c = (k :: 'k::linorder)"
  shows "sorted (map key (concat (map g m)))"
  using assms
proof (induction m)
  case (Cons x m)
  obtain k r where x: "x = (k, r)" by (cases x)
  have "\<forall>c\<in>set (g (k, r)). key c = k" using Cons.prems(2) [of k r] x by auto
  then have "map key (g (k, r)) = replicate (length (g (k, r))) k" by (simp add: map_eq_conv flip: map_replicate_const)
  moreover have "sorted (map key (concat (map g m)))" using Cons.prems by (intro Cons.IH) auto
  moreover have "\<forall>c\<in>set (concat (map g m)). k \<le> key c"
    using Cons.prems x by (fastforce simp: less_imp_le)
  ultimately show ?case using x by (auto simp: sorted_append)
qed simp

section \<open>What the classification reports\<close>

definition row_pname :: "JobDrvRow \<Rightarrow> string option" where
  "row_pname r = the (pname_or_heuristic r)"

definition row_version :: "JobDrvRow \<Rightarrow> string option" where
  "row_version r = the (version_or_heuristic r)"

lemma row_names [panic_free]:
  assumes "list_all is_ascii (jd_name r)"
  shows "pname_or_heuristic r = Some (row_pname r)" "version_or_heuristic r = Some (row_version r)"
  using name_split [OF assms]
  by (auto simp: row_pname_def row_version_def pname_or_heuristic_def version_or_heuristic_def split: option.splits)

fun is_primary :: "PackageChange \<Rightarrow> bool" where
  "is_primary (LicenseChange _ _ _ _ _) = False"
| "is_primary (MaintainerChange _ _ _ _ _) = False"
| "is_primary _ = True"

text \<open>The entry that describes what happened to an attribute, from its rows in head and base.\<close>

fun primary_spec :: "JobDrvRow option \<Rightarrow> JobDrvRow option \<Rightarrow> PackageChange list" where
  "primary_spec None None = []"
| "primary_spec (Some h) None = [Added (jd_attr_path h) (row_pname h) (row_version h) (jd_drv_path h)]"
| "primary_spec None (Some b) = [Removed (jd_attr_path b) (row_pname b) (row_version b)]"
| "primary_spec (Some h) (Some b) =
     (if jd_drv_path h = jd_drv_path b then []
      else case (row_pname h, row_pname b, row_version h, row_version b) of
        (Some p, Some q, v, w) \<Rightarrow>
          (if p \<noteq> q then [Renamed (jd_attr_path h) q p v (jd_drv_path h)]
           else case (v, w) of
             (Some x, Some y) \<Rightarrow>
               if x \<noteq> y then [VersionBump (jd_attr_path h) p y x (jd_drv_path h)]
               else [RebuildOnly (jd_attr_path h) (Some p) v (jd_drv_path h)]
           | _ \<Rightarrow> [RebuildOnly (jd_attr_path h) (Some p) v (jd_drv_path h)])
      | (p, _, Some x, Some y) \<Rightarrow>
          if x \<noteq> y then [VersionBump (jd_attr_path h) (case p of Some n \<Rightarrow> n | None \<Rightarrow> jd_attr_path h) y x (jd_drv_path h)]
          else [RebuildOnly (jd_attr_path h) p (Some x) (jd_drv_path h)]
      | (p, _, v, _) \<Rightarrow> [RebuildOnly (jd_attr_path h) p v (jd_drv_path h)])"

text \<open>The package name under which license and maintainers are compared.\<close>

definition same_package :: "JobDrvRow \<Rightarrow> JobDrvRow \<Rightarrow> string option" where
  "same_package h b =
     (if jd_drv_path h = jd_drv_path b \<or> row_pname b \<notin> {None, row_pname h} then None else row_pname h)"

definition attr_changes :: "SummaryJson \<Rightarrow> JobDrvRow option \<Rightarrow> JobDrvRow option \<Rightarrow> PackageChange list" where
  "attr_changes J h b =
     primary_spec h b @
     (case (h, b) of
        (Some h, Some b) \<Rightarrow> license_changes J (same_package h b) h b @ maintainer_changes J (same_package h b) h b
      | _ \<Rightarrow> [])"

lemma primary_change_spec:
  "jd_drv_path h \<noteq> jd_drv_path b \<Longrightarrow>
   [primary_change h (row_pname h) (row_pname b) (row_version h) (row_version b)] = primary_spec (Some h) (Some b)"
  by (auto simp: primary_change_def split: option.split)

lemma classify_changed_eq:
  assumes "list_all is_ascii (jd_name h)" "list_all is_ascii (jd_name b)" "jd_drv_path h \<noteq> jd_drv_path b"
  shows "classify_changed J h b = Some (attr_changes J (Some h) (Some b))"
proof -
  have "(if row_pname h \<noteq> None \<and> row_pname b \<noteq> None \<and> row_pname h \<noteq> row_pname b then None else row_pname h) =
    same_package h b" using assms(3) by (auto simp: same_package_def)
  then show ?thesis
    using assms primary_change_spec [OF assms(3)]
    by (simp add: classify_changed_def row_names attr_changes_def Let_def del: primary_spec.simps)
qed

lemma head_changes_eq:
  assumes "list_all is_ascii (jd_name h)" "\<And>b. b \<in> set base \<Longrightarrow> list_all is_ascii (jd_name b)"
  shows "head_changes J (by_attr base) (a, h) = Some (attr_changes J (Some h) (last_row base a))"
proof (cases "last_row base a")
  case (Some b)
  then have "list_all is_ascii (jd_name b)" using assms(2) last_row_Some by blast
  then show ?thesis
    using Some assms(1)
    by (auto simp: head_changes_def by_attr_simps classify_changed_eq,
        simp add: attr_changes_def same_package_def license_changes_def maintainer_changes_def)
qed (simp add: head_changes_def by_attr_simps row_names assms attr_changes_def)

lemma base_changes_eq:
  assumes "list_all is_ascii (jd_name b)"
  shows "base_changes (by_attr head) (a, b) = Some (if last_row head a = None then primary_spec None (Some b) else [])"
  using assms by (simp add: base_changes_def by_attr_simps row_names)

text \<open>The comparison of the JSON texts is a shortcut: what decides is the label sets.\<close>

definition license_labels :: "SummaryJson \<Rightarrow> JobDrvRow \<Rightarrow> string list" where
  "license_labels J r = parse_license_labels J (jd_license_json r)"

definition maintainer_labels :: "SummaryJson \<Rightarrow> JobDrvRow \<Rightarrow> string list" where
  "maintainer_labels J r = parse_maintainer_labels J (jd_maintainers_json r)"

lemma sorted_remdups_adj_distinct: "sorted xs \<Longrightarrow> distinct (remdups_adj xs)"
  by (induction xs rule: remdups_adj.induct) (auto simp: order.antisym)

lemma license_labels_sorted: "sorted (license_labels J r) \<and> distinct (license_labels J r)"
  by (auto simp: license_labels_def parse_license_labels_def Let_def sorted_remdups_adj
      sorted_remdups_adj_distinct split: option.split)

lemma maintainer_labels_sorted: "sorted (maintainer_labels J r) \<and> distinct (maintainer_labels J r)"
  by (auto simp: maintainer_labels_def parse_maintainer_labels_def Let_def split: option.split)

lemma license_changes_eq:
  "license_changes J pn h b =
     (case pn of
        None \<Rightarrow> []
      | Some p \<Rightarrow>
          if set (license_labels J h) = set (license_labels J b) then []
          else [LicenseChange (jd_attr_path h) p (license_labels J b) (license_labels J h) (jd_drv_path h)])"
proof -
  have "set (license_labels J h) = set (license_labels J b) \<longleftrightarrow> license_labels J h = license_labels J b"
    by (metis license_labels_sorted sorted_distinct_set_unique)
  moreover have "license_changes J pn h b = (case pn of None \<Rightarrow> [] | Some p \<Rightarrow>
      if license_labels J h = license_labels J b then []
      else [LicenseChange (jd_attr_path h) p (license_labels J b) (license_labels J h) (jd_drv_path h)])"
    by (cases "jd_license_json h = jd_license_json b"; cases pn)
      (simp_all add: license_changes_def diff_license_def license_labels_def)
  ultimately show ?thesis by (cases pn) simp_all
qed

lemma maintainer_changes_eq:
  "maintainer_changes J pn h b =
     (case pn of
        None \<Rightarrow> []
      | Some p \<Rightarrow>
          if set (maintainer_labels J h) = set (maintainer_labels J b) then []
          else [MaintainerChange (jd_attr_path h) p
                  (filter (\<lambda>l. l \<notin> set (maintainer_labels J b)) (maintainer_labels J h))
                  (filter (\<lambda>l. l \<notin> set (maintainer_labels J h)) (maintainer_labels J b)) (jd_drv_path h)])"
proof -
  have sort: "sort (filter P (maintainer_labels J r)) = filter P (maintainer_labels J r)" for P r
    using maintainer_labels_sorted by (intro sorted_sort_id sorted_wrt_filter) simp
  have eq: "set (maintainer_labels J h) = set (maintainer_labels J b) \<longleftrightarrow> maintainer_labels J h = maintainer_labels J b"
    by (metis maintainer_labels_sorted sorted_distinct_set_unique)
  show ?thesis
  proof (cases "maintainer_labels J h = maintainer_labels J b")
    case True
    then show ?thesis
      by (cases pn) (simp_all add: maintainer_changes_def diff_maintainers_def flip: maintainer_labels_def)
  next
    case False
    then have json: "jd_maintainers_json h \<noteq> jd_maintainers_json b" by (auto simp: maintainer_labels_def)
    from False eq obtain l where
      "l \<in> set (filter (\<lambda>l. l \<notin> set (maintainer_labels J b)) (maintainer_labels J h)) \<or>
       l \<in> set (filter (\<lambda>l. l \<notin> set (maintainer_labels J h)) (maintainer_labels J b))" by auto
    then have "\<not> (filter (\<lambda>l. l \<notin> set (maintainer_labels J b)) (maintainer_labels J h) = [] \<and>
      filter (\<lambda>l. l \<notin> set (maintainer_labels J h)) (maintainer_labels J b) = [])" by (metis empty_iff list.set(1))
    then have "diff_maintainers J (jd_maintainers_json h) (jd_maintainers_json b) =
       Some (filter (\<lambda>l. l \<notin> set (maintainer_labels J b)) (maintainer_labels J h),
             filter (\<lambda>l. l \<notin> set (maintainer_labels J h)) (maintainer_labels J b))"
      unfolding diff_maintainers_def maintainer_labels_def [symmetric] Let_def sort if_not_P [OF False] by (rule if_not_P)
    then show ?thesis
      using False json by (cases pn) (simp_all add: maintainer_changes_def eq)
  qed
qed

lemma primary_spec_key: "c \<in> set (primary_spec (Some h) b) \<Longrightarrow> change_attr_path c = jd_attr_path h"
  by (cases b) (auto split: option.splits if_splits)

lemma primary_spec_primary: "c \<in> set (primary_spec h b) \<Longrightarrow> is_primary c"
  by (cases h; cases b) (auto split: option.splits if_splits)

lemma attr_changes_key: "c \<in> set (attr_changes J (Some h) b) \<Longrightarrow> change_attr_path c = jd_attr_path h"
  by (auto simp: attr_changes_def license_changes_eq maintainer_changes_eq
      split: option.splits if_splits dest: primary_spec_key simp del: primary_spec.simps)

lemma attr_changes_primary: "filter is_primary (attr_changes J h b) = primary_spec h b"
proof -
  have "filter is_primary (primary_spec h b) = primary_spec h b"
    by (rule filter_True) (blast intro: primary_spec_primary)
  then show ?thesis
    by (auto simp: attr_changes_def license_changes_eq maintainer_changes_eq simp del: primary_spec.simps
        split: option.split)
qed

text \<open>The whole output, from the rows of each attribute.\<close>

lemma compute_package_changes_eq:
  assumes "list_all (\<lambda>r. list_all is_ascii (jd_name r)) (head @ base)"
  shows "compute_package_changes J head base =
     Some (concat (map (\<lambda>(a, h). attr_changes J (Some h) (last_row base a)) (by_attr head)) @
           concat (map (\<lambda>(a, b). if last_row head a = None then primary_spec None (Some b) else []) (by_attr base)),
           list_ex (\<lambda>r. jd_pname r \<noteq> None \<or> jd_version r \<noteq> None) (head @ base))"
proof -
  have ok: "list_all is_ascii (jd_name r)" if "r \<in> set head \<or> r \<in> set base" for r
    using assms that by (auto simp: list_all_iff)
  have h: "head_changes J (by_attr base) x = Some ((\<lambda>(a, h). attr_changes J (Some h) (last_row base a)) x)"
    if "x \<in> set (by_attr head)" for x
  proof -
    obtain a h where x: "x = (a, h)" by (cases x)
    with that have "h \<in> set head" using last_row_Some by (simp add: in_by_attr)
    with x ok show ?thesis by (simp add: head_changes_eq)
  qed
  have b: "base_changes (by_attr head) x =
      Some ((\<lambda>(a, b). if last_row head a = None then primary_spec None (Some b) else []) x)"
    if "x \<in> set (by_attr base)" for x
  proof -
    obtain a b where x: "x = (a, b)" by (cases x)
    with that have "b \<in> set base" using last_row_Some by (simp add: in_by_attr)
    with x ok show ?thesis by (simp add: base_changes_eq)
  qed
  have "opt_concat_map (head_changes J (by_attr base)) (by_attr head) =
      Some (concat (map (\<lambda>(a, h). attr_changes J (Some h) (last_row base a)) (by_attr head)))"
    unfolding opt_concat_map_Some using h by (auto intro!: arg_cong [of _ _ concat])
  moreover have "opt_concat_map (base_changes (by_attr head)) (by_attr base) =
      Some (concat (map (\<lambda>(a, b). if last_row head a = None then primary_spec None (Some b) else []) (by_attr base)))"
    unfolding opt_concat_map_Some using b by (auto intro!: arg_cong [of _ _ concat] simp del: primary_spec.simps)
  ultimately show ?thesis by (simp add: compute_package_changes_def Let_def)
qed

lemma changes_of_attr:
  assumes "list_all (\<lambda>r. list_all is_ascii (jd_name r)) (head @ base)"
    "compute_package_changes J head base = Some (out, avail)"
  shows "filter (\<lambda>c. change_attr_path c = a) out = attr_changes J (last_row head a) (last_row base a)"
proof -
  let ?h = "\<lambda>(a, h). attr_changes J (Some h) (last_row base a)"
  let ?b = "\<lambda>(a, b). if last_row head a = None then primary_spec None (Some b) else []"
  have keys: "distinct (map fst (by_attr rows))" for rows
    using by_attr_sorted [of rows] by (simp add: strict_sorted_iff)
  have out: "out = concat (map ?h (by_attr head)) @ concat (map ?b (by_attr base))"
    using assms(2) unfolding compute_package_changes_eq [OF assms(1)] option.inject prod.inject by (rule conjE) (rule sym)
  have head: "filter (\<lambda>c. change_attr_path c = a) (concat (map ?h (by_attr head))) =
      (case last_row head a of None \<Rightarrow> [] | Some h \<Rightarrow> attr_changes J (Some h) (last_row base a))"
    using filter_concat_key [OF keys, of head ?h change_attr_path a] last_row_Some attr_changes_key
    by (fastforce simp: by_attr_simps)
  have base: "filter (\<lambda>c. change_attr_path c = a) (concat (map ?b (by_attr base))) =
      (case last_row base a of None \<Rightarrow> [] | Some b \<Rightarrow> if last_row head a = None then primary_spec None (Some b) else [])"
    using filter_concat_key [OF keys, of base ?b change_attr_path a] last_row_Some
    by (fastforce simp: by_attr_simps)
  show ?thesis
    unfolding out filter_append head base
    by (cases "last_row head a"; cases "last_row base a") (simp_all add: attr_changes_def)
qed

lemma changes_in_attr:
  assumes "list_all (\<lambda>r. list_all is_ascii (jd_name r)) (head @ base)"
    "compute_package_changes J head base = Some (out, avail)"
  shows "c \<in> set out \<longleftrightarrow>
     c \<in> set (attr_changes J (last_row head (change_attr_path c)) (last_row base (change_attr_path c)))"
  unfolding changes_of_attr [OF assms, symmetric] by simp

lemma ancillary_in_attr_changes:
  "\<not> is_primary c \<Longrightarrow> c \<in> set (attr_changes J h b) \<longleftrightarrow>
     (\<exists>h' b'. h = Some h' \<and> b = Some b' \<and>
        (c \<in> set (license_changes J (same_package h' b') h' b') \<or>
         c \<in> set (maintainer_changes J (same_package h' b') h' b')))"
  using primary_spec_primary [of c h b] by (cases h; cases b) (auto simp: attr_changes_def)

text \<open>C15: For derivation names in ASCII (the only ones Nix has) the classification does not
  panic, and: an attribute path gets exactly one primary entry when its derivation differs
  between base and head or is missing on one side, none otherwise, and its kind and fields
  are those of the rows; a license entry is there exactly when the package kept its name and
  its set of licenses changed, with both sets; a maintainer entry likewise, with exactly the
  added and the removed ones; the entries of head are in the order of the attribute paths
  and those of removed attributes follow in the same order.\<close>

theorem package_changes_exact:
  assumes "list_all (\<lambda>r. list_all is_ascii (jd_name r)) (head @ base)"
  shows "\<exists>out rm. compute_package_changes J head base =
       Some (out @ rm, list_ex (\<lambda>r. jd_pname r \<noteq> None \<or> jd_version r \<noteq> None) (head @ base)) \<and>
     (\<forall>a. filter (\<lambda>c. change_attr_path c = a \<and> is_primary c) (out @ rm) = primary_spec (last_row head a) (last_row base a)) \<and>
     (\<forall>a p old new d. LicenseChange a p old new d \<in> set (out @ rm) \<longleftrightarrow>
        (\<exists>h b. last_row head a = Some h \<and> last_row base a = Some b \<and> same_package h b = Some p \<and>
           d = jd_drv_path h \<and> old = license_labels J b \<and> new = license_labels J h \<and> set old \<noteq> set new)) \<and>
     (\<forall>a p added removed d. MaintainerChange a p added removed d \<in> set (out @ rm) \<longleftrightarrow>
        (\<exists>h b. last_row head a = Some h \<and> last_row base a = Some b \<and> same_package h b = Some p \<and> d = jd_drv_path h \<and>
           added = filter (\<lambda>l. l \<notin> set (maintainer_labels J b)) (maintainer_labels J h) \<and>
           removed = filter (\<lambda>l. l \<notin> set (maintainer_labels J h)) (maintainer_labels J b) \<and>
           set (maintainer_labels J h) \<noteq> set (maintainer_labels J b))) \<and>
     sorted (map change_attr_path out) \<and> sorted (map change_attr_path rm) \<and>
     (\<forall>c\<in>set rm. \<exists>a p v. c = Removed a p v)"
proof -
  let ?h = "\<lambda>(a, h). attr_changes J (Some h) (last_row base a)"
  let ?b = "\<lambda>(a, b). if last_row head a = None then primary_spec None (Some b) else []"
  define out where "out = concat (map ?h (by_attr head))"
  define rm where "rm = concat (map ?b (by_attr base))"
  have eq: "compute_package_changes J head base =
       Some (out @ rm, list_ex (\<lambda>r. jd_pname r \<noteq> None \<or> jd_version r \<noteq> None) (head @ base))"
    unfolding out_def rm_def by (rule compute_package_changes_eq [OF assms])
  note at = changes_of_attr [OF assms eq] and mem = changes_in_attr [OF assms eq]
  have primary: "filter (\<lambda>c. change_attr_path c = a \<and> is_primary c) (out @ rm) =
      primary_spec (last_row head a) (last_row base a)" for a
    using arg_cong [OF at [of a], of "filter is_primary"] by (simp add: attr_changes_primary filter_filter conj_commute)
  have "sorted (map change_attr_path out)"
    unfolding out_def using last_row_Some attr_changes_key
    by (intro sorted_concat_key by_attr_sorted) (fastforce simp: in_by_attr)
  moreover have "sorted (map change_attr_path rm)"
    unfolding rm_def using last_row_Some
    by (intro sorted_concat_key by_attr_sorted) (fastforce simp: in_by_attr split: if_splits)
  moreover have "\<forall>c\<in>set rm. \<exists>a p v. c = Removed a p v" by (auto simp: rm_def split: if_splits)
  moreover have "LicenseChange a p old new d \<in> set (out @ rm) \<longleftrightarrow>
        (\<exists>h b. last_row head a = Some h \<and> last_row base a = Some b \<and> same_package h b = Some p \<and>
           d = jd_drv_path h \<and> old = license_labels J b \<and> new = license_labels J h \<and> set old \<noteq> set new)" for a p old new d
    unfolding mem
    by (auto simp: ancillary_in_attr_changes license_changes_eq maintainer_changes_eq split: option.splits if_splits
        dest: last_row_Some)
  moreover have "MaintainerChange a p added removed d \<in> set (out @ rm) \<longleftrightarrow>
        (\<exists>h b. last_row head a = Some h \<and> last_row base a = Some b \<and> same_package h b = Some p \<and> d = jd_drv_path h \<and>
           added = filter (\<lambda>l. l \<notin> set (maintainer_labels J b)) (maintainer_labels J h) \<and>
           removed = filter (\<lambda>l. l \<notin> set (maintainer_labels J h)) (maintainer_labels J b) \<and>
           set (maintainer_labels J h) \<noteq> set (maintainer_labels J b))" for a p added removed d
    unfolding mem
    by (auto simp: ancillary_in_attr_changes license_changes_eq maintainer_changes_eq split: option.splits if_splits
        dest: last_row_Some)
  ultimately show ?thesis using eq primary by blast
qed

definition demo_json :: SummaryJson where
  "demo_json = \<lparr> sj_licenses = (\<lambda>s. if s = ''mit'' then Some [\<lparr> le_spdx_id = Some ''MIT'', le_short_name = None, le_full_name = None \<rparr>] else None),
     sj_maintainers = (\<lambda>_. None) \<rparr>"

definition demo_job_row :: "string \<Rightarrow> DrvId \<Rightarrow> string \<Rightarrow> string option \<Rightarrow> JobDrvRow" where
  "demo_job_row a d n l = \<lparr> jd_attr_path = a, jd_drv_path = d, jd_name = n, jd_pname = None, jd_version = None,
     jd_license_json = l, jd_maintainers_json = None \<rparr>"

definition demo_head :: "JobDrvRow list" where
  "demo_head = [demo_job_row ''z'' ''d1'' ''hello-2.13'' (Some ''mit''), demo_job_row ''n'' ''d3'' ''new-1.0'' None]"

definition demo_base :: "JobDrvRow list" where
  "demo_base = [demo_job_row ''z'' ''d2'' ''hello-2.12'' None, demo_job_row ''a'' ''d4'' ''old-1.0'' None]"

lemma demo_changes:
  "compute_package_changes demo_json demo_head demo_base =
     Some ([Added ''n'' (Some ''new'') (Some ''1.0'') ''d3'', VersionBump ''z'' ''hello'' ''2.12'' ''2.13'' ''d1'',
            LicenseChange ''z'' ''hello'' [] [''MIT''] ''d1'', Removed ''a'' (Some ''old'') (Some ''1.0'')], False)"
  by code_simp

theorem package_changes_exact_witness:
  "list_all (\<lambda>r. list_all is_ascii (jd_name r)) (demo_head @ demo_base) \<and>
   (\<exists>out rm. compute_package_changes demo_json demo_head demo_base = Some (out @ rm, False) \<and>
     filter (\<lambda>c. change_attr_path c = ''z'' \<and> is_primary c) (out @ rm) =
       primary_spec (last_row demo_head ''z'') (last_row demo_base ''z'') \<and> sorted (map change_attr_path out))"
proof -
  have hyp: "list_all (\<lambda>r. list_all is_ascii (jd_name r)) (demo_head @ demo_base)" by code_simp
  have "\<not> list_ex (\<lambda>r. jd_pname r \<noteq> None \<or> jd_version r \<noteq> None) (demo_head @ demo_base)" by code_simp
  with package_changes_exact [OF hyp, of demo_json] hyp show ?thesis by auto
qed

text \<open>The list as a whole is not in the order of the attribute paths, which the
  documentation of \<open>compute_package_changes\<close> promises: removed attributes come last, so a
  limit on the number of entries drops them first.\<close>

lemma package_changes_not_sorted:
  "\<exists>J head base out avail. compute_package_changes J head base = Some (out, avail) \<and>
     \<not> sorted (map change_attr_path out)"
proof -
  have "\<not> sorted (map change_attr_path [Added ''n'' (Some ''new'') (Some ''1.0'') ''d3'',
      VersionBump ''z'' ''hello'' ''2.12'' ''2.13'' ''d1'', LicenseChange ''z'' ''hello'' [] [''MIT''] ''d1'',
      Removed ''a'' (Some ''old'') (Some ''1.0'')])" by code_simp
  with demo_changes show ?thesis by blast
qed

end
