(* ===== verification/Summary_Render.thy ===== *)
theory Summary_Render
  imports Classify
begin

text \<open>
  The Markdown of a change summary (\<open>change_summary/src/render.rs\<close>) and the types it reads
  (\<open>change_summary/src/types.rs\<close>).  A string is its bytes; \<^const>\<open>None\<close> is the panic of a
  slice that ends inside a character.
\<close>

section \<open>Types\<close>

record TopBlastRadiusEntry =
  tb_pname :: "string option"
  tb_drv_path :: DrvId
  tb_blast_radius :: nat

record PerSystemImpact =
  psi_system :: string
  psi_rebuild_count :: nat
  psi_top_blast_radius :: "TopBlastRadiusEntry list"

record ChangeSummaryRebuildImpact =
  ri_per_system :: "PerSystemImpact list"
  ri_total_unique_drvs :: nat

record ChangeSummary =
  cs_head_sha :: string
  cs_base_sha :: string
  cs_job :: string
  cs_computed_at :: string
  cs_metadata_available :: bool
  cs_package_changes :: "PackageChange list"
  cs_rebuild_impact :: ChangeSummaryRebuildImpact
  cs_truncated :: bool
  cs_config_load_error :: "string option"
  cs_markdown :: string

record RenderTruncation =
  rt_dropped_maintainers :: bool
  rt_dropped_license :: bool
  rt_dropped_rebuild_only :: bool
  rt_collapsed_to_counts :: bool

record RenderOptions =
  ro_include_rebuild_only :: bool
  ro_config_load_error :: "string option"

record RenderConfig =
  rc_include_maintainers :: bool
  rc_include_license :: bool
  rc_include_rebuild_only_line :: bool
  rc_collapse_table :: bool

record ChangeCounts =
  cc_added :: nat
  cc_removed :: nat
  cc_bumped :: nat
  cc_renamed :: nat
  cc_rebuild_only :: nat
  cc_license :: nat
  cc_maintainers :: nat

definition GITHUB_CHECK_SUMMARY_SOFT_LIMIT :: nat where
  "GITHUB_CHECK_SUMMARY_SOFT_LIMIT = 60000"

definition GITHUB_CHECK_SUMMARY_HARD_LIMIT :: nat where
  "GITHUB_CHECK_SUMMARY_HARD_LIMIT = 65535"

definition truncation_default :: RenderTruncation where
  "truncation_default = \<lparr> rt_dropped_maintainers = False, rt_dropped_license = False,
     rt_dropped_rebuild_only = False, rt_collapsed_to_counts = False \<rparr>"

definition truncation_any :: "RenderTruncation \<Rightarrow> bool" where
  "truncation_any t = (rt_dropped_maintainers t \<or> rt_dropped_license t \<or> rt_dropped_rebuild_only t \<or>
     rt_collapsed_to_counts t)"

definition render_config_default :: RenderConfig where
  "render_config_default = \<lparr> rc_include_maintainers = True, rc_include_license = True,
     rc_include_rebuild_only_line = True, rc_collapse_table = False \<rparr>"

text \<open>A newline and the characters outside ASCII that the texts use.\<close>

definition nl :: string where "nl = [CHR 0x0A]"

definition ellipsis :: string where "ellipsis = [CHR 0xE2, CHR 0x80, CHR 0xA6]"

definition warning_sign :: string where "warning_sign = [CHR 0xE2, CHR 0x9A, CHR 0xA0]"

definition em_dash :: string where "em_dash = [CHR 0xE2, CHR 0x80, CHR 0x94]"

definition left_arrow :: string where "left_arrow = [CHR 0xE2, CHR 0x86, CHR 0x90]"

definition right_arrow :: string where "right_arrow = [CHR 0xE2, CHR 0x86, CHR 0x92]"

section \<open>Counts\<close>

definition changes_default :: ChangeCounts where
  "changes_default = \<lparr> cc_added = 0, cc_removed = 0, cc_bumped = 0, cc_renamed = 0, cc_rebuild_only = 0,
     cc_license = 0, cc_maintainers = 0 \<rparr>"

definition count_change :: "PackageChange \<Rightarrow> ChangeCounts \<Rightarrow> ChangeCounts" where
  "count_change change c =
     (case change of
        Added _ _ _ _ \<Rightarrow> c\<lparr>cc_added := cc_added c + 1\<rparr>
      | Removed _ _ _ \<Rightarrow> c\<lparr>cc_removed := cc_removed c + 1\<rparr>
      | VersionBump _ _ _ _ _ \<Rightarrow> c\<lparr>cc_bumped := cc_bumped c + 1\<rparr>
      | Renamed _ _ _ _ _ \<Rightarrow> c\<lparr>cc_renamed := cc_renamed c + 1\<rparr>
      | RebuildOnly _ _ _ _ \<Rightarrow> c\<lparr>cc_rebuild_only := cc_rebuild_only c + 1\<rparr>
      | LicenseChange _ _ _ _ _ \<Rightarrow> c\<lparr>cc_license := cc_license c + 1\<rparr>
      | MaintainerChange _ _ _ _ _ \<Rightarrow> c\<lparr>cc_maintainers := cc_maintainers c + 1\<rparr>)"

definition from_changes :: "PackageChange list \<Rightarrow> ChangeCounts" where
  "from_changes changes = fold count_change changes changes_default"

definition total_visible :: "ChangeCounts \<Rightarrow> RenderConfig \<Rightarrow> nat" where
  "total_visible c config =
     (let total = cc_added c + cc_removed c + cc_bumped c + cc_renamed c in
      if rc_collapse_table config then total
      else let total = (if rc_include_license config then total + cc_license c else total)
           in if rc_include_maintainers config then total + cc_maintainers c else total)"

definition summary_line :: "ChangeCounts \<Rightarrow> string" where
  "summary_line c =
     (let parts = [(cc_bumped c, ''bump''), (cc_added c, ''added''), (cc_removed c, ''removed''),
                   (cc_renamed c, ''renamed''), (cc_license c, ''license change''),
                   (cc_maintainers c, ''maintainer change'')];
          pieces = map (\<lambda>(n, label). display_nat n @ '' '' @ label @ (if n = 1 then [] else ''s''))
                     (filter (\<lambda>(n, _). 0 < n) parts)
      in if pieces = [] then ''no source changes'' else join_with '', '' pieces)"

section \<open>Rows\<close>

definition format_str_list :: "string list \<Rightarrow> string" where
  "format_str_list items = (if items = [] then ''(none)'' else join_with '', '' items)"

definition format_maintainer_diff :: "string list \<Rightarrow> string list \<Rightarrow> string" where
  "format_maintainer_diff added removed =
     (let parts = map (\<lambda>a. ''+'' @ a) added @ map (\<lambda>r. ''-'' @ r) removed
      in if parts = [] then ''(no change)'' else join_with '', '' parts)"

definition or_str :: "string option \<Rightarrow> string \<Rightarrow> string" where
  "or_str x d = (case x of Some s \<Rightarrow> s | None \<Rightarrow> d)"

fun render_package_row :: "PackageChange \<Rightarrow> string" where
  "render_package_row (Added attr pname version _) =
     ''| Added | `'' @ or_str pname attr @ ''` | '' @ or_str version ''(no version)'' @ '' |''"
| "render_package_row (Removed attr pname version) =
     ''| Removed | `'' @ or_str pname attr @ ''` | (was '' @ or_str version ''?'' @ '') |''"
| "render_package_row (VersionBump _ pname old new _) =
     ''| Bump | `'' @ pname @ ''` | '' @ old @ '' '' @ right_arrow @ '' '' @ new @ '' |''"
| "render_package_row (Renamed _ pname_old pname_new version _) =
     ''| Renamed | `'' @ pname_old @ '' '' @ right_arrow @ '' '' @ pname_new @ ''` | '' @ or_str version ''?'' @ '' |''"
| "render_package_row (RebuildOnly _ _ _ _) = []"
| "render_package_row (LicenseChange _ pname old new _) =
     ''| License | `'' @ pname @ ''` | '' @ format_str_list old @ '' '' @ right_arrow @ '' '' @ format_str_list new @ '' |''"
| "render_package_row (MaintainerChange _ pname added removed _) =
     ''| Maintainers | `'' @ pname @ ''` | '' @ format_maintainer_diff added removed @ '' |''"

fun visible :: "RenderConfig \<Rightarrow> PackageChange \<Rightarrow> bool" where
  "visible config (RebuildOnly _ _ _ _) = False"
| "visible config (LicenseChange _ _ _ _ _) = rc_include_license config"
| "visible config (MaintainerChange _ _ _ _ _) = rc_include_maintainers config"
| "visible config _ = True"

definition render_packages_section :: "ChangeSummary \<Rightarrow> RenderConfig \<Rightarrow> string" where
  "render_packages_section summary config =
     (let counts = from_changes (cs_package_changes summary) in
      ''### Packages changed ('' @ display_nat (total_visible counts config) @ '')'' @ nl @ nl @
      (if rc_collapse_table config then
         ''**Summary:** '' @ summary_line counts @ nl @
         (if rc_include_rebuild_only_line config \<and> 0 < cc_rebuild_only counts
          then nl @ ''_'' @ display_nat (cc_rebuild_only counts) @
               '' packages will rebuild without source changes._'' @ nl
          else [])
       else
         ''| Status | Package | Change |'' @ nl @ ''|--------|---------|--------|'' @ nl @
         concat (map (\<lambda>c. render_package_row c @ nl) (filter (visible config) (cs_package_changes summary))) @
         (if rc_include_rebuild_only_line config \<and> 0 < cc_rebuild_only counts
          then nl @ ''**Plus '' @ display_nat (cc_rebuild_only counts) @ '' package'' @
               (if cc_rebuild_only counts = 1 then [] else ''s'') @
               '' will rebuild without source changes.**'' @ nl
          else [])))"

function trim_end_matches :: "string \<Rightarrow> string \<Rightarrow> string" where
  "trim_end_matches p s =
     (if p \<noteq> [] \<and> suffix p s then trim_end_matches p (take (length s - length p) s) else s)"
  by auto
termination
  by (relation "measure (length \<circ> snd)") (auto simp: suffix_def)

declare trim_end_matches.simps [simp del]

definition extract_pname_from_drv :: "string \<Rightarrow> string" where
  "extract_pname_from_drv path =
     (let stem = trim_end_matches ''.drv'' (last (split_on (CHR ''/'') path))
      in case split_once (CHR ''-'') stem of
           Some (_, rest) \<Rightarrow> if rest \<noteq> [] then rest else stem
         | None \<Rightarrow> stem)"

definition format_blast_entry :: "TopBlastRadiusEntry \<Rightarrow> string" where
  "format_blast_entry entry =
     ''`'' @ (case tb_pname entry of Some p \<Rightarrow> p | None \<Rightarrow> extract_pname_from_drv (tb_drv_path entry)) @
     ''` ('' @ display_nat (tb_blast_radius entry) @ '')''"

definition render_top_blast_radius :: "PerSystemImpact \<Rightarrow> string" where
  "render_top_blast_radius sys =
     (if psi_top_blast_radius sys = [] then ''_(none)_''
      else join_with '', '' (map format_blast_entry (psi_top_blast_radius sys)))"

definition render_impact_section :: "ChangeSummaryRebuildImpact \<Rightarrow> string" where
  "render_impact_section impact =
     ''### Rebuild impact'' @ nl @ nl @
     (if ri_per_system impact = [] then ''_No rebuild impact computed for this commit._'' @ nl
      else
        ''| System | Rebuilds | Top blast radius |'' @ nl @ ''|--------|----------|------------------|'' @ nl @
        concat (map (\<lambda>sys. ''| `'' @ psi_system sys @ ''` | '' @ display_nat (psi_rebuild_count sys) @ '' | '' @
          render_top_blast_radius sys @ '' |'' @ nl) (ri_per_system impact)) @ nl @
        ''**Total unique drvs that would rebuild somewhere:** '' @ display_nat (ri_total_unique_drvs impact) @ nl)"

definition dropped_labels :: "RenderTruncation \<Rightarrow> string list" where
  "dropped_labels t =
     (if rt_dropped_maintainers t then [''maintainer changes''] else []) @
     (if rt_dropped_license t then [''license changes''] else []) @
     (if rt_dropped_rebuild_only t then [''rebuild-only count''] else []) @
     (if rt_collapsed_to_counts t then [''per-package table''] else [])"

definition render_truncation_footer :: "RenderTruncation \<Rightarrow> string \<Rightarrow> string" where
  "render_truncation_footer t head_sha =
     ''---'' @ nl @ nl @ ''_'' @ warning_sign @ '' Output truncated to fit GitHub'' @ [CHR 0x27] @ ''s check-summary limit._'' @
     (if dropped_labels t = [] then [] else '' Dropped: '' @ join_with '', '' (dropped_labels t) @ ''.'') @
     '' Full payload: `/v1/commits/'' @ head_sha @ ''/change-summary`.'' @ nl"

definition short_sha :: "string \<Rightarrow> string option" where
  "short_sha sha = (if 12 < length sha then str_prefix sha 12 else Some sha)"

definition config_error_banner :: "string option \<Rightarrow> string option" where
  "config_error_banner error =
     (case error of
        None \<Rightarrow> Some []
      | Some e \<Rightarrow>
          map_option (\<lambda>shown. ''> '' @ warning_sign @ '' `.ekaci/config.json` failed to parse '' @ em_dash @
              '' using defaults. Error: '' @ shown @ nl @ nl)
            (if 200 < length e then map_option (\<lambda>p. p @ ellipsis) (str_prefix e 200) else Some e))"

definition metadata_banner :: "bool \<Rightarrow> string" where
  "metadata_banner metadata_available =
     (if metadata_available then []
      else ''> '' @ warning_sign @ '' Package metadata unavailable for this commit (eval failed); package names below '' @
        ''are best-effort heuristics from drv paths.'' @ nl @ nl)"

definition render_with_config ::
  "ChangeSummary \<Rightarrow> RenderConfig \<Rightarrow> RenderTruncation \<Rightarrow> RenderOptions \<Rightarrow> string option" where
  "render_with_config summary config truncation options =
     (case (config_error_banner (ro_config_load_error options), short_sha (cs_head_sha summary),
            short_sha (cs_base_sha summary)) of
        (Some banner, Some head, Some base) \<Rightarrow>
          Some (banner @ ''## Change summary for `'' @ head @ ''` '' @ left_arrow @ '' `'' @ base @ ''`'' @ nl @ nl @
            metadata_banner (cs_metadata_available summary) @
            render_packages_section summary config @ nl @
            render_impact_section (cs_rebuild_impact summary) @
            (if truncation_any truncation
             then nl @ render_truncation_footer truncation (cs_head_sha summary) else []))
      | _ \<Rightarrow> None)"

section \<open>The passes\<close>

definition MARKER :: string where
  "MARKER = nl @ nl @ ''_'' @ ellipsis @ ''(truncated, full payload via API)_'' @ nl"

fun walk_back :: "string \<Rightarrow> nat \<Rightarrow> nat" where
  "walk_back s 0 = 0"
| "walk_back s (Suc n) = (if is_char_boundary s (Suc n) then Suc n else walk_back s n)"

definition hard_truncate :: "string \<Rightarrow> nat \<Rightarrow> string option" where
  "hard_truncate s limit =
     (if length s \<le> limit then Some s
      else map_option (\<lambda>p. p @ MARKER) (str_prefix s (walk_back s (min (limit - length MARKER) (length s)))))"

definition render :: "ChangeSummary \<Rightarrow> RenderOptions \<Rightarrow> (string \<times> RenderTruncation) option" where
  "render summary options =
     (let t0 = truncation_default;
          c0 = render_config_default\<lparr>rc_include_rebuild_only_line := ro_include_rebuild_only options\<rparr> in
      case render_with_config summary c0 t0 options of None \<Rightarrow> None | Some initial \<Rightarrow>
      if length initial \<le> GITHUB_CHECK_SUMMARY_SOFT_LIMIT then Some (initial, t0) else
      let c1 = c0\<lparr>rc_include_maintainers := False\<rparr>; t1 = t0\<lparr>rt_dropped_maintainers := True\<rparr> in
      case render_with_config summary c1 t1 options of None \<Rightarrow> None | Some pass1 \<Rightarrow>
      if length pass1 \<le> GITHUB_CHECK_SUMMARY_SOFT_LIMIT then Some (pass1, t1) else
      let c2 = c1\<lparr>rc_include_license := False\<rparr>; t2 = t1\<lparr>rt_dropped_license := True\<rparr> in
      case render_with_config summary c2 t2 options of None \<Rightarrow> None | Some pass2 \<Rightarrow>
      if length pass2 \<le> GITHUB_CHECK_SUMMARY_SOFT_LIMIT then Some (pass2, t2) else
      let (c3, t3) = (if rc_include_rebuild_only_line c2
                      then (c2\<lparr>rc_include_rebuild_only_line := False\<rparr>, t2\<lparr>rt_dropped_rebuild_only := True\<rparr>)
                      else (c2, t2)) in
      case render_with_config summary c3 t3 options of None \<Rightarrow> None | Some pass3 \<Rightarrow>
      if length pass3 \<le> GITHUB_CHECK_SUMMARY_SOFT_LIMIT then Some (pass3, t3) else
      let c4 = c3\<lparr>rc_collapse_table := True\<rparr>; t4 = t3\<lparr>rt_collapsed_to_counts := True\<rparr> in
      case render_with_config summary c4 t4 options of None \<Rightarrow> None | Some pass4 \<Rightarrow>
      if length pass4 \<le> GITHUB_CHECK_SUMMARY_HARD_LIMIT then Some (pass4, t4)
      else map_option (\<lambda>s. (s, t4)) (hard_truncate pass4 GITHUB_CHECK_SUMMARY_HARD_LIMIT))"

section \<open>Counts and rows agree\<close>

lemma total_visible_count:
  "\<not> rc_collapse_table config \<Longrightarrow>
   total_visible (count_change x c) config = total_visible c config + (if visible config x then 1 else 0)"
  by (cases x) (simp_all add: total_visible_def count_change_def Let_def)

lemma total_visible_fold:
  "\<not> rc_collapse_table config \<Longrightarrow>
   total_visible (fold count_change xs c) config = total_visible c config + length (filter (visible config) xs)"
  by (induction xs arbitrary: c) (simp_all add: total_visible_count)

text \<open>The number in the heading is the number of rows of the table.\<close>

lemma heading_counts_rows:
  "\<not> rc_collapse_table config \<Longrightarrow>
   total_visible (from_changes xs) config = length (filter (visible config) xs)"
  by (simp add: from_changes_def total_visible_fold) (simp add: total_visible_def changes_default_def)

section \<open>Limits and panics\<close>

lemma walk_back_boundary: "is_char_boundary s (walk_back s n) \<and> walk_back s n \<le> n"
  by (induction n) (auto simp: is_char_boundary_def)

lemma hard_truncate_fits:
  assumes "limit < length s" "length MARKER \<le> limit"
  shows "\<exists>k. k + length MARKER \<le> limit \<and> is_char_boundary s k \<and> hard_truncate s limit = Some (take k s @ MARKER)"
  using assms walk_back_boundary [of s "min (limit - length MARKER) (length s)"]
  by (intro exI [of _ "walk_back s (min (limit - length MARKER) (length s))"]) (auto simp: hard_truncate_def str_prefix_def)

lemma MARKER_length: "length MARKER \<le> GITHUB_CHECK_SUMMARY_HARD_LIMIT"
  by (simp add: MARKER_def nl_def ellipsis_def GITHUB_CHECK_SUMMARY_HARD_LIMIT_def)

definition render_panics :: "ChangeSummary \<Rightarrow> RenderOptions \<Rightarrow> bool" where
  "render_panics summary options =
     ((\<exists>e. ro_config_load_error options = Some e \<and> 200 < length e \<and> is_continuation (e ! 200)) \<or>
      12 < length (cs_head_sha summary) \<and> is_continuation (cs_head_sha summary ! 12) \<or>
      12 < length (cs_base_sha summary) \<and> is_continuation (cs_base_sha summary ! 12))"

definition pass_text :: "ChangeSummary \<Rightarrow> RenderOptions \<Rightarrow> RenderConfig \<times> RenderTruncation \<Rightarrow> string" where
  "pass_text summary options = (\<lambda>(c, t). the (render_with_config summary c t options))"

lemma short_sha_None: "short_sha sha = None \<longleftrightarrow> 12 < length sha \<and> is_continuation (sha ! 12)"
  by (auto simp: short_sha_def str_prefix_None)

lemma config_error_banner_None:
  "config_error_banner e = None \<longleftrightarrow> (\<exists>x. e = Some x \<and> 200 < length x \<and> is_continuation (x ! 200))"
  by (auto simp: config_error_banner_def str_prefix_None split: option.split)

lemma render_with_config_eq:
  "render_with_config summary c t options =
     (if render_panics summary options then None else Some (pass_text summary options (c, t)))"
proof -
  have "render_with_config summary c t options = None \<longleftrightarrow> render_panics summary options"
    unfolding render_panics_def short_sha_None [symmetric] config_error_banner_None [symmetric]
    by (auto simp: render_with_config_def split: option.split)
  then show ?thesis by (auto simp: pass_text_def)
qed

text \<open>The five attempts, each with what it leaves out.\<close>

definition passes :: "RenderOptions \<Rightarrow> (RenderConfig \<times> RenderTruncation) list" where
  "passes options =
     (let r = ro_include_rebuild_only options
      in [(\<lparr> rc_include_maintainers = True, rc_include_license = True, rc_include_rebuild_only_line = r, rc_collapse_table = False \<rparr>,
           \<lparr> rt_dropped_maintainers = False, rt_dropped_license = False, rt_dropped_rebuild_only = False, rt_collapsed_to_counts = False \<rparr>),
          (\<lparr> rc_include_maintainers = False, rc_include_license = True, rc_include_rebuild_only_line = r, rc_collapse_table = False \<rparr>,
           \<lparr> rt_dropped_maintainers = True, rt_dropped_license = False, rt_dropped_rebuild_only = False, rt_collapsed_to_counts = False \<rparr>),
          (\<lparr> rc_include_maintainers = False, rc_include_license = False, rc_include_rebuild_only_line = r, rc_collapse_table = False \<rparr>,
           \<lparr> rt_dropped_maintainers = True, rt_dropped_license = True, rt_dropped_rebuild_only = False, rt_collapsed_to_counts = False \<rparr>),
          (\<lparr> rc_include_maintainers = False, rc_include_license = False, rc_include_rebuild_only_line = False, rc_collapse_table = False \<rparr>,
           \<lparr> rt_dropped_maintainers = True, rt_dropped_license = True, rt_dropped_rebuild_only = r, rt_collapsed_to_counts = False \<rparr>),
          (\<lparr> rc_include_maintainers = False, rc_include_license = False, rc_include_rebuild_only_line = False, rc_collapse_table = True \<rparr>,
           \<lparr> rt_dropped_maintainers = True, rt_dropped_license = True, rt_dropped_rebuild_only = r, rt_collapsed_to_counts = True \<rparr>)])"

fun first_fit :: "(RenderConfig \<times> RenderTruncation \<Rightarrow> string) \<Rightarrow> (RenderConfig \<times> RenderTruncation) list \<Rightarrow> (string \<times> RenderTruncation) option" where
  "first_fit f [] = None"
| "first_fit f [p] =
     (if length (f p) \<le> GITHUB_CHECK_SUMMARY_HARD_LIMIT then Some (f p, snd p)
      else map_option (\<lambda>s. (s, snd p)) (hard_truncate (f p) GITHUB_CHECK_SUMMARY_HARD_LIMIT))"
| "first_fit f (p # q # ps) =
     (if length (f p) \<le> GITHUB_CHECK_SUMMARY_SOFT_LIMIT then Some (f p, snd p) else first_fit f (q # ps))"

lemma render_first_fit:
  "render summary options =
     (if render_panics summary options then None
      else first_fit (pass_text summary options) (passes options))"
  by (simp add: render_def render_with_config_eq passes_def Let_def truncation_default_def render_config_default_def)

lemma first_fit_spec:
  assumes "ps \<noteq> []"
  shows "\<exists>i k. i < length ps \<and> is_char_boundary (f (ps ! i)) k \<and>
     first_fit f ps = Some (take k (f (ps ! i)) @ (if k = length (f (ps ! i)) then [] else MARKER), snd (ps ! i)) \<and>
     (\<forall>j<i. GITHUB_CHECK_SUMMARY_SOFT_LIMIT < length (f (ps ! j))) \<and>
     (Suc i < length ps \<longrightarrow> length (f (ps ! i)) \<le> GITHUB_CHECK_SUMMARY_SOFT_LIMIT \<and> k = length (f (ps ! i))) \<and>
     (length (f (ps ! i)) \<le> GITHUB_CHECK_SUMMARY_HARD_LIMIT \<longleftrightarrow> k = length (f (ps ! i))) \<and>
     (k \<noteq> length (f (ps ! i)) \<longrightarrow> k + length MARKER \<le> GITHUB_CHECK_SUMMARY_HARD_LIMIT)"
  using assms
proof (induction f ps rule: first_fit.induct)
  case (2 f p)
  show ?case
  proof (cases "length (f p) \<le> GITHUB_CHECK_SUMMARY_HARD_LIMIT")
    case True
    then show ?thesis by (intro exI [of _ 0] exI [of _ "length (f p)"]) (simp add: is_char_boundary_def)
  next
    case False
    then obtain k where "k + length MARKER \<le> GITHUB_CHECK_SUMMARY_HARD_LIMIT" "is_char_boundary (f p) k"
      "hard_truncate (f p) GITHUB_CHECK_SUMMARY_HARD_LIMIT = Some (take k (f p) @ MARKER)"
      using hard_truncate_fits [OF _ MARKER_length, of "f p"] by auto
    with False show ?thesis by (intro exI [of _ 0] exI [of _ k]) auto
  qed
next
  case (3 f p q ps)
  show ?case
  proof (cases "length (f p) \<le> GITHUB_CHECK_SUMMARY_SOFT_LIMIT")
    case True
    moreover have "GITHUB_CHECK_SUMMARY_SOFT_LIMIT \<le> GITHUB_CHECK_SUMMARY_HARD_LIMIT"
      by (simp add: GITHUB_CHECK_SUMMARY_SOFT_LIMIT_def GITHUB_CHECK_SUMMARY_HARD_LIMIT_def)
    ultimately show ?thesis by (intro exI [of _ 0] exI [of _ "length (f p)"]) (simp add: is_char_boundary_def)
  next
    case False
    with 3 obtain i k where ik: "i < length (q # ps)" "is_char_boundary (f ((q # ps) ! i)) k"
      "first_fit f (q # ps) = Some (take k (f ((q # ps) ! i)) @ (if k = length (f ((q # ps) ! i)) then [] else MARKER), snd ((q # ps) ! i))"
      "\<forall>j<i. GITHUB_CHECK_SUMMARY_SOFT_LIMIT < length (f ((q # ps) ! j))"
      "Suc i < length (q # ps) \<longrightarrow> length (f ((q # ps) ! i)) \<le> GITHUB_CHECK_SUMMARY_SOFT_LIMIT \<and> k = length (f ((q # ps) ! i))"
      "length (f ((q # ps) ! i)) \<le> GITHUB_CHECK_SUMMARY_HARD_LIMIT \<longleftrightarrow> k = length (f ((q # ps) ! i))"
      "k \<noteq> length (f ((q # ps) ! i)) \<longrightarrow> k + length MARKER \<le> GITHUB_CHECK_SUMMARY_HARD_LIMIT" by blast
    have "\<forall>j<Suc i. GITHUB_CHECK_SUMMARY_SOFT_LIMIT < length (f ((p # q # ps) ! j))"
      using False ik(4) by (auto simp: less_Suc_eq_0_disj)
    with ik False show ?thesis by (intro exI [of _ "Suc i"] exI [of _ k]) (simp del: nth_Cons_Suc add: nth_Cons_Suc [of p "q # ps"])
  qed
qed simp

text \<open>C34: The rendering of a summary stays under the limit of a GitHub check, and leaves out
  as little as it can.  Whenever it returns, the text is the first of the five attempts (all;
  without maintainers; also without licenses; also without the rebuild line; the table
  collapsed) that fits the soft limit, or the last one, cut at a character boundary and marked
  when it exceeds the hard limit; the reported truncation is that of the attempt; the text has
  at most 65,535 bytes, and at most 60,000 unless the table was collapsed.\<close>

theorem render_fits:
  assumes "render summary options = Some (md, t)"
  shows "length md \<le> 65535 \<and> (rt_collapsed_to_counts t \<or> length md \<le> 60000) \<and>
     (\<exists>i<5. \<exists>k. t = snd (passes options ! i) \<and>
        (\<forall>j<i. 60000 < length (pass_text summary options (passes options ! j))) \<and>
        is_char_boundary (pass_text summary options (passes options ! i)) k \<and>
        (k = length (pass_text summary options (passes options ! i)) \<or>
         i = 4 \<and> 65535 < length (pass_text summary options (passes options ! i))) \<and>
        md = take k (pass_text summary options (passes options ! i)) @
             (if k = length (pass_text summary options (passes options ! i)) then [] else MARKER))"
proof -
  let ?f = "pass_text summary options" and ?ps = "passes options"
  have len: "length ?ps = 5" by (simp add: passes_def Let_def)
  then have "?ps \<noteq> []" by auto
  from first_fit_spec [OF this, of ?f] obtain i k where i: "i < 5" and bk: "is_char_boundary (?f (?ps ! i)) k"
    and fit: "first_fit ?f ?ps = Some (take k (?f (?ps ! i)) @ (if k = length (?f (?ps ! i)) then [] else MARKER), snd (?ps ! i))"
    and before: "\<forall>j<i. 60000 < length (?f (?ps ! j))"
    and soft: "Suc i < 5 \<longrightarrow> length (?f (?ps ! i)) \<le> 60000 \<and> k = length (?f (?ps ! i))"
    and hard: "length (?f (?ps ! i)) \<le> 65535 \<longleftrightarrow> k = length (?f (?ps ! i))"
    and cut: "k \<noteq> length (?f (?ps ! i)) \<longrightarrow> k + length MARKER \<le> 65535"
    unfolding len GITHUB_CHECK_SUMMARY_SOFT_LIMIT_def GITHUB_CHECK_SUMMARY_HARD_LIMIT_def by blast
  have md: "md = take k (?f (?ps ! i)) @ (if k = length (?f (?ps ! i)) then [] else MARKER)" "t = snd (?ps ! i)"
    using assms fit unfolding render_first_fit by (auto split: if_splits)
  have four: "i = 4" if "\<not> Suc i < 5" using i that by simp
  have collapsed: "i = 4 \<Longrightarrow> rt_collapsed_to_counts t" using md(2) by (simp add: passes_def Let_def)
  have whole: "length (take k (?f (?ps ! i))) \<le> k" by simp
  have "length md \<le> 65535 \<and> (rt_collapsed_to_counts t \<or> length md \<le> 60000)"
  proof (cases "Suc i < 5")
    case True
    with soft md show ?thesis by simp
  next
    case False
    then have "rt_collapsed_to_counts t" using four collapsed by blast
    moreover have "length md \<le> 65535"
    proof (cases "k = length (?f (?ps ! i))")
      case True
      with hard md show ?thesis by simp
    next
      case False
      with cut md whole show ?thesis by simp
    qed
    ultimately show ?thesis by simp
  qed
  moreover have "k = length (?f (?ps ! i)) \<or> i = 4 \<and> 65535 < length (?f (?ps ! i))"
    using soft hard four by fastforce
  ultimately show ?thesis using i bk before md by blast
qed

definition demo_summary :: ChangeSummary where
  "demo_summary = \<lparr> cs_head_sha = ''abc123abc123abc'', cs_base_sha = ''def456'', cs_job = ''ci'', cs_computed_at = [],
     cs_metadata_available = True,
     cs_package_changes = [VersionBump ''z'' ''hello'' ''2.12'' ''2.13'' ''d1'', MaintainerChange ''z'' ''hello'' [''ann''] [] ''d1''],
     cs_rebuild_impact = \<lparr> ri_per_system = [], ri_total_unique_drvs = 0 \<rparr>, cs_truncated = False,
     cs_config_load_error = None, cs_markdown = [] \<rparr>"

definition demo_options :: RenderOptions where
  "demo_options = \<lparr> ro_include_rebuild_only = True, ro_config_load_error = None \<rparr>"

theorem render_fits_witness:
  "\<exists>md t. render demo_summary demo_options = Some (md, t) \<and> length md \<le> 65535"
proof -
  have "\<not> render_panics demo_summary demo_options"
    by (simp add: render_panics_def demo_summary_def demo_options_def is_continuation_def)
  moreover have "passes demo_options \<noteq> []" by (simp add: passes_def Let_def)
  ultimately obtain md t where r: "render demo_summary demo_options = Some (md, t)"
    using first_fit_spec [of "passes demo_options" "pass_text demo_summary demo_options"]
    unfolding render_first_fit by fastforce
  with render_fits [OF r] show ?thesis by blast
qed

lemma render_not_None: "render summary options = None \<longleftrightarrow> render_panics summary options"
proof -
  have "passes options \<noteq> []" by (simp add: passes_def Let_def)
  then have "first_fit (pass_text summary options) (passes options) \<noteq> None"
    using first_fit_spec [of "passes options" "pass_text summary options"] by fastforce
  then show ?thesis unfolding render_first_fit by auto
qed

text \<open>The rendering panics exactly when a text it shortens has a character across the cut:
  the error of the configuration at byte 200 or a commit id at byte 12.  The error quotes the
  configuration file of the repository, so its author chooses that byte.\<close>

theorem render_panics_exactly:
  "render summary options = None \<longleftrightarrow>
     (\<exists>e. ro_config_load_error options = Some e \<and> 200 < length e \<and> is_continuation (e ! 200)) \<or>
     12 < length (cs_head_sha summary) \<and> is_continuation (cs_head_sha summary ! 12) \<or>
     12 < length (cs_base_sha summary) \<and> is_continuation (cs_base_sha summary ! 12)"
  using render_not_None [of summary options] unfolding render_panics_def .

end
