(* ===== verification/Rebuild_Impact.thy ===== *)
theory Rebuild_Impact
  imports Summary_Render "HOL-Library.Product_Lexorder"
begin

text \<open>
  The rebuild impact of a change (\<open>change_summary/src/impact.rs\<close>) with its cache
  (\<open>change_summary/src/cache.rs\<close>).  What the analysis asks of the graph service is the record
  \<open>GraphApi\<close>, with its laws in the locale \<open>impact_graph\<close>; the service of \<open>Graph_Service\<close> meets
  them.  JSON is a parameter.
\<close>

section \<open>Types and tables\<close>

record ImpactRow =
  ir_drv_path :: DrvId
  ir_pname :: "string option"
  ir_system :: string

record RebuildImpactResponse =
  rr_head_sha :: string
  rr_base_sha :: string
  rr_job :: string
  rr_computed_at :: string
  rr_per_system :: "PerSystemImpact list"
  rr_total_unique_drvs :: nat

record ImpactCacheRow =
  ic_head_sha :: string
  ic_base_sha :: string
  ic_jobset :: string
  ic_full_blast_radius :: bool
  ic_rebuild_count :: int
  ic_critical_path_drv :: "DrvId option"
  ic_blast_radius :: "int option"
  ic_summary_json :: string
  ic_computed_at :: int

record SummaryDb =
  sd_jobsets :: "JobSet list"
  sd_jobs :: "JobOfSet list"
  sd_drvs :: "LocalDrv list"
  sd_cache :: "ImpactCacheRow list"

text \<open>What the analysis asks of the graph service; its state may change with a question.\<close>

record 's GraphApi =
  ga_reverse_reachable :: "DrvId list \<Rightarrow> 's \<Rightarrow> 's \<times> (anyhow, DrvId list) result"
  ga_blast_radius :: "DrvId list \<Rightarrow> 's \<Rightarrow> 's \<times> (anyhow, (DrvId \<times> nat) list) result"

text \<open>The handle: a command is sent and its reply awaited.\<close>

definition service_api :: "'c node_lru \<Rightarrow> 'db GraphDatabase \<Rightarrow> instant \<Rightarrow> ('c, 'db) GraphService GraphApi" where
  "service_api L D now =
     \<lparr> ga_reverse_reachable = (\<lambda>seeds s.
         case handle_command L D now (ReverseReachableFromSet seeds) s of
           (s', Inr (ReplyDrvs ds)) \<Rightarrow> (s', Inr ds)
         | (s', _) \<Rightarrow> (s', Inl ''no reply'')),
       ga_blast_radius = (\<lambda>seeds s.
         case handle_command L D now (BlastRadiusPerSeed seeds) s of
           (s', Inr (ReplyCounts cs)) \<Rightarrow> (s', Inr cs)
         | (s', _) \<Rightarrow> (s', Inl ''no reply'')) \<rparr>"

text \<open>Serialised responses.  The mirror structs of the cache have the shape of the response.\<close>

record ImpactJson =
  ij_to_string :: "RebuildImpactResponse \<Rightarrow> string"
  ij_from_str :: "string \<Rightarrow> RebuildImpactResponse option"

section \<open>The analysis\<close>

definition DEFAULT_MAX_TOP_BLAST_RADIUS :: nat where "DEFAULT_MAX_TOP_BLAST_RADIUS = 5"

definition DEFAULT_MAX_BFS_SEEDS :: nat where "DEFAULT_MAX_BFS_SEEDS = 50"

definition github_jobset_id :: "SummaryDb \<Rightarrow> string \<Rightarrow> string \<Rightarrow> int option" where
  "github_jobset_id db sha job =
     map_option jst_rowid (find (\<lambda>js. jst_sha js = sha \<and> jst_job js = job) (sd_jobsets db))"

definition to_impact_row :: "LocalDrv \<Rightarrow> (anyhow, ImpactRow) result" where
  "to_impact_row d =
     (case DrvId_try_from (ld_drv_path d) of
        Inl _ \<Rightarrow> Inl ''Invalid drv_path in DB''
      | Inr path \<Rightarrow> Inr \<lparr> ir_drv_path = path, ir_pname = ld_pname d, ir_system = ld_system d \<rparr>)"

definition load_changed_impact_rows :: "SummaryDb \<Rightarrow> int \<Rightarrow> (anyhow, ImpactRow list) result" where
  "load_changed_impact_rows db jobset_id =
     collect_results (to_impact_row \<circ> snd)
       (join_job_drv (filter (\<lambda>j. jbs_jobset j = jobset_id \<and>
            (jbs_difference j = DiffNew \<or> jbs_difference j = DiffChanged)) (sd_jobs db)) (sd_drvs db))"

definition cap_seeds :: "bool \<Rightarrow> ImpactRow list \<Rightarrow> ImpactRow list" where
  "cap_seeds full_blast_radius rows =
     (if \<not> full_blast_radius \<and> DEFAULT_MAX_BFS_SEEDS < length rows
      then take DEFAULT_MAX_BFS_SEEDS (sort_key ir_drv_path rows) else rows)"

definition blast_entry :: "(DrvId \<times> nat) list \<Rightarrow> ImpactRow \<Rightarrow> TopBlastRadiusEntry" where
  "blast_entry radii row = \<lparr> tb_pname = ir_pname row, tb_drv_path = ir_drv_path row,
     tb_blast_radius = (case map_of radii (ir_drv_path row) of Some n \<Rightarrow> n | None \<Rightarrow> 0) \<rparr>"

text \<open>Largest radius first, then by drv path.\<close>

definition rank_key :: "TopBlastRadiusEntry \<Rightarrow> int \<times> string" where
  "rank_key e = (- int (tb_blast_radius e), tb_drv_path e)"

definition system_impact ::
  "'s GraphApi \<Rightarrow> bool \<Rightarrow> nat \<Rightarrow> string \<Rightarrow> ImpactRow list \<Rightarrow> 's \<Rightarrow> 's \<times> (anyhow, PerSystemImpact) result" where
  "system_impact G full_blast_radius max_top system rows s =
     (let seeds = cap_seeds full_blast_radius rows in
      case ga_blast_radius G (map ir_drv_path seeds) s of
        (s', Inl e) \<Rightarrow> (s', Inl e)
      | (s', Inr radii) \<Rightarrow>
          (s', Inr \<lparr> psi_system = system, psi_rebuild_count = length rows,
             psi_top_blast_radius = take (max max_top 1) (sort_key rank_key (map (blast_entry radii) seeds)) \<rparr>))"

fun systems_impact ::
  "'s GraphApi \<Rightarrow> bool \<Rightarrow> nat \<Rightarrow> ImpactRow list \<Rightarrow> string list \<Rightarrow> 's \<Rightarrow> 's \<times> (anyhow, PerSystemImpact list) result" where
  "systems_impact G full max_top rows [] s = (s, Inr [])"
| "systems_impact G full max_top rows (system # systems) s =
     (case system_impact G full max_top system (filter (\<lambda>r. ir_system r = system) rows) s of
        (s', Inl e) \<Rightarrow> (s', Inl e)
      | (s', Inr p) \<Rightarrow>
          (case systems_impact G full max_top rows systems s' of
             (s'', Inl e) \<Rightarrow> (s'', Inl e)
           | (s'', Inr ps) \<Rightarrow> (s'', Inr (p # ps))))"

definition build_rebuild_impact_response ::
  "'s GraphApi \<Rightarrow> SummaryDb \<Rightarrow> string \<Rightarrow> string \<Rightarrow> string \<Rightarrow> string \<Rightarrow> nat \<Rightarrow> bool \<Rightarrow> 's \<Rightarrow>
   's \<times> (anyhow, RebuildImpactResponse option) result" where
  "build_rebuild_impact_response G db now head_sha base_sha job max_top full s =
     (case github_jobset_id db head_sha job of
        None \<Rightarrow> (s, Inr None)
      | Some head_jobset_id \<Rightarrow>
     (case load_changed_impact_rows db head_jobset_id of
        Inl e \<Rightarrow> (s, Inl e)
      | Inr rows \<Rightarrow>
     (case ga_reverse_reachable G (map ir_drv_path rows) s of
        (s', Inl e) \<Rightarrow> (s', Inl e)
      | (s', Inr union_reachable) \<Rightarrow>
     (case systems_impact G full max_top rows (sort (remdups (map ir_system rows))) s' of
        (s'', Inl e) \<Rightarrow> (s'', Inl e)
      | (s'', Inr per_system) \<Rightarrow>
          (s'', Inr (Some \<lparr> rr_head_sha = head_sha, rr_base_sha = base_sha, rr_job = job, rr_computed_at = now,
             rr_per_system = per_system, rr_total_unique_drvs = length union_reachable \<rparr>))))))"

section \<open>The cache\<close>

definition cache_key :: "string \<Rightarrow> string \<Rightarrow> string \<Rightarrow> bool \<Rightarrow> ImpactCacheRow \<Rightarrow> bool" where
  "cache_key head_sha base_sha jobset full r =
     (ic_head_sha r = head_sha \<and> ic_base_sha r = base_sha \<and> ic_jobset r = jobset \<and> ic_full_blast_radius r = full)"

text \<open>Entries whose path is no longer a valid id are dropped.\<close>

definition into_response :: "RebuildImpactResponse \<Rightarrow> RebuildImpactResponse" where
  "into_response r =
     r\<lparr>rr_per_system := map (\<lambda>s. s\<lparr>psi_top_blast_radius :=
         List.map_filter (\<lambda>e. case DrvId_from_str (tb_drv_path e) of
             Inl _ \<Rightarrow> None
           | Inr d \<Rightarrow> Some (e\<lparr>tb_drv_path := d\<rparr>)) (psi_top_blast_radius s)\<rparr>) (rr_per_system r)\<rparr>"

definition cache_lookup :: "ImpactJson \<Rightarrow> SummaryDb \<Rightarrow> string \<Rightarrow> string \<Rightarrow> string \<Rightarrow> bool \<Rightarrow> RebuildImpactResponse option" where
  "cache_lookup IJ db head_sha base_sha jobset full =
     (case find (cache_key head_sha base_sha jobset full) (sd_cache db) of
        None \<Rightarrow> None
      | Some row \<Rightarrow> map_option into_response (ij_from_str IJ (ic_summary_json row)))"

definition better_top :: "TopBlastRadiusEntry \<Rightarrow> (DrvId \<times> nat) option \<Rightarrow> (DrvId \<times> nat) option" where
  "better_top entry current =
     (case current of
        None \<Rightarrow> Some (tb_drv_path entry, tb_blast_radius entry)
      | Some (cur_drv, cur_radius) \<Rightarrow>
          if cur_radius < tb_blast_radius entry \<or>
             tb_blast_radius entry = cur_radius \<and> tb_drv_path entry < cur_drv
          then Some (tb_drv_path entry, tb_blast_radius entry) else Some (cur_drv, cur_radius))"

definition headline :: "RebuildImpactResponse \<Rightarrow> (DrvId \<times> nat) option" where
  "headline r = fold (\<lambda>sys. fold better_top (psi_top_blast_radius sys)) (rr_per_system r) None"

definition cache_row :: "ImpactJson \<Rightarrow> RebuildImpactResponse \<Rightarrow> bool \<Rightarrow> int \<Rightarrow> ImpactCacheRow" where
  "cache_row IJ r full now = \<lparr> ic_head_sha = rr_head_sha r, ic_base_sha = rr_base_sha r, ic_jobset = rr_job r,
     ic_full_blast_radius = full, ic_rebuild_count = sum_list (map (\<lambda>s. int (psi_rebuild_count s)) (rr_per_system r)),
     ic_critical_path_drv = map_option fst (headline r), ic_blast_radius = map_option (int \<circ> snd) (headline r),
     ic_summary_json = ij_to_string IJ r, ic_computed_at = now \<rparr>"

definition cache_upsert :: "ImpactJson \<Rightarrow> RebuildImpactResponse \<Rightarrow> bool \<Rightarrow> int \<Rightarrow> SummaryDb \<Rightarrow> SummaryDb" where
  "cache_upsert IJ r full now db =
     (let row = cache_row IJ r full now;
          key = cache_key (rr_head_sha r) (rr_base_sha r) (rr_job r) full
      in db\<lparr>sd_cache := (if list_ex key (sd_cache db) then map (\<lambda>x. if key x then row else x) (sd_cache db)
                         else sd_cache db @ [row])\<rparr>)"

definition cleanup_old_entries :: "nat \<Rightarrow> int \<Rightarrow> SummaryDb \<Rightarrow> SummaryDb \<times> nat" where
  "cleanup_old_entries threshold_days now db =
     (let old = (\<lambda>r. ic_computed_at r < now - int threshold_days * 86400)
      in (db\<lparr>sd_cache := filter (\<lambda>r. \<not> old r) (sd_cache db)\<rparr>, length (filter old (sd_cache db))))"

text \<open>The time of the call is given as text for the response and in seconds for the row.\<close>

definition build_rebuild_impact_response_cached ::
  "ImpactJson \<Rightarrow> 's GraphApi \<Rightarrow> string \<times> int \<Rightarrow> string \<Rightarrow> string \<Rightarrow> string \<Rightarrow> nat \<Rightarrow> bool \<Rightarrow> SummaryDb \<times> 's \<Rightarrow>
   (SummaryDb \<times> 's) \<times> (anyhow, RebuildImpactResponse option) result" where
  "build_rebuild_impact_response_cached IJ G now head_sha base_sha job max_top full = (\<lambda>(db, s).
     case cache_lookup IJ db head_sha base_sha job full of
       Some hit \<Rightarrow> ((db, s), Inr (Some hit))
     | None \<Rightarrow>
         (case build_rebuild_impact_response G db (fst now) head_sha base_sha job max_top full s of
            (s', Inl e) \<Rightarrow> ((db, s'), Inl e)
          | (s', Inr None) \<Rightarrow> ((db, s'), Inr None)
          | (s', Inr (Some response)) \<Rightarrow>
              ((cache_upsert IJ response full (snd now) db, s'), Inr (Some response))))"

section \<open>What the analysis needs of the graph\<close>

locale impact_graph =
  fixes G :: "'s GraphApi"
    and ok :: "'s \<Rightarrow> bool"
    and radius :: "'s \<Rightarrow> DrvId \<Rightarrow> nat"
    and closure :: "'s \<Rightarrow> DrvId set \<Rightarrow> DrvId set"
  assumes reach: "ok s \<Longrightarrow> list_all valid_drv_id seeds \<Longrightarrow>
      \<exists>s' ds. ga_reverse_reachable G seeds s = (s', Inr ds) \<and> ok s' \<and> distinct ds \<and> set ds = closure s' (set seeds)"
    and blast: "ok s \<Longrightarrow> list_all valid_drv_id seeds \<Longrightarrow>
      \<exists>s' cs. ga_blast_radius G seeds s = (s', Inr cs) \<and> ok s' \<and> (\<forall>d\<in>set seeds. map_of cs d = Some (radius s' d))"

definition ranked :: "(DrvId \<Rightarrow> nat) \<Rightarrow> ImpactRow list \<Rightarrow> TopBlastRadiusEntry list" where
  "ranked radius seeds = map (\<lambda>r. \<lparr> tb_pname = ir_pname r, tb_drv_path = ir_drv_path r,
     tb_blast_radius = radius (ir_drv_path r) \<rparr>) seeds"

text \<open>The entry of one system: the number of changed jobs, and the best of the candidates in
  the order of their radius.\<close>

definition impact_spec :: "(DrvId \<Rightarrow> nat) \<Rightarrow> bool \<Rightarrow> nat \<Rightarrow> ImpactRow list \<Rightarrow> string \<Rightarrow> PerSystemImpact \<Rightarrow> bool" where
  "impact_spec radius full max_top rows system p =
     (let own = filter (\<lambda>r. ir_system r = system) rows in
      psi_system p = system \<and> psi_rebuild_count p = length own \<and>
      (\<exists>seeds rest. (if full \<or> length own \<le> 50 then seeds = own else mset seeds \<subseteq># mset own \<and> length seeds = 50) \<and>
         length (psi_top_blast_radius p) = min (max max_top 1) (length seeds) \<and>
         mset (psi_top_blast_radius p @ rest) = mset (ranked radius seeds) \<and>
         sorted (map rank_key (psi_top_blast_radius p @ rest))))"

lemma cap_seeds_spec:
  "if full \<or> length own \<le> 50 then cap_seeds full own = own
   else mset (cap_seeds full own) \<subseteq># mset own \<and> length (cap_seeds full own) = 50"
proof -
  have "mset (take n (sort_key f own)) \<subseteq># mset own" for n and f :: "ImpactRow \<Rightarrow> string"
    by (metis append_take_drop_id mset_append mset_sort mset_subset_eq_add_left)
  then show ?thesis by (auto simp: cap_seeds_def DEFAULT_MAX_BFS_SEEDS_def)
qed

lemma set_cap_seeds: "set (cap_seeds full own) \<subseteq> set own"
  by (auto simp: cap_seeds_def dest: in_set_takeD)

context impact_graph
begin

lemma system_impact_exact:
  assumes "ok s" "list_all (valid_drv_id \<circ> ir_drv_path) rows"
  shows "\<exists>s' p. system_impact G full max_top system (filter (\<lambda>r. ir_system r = system) rows) s = (s', Inr p) \<and>
     ok s' \<and> impact_spec (radius s') full max_top rows system p"
proof -
  define own where "own = filter (\<lambda>r. ir_system r = system) rows"
  let ?seeds = "cap_seeds full own"
  have "list_all valid_drv_id (map ir_drv_path ?seeds)"
    using assms(2) set_cap_seeds [of full own] by (auto simp: list_all_iff own_def)
  from blast [OF assms(1) this] obtain s' cs where b: "ga_blast_radius G (map ir_drv_path ?seeds) s = (s', Inr cs)"
    "ok s'" "\<forall>d\<in>set (map ir_drv_path ?seeds). map_of cs d = Some (radius s' d)" by blast
  define entries where "entries = sort_key rank_key (map (blast_entry cs) ?seeds)"
  have "map (blast_entry cs) ?seeds = ranked (radius s') ?seeds"
    using b(3) by (simp add: ranked_def blast_entry_def)
  then have "mset entries = mset (ranked (radius s') ?seeds)" unfolding entries_def mset_sort by (rule arg_cong)
  moreover have "sorted (map rank_key entries)" "length entries = length ?seeds" by (simp_all add: entries_def)
  ultimately have e: "mset entries = mset (ranked (radius s') ?seeds)" "sorted (map rank_key entries)"
    "length entries = length ?seeds" by blast+
  have "impact_spec (radius s') full max_top rows system \<lparr> psi_system = system, psi_rebuild_count = length own,
      psi_top_blast_radius = take (max max_top 1) entries \<rparr>"
    unfolding impact_spec_def Let_def own_def [symmetric] PerSystemImpact.simps
    by (intro conjI refl exI [of _ ?seeds] exI [of _ "drop (max max_top 1) entries"])
      (rule cap_seeds_spec | simp only: append_take_drop_id e length_take min.commute)+
  then show ?thesis
    using b(1,2) by (simp add: system_impact_def entries_def flip: own_def)
qed

lemma systems_impact_exact:
  assumes "ok s" "list_all (valid_drv_id \<circ> ir_drv_path) rows"
  shows "\<exists>s' ps. systems_impact G full max_top rows systems s = (s', Inr ps) \<and> ok s' \<and>
     list_all2 (\<lambda>system p. \<exists>t. ok t \<and> impact_spec (radius t) full max_top rows system p) systems ps"
  using assms(1)
proof (induction systems arbitrary: s)
  case (Cons system systems)
  from system_impact_exact [OF Cons.prems assms(2)] obtain s1 p where p:
    "system_impact G full max_top system (filter (\<lambda>r. ir_system r = system) rows) s = (s1, Inr p)" "ok s1"
    "impact_spec (radius s1) full max_top rows system p" by blast
  from Cons.IH [OF p(2)] obtain s2 ps where "systems_impact G full max_top rows systems s1 = (s2, Inr ps)" "ok s2"
    "list_all2 (\<lambda>system p. \<exists>t. ok t \<and> impact_spec (radius t) full max_top rows system p) systems ps" by blast
  with p show ?case by auto
qed simp

lemma response_exact:
  assumes "ok s" "github_jobset_id db head_sha job = Some jid" "load_changed_impact_rows db jid = Inr rows"
    "list_all (valid_drv_id \<circ> ir_drv_path) rows"
  shows "\<exists>s' ps t n. build_rebuild_impact_response G db now head_sha base_sha job max_top full s =
       (s', Inr (Some \<lparr> rr_head_sha = head_sha, rr_base_sha = base_sha, rr_job = job, rr_computed_at = now,
          rr_per_system = ps, rr_total_unique_drvs = n \<rparr>)) \<and> ok s' \<and>
     ok t \<and> n = card (closure t (ir_drv_path ` set rows)) \<and>
     list_all2 (\<lambda>system p. \<exists>t. ok t \<and> impact_spec (radius t) full max_top rows system p)
       (sort (remdups (map ir_system rows))) ps"
proof -
  have "list_all valid_drv_id (map ir_drv_path rows)" using assms(4) by (simp add: list_all_iff)
  from reach [OF assms(1) this] obtain s1 ds where r: "ga_reverse_reachable G (map ir_drv_path rows) s = (s1, Inr ds)"
    "ok s1" "distinct ds" "set ds = closure s1 (set (map ir_drv_path rows))" by blast
  from systems_impact_exact [OF r(2) assms(4), of full max_top "sort (remdups (map ir_system rows))"]
  obtain s2 ps where p: "systems_impact G full max_top rows (sort (remdups (map ir_system rows))) s1 = (s2, Inr ps)" "ok s2"
    "list_all2 (\<lambda>system p. \<exists>t. ok t \<and> impact_spec (radius t) full max_top rows system p) (sort (remdups (map ir_system rows))) ps"
    by blast
  have "length ds = card (closure s1 (ir_drv_path ` set rows))" using r(3,4) distinct_card by fastforce
  then show ?thesis
    using assms(2,3) r p by (auto simp: build_rebuild_impact_response_def)
qed

end

section \<open>The graph service meets it\<close>

definition service_radius :: "'c node_lru \<Rightarrow> ('c, 'db) GraphService \<Rightarrow> DrvId \<Rightarrow> nat" where
  "service_radius L s d = card {y. (d, y) \<in> (succ_rel (get_dependents L (gs_graph s)))\<^sup>+ \<and> y \<noteq> d}"

definition service_closure :: "'c node_lru \<Rightarrow> ('c, 'db) GraphService \<Rightarrow> DrvId set \<Rightarrow> DrvId set" where
  "service_closure L s seeds =
     (succ_rel (get_dependents L (gs_graph s)))\<^sup>* `` {d \<in> seeds. get_node L (gs_graph s) d \<noteq> None}"

sublocale graph_service \<subseteq> impact: impact_graph "service_api L D now" "service_ok L invar D db_ok"
  "service_radius L" "service_closure L" for now
proof (unfold_locales, goal_cases)
  case (1 s seeds)
  let ?s = "load_seeds L D now seeds s"
  have ok: "service_ok L invar D db_ok ?s" using load_seeds_ok [OF 1] .
  have "graph_lru L invar" by (rule graph_lru_axioms)
  with service_ok_dest(1) [OF ok] show ?case
    using ok reverse_reachability_exact [of L invar "gs_graph ?s" seeds]
      graph_lru.reverse_reachable_set [of L invar "gs_graph ?s" seeds]
    by (auto simp: service_api_def handle_reverse_reachable_def service_closure_def Let_def)
next
  case (2 s seeds)
  let ?s = "load_seeds L D now seeds s"
  have ok: "service_ok L invar D db_ok ?s" using load_seeds_ok [OF 2] .
  have "graph_lru L invar" by (rule graph_lru_axioms)
  with service_ok_dest(1) [OF ok] show ?case
    using ok reverse_reachability_exact [of L invar "gs_graph ?s" seeds]
    by (auto simp: service_api_def handle_blast_radius_def service_radius_def Let_def)
qed

context graph_service
begin

lemmas service_impact_exact = impact.response_exact

end

lemma to_impact_row_valid: "to_impact_row d = Inr r \<Longrightarrow> valid_drv_id (ir_drv_path r)"
  by (cases "DrvId_try_from (ld_drv_path d)") (auto simp: to_impact_row_def try_from_iff)

lemma impact_rows_valid:
  assumes "load_changed_impact_rows db jid = Inr rows"
  shows "list_all (valid_drv_id \<circ> ir_drv_path) rows"
proof -
  have "valid_drv_id (ir_drv_path r)" if "r \<in> set rows" for r
    using collect_results_mem [OF assms [unfolded load_changed_impact_rows_def] that]
    by (auto dest: to_impact_row_valid)
  then show ?thesis by (simp add: list_all_iff)
qed


definition demo_summary_db :: SummaryDb where
  "demo_summary_db = \<lparr> sd_jobsets = [\<lparr> jst_rowid = 1, jst_sha = ''abc'', jst_job = ''ci'', jst_owner = ''o'', jst_repo_name = ''r'' \<rparr>],
     sd_jobs = [\<lparr> jbs_jobset = 1, jbs_name = ''a'', jbs_drv = demo_id_a, jbs_difference = DiffChanged, jbs_state = LocalQueued \<rparr>],
     sd_drvs = [demo_row demo_id_a LocalQueued], sd_cache = [] \<rparr>"

lemma demo_summary_rows:
  "github_jobset_id demo_summary_db ''abc'' ''ci'' = Some 1"
  "load_changed_impact_rows demo_summary_db 1 = Inr [\<lparr> ir_drv_path = demo_id_a, ir_pname = None, ir_system = ''x86_64-linux'' \<rparr>]"
  by (simp add: github_jobset_id_def demo_summary_db_def)
    (simp add: load_changed_impact_rows_def demo_summary_db_def join_job_drv_def to_impact_row_def demo_row_def
      try_from_id demo_ids_valid)


section \<open>The cache\<close>

definition valid_response :: "RebuildImpactResponse \<Rightarrow> bool" where
  "valid_response r =
     list_all (\<lambda>p. list_all (\<lambda>e. valid_drv_id (tb_drv_path e)) (psi_top_blast_radius p)) (rr_per_system r)"

lemma into_response_valid: "valid_response r \<Longrightarrow> into_response r = r"
proof -
  have "List.map_filter (\<lambda>e. case DrvId_from_str (tb_drv_path e) of Inl _ \<Rightarrow> None | Inr d \<Rightarrow> Some (e\<lparr>tb_drv_path := d\<rparr>)) es = es"
    if "list_all (\<lambda>e. valid_drv_id (tb_drv_path e)) es" for es :: "TopBlastRadiusEntry list"
    using that by (induction es) (simp_all add: DrvId_from_str_def try_from_id List.map_filter_def)
  then show "valid_response r \<Longrightarrow> into_response r = r"
    by (simp add: into_response_def valid_response_def list_all_iff map_idI)
qed

lemma system_impact_valid:
  assumes "system_impact G full max_top system own s = (s', Inr p)" "\<forall>r\<in>set own. valid_drv_id (ir_drv_path r)"
  shows "list_all (\<lambda>e. valid_drv_id (tb_drv_path e)) (psi_top_blast_radius p)"
proof -
  have "\<forall>r\<in>set (cap_seeds full own). valid_drv_id (ir_drv_path r)" using assms(2) set_cap_seeds by blast
  with assms(1) show ?thesis
    by (auto simp: system_impact_def Let_def list_all_iff blast_entry_def dest!: in_set_takeD split: prod.splits sum.splits)
qed

lemma systems_impact_valid:
  assumes "systems_impact G full max_top rows systems s = (s', Inr ps)" "\<forall>r\<in>set rows. valid_drv_id (ir_drv_path r)"
  shows "list_all (\<lambda>p. list_all (\<lambda>e. valid_drv_id (tb_drv_path e)) (psi_top_blast_radius p)) ps"
  using assms(1)
proof (induction systems arbitrary: s ps)
  case (Cons system systems)
  then show ?case
    using assms(2) by (fastforce split: prod.splits sum.splits dest: system_impact_valid)
qed simp

lemma response_valid:
  assumes "build_rebuild_impact_response G db now head_sha base_sha job max_top full s = (s', Inr (Some r))"
  shows "valid_response r \<and> rr_head_sha r = head_sha \<and> rr_base_sha r = base_sha \<and> rr_job r = job"
  using assms impact_rows_valid
  by (auto simp: build_rebuild_impact_response_def valid_response_def list_all_iff
      split: option.splits sum.splits prod.splits dest!: systems_impact_valid)

lemma find_upsert:
  "find P (if list_ex P xs then map (\<lambda>x. if P x then y else x) xs else xs @ [y]) = Some y" if "P y"
  using that by (induction xs) auto

lemma lookup_upsert:
  assumes "ij_from_str IJ (ij_to_string IJ r) = Some r" "valid_response r"
  shows "cache_lookup IJ (cache_upsert IJ r full now db) (rr_head_sha r) (rr_base_sha r) (rr_job r) full = Some r"
proof -
  have "find (cache_key (rr_head_sha r) (rr_base_sha r) (rr_job r) full) (sd_cache (cache_upsert IJ r full now db)) =
      Some (cache_row IJ r full now)"
  proof -
    have "cache_key (rr_head_sha r) (rr_base_sha r) (rr_job r) full (cache_row IJ r full now)"
      by (simp add: cache_key_def cache_row_def)
    from find_upsert [of "cache_key (rr_head_sha r) (rr_base_sha r) (rr_job r) full", OF this, of "sd_cache db"] show ?thesis by (simp add: cache_upsert_def Let_def split del: if_split)
  qed
  then show ?thesis
    using assms by (simp add: cache_lookup_def cache_row_def into_response_valid)
qed

text \<open>The cache answers a repeated question with the stored response, byte for byte, without
  asking the graph; but the number of entries asked for is not part of the key, so a caller
  that asks for more entries than the first one gets the shorter list.\<close>

theorem impact_cache_ignores_limit:
  assumes "ij_from_str IJ (ij_to_string IJ r) = Some r"
    "build_rebuild_impact_response_cached IJ G now head_sha base_sha job max_top full (db, s) = ((db', s'), Inr (Some r))"
  shows "build_rebuild_impact_response_cached IJ G' now' head_sha base_sha job max_top' full (db', t) = ((db', t), Inr (Some r))"
proof -
  have "cache_lookup IJ db' head_sha base_sha job full = Some r"
  proof (cases "cache_lookup IJ db head_sha base_sha job full")
    case None
    with assms(2) have b: "build_rebuild_impact_response G db (fst now) head_sha base_sha job max_top full s = (s', Inr (Some r))"
      and db': "db' = cache_upsert IJ r full (snd now) db"
      by (auto simp: build_rebuild_impact_response_cached_def split: prod.splits sum.splits option.splits)
    then show ?thesis using lookup_upsert [OF assms(1)] response_valid [OF b] by metis
  next
    case (Some hit)
    with assms(2) show ?thesis by (simp add: build_rebuild_impact_response_cached_def)
  qed
  then show ?thesis by (simp add: build_rebuild_impact_response_cached_def)
qed

theorem impact_cache_ignores_limit_witness:
  "\<exists>IJ s db' s' r. ij_from_str IJ (ij_to_string IJ r) = Some r \<and>
     build_rebuild_impact_response_cached IJ (service_api list_lru DbService_db 0) ([], 0) ''abc'' ''def'' ''ci'' 1 False
       (demo_summary_db, s) = ((db', s'), Inr (Some r)) \<and>
     build_rebuild_impact_response_cached IJ (service_api list_lru DbService_db 0) ([], 1) ''abc'' ''def'' ''ci'' 50 False
       (db', s') = ((db', s'), Inr (Some r))"
proof -
  obtain s where "service_new list_lru DbService_db 0 demo_failed_tables 4 = Some (Inr s)" using demo_failed_start by blast
  then have ok: "service_ok list_lru list_lru_invar DbService_db db_wf s"
    using list_service.service_new_ok demo_failed_db(1) by blast
  from graph_service.service_impact_exact [OF list_service.graph_service_axioms ok demo_summary_rows
      impact_rows_valid [OF demo_summary_rows(2)], of 0 "[]" "''def''" 1 False]
  obtain s' r where b: "build_rebuild_impact_response (service_api list_lru DbService_db 0) demo_summary_db [] ''abc'' ''def'' ''ci'' 1 False s =
      (s', Inr (Some r))" by blast
  define IJ where "IJ = \<lparr> ij_to_string = (\<lambda>_. ''{}''), ij_from_str = (\<lambda>_. Some r) \<rparr>"
  have json: "ij_from_str IJ (ij_to_string IJ r) = Some r" by (simp add: IJ_def)
  have call: "build_rebuild_impact_response_cached IJ (service_api list_lru DbService_db 0) ([], 0) ''abc'' ''def'' ''ci'' 1 False
      (demo_summary_db, s) = ((cache_upsert IJ r False 0 demo_summary_db, s'), Inr (Some r))"
    using b by (simp add: build_rebuild_impact_response_cached_def cache_lookup_def demo_summary_db_def)
  from impact_cache_ignores_limit [OF json call, of "service_api list_lru DbService_db 0" "([], 1)" 50 s'] json call
  show ?thesis by blast
qed

text \<open>The headline columns hold the entry that the order of the lists puts first, over all systems.\<close>

lemma better_top_key:
  "map_option (\<lambda>(d, n). (- int n, d)) (better_top e c) =
     Some (case c of None \<Rightarrow> rank_key e | Some (d, n) \<Rightarrow> min (rank_key e) (- int n, d))"
  by (auto simp: better_top_def rank_key_def min_def less_eq_prod_def split: option.split)

lemma fold_better_top:
  "map_option (\<lambda>(d, n). (- int n, d)) (fold better_top es c) =
     fold (\<lambda>e k. Some (case k of None \<Rightarrow> rank_key e | Some k \<Rightarrow> min (rank_key e) k)) es
       (map_option (\<lambda>(d, n). (- int n, d)) c)"
  by (induction es arbitrary: c) (simp_all add: better_top_key split: option.split)

end
