(* ===== verification/Change_Summary.thy ===== *)
theory Change_Summary
  imports Rebuild_Impact
begin

text \<open>
  The change summary of a commit: its builder (\<open>change_summary/src/builder.rs\<close>,
  \<open>options.rs\<close>), the functions of the server around it
  (\<open>server/src/change_summary_compat.rs\<close>), the web handlers
  (\<open>server/src/web/repositories.rs\<close>) and the posting of the summary on each forge
  (\<open>server/src/*/service/change_summary.rs\<close>, \<open>github/service/actions.rs\<close>).
  A call returns \<^const>\<open>None\<close> when it panics.  The configuration file of the repository and the
  answers of the forges are arguments.
\<close>

section \<open>Types\<close>

record ChangeSummaryOptions =
  co_summary_enabled :: bool
  co_impact_enabled :: bool
  co_compute_full_blast_radius :: bool
  co_include_rebuild_only :: bool
  co_max_packages_listed :: nat
  co_max_top_blast_radius :: nat

record JobsetData =
  jsd_owner :: string
  jsd_repo :: string
  jsd_domain :: string
  jsd_sha :: string
  jsd_job :: string

record PackageChangesResponse =
  pc_head_sha :: string
  pc_base_sha :: string
  pc_job :: string
  pc_computed_at :: string
  pc_metadata_available :: bool
  pc_package_changes :: "PackageChange list"
  pc_truncated :: bool

definition DEFAULT_MAX_PACKAGES_LISTED :: nat where "DEFAULT_MAX_PACKAGES_LISTED = 100"

definition summary_options_default :: ChangeSummaryOptions where
  "summary_options_default = \<lparr> co_summary_enabled = True, co_impact_enabled = True,
     co_compute_full_blast_radius = False, co_include_rebuild_only = True,
     co_max_packages_listed = DEFAULT_MAX_PACKAGES_LISTED,
     co_max_top_blast_radius = DEFAULT_MAX_TOP_BLAST_RADIUS \<rparr>"

text \<open>The sections of the repository's configuration that the summary reads.\<close>

record PackageChangeSummaryCfg =
  pcs_enabled :: bool
  pcs_max_packages_listed :: nat
  pcs_include_rebuild_only :: bool

record RebuildImpactCfg =
  ric_enabled :: bool
  ric_max_top_blast_radius :: nat
  ric_compute_full_blast_radius :: bool

record SummaryCIConfig =
  sc_package_change_summary :: "PackageChangeSummaryCfg option"
  sc_rebuild_impact :: "RebuildImpactCfg option"

datatype CIConfigLoad = Loaded SummaryCIConfig | Absent | Unreadable string | Invalid string string

record SummaryEnv =
  se_json :: SummaryJson
  se_impact_json :: ImpactJson
  se_clock :: "string \<times> int"
  se_config :: "string \<Rightarrow> string \<Rightarrow> string \<Rightarrow> string \<Rightarrow> CIConfigLoad"

section \<open>Options\<close>

definition change_summary_options_from_ci_config :: "SummaryCIConfig \<Rightarrow> ChangeSummaryOptions" where
  "change_summary_options_from_ci_config cfg =
     (let out = summary_options_default;
          out = (case sc_package_change_summary cfg of
                   Some pcs \<Rightarrow> out\<lparr>co_summary_enabled := pcs_enabled pcs,
                                   co_max_packages_listed := pcs_max_packages_listed pcs,
                                   co_include_rebuild_only := pcs_include_rebuild_only pcs\<rparr>
                 | None \<Rightarrow> out)
      in case sc_rebuild_impact cfg of
           Some ri \<Rightarrow> out\<lparr>co_impact_enabled := ric_enabled ri,
                          co_max_top_blast_radius := ric_max_top_blast_radius ri,
                          co_compute_full_blast_radius := ric_compute_full_blast_radius ri\<rparr>
         | None \<Rightarrow> out)"

definition resolve_options_from_jobset_data :: "SummaryEnv \<Rightarrow> JobsetData \<Rightarrow> ChangeSummaryOptions \<times> string option" where
  "resolve_options_from_jobset_data E jd =
     (case se_config E (jsd_domain jd) (jsd_owner jd) (jsd_repo jd) (jsd_sha jd) of
        Loaded cfg \<Rightarrow> (change_summary_options_from_ci_config cfg, None)
      | Absent \<Rightarrow> (summary_options_default, None)
      | Unreadable _ \<Rightarrow> (summary_options_default, None)
      | Invalid source error \<Rightarrow> (summary_options_default, Some (source @ '': '' @ error)))"

definition find_jobset :: "SummaryDb \<Rightarrow> string \<Rightarrow> string \<Rightarrow> JobSet option" where
  "find_jobset db sha job = find (\<lambda>js. jst_sha js = sha \<and> jst_job js = job) (sd_jobsets db)"

definition jobset_data_of :: "JobSet \<Rightarrow> string \<Rightarrow> string \<Rightarrow> JobsetData" where
  "jobset_data_of js sha job = \<lparr> jsd_owner = jst_owner js, jsd_repo = jst_repo_name js, jsd_domain = ''github.com'',
     jsd_sha = sha, jsd_job = job \<rparr>"

definition resolve_options_for_jobset :: "SummaryEnv \<Rightarrow> SummaryDb \<Rightarrow> string \<Rightarrow> string \<Rightarrow> ChangeSummaryOptions \<times> string option" where
  "resolve_options_for_jobset E db head_sha job =
     (case find_jobset db head_sha job of
        None \<Rightarrow> (summary_options_default, None)
      | Some js \<Rightarrow> resolve_options_from_jobset_data E (jobset_data_of js head_sha job))"

section \<open>The builder\<close>

definition build_package_changes_from_jobset_ids ::
  "SummaryEnv \<Rightarrow> SummaryDb \<Rightarrow> int \<Rightarrow> int option \<Rightarrow> JobsetData \<Rightarrow> nat \<Rightarrow> (anyhow, PackageChangesResponse) result option" where
  "build_package_changes_from_jobset_ids E db head_jobset_id base_jobset_id jd max_packages_listed =
     (case load_job_drv_rows (sd_jobs db) (sd_drvs db) head_jobset_id of
        Inl e \<Rightarrow> Some (Inl e)
      | Inr head_rows \<Rightarrow>
     (case (case base_jobset_id of Some b \<Rightarrow> load_job_drv_rows (sd_jobs db) (sd_drvs db) b | None \<Rightarrow> Inr []) of
        Inl e \<Rightarrow> Some (Inl e)
      | Inr base_rows \<Rightarrow>
     (case compute_package_changes (se_json E) head_rows base_rows of
        None \<Rightarrow> None
      | Some (changes, metadata_available) \<Rightarrow>
          Some (Inr \<lparr> pc_head_sha = jsd_sha jd, pc_base_sha = jsd_sha jd, pc_job = jsd_job jd,
            pc_computed_at = fst (se_clock E), pc_metadata_available = metadata_available,
            pc_package_changes = take max_packages_listed changes,
            pc_truncated = (max_packages_listed < length changes) \<rparr>))))"

definition empty_package_changes :: "SummaryEnv \<Rightarrow> JobsetData \<Rightarrow> string \<Rightarrow> PackageChangesResponse" where
  "empty_package_changes E jd base_sha = \<lparr> pc_head_sha = jsd_sha jd, pc_base_sha = base_sha, pc_job = jsd_job jd,
     pc_computed_at = fst (se_clock E), pc_metadata_available = True, pc_package_changes = [], pc_truncated = False \<rparr>"

definition assemble_summary ::
  "ChangeSummaryOptions \<Rightarrow> string option \<Rightarrow> PackageChangesResponse \<Rightarrow> RebuildImpactResponse option \<Rightarrow> ChangeSummary option" where
  "assemble_summary options cfg_error pkg impact =
     (let (per_system, total, computed_at) = (case impact of
            Some r \<Rightarrow> (rr_per_system r, rr_total_unique_drvs r, rr_computed_at r)
          | None \<Rightarrow> ([], 0, pc_computed_at pkg));
          summary = \<lparr> cs_head_sha = pc_head_sha pkg, cs_base_sha = pc_base_sha pkg, cs_job = pc_job pkg,
            cs_computed_at = computed_at, cs_metadata_available = pc_metadata_available pkg,
            cs_package_changes = pc_package_changes pkg,
            cs_rebuild_impact = \<lparr> ri_per_system = per_system, ri_total_unique_drvs = total \<rparr>,
            cs_truncated = pc_truncated pkg, cs_config_load_error = cfg_error, cs_markdown = [] \<rparr>
      in case render summary \<lparr> ro_include_rebuild_only = co_include_rebuild_only options,
                 ro_config_load_error = cfg_error \<rparr> of
           None \<Rightarrow> None
         | Some (markdown, truncation) \<Rightarrow>
             Some (summary\<lparr>cs_markdown := markdown, cs_truncated := (pc_truncated pkg \<or> truncation_any truncation)\<rparr>))"

definition build_change_summary_from_jobset_ids ::
  "SummaryEnv \<Rightarrow> 's GraphApi \<Rightarrow> int \<Rightarrow> int option \<Rightarrow> JobsetData \<Rightarrow> string \<Rightarrow> ChangeSummaryOptions \<Rightarrow> string option \<Rightarrow>
   SummaryDb \<times> 's \<Rightarrow> (SummaryDb \<times> 's) \<times> (anyhow, ChangeSummary) result option" where
  "build_change_summary_from_jobset_ids E G head_jobset_id base_jobset_id jd base_sha options cfg_error st =
     (case (if co_summary_enabled options
            then build_package_changes_from_jobset_ids E (fst st) head_jobset_id base_jobset_id jd
                   (co_max_packages_listed options)
            else Some (Inr (empty_package_changes E jd base_sha))) of
        None \<Rightarrow> (st, None)
      | Some (Inl e) \<Rightarrow> (st, Some (Inl e))
      | Some (Inr pkg) \<Rightarrow>
     (let pkg = pkg\<lparr>pc_base_sha := base_sha\<rparr> in
      case (if co_impact_enabled options
            then build_rebuild_impact_response_cached (se_impact_json E) G (se_clock E) (jsd_sha jd) base_sha (jsd_job jd)
                   (co_max_top_blast_radius options) (co_compute_full_blast_radius options) st
            else (st, Inr None)) of
        (st', Inl e) \<Rightarrow> (st', Some (Inl e))
      | (st', Inr impact) \<Rightarrow> (st', map_option Inr (assemble_summary options cfg_error pkg impact))))"

text \<open>The older entry points of the crate, by commit; the server has its own (below).\<close>

definition legacy_package_changes_response ::
  "SummaryEnv \<Rightarrow> SummaryDb \<Rightarrow> string \<Rightarrow> string \<Rightarrow> string \<Rightarrow> nat \<Rightarrow> (anyhow, PackageChangesResponse option) result option" where
  "legacy_package_changes_response E db head_sha base_sha job max_packages_listed =
     (case github_jobset_id db head_sha job of
        None \<Rightarrow> Some (Inr None)
      | Some head_jobset_id \<Rightarrow>
     (case load_job_drv_rows (sd_jobs db) (sd_drvs db) head_jobset_id of
        Inl e \<Rightarrow> Some (Inl e)
      | Inr head_rows \<Rightarrow>
     (case (case github_jobset_id db base_sha job of
              Some b \<Rightarrow> load_job_drv_rows (sd_jobs db) (sd_drvs db) b | None \<Rightarrow> Inr []) of
        Inl e \<Rightarrow> Some (Inl e)
      | Inr base_rows \<Rightarrow>
     (case compute_package_changes (se_json E) head_rows base_rows of
        None \<Rightarrow> None
      | Some (changes, metadata_available) \<Rightarrow>
          Some (Inr (Some \<lparr> pc_head_sha = head_sha, pc_base_sha = base_sha, pc_job = job,
            pc_computed_at = fst (se_clock E), pc_metadata_available = metadata_available,
            pc_package_changes = take max_packages_listed changes,
            pc_truncated = (max_packages_listed < length changes) \<rparr>))))))"

definition legacy_change_summary ::
  "SummaryEnv \<Rightarrow> 's GraphApi \<Rightarrow> string \<Rightarrow> string \<Rightarrow> string \<Rightarrow> ChangeSummaryOptions \<Rightarrow> string option \<Rightarrow>
   SummaryDb \<times> 's \<Rightarrow> (SummaryDb \<times> 's) \<times> (anyhow, ChangeSummary option) result option" where
  "legacy_change_summary E G head_sha base_sha job options cfg_error st =
     (if github_jobset_id (fst st) head_sha job = None then (st, Some (Inr None))
      else case (if co_summary_enabled options
                 then legacy_package_changes_response E (fst st) head_sha base_sha job (co_max_packages_listed options)
                 else Some (Inr (Some \<lparr> pc_head_sha = head_sha, pc_base_sha = base_sha, pc_job = job,
                        pc_computed_at = fst (se_clock E), pc_metadata_available = True, pc_package_changes = [],
                        pc_truncated = False \<rparr>))) of
        None \<Rightarrow> (st, None)
      | Some (Inl e) \<Rightarrow> (st, Some (Inl e))
      | Some (Inr None) \<Rightarrow> (st, Some (Inr None))
      | Some (Inr (Some pkg)) \<Rightarrow>
          (case (if co_impact_enabled options
                 then build_rebuild_impact_response_cached (se_impact_json E) G (se_clock E) head_sha base_sha job
                        (co_max_top_blast_radius options) (co_compute_full_blast_radius options) st
                 else (st, Inr None)) of
             (st', Inl e) \<Rightarrow> (st', Some (Inl e))
           | (st', Inr impact) \<Rightarrow> (st', map_option (Inr \<circ> Some) (assemble_summary options cfg_error pkg impact))))"

section \<open>The server around it\<close>

definition build_package_changes_response ::
  "SummaryEnv \<Rightarrow> SummaryDb \<Rightarrow> string \<Rightarrow> string \<Rightarrow> string \<Rightarrow> nat \<Rightarrow> (anyhow, PackageChangesResponse option) result option" where
  "build_package_changes_response E db head_sha base_sha job max_packages_listed =
     (case find_jobset db head_sha job of
        None \<Rightarrow> Some (Inr None)
      | Some js \<Rightarrow>
          map_option (map_sum id Some)
            (build_package_changes_from_jobset_ids E db (jst_rowid js) (github_jobset_id db base_sha job)
               (jobset_data_of js head_sha job) max_packages_listed))"

definition build_change_summary ::
  "SummaryEnv \<Rightarrow> 's GraphApi \<Rightarrow> string \<Rightarrow> string \<Rightarrow> string \<Rightarrow> ChangeSummaryOptions \<Rightarrow> string option \<Rightarrow>
   SummaryDb \<times> 's \<Rightarrow> (SummaryDb \<times> 's) \<times> (anyhow, ChangeSummary option) result option" where
  "build_change_summary E G head_sha base_sha job opts cfg_error st =
     (case find_jobset (fst st) head_sha job of
        None \<Rightarrow> (st, Some (Inr None))
      | Some js \<Rightarrow>
          apsnd (map_option (map_sum id Some))
            (build_change_summary_from_jobset_ids E G (jst_rowid js) (github_jobset_id (fst st) base_sha job)
               (jobset_data_of js head_sha job) base_sha opts cfg_error st))"

text \<open>The web handlers: a missing jobset is \<open>404\<close>, an error \<open>500\<close>.\<close>

datatype 'a http = HttpOk 'a | NotFound | ServerError

definition clamp :: "nat \<Rightarrow> nat \<Rightarrow> nat \<Rightarrow> nat" where
  "clamp x lo hi = max lo (min x hi)"

definition limit_or :: "nat option \<Rightarrow> nat \<Rightarrow> nat" where
  "limit_or q d = clamp (case q of Some n \<Rightarrow> n | None \<Rightarrow> d) 1 (d * 10)"

fun http_of :: "(anyhow, 'a option) result \<Rightarrow> 'a http" where
  "http_of (Inr (Some a)) = HttpOk a"
| "http_of (Inr None) = NotFound"
| "http_of (Inl _) = ServerError"

definition get_package_changes_handler ::
  "SummaryEnv \<Rightarrow> SummaryDb \<Rightarrow> string \<Rightarrow> string \<Rightarrow> string \<Rightarrow> nat option \<Rightarrow> PackageChangesResponse http option" where
  "get_package_changes_handler E db sha base_sha job max_listed =
     map_option http_of (build_package_changes_response E db sha base_sha job
       (limit_or max_listed DEFAULT_MAX_PACKAGES_LISTED))"

definition get_rebuild_impact_handler ::
  "SummaryEnv \<Rightarrow> 's GraphApi \<Rightarrow> string \<Rightarrow> string \<Rightarrow> string \<Rightarrow> nat option \<Rightarrow> SummaryDb \<times> 's \<Rightarrow>
   (SummaryDb \<times> 's) \<times> RebuildImpactResponse http" where
  "get_rebuild_impact_handler E G sha base_sha job max_top st =
     apsnd http_of (build_rebuild_impact_response_cached (se_impact_json E) G (se_clock E) sha base_sha job
       (limit_or max_top DEFAULT_MAX_TOP_BLAST_RADIUS) False st)"

definition get_change_summary_handler ::
  "SummaryEnv \<Rightarrow> 's GraphApi \<Rightarrow> string \<Rightarrow> string \<Rightarrow> string \<Rightarrow> nat option \<Rightarrow> nat option \<Rightarrow> SummaryDb \<times> 's \<Rightarrow>
   (SummaryDb \<times> 's) \<times> ChangeSummary http option" where
  "get_change_summary_handler E G sha base_sha job max_listed max_top st =
     (let (base_opts, cfg_error) = resolve_options_for_jobset E (fst st) sha job;
          opts = base_opts\<lparr>co_max_packages_listed := limit_or max_listed DEFAULT_MAX_PACKAGES_LISTED,
                           co_max_top_blast_radius := limit_or max_top DEFAULT_MAX_TOP_BLAST_RADIUS\<rparr>
      in apsnd (map_option http_of) (build_change_summary E G sha base_sha job opts cfg_error st))"

definition get_change_summary_markdown_handler ::
  "SummaryEnv \<Rightarrow> 's GraphApi \<Rightarrow> string \<Rightarrow> string \<Rightarrow> string \<Rightarrow> nat option \<Rightarrow> nat option \<Rightarrow> SummaryDb \<times> 's \<Rightarrow>
   (SummaryDb \<times> 's) \<times> string http option" where
  "get_change_summary_markdown_handler E G sha base_sha job max_listed max_top st =
     apsnd (map_option (map_http cs_markdown)) (get_change_summary_handler E G sha base_sha job max_listed max_top st)"

section \<open>Posting the summary\<close>

definition CHANGE_SUMMARY_HARD_CAP :: nat where "CHANGE_SUMMARY_HARD_CAP = 65500"

definition cap_marker :: string where
  "cap_marker = nl @ nl @ ''_'' @ ellipsis @ ''truncated by sender safety net_'' @ nl"

definition cap_summary_bytes :: "string \<Rightarrow> string" where
  "cap_summary_bytes summary =
     (if length summary \<le> CHANGE_SUMMARY_HARD_CAP then summary
      else take (walk_back summary CHANGE_SUMMARY_HARD_CAP) summary @ cap_marker)"

datatype SummaryPost = CreateCheck string string | UpdateCheck string nat string | PostComment int string string

record SummaryService =
  ss_pending :: "string list"
  ss_checks :: "(string \<times> nat) list"
  ss_posts :: "SummaryPost list"

text \<open>A jobset of a pull request schedules one summary per head commit; on GitHub the handler
  takes the commit out again.\<close>

definition schedule_summary :: "string \<Rightarrow> SummaryService \<Rightarrow> SummaryService \<times> bool" where
  "schedule_summary commit S =
     (S\<lparr>ss_pending := hs_insert commit (ss_pending S)\<rparr>, commit \<notin> set (ss_pending S))"

text \<open>The client of the owner's installation and the answer of GitHub to the creation are
  arguments; a failed update is only logged.\<close>

definition handle_create_change_summary_check ::
  "SummaryEnv \<Rightarrow> 's GraphApi \<Rightarrow> bool \<Rightarrow> nat option \<Rightarrow> string \<Rightarrow> string option \<Rightarrow> string \<Rightarrow>
   SummaryService \<times> SummaryDb \<times> 's \<Rightarrow> (SummaryService \<times> SummaryDb \<times> 's) \<times> (anyhow, unit) result option" where
  "handle_create_change_summary_check E G installed created commit base_commit job = (\<lambda>(S, st).
     let S = S\<lparr>ss_pending := hs_remove commit (ss_pending S)\<rparr> in
     case base_commit of None \<Rightarrow> ((S, st), Some (Inr ())) | Some base_sha \<Rightarrow>
     if \<not> installed then ((S, st), Some (Inl ''no installation for owner'')) else
     case find_jobset (fst st) commit job of None \<Rightarrow> ((S, st), Some (Inr ())) | Some js \<Rightarrow>
     let jd = jobset_data_of js commit job; (opts, cfg_error) = resolve_options_from_jobset_data E jd in
     case build_change_summary_from_jobset_ids E G (jst_rowid js) (github_jobset_id (fst st) base_sha job) jd
            base_sha opts cfg_error st of
       (st', None) \<Rightarrow> ((S, st'), None)
     | (st', Some (Inl _)) \<Rightarrow> ((S, st'), Some (Inr ()))
     | (st', Some (Inr summary)) \<Rightarrow>
         (case map_of (ss_checks S) commit of
            Some existing \<Rightarrow>
              ((S\<lparr>ss_posts := ss_posts S @ [UpdateCheck commit existing (cap_summary_bytes (cs_markdown summary))]\<rparr>, st'),
               Some (Inr ()))
          | None \<Rightarrow>
              (let S' = S\<lparr>ss_posts := ss_posts S @ [CreateCheck commit (cap_summary_bytes (cs_markdown summary))]\<rparr>
               in case created of
                    Some check_run \<Rightarrow> ((S'\<lparr>ss_checks := AList.update commit check_run (ss_checks S')\<rparr>, st'), Some (Inr ()))
                  | None \<Rightarrow> ((S', st'), Some (Inr ())))))"

text \<open>GitLab and Gitea: jobsets of their own (looked up by the caller), a comment instead of a
  check.  The request that has the commit as its head is an argument.\<close>

definition summary_marker :: "string \<Rightarrow> string" where
  "summary_marker job = ''<!-- eka-ci-change-summary-'' @ job @ '' -->''"

definition forge_create_change_summary_comment ::
  "SummaryEnv \<Rightarrow> 's GraphApi \<Rightarrow> (string \<Rightarrow> string \<Rightarrow> int option) \<Rightarrow> (string \<Rightarrow> string \<Rightarrow> string) \<Rightarrow> int option \<Rightarrow>
   JobsetData \<Rightarrow> string option \<Rightarrow> SummaryService \<times> SummaryDb \<times> 's \<Rightarrow>
   (SummaryService \<times> SummaryDb \<times> 's) \<times> (anyhow, unit) result option" where
  "forge_create_change_summary_comment E G jobset_id body request jd base_commit = (\<lambda>(S, st).
     case base_commit of None \<Rightarrow> ((S, st), Some (Inr ())) | Some base_sha \<Rightarrow>
     case jobset_id (jsd_sha jd) (jsd_job jd) of None \<Rightarrow> ((S, st), Some (Inr ())) | Some head_jobset_id \<Rightarrow>
     let (opts, cfg_error) = resolve_options_from_jobset_data E jd in
     case build_change_summary_from_jobset_ids E G head_jobset_id (jobset_id base_sha (jsd_job jd)) jd
            base_sha opts cfg_error st of
       (st', None) \<Rightarrow> ((S, st'), None)
     | (st', Some (Inl _)) \<Rightarrow> ((S, st'), Some (Inr ()))
     | (st', Some (Inr summary)) \<Rightarrow>
         (case request of
            None \<Rightarrow> ((S, st'), Some (Inr ()))
          | Some n \<Rightarrow>
              ((S\<lparr>ss_posts := ss_posts S @ [PostComment n (summary_marker (jsd_job jd))
                  (body (summary_marker (jsd_job jd)) (cs_markdown summary))]\<rparr>, st'), Some (Inr ()))))"

definition gitlab_create_change_summary_comment where
  "gitlab_create_change_summary_comment E G jobset_id request jd base_commit =
     forge_create_change_summary_comment E G jobset_id (\<lambda>_ markdown. markdown) request jd base_commit"

definition gitea_create_change_summary_check where
  "gitea_create_change_summary_check E G jobset_id request jd base_commit =
     forge_create_change_summary_comment E G jobset_id (\<lambda>marker markdown. marker @ nl @ nl @ markdown) request jd base_commit"

section \<open>Rows from the database do not panic\<close>

lemma split_on_last: "last (split_on c s) = (case rsplit_once c s of Some (_, b) \<Rightarrow> b | None \<Rightarrow> s)"
proof (cases "rsplit_once c s")
  case None
  moreover from this have "c \<notin> set s" by (simp add: str_simps)
  ultimately show ?thesis by (simp add: split_on_no_sep)
next
  case (Some p)
  obtain a b where p: "p = (a, b)" by (cases p)
  with Some have "s = a @ c # b" "c \<notin> set b" by (auto simp: str_simps)
  then have "last (split_on c s) = last (split_on c b)"
  proof (induction a arbitrary: s)
    case (Cons x a)
    have "split_on c (a @ c # b) \<noteq> [b]"
    proof
      assume "split_on c (a @ c # b) = [b]"
      then have "a @ c # b = b" using join_split_on [of c "a @ c # b"] by simp
      with \<open>c \<notin> set b\<close> show False by (metis in_set_conv_decomp)
    qed
    with Cons show ?case by (cases "split_on c (a @ c # b)") (auto simp: split_on_no_sep)
  qed simp
  with Some p \<open>c \<notin> set b\<close> show ?thesis by (simp add: split_on_no_sep)
qed

lemma name_byte_ascii: "is_valid_name_byte b \<Longrightarrow> is_ascii b"
proof -
  have "list_all is_ascii ''+-._?=''" by code_simp
  then show "is_valid_name_byte b \<Longrightarrow> is_ascii b"
    unfolding is_valid_name_byte_def is_ascii_alphanumeric_def is_ascii_digit_def is_ascii_upper_def is_ascii_lower_def
    by (elim disjE) (simp_all only: list_all_iff, simp_all add: is_ascii_def)
qed

lemma valid_drv_id_ascii: "valid_drv_id d \<Longrightarrow> list_all is_ascii d"
proof -
  assume "valid_drv_id d"
  then obtain h n where d: "d = h @ ''-'' @ n @ ''.drv''" "\<forall>b\<in>set h. b \<in> set NIX_BASE32_ALPHABET"
    "\<forall>b\<in>set n. is_valid_name_byte b" unfolding valid_drv_id_iff list_all_iff by blast
  have "list_all is_ascii ''-''" "list_all is_ascii ''.drv''" by code_simp+
  moreover have "list_all is_ascii h" "list_all is_ascii n"
    using d(2,3) alphabet_props name_byte_ascii by (auto simp: list_all_iff)
  ultimately show ?thesis unfolding d(1) list_all_append by blast
qed

lemma drv_name_ascii:
  assumes "DrvId_try_from path = Inr d"
  shows "list_all is_ascii (drv_name_from_path path)"
proof -
  have d: "d = last (split_on (CHR ''/'') path)" "valid_drv_id d"
    using assms by (auto simp: try_from_iff strip_store_path_def split_on_last split: option.splits)
  have "set (drv_name_from_path path) \<subseteq> set d"
    unfolding drv_name_from_path_def Let_def d(1) [symmetric]
    by (auto simp: str_simps split: option.splits)
  with valid_drv_id_ascii [OF d(2)] show ?thesis by (auto simp: list_all_iff)
qed

lemma load_rows_ascii:
  assumes "load_job_drv_rows jobs drvs jid = Inr rows"
  shows "list_all (\<lambda>r. list_all is_ascii (jd_name r)) rows"
proof -
  have "list_all is_ascii (jd_name r)" if "to_job_drv_row x = Inr r" for x r
    using that drv_name_ascii [of "ld_drv_path (snd x)"]
    by (cases x; cases "DrvId_try_from (ld_drv_path (snd x))") (auto simp: to_job_drv_row_def)
  then show ?thesis
    using collect_results_mem [OF assms [unfolded load_job_drv_rows_def]] by (fastforce simp: list_all_iff)
qed

lemma package_changes_total:
  "build_package_changes_from_jobset_ids E db head_jobset_id base_jobset_id jd n \<noteq> None"
proof -
  have total: "\<exists>out avail. compute_package_changes J hs bs = Some (out, avail)"
    if "load_job_drv_rows (sd_jobs db) (sd_drvs db) head_jobset_id = Inr hs"
      "(case base_jobset_id of Some b \<Rightarrow> load_job_drv_rows (sd_jobs db) (sd_drvs db) b | None \<Rightarrow> Inr []) = Inr bs" for J hs bs
    using that by (subst compute_package_changes_eq) (auto dest: load_rows_ascii split: option.splits)
  show ?thesis
  proof (cases "load_job_drv_rows (sd_jobs db) (sd_drvs db) head_jobset_id")
    case (Inr hs)
    then show ?thesis
      using total [OF Inr, where J = "se_json E"]
      by (cases "case base_jobset_id of Some b \<Rightarrow> load_job_drv_rows (sd_jobs db) (sd_drvs db) b | None \<Rightarrow> Inr []")
        (auto simp: build_package_changes_from_jobset_ids_def)
  qed (simp add: build_package_changes_from_jobset_ids_def)
qed

section \<open>Properties\<close>

lemma github_jobset_id_find: "github_jobset_id db sha job = map_option jst_rowid (find_jobset db sha job)"
  by (simp add: github_jobset_id_def find_jobset_def)

lemma package_changes_by_id:
  "find_jobset db head_sha job = Some js \<Longrightarrow>
   legacy_package_changes_response E db head_sha base_sha job n =
     map_option (map_sum id (\<lambda>r. Some (r\<lparr>pc_base_sha := base_sha\<rparr>)))
       (build_package_changes_from_jobset_ids E db (jst_rowid js) (github_jobset_id db base_sha job)
          (jobset_data_of js head_sha job) n)"
  by (simp add: legacy_package_changes_response_def build_package_changes_from_jobset_ids_def github_jobset_id_find
      jobset_data_of_def split: sum.split option.split)

lemma package_changes_head:
  "build_package_changes_from_jobset_ids E db h b jd n = Some (Inr r) \<Longrightarrow> pc_base_sha r = jsd_sha jd"
  by (auto simp: build_package_changes_from_jobset_ids_def split: sum.splits option.splits)

text \<open>The two entry points for a summary, by commit in the crate and through the jobset ids
  in the server, are the same function.  For the package changes alone they differ: the
  server's reports the head commit as the base of the comparison, whatever the base was.\<close>

theorem summary_entry_points:
  "build_change_summary E G head_sha base_sha job options cfg_error st =
     legacy_change_summary E G head_sha base_sha job options cfg_error st \<and>
   build_package_changes_response E db head_sha base_sha job n =
     map_option (map_sum id (map_option (\<lambda>r. r\<lparr>pc_base_sha := head_sha\<rparr>)))
       (legacy_package_changes_response E db head_sha base_sha job n)"
proof
  show "build_change_summary E G head_sha base_sha job options cfg_error st =
     legacy_change_summary E G head_sha base_sha job options cfg_error st"
  proof (cases "find_jobset (fst st) head_sha job")
    case None
    then show ?thesis by (simp add: build_change_summary_def legacy_change_summary_def github_jobset_id_find)
  next
    case (Some js)
    have jd: "jsd_sha (jobset_data_of js head_sha job) = head_sha" "jsd_job (jobset_data_of js head_sha job) = job"
      by (simp_all add: jobset_data_of_def)
    have id: "github_jobset_id (fst st) head_sha job \<noteq> None" using Some by (simp add: github_jobset_id_find)
    show ?thesis
      unfolding build_change_summary_def legacy_change_summary_def Some option.case
        build_change_summary_from_jobset_ids_def package_changes_by_id [OF Some] jd empty_package_changes_def Let_def if_not_P [OF id]
      by (auto split: option.split sum.split prod.split simp: comp_def option.map_comp)
  qed
next
  show "build_package_changes_response E db head_sha base_sha job n =
     map_option (map_sum id (map_option (\<lambda>r. r\<lparr>pc_base_sha := head_sha\<rparr>)))
       (legacy_package_changes_response E db head_sha base_sha job n)"
  proof (cases "find_jobset db head_sha job")
    case None
    then show ?thesis
      by (simp add: build_package_changes_response_def legacy_package_changes_response_def github_jobset_id_find)
  next
    case (Some js)
    let ?r = "build_package_changes_from_jobset_ids E db (jst_rowid js) (github_jobset_id db base_sha job)
      (jobset_data_of js head_sha job) n"
    have "pc_base_sha r = head_sha" if "?r = Some (Inr r)" for r
      using package_changes_head [OF that] by (simp add: jobset_data_of_def)
    then have "map_option (map_sum id (\<lambda>r. Some (r\<lparr>pc_base_sha := head_sha\<rparr>))) ?r = map_option (map_sum id Some) ?r"
      by (cases ?r; cases "the ?r") auto
    then show ?thesis
      unfolding build_package_changes_response_def package_changes_by_id [OF Some] Some
      by (simp add: option.map_comp sum.map_comp comp_def id_def)
  qed
qed

text \<open>Building a summary never panics on what the database holds; it panics only when the
  error of the configuration has a character across byte 200 or a commit id one across byte
  12.\<close>

theorem summary_panics_only_on_cuts:
  assumes "build_change_summary_from_jobset_ids E G head_jobset_id base_jobset_id jd base_sha options cfg_error st = (st', None)"
  shows "(\<exists>e. cfg_error = Some e \<and> 200 < length e \<and> is_continuation (e ! 200)) \<or>
     12 < length (jsd_sha jd) \<and> is_continuation (jsd_sha jd ! 12) \<or>
     12 < length base_sha \<and> is_continuation (base_sha ! 12)"
proof -
  have "\<exists>pkg impact. pc_head_sha pkg = jsd_sha jd \<and> pc_base_sha pkg = base_sha \<and>
      assemble_summary options cfg_error pkg impact = None"
    using assms package_changes_total [of E "fst st" head_jobset_id base_jobset_id jd "co_max_packages_listed options"]
    by (auto simp: build_change_summary_from_jobset_ids_def build_package_changes_from_jobset_ids_def Let_def
        empty_package_changes_def split: if_splits option.splits sum.splits prod.splits)
       (metis PackageChangesResponse.select_convs(1,2))+
  then obtain pkg impact where p: "pc_head_sha pkg = jsd_sha jd" "pc_base_sha pkg = base_sha"
    "assemble_summary options cfg_error pkg impact = None" by blast
  have "\<exists>S. cs_head_sha S = jsd_sha jd \<and> cs_base_sha S = base_sha \<and>
      render S \<lparr> ro_include_rebuild_only = co_include_rebuild_only options, ro_config_load_error = cfg_error \<rparr> = None"
    using p by (auto simp: assemble_summary_def Let_def split: option.splits prod.splits)
      (metis ChangeSummary.select_convs(1,2))+
  then obtain S where S: "cs_head_sha S = jsd_sha jd" "cs_base_sha S = base_sha"
    "render_panics S \<lparr> ro_include_rebuild_only = co_include_rebuild_only options, ro_config_load_error = cfg_error \<rparr>"
    using render_not_None by metis
  then show ?thesis by (auto simp: render_panics_def)
qed

definition demo_env :: "string option \<Rightarrow> SummaryEnv" where
  "demo_env err = \<lparr> se_json = demo_json, se_impact_json = \<lparr> ij_to_string = (\<lambda>_. []), ij_from_str = (\<lambda>_. None) \<rparr>,
     se_clock = ([], 0),
     se_config = (\<lambda>_ _ _ _. case err of None \<Rightarrow> Absent | Some e \<Rightarrow> Invalid ''c'' e) \<rparr>"

definition demo_jobset_data :: JobsetData where
  "demo_jobset_data = \<lparr> jsd_owner = ''o'', jsd_repo = ''r'', jsd_domain = ''github.com'', jsd_sha = ''abc'', jsd_job = ''ci'' \<rparr>"

definition demo_error :: string where
  "demo_error = replicate 199 (CHR ''x'') @ ellipsis"

text \<open>An error text of 202 bytes with an ellipsis at byte 199.\<close>

theorem summary_panics_only_on_cuts_witness:
  "\<forall>s. snd (build_change_summary_from_jobset_ids (demo_env None) (service_api list_lru DbService_db 0) 1 None demo_jobset_data ''def''
      (summary_options_default\<lparr>co_summary_enabled := False, co_impact_enabled := False\<rparr>) (Some demo_error)
      (demo_summary_db, s)) = None \<and>
   200 < length demo_error \<and> is_continuation (demo_error ! 200)"
proof
  fix s
  let ?b = "build_change_summary_from_jobset_ids (demo_env None) (service_api list_lru DbService_db 0) 1 None demo_jobset_data ''def''
      (summary_options_default\<lparr>co_summary_enabled := False, co_impact_enabled := False\<rparr>) (Some demo_error)
      (demo_summary_db, s)"
  have cut: "200 < length demo_error \<and> is_continuation (demo_error ! 200)"
    by (simp add: demo_error_def nth_append ellipsis_def is_continuation_def)
  then have "render_panics S \<lparr> ro_include_rebuild_only = r, ro_config_load_error = Some demo_error \<rparr>" for S r
    by (simp add: render_panics_def)
  then have "render S \<lparr> ro_include_rebuild_only = r, ro_config_load_error = Some demo_error \<rparr> = None" for S r
    using render_not_None by blast
  then have none: "snd ?b = None"
    by (simp add: build_change_summary_from_jobset_ids_def assemble_summary_def empty_package_changes_def)
  then have "?b = (fst ?b, None)" by (metis prod.collapse)
  from summary_panics_only_on_cuts [OF this] have "\<exists>e. Some demo_error = Some e \<and> 200 < length e \<and> is_continuation (e ! 200)"
    by (simp add: demo_jobset_data_def)
  with none cut show "snd ?b = None \<and> 200 < length demo_error \<and> is_continuation (demo_error ! 200)" by blast
qed

text \<open>The last check before a summary is posted on GitHub breaks the limit it is there for: a
  text of more than 65,500 bytes, which the renderer keeps to at most 65,535, is cut and
  marked to 65,538 when a character starts at the cut.\<close>

theorem safety_net_exceeds_limit:
  assumes "65500 < length markdown" "is_char_boundary markdown 65500"
  shows "length (cap_summary_bytes markdown) = 65538 \<and> GITHUB_CHECK_SUMMARY_HARD_LIMIT < length (cap_summary_bytes markdown)"
proof -
  have "walk_back markdown 65500 = 65500"
  proof -
    have "walk_back markdown (Suc 65499) = Suc 65499" using assms(2) by (subst walk_back.simps) simp
    then show ?thesis by simp
  qed
  moreover have "length cap_marker = 38" by (simp add: cap_marker_def nl_def ellipsis_def)
  ultimately have "length (cap_summary_bytes markdown) = 65538"
    using assms(1) by (simp add: cap_summary_bytes_def CHANGE_SUMMARY_HARD_CAP_def)
  then show ?thesis by (simp add: GITHUB_CHECK_SUMMARY_HARD_LIMIT_def)
qed

theorem safety_net_exceeds_limit_witness:
  "length (replicate 65501 (CHR ''a'')) \<le> GITHUB_CHECK_SUMMARY_HARD_LIMIT \<and>
   GITHUB_CHECK_SUMMARY_HARD_LIMIT < length (cap_summary_bytes (replicate 65501 (CHR ''a'')))"
proof -
  have "is_char_boundary (replicate 65501 (CHR ''a'')) 65500"
    by (simp add: is_char_boundary_def is_continuation_def)
  with safety_net_exceeds_limit [of "replicate 65501 (CHR ''a'')"] show ?thesis
    by (simp add: GITHUB_CHECK_SUMMARY_HARD_LIMIT_def)
qed

section \<open>Scheduling\<close>

text \<open>GitHub's handler takes the commit out of the pending set, so a later jobset schedules
  another summary.  The handlers of GitLab and Gitea do not: one summary per commit and
  process, and the set only grows.\<close>

lemma github_summary_rescheduled:
  assumes "handle_create_change_summary_check E G installed created commit base job (S, st) = ((S', st'), r)" "distinct (ss_pending S)"
  shows "commit \<notin> set (ss_pending S') \<and> snd (schedule_summary commit S')"
proof -
  have "set (ss_pending S') = set (ss_pending S) - {commit}"
    using assms(1) by (auto simp: handle_create_change_summary_check_def Let_def
        split: option.splits if_splits prod.splits sum.splits)
  then show ?thesis by (simp add: schedule_summary_def)
qed

lemma forge_summary_scheduled_once:
  assumes "forge_create_change_summary_comment E G jobset_id body request jd base (S, st) = ((S', st'), r)"
    "commit \<in> set (ss_pending S)"
  shows "commit \<in> set (ss_pending S') \<and> \<not> snd (schedule_summary commit S')"
proof -
  have "ss_pending S' = ss_pending S"
    using assms(1) by (auto simp: forge_create_change_summary_comment_def Let_def
        split: option.splits prod.splits sum.splits)
  with assms(2) show ?thesis by (simp add: schedule_summary_def)
qed

text \<open>The impact is looked up among the jobsets of GitHub whatever the forge, so a commit of
  another forge has none unless GitHub has a jobset for the same commit and job.\<close>

lemma forge_summary_without_impact:
  assumes "build_change_summary_from_jobset_ids E G head_jobset_id base_jobset_id jd base_sha options cfg_error st = (st', Some (Inr summary))"
    "github_jobset_id (fst st) (jsd_sha jd) (jsd_job jd) = None"
    "cache_lookup (se_impact_json E) (fst st) (jsd_sha jd) base_sha (jsd_job jd) (co_compute_full_blast_radius options) = None"
  shows "ri_per_system (cs_rebuild_impact summary) = [] \<and> ri_total_unique_drvs (cs_rebuild_impact summary) = 0"
proof -
  have "build_rebuild_impact_response_cached (se_impact_json E) G (se_clock E) (jsd_sha jd) base_sha (jsd_job jd)
      (co_max_top_blast_radius options) (co_compute_full_blast_radius options) st = (st, Inr None)"
    using assms(2,3) by (cases st) (simp add: build_rebuild_impact_response_cached_def build_rebuild_impact_response_def)
  then obtain pkg where "assemble_summary options cfg_error pkg None = Some summary"
    using assms(1) by (auto simp: build_change_summary_from_jobset_ids_def Let_def split: option.splits sum.splits if_splits)
  then show ?thesis by (auto simp: assemble_summary_def Let_def split: option.splits prod.splits)
qed

end
