(* ===== verification/Jobsets.thy ===== *)
theory Jobsets
  imports Change_Summary
begin

text \<open>
  Jobsets: the drvs an evaluation yields (\<open>evaluator/src/types/nix_eval_jobs.rs\<close>), the tables
  they are filed in (\<open>server/src/db/github/jobsets.rs\<close>, \<open>db/service.rs\<close>,
  \<open>sql/migrations/20251108_github.sql\<close>) with the comparison against the base commit, the
  grouping of dotted attributes into one gate (\<open>server/src/github/service/jobsets.rs\<close>), and the
  choice of directly changed packages (\<open>passthru_filter.rs\<close>).  The queries have no
  \<open>ORDER BY\<close>; the model answers them in table order.  JSON and \<open>git diff\<close> are arguments;
  \<^const>\<open>None\<close> is a panic.
\<close>

section \<open>Evaluated drvs\<close>

record LicenseEntry =
  lic_short_name :: "string option"
  lic_spdx_id :: "string option"
  lic_full_name :: "string option"
  lic_free :: "bool option"

datatype LicenseField = LicenseSingle LicenseEntry | LicenseMultiple "LicenseEntry list" | LicenseShorthand string

datatype HomepageField = HomepageSingle string | HomepageMultiple "string list"

record MaintainerEntry =
  mnt_name :: "string option"
  mnt_email :: "string option"
  mnt_github :: "string option"

record NixEvalMeta =
  nm_pname :: "string option"
  nm_version :: "string option"
  nm_description :: "string option"
  nm_homepage :: "HomepageField option"
  nm_license :: "LicenseField option"
  nm_maintainers :: "MaintainerEntry list option"
  nm_position :: "string option"
  nm_broken :: "bool option"
  nm_insecure :: "bool option"

record NixEvalDrv =
  ne_attr :: string
  ne_attr_path :: "string list"
  ne_drv_path :: string
  ne_input_drvs :: "(string \<times> string list) list option"
  ne_name :: string
  ne_outputs :: "(string \<times> string) list"
  ne_system :: string
  ne_meta :: "NixEvalMeta option"

text \<open>Serialisation of licenses and maintainers.\<close>

record MetaJson =
  mj_licenses :: "LicenseEntry list \<Rightarrow> string"
  mj_maintainers :: "MaintainerEntry list \<Rightarrow> string"

fun normalise :: "LicenseField \<Rightarrow> LicenseEntry list" where
  "normalise (LicenseSingle e) = [e]"
| "normalise (LicenseMultiple v) = v"
| "normalise (LicenseShorthand s) =
     [\<lparr> lic_short_name = Some s, lic_spdx_id = None, lic_full_name = None, lic_free = None \<rparr>]"

definition eval_pname_or_heuristic :: "NixEvalDrv \<Rightarrow> string option" where
  "eval_pname_or_heuristic job =
     (case Option.bind (ne_meta job) nm_pname of
        Some pname \<Rightarrow> if pname \<noteq> [] then Some pname else pname_from_name (ne_name job)
      | None \<Rightarrow> pname_from_name (ne_name job))"

definition eval_version_or_heuristic :: "NixEvalDrv \<Rightarrow> string option option" where
  "eval_version_or_heuristic job =
     (case Option.bind (ne_meta job) nm_version of
        Some version \<Rightarrow> if version \<noteq> [] then Some (Some version) else version_from_name (ne_name job)
      | None \<Rightarrow> version_from_name (ne_name job))"

definition non_empty :: "'a list option \<Rightarrow> 'a list option" where
  "non_empty x = (case x of Some y \<Rightarrow> if y = [] then None else Some y | None \<Rightarrow> None)"

definition to_drv_metadata :: "MetaJson \<Rightarrow> NixEvalDrv \<Rightarrow> DrvPackageMetadata option" where
  "to_drv_metadata J job =
     (case (eval_pname_or_heuristic job, eval_version_or_heuristic job) of
        (Some pname, Some version) \<Rightarrow>
          Some \<lparr> pm_pname = non_empty (Some pname), pm_version = non_empty version,
            pm_license_json = map_option (mj_licenses J \<circ> normalise) (Option.bind (ne_meta job) nm_license),
            pm_maintainers_json = map_option (mj_maintainers J) (non_empty (Option.bind (ne_meta job) nm_maintainers)),
            pm_meta_position = Option.bind (ne_meta job) nm_position,
            pm_broken = Option.bind (ne_meta job) nm_broken, pm_insecure = Option.bind (ne_meta job) nm_insecure \<rparr>
      | _ \<Rightarrow> None)"

section \<open>Tables\<close>

record JobTableRow =
  jt_jobset :: int
  jt_drv :: DrvId
  jt_name :: string
  jt_difference :: JobDifference

record CheckRunRow =
  cr_id :: int
  cr_drv :: DrvId
  cr_repo_name :: string
  cr_repo_owner :: string
  cr_node_id :: "string option"

text \<open>\<open>jb_configs\<close> is the column \<open>config_json\<close> of the jobsets, by row id.\<close>

record JobsetDb =
  jb_tables :: Database
  jb_jobsets :: "JobSet list"
  jb_configs :: "(int \<times> string option) list"
  jb_jobs :: "JobTableRow list"
  jb_check_runs :: "CheckRunRow list"
  jb_cache :: "ImpactCacheRow list"

text \<open>What the change summary reads of them.\<close>

definition job_of_row :: "Database \<Rightarrow> JobTableRow \<Rightarrow> JobOfSet" where
  "job_of_row db r = \<lparr> jbs_jobset = jt_jobset r, jbs_name = jt_name r, jbs_drv = jt_drv r,
     jbs_difference = jt_difference r,
     jbs_state = (case q_get_drv (jt_drv r) db of Some d \<Rightarrow> ld_build_state d | None \<Rightarrow> LocalQueued) \<rparr>"

definition summary_view :: "JobsetDb \<Rightarrow> SummaryDb" where
  "summary_view db = \<lparr> sd_jobsets = jb_jobsets db, sd_jobs = map (job_of_row (jb_tables db)) (jb_jobs db),
     sd_drvs = drv_rows (jb_tables db), sd_cache = jb_cache db \<rparr>"

section \<open>Creating a jobset\<close>

definition constraint_error :: anyhow where "constraint_error = ''constraint failed''"

definition row_not_found :: anyhow where "row_not_found = ''no rows returned by a query that expected to return at least one row''"

text \<open>The next \<open>INTEGER PRIMARY KEY\<close>; the largest 64-bit row id is not reached.\<close>

definition next_rowid :: "JobSet list \<Rightarrow> int" where
  "next_rowid jss = fold (max \<circ> jst_rowid) jss 0 + 1"

definition same_jobset :: "string \<Rightarrow> string \<Rightarrow> string \<Rightarrow> string \<Rightarrow> JobSet \<Rightarrow> bool" where
  "same_jobset sha name owner repo js =
     (jst_sha js = sha \<and> jst_job js = name \<and> jst_owner js = owner \<and> jst_repo_name js = repo)"

definition has_jobset :: "string \<Rightarrow> string \<Rightarrow> string \<Rightarrow> string \<Rightarrow> JobsetDb \<Rightarrow> bool" where
  "has_jobset sha name owner repo db = list_ex (same_jobset sha name owner repo) (jb_jobsets db)"

text \<open>\<open>UNIQUE (sha, job) ON CONFLICT IGNORE\<close>, then the row of this repository is read back.\<close>

definition create_jobset ::
  "string \<Rightarrow> string \<Rightarrow> string \<Rightarrow> string \<Rightarrow> string option \<Rightarrow> JobsetDb \<Rightarrow> JobsetDb \<times> (anyhow, int) result" where
  "create_jobset sha name owner repo config_json db =
     (let rowid = next_rowid (jb_jobsets db);
          db1 = (if list_ex (\<lambda>js. jst_sha js = sha \<and> jst_job js = name) (jb_jobsets db) then db
                 else db\<lparr>jb_jobsets := jb_jobsets db @ [\<lparr> jst_rowid = rowid, jst_sha = sha, jst_job = name,
                           jst_owner = owner, jst_repo_name = repo \<rparr>],
                         jb_configs := jb_configs db @ [(rowid, config_json)]\<rparr>)
      in (db1, case find (same_jobset sha name owner repo) (jb_jobsets db1) of
                 Some js \<Rightarrow> Inr (jst_rowid js) | None \<Rightarrow> Inl row_not_found))"

definition get_jobset_jobs_by_sha :: "string \<Rightarrow> string \<Rightarrow> JobsetDb \<Rightarrow> (string \<times> DrvId) list" where
  "get_jobset_jobs_by_sha sha name db =
     [(jt_name j, ld_drv_path d). j \<leftarrow> jb_jobs db,
        js \<leftarrow> filter (\<lambda>js. jst_rowid js = jt_jobset j \<and> jst_sha js = sha \<and> jst_job js = name) (jb_jobsets db),
        d \<leftarrow> filter (\<lambda>d. ld_drv_path d = jt_drv j) (drv_rows (jb_tables db))]"

text \<open>The row of an evaluated drv against the base, none when it is unchanged or its path does not parse.\<close>

definition job_row :: "int \<Rightarrow> (string \<rightharpoonup> DrvId) \<Rightarrow> NixEvalDrv \<Rightarrow> JobTableRow option" where
  "job_row jobset_id base_map job =
     (case local_DrvId_try_from (ne_drv_path job) of
        Inl _ \<Rightarrow> None
      | Inr drv_id \<Rightarrow>
          (case base_map (ne_attr job) of
             Some base_drv_path \<Rightarrow>
               if base_drv_path = drv_id then None
               else Some \<lparr> jt_jobset = jobset_id, jt_drv = drv_id, jt_name = ne_attr job, jt_difference = DiffChanged \<rparr>
           | None \<Rightarrow> Some \<lparr> jt_jobset = jobset_id, jt_drv = drv_id, jt_name = ne_attr job, jt_difference = DiffNew \<rparr>))"

text \<open>\<open>UNIQUE (jobset, name, drv_id) ON CONFLICT IGNORE\<close>; a drv or a jobset that is not there
  fails the statement.\<close>

definition same_job :: "JobTableRow \<Rightarrow> JobTableRow \<Rightarrow> bool" where
  "same_job r r' = (jt_jobset r = jt_jobset r' \<and> jt_name r = jt_name r' \<and> jt_drv r = jt_drv r')"

fun insert_job_rows :: "JobTableRow list \<Rightarrow> JobsetDb \<Rightarrow> (anyhow, JobsetDb) result" where
  "insert_job_rows [] db = Inr db"
| "insert_job_rows (r # rs) db =
     (if jt_drv r \<notin> drv_paths (jb_tables db) \<or> jt_jobset r \<notin> jst_rowid ` set (jb_jobsets db) then Inl constraint_error
      else insert_job_rows rs
             (if list_ex (same_job r) (jb_jobs db) then db else db\<lparr>jb_jobs := jb_jobs db @ [r]\<rparr>))"

text \<open>One transaction: a failing statement leaves nothing of it.\<close>

definition create_jobs_for_jobset ::
  "int \<Rightarrow> NixEvalDrv list \<Rightarrow> (string \<times> DrvId) list option \<Rightarrow> JobsetDb \<Rightarrow> JobsetDb \<times> (anyhow, unit) result" where
  "create_jobs_for_jobset jobset_id jobs base_jobs db =
     (if jobs = [] then (db, Inr ())
      else let base_map = map_of (rev (case base_jobs of Some b \<Rightarrow> b | None \<Rightarrow> []));
               job_data = List.map_filter (job_row jobset_id base_map) jobs
           in case insert_job_rows (concat (chunks 200 job_data)) db of
                Inl e \<Rightarrow> (db, Inl e)
              | Inr db' \<Rightarrow> (db', Inr ()))"

definition eval_drv_row :: "NixEvalDrv \<Rightarrow> LocalDrv list option" where
  "eval_drv_row job =
     (case local_DrvId_try_from (ne_drv_path job) of
        Inl _ \<Rightarrow> Some []
      | Inr drv_id \<Rightarrow>
          (case (eval_pname_or_heuristic job, eval_version_or_heuristic job) of
             (Some pname, Some version) \<Rightarrow>
               Some [\<lparr> ld_drv_path = drv_id, ld_system = ne_system job, ld_prefer_local_build = False,
                 ld_required_system_features = None, ld_is_fod = False, ld_build_state = LocalQueued,
                 ld_output_size = None, ld_closure_size = None, ld_pname = Some pname, ld_version = version,
                 ld_license_json = None, ld_maintainers_json = None, ld_meta_position = None,
                 ld_broken = None, ld_insecure = None \<rparr>]
           | _ \<Rightarrow> None))"

definition metadata_item :: "MetaJson \<Rightarrow> NixEvalDrv \<Rightarrow> (DrvId \<times> DrvPackageMetadata) list option" where
  "metadata_item J job =
     (case local_DrvId_try_from (ne_drv_path job) of
        Inl _ \<Rightarrow> Some []
      | Inr drv_id \<Rightarrow> map_option (\<lambda>m. [(drv_id, m)]) (to_drv_metadata J job))"

definition create_github_jobset_with_jobs ::
  "MetaJson \<Rightarrow> string \<Rightarrow> string \<Rightarrow> string \<Rightarrow> string \<Rightarrow> NixEvalDrv list \<Rightarrow> string option \<Rightarrow> string option \<Rightarrow>
   JobsetDb \<Rightarrow> JobsetDb \<times> (anyhow, int) result option" where
  "create_github_jobset_with_jobs J sha name owner repo jobs config_json base_sha db =
     (case create_jobset sha name owner repo config_json db of
        (db1, Inl e) \<Rightarrow> (db1, Some (Inl e))
      | (db1, Inr jobset_id) \<Rightarrow>
     (let base_jobs = map_option (\<lambda>base. get_jobset_jobs_by_sha base name db1) base_sha in
      case opt_concat_map eval_drv_row jobs of
        None \<Rightarrow> (db1, None)
      | Some eval_drvs \<Rightarrow>
     (case insert_drvs_and_references (jb_tables db1) eval_drvs [] of
        (t, Inl e) \<Rightarrow> (db1\<lparr>jb_tables := t\<rparr>, Some (Inl e))
      | (t, Inr _) \<Rightarrow>
     (case create_jobs_for_jobset jobset_id jobs base_jobs (db1\<lparr>jb_tables := t\<rparr>) of
        (db2, Inl e) \<Rightarrow> (db2, Some (Inl e))
      | (db2, Inr _) \<Rightarrow>
     (case opt_concat_map (metadata_item J) jobs of
        None \<Rightarrow> (db2, None)
      | Some metadata_items \<Rightarrow>
          (db2\<lparr>jb_tables := update_drv_package_metadata (jb_tables db2) metadata_items\<rparr>, Some (Inr jobset_id)))))))"

section \<open>Queries on jobsets\<close>

record NewOrChangedJob =
  nc_name :: string
  nc_difference :: JobDifference
  nc_drv_path :: DrvId
  nc_build_state :: LocalState

definition jobs_with_drvs :: "(JobTableRow \<Rightarrow> bool) \<Rightarrow> JobsetDb \<Rightarrow> NewOrChangedJob list" where
  "jobs_with_drvs P db =
     [\<lparr> nc_name = jt_name j, nc_difference = jt_difference j, nc_drv_path = ld_drv_path d,
        nc_build_state = ld_build_state d \<rparr>.
      j \<leftarrow> filter P (jb_jobs db), d \<leftarrow> filter (\<lambda>d. ld_drv_path d = jt_drv j) (drv_rows (jb_tables db))]"

definition q_new_or_changed_jobs :: "int \<Rightarrow> JobsetDb \<Rightarrow> NewOrChangedJob list" where
  "q_new_or_changed_jobs jobset_id =
     jobs_with_drvs (\<lambda>j. jt_jobset j = jobset_id \<and> jt_difference j \<in> {DiffNew, DiffChanged})"

definition get_jobset_by_id :: "int \<Rightarrow> JobsetDb \<Rightarrow> JobSet option" where
  "get_jobset_by_id jobset_id db = find (\<lambda>js. jst_rowid js = jobset_id) (jb_jobsets db)"

definition jobs_of_drv :: "DrvId \<Rightarrow> JobsetDb \<Rightarrow> JobTableRow list" where
  "jobs_of_drv drv_id db = filter (\<lambda>j. jt_drv j = drv_id) (jb_jobs db)"

definition jobsets_of_drv :: "DrvId \<Rightarrow> JobsetDb \<Rightarrow> JobSet list" where
  "jobsets_of_drv drv_id db =
     [js. j \<leftarrow> jobs_of_drv drv_id db, js \<leftarrow> filter (\<lambda>js. jst_rowid js = jt_jobset j) (jb_jobsets db)]"

definition get_job_config_for_drv :: "DrvId \<Rightarrow> JobsetDb \<Rightarrow> string option" where
  "get_job_config_for_drv drv_id db =
     (case jobsets_of_drv drv_id db of
        [] \<Rightarrow> None
      | js # _ \<Rightarrow> Option.bind (map_of (jb_configs db) (jst_rowid js)) (\<lambda>c. c))"

definition get_reconstitution_context :: "DrvId \<Rightarrow> JobsetDb \<Rightarrow> JobSet option" where
  "get_reconstitution_context drv_id db = (case jobsets_of_drv drv_id db of [] \<Rightarrow> None | js # _ \<Rightarrow> Some js)"

text \<open>The recursive query: the drv and everything that refers to it, then the first jobset of one of them.\<close>

definition get_reconstitution_context_transitive :: "DrvId \<Rightarrow> JobsetDb \<Rightarrow> JobSet option" where
  "get_reconstitution_context_transitive drv_id db =
     (case concat (map (\<lambda>d. jobsets_of_drv d db) (bfs (referrers_of (jb_tables db)) [drv_id] [drv_id])) of
        [] \<Rightarrow> None | js # _ \<Rightarrow> Some js)"

section \<open>Grouping by the first component of the attribute\<close>

fun difference_severity :: "JobDifference \<Rightarrow> nat" where
  "difference_severity DiffRemoved = 0"
| "difference_severity DiffNew = 1"
| "difference_severity DiffChanged = 2"

definition worst_difference :: "JobDifference \<Rightarrow> JobDifference \<Rightarrow> JobDifference" where
  "worst_difference a b = (if difference_severity b \<le> difference_severity a then a else b)"

fun build_state_severity :: "LocalState \<Rightarrow> nat" where
  "build_state_severity (LocalCompleted LocalSuccess) = 0"
| "build_state_severity (LocalInterrupted LocalCancelled) = 1"
| "build_state_severity LocalQueued = 2"
| "build_state_severity LocalBuildable = 2"
| "build_state_severity LocalBlocked = 2"
| "build_state_severity LocalFailedRetry = 3"
| "build_state_severity LocalBuilding = 3"
| "build_state_severity (LocalInterrupted LocalTimeout) = 4"
| "build_state_severity (LocalCompleted LocalFailure) = 5"
| "build_state_severity LocalTransitiveFailure = 5"
| "build_state_severity LocalUnsatisfiableRequirements = 5"
| "build_state_severity (LocalInterrupted LocalOutOfMemory) = 5"
| "build_state_severity (LocalInterrupted LocalProcessDeath) = 5"
| "build_state_severity (LocalInterrupted LocalSchedulerDeath) = 5"

text \<open>\<open>Iterator::max_by_key\<close>: the last of the largest.\<close>

definition max_by_key :: "('a \<Rightarrow> nat) \<Rightarrow> 'a list \<Rightarrow> 'a option" where
  "max_by_key key xs =
     fold (\<lambda>x acc. case acc of None \<Rightarrow> Some x | Some y \<Rightarrow> if key y \<le> key x then Some x else Some y) xs None"

definition aggregate_build_state :: "LocalState list \<Rightarrow> LocalState" where
  "aggregate_build_state states =
     (case max_by_key build_state_severity states of Some s \<Rightarrow> s | None \<Rightarrow> LocalQueued)"

record VariantGroup =
  vg_name :: string
  vg_variants :: "NewOrChangedJob list"
  vg_worst_difference :: JobDifference
  vg_worst_build_state :: LocalState

definition push_job ::
  "NewOrChangedJob \<Rightarrow> (string \<times> NewOrChangedJob list) list \<times> NewOrChangedJob list \<Rightarrow>
   (string \<times> NewOrChangedJob list) list \<times> NewOrChangedJob list" where
  "push_job job = (\<lambda>(groups, ungrouped).
     case split_once (CHR ''.'') (nc_name job) of
       Some (pre, _) \<Rightarrow>
         (bt_insert pre ((case map_of groups pre of Some vs \<Rightarrow> vs | None \<Rightarrow> []) @ [job]) groups, ungrouped)
     | None \<Rightarrow> (groups, ungrouped @ [job]))"

definition variant_group :: "string \<times> NewOrChangedJob list \<Rightarrow> VariantGroup" where
  "variant_group = (\<lambda>(group_name, variants).
     \<lparr> vg_name = group_name, vg_variants = variants,
       vg_worst_difference = fold (\<lambda>v acc. worst_difference acc (nc_difference v)) variants DiffRemoved,
       vg_worst_build_state = aggregate_build_state (map nc_build_state variants) \<rparr>)"

definition group_jobs_by_prefix :: "NewOrChangedJob list \<Rightarrow> VariantGroup list \<times> NewOrChangedJob list" where
  "group_jobs_by_prefix jobs = apfst (map variant_group) (fold push_job jobs ([], []))"

fun state_emoji :: "LocalState \<Rightarrow> string" where
  "state_emoji (LocalCompleted LocalSuccess) = '':white_check_mark:''"
| "state_emoji (LocalCompleted LocalFailure) = '':x:''"
| "state_emoji LocalTransitiveFailure = '':x:''"
| "state_emoji LocalUnsatisfiableRequirements = '':x:''"
| "state_emoji (LocalInterrupted LocalTimeout) = '':alarm_clock:''"
| "state_emoji (LocalInterrupted LocalCancelled) = '':no_entry_sign:''"
| "state_emoji (LocalInterrupted _) = '':x:''"
| "state_emoji LocalBuilding = '':hourglass:''"
| "state_emoji LocalFailedRetry = '':hourglass:''"
| "state_emoji LocalQueued = '':clock3:''"
| "state_emoji LocalBuildable = '':clock3:''"
| "state_emoji LocalBlocked = '':lock:''"

fun state_label :: "LocalState \<Rightarrow> string" where
  "state_label (LocalCompleted LocalSuccess) = ''Success''"
| "state_label (LocalCompleted LocalFailure) = ''Failed''"
| "state_label LocalTransitiveFailure = ''Transitive failure''"
| "state_label LocalUnsatisfiableRequirements = ''Unsatisfiable requirements''"
| "state_label (LocalInterrupted LocalTimeout) = ''Timed out''"
| "state_label (LocalInterrupted LocalCancelled) = ''Cancelled''"
| "state_label (LocalInterrupted LocalOutOfMemory) = ''Out of memory''"
| "state_label (LocalInterrupted LocalProcessDeath) = ''Process died''"
| "state_label (LocalInterrupted LocalSchedulerDeath) = ''Scheduler died''"
| "state_label LocalBuilding = ''Building''"
| "state_label LocalFailedRetry = ''Retrying''"
| "state_label LocalQueued = ''Queued''"
| "state_label LocalBuildable = ''Queued''"
| "state_label LocalBlocked = ''Blocked''"

definition variant_suffix :: "string \<Rightarrow> string" where
  "variant_suffix attr_name =
     (case split_once (CHR ''.'') attr_name of Some (_, suf) \<Rightarrow> suf | None \<Rightarrow> attr_name)"

definition variant_line :: "string \<Rightarrow> LocalState \<Rightarrow> string" where
  "variant_line name st =
     ''| '' @ variant_suffix name @ '' | '' @ state_emoji st @ '' '' @ state_label st @ '' |'' @ nl"

definition variant_header :: string where
  "variant_header = ''## Variants'' @ nl @ nl @ ''| Variant | Status |'' @ nl @ ''|---------|--------|'' @ nl"

definition build_variant_summary :: "NewOrChangedJob list \<Rightarrow> string" where
  "build_variant_summary variants =
     variant_header @ concat (map (\<lambda>v. variant_line (nc_name v) (nc_build_state v)) variants)"

section \<open>Directly changed packages\<close>

definition position_to_repo_relative_path :: "string \<Rightarrow> string option" where
  "position_to_repo_relative_path position =
     (let path = (case rsplit_once (CHR '':'') position of Some (p, _) \<Rightarrow> p | None \<Rightarrow> position) in
      if path = [] then None
      else case strip_prefix_str ''/nix/store/'' path of
        Some after_store \<Rightarrow> map_option snd (split_once (CHR ''/'') after_store)
      | None \<Rightarrow> Some path)"

definition get_meta_positions :: "DrvId list \<Rightarrow> Database \<Rightarrow> (DrvId \<times> string option) list" where
  "get_meta_positions ids db =
     concat (map (\<lambda>chunk. [(ld_drv_path d, ld_meta_position d). d \<leftarrow> drv_rows db, ld_drv_path d \<in> set chunk])
       (chunks 200 ids))"

text \<open>\<open>changed_files\<close> is the outcome of \<open>git diff --name-only\<close>.\<close>

definition filter_directly_changed ::
  "NewOrChangedJob list \<Rightarrow> (anyhow, string list) result \<Rightarrow> Database \<Rightarrow> (anyhow, string list) result" where
  "filter_directly_changed changed_jobs changed_files db =
     (if changed_jobs = [] then Inr []
      else case changed_files of
        Inl e \<Rightarrow> Inl e
      | Inr files \<Rightarrow>
          if files = [] then Inr []
          else let position_map = map_of (rev (get_meta_positions (map nc_drv_path changed_jobs) db)) in
               Inr (map nc_name (filter (\<lambda>job.
                 case position_map (nc_drv_path job) of
                   Some (Some pos) \<Rightarrow>
                     (case position_to_repo_relative_path pos of Some rel_path \<Rightarrow> rel_path \<in> set files | None \<Rightarrow> False)
                 | _ \<Rightarrow> False) changed_jobs)))"

end
