(* ===== verification/Jobset_Props.thy ===== *)
theory Jobset_Props
  imports Jobsets
begin

text \<open>
  What holds of the tables of jobsets: their invariant, the rows a jobset gets, the gates of
  grouped attributes, and the change summary of a jobset that was compared with its base.
\<close>

section \<open>The invariant of the tables\<close>

definition jobset_wf :: "JobsetDb \<Rightarrow> bool" where
  "jobset_wf db =
     (distinct (map jst_rowid (jb_jobsets db)) \<and>
      distinct (map (\<lambda>js. (jst_sha js, jst_job js)) (jb_jobsets db)) \<and>
      distinct (map ld_drv_path (drv_rows (jb_tables db))) \<and>
      (\<forall>d\<in>drv_paths (jb_tables db). valid_drv_id d) \<and>
      (\<forall>r\<in>set (jb_jobs db). jt_jobset r \<in> jst_rowid ` set (jb_jobsets db) \<and> jt_drv r \<in> drv_paths (jb_tables db)))"

lemma concat_chunks [simp]: "concat (chunks n xs) = xs"
  by (induction n xs rule: chunks.induct) simp_all

lemma next_rowid_fresh: "js \<in> set jss \<Longrightarrow> jst_rowid js < next_rowid jss"
proof -
  have "fold (max \<circ> jst_rowid) jss m \<ge> m \<and> (\<forall>js\<in>set jss. jst_rowid js \<le> fold (max \<circ> jst_rowid) jss m)" for m
  proof (induction jss arbitrary: m)
    case (Cons j jss)
    show ?case using Cons.IH [of "max (jst_rowid j) m"] by auto
  qed simp
  then show "js \<in> set jss \<Longrightarrow> jst_rowid js < next_rowid jss" by (fastforce simp: next_rowid_def)
qed

lemma next_rowid_notin: "next_rowid jss \<notin> jst_rowid ` set jss"
  using next_rowid_fresh by fastforce

lemma upsert_row_paths:
  "ld_drv_path ` set (upsert_row d rows) = insert (ld_drv_path d) (ld_drv_path ` set rows)"
  "distinct (map ld_drv_path rows) \<Longrightarrow> distinct (map ld_drv_path (upsert_row d rows))"
proof -
  have keep: "map ld_drv_path (map (\<lambda>r. if ld_drv_path r = p then enrich_row d r else r) rows) = map ld_drv_path rows" for p
    by (simp add: enrich_row_def)
  then have "ld_drv_path ` set (map (\<lambda>r. if ld_drv_path r = p then enrich_row d r else r) rows) = ld_drv_path ` set rows" for p
    by (metis list.set_map)
  then show "ld_drv_path ` set (upsert_row d rows) = insert (ld_drv_path d) (ld_drv_path ` set rows)"
    unfolding upsert_row_def by (cases "ld_drv_path d \<in> ld_drv_path ` set rows") (simp_all only: if_True if_False, auto)
  show "distinct (map ld_drv_path rows) \<Longrightarrow> distinct (map ld_drv_path (upsert_row d rows))"
    unfolding upsert_row_def using keep [of "ld_drv_path d"]
    by (cases "ld_drv_path d \<in> ld_drv_path ` set rows") (simp_all only: if_True if_False, auto)
qed

lemma fold_upsert_paths:
  "ld_drv_path ` set (fold upsert_row ds rows) = ld_drv_path ` set ds \<union> ld_drv_path ` set rows"
  "distinct (map ld_drv_path rows) \<Longrightarrow> distinct (map ld_drv_path (fold upsert_row ds rows))"
  by (induction ds arbitrary: rows) (auto simp: upsert_row_paths)

lemma insert_drvs_no_refs:
  "insert_drvs_and_references db drvs [] = (db\<lparr>drv_rows := fold upsert_row drvs (drv_rows db)\<rparr>, Inr ())"
proof -
  have "fold (\<lambda>chunk db. db\<lparr>drv_rows := fold upsert_row chunk (drv_rows db)\<rparr>) cs db =
      db\<lparr>drv_rows := fold upsert_row (concat cs) (drv_rows db)\<rparr>" for cs and db :: Database
    by (induction cs arbitrary: db) simp_all
  then show ?thesis by (simp add: insert_drvs_and_references_def)
qed

lemma update_row_metadata_extends: "list_all2 row_extends rows (update_row_metadata item rows)"
proof (cases item)
  case (Pair d m)
  have some: "Database.coalesce a b \<noteq> None" if "b \<noteq> None" for a b :: "'b option"
    using that by (auto simp: Database.coalesce_def split: option.split)
  show ?thesis
    using Pair by (simp add: update_row_metadata_def list_all2_refl list_all2_map2 list_all2_same)
      (simp add: row_extends_def some del: not_None_eq)
qed

lemma update_metadata_extends: "list_all2 row_extends rows (fold update_row_metadata items rows)"
proof (induction items arbitrary: rows)
  case (Cons i items)
  show ?case
    using list_all2_trans [OF row_extends_trans update_row_metadata_extends Cons.IH] by simp
qed (simp add: list_all2_refl)

lemma rows_extend_metadata: "rows_extend rows (fold update_row_metadata items rows)"
  using update_metadata_extends unfolding rows_extend_def by (metis append_Nil2)

lemma update_metadata_paths [simp]:
  "map ld_drv_path (fold update_row_metadata items rows) = map ld_drv_path rows"
proof -
  have "list_all2 (\<lambda>r r'. ld_drv_path r' = ld_drv_path r) rows (fold update_row_metadata items rows)"
    using update_metadata_extends by (rule list_all2_mono) (simp add: row_extends_def)
  then show ?thesis by (induction rule: list_all2_induct) auto
qed

section \<open>Creating a jobset\<close>

definition taken :: "string \<Rightarrow> string \<Rightarrow> JobsetDb \<Rightarrow> bool" where
  "taken sha name db = list_ex (\<lambda>js. jst_sha js = sha \<and> jst_job js = name) (jb_jobsets db)"

definition with_jobset :: "string \<Rightarrow> string \<Rightarrow> string \<Rightarrow> string \<Rightarrow> string option \<Rightarrow> JobsetDb \<Rightarrow> JobsetDb" where
  "with_jobset sha name owner repo config_json db =
     db\<lparr>jb_jobsets := jb_jobsets db @ [\<lparr> jst_rowid = next_rowid (jb_jobsets db), jst_sha = sha, jst_job = name,
          jst_owner = owner, jst_repo_name = repo \<rparr>],
        jb_configs := jb_configs db @ [(next_rowid (jb_jobsets db), config_json)]\<rparr>"

lemma find_snoc: "find P (xs @ [x]) = (case find P xs of Some y \<Rightarrow> Some y | None \<Rightarrow> if P x then Some x else None)"
  by (induction xs) simp_all

lemma create_jobset_fresh:
  assumes "\<not> taken sha name db"
  shows "create_jobset sha name owner repo config_json db =
    (with_jobset sha name owner repo config_json db, Inr (next_rowid (jb_jobsets db)))"
proof -
  have "find (same_jobset sha name owner repo) (jb_jobsets db) = None"
    using assms by (auto simp: find_None_iff same_jobset_def taken_def list_ex_iff)
  then show ?thesis
    using assms by (simp add: create_jobset_def with_jobset_def taken_def Let_def find_snoc same_jobset_def)
qed

lemma create_jobset_taken:
  assumes "taken sha name db"
  shows "create_jobset sha name owner repo config_json db =
    (db, case find (same_jobset sha name owner repo) (jb_jobsets db) of
           Some js \<Rightarrow> Inr (jst_rowid js) | None \<Rightarrow> Inl row_not_found)"
  using assms by (simp add: create_jobset_def taken_def)

lemma eval_names_total:
  assumes "list_all is_ascii (ne_name job)"
  shows "eval_pname_or_heuristic job \<noteq> None" "eval_version_or_heuristic job \<noteq> None"
  using name_split [OF assms]
  by (auto simp: eval_pname_or_heuristic_def eval_version_or_heuristic_def split: option.splits)

definition eval_ids :: "NixEvalDrv list \<Rightarrow> DrvId set" where
  "eval_ids jobs = {d. \<exists>job\<in>set jobs. local_DrvId_try_from (ne_drv_path job) = Inr d}"

lemma eval_drv_row_paths: "eval_drv_row job = Some rows \<Longrightarrow> ld_drv_path ` set rows = eval_ids [job]"
  by (auto simp: eval_drv_row_def eval_ids_def split: sum.splits option.splits)

lemma eval_drvs_paths:
  "opt_concat_map eval_drv_row jobs = Some rows \<Longrightarrow> ld_drv_path ` set rows = eval_ids jobs"
proof (induction jobs arbitrary: rows)
  case (Cons job jobs)
  then obtain r rs where "eval_drv_row job = Some r" "opt_concat_map eval_drv_row jobs = Some rs" "rows = r @ rs"
    by (auto split: option.splits)
  then have "ld_drv_path ` set rows = eval_ids [job] \<union> eval_ids jobs"
    using Cons.IH eval_drv_row_paths by (simp add: image_Un)
  then show ?case by (auto simp: eval_ids_def)
qed (simp add: eval_ids_def)

lemma eval_rows_total:
  assumes "\<forall>job\<in>set jobs. list_all is_ascii (ne_name job)"
  shows "opt_concat_map eval_drv_row jobs \<noteq> None" "opt_concat_map (metadata_item J) jobs \<noteq> None"
proof -
  have "eval_drv_row job \<noteq> None \<and> metadata_item J job \<noteq> None" if "job \<in> set jobs" for job
    using that assms eval_names_total [of job]
    by (auto simp: eval_drv_row_def metadata_item_def to_drv_metadata_def split: sum.split)
  then show "opt_concat_map eval_drv_row jobs \<noteq> None" "opt_concat_map (metadata_item J) jobs \<noteq> None"
    by (simp_all only: opt_concat_map_None) blast+
qed

definition add_job :: "JobTableRow \<Rightarrow> JobTableRow list \<Rightarrow> JobTableRow list" where
  "add_job r rows = (if list_ex (same_job r) rows then rows else rows @ [r])"

lemma insert_job_rows_eq:
  "insert_job_rows rs db =
     (if \<forall>r\<in>set rs. jt_drv r \<in> drv_paths (jb_tables db) \<and> jt_jobset r \<in> jst_rowid ` set (jb_jobsets db)
      then Inr (db\<lparr>jb_jobs := fold add_job rs (jb_jobs db)\<rparr>) else Inl constraint_error)"
  by (induction rs arbitrary: db) (auto simp: add_job_def)

lemma fold_add_job_prefix: "\<exists>new. fold add_job rs rows = rows @ new \<and> set new \<subseteq> set rs"
proof (induction rs arbitrary: rows)
  case (Cons r rs)
  obtain new where "fold add_job rs (add_job r rows) = add_job r rows @ new" "set new \<subseteq> set rs" using Cons by blast
  moreover obtain x where "add_job r rows = rows @ x" "set x \<subseteq> {r}" by (cases "list_ex (same_job r) rows") (auto simp: add_job_def)
  ultimately show ?case by (intro exI [of _ "x @ new"]) auto
qed simp

lemma fold_add_job_set:
  assumes "\<And>r r'. r \<in> set rs \<Longrightarrow> r' \<in> set rs \<union> set rows \<Longrightarrow> same_job r r' \<Longrightarrow> r = r'"
  shows "set (fold add_job rs rows) = set rows \<union> set rs"
  using assms
proof (induction rs arbitrary: rows)
  case (Cons r rs)
  have "set (add_job r rows) = insert r (set rows)"
    using Cons.prems [of r] by (auto simp: add_job_def list_ex_iff same_job_def)
  then show ?case using Cons.IH [of "add_job r rows"] Cons.prems by (simp add: insert_commute)
qed simp

lemma base_jobs_with_jobset:
  assumes "jobset_wf db"
  shows "get_jobset_jobs_by_sha base name (with_jobset sha name' owner repo cfg db) = get_jobset_jobs_by_sha base name db"
proof -
  have "next_rowid (jb_jobsets db) \<noteq> jt_jobset j" if "j \<in> set (jb_jobs db)" for j
    using assms that next_rowid_fresh by (fastforce simp: jobset_wf_def)
  then show ?thesis
    by (auto simp: get_jobset_jobs_by_sha_def with_jobset_def intro!: arg_cong [where f = concat] map_cong)
qed

text \<open>The base a jobset is compared with.\<close>

definition base_of :: "string option \<Rightarrow> string \<Rightarrow> JobsetDb \<Rightarrow> string \<rightharpoonup> DrvId" where
  "base_of base_sha name db =
     map_of (rev (case base_sha of Some base \<Rightarrow> get_jobset_jobs_by_sha base name db | None \<Rightarrow> []))"

lemma job_row_Some:
  "job_row jid base job = Some r \<longleftrightarrow>
     jt_jobset r = jid \<and> jt_name r = ne_attr job \<and> local_DrvId_try_from (ne_drv_path job) = Inr (jt_drv r) \<and>
     (case base (ne_attr job) of
        None \<Rightarrow> jt_difference r = DiffNew
      | Some b \<Rightarrow> b \<noteq> jt_drv r \<and> jt_difference r = DiffChanged)"
  by (cases r) (auto simp: job_row_def split: sum.split option.split)

lemma job_row_ids: "job_row jid base job = Some r \<Longrightarrow> jt_jobset r = jid \<and> jt_drv r \<in> eval_ids [job]"
  by (auto simp: job_row_def eval_ids_def split: sum.splits option.splits if_splits)

lemma set_job_rows:
  "set (List.map_filter (job_row jid base) jobs) = {r. \<exists>job\<in>set jobs. job_row jid base job = Some r}"
  by (induction jobs) (auto simp: List.map_filter_simps split: option.split)

lemma create_jobs_eq:
  assumes "eval_ids jobs \<subseteq> drv_paths (jb_tables db)" "jid \<in> jst_rowid ` set (jb_jobsets db)"
  shows "create_jobs_for_jobset jid jobs base_jobs db =
    (db\<lparr>jb_jobs := fold add_job (List.map_filter (job_row jid (map_of (rev (case base_jobs of Some b \<Rightarrow> b | None \<Rightarrow> [])))) jobs)
       (jb_jobs db)\<rparr>, Inr ())"
proof (cases "jobs = []")
  case False
  have "jt_drv r \<in> drv_paths (jb_tables db) \<and> jt_jobset r = jid" if "r \<in> set (List.map_filter (job_row jid b) jobs)" for r b
    using that assms(1) job_row_ids unfolding set_job_rows eval_ids_def by fastforce
  then show ?thesis using False assms(2) by (simp add: create_jobs_for_jobset_def Let_def insert_job_rows_eq)
qed (simp add: create_jobs_for_jobset_def List.map_filter_def)

lemma create_fresh_eq:
  fixes db :: JobsetDb
  defines "jid \<equiv> next_rowid (jb_jobsets db)"
  assumes "jobset_wf db" "\<not> taken sha name db" "\<forall>job\<in>set jobs. list_all is_ascii (ne_name job)"
  obtains drvs items where
    "create_github_jobset_with_jobs J sha name owner repo jobs cfg base_sha db =
       ((with_jobset sha name owner repo cfg db)
          \<lparr>jb_tables := (jb_tables db)\<lparr>drv_rows := fold update_row_metadata items (fold upsert_row drvs (drv_rows (jb_tables db)))\<rparr>,
           jb_jobs := fold add_job (List.map_filter (job_row jid (base_of base_sha name db)) jobs) (jb_jobs db)\<rparr>, Some (Inr jid))"
    "ld_drv_path ` set drvs = eval_ids jobs"
proof -
  obtain drvs where drvs: "opt_concat_map eval_drv_row jobs = Some drvs"
    using eval_rows_total(1) [OF assms(4)] by blast
  obtain items where items: "opt_concat_map (metadata_item J) jobs = Some items"
    using eval_rows_total(2) [OF assms(4)] by blast
  let ?db1 = "with_jobset sha name owner repo cfg db"
  let ?t = "(jb_tables db)\<lparr>drv_rows := fold upsert_row drvs (drv_rows (jb_tables db))\<rparr>"
  have tables: "jb_tables ?db1 = jb_tables db" "jb_jobs ?db1 = jb_jobs db" by (simp_all add: with_jobset_def)
  have paths: "ld_drv_path ` set drvs = eval_ids jobs" using eval_drvs_paths [OF drvs] .
  have "eval_ids jobs \<subseteq> drv_paths (jb_tables (?db1\<lparr>jb_tables := ?t\<rparr>))"
    by (simp add: drv_paths_def fold_upsert_paths paths)
  moreover have "jid \<in> jst_rowid ` set (jb_jobsets (?db1\<lparr>jb_tables := ?t\<rparr>))"
    by (simp add: with_jobset_def jid_def)
  ultimately have jobs: "create_jobs_for_jobset jid jobs (map_option (\<lambda>base. get_jobset_jobs_by_sha base name db) base_sha)
      (?db1\<lparr>jb_tables := ?t\<rparr>) = (?db1\<lparr>jb_tables := ?t, jb_jobs := fold add_job
        (List.map_filter (job_row jid (base_of base_sha name db)) jobs) (jb_jobs db)\<rparr>, Inr ())"
    using create_jobs_eq by (auto simp: base_of_def tables split: option.split)
  show ?thesis
    by (rule that [OF _ paths, of items])
      (simp add: create_github_jobset_with_jobs_def create_jobset_fresh [OF assms(3)] base_jobs_with_jobset [OF assms(2)]
        drvs items insert_drvs_no_refs tables jobs update_drv_package_metadata_def flip: jid_def)
qed

lemma eval_ids_valid: "d \<in> eval_ids jobs \<Longrightarrow> valid_drv_id d"
  by (auto simp: eval_ids_def local_try_from_eq try_from_iff)

lemma create_fresh_wf:
  assumes "jobset_wf db" "\<not> taken sha name db" "\<forall>job\<in>set jobs. list_all is_ascii (ne_name job)"
    "create_github_jobset_with_jobs J sha name owner repo jobs cfg base_sha db = (db', res)"
  shows "jobset_wf db' \<and> rows_extend (drv_rows (jb_tables db)) (drv_rows (jb_tables db'))"
proof -
  let ?jid = "next_rowid (jb_jobsets db)"
  obtain drvs items where db': "db' = (with_jobset sha name owner repo cfg db)
      \<lparr>jb_tables := (jb_tables db)\<lparr>drv_rows := fold update_row_metadata items (fold upsert_row drvs (drv_rows (jb_tables db)))\<rparr>,
       jb_jobs := fold add_job (List.map_filter (job_row ?jid (base_of base_sha name db)) jobs) (jb_jobs db)\<rparr>"
    and paths: "ld_drv_path ` set drvs = eval_ids jobs"
    using create_fresh_eq [OF assms(1-3)] assms(4) by (metis prod.inject)
  have ps: "map ld_drv_path (drv_rows (jb_tables db')) = map ld_drv_path (fold upsert_row drvs (drv_rows (jb_tables db)))"
    by (simp add: db')
  then have dp: "drv_paths (jb_tables db') = eval_ids jobs \<union> drv_paths (jb_tables db)"
    unfolding drv_paths_def using fold_upsert_paths(1) paths by (metis list.set_map)
  have jobsets: "jb_jobsets db' = jb_jobsets (with_jobset sha name owner repo cfg db)" by (simp add: db')
  have rows: "jt_jobset r \<in> jst_rowid ` set (jb_jobsets db') \<and> jt_drv r \<in> drv_paths (jb_tables db')"
    if "r \<in> set (jb_jobs db')" for r
  proof -
    have "r \<in> set (jb_jobs db) \<or> (\<exists>job\<in>set jobs. job_row ?jid (base_of base_sha name db) job = Some r)"
      using that fold_add_job_prefix [of "List.map_filter (job_row ?jid (base_of base_sha name db)) jobs" "jb_jobs db"]
      by (auto simp: db' set_job_rows)
    then show ?thesis
    proof
      assume "r \<in> set (jb_jobs db)"
      then show ?thesis using assms(1) by (auto simp: dp jobsets with_jobset_def jobset_wf_def)
    next
      assume "\<exists>job\<in>set jobs. job_row ?jid (base_of base_sha name db) job = Some r"
      then show ?thesis by (auto simp: dp jobsets with_jobset_def job_row_Some eval_ids_def)
    qed
  qed
  have "distinct (map ld_drv_path (drv_rows (jb_tables db')))"
    unfolding ps using assms(1) by (intro fold_upsert_paths(2)) (simp add: jobset_wf_def)
  moreover have "\<forall>d\<in>drv_paths (jb_tables db'). valid_drv_id d"
    using assms(1) eval_ids_valid by (auto simp: dp jobset_wf_def)
  moreover have "distinct (map jst_rowid (jb_jobsets db')) \<and> distinct (map (\<lambda>js. (jst_sha js, jst_job js)) (jb_jobsets db'))"
    using assms(1,2) next_rowid_notin [of "jb_jobsets db"]
    by (auto simp: jobsets with_jobset_def jobset_wf_def taken_def list_ex_iff)
  moreover have "rows_extend (drv_rows (jb_tables db)) (drv_rows (jb_tables db'))"
    using rows_extend_trans [OF rows_extend_fold rows_extend_metadata] by (simp add: db')
  ultimately show ?thesis using rows by (simp add: jobset_wf_def)
qed

lemma create_fresh_rows:
  fixes db :: JobsetDb
  defines "jid \<equiv> next_rowid (jb_jobsets db)"
  assumes "jobset_wf db" "\<not> taken sha name db" "\<forall>job\<in>set jobs. list_all is_ascii (ne_name job)"
    "create_github_jobset_with_jobs J sha name owner repo jobs cfg base_sha db = (db', res)"
  shows "res = Some (Inr jid)" "jb_jobsets db' = jb_jobsets (with_jobset sha name owner repo cfg db)"
    "filter (\<lambda>r. jt_jobset r \<noteq> jid) (jb_jobs db') = jb_jobs db"
    "{r \<in> set (jb_jobs db'). jt_jobset r = jid} = {r. \<exists>job\<in>set jobs. job_row jid (base_of base_sha name db) job = Some r}"
proof -
  let ?rs = "List.map_filter (job_row jid (base_of base_sha name db)) jobs"
  obtain drvs items where eq: "create_github_jobset_with_jobs J sha name owner repo jobs cfg base_sha db =
       ((with_jobset sha name owner repo cfg db)
          \<lparr>jb_tables := (jb_tables db)\<lparr>drv_rows := fold update_row_metadata items (fold upsert_row drvs (drv_rows (jb_tables db)))\<rparr>,
           jb_jobs := fold add_job ?rs (jb_jobs db)\<rparr>, Some (Inr jid))"
    using create_fresh_eq [OF assms(2-4)] unfolding jid_def by metis
  then show "res = Some (Inr jid)" "jb_jobsets db' = jb_jobsets (with_jobset sha name owner repo cfg db)"
    using assms(5) by auto
  have jobs: "jb_jobs db' = fold add_job ?rs (jb_jobs db)" using eq assms(5) by auto
  have old: "jt_jobset r \<noteq> jid" if "r \<in> set (jb_jobs db)" for r
    using assms(2) that next_rowid_fresh unfolding jid_def jobset_wf_def by fastforce
  obtain new where new: "jb_jobs db' = jb_jobs db @ new" "set new \<subseteq> set ?rs"
    using fold_add_job_prefix jobs by metis
  have mine: "jt_jobset r = jid" if "r \<in> set ?rs" for r using that job_row_ids unfolding set_job_rows by blast
  show "filter (\<lambda>r. jt_jobset r \<noteq> jid) (jb_jobs db') = jb_jobs db"
    using old mine new by (auto simp: filter_id_conv filter_empty_conv)
  have "set (jb_jobs db') = set (jb_jobs db) \<union> set ?rs"
  proof (unfold jobs, rule fold_add_job_set)
    fix r r' assume r: "r \<in> set ?rs" "r' \<in> set ?rs \<union> set (jb_jobs db)" "same_job r r'"
    then have "r' \<in> set ?rs" using old mine by (fastforce simp: same_job_def)
    with r have "jt_difference r = jt_difference r'"
      unfolding set_job_rows by (auto simp: job_row_Some same_job_def split: option.splits)
    with r(3) show "r = r'" by (cases r; cases r') (simp add: same_job_def)
  qed
  then show "{r \<in> set (jb_jobs db'). jt_jobset r = jid} = {r. \<exists>job\<in>set jobs. job_row jid (base_of base_sha name db) job = Some r}"
    using old mine unfolding set_job_rows by blast
qed

lemma jobset_of_fork_rejected:
  assumes "jobset_wf db" "js \<in> set (jb_jobsets db)" "jst_sha js = sha" "jst_job js = name"
    "(jst_owner js, jst_repo_name js) \<noteq> (owner, repo)"
  shows "create_github_jobset_with_jobs J sha name owner repo jobs cfg base_sha db = (db, Some (Inl row_not_found))"
proof -
  have "js' = js" if "js' \<in> set (jb_jobsets db)" "jst_sha js' = sha" "jst_job js' = name" for js'
    using assms(1-4) that unfolding jobset_wf_def distinct_map inj_on_def by blast
  then have "find (same_jobset sha name owner repo) (jb_jobsets db) = None"
    using assms(5) by (auto simp: find_None_iff same_jobset_def)
  moreover have "taken sha name db" using assms(2-4) by (auto simp: taken_def list_ex_iff)
  ultimately show ?thesis by (simp add: create_github_jobset_with_jobs_def create_jobset_taken)
qed

section \<open>Properties of creation\<close>


definition demo_eval :: "string \<Rightarrow> DrvId \<Rightarrow> NixEvalDrv" where
  "demo_eval attr d = \<lparr> ne_attr = attr, ne_attr_path = [attr], ne_drv_path = d, ne_input_drvs = None,
     ne_name = ''a-1'', ne_outputs = [], ne_system = ''x86_64-linux'', ne_meta = None \<rparr>"

definition demo_meta_json :: MetaJson where
  "demo_meta_json = \<lparr> mj_licenses = (\<lambda>_. ''[]''), mj_maintainers = (\<lambda>_. ''[]'') \<rparr>"

text \<open>A base commit with the attributes \<open>a\<close> and \<open>b\<close>.\<close>

definition demo_jobset_db :: JobsetDb where
  "demo_jobset_db = \<lparr> jb_tables = demo_tables,
     jb_jobsets = [\<lparr> jst_rowid = 1, jst_sha = ''base'', jst_job = ''ci'', jst_owner = ''o'', jst_repo_name = ''r'' \<rparr>],
     jb_configs = [(1, None)],
     jb_jobs = [\<lparr> jt_jobset = 1, jt_drv = demo_id_a, jt_name = ''a'', jt_difference = DiffNew \<rparr>,
                \<lparr> jt_jobset = 1, jt_drv = demo_id_b, jt_name = ''b'', jt_difference = DiffNew \<rparr>],
     jb_check_runs = [], jb_cache = [] \<rparr>"

definition demo_evals :: "NixEvalDrv list" where
  "demo_evals = [demo_eval ''a'' demo_id_a, demo_eval ''b'' demo_id_a, demo_eval ''c'' demo_id_b]"

lemma demo_ids_neq: "demo_id_a \<noteq> demo_id_b"
  by (simp add: demo_id_a_def demo_id_b_def)

lemma demo_jobset_wf: "jobset_wf demo_jobset_db" "\<not> taken ''head'' ''ci'' demo_jobset_db"
  by (simp_all add: jobset_wf_def taken_def demo_jobset_db_def demo_tables_def drv_paths_def demo_row_def demo_ids_valid demo_ids_neq)

lemma demo_evals_ascii: "\<forall>job\<in>set demo_evals. list_all is_ascii (ne_name job)"
  by (simp add: demo_evals_def demo_eval_def is_ascii_def)

lemma demo_base:
  "base_of (Some ''base'') ''ci'' demo_jobset_db ''a'' = Some demo_id_a"
  "base_of (Some ''base'') ''ci'' demo_jobset_db ''b'' = Some demo_id_b"
  "base_of (Some ''base'') ''ci'' demo_jobset_db ''c'' = None"
  by (simp_all add: base_of_def get_jobset_jobs_by_sha_def demo_jobset_db_def demo_tables_def demo_row_def demo_ids_neq demo_ids_neq [symmetric])

lemma demo_parse: "local_DrvId_try_from demo_id_a = Inr demo_id_a" "local_DrvId_try_from demo_id_b = Inr demo_id_b"
  by (simp_all add: local_try_from_eq try_from_id demo_ids_valid)


section \<open>The change summary of a compared jobset\<close>

lemma collect_results_map: "\<forall>x\<in>set xs. f x = Inr (g x) \<Longrightarrow> collect_results f xs = Inr (map g xs)"
  by (induction xs) simp_all

lemma load_rows_valid:
  assumes "\<forall>d\<in>set drvs. valid_drv_id (ld_drv_path d)"
  shows "\<exists>rows. load_job_drv_rows jobs drvs jid = Inr rows \<and>
    jd_attr_path ` set rows = {a. \<exists>j\<in>set jobs. jbs_jobset j = jid \<and> jbs_name j = a \<and> jbs_drv j \<in> ld_drv_path ` set drvs}"
proof -
  let ?js = "join_job_drv (filter (\<lambda>j. jbs_jobset j = jid) jobs) drvs"
  have mem: "x \<in> set ?js \<longleftrightarrow> fst x \<in> set jobs \<and> jbs_jobset (fst x) = jid \<and> snd x \<in> set drvs \<and> ld_drv_path (snd x) = jbs_drv (fst x)"
    for x by (cases x) (auto simp: join_job_drv_def)
  then have row: "\<exists>r. to_job_drv_row x = Inr r \<and> jd_attr_path r = jbs_name (fst x)" if "x \<in> set ?js" for x
    using assms that by (cases x) (auto simp: to_job_drv_row_def try_from_id)
  then obtain g where g: "\<forall>x\<in>set ?js. to_job_drv_row x = Inr (g x) \<and> jd_attr_path (g x) = jbs_name (fst x)" by metis
  then have "load_job_drv_rows jobs drvs jid = Inr (map g ?js)"
    by (simp add: load_job_drv_rows_def collect_results_map)
  moreover have "jd_attr_path ` set (map g ?js) = jbs_name ` fst ` set ?js" using g by (force simp: image_image)
  moreover have "fst ` set ?js = {j \<in> set jobs. jbs_jobset j = jid \<and> jbs_drv j \<in> ld_drv_path ` set drvs}"
    by (auto simp: join_job_drv_def image_UN image_image image_constant_conv) (metis imageI)
  then have "jbs_name ` fst ` set ?js =
      {a. \<exists>j\<in>set jobs. jbs_jobset j = jid \<and> jbs_name j = a \<and> jbs_drv j \<in> ld_drv_path ` set drvs}"
    by auto
  ultimately show ?thesis by metis
qed

lemma last_row_None: "last_row rows a = None \<longleftrightarrow> a \<notin> jd_attr_path ` set rows"
  by (auto simp: last_row_def find_None_iff)

text \<open>The rows the summary loads of a jobset have exactly the attributes of its jobs.\<close>

lemma summary_rows:
  assumes "jobset_wf db"
  obtains rows where "load_job_drv_rows (sd_jobs (summary_view db)) (sd_drvs (summary_view db)) jid = Inr rows"
    "\<And>a. last_row rows a = None \<longleftrightarrow> (\<forall>r\<in>set (jb_jobs db). jt_jobset r = jid \<longrightarrow> jt_name r \<noteq> a)"
proof -
  have "\<forall>d\<in>set (drv_rows (jb_tables db)). valid_drv_id (ld_drv_path d)"
    using assms by (auto simp: jobset_wf_def drv_paths_def)
  then obtain rows where rows: "load_job_drv_rows (sd_jobs (summary_view db)) (sd_drvs (summary_view db)) jid = Inr rows"
    "jd_attr_path ` set rows = {a. \<exists>j\<in>set (sd_jobs (summary_view db)). jbs_jobset j = jid \<and> jbs_name j = a \<and>
       jbs_drv j \<in> ld_drv_path ` set (drv_rows (jb_tables db))}"
    using load_rows_valid [of "drv_rows (jb_tables db)" "sd_jobs (summary_view db)" jid]
    unfolding summary_view_def SummaryDb.simps by blast
  have "\<forall>r\<in>set (jb_jobs db). jt_drv r \<in> ld_drv_path ` set (drv_rows (jb_tables db))"
    using assms by (auto simp: jobset_wf_def drv_paths_def)
  then have "last_row rows a = None \<longleftrightarrow> (\<forall>r\<in>set (jb_jobs db). jt_jobset r = jid \<longrightarrow> jt_name r \<noteq> a)" for a
    unfolding last_row_None rows(2) summary_view_def job_of_row_def by auto
  with rows(1) that show thesis by blast
qed

lemma changes_without_head_row:
  assumes "load_job_drv_rows (sd_jobs db) (sd_drvs db) h = Inr hs" "load_job_drv_rows (sd_jobs db) (sd_drvs db) b = Inr bs"
    "last_row hs a = None" "last_row bs a \<noteq> None"
  shows "\<exists>resp. build_package_changes_from_jobset_ids E db h (Some b) jd n = Some (Inr resp) \<and>
    (\<not> pc_truncated resp \<longrightarrow> (\<exists>p v. Removed a p v \<in> set (pc_package_changes resp)))"
proof -
  have ascii: "list_all (\<lambda>r. list_all is_ascii (jd_name r)) (hs @ bs)"
    using load_rows_ascii [OF assms(1)] load_rows_ascii [OF assms(2)] by simp
  then obtain out avail where c: "compute_package_changes (se_json E) hs bs = Some (out, avail)"
    using compute_package_changes_eq by blast
  obtain r where r: "last_row bs a = Some r" "jd_attr_path r = a" using assms(4) last_row_Some by blast
  then have "Removed a (row_pname r) (row_version r) \<in> set out"
    using assms(3) by (subst changes_in_attr [OF ascii c]) (simp add: attr_changes_def)
  then show ?thesis
    using assms(1,2) c by (auto simp: build_package_changes_from_jobset_ids_def)
qed

text \<open>A package that a pull request does not touch is reported as removed.  The jobset of
  the head has no row for an attribute whose drv is that of the base, and the change summary
  compares the rows of the two jobsets; so the package changes of such a jobset list every
  attribute with an unchanged drv among the removed ones (unless the list is cut off).\<close>

theorem unchanged_reported_removed:
  assumes "jobset_wf db" "\<not> taken sha name db" "\<forall>job\<in>set jobs. list_all is_ascii (ne_name job)"
    "create_github_jobset_with_jobs J sha name owner repo jobs cfg (Some base_sha) db = (db', res)"
    "base_of (Some base_sha) name db a = Some d"
    "job \<in> set jobs" "ne_attr job = a"
    "\<forall>job'\<in>set jobs. ne_attr job' = a \<longrightarrow> local_DrvId_try_from (ne_drv_path job') = Inr d"
  shows "\<exists>resp. build_package_changes_response E (summary_view db') sha base_sha name n = Some (Inr (Some resp)) \<and>
    (\<not> pc_truncated resp \<longrightarrow> (\<exists>p v. Removed a p v \<in> set (pc_package_changes resp)))"
proof -
  let ?jid = "next_rowid (jb_jobsets db)" and ?new = "last (jb_jobsets (with_jobset sha name owner repo cfg db))"
  note rows = create_fresh_rows [OF assms(1-4)]
  have wf: "jobset_wf db'" using create_fresh_wf [OF assms(1-4)] by blast
  have "(a, d) \<in> set (get_jobset_jobs_by_sha base_sha name db)"
    using assms(5) by (auto simp: base_of_def dest: map_of_SomeD)
  then obtain r js where r: "r \<in> set (jb_jobs db)" "jt_name r = a" "js \<in> set (jb_jobsets db)"
    "jst_rowid js = jt_jobset r" "jst_sha js = base_sha" "jst_job js = name"
    by (auto simp: get_jobset_jobs_by_sha_def)
  have uniq: "js' = js" if "js' \<in> set (jb_jobsets db)" "jst_sha js' = base_sha" "jst_job js' = name" for js'
    using assms(1) r that unfolding jobset_wf_def distinct_map inj_on_def by blast
  have jss: "sd_jobsets (summary_view db') = jb_jobsets db @ [?new]" "jst_sha ?new = sha" "jst_job ?new = name" "jst_rowid ?new = ?jid"
    by (simp_all add: summary_view_def rows(2) with_jobset_def)
  have head: "find_jobset (summary_view db') sha name = Some ?new"
  proof -
    have "find (\<lambda>js. jst_sha js = sha \<and> jst_job js = name) (jb_jobsets db) = None"
      using assms(2) by (auto simp: find_None_iff taken_def list_ex_iff)
    then show ?thesis by (simp add: find_jobset_def jss find_snoc)
  qed
  have "find (\<lambda>js. jst_sha js = base_sha \<and> jst_job js = name) (jb_jobsets db) = Some js"
  proof (cases "find (\<lambda>js. jst_sha js = base_sha \<and> jst_job js = name) (jb_jobsets db)")
    case None
    then show ?thesis using r by (auto simp: find_None_iff)
  next
    case (Some js')
    then have "js' = js" using uniq by (metis (mono_tags, lifting) find_Some_iff nth_mem)
    with Some show ?thesis by simp
  qed
  then have base: "github_jobset_id (summary_view db') base_sha name = Some (jt_jobset r)"
    by (simp add: github_jobset_id_def jss find_snoc r(4))
  obtain hs where hs: "load_job_drv_rows (sd_jobs (summary_view db')) (sd_drvs (summary_view db')) ?jid = Inr hs"
    "last_row hs a = None \<longleftrightarrow> (\<forall>r\<in>set (jb_jobs db'). jt_jobset r = ?jid \<longrightarrow> jt_name r \<noteq> a)"
    using summary_rows [OF wf] by metis
  obtain bs where bs: "load_job_drv_rows (sd_jobs (summary_view db')) (sd_drvs (summary_view db')) (jt_jobset r) = Inr bs"
    "last_row bs a = None \<longleftrightarrow> (\<forall>r'\<in>set (jb_jobs db'). jt_jobset r' = jt_jobset r \<longrightarrow> jt_name r' \<noteq> a)"
    using summary_rows [OF wf] by metis
  have "jt_name q \<noteq> a" if "q \<in> set (jb_jobs db')" "jt_jobset q = ?jid" for q
  proof -
    have "q \<in> {r. \<exists>job\<in>set jobs. job_row ?jid (base_of (Some base_sha) name db) job = Some r}"
      using that unfolding rows(4) [symmetric] by blast
    then show ?thesis using assms(5,8) by (auto simp: job_row_Some)
  qed
  then have "last_row hs a = None" using hs(2) by blast
  moreover have "r \<in> set (jb_jobs db')" using r(1) unfolding rows(3) [symmetric] by simp
  then have "last_row bs a \<noteq> None" using bs(2) r(2) by blast
  ultimately show ?thesis
    using changes_without_head_row [OF hs(1) bs(1), of a E "jobset_data_of ?new sha name" n]
    by (fastforce simp: build_package_changes_response_def head base jss(4))
qed

theorem unchanged_reported_removed_witness:
  "\<exists>resp. build_package_changes_response (demo_env None)
       (summary_view (fst (create_github_jobset_with_jobs demo_meta_json ''head'' ''ci'' ''o'' ''r'' demo_evals None (Some ''base'') demo_jobset_db)))
       ''head'' ''base'' ''ci'' 100 = Some (Inr (Some resp)) \<and>
    (\<not> pc_truncated resp \<longrightarrow> (\<exists>p v. Removed ''a'' p v \<in> set (pc_package_changes resp)))"
proof -
  obtain db' res where c: "create_github_jobset_with_jobs demo_meta_json ''head'' ''ci'' ''o'' ''r'' demo_evals None (Some ''base'') demo_jobset_db = (db', res)"
    by (rule prod.exhaust)
  have "demo_eval ''a'' demo_id_a \<in> set demo_evals" "ne_attr (demo_eval ''a'' demo_id_a) = ''a''"
    "\<forall>job'\<in>set demo_evals. ne_attr job' = ''a'' \<longrightarrow> local_DrvId_try_from (ne_drv_path job') = Inr demo_id_a"
    by (simp_all add: demo_evals_def demo_eval_def demo_parse)
  from unchanged_reported_removed [OF demo_jobset_wf demo_evals_ascii c demo_base(1) this] c show ?thesis by simp
qed

section \<open>Grouped gates\<close>

definition job_prefix :: "NewOrChangedJob \<Rightarrow> string option" where
  "job_prefix job = map_option fst (split_once (CHR ''.'') (nc_name job))"

lemma max_by_key_Some:
  "max_by_key key xs = Some m \<Longrightarrow> m \<in> set xs \<and> (\<forall>x\<in>set xs. key x \<le> key m)"
  "max_by_key key xs = None \<longleftrightarrow> xs = []"
proof (induction xs arbitrary: m rule: rev_induct)
  case (snoc x xs)
  { case 1
    then show ?case using snoc(1) snoc(2)
      by (cases "max_by_key key xs") (auto simp: max_by_key_def split: if_splits intro: order_trans) }
  { case 2
    show ?case by (auto simp: max_by_key_def split: option.split) }
qed (simp_all add: max_by_key_def)

lemma aggregate_max:
  assumes "states \<noteq> []"
  shows "aggregate_build_state states \<in> set states \<and>
    (\<forall>s\<in>set states. build_state_severity s \<le> build_state_severity (aggregate_build_state states))"
  using assms max_by_key_Some [of build_state_severity states]
  by (cases "max_by_key build_state_severity states") (auto simp: aggregate_build_state_def)

lemma severity_success: "build_state_severity s = 0 \<longleftrightarrow> s = LocalCompleted LocalSuccess"
  by (cases s rule: build_state_severity.cases) simp_all

lemma severity_failure: "build_state_severity s \<le> 5 \<and> (build_state_severity s = 5 \<longleftrightarrow> snd (as_gh_checkrun_state s) = Some GHFailure)"
  by (cases s rule: build_state_severity.cases) simp_all

lemma gh_success: "snd (as_gh_checkrun_state s) = Some GHSuccess \<longleftrightarrow> s = LocalCompleted LocalSuccess"
  by (cases s rule: build_state_severity.cases) simp_all

text \<open>The aggregate of some variants succeeds when all do and fails when one does.\<close>

lemma aggregate_conclusion:
  assumes "states \<noteq> []"
  shows "snd (as_gh_checkrun_state (aggregate_build_state states)) = Some GHSuccess \<longleftrightarrow>
      (\<forall>s\<in>set states. s = LocalCompleted LocalSuccess)"
    "snd (as_gh_checkrun_state (aggregate_build_state states)) = Some GHFailure \<longleftrightarrow>
      (\<exists>s\<in>set states. snd (as_gh_checkrun_state s) = Some GHFailure)"
proof -
  note m = aggregate_max [OF assms]
  show "snd (as_gh_checkrun_state (aggregate_build_state states)) = Some GHSuccess \<longleftrightarrow>
      (\<forall>s\<in>set states. s = LocalCompleted LocalSuccess)"
    unfolding gh_success using m by (metis le_zero_eq severity_success)
  show "snd (as_gh_checkrun_state (aggregate_build_state states)) = Some GHFailure \<longleftrightarrow>
      (\<exists>s\<in>set states. snd (as_gh_checkrun_state s) = Some GHFailure)"
    using m by (metis le_antisym severity_failure)
qed

lemma push_job_prefix:
  "push_job j (gs, us) =
     (case job_prefix j of
        None \<Rightarrow> (gs, us @ [j])
      | Some p \<Rightarrow> (bt_insert p ((case map_of gs p of Some vs \<Rightarrow> vs | None \<Rightarrow> []) @ [j]) gs, us))"
  by (simp add: push_job_def job_prefix_def split: option.split prod.split)

lemma variant_group_sel [simp]:
  "vg_name (variant_group (p, vs)) = p" "vg_variants (variant_group (p, vs)) = vs"
  "vg_worst_build_state (variant_group (p, vs)) = aggregate_build_state (map nc_build_state vs)"
  by (simp_all add: variant_group_def)

lemma fold_push_job:
  "fold push_job jobs ([], []) = (groups, ungrouped) \<Longrightarrow>
   sorted_wrt (<) (map fst groups) \<and> ungrouped = filter (\<lambda>j. job_prefix j = None) jobs \<and>
   map_of groups p = (let vs = filter (\<lambda>j. job_prefix j = Some p) jobs in if vs = [] then None else Some vs)"
proof (induction jobs arbitrary: groups ungrouped p rule: rev_induct)
  case (snoc j jobs)
  obtain gs us where f: "fold push_job jobs ([], []) = (gs, us)" by (rule prod.exhaust)
  have step: "push_job j (gs, us) = (groups, ungrouped)" using snoc.prems f by simp
  show ?case
  proof (cases "job_prefix j")
    case None
    then show ?thesis using step snoc.IH [OF f] by (auto simp: push_job_prefix)
  next
    case (Some q)
    then show ?thesis
      using step snoc.IH [OF f, of p] snoc.IH [OF f, of q]
      by (auto simp: push_job_prefix map_of_bt_insert bt_insert_sorted Let_def split: if_splits)
  qed
qed simp

lemma group_jobs_eq:
  assumes "group_jobs_by_prefix jobs = (groups, ungrouped)"
  shows "sorted_wrt (<) (map vg_name groups)" "ungrouped = filter (\<lambda>j. job_prefix j = None) jobs"
    "g \<in> set groups \<Longrightarrow> g = variant_group (vg_name g, filter (\<lambda>j. job_prefix j = Some (vg_name g)) jobs) \<and>
       (\<exists>j\<in>set jobs. job_prefix j = Some (vg_name g))"
    "j \<in> set jobs \<Longrightarrow> job_prefix j = Some p \<Longrightarrow> p \<in> vg_name ` set groups"
proof -
  obtain gs where f: "fold push_job jobs ([], []) = (gs, ungrouped)" "groups = map variant_group gs"
    using assms by (cases "fold push_job jobs ([], [])") (auto simp: group_jobs_by_prefix_def)
  have names: "vg_name (variant_group x) = fst x" for x by (simp add: variant_group_def split: prod.split)
  then have fsts: "map vg_name groups = map fst gs" by (simp add: f(2))
  note push = fold_push_job [OF f(1)]
  show "sorted_wrt (<) (map vg_name groups)" "ungrouped = filter (\<lambda>j. job_prefix j = None) jobs"
    using push unfolding fsts by blast+
  then have distinct: "distinct (map fst gs)" unfolding fsts strict_sorted_iff by blast
  show "g = variant_group (vg_name g, filter (\<lambda>j. job_prefix j = Some (vg_name g)) jobs) \<and>
      (\<exists>j\<in>set jobs. job_prefix j = Some (vg_name g))" if mem: "g \<in> set groups"
  proof -
    obtain p vs where pv: "(p, vs) \<in> set gs" "g = variant_group (p, vs)"
      using mem f(2) by auto
    then have "map_of gs p = Some vs" using distinct by (simp add: map_of_eq_Some_iff)
    then have "vs = filter (\<lambda>j. job_prefix j = Some p) jobs" "vs \<noteq> []"
      using push by (auto simp: Let_def split: if_splits)
    moreover from this obtain j where "j \<in> set jobs" "job_prefix j = Some p" by (auto simp: filter_empty_conv)
    ultimately show ?thesis using pv(2) by (simp only: variant_group_sel) blast
  qed
  show "p \<in> vg_name ` set groups" if "j \<in> set jobs" "job_prefix j = Some p"
  proof -
    have "map_of gs p \<noteq> None" using push that by (auto simp: Let_def filter_empty_conv)
    then have "p \<in> set (map fst gs)" by (auto simp: map_of_eq_None_iff)
    then show ?thesis unfolding fsts [symmetric] by simp
  qed
qed

text \<open>The gates of a jobset cover its new and changed packages: attributes without a dot get
  a gate of their own, and for every first component there is exactly one group, holding
  exactly the attributes that start with it, in order.  A group passes exactly when every
  variant succeeded and fails exactly when some variant failed.\<close>

theorem grouped_gates_sound:
  assumes "group_jobs_by_prefix jobs = (groups, ungrouped)"
  shows "ungrouped = filter (\<lambda>j. job_prefix j = None) jobs \<and>
    distinct (map vg_name groups) \<and> Some ` vg_name ` set groups = job_prefix ` set jobs - {None} \<and>
    (\<forall>g\<in>set groups. vg_variants g = filter (\<lambda>j. job_prefix j = Some (vg_name g)) jobs \<and>
       (snd (as_gh_checkrun_state (vg_worst_build_state g)) = Some GHSuccess \<longleftrightarrow>
          (\<forall>v\<in>set (vg_variants g). nc_build_state v = LocalCompleted LocalSuccess)) \<and>
       (snd (as_gh_checkrun_state (vg_worst_build_state g)) = Some GHFailure \<longleftrightarrow>
          (\<exists>v\<in>set (vg_variants g). snd (as_gh_checkrun_state (nc_build_state v)) = Some GHFailure)))"
proof (intro conjI ballI)
  note eq = group_jobs_eq [OF assms]
  show "ungrouped = filter (\<lambda>j. job_prefix j = None) jobs" by (rule eq(2))
  show "distinct (map vg_name groups)" using eq(1) by (simp add: strict_sorted_iff)
  show "Some ` vg_name ` set groups = job_prefix ` set jobs - {None}"
  proof (intro equalityI subsetI)
    fix x assume "x \<in> Some ` vg_name ` set groups"
    then show "x \<in> job_prefix ` set jobs - {None}" using eq(3) by force
  next
    fix x assume "x \<in> job_prefix ` set jobs - {None}"
    then obtain j p where "j \<in> set jobs" "job_prefix j = Some p" "x = Some p" by auto
    then show "x \<in> Some ` vg_name ` set groups" using eq(4) by blast
  qed
  fix g assume "g \<in> set groups"
  note g = eq(3) [OF this]
  have vs: "vg_variants g = filter (\<lambda>j. job_prefix j = Some (vg_name g)) jobs"
    using g by (metis (no_types, lifting) variant_group_sel(2))
  with g have ne: "map nc_build_state (vg_variants g) \<noteq> []" by (auto simp: filter_empty_conv)
  have state: "vg_worst_build_state g = aggregate_build_state (map nc_build_state (vg_variants g))"
    using g by (metis (no_types, lifting) variant_group_sel(2,3))
  show "vg_variants g = filter (\<lambda>j. job_prefix j = Some (vg_name g)) jobs" by (rule vs)
  show "snd (as_gh_checkrun_state (vg_worst_build_state g)) = Some GHSuccess \<longleftrightarrow>
          (\<forall>v\<in>set (vg_variants g). nc_build_state v = LocalCompleted LocalSuccess)"
    using aggregate_conclusion(1) [OF ne] by (simp add: state)
  show "snd (as_gh_checkrun_state (vg_worst_build_state g)) = Some GHFailure \<longleftrightarrow>
          (\<exists>v\<in>set (vg_variants g). snd (as_gh_checkrun_state (nc_build_state v)) = Some GHFailure)"
    using aggregate_conclusion(2) [OF ne] by (simp add: state)
qed

definition demo_changed :: "string \<Rightarrow> LocalState \<Rightarrow> NewOrChangedJob" where
  "demo_changed name st = \<lparr> nc_name = name, nc_difference = DiffChanged, nc_drv_path = demo_id_a, nc_build_state = st \<rparr>"

theorem grouped_gates_sound_witness:
  "\<exists>g. group_jobs_by_prefix [demo_changed ''x.a'' (LocalCompleted LocalSuccess), demo_changed ''h'' LocalQueued,
       demo_changed ''x.b'' (LocalCompleted LocalFailure)] = ([g], [demo_changed ''h'' LocalQueued]) \<and>
     vg_name g = ''x'' \<and> snd (as_gh_checkrun_state (vg_worst_build_state g)) \<noteq> Some GHSuccess"
proof -
  let ?jobs = "[demo_changed ''x.a'' (LocalCompleted LocalSuccess), demo_changed ''h'' LocalQueued,
    demo_changed ''x.b'' (LocalCompleted LocalFailure)]"
  let ?g = "variant_group (''x'', [demo_changed ''x.a'' (LocalCompleted LocalSuccess), demo_changed ''x.b'' (LocalCompleted LocalFailure)])"
  have g: "group_jobs_by_prefix ?jobs = ([?g], [demo_changed ''h'' LocalQueued])"
    by (simp add: group_jobs_by_prefix_def push_job_def demo_changed_def bt_insert_def)
  from grouped_gates_sound [OF g] have "snd (as_gh_checkrun_state (vg_worst_build_state ?g)) \<noteq> Some GHSuccess"
    by (simp add: demo_changed_def job_prefix_def)
  then show ?thesis using g by (intro exI [of _ ?g] conjI) simp_all
qed

text \<open>Blocked and queued variants have the same severity, so the order of the rows decides whether
  the gate waits or asks for action.\<close>

lemma blocked_gate_depends_on_order:
  "as_gh_checkrun_state (aggregate_build_state [LocalBlocked, LocalQueued]) = (GHQueued, None)"
  "as_gh_checkrun_state (aggregate_build_state [LocalQueued, LocalBlocked]) = (GHCompleted, Some GHActionRequired)"
  by (simp_all add: aggregate_build_state_def max_by_key_def)

end
