(* ===== verification/Check_Runs.thy ===== *)
theory Check_Runs
  imports Jobset_Props Recorder
begin

text \<open>
  Check runs on GitHub: the table of check runs (\<open>server/src/db/github/check_runs.rs\<close>), their
  creation and updates (\<open>server/src/github/service/types.rs\<close>, \<open>checks.rs\<close>, \<open>jobsets.rs\<close>,
  \<open>task_handler.rs\<close>), and the batches of GraphQL mutations (\<open>graphql_batch.rs\<close>).
  The answers of GitHub to the requests made so far are an argument, as are the build logs and
  the node ids of repositories.  The service sends tasks to its own bounded queue, which only it
  empties: \<^const>\<open>None\<close> is a handler that does not return, because it waits for a place there
  or panics.
\<close>

section \<open>Batched mutations\<close>

definition MAX_BATCH_SIZE :: nat where "MAX_BATCH_SIZE = 50"

record PendingUpdate =
  pu_repo_node_id :: string
  pu_check_run_node_id :: string
  pu_owner :: string
  pu_status :: string
  pu_conclusion :: "string option"
  pu_log_tail :: "string option"
  pu_output_title :: "string option"

fun build_state_to_graphql :: "LocalState \<Rightarrow> string \<times> string option" where
  "build_state_to_graphql LocalQueued = (''QUEUED'', None)"
| "build_state_to_graphql LocalBuildable = (''QUEUED'', None)"
| "build_state_to_graphql LocalFailedRetry = (''IN_PROGRESS'', None)"
| "build_state_to_graphql LocalBuilding = (''IN_PROGRESS'', None)"
| "build_state_to_graphql (LocalCompleted LocalSuccess) = (''COMPLETED'', Some ''SUCCESS'')"
| "build_state_to_graphql (LocalCompleted LocalFailure) = (''COMPLETED'', Some ''FAILURE'')"
| "build_state_to_graphql LocalTransitiveFailure = (''COMPLETED'', Some ''FAILURE'')"
| "build_state_to_graphql (LocalInterrupted LocalTimeout) = (''COMPLETED'', Some ''TIMED_OUT'')"
| "build_state_to_graphql (LocalInterrupted LocalCancelled) = (''COMPLETED'', Some ''NEUTRAL'')"
| "build_state_to_graphql (LocalInterrupted _) = (''COMPLETED'', Some ''FAILURE'')"
| "build_state_to_graphql LocalBlocked = (''COMPLETED'', Some ''FAILURE'')"
| "build_state_to_graphql LocalUnsatisfiableRequirements = (''COMPLETED'', Some ''FAILURE'')"

definition backslash :: char where "backslash = CHR 0x5C"

definition quote :: char where "quote = CHR 0x22"

definition replace_char :: "char \<Rightarrow> string \<Rightarrow> string \<Rightarrow> string" where
  "replace_char c r s = concat (map (\<lambda>x. if x = c then r else [x]) s)"

definition gql_escape :: "string \<Rightarrow> string" where
  "gql_escape s =
     replace_char (CHR 0x0A) [backslash, CHR ''n'']
       (replace_char quote [backslash, quote] (replace_char backslash [backslash, backslash] s))"

definition output_field :: "PendingUpdate \<Rightarrow> string" where
  "output_field u =
     (case pu_log_tail u of
        None \<Rightarrow> []
      | Some log \<Rightarrow>
          (let escaped = gql_escape log;
               title = (case pu_output_title u of Some t \<Rightarrow> gql_escape t | None \<Rightarrow> ''Build failed'');
               summary = (if pu_output_title u \<noteq> None then escaped
                          else ''```'' @ [backslash, CHR ''n''] @ escaped @ [backslash, CHR ''n''] @ ''```'')
           in '', output: {title: '' @ [quote] @ title @ [quote] @ '', summary: '' @ [quote] @ summary @ [quote] @ ''}''))"

definition mutation :: "nat \<times> PendingUpdate \<Rightarrow> string" where
  "mutation = (\<lambda>(i, u).
     ''u'' @ display_nat i @ '': updateCheckRun(input: {repositoryId: '' @ [quote] @ pu_repo_node_id u @ [quote] @
     '', checkRunId: '' @ [quote] @ pu_check_run_node_id u @ [quote] @ '', status: '' @ pu_status u @
     (case pu_conclusion u of Some c \<Rightarrow> '', conclusion: '' @ c | None \<Rightarrow> []) @ output_field u @
     ''}) { checkRun { databaseId } }'')"

definition batch_query :: "PendingUpdate list \<Rightarrow> string" where
  "batch_query updates = ''mutation {'' @ nl @ ''  '' @ join_with (nl @ ''  '') (map mutation (enumerate 0 updates)) @ nl @ ''}''"

text \<open>\<open>post\<close> answers a query with an error or with the aliases that came back with a check run.\<close>

definition send_batch :: "(string \<Rightarrow> (anyhow, nat \<Rightarrow> bool) result) \<Rightarrow> PendingUpdate list \<Rightarrow> (anyhow, nat) result" where
  "send_batch post updates =
     (if updates = [] then Inr 0
      else case post (batch_query updates) of
        Inl e \<Rightarrow> Inl e
      | Inr ok \<Rightarrow> Inr (length (filter ok [0..<length updates])))"

text \<open>\<open>drain\<close>: the groups of owners in order of their first update.\<close>

definition drain :: "PendingUpdate list \<Rightarrow> (string \<times> PendingUpdate list) list" where
  "drain updates = map (\<lambda>owner. (owner, filter (\<lambda>u. pu_owner u = owner) updates)) (remdups (map pu_owner updates))"

definition flush_chunk :: "(string \<Rightarrow> (anyhow, nat \<Rightarrow> bool) result) \<Rightarrow> PendingUpdate list \<Rightarrow> nat \<times> nat \<Rightarrow> nat \<times> nat" where
  "flush_chunk post chunk = (\<lambda>(sent, failed).
     case send_batch post chunk of
       Inr n \<Rightarrow> (sent + n, failed + (length chunk - n))
     | Inl _ \<Rightarrow> (sent, failed + length chunk))"

definition flush_owner ::
  "(string \<Rightarrow> (string \<Rightarrow> (anyhow, nat \<Rightarrow> bool) result) option) \<Rightarrow> string \<times> PendingUpdate list \<Rightarrow> nat \<times> nat \<Rightarrow> nat \<times> nat" where
  "flush_owner octocrab = (\<lambda>(owner, updates) (sent, failed).
     case octocrab owner of
       None \<Rightarrow> (sent, failed + length updates)
     | Some post \<Rightarrow> fold (flush_chunk post) (chunks MAX_BATCH_SIZE updates) (sent, failed))"

text \<open>The updates that are left after a flush, and how many were sent and how many failed.\<close>

definition batcher_flush ::
  "(string \<Rightarrow> (string \<Rightarrow> (anyhow, nat \<Rightarrow> bool) result) option) \<Rightarrow> PendingUpdate list \<Rightarrow> PendingUpdate list \<times> nat \<times> nat" where
  "batcher_flush octocrab pending = ([], fold (flush_owner octocrab) (drain pending) (0, 0))"

section \<open>The service\<close>

datatype GateCall =
    CreateRun (gc_owner: string) (gc_repo: string) (gc_title: string) (gc_commit: string) (gc_status: GHStatus)
      (gc_conclusion: "GHConclusion option") (gc_summary: "string option")
  | UpdateRun (gc_owner: string) (gc_repo: string) (gc_id: int) (gc_status: GHStatus)
      (gc_conclusion: "GHConclusion option") (gc_output: "(string \<times> string) option")

datatype GateTask =
    GateUpdateBuildStatus DrvId LocalState
  | GateDependencyChanges string int int

text \<open>\<open>ga_rest\<close> answers a request after those of the history: the id and the node id of the
  check run, or an error.\<close>

record GateApi =
  ga_installed :: "string \<Rightarrow> bool"
  ga_rest :: "GateCall list \<Rightarrow> GateCall \<Rightarrow> (anyhow, int \<times> string) result"
  ga_repo_node :: "string \<Rightarrow> string \<Rightarrow> string option"
  ga_log :: "DrvId \<Rightarrow> string option"

record GateService =
  gt_db :: JobsetDb
  gt_pending :: "PendingUpdate list"
  gt_calls :: "GateCall list"
  gt_tasks :: "GateTask list"
  gt_ingress :: "DrvId list"
  gt_summary :: SummaryService

definition QUEUE_CAPACITY :: nat where "QUEUE_CAPACITY = 1000"

type_synonym gate_outcome = "GateService \<times> (anyhow, unit) result option"

definition no_installation :: anyhow where "no_installation = ''No installation associated with owner''"

definition rest :: "GateApi \<Rightarrow> GateCall \<Rightarrow> GateService \<Rightarrow> GateService \<times> (anyhow, int \<times> string) result" where
  "rest api call s = (s\<lparr>gt_calls := gt_calls s @ [call]\<rparr>, ga_rest api (gt_calls s) call)"

text \<open>Sending to the own queue waits for ever when it is full.\<close>

definition send_own :: "GateTask \<Rightarrow> GateService \<Rightarrow> gate_outcome" where
  "send_own task s =
     (if QUEUE_CAPACITY \<le> length (gt_tasks s) then (s, None)
      else (s\<lparr>gt_tasks := gt_tasks s @ [task]\<rparr>, Some (Inr ())))"

definition queue_update :: "PendingUpdate \<Rightarrow> GateService \<Rightarrow> GateService" where
  "queue_update u s = s\<lparr>gt_pending := gt_pending s @ [u]\<rparr>"

section \<open>Queries\<close>

definition insert_check_run_info ::
  "int \<Rightarrow> DrvId \<Rightarrow> string \<Rightarrow> string \<Rightarrow> string option \<Rightarrow> JobsetDb \<Rightarrow> (anyhow, JobsetDb) result" where
  "insert_check_run_info check_run_id drv repo_name repo_owner node_id db =
     (if drv \<notin> drv_paths (jb_tables db) then Inl constraint_error
      else if list_ex (\<lambda>c. cr_id c = check_run_id \<and> cr_drv c = drv) (jb_check_runs db) then Inr db
      else Inr (db\<lparr>jb_check_runs := jb_check_runs db @ [\<lparr> cr_id = check_run_id, cr_drv = drv,
             cr_repo_name = repo_name, cr_repo_owner = repo_owner, cr_node_id = node_id \<rparr>]\<rparr>))"

text \<open>The view \<open>CheckRun\<close>: a check run with the state of its drv.\<close>

definition check_run_view :: "JobsetDb \<Rightarrow> (CheckRunRow \<times> LocalState) list" where
  "check_run_view db =
     [(c, ld_build_state d). c \<leftarrow> jb_check_runs db, d \<leftarrow> filter (\<lambda>d. ld_drv_path d = cr_drv c) (drv_rows (jb_tables db))]"

definition check_runs_for_drv_path :: "DrvId \<Rightarrow> JobsetDb \<Rightarrow> CheckRunRow list" where
  "check_runs_for_drv_path drv db = map fst (filter (\<lambda>(c, _). cr_drv c = drv) (check_run_view db))"

record VariantBuildState =
  vb_drv_path :: DrvId
  vb_name :: string
  vb_build_state :: LocalState

text \<open>The join goes through the jobs of all jobsets.\<close>

definition variant_states_for_check_run :: "int \<Rightarrow> JobsetDb \<Rightarrow> VariantBuildState list" where
  "variant_states_for_check_run check_run_id db =
     [\<lparr> vb_drv_path = cr_drv c, vb_name = jt_name j, vb_build_state = st \<rparr>.
      (c, st) \<leftarrow> filter (\<lambda>(c, _). cr_id c = check_run_id) (check_run_view db),
      j \<leftarrow> filter (\<lambda>j. jt_drv j = cr_drv c) (jb_jobs db)]"

text \<open>\<open>LIKE\<close>: \<open>%\<close> is any text, \<open>_\<close> any character, letters match in either case.\<close>

fun like :: "string \<Rightarrow> string \<Rightarrow> bool" where
  "like [] s = (s = [])"
| "like (p # ps) s =
     (if p = CHR ''%'' then list_ex (\<lambda>k. like ps (drop k s)) [0..<Suc (length s)]
      else case s of
        [] \<Rightarrow> False
      | c # cs \<Rightarrow> if p = CHR ''_'' then like ps (dropWhile is_continuation cs)
                   else ascii_lower p = ascii_lower c \<and> like ps cs)"

definition group_pattern :: "string \<Rightarrow> string" where "group_pattern group_prefix = group_prefix @ ''.%''"

definition find_coalesced_check_run_for_group :: "int \<Rightarrow> string \<Rightarrow> JobsetDb \<Rightarrow> (int \<times> string option) option" where
  "find_coalesced_check_run_for_group jobset_id group_prefix db =
     (case [(cr_id c, cr_node_id c). (c, _) \<leftarrow> check_run_view db,
              j \<leftarrow> filter (\<lambda>j. jt_drv j = cr_drv c \<and> jt_jobset j = jobset_id \<and> like (group_pattern group_prefix) (jt_name j))
                     (jb_jobs db)] of
        [] \<Rightarrow> None | x # _ \<Rightarrow> Some x)"

definition get_group_jobs_in_jobset :: "int \<Rightarrow> string \<Rightarrow> JobsetDb \<Rightarrow> NewOrChangedJob list" where
  "get_group_jobs_in_jobset jobset_id group_prefix =
     jobs_with_drvs (\<lambda>j. jt_jobset j = jobset_id \<and> like (group_pattern group_prefix) (jt_name j))"

text \<open>The check runs of the drvs of a commit; \<open>SELECT DISTINCT\<close>.\<close>

definition check_runs_of_sha :: "string \<Rightarrow> JobsetDb \<Rightarrow> (CheckRunRow \<times> LocalState) list" where
  "check_runs_of_sha sha db =
     filter (\<lambda>(c, _). \<exists>j\<in>set (jb_jobs db). jt_drv j = cr_drv c \<and>
        (\<exists>js\<in>set (jb_jobsets db). jst_rowid js = jt_jobset j \<and> jst_sha js = sha)) (check_run_view db)"

definition check_runs_for_commit :: "string \<Rightarrow> JobsetDb \<Rightarrow> CheckRunRow list" where
  "check_runs_for_commit sha db =
     map fst (filter (\<lambda>(_, st). st \<in> {LocalQueued, LocalBuildable, LocalBuilding}) (check_runs_of_sha sha db))"

section \<open>Creating check runs\<close>

fun difference_text :: "JobDifference \<Rightarrow> string" where
  "difference_text DiffNew = ''New''"
| "difference_text DiffChanged = ''Changed''"
| "difference_text DiffRemoved = ''Removed''"

definition run_title :: "string \<Rightarrow> JobDifference \<Rightarrow> string \<Rightarrow> string" where
  "run_title name difference jobset_name =
     name @ '' / '' @ difference_text difference @ '' ('' @ jobset_name @ '')''"

definition create_gh_check_run :: "CICheckInfo \<Rightarrow> string \<Rightarrow> string \<Rightarrow> LocalState \<Rightarrow> JobDifference \<Rightarrow> GateCall" where
  "create_gh_check_run ci jobset_name name initial_status difference =
     (let (status, conclusion) = (case difference of
            DiffRemoved \<Rightarrow> (GHCompleted, Some GHNeutral)
          | _ \<Rightarrow> as_gh_checkrun_state initial_status)
      in CreateRun (ci_owner ci) (ci_repo_name ci) (run_title name difference jobset_name) (ci_commit ci) status conclusion None)"

definition create_coalesced_gh_check_run ::
  "CICheckInfo \<Rightarrow> string \<Rightarrow> string \<Rightarrow> LocalState \<Rightarrow> JobDifference \<Rightarrow> string \<Rightarrow> GateCall" where
  "create_coalesced_gh_check_run ci jobset_name group_name worst_build_state worst_diff summary_markdown =
     (let (status, conclusion) = as_gh_checkrun_state worst_build_state
      in CreateRun (ci_owner ci) (ci_repo_name ci) (run_title group_name worst_diff jobset_name) (ci_commit ci)
           status conclusion (Some summary_markdown))"

text \<open>A check run is created and filed for some drvs; the first failure ends it.\<close>

fun file_check_run :: "CICheckInfo \<Rightarrow> int \<times> string \<Rightarrow> DrvId list \<Rightarrow> JobsetDb \<Rightarrow> JobsetDb \<times> (anyhow, unit) result" where
  "file_check_run ci cr [] db = (db, Inr ())"
| "file_check_run ci cr (d # ds) db =
     (case insert_check_run_info (fst cr) d (ci_repo_name ci) (ci_owner ci) (Some (snd cr)) db of
        Inl e \<Rightarrow> (db, Inl e)
      | Inr db' \<Rightarrow> file_check_run ci cr ds db')"

definition create_and_file ::
  "GateApi \<Rightarrow> CICheckInfo \<Rightarrow> GateCall \<Rightarrow> DrvId list \<Rightarrow> GateService \<Rightarrow> GateService \<times> (anyhow, unit) result" where
  "create_and_file api ci call drvs s =
     (case rest api call s of
        (s', Inl e) \<Rightarrow> (s', Inl e)
      | (s', Inr cr) \<Rightarrow>
          (case file_check_run ci cr drvs (gt_db s') of (db, r) \<Rightarrow> (s'\<lparr>gt_db := db\<rparr>, r)))"

fun create_all ::
  "GateApi \<Rightarrow> CICheckInfo \<Rightarrow> (GateCall \<times> DrvId list) list \<Rightarrow> GateService \<Rightarrow> GateService \<times> (anyhow, unit) result" where
  "create_all api ci [] s = (s, Inr ())"
| "create_all api ci ((call, drvs) # rs) s =
     (case create_and_file api ci call drvs s of
        (s', Inl e) \<Rightarrow> (s', Inl e)
      | (s', Inr _) \<Rightarrow> create_all api ci rs s')"

text \<open>The check run of an attribute without a dot, and of a group.\<close>

definition job_run :: "CICheckInfo \<Rightarrow> string \<Rightarrow> NewOrChangedJob \<Rightarrow> GateCall \<times> DrvId list" where
  "job_run ci job_name job =
     (create_gh_check_run ci job_name (nc_name job) (nc_build_state job) (nc_difference job), [nc_drv_path job])"

definition group_run :: "CICheckInfo \<Rightarrow> string \<Rightarrow> VariantGroup \<Rightarrow> GateCall \<times> DrvId list" where
  "group_run ci job_name g =
     (create_coalesced_gh_check_run ci job_name (vg_name g) (vg_worst_build_state g) (vg_worst_difference g)
        (build_variant_summary (vg_variants g)), map nc_drv_path (vg_variants g))"

definition create_coalesced_check_runs ::
  "GateApi \<Rightarrow> CICheckInfo \<Rightarrow> string \<Rightarrow> NewOrChangedJob list \<Rightarrow> GateService \<Rightarrow> GateService \<times> (anyhow, unit) result" where
  "create_coalesced_check_runs api ci job_name changed_jobs s =
     (let (groups, ungrouped) = group_jobs_by_prefix changed_jobs in
      if \<not> ga_installed api (ci_owner ci) then (s, Inl no_installation)
      else create_all api ci (map (job_run ci job_name) ungrouped @ map (group_run ci job_name) groups) s)"

section \<open>Creating the jobset of a commit\<close>

definition EAGER_CHECK_RUN_THRESHOLD :: nat where "EAGER_CHECK_RUN_THRESHOLD = 500"

text \<open>The dependencies in the graph of the drvs, each once, then the drvs.\<close>

definition dep_requests :: "view \<Rightarrow> DrvId list \<Rightarrow> DrvId list" where
  "dep_requests v drv_ids =
     concat (map (\<lambda>dep. case to_server_drv_id dep of Inr d \<Rightarrow> [d] | Inl _ \<Rightarrow> [])
       (rev (remdups (rev (concat (map (\<lambda>d. case to_shared_drv_id d of
          Inl _ \<Rightarrow> []
        | Inr shared \<Rightarrow> (case handle_get_node v shared of Some node \<Rightarrow> cn_dependencies node | None \<Rightarrow> [])) drv_ids))))))"

text \<open>\<open>ingress\<close>: whether there is a sender to the ingress and whether its receiver still lives.\<close>

definition dispatch_builds :: "bool option \<Rightarrow> view \<Rightarrow> NewOrChangedJob list \<Rightarrow> GateService \<Rightarrow> GateService" where
  "dispatch_builds ingress v changed_jobs s =
     (case ingress of
        Some True \<Rightarrow> (let drv_ids = map nc_drv_path changed_jobs
                      in s\<lparr>gt_ingress := gt_ingress s @ dep_requests v drv_ids @ drv_ids\<rparr>)
      | _ \<Rightarrow> s)"

text \<open>The rounds that ask again every three minutes; \<open>up\<close> says when the receiver still lives.\<close>

fun redispatch_loop :: "(nat \<Rightarrow> bool) \<Rightarrow> DrvId list \<Rightarrow> nat list \<Rightarrow> DrvId list" where
  "redispatch_loop up drv_ids [] = []"
| "redispatch_loop up drv_ids (round # rounds) =
     (if up round \<and> drv_ids \<noteq> [] then drv_ids @ redispatch_loop up drv_ids rounds else [])"

definition create_eager_check_runs_and_dispatch_builds ::
  "GateApi \<Rightarrow> bool option \<Rightarrow> view \<Rightarrow> CICheckInfo \<Rightarrow> string \<Rightarrow> int \<Rightarrow> GateService \<Rightarrow> GateService \<times> (anyhow, unit) result" where
  "create_eager_check_runs_and_dispatch_builds api ingress v ci job_name jobset_id s =
     (let changed_jobs = q_new_or_changed_jobs jobset_id (gt_db s);
          (groups, ungrouped) = group_jobs_by_prefix changed_jobs;
          effective_gate_count = length groups + length ungrouped
      in case (if changed_jobs \<noteq> [] \<and> effective_gate_count < EAGER_CHECK_RUN_THRESHOLD
               then create_coalesced_check_runs api ci job_name changed_jobs s else (s, Inr ())) of
           (s', Inl e) \<Rightarrow> (s', Inl e)
         | (s', Inr _) \<Rightarrow> (dispatch_builds ingress v changed_jobs s', Inr ()))"

text \<open>\<open>passthru\<close> stands for the last step, the evaluation of the tests of changed packages.\<close>

definition create_job_set ::
  "MetaJson \<Rightarrow> GateApi \<Rightarrow> bool option \<Rightarrow> view \<Rightarrow> (GateService \<Rightarrow> gate_outcome) \<Rightarrow> CICheckInfo \<Rightarrow> string \<Rightarrow>
   NixEvalDrv list \<Rightarrow> string option \<Rightarrow> GateService \<Rightarrow> gate_outcome" where
  "create_job_set J api ingress v passthru ci name jobs config_json s =
     (case create_github_jobset_with_jobs J (ci_commit ci) name (ci_owner ci) (ci_repo_name ci) jobs config_json
             (ci_base_commit ci) (gt_db s) of
        (db, None) \<Rightarrow> (s\<lparr>gt_db := db\<rparr>, None)
      | (db, Some (Inl e)) \<Rightarrow> (s\<lparr>gt_db := db\<rparr>, Some (Inl e))
      | (db, Some (Inr jobset_id)) \<Rightarrow>
     (case ci_base_commit ci of
        None \<Rightarrow> (s\<lparr>gt_db := db\<rparr>, Some (Inr ()))
      | Some base_commit \<Rightarrow>
     (case create_eager_check_runs_and_dispatch_builds api ingress v ci name jobset_id (s\<lparr>gt_db := db\<rparr>) of
        (s1, Inl e) \<Rightarrow> (s1, Some (Inl e))
      | (s1, Inr _) \<Rightarrow>
     (case (case find (\<lambda>js. jst_sha js = base_commit \<and> jst_job js = name) (jb_jobsets (gt_db s1)) of
              Some js \<Rightarrow> send_own (GateDependencyChanges (ci_commit ci) jobset_id (jst_rowid js)) s1
            | None \<Rightarrow> (s1, Some (Inr ()))) of
        (s2, Some (Inr _)) \<Rightarrow>
          (let s3 = s2\<lparr>gt_summary := fst (schedule_summary (ci_commit ci) (gt_summary s2))\<rparr>
           in if strip_suffix_str ''/passthru-tests'' name = None then passthru s3 else (s3, Some (Inr ())))
      | (s2, r) \<Rightarrow> (s2, r)))))"

section \<open>Updating check runs\<close>

definition build_variant_summary_from_states :: "VariantBuildState list \<Rightarrow> string" where
  "build_variant_summary_from_states variants =
     variant_header @ concat (map (\<lambda>v. variant_line (vb_name v) (vb_build_state v)) variants)"

text \<open>The last lines of a build log (\<open>fetch_log_tail\<close>); \<open>str::lines\<close> drops a carriage return
  before the line feed and an empty last line.\<close>

definition str_lines :: "string \<Rightarrow> string list" where
  "str_lines s =
     (let ls = split_on (CHR 0x0A) s;
          ls = (if last ls = [] then butlast ls else ls)
      in map (\<lambda>l. case strip_suffix_str [CHR 0x0D] l of Some l' \<Rightarrow> l' | None \<Rightarrow> l) ls)"

definition fetch_log_tail :: "GateApi \<Rightarrow> DrvId \<Rightarrow> nat \<Rightarrow> string option" where
  "fetch_log_tail api drv_id n =
     (case ga_log api drv_id of
        None \<Rightarrow> None
      | Some content \<Rightarrow>
          (let all_lines = str_lines content in
           if all_lines = [] then None
           else Some (join_with nl (drop (length all_lines - n) all_lines))))"

definition pending_update :: "CheckRunRow \<Rightarrow> string \<Rightarrow> string \<Rightarrow> LocalState \<Rightarrow> string option \<Rightarrow> string option \<Rightarrow> PendingUpdate" where
  "pending_update c repo_node node st log_tail title =
     \<lparr> pu_repo_node_id = repo_node, pu_check_run_node_id = node, pu_owner = cr_repo_owner c,
       pu_status = fst (build_state_to_graphql st), pu_conclusion = snd (build_state_to_graphql st),
       pu_log_tail = log_tail, pu_output_title = title \<rparr>"

text \<open>A check run is updated in the next batch when its node ids are known, by a request otherwise.
  The output of a request is the title and the summary.\<close>

definition update_check_run ::
  "GateApi \<Rightarrow> CheckRunRow \<Rightarrow> LocalState \<Rightarrow> string option \<Rightarrow> string option \<Rightarrow> (string \<times> string) option \<Rightarrow>
   GateService \<Rightarrow> GateService \<times> (anyhow, unit) result" where
  "update_check_run api c st log_tail title rest_output s =
     (case (cr_node_id c, ga_repo_node api (cr_repo_owner c) (cr_repo_name c)) of
        (Some node, Some repo_node) \<Rightarrow> (queue_update (pending_update c repo_node node st log_tail title) s, Inr ())
      | _ \<Rightarrow>
          if \<not> ga_installed api (cr_repo_owner c) then (s, Inl no_installation)
          else let (status, conclusion) = as_gh_checkrun_state st in
               (case rest api (UpdateRun (cr_repo_owner c) (cr_repo_name c) (cr_id c) status conclusion rest_output) s of
                  (s', Inl e) \<Rightarrow> (s', Inl e)
                | (s', Inr _) \<Rightarrow> (s', Inr ())))"

definition update_gate ::
  "GateApi \<Rightarrow> (VariantBuildState \<Rightarrow> LocalState) \<Rightarrow> LocalState \<Rightarrow> string option \<Rightarrow> string \<Rightarrow> CheckRunRow \<Rightarrow>
   GateService \<Rightarrow> GateService \<times> (anyhow, unit) result" where
  "update_gate api state_of st log_tail debug_title c s =
     (let variants = variant_states_for_check_run (cr_id c) (gt_db s) in
      if 1 < length variants
      then let summary = build_variant_summary_from_states variants in
           update_check_run api c (aggregate_build_state (map state_of variants)) (Some summary) (Some ''Variant Status'')
             (Some (''Variant Status'', summary)) s
      else update_check_run api c st log_tail None
             (map_option (\<lambda>log. (debug_title, ''```'' @ nl @ log @ nl @ ''```'')) log_tail) s)"

fun update_gates ::
  "GateApi \<Rightarrow> (VariantBuildState \<Rightarrow> LocalState) \<Rightarrow> LocalState \<Rightarrow> string option \<Rightarrow> string \<Rightarrow> CheckRunRow list \<Rightarrow>
   GateService \<Rightarrow> GateService \<times> (anyhow, unit) result" where
  "update_gates api state_of st log_tail debug_title [] s = (s, Inr ())"
| "update_gates api state_of st log_tail debug_title (c # cs) s =
     (case update_gate api state_of st log_tail debug_title c s of
        (s', Inl e) \<Rightarrow> (s', Inl e)
      | (s', Inr _) \<Rightarrow> update_gates api state_of st log_tail debug_title cs s')"

text \<open>\<open>debug_text\<close> is the derived \<open>Debug\<close> text of a state, the title of an updated check run.\<close>

definition handle_update_build_status ::
  "GateApi \<Rightarrow> (LocalState \<Rightarrow> string) \<Rightarrow> DrvId \<Rightarrow> LocalState \<Rightarrow> GateService \<Rightarrow> GateService \<times> (anyhow, unit) result" where
  "handle_update_build_status api debug_text drv_id status s =
     update_gates api (\<lambda>v. if vb_drv_path v = drv_id then status else vb_build_state v) status
       (if local_is_failure status then fetch_log_tail api drv_id 25 else None) (debug_text status)
       (check_runs_for_drv_path drv_id (gt_db s)) s"

text \<open>All check runs of a commit again; what fails is only counted.\<close>

fun first_of_each :: "CheckRunRow list \<Rightarrow> int list \<Rightarrow> CheckRunRow list" where
  "first_of_each [] seen = []"
| "first_of_each (c # cs) seen =
     (if cr_id c \<in> set seen then first_of_each cs seen else c # first_of_each cs (cr_id c # seen))"

definition resync_one :: "GateApi \<Rightarrow> CheckRunRow \<times> LocalState \<Rightarrow> GateService \<Rightarrow> GateService" where
  "resync_one api = (\<lambda>(c, st) s. fst (update_gate api vb_build_state st None [] c s))"

definition handle_resync_check_runs :: "GateApi \<Rightarrow> string \<Rightarrow> GateService \<Rightarrow> GateService" where
  "handle_resync_check_runs api sha s =
     (let rows = remdups (check_runs_of_sha sha (gt_db s)) in
      fold (\<lambda>c. resync_one api (c, the (map_of rows c))) (first_of_each (map fst rows) []) s)"

section \<open>A failed drv without a check run\<close>

definition handle_create_failure_check_run ::
  "GateApi \<Rightarrow> DrvId \<Rightarrow> int \<Rightarrow> string \<Rightarrow> JobDifference \<Rightarrow> GateService \<Rightarrow> gate_outcome" where
  "handle_create_failure_check_run api drv_id jobset_id job_attr_name difference s =
     (case get_jobset_by_id jobset_id (gt_db s) of
        None \<Rightarrow> (s, Some (Inl row_not_found))
      | Some js \<Rightarrow>
     if \<not> ga_installed api (jst_owner js) then (s, Some (Inl no_installation))
     else let state = (case q_get_drv drv_id (jb_tables (gt_db s)) of
                         Some d \<Rightarrow> ld_build_state d | None \<Rightarrow> LocalCompleted LocalFailure);
              ci = \<lparr> ci_commit = jst_sha js, ci_base_commit = None, ci_owner = jst_owner js, ci_repo_name = jst_repo_name js \<rparr>;
              single = (\<lambda>s. apsnd Some (create_and_file api ci
                 (create_gh_check_run ci (jst_job js) job_attr_name state difference) [drv_id] s))
          in case split_once (CHR ''.'') job_attr_name of
               None \<Rightarrow> single s
             | Some (pre, _) \<Rightarrow>
                 (case find_coalesced_check_run_for_group jobset_id pre (gt_db s) of
                    Some (existing, node) \<Rightarrow>
                      (case insert_check_run_info existing drv_id (jst_repo_name js) (jst_owner js) node (gt_db s) of
                         Inl e \<Rightarrow> (s, Some (Inl e))
                       | Inr db \<Rightarrow> send_own (GateUpdateBuildStatus drv_id state) (s\<lparr>gt_db := db\<rparr>))
                  | None \<Rightarrow>
                      (let group_jobs = get_group_jobs_in_jobset jobset_id pre (gt_db s) in
                       if 1 < length group_jobs
                       then apsnd Some (create_and_file api ci
                              (create_coalesced_gh_check_run ci (jst_job js) pre
                                 (aggregate_build_state (map nc_build_state group_jobs))
                                 (fold (\<lambda>v acc. worst_difference acc (nc_difference v)) group_jobs DiffRemoved)
                                 (build_variant_summary group_jobs))
                              (map nc_drv_path group_jobs) s)
                       else single s)))"

section \<open>Cancelling a commit\<close>

text \<open>The check runs of its drvs; a failed request is only logged.  The configure and the eval
  gates, which are cancelled before, are in memory.\<close>

definition cancel_call :: "CheckRunRow \<Rightarrow> GateCall" where
  "cancel_call c =
     (let (status, conclusion) = as_gh_checkrun_state (LocalInterrupted LocalCancelled)
      in UpdateRun (cr_repo_owner c) (cr_repo_name c) (cr_id c) status conclusion None)"

definition cancel_job_check_runs :: "GateApi \<Rightarrow> CICheckInfo \<Rightarrow> GateService \<Rightarrow> GateService \<times> (anyhow, unit) result" where
  "cancel_job_check_runs api ci s =
     (if \<not> ga_installed api (ci_owner ci) then (s, Inl no_installation)
      else (fold (\<lambda>c s. fst (rest api (cancel_call c) s)) (remdups (check_runs_for_commit (ci_commit ci) (gt_db s))) s, Inr ()))"

section \<open>Jobsets of the other forges\<close>

record ForgeJobSetRow =
  fw_rowid :: int
  fw_sha :: string
  fw_job :: string
  fw_owner :: string
  fw_repo_name :: string
  fw_domain :: string

definition next_forge_rowid :: "ForgeJobSetRow list \<Rightarrow> int" where
  "next_forge_rowid rows = fold (max \<circ> fw_rowid) rows 0 + 1"

text \<open>\<open>create_job_set\<close> of GitLab and Gitea: \<open>UNIQUE (sha, job, domain) ON CONFLICT IGNORE\<close> with
  \<open>RETURNING ROWID\<close>, then the jobs go to GitHub's table under that row id.\<close>

definition forge_create_job_set ::
  "string \<Rightarrow> CICheckInfo \<Rightarrow> string \<Rightarrow> NixEvalDrv list \<Rightarrow> ForgeJobSetRow list \<times> JobsetDb \<times> SummaryService \<Rightarrow>
   (ForgeJobSetRow list \<times> JobsetDb \<times> SummaryService) \<times> (anyhow, unit) result" where
  "forge_create_job_set domain ci name jobs = (\<lambda>(rows, db, S).
     if list_ex (\<lambda>r. fw_sha r = ci_commit ci \<and> fw_job r = name \<and> fw_domain r = domain) rows
     then ((rows, db, S), Inl row_not_found)
     else let jid = next_forge_rowid rows;
              rows = rows @ [\<lparr> fw_rowid = jid, fw_sha = ci_commit ci, fw_job = name, fw_owner = ci_owner ci,
                         fw_repo_name = ci_repo_name ci, fw_domain = domain \<rparr>]
          in case create_jobs_for_jobset jid jobs None db of
               (db', Inl e) \<Rightarrow> ((rows, db', S), Inl e)
             | (db', Inr _) \<Rightarrow>
                 ((rows, db', if ci_base_commit ci = None then S else fst (schedule_summary (ci_commit ci) S)), Inr ()))"

end
