(* ===== verification/Check_Props.thy ===== *)
theory Check_Props
  imports Check_Runs
begin

text \<open>
  What holds of check runs: the text of a batched update, the accounting of a flush, the two
  tables of conclusions, the state a gate reports, the gates and builds of a new jobset, and
  which check runs a cancelled commit ends.
\<close>

section \<open>String literals of GraphQL\<close>

text \<open>A string value of the GraphQL specification (October 2021), from after its opening quote:
  the text it denotes and what follows the closing quote.  The code points up to \<open>U+001F\<close> other
  than tab are not source characters, and a line ends the literal.  \<open>\u\<close> escapes, which are
  never written, are left out.\<close>

definition gql_string_char :: "char \<Rightarrow> bool" where
  "gql_string_char c = (c = CHR 0x09 \<or> (32 :: nat) \<le> of_char c)"

fun gql_unescape :: "char \<Rightarrow> char option" where
  "gql_unescape c =
     (if c = quote then Some quote else if c = backslash then Some backslash else if c = CHR ''/'' then Some (CHR ''/'')
      else if c = CHR ''b'' then Some (CHR 0x08) else if c = CHR ''f'' then Some (CHR 0x0C)
      else if c = CHR ''n'' then Some (CHR 0x0A) else if c = CHR ''r'' then Some (CHR 0x0D)
      else if c = CHR ''t'' then Some (CHR 0x09) else None)"

fun gql_read :: "string \<Rightarrow> (string \<times> string) option" where
  "gql_read [] = None"
| "gql_read [c] = (if c = quote then Some ([], []) else None)"
| "gql_read (c # d # cs) =
     (if c = quote then Some ([], d # cs)
      else if c = backslash
      then (case gql_unescape d of Some x \<Rightarrow> map_option (apfst ((#) x)) (gql_read cs) | None \<Rightarrow> None)
      else if gql_string_char c then map_option (apfst ((#) c)) (gql_read (d # cs)) else None)"

definition esc_char :: "char \<Rightarrow> string" where
  "esc_char c =
     (if c = backslash then [backslash, backslash] else if c = quote then [backslash, quote]
      else if c = CHR 0x0A then [backslash, CHR ''n''] else [c])"

lemma special_chars [simp]:
  "backslash \<noteq> quote" "quote \<noteq> backslash" "backslash \<noteq> CHR 0x0A" "quote \<noteq> CHR 0x0A"
  "backslash \<noteq> CHR ''n''" "quote \<noteq> CHR ''n''" "CHR ''n'' \<noteq> backslash" "CHR ''n'' \<noteq> quote"
  by (simp_all add: backslash_def quote_def)

lemma gql_escape_eq: "gql_escape s = concat (map esc_char s)"
  by (induction s) (auto simp: gql_escape_def replace_char_def esc_char_def)

lemma gql_read_plain:
  "c \<noteq> quote \<Longrightarrow> c \<noteq> backslash \<Longrightarrow>
   gql_read (c # cs) = (if gql_string_char c \<and> cs \<noteq> [] then map_option (apfst ((#) c)) (gql_read cs) else None)"
  by (cases cs) auto

lemma gql_read_quote: "gql_read (quote # cs) = Some ([], cs)"
  by (cases cs) auto

lemma gql_read_esc: "gql_read (backslash # c # cs) = (case gql_unescape c of Some x \<Rightarrow> map_option (apfst ((#) x)) (gql_read cs) | None \<Rightarrow> None)"
  by simp

text \<open>What a batched update writes between quotes is read back exactly as it was, and not
  readable at all when it has a control character other than a tab or a line feed: the escapes
  cover quotes, backslashes and line feeds, not carriage returns and escape sequences, which
  build logs have.\<close>

theorem graphql_literal_exact:
  "gql_read (gql_escape s @ quote # follow) =
     (if list_all (\<lambda>c. c = CHR 0x0A \<or> gql_string_char c) s then Some (s, follow) else None)"
proof (induction s)
  case (Cons c s)
  let ?t = "concat (map esc_char s) @ quote # follow"
  have IH: "gql_read ?t = (if list_all (\<lambda>c. c = CHR 0x0A \<or> gql_string_char c) s then Some (s, follow) else None)"
    using Cons by (simp add: gql_escape_eq)
  have sc: "gql_string_char backslash" "gql_string_char quote" by (simp_all add: gql_string_char_def backslash_def quote_def)
  consider "c = backslash" | "c = quote" | "c = CHR 0x0A" | "c \<noteq> backslash" "c \<noteq> quote" "c \<noteq> CHR 0x0A" by blast
  then show ?case
    by cases (simp_all add: gql_escape_eq esc_char_def gql_read_esc gql_read_plain IH sc del: gql_read.simps)
qed (simp add: gql_escape_eq gql_read_quote)

section \<open>Flushing a batch\<close>

lemma send_batch_le: "send_batch post us = Inr n \<Longrightarrow> n \<le> length us"
  using length_filter_le [of _ "[0..<length us]"] by (auto simp: send_batch_def split: if_splits sum.splits)

lemma flush_chunk_sum:
  "flush_chunk post chunk (a, b) = (a', b') \<Longrightarrow> a' + b' = a + b + length chunk"
  by (auto simp: flush_chunk_def split: sum.splits dest: send_batch_le)

lemma flush_chunks_sum:
  "fold (flush_chunk post) cs (a, b) = (a', b') \<Longrightarrow> a' + b' = a + b + length (concat cs)"
proof (induction cs arbitrary: a b)
  case (Cons c cs)
  obtain x y where xy: "flush_chunk post c (a, b) = (x, y)" by (rule prod.exhaust)
  with Cons.prems Cons.IH [of x y] flush_chunk_sum [OF xy] show ?case by simp
qed simp

lemma flush_owner_sum:
  "flush_owner octocrab (owner, us) (a, b) = (a', b') \<Longrightarrow> a' + b' = a + b + length us"
  using flush_chunks_sum [of _ "chunks MAX_BATCH_SIZE us" a b a' b']
  by (auto simp: flush_owner_def split: option.splits)

lemma flush_owners_sum:
  "fold (flush_owner octocrab) gs (a, b) = (a', b') \<Longrightarrow> a' + b' = a + b + length (concat (map snd gs))"
proof (induction gs arbitrary: a b)
  case (Cons g gs)
  obtain x y where xy: "flush_owner octocrab g (a, b) = (x, y)" by (rule prod.exhaust)
  then have "x + y = a + b + length (snd g)" using flush_owner_sum by (metis prod.collapse)
  with Cons.prems Cons.IH [of x y] xy show ?case by simp
qed simp

lemma length_drain: "length (concat (map snd (drain us))) = length us"
proof -
  have "length us = sum_list (map (\<lambda>o'. length (filter (\<lambda>u. pu_owner u = o') us)) os)"
    if "distinct os" "pu_owner ` set us \<subseteq> set os" for os
    using that
  proof (induction us)
    case (Cons u us)
    have "(\<Sum>o'\<leftarrow>os. length (filter (\<lambda>x. pu_owner x = o') (u # us))) =
        (\<Sum>o'\<leftarrow>os. (if pu_owner u = o' then 1 else 0) + length (filter (\<lambda>x. pu_owner x = o') us))"
      by (rule arg_cong [where f = sum_list]) simp
    also have "\<dots> = (\<Sum>o'\<leftarrow>os. if pu_owner u = o' then 1 else 0) + (\<Sum>o'\<leftarrow>os. length (filter (\<lambda>x. pu_owner x = o') us))"
      by (rule sum_list_addf)
    also have "(\<Sum>o'\<leftarrow>os. if pu_owner u = o' then 1 else (0 :: nat)) = 1"
      using Cons.prems by (simp add: sum_list_distinct_conv_sum_set)
    finally show ?case using Cons by simp
  qed (simp add: sum_list_0)
  from this [of "remdups (map pu_owner us)"] show ?thesis
    by (simp add: drain_def length_concat o_def)
qed

text \<open>A flush accounts for every pending update, in the sent or in the failed count, and
  keeps none: an update that failed is not tried again.\<close>

theorem flush_accounts:
  "\<exists>sent failed. batcher_flush octocrab pending = ([], sent, failed) \<and> sent + failed = length pending"
proof -
  obtain sent failed where "fold (flush_owner octocrab) (drain pending) (0, 0) = (sent, failed)" by (rule prod.exhaust)
  then show ?thesis using flush_owners_sum [of octocrab "drain pending" 0 0] by (simp add: batcher_flush_def length_drain)
qed

section \<open>Conclusions\<close>

fun graphql_status :: "GHStatus \<Rightarrow> string" where
  "graphql_status GHQueued = ''QUEUED''"
| "graphql_status GHInProgress = ''IN_PROGRESS''"
| "graphql_status GHCompleted = ''COMPLETED''"

fun graphql_conclusion :: "GHConclusion \<Rightarrow> string" where
  "graphql_conclusion GHSuccess = ''SUCCESS''"
| "graphql_conclusion GHFailure = ''FAILURE''"
| "graphql_conclusion GHTimedOut = ''TIMED_OUT''"
| "graphql_conclusion GHNeutral = ''NEUTRAL''"
| "graphql_conclusion GHActionRequired = ''ACTION_REQUIRED''"

text \<open>A check run shows the same status and conclusion whether it is updated by a request or
  in a batch, for every state but one: a blocked drv asks for action in the one and has
  failed in the other.\<close>

theorem batch_and_request_agree:
  "build_state_to_graphql st = map_prod graphql_status (map_option graphql_conclusion) (as_gh_checkrun_state st) \<longleftrightarrow>
   st \<noteq> LocalBlocked"
  by (cases st rule: build_state_to_graphql.cases) simp_all

section \<open>What a gate reports\<close>

definition check_wf :: "JobsetDb \<Rightarrow> bool" where
  "check_wf db =
     (jobset_wf db \<and>
      (\<forall>c\<in>set (jb_check_runs db). cr_drv c \<in> drv_paths (jb_tables db) \<and> (\<exists>j\<in>set (jb_jobs db). jt_drv j = cr_drv c)))"

definition state_in :: "JobsetDb \<Rightarrow> DrvId \<Rightarrow> LocalState" where
  "state_in db d = (case q_get_drv d (jb_tables db) of Some r \<Rightarrow> ld_build_state r | None \<Rightarrow> LocalQueued)"

lemma state_in_row:
  assumes "jobset_wf db" "r \<in> set (drv_rows (jb_tables db))"
  shows "state_in db (ld_drv_path r) = ld_build_state r"
proof -
  have "q_get_drv (ld_drv_path r) (jb_tables db) = Some r"
  proof (cases "q_get_drv (ld_drv_path r) (jb_tables db)")
    case (Some r')
    then have "r' \<in> set (drv_rows (jb_tables db))" "ld_drv_path r' = ld_drv_path r"
      by (auto simp: q_get_drv_def find_Some_iff)
    then show ?thesis using Some assms by (auto simp: jobset_wf_def distinct_map inj_on_def)
  qed (use assms(2) in \<open>auto simp: q_get_drv_def find_None_iff\<close>)
  then show ?thesis by (simp add: state_in_def)
qed

lemma set_check_run_view:
  assumes "check_wf db"
  shows "set (check_run_view db) = (\<lambda>c. (c, state_in db (cr_drv c))) ` set (jb_check_runs db)"
proof -
  have "(c, st) \<in> set (check_run_view db) \<longleftrightarrow> c \<in> set (jb_check_runs db) \<and> st = state_in db (cr_drv c)" for c st
  proof -
    have "(c, st) \<in> set (check_run_view db) \<longleftrightarrow>
        c \<in> set (jb_check_runs db) \<and> (\<exists>d\<in>set (drv_rows (jb_tables db)). ld_drv_path d = cr_drv c \<and> st = ld_build_state d)"
      by (auto simp: check_run_view_def)
    also have "\<dots> \<longleftrightarrow> c \<in> set (jb_check_runs db) \<and> st = state_in db (cr_drv c)"
    proof (intro conj_cong refl iffI)
      assume "\<exists>d\<in>set (drv_rows (jb_tables db)). ld_drv_path d = cr_drv c \<and> st = ld_build_state d"
      then show "st = state_in db (cr_drv c)" using assms state_in_row unfolding check_wf_def by metis
    next
      assume c: "c \<in> set (jb_check_runs db)" "st = state_in db (cr_drv c)"
      then obtain d where "d \<in> set (drv_rows (jb_tables db))" "ld_drv_path d = cr_drv c"
        using assms by (auto simp: check_wf_def drv_paths_def)
      then show "\<exists>d\<in>set (drv_rows (jb_tables db)). ld_drv_path d = cr_drv c \<and> st = ld_build_state d"
        using c(2) assms state_in_row unfolding check_wf_def by metis
    qed
    finally show ?thesis .
  qed
  then show ?thesis by force
qed

text \<open>The states of the drvs of a check run, with the new state of one of them.\<close>

definition reported_states :: "JobsetDb \<Rightarrow> DrvId \<Rightarrow> LocalState \<Rightarrow> int \<Rightarrow> LocalState set" where
  "reported_states db drv st cid =
     (\<lambda>c. if cr_drv c = drv then st else state_in db (cr_drv c)) ` {c \<in> set (jb_check_runs db). cr_id c = cid}"

lemma variant_drvs:
  assumes "check_wf db"
  shows "(\<lambda>v. (vb_drv_path v, vb_build_state v)) ` set (variant_states_for_check_run cid db) =
    (\<lambda>c. (cr_drv c, state_in db (cr_drv c))) ` {c \<in> set (jb_check_runs db). cr_id c = cid}"
proof -
  have "(d, st) \<in> (\<lambda>v. (vb_drv_path v, vb_build_state v)) ` set (variant_states_for_check_run cid db) \<longleftrightarrow>
      (\<exists>c. (c, st) \<in> set (check_run_view db) \<and> cr_id c = cid \<and> cr_drv c = d \<and> (\<exists>j\<in>set (jb_jobs db). jt_drv j = d))" for d st
    by (fastforce simp: variant_states_for_check_run_def image_iff)
  then have mem: "(d, st) \<in> (\<lambda>v. (vb_drv_path v, vb_build_state v)) ` set (variant_states_for_check_run cid db) \<longleftrightarrow>
      (\<exists>c\<in>set (jb_check_runs db). cr_id c = cid \<and> d = cr_drv c \<and> st = state_in db (cr_drv c))" for d st
    using assms unfolding set_check_run_view [OF assms] check_wf_def by auto
  show ?thesis
  proof (rule set_eqI)
    fix x :: "DrvId \<times> LocalState"
    show "x \<in> (\<lambda>v. (vb_drv_path v, vb_build_state v)) ` set (variant_states_for_check_run cid db) \<longleftrightarrow>
      x \<in> (\<lambda>c. (cr_drv c, state_in db (cr_drv c))) ` {c \<in> set (jb_check_runs db). cr_id c = cid}"
      by (cases x) (simp only: mem, auto)
  qed
qed

lemma gate_states:
  fixes st :: LocalState
  assumes "check_wf db" "c \<in> set (jb_check_runs db)" "cr_drv c = drv"
  defines "variants \<equiv> variant_states_for_check_run (cr_id c) db"
    and "state_of \<equiv> \<lambda>v. if vb_drv_path v = drv then st else vb_build_state v"
  shows "set (map state_of variants) = reported_states db drv st (cr_id c)" "variants \<noteq> []"
    "\<not> 1 < length variants \<Longrightarrow> reported_states db drv st (cr_id c) = {st}"
proof -
  have "state_of ` set variants = (\<lambda>(d, s). if d = drv then st else s) ` (\<lambda>v. (vb_drv_path v, vb_build_state v)) ` set variants"
    by (simp add: image_image state_of_def)
  then show states: "set (map state_of variants) = reported_states db drv st (cr_id c)"
    unfolding variants_def variant_drvs [OF assms(1)] by (simp add: image_image reported_states_def)
  have mem: "st \<in> reported_states db drv st (cr_id c)"
    using assms(2,3) by (auto simp: reported_states_def intro!: image_eqI [of _ _ c])
  then show "variants \<noteq> []" using states by auto
  then show "reported_states db drv st (cr_id c) = {st}" if "\<not> 1 < length variants"
  proof -
    have "\<exists>x. reported_states db drv st (cr_id c) = {x}"
      using that \<open>variants \<noteq> []\<close> states by (cases variants) auto
    with mem show ?thesis by (metis singletonD)
  qed
qed

lemma aggregate_set:
  assumes "set xs = S" "S \<noteq> {}"
  shows "snd (as_gh_checkrun_state (aggregate_build_state xs)) = Some GHSuccess \<longleftrightarrow> S = {LocalCompleted LocalSuccess}"
    "snd (as_gh_checkrun_state (aggregate_build_state xs)) = Some GHFailure \<longleftrightarrow>
      (\<exists>x\<in>S. snd (as_gh_checkrun_state x) = Some GHFailure)"
proof -
  have ne: "xs \<noteq> []" using assms by auto
  show "snd (as_gh_checkrun_state (aggregate_build_state xs)) = Some GHSuccess \<longleftrightarrow> S = {LocalCompleted LocalSuccess}"
    using aggregate_conclusion(1) [OF ne] assms by (cases xs) auto
  show "snd (as_gh_checkrun_state (aggregate_build_state xs)) = Some GHFailure \<longleftrightarrow>
      (\<exists>x\<in>S. snd (as_gh_checkrun_state x) = Some GHFailure)"
    using aggregate_conclusion(2) [OF ne] assms by simp
qed

text \<open>When a drv changes its state, every check run it belongs to is updated with one state of
  its drvs, which is success exactly when all of them have succeeded and fails exactly when
  one of them failed, whether or not the check run is taken for a group.\<close>

theorem gate_reports_all_variants:
  assumes "check_wf (gt_db s)" "c \<in> set (jb_check_runs (gt_db s))" "cr_drv c = drv"
  shows "\<exists>st' log title output.
    update_gate api (\<lambda>v. if vb_drv_path v = drv then st else vb_build_state v) st log_tail debug_title c s =
      update_check_run api c st' log title output s \<and>
    (snd (as_gh_checkrun_state st') = Some GHSuccess \<longleftrightarrow>
       reported_states (gt_db s) drv st (cr_id c) = {LocalCompleted LocalSuccess}) \<and>
    (snd (as_gh_checkrun_state st') = Some GHFailure \<longleftrightarrow>
       (\<exists>x\<in>reported_states (gt_db s) drv st (cr_id c). snd (as_gh_checkrun_state x) = Some GHFailure))"
proof -
  let ?vs = "variant_states_for_check_run (cr_id c) (gt_db s)"
  let ?R = "reported_states (gt_db s) drv st (cr_id c)"
  let ?f = "\<lambda>v. if vb_drv_path v = drv then st else vb_build_state v"
  note gs = gate_states(1) [OF assms, of st] gate_states(2) [OF assms] gate_states(3) [OF assms, of st]
  have ne: "?R \<noteq> {}" unfolding gs(1) [symmetric] set_map image_is_empty using gs(2) by (simp only: set_empty not_False_eq_True)
  show ?thesis
  proof (cases "1 < length ?vs")
    case True
    then show ?thesis
      using aggregate_set [OF gs(1) ne]
      by (intro exI [of _ "aggregate_build_state (map ?f ?vs)"] exI conjI) (simp add: update_gate_def Let_def, assumption+)
  next
    case False
    have "snd (as_gh_checkrun_state st) = Some GHSuccess \<longleftrightarrow> ?R = {LocalCompleted LocalSuccess}"
      unfolding gs(3) [OF False] gh_success by simp
    then show ?thesis
      using False gs(3) [OF False] by (intro exI [of _ st] exI conjI) (simp add: update_gate_def Let_def, assumption, simp)
  qed
qed

text \<open>Two commits with the same drv; its check run was created for the second.\<close>

definition demo_run :: CheckRunRow where
  "demo_run = \<lparr> cr_id = 7, cr_drv = demo_id_b, cr_repo_name = ''r'', cr_repo_owner = ''o'', cr_node_id = None \<rparr>"

definition demo_gate_db :: JobsetDb where
  "demo_gate_db = \<lparr> jb_tables = demo_tables,
     jb_jobsets = [\<lparr> jst_rowid = 1, jst_sha = ''old'', jst_job = ''ci'', jst_owner = ''o'', jst_repo_name = ''r'' \<rparr>,
                   \<lparr> jst_rowid = 2, jst_sha = ''new'', jst_job = ''ci'', jst_owner = ''o'', jst_repo_name = ''r'' \<rparr>],
     jb_configs = [],
     jb_jobs = [\<lparr> jt_jobset = 1, jt_drv = demo_id_b, jt_name = ''b'', jt_difference = DiffNew \<rparr>,
                \<lparr> jt_jobset = 2, jt_drv = demo_id_b, jt_name = ''b'', jt_difference = DiffNew \<rparr>],
     jb_check_runs = [demo_run], jb_cache = [] \<rparr>"

definition demo_gate :: GateService where
  "demo_gate = \<lparr> gt_db = demo_gate_db, gt_pending = [], gt_calls = [], gt_tasks = [], gt_ingress = [],
     gt_summary = \<lparr> ss_pending = [], ss_checks = [], ss_posts = [] \<rparr> \<rparr>"

definition demo_gate_api :: GateApi where
  "demo_gate_api = \<lparr> ga_installed = (\<lambda>_. True), ga_rest = (\<lambda>_ _. Inr (8, ''n'')), ga_repo_node = (\<lambda>_ _. None), ga_log = (\<lambda>_. None) \<rparr>"

definition demo_ci :: "string \<Rightarrow> CICheckInfo" where
  "demo_ci sha = \<lparr> ci_commit = sha, ci_base_commit = Some ''base'', ci_owner = ''o'', ci_repo_name = ''r'' \<rparr>"

lemma demo_check_wf: "check_wf (gt_db demo_gate)"
  by (simp add: check_wf_def jobset_wf_def demo_gate_def demo_gate_db_def demo_tables_def drv_paths_def demo_row_def
      demo_ids_valid demo_ids_neq demo_run_def)

theorem gate_reports_all_variants_witness:
  "\<exists>st' log title output.
    update_gate demo_gate_api (\<lambda>v. if vb_drv_path v = demo_id_b then LocalCompleted LocalFailure else vb_build_state v)
      (LocalCompleted LocalFailure) None [] demo_run demo_gate =
      update_check_run demo_gate_api demo_run st' log title output demo_gate \<and>
    snd (as_gh_checkrun_state st') = Some GHFailure"
proof -
  have mem: "demo_run \<in> set (jb_check_runs (gt_db demo_gate))" "cr_drv demo_run = demo_id_b"
    by (simp_all add: demo_gate_def demo_gate_db_def demo_run_def)
  have "LocalCompleted LocalFailure \<in> reported_states (gt_db demo_gate) demo_id_b (LocalCompleted LocalFailure) (cr_id demo_run)"
    using mem by (auto simp: reported_states_def intro!: image_eqI [of _ _ demo_run])
  then have "\<exists>x\<in>reported_states (gt_db demo_gate) demo_id_b (LocalCompleted LocalFailure) (cr_id demo_run).
      snd (as_gh_checkrun_state x) = Some GHFailure" by force
  then show ?thesis
    using gate_reports_all_variants [OF demo_check_wf mem, of demo_gate_api "LocalCompleted LocalFailure" None "[]"] by blast
qed

text \<open>The drv is in two jobsets, so its own check run is taken for a group of two variants, and
  the build log of its failure is left out.\<close>

lemma shared_drv_taken_for_group:
  "length (variant_states_for_check_run 7 demo_gate_db) = 2"
  by (simp add: variant_states_for_check_run_def check_run_view_def demo_gate_db_def demo_run_def demo_tables_def demo_row_def
      demo_ids_neq)

text \<open>The table under the conclusion has the states before the update.\<close>

lemma variant_table_is_stale:
  assumes "variant_states_for_check_run (cr_id c) (gt_db s) = vs" "1 < length vs"
  shows "update_gate api state_of st log_tail debug_title c s =
    update_check_run api c (aggregate_build_state (map state_of vs)) (Some (build_variant_summary_from_states vs))
      (Some ''Variant Status'') (Some (''Variant Status'', build_variant_summary_from_states vs)) s"
  using assms by (simp add: update_gate_def Let_def)

text \<open>The pattern of a group also matches other groups: an underscore stands for any character.\<close>

lemma like_matches_other_group: "like (group_pattern ''a_b'') ''axb.c''" "like (group_pattern ''Qt'') ''qt.base''"
  by code_simp+

text \<open>A handler that sends a task to the queue it empties waits for ever when that queue is full.\<close>

lemma own_queue_full: "length (gt_tasks s) = QUEUE_CAPACITY \<Longrightarrow> send_own task s = (s, None)"
  by (simp add: send_own_def)

section \<open>The gates and the builds of a jobset\<close>




lemma dispatch_builds_db [simp]: "gt_db (dispatch_builds ingress v jobs s) = gt_db s"
  by (simp add: dispatch_builds_def Let_def split: option.split bool.split)




section \<open>Cancelling a commit\<close>

lemma cancel_calls:
  "gt_calls (fold (\<lambda>c s. fst (rest api (f c) s)) cs s) = gt_calls s @ map f cs"
  by (induction cs arbitrary: s) (simp_all add: rest_def)

text \<open>Cancelling a commit ends, as cancelled, exactly the check runs of the drvs in its
  jobsets that are queued, buildable or building.  A check run is found by its drv, so the
  check runs of another commit that has the same drv end with it.\<close>

theorem cancel_goes_by_drv:
  assumes "check_wf (gt_db s)" "ga_installed api (ci_owner ci)"
  shows "\<exists>cs s'. cancel_job_check_runs api ci s = (s', Inr ()) \<and> gt_calls s' = gt_calls s @ map cancel_call cs \<and>
    distinct cs \<and>
    set cs = {c \<in> set (jb_check_runs (gt_db s)). state_in (gt_db s) (cr_drv c) \<in> {LocalQueued, LocalBuildable, LocalBuilding} \<and>
      (\<exists>j\<in>set (jb_jobs (gt_db s)). jt_drv j = cr_drv c \<and>
        (\<exists>js\<in>set (jb_jobsets (gt_db s)). jst_rowid js = jt_jobset j \<and> jst_sha js = ci_commit ci))}"
proof -
  let ?cs = "remdups (check_runs_for_commit (ci_commit ci) (gt_db s))"
  have "set ?cs = {c \<in> set (jb_check_runs (gt_db s)). state_in (gt_db s) (cr_drv c) \<in> {LocalQueued, LocalBuildable, LocalBuilding} \<and>
      (\<exists>j\<in>set (jb_jobs (gt_db s)). jt_drv j = cr_drv c \<and>
        (\<exists>js\<in>set (jb_jobsets (gt_db s)). jst_rowid js = jt_jobset j \<and> jst_sha js = ci_commit ci))}"
    by (force simp: check_runs_for_commit_def check_runs_of_sha_def set_check_run_view [OF assms(1)])
  then show ?thesis
    using assms(2) cancel_calls [of api cancel_call ?cs s]
    by (intro exI [of _ ?cs] exI conjI) (simp_all add: cancel_job_check_runs_def)
qed

theorem cancel_goes_by_drv_witness:
  "\<exists>s'. cancel_job_check_runs demo_gate_api (demo_ci ''old'') demo_gate = (s', Inr ()) \<and>
     gt_calls s' = [cancel_call demo_run]"
proof -
  have "ga_installed demo_gate_api (ci_owner (demo_ci ''old''))" by (simp add: demo_gate_api_def)
  from cancel_goes_by_drv [OF demo_check_wf this] obtain cs s'
    where c: "cancel_job_check_runs demo_gate_api (demo_ci ''old'') demo_gate = (s', Inr ())"
      "gt_calls s' = gt_calls demo_gate @ map cancel_call cs" "distinct cs"
      "set cs = {c \<in> set (jb_check_runs (gt_db demo_gate)).
         state_in (gt_db demo_gate) (cr_drv c) \<in> {LocalQueued, LocalBuildable, LocalBuilding} \<and>
         (\<exists>j\<in>set (jb_jobs (gt_db demo_gate)). jt_drv j = cr_drv c \<and>
           (\<exists>js\<in>set (jb_jobsets (gt_db demo_gate)). jst_rowid js = jt_jobset j \<and> jst_sha js = ci_commit (demo_ci ''old'')))}"
    by blast
  have "state_in demo_gate_db demo_id_b = LocalQueued"
    by (simp add: state_in_def q_get_drv_def demo_gate_db_def demo_tables_def demo_row_def demo_ids_neq)
  then have "set cs = {demo_run}" unfolding c(4) by (auto simp: demo_gate_def demo_gate_db_def demo_run_def demo_ci_def)
  then have "cs = [demo_run]" using c(3) by (cases cs) (auto simp: subset_singleton_iff)
  then show ?thesis using c(1,2) by (simp add: demo_gate_def)
qed

section \<open>The other forges\<close>

lemma insert_all_new:
  assumes "\<forall>job\<in>set jobs. \<exists>d. local_DrvId_try_from (ne_drv_path job) = Inr d \<and> d \<in> drv_paths (jb_tables db)" "jobs \<noteq> []"
  shows "create_jobs_for_jobset jid jobs None db =
    (if jid \<in> jst_rowid ` set (jb_jobsets db)
     then (db\<lparr>jb_jobs := fold add_job (List.map_filter (job_row jid Map.empty) jobs) (jb_jobs db)\<rparr>, Inr ())
     else (db, Inl constraint_error))"
proof -
  have "eval_ids jobs \<subseteq> drv_paths (jb_tables db)" using assms(1) by (fastforce simp: eval_ids_def)
  moreover obtain job d where "job \<in> set jobs" "local_DrvId_try_from (ne_drv_path job) = Inr d"
    using assms by (metis list.set_intros(1) neq_Nil_conv)
  then have "\<exists>r\<in>set (List.map_filter (job_row jid Map.empty) jobs). jt_jobset r = jid"
    by (auto simp: set_job_rows job_row_Some intro!: exI [of _ "\<lparr> jt_jobset = jid, jt_drv = d, jt_name = ne_attr job, jt_difference = DiffNew \<rparr>"])
  then have "create_jobs_for_jobset jid jobs None db = (db, Inl constraint_error)" if "jid \<notin> jst_rowid ` set (jb_jobsets db)"
    using that assms(2) by (auto simp: create_jobs_for_jobset_def insert_job_rows_eq Let_def)
  ultimately show ?thesis using create_jobs_eq [of jobs db jid None] by simp
qed

text \<open>The jobs of a GitLab or Gitea jobset are filed in the table of GitHub's jobs under the
  row id of the forge's own table.  When GitHub has a jobset of that number they become jobs
  of it; when it has none, the foreign key fails and the jobset stays without jobs.\<close>

theorem forge_jobs_filed_on_github:
  assumes "\<forall>job\<in>set jobs. \<exists>d. local_DrvId_try_from (ne_drv_path job) = Inr d \<and> d \<in> drv_paths (jb_tables db)" "jobs \<noteq> []"
    and "\<not> list_ex (\<lambda>r. fw_sha r = ci_commit ci \<and> fw_job r = name \<and> fw_domain r = domain) rows"
    and "forge_create_job_set domain ci name jobs (rows, db, S) = ((rows', db', S'), r)"
  shows "if next_forge_rowid rows \<in> jst_rowid ` set (jb_jobsets db)
    then r = Inr () \<and> (\<forall>job\<in>set jobs. \<exists>q\<in>set (jb_jobs db'). jt_jobset q = next_forge_rowid rows \<and> jt_name q = ne_attr job \<and>
           local_DrvId_try_from (ne_drv_path job) = Inr (jt_drv q))
    else r = Inl constraint_error \<and> db' = db \<and> length rows' = Suc (length rows)"
proof -
  let ?jid = "next_forge_rowid rows"
  have stored: "\<exists>q\<in>set (fold add_job rs old). same_job r q" if "r \<in> set rs" for r rs old
    using that
  proof (induction rs arbitrary: old)
    case (Cons x rs)
    obtain new where "fold add_job rs (add_job x old) = add_job x old @ new" using fold_add_job_prefix by metis
    moreover have "\<exists>q\<in>set (add_job x old). same_job x q" by (auto simp: add_job_def list_ex_iff same_job_def)
    ultimately show ?case using Cons.IH [of "add_job x old"] Cons.prems by auto
  qed simp
  show ?thesis
  proof (cases "?jid \<in> jst_rowid ` set (jb_jobsets db)")
    case True
    have db': "r = Inr ()" "db' = db\<lparr>jb_jobs := fold add_job (List.map_filter (job_row ?jid Map.empty) jobs) (jb_jobs db)\<rparr>"
      using assms(3,4) True insert_all_new [OF assms(1,2), of ?jid] by (auto simp: forge_create_job_set_def Let_def)
    have "\<exists>q\<in>set (jb_jobs db'). jt_jobset q = ?jid \<and> jt_name q = ne_attr job \<and>
        local_DrvId_try_from (ne_drv_path job) = Inr (jt_drv q)" if "job \<in> set jobs" for job
    proof -
      obtain d where d: "local_DrvId_try_from (ne_drv_path job) = Inr d" using assms(1) \<open>job \<in> set jobs\<close> by blast
      let ?r = "\<lparr> jt_jobset = ?jid, jt_drv = d, jt_name = ne_attr job, jt_difference = DiffNew \<rparr>"
      have "?r \<in> set (List.map_filter (job_row ?jid Map.empty) jobs)"
        unfolding set_job_rows using that d by (auto simp: job_row_Some)
      from stored [OF this, of "jb_jobs db"] d show ?thesis by (auto simp: db'(2) same_job_def)
    qed
    with True db'(1) show ?thesis by simp
  next
    case False
    then show ?thesis
      using assms(3,4) insert_all_new [OF assms(1,2), of ?jid] by (auto simp: forge_create_job_set_def Let_def)
  qed
qed

text \<open>The first jobset of a forge becomes part of GitHub's first.\<close>

theorem forge_jobs_filed_on_github_witness:
  "\<exists>q\<in>set (jb_jobs (fst (snd (fst (forge_create_job_set ''gitlab.com'' (demo_ci ''x'') ''ci'' [demo_eval ''lab'' demo_id_a]
       ([], demo_gate_db, gt_summary demo_gate)))))). jt_jobset q = 1 \<and> jt_name q = ''lab''"
proof -
  let ?jobs = "[demo_eval ''lab'' demo_id_a]"
  have a: "\<forall>job\<in>set ?jobs. \<exists>d. local_DrvId_try_from (ne_drv_path job) = Inr d \<and> d \<in> drv_paths (jb_tables demo_gate_db)"
    by (simp add: demo_eval_def demo_parse demo_gate_db_def drv_paths_def demo_tables_def demo_row_def)
  have b: "\<not> list_ex (\<lambda>r. fw_sha r = ci_commit (demo_ci ''x'') \<and> fw_job r = ''ci'' \<and> fw_domain r = ''gitlab.com'') []" by simp
  have n: "next_forge_rowid [] = 1" "1 \<in> jst_rowid ` set (jb_jobsets demo_gate_db)"
    by (simp_all add: next_forge_rowid_def demo_gate_db_def)
  obtain rows' db' S' r where c: "forge_create_job_set ''gitlab.com'' (demo_ci ''x'') ''ci'' ?jobs ([], demo_gate_db, gt_summary demo_gate) =
      ((rows', db', S'), r)" by (metis surj_pair)
  from forge_jobs_filed_on_github [OF a _ b c] n
  have "\<exists>q\<in>set (jb_jobs db'). jt_jobset q = 1 \<and> jt_name q = ''lab''" by (auto simp: demo_eval_def)
  with c show ?thesis by simp
qed

end
