(* ===== verification/Ci_Config.thy ===== *)
theory Ci_Config
  imports Complex_Main Check_Runs Permissions
begin

text \<open>
  The configuration of a repository, \<open>.ekaci/config.json\<close>: its data and the search for keys that
  no field reads (\<open>ci_config/src/lib.rs\<close> and \<open>unknown_keys.rs\<close>), the places it is read from and
  the path of a job's file (\<open>server/src/ci/mod.rs\<close>), and the outputs of a flake that become gates
  (\<open>server/src/ci/flake.rs\<close>).  Deserialisation, the file system and \<open>nix eval\<close> are arguments; a
  \<open>HashMap\<close> is the list of its entries in iteration order.
\<close>

section \<open>Data\<close>

record SizeCheck =
  sk_max_increase_percent :: real
  sk_base_branch :: string

record PassthruTestsConfig =
  pt_enable :: bool

record Job =
  j_file :: string
  j_allow_eval_failures :: bool
  j_caches :: "string list"
  j_size_check :: "SizeCheck option"
  j_passthru_tests :: "PassthruTestsConfig option"

record Check =
  ck_shell :: "string option"
  ck_shell_nix :: bool
  ck_command :: string
  ck_allow_network :: bool

record Skill =
  sl_prompt_file :: string
  sl_model :: "string option"
  sl_advisory :: bool

record FlakeConfig =
  fl_checks_enable :: bool
  fl_packages_enable :: bool

record CIConfig = SummaryCIConfig +
  cc_jobs :: "(string \<times> Job) list"
  cc_checks :: "(string \<times> Check) list"
  cc_skills :: "(string \<times> Skill) list"
  cc_flake :: "FlakeConfig option"
  cc_unknown_keys :: "string list"

section \<open>Keys that no field reads\<close>

text \<open>\<open>serde_json::Value\<close>; a number is its text.\<close>

datatype Value = Null | Bool bool | Number string | String string | Array "Value list" | Object "(string \<times> Value) list"

definition ALIASES :: "(string \<times> string) list" where
  "ALIASES = [(''allow-eval-failures'', ''allow_eval_failures'')]"

definition canonical :: "string \<Rightarrow> string option" where
  "canonical key = map_of ALIASES key"

definition known_get :: "(string \<times> Value) list \<Rightarrow> string \<Rightarrow> Value option" where
  "known_get known key =
     (case map_of known key of
        Some v \<Rightarrow> Some v
      | None \<Rightarrow> (case canonical key of Some k \<Rightarrow> map_of known k | None \<Rightarrow> None))"

definition extend_path :: "string \<Rightarrow> string \<Rightarrow> string" where
  "extend_path pre key = (if pre = [] then key else pre @ ''.'' @ key)"

fun collect_unknown :: "(string \<times> Value) list \<Rightarrow> (string \<times> Value) list \<Rightarrow> string \<Rightarrow> string list" where
  "collect_unknown [] known pre = []"
| "collect_unknown ((key, v) # input) known pre =
     (case known_get known key of
        Some (Object known_child) \<Rightarrow>
          (case v of Object child \<Rightarrow> collect_unknown child known_child (extend_path pre key) | _ \<Rightarrow> [])
      | Some _ \<Rightarrow> []
      | None \<Rightarrow> [extend_path pre key]) @ collect_unknown input known pre"

fun find_unknown :: "Value \<Rightarrow> Value \<Rightarrow> string list" where
  "find_unknown (Object input) (Object known) = collect_unknown input known []"
| "find_unknown _ _ = []"

text \<open>The derived serialisation; \<open>number\<close> prints a floating-point number.\<close>

definition opt_value :: "('a \<Rightarrow> Value) \<Rightarrow> 'a option \<Rightarrow> Value" where
  "opt_value f x = (case x of Some a \<Rightarrow> f a | None \<Rightarrow> Null)"

definition map_value :: "('a \<Rightarrow> Value) \<Rightarrow> (string \<times> 'a) list \<Rightarrow> Value" where
  "map_value f m = Object (map (apsnd f) m)"

definition job_value :: "(real \<Rightarrow> string) \<Rightarrow> Job \<Rightarrow> Value" where
  "job_value number j = Object
     [(''file'', String (j_file j)), (''allow_eval_failures'', Bool (j_allow_eval_failures j)),
      (''caches'', Array (map String (j_caches j))),
      (''size_check'', opt_value (\<lambda>c. Object [(''max_increase_percent'', Number (number (sk_max_increase_percent c))),
         (''base_branch'', String (sk_base_branch c))]) (j_size_check j)),
      (''passthru_tests'', opt_value (\<lambda>p. Object [(''enable'', Bool (pt_enable p))]) (j_passthru_tests j))]"

definition check_value :: "Check \<Rightarrow> Value" where
  "check_value c = Object
     [(''shell'', opt_value String (ck_shell c)), (''shell_nix'', Bool (ck_shell_nix c)),
      (''command'', String (ck_command c)), (''allow_network'', Bool (ck_allow_network c))]"

definition skill_value :: "Skill \<Rightarrow> Value" where
  "skill_value s = Object
     [(''prompt_file'', String (sl_prompt_file s)), (''model'', opt_value String (sl_model s)),
      (''advisory'', Bool (sl_advisory s))]"

definition flake_value :: "FlakeConfig \<Rightarrow> Value" where
  "flake_value f = Object
     [(''checks'', Object [(''enable'', Bool (fl_checks_enable f))]),
      (''packages'', Object [(''enable'', Bool (fl_packages_enable f))])]"

definition package_change_summary_value :: "PackageChangeSummaryCfg \<Rightarrow> Value" where
  "package_change_summary_value p = Object
     [(''enabled'', Bool (pcs_enabled p)),
      (''max_packages_listed'', Number (display_nat (pcs_max_packages_listed p))),
      (''include_rebuild_only'', Bool (pcs_include_rebuild_only p))]"

definition rebuild_impact_value :: "RebuildImpactCfg \<Rightarrow> Value" where
  "rebuild_impact_value r = Object
     [(''enabled'', Bool (ric_enabled r)),
      (''max_top_blast_radius'', Number (display_nat (ric_max_top_blast_radius r))),
      (''compute_full_blast_radius'', Bool (ric_compute_full_blast_radius r))]"

definition config_value :: "(real \<Rightarrow> string) \<Rightarrow> CIConfig \<Rightarrow> Value" where
  "config_value number c = Object
     [(''jobs'', map_value (job_value number) (cc_jobs c)),
      (''checks'', map_value check_value (cc_checks c)),
      (''skills'', map_value skill_value (cc_skills c)),
      (''flake'', opt_value flake_value (cc_flake c)),
      (''package_change_summary'', opt_value package_change_summary_value (sc_package_change_summary c)),
      (''rebuild_impact'', opt_value rebuild_impact_value (sc_rebuild_impact c))]"

section \<open>Reading the configuration\<close>

text \<open>The file system and \<open>serde_json\<close>: \<open>re_parse\<close> deserialises a configuration, \<open>re_value\<close> any
  JSON text, \<open>re_job_json\<close> serialises a job, \<open>re_nix_eval\<close> runs \<open>nix eval\<close> on the canonical path of
  a flake and returns the systems with their attribute names.\<close>

record RepoEnv =
  re_exists :: "string \<Rightarrow> bool"
  re_read :: "string \<Rightarrow> (anyhow, string) result"
  re_canonicalize :: "string \<Rightarrow> (anyhow, string) result"
  re_parse :: "string \<Rightarrow> (anyhow, CIConfig) result"
  re_value :: "string \<Rightarrow> (anyhow, Value) result"
  re_number :: "real \<Rightarrow> string"
  re_job_json :: "Job \<Rightarrow> string option"
  re_workspace :: "(anyhow, string) result"
  re_nix_eval :: "string \<Rightarrow> string \<Rightarrow> (anyhow, (string \<times> string list) list) result"

definition ci_config_from_str :: "RepoEnv \<Rightarrow> string \<Rightarrow> (anyhow, CIConfig) result" where
  "ci_config_from_str E s =
     (case re_parse E s of
        Inl e \<Rightarrow> Inl e
      | Inr config \<Rightarrow>
          (case re_value E s of
             Inl e \<Rightarrow> Inl e
           | Inr raw \<Rightarrow> Inr (config\<lparr>cc_unknown_keys := find_unknown raw (config_value (re_number E) config)\<rparr>)))"

text \<open>\<open>Path::join\<close>: an absolute second path replaces the first.\<close>

definition is_absolute :: "string \<Rightarrow> bool" where
  "is_absolute p = (p \<noteq> [] \<and> hd p = CHR ''/'')"

definition path_join :: "string \<Rightarrow> string \<Rightarrow> string" where
  "path_join a b =
     (if is_absolute b \<or> a = [] then b
      else if last a = CHR ''/'' then a @ b
      else a @ ''/'' @ b)"

definition config_path :: "string \<Rightarrow> string" where
  "config_path repo_root = path_join (path_join repo_root ''.ekaci'') ''config.json''"

definition read_repo_toplevel :: "RepoEnv \<Rightarrow> string \<Rightarrow> (anyhow, CIConfig) result" where
  "read_repo_toplevel E repo_root =
     (if \<not> re_exists E (config_path repo_root) then Inl (''No CI config located at '' @ config_path repo_root @ '', skipping'')
      else (case re_read E (config_path repo_root) of
              Inl e \<Rightarrow> Inl e
            | Inr contents \<Rightarrow> ci_config_from_str E contents))"

definition load_repo_ci_config_in :: "RepoEnv \<Rightarrow> string \<Rightarrow> string \<Rightarrow> string \<Rightarrow> string \<Rightarrow> string \<Rightarrow> CIConfigLoad" where
  "load_repo_ci_config_in E workspace_root domain owner repo sha =
     (let path = config_path (foldl path_join workspace_root [domain, owner, repo, ''worktrees'', sha])
      in if \<not> re_exists E path then Absent
         else case re_read E path of
                Inl e \<Rightarrow> Unreadable e
              | Inr contents \<Rightarrow>
                  (case ci_config_from_str E contents of
                     Inr config \<Rightarrow> Loaded (SummaryCIConfig.truncate config)
                   | Inl e \<Rightarrow> Invalid path e))"

definition load_repo_ci_config :: "RepoEnv \<Rightarrow> string \<Rightarrow> string \<Rightarrow> string \<Rightarrow> string \<Rightarrow> CIConfigLoad" where
  "load_repo_ci_config E domain owner repo sha =
     (case re_workspace E of
        Inr repo_root \<Rightarrow> load_repo_ci_config_in E repo_root domain owner repo sha
      | Inl e \<Rightarrow> Unreadable (''workspace root unavailable: '' @ e))"

definition resolve_file_path :: "RepoEnv \<Rightarrow> string \<Rightarrow> string \<Rightarrow> (anyhow, string) result" where
  "resolve_file_path E repo_root file_path_in_config =
     (if \<not> is_absolute file_path_in_config then Inl ''File paths must be absolute''
      else let file_part = (case strip_prefix_str ''/'' file_path_in_config of
                              Some p \<Rightarrow> p | None \<Rightarrow> file_path_in_config)
           in case reject_parent_components file_part of
                Inl e \<Rightarrow> Inl (''CI config job file path rejected lexically: '' @ e)
              | Inr _ \<Rightarrow>
                  (case canonical_within (re_canonicalize E) (path_join repo_root file_part) repo_root of
                     Inl e \<Rightarrow> Inl (''CI config job file path escapes repository root: '' @ e)
                   | Inr p \<Rightarrow> Inr p))"

section \<open>Flake outputs\<close>

datatype FlakeOutputType = FlakeCheck | FlakePackage

record FlakeOutput =
  fo_output_type :: FlakeOutputType
  fo_system :: string
  fo_name :: string

fun output_type_str :: "FlakeOutputType \<Rightarrow> string" where
  "output_type_str FlakeCheck = ''checks''"
| "output_type_str FlakePackage = ''packages''"

definition attr_path :: "FlakeOutput \<Rightarrow> string" where
  "attr_path o1 = output_type_str (fo_output_type o1) @ ''.'' @ fo_system o1 @ ''.'' @ fo_name o1"

definition flake_check_name :: "FlakeOutput \<Rightarrow> string" where
  "flake_check_name o1 = ''flake.'' @ attr_path o1"

definition build_command :: "FlakeOutput \<Rightarrow> string" where
  "build_command o1 = ''nix build .#'' @ attr_path o1"

definition enumerate_flake_outputs_in :: "RepoEnv \<Rightarrow> string \<Rightarrow> string \<Rightarrow> FlakeOutputType \<Rightarrow> (anyhow, FlakeOutput list) result" where
  "enumerate_flake_outputs_in E workspace repo_path output_type =
     (case canonical_within (re_canonicalize E) repo_path workspace of
        Inl e \<Rightarrow> Inl (''flake repo path failed containment check: '' @ e)
      | Inr repo_root \<Rightarrow>
          (case re_nix_eval E repo_root (output_type_str output_type) of
             Inl e \<Rightarrow> Inl e
           | Inr systems_map \<Rightarrow>
               Inr (concat (map (\<lambda>(system, names).
                      map (\<lambda>n. \<lparr> fo_output_type = output_type, fo_system = system, fo_name = n \<rparr>) names) systems_map))))"

definition enumerate_flake_outputs :: "RepoEnv \<Rightarrow> string \<Rightarrow> FlakeOutputType \<Rightarrow> (anyhow, FlakeOutput list) result" where
  "enumerate_flake_outputs E repo_path output_type =
     (case re_workspace E of
        Inl e \<Rightarrow> Inl (''failed to locate ekaci workspace root: '' @ e)
      | Inr workspace \<Rightarrow> enumerate_flake_outputs_in E workspace repo_path output_type)"

end
