(* ===== verification/Repo_Reader.thy ===== *)
theory Repo_Reader
  imports Ci_Config
begin

text \<open>
  The service that reads a checkout and starts its jobs, checks and skills (\<open>server/src/ci/mod.rs\<close>),
  with the tables of checks and skills (\<open>server/src/db/checks.rs\<close>, \<open>db/skills.rs\<close> and the
  migrations that create them).  The tables of the database are those the migrations leave, so an
  \<open>INSERT\<close> fails the way SQLite fails it: a table that is not there, or a \<open>NOT NULL\<close> column
  without a value.  A channel is its queue and whether its receiver still lives.
\<close>

section \<open>Sequences of effects\<close>

text \<open>The \<open>?\<close> operator: an error ends the sequence and keeps the state reached.\<close>

definition seq_then :: "('s \<Rightarrow> 's \<times> ('e, 'a) result) \<Rightarrow> ('a \<Rightarrow> 's \<Rightarrow> 's \<times> ('e, 'b) result) \<Rightarrow> 's \<Rightarrow> 's \<times> ('e, 'b) result" where
  "seq_then m f s = (case m s of (s', Inl e) \<Rightarrow> (s', Inl e) | (s', Inr a) \<Rightarrow> f a s')"

fun for_each :: "('a \<Rightarrow> 's \<Rightarrow> 's \<times> ('e, unit) result) \<Rightarrow> 'a list \<Rightarrow> 's \<Rightarrow> 's \<times> ('e, unit) result" where
  "for_each f [] s = (s, Inr ())"
| "for_each f (x # xs) s = seq_then (f x) (\<lambda>_. for_each f xs) s"

section \<open>The schema\<close>

text \<open>A column has a value of its own when it is the \<open>INTEGER PRIMARY KEY\<close> or has a default.\<close>

record Column =
  co_name :: string
  co_not_null :: bool
  co_own_value :: bool

type_synonym Schema = "(string \<times> Column list) list"

datatype Ddl =
    CreateTable bool string "Column list"
  | RenameTable string string
  | DropTable string
  | AddColumn string Column

fun run_ddl :: "Ddl \<Rightarrow> Schema \<Rightarrow> (anyhow, Schema) result" where
  "run_ddl (CreateTable if_not_exists t cols) s =
     (if t \<in> fst ` set s then (if if_not_exists then Inr s else Inl (''table '' @ t @ '' already exists''))
      else Inr (s @ [(t, cols)]))"
| "run_ddl (RenameTable a b) s =
     (if a \<notin> fst ` set s then Inl (''no such table: '' @ a)
      else if b \<in> fst ` set s then Inl (''there is already another table or index with this name: '' @ b)
      else Inr (map (\<lambda>(t, cols). (if t = a then b else t, cols)) s))"
| "run_ddl (DropTable t) s =
     (if t \<notin> fst ` set s then Inl (''no such table: '' @ t) else Inr (filter (\<lambda>(u, _). u \<noteq> t) s))"
| "run_ddl (AddColumn t c) s =
     (if t \<notin> fst ` set s then Inl (''no such table: '' @ t)
      else Inr (map (\<lambda>(u, cols). (u, if u = t then cols @ [c] else cols)) s))"

fun run_ddls :: "Ddl list \<Rightarrow> Schema \<Rightarrow> (anyhow, Schema) result" where
  "run_ddls [] s = Inr s"
| "run_ddls (d # ds) s = (case run_ddl d s of Inl e \<Rightarrow> Inl e | Inr s' \<Rightarrow> run_ddls ds s')"

definition key_col :: "string \<Rightarrow> Column" where
  "key_col n = \<lparr> co_name = n, co_not_null = False, co_own_value = True \<rparr>"

definition not_null :: "string \<Rightarrow> Column" where
  "not_null n = \<lparr> co_name = n, co_not_null = True, co_own_value = False \<rparr>"

definition nullable :: "string \<Rightarrow> Column" where
  "nullable n = \<lparr> co_name = n, co_not_null = False, co_own_value = False \<rparr>"

definition defaulted :: "string \<Rightarrow> Column" where
  "defaulted n = \<lparr> co_name = n, co_not_null = True, co_own_value = True \<rparr>"

text \<open>The statements of the migrations about the tables of checks, in the order they run.\<close>

definition migration_github :: "Ddl list" where
  "migration_github =
     [CreateTable True ''CheckRunInfo'' [key_col ''check_run_id'', not_null ''drv_id'', not_null ''repo_name'', not_null ''repo_owner'']]"

definition migration_checks :: "Ddl list" where
  "migration_checks =
     [CreateTable True ''GitHubCheckSets'' [key_col ''ROWID'', not_null ''sha'', not_null ''check_name'', not_null ''owner'', not_null ''repo_name''],
      CreateTable True ''CheckResult'' [key_col ''ROWID'', not_null ''checkset'', not_null ''success'', not_null ''exit_code'',
        nullable ''stdout'', nullable ''stderr'', not_null ''duration_ms'', not_null ''executed_at''],
      CreateTable True ''CheckRunInfo'' [key_col ''check_run_id'', not_null ''check_result_id'', not_null ''repo_name'', not_null ''repo_owner'']]"

definition migration_rename :: "Ddl list" where
  "migration_rename = [RenameTable ''CheckRunInfo'' ''GitHubCheckRuns'']"

definition migration_node_ids :: "Ddl list" where
  "migration_node_ids = [AddColumn ''GitHubCheckRuns'' (nullable ''node_id'')]"

definition migration_coalesced :: "Ddl list" where
  "migration_coalesced =
     [CreateTable False ''GitHubCheckRunsNew'' [not_null ''check_run_id'', not_null ''drv_id'', not_null ''repo_name'', not_null ''repo_owner'', nullable ''node_id''],
      DropTable ''GitHubCheckRuns'', RenameTable ''GitHubCheckRunsNew'' ''GitHubCheckRuns'']"

definition migration_skills :: "Ddl list" where
  "migration_skills =
     [CreateTable True ''SkillResult'' [key_col ''id'', not_null ''checkset_id'', not_null ''success'', defaulted ''error'',
        not_null ''reason'', not_null ''findings'', not_null ''model_id'', not_null ''duration_ms'']]"

definition migrations :: "Ddl list" where
  "migrations = migration_github @ migration_checks @ migration_rename @ migration_node_ids @ migration_coalesced @ migration_skills"

definition migrated :: Schema where
  "migrated = (case run_ddls migrations [] of Inr s \<Rightarrow> s | Inl _ \<Rightarrow> [])"

definition no_such_table :: "string \<Rightarrow> anyhow" where "no_such_table t = ''no such table: '' @ t"

text \<open>An \<open>INSERT\<close> that gives a value to the columns \<open>given\<close>.\<close>

definition insert_check :: "Schema \<Rightarrow> string \<Rightarrow> string list \<Rightarrow> (anyhow, unit) result" where
  "insert_check schema t given =
     (case map_of schema t of
        None \<Rightarrow> Inl (no_such_table t)
      | Some cols \<Rightarrow>
          (if \<exists>c \<in> set given. c \<notin> co_name ` set cols then Inl (''table '' @ t @ '' has no such column'')
           else case find (\<lambda>c. co_not_null c \<and> \<not> co_own_value c \<and> co_name c \<notin> set given) cols of
                  Some c \<Rightarrow> Inl (''NOT NULL constraint failed: '' @ t @ ''.'' @ co_name c)
                | None \<Rightarrow> Inr ()))"

section \<open>The tables of checks and skills\<close>

record CheckSetRow =
  cs_rowid :: int
  cs_sha :: string
  cs_check_name :: string
  cs_owner :: string
  cs_repo_name :: string

record CheckResultRow =
  kr_rowid :: int
  kr_checkset :: int
  kr_success :: bool
  kr_exit_code :: int
  kr_stdout :: string
  kr_stderr :: string
  kr_duration_ms :: int

record SkillResultRow =
  sr_id :: int
  sr_checkset_id :: int
  sr_success :: bool
  sr_error :: bool
  sr_reason :: string
  sr_findings :: string
  sr_model_id :: string
  sr_duration_ms :: int

record CheckRunInfoRow =
  ri_check_run_id :: int
  ri_check_result_id :: int
  ri_repo_name :: string
  ri_repo_owner :: string

record ChecksDb =
  cd_schema :: Schema
  cd_checksets :: "CheckSetRow list"
  cd_results :: "CheckResultRow list"
  cd_skills :: "SkillResultRow list"
  cd_run_infos :: "CheckRunInfoRow list"

definition next_id :: "int list \<Rightarrow> int" where
  "next_id ids = fold max ids 0 + 1"

definition same_checkset :: "string \<Rightarrow> string \<Rightarrow> string \<Rightarrow> string \<Rightarrow> CheckSetRow \<Rightarrow> bool" where
  "same_checkset sha check_name owner repo r =
     (cs_sha r = sha \<and> cs_check_name r = check_name \<and> cs_owner r = owner \<and> cs_repo_name r = repo)"

text \<open>\<open>UNIQUE (sha, check_name) ON CONFLICT IGNORE\<close>, then the row is read back by all four columns.\<close>

definition insert_github_checkset :: "string \<Rightarrow> string \<Rightarrow> string \<Rightarrow> string \<Rightarrow> ChecksDb \<Rightarrow> ChecksDb \<times> (anyhow, int) result" where
  "insert_github_checkset sha check_name owner repo db =
     (case insert_check (cd_schema db) ''GitHubCheckSets'' [''sha'', ''check_name'', ''owner'', ''repo_name''] of
        Inl e \<Rightarrow> (db, Inl e)
      | Inr _ \<Rightarrow>
          (let db' = (if list_ex (\<lambda>r. cs_sha r = sha \<and> cs_check_name r = check_name) (cd_checksets db) then db
                      else db\<lparr>cd_checksets := cd_checksets db @
                             [\<lparr> cs_rowid = next_id (map cs_rowid (cd_checksets db)), cs_sha = sha, cs_check_name = check_name,
                                cs_owner = owner, cs_repo_name = repo \<rparr>]\<rparr>)
           in (db', case find (same_checkset sha check_name owner repo) (cd_checksets db') of
                      Some r \<Rightarrow> Inr (cs_rowid r) | None \<Rightarrow> Inl row_not_found)))"

definition insert_check_result :: "int \<Rightarrow> bool \<Rightarrow> int \<Rightarrow> string \<Rightarrow> string \<Rightarrow> int \<Rightarrow> ChecksDb \<Rightarrow> ChecksDb \<times> (anyhow, int) result" where
  "insert_check_result checkset_id success exit_code stdout stderr duration_ms db =
     (case insert_check (cd_schema db) ''CheckResult'' [''checkset'', ''success'', ''exit_code'', ''stdout'', ''stderr'', ''duration_ms''] of
        Inl e \<Rightarrow> (db, Inl e)
      | Inr _ \<Rightarrow>
          if checkset_id \<notin> cs_rowid ` set (cd_checksets db) then (db, Inl constraint_error)
          else let i = next_id (map kr_rowid (cd_results db))
               in (db\<lparr>cd_results := cd_results db @
                      [\<lparr> kr_rowid = i, kr_checkset = checkset_id, kr_success = success, kr_exit_code = exit_code,
                         kr_stdout = stdout, kr_stderr = stderr, kr_duration_ms = duration_ms \<rparr>]\<rparr>, Inr i))"

definition insert_skill_result ::
  "int \<Rightarrow> bool \<Rightarrow> bool \<Rightarrow> string \<Rightarrow> string \<Rightarrow> string \<Rightarrow> int \<Rightarrow> ChecksDb \<Rightarrow> ChecksDb \<times> (anyhow, int) result" where
  "insert_skill_result checkset_id success error reason findings model_id duration_ms db =
     (case insert_check (cd_schema db) ''SkillResult''
             [''checkset_id'', ''success'', ''error'', ''reason'', ''findings'', ''model_id'', ''duration_ms''] of
        Inl e \<Rightarrow> (db, Inl e)
      | Inr _ \<Rightarrow>
          if checkset_id \<notin> cs_rowid ` set (cd_checksets db) then (db, Inl constraint_error)
          else let i = next_id (map sr_id (cd_skills db))
               in (db\<lparr>cd_skills := cd_skills db @
                      [\<lparr> sr_id = i, sr_checkset_id = checkset_id, sr_success = success, sr_error = error, sr_reason = reason,
                         sr_findings = findings, sr_model_id = model_id, sr_duration_ms = duration_ms \<rparr>]\<rparr>, Inr i))"

definition insert_check_run_info_for_check :: "int \<Rightarrow> int \<Rightarrow> string \<Rightarrow> string \<Rightarrow> ChecksDb \<Rightarrow> ChecksDb \<times> (anyhow, unit) result" where
  "insert_check_run_info_for_check check_run_id check_result_id repo_name repo_owner db =
     (case insert_check (cd_schema db) ''CheckRunInfo'' [''check_run_id'', ''check_result_id'', ''repo_name'', ''repo_owner''] of
        Inl e \<Rightarrow> (db, Inl e)
      | Inr _ \<Rightarrow>
          if check_run_id \<in> ri_check_run_id ` set (cd_run_infos db) \<or> check_result_id \<notin> kr_rowid ` set (cd_results db)
          then (db, Inl constraint_error)
          else (db\<lparr>cd_run_infos := cd_run_infos db @
                   [\<lparr> ri_check_run_id = check_run_id, ri_check_result_id = check_result_id, ri_repo_name = repo_name,
                      ri_repo_owner = repo_owner \<rparr>]\<rparr>, Inr ()))"

definition get_check_run_info_by_checkset :: "string \<Rightarrow> string \<Rightarrow> int \<Rightarrow> ChecksDb \<Rightarrow> (anyhow, CheckRunInfoRow option) result" where
  "get_check_run_info_by_checkset owner repo checkset_id db =
     (if ''CheckRunInfo'' \<notin> fst ` set (cd_schema db) then Inl (no_such_table ''CheckRunInfo'')
      else if ''CheckResult'' \<notin> fst ` set (cd_schema db) then Inl (no_such_table ''CheckResult'')
      else Inr (find (\<lambda>c. ri_repo_owner c = owner \<and> ri_repo_name c = repo \<and>
                  list_ex (\<lambda>r. kr_rowid r = ri_check_result_id c \<and> kr_checkset r = checkset_id) (cd_results db))
                (cd_run_infos db)))"

section \<open>Tasks\<close>

record EvalJob =
  ej_file_path :: string
  ej_name :: string
  ej_allow_failures :: bool
  ej_config_json :: "string option"

datatype EvalTask =
    EvalLocal EvalJob
  | GithubJobPR EvalJob CICheckInfo
  | TraverseDrv string
  | PassthruTests string "string list" CICheckInfo string "string option"

fun eval_file :: "EvalTask \<Rightarrow> string option" where
  "eval_file (EvalLocal j) = Some (ej_file_path j)"
| "eval_file (GithubJobPR j _) = Some (ej_file_path j)"
| "eval_file (TraverseDrv _) = None"
| "eval_file (PassthruTests f _ _ _ _) = Some f"

record CheckTask =
  ct_check_name :: string
  ct_owner :: string
  ct_repo_name :: string
  ct_sha :: string
  ct_config :: Check

record SkillTask =
  st_skill_name :: string
  st_owner :: string
  st_repo_name :: string
  st_sha :: string
  st_base_sha :: string
  st_config :: Skill
  st_pr_title :: "string option"
  st_pr_description :: "string option"
  st_pr_author :: "string option"

record CheckResultMessage =
  cm_check_name :: string
  cm_owner :: string
  cm_repo_name :: string
  cm_sha :: string
  cm_success :: bool
  cm_exit_code :: int
  cm_stdout :: string
  cm_stderr :: string
  cm_duration_ms :: int
  cm_check_run_id :: int

record SkillResultMessage =
  sm_skill_name :: string
  sm_owner :: string
  sm_repo_name :: string
  sm_sha :: string
  sm_success :: bool
  sm_advisory :: bool
  sm_error :: bool
  sm_reason :: string
  sm_findings_json :: string
  sm_model_id :: string
  sm_duration_ms :: int
  sm_check_run_id :: int

datatype RunConclusion = RcActionRequired | RcCancelled | RcFailure | RcNeutral | RcSuccess | RcSkipped | RcStale | RcTimedOut

datatype CiTask =
    CreateCIConfigureGate CICheckInfo
  | CompleteCIConfigureGate CICheckInfo string
  | CreateCIEvalJob CICheckInfo string
  | CompleteCIEvalJob CICheckInfo string RunConclusion
  | FailCIEvalJob CICheckInfo string "(string \<times> string) list"
  | CreateCheckRun string string string string int
  | CheckComplete CheckResultMessage
  | CheckFailed CheckResultMessage
  | SkillComplete SkillResultMessage
  | SkillFailed SkillResultMessage
  | SkillError SkillResultMessage

section \<open>The reader\<close>

record ConfigureSummary =
  su_job_names :: "string list"
  su_check_names :: "string list"
  su_skill_names :: "string list"
  su_flake_checks :: bool
  su_flake_packages :: bool
  su_config_missing :: bool

definition named_list :: "string \<Rightarrow> string list \<Rightarrow> string list" where
  "named_list heading names =
     (''**'' @ heading @ '' ('' @ display_nat (length names) @ ''):**'') # map (\<lambda>n. ''- `'' @ n @ ''`'') names"

definition to_markdown :: "ConfigureSummary \<Rightarrow> string" where
  "to_markdown s =
     (if su_config_missing s then ''No `.ekaci/config.json` found in this commit.''
      else let lines =
             (if su_job_names s \<noteq> [] then named_list ''Jobs'' (su_job_names s) else []) @
             (if su_check_names s \<noteq> [] then [] # named_list ''Checks'' (su_check_names s) else []) @
             (if su_skill_names s \<noteq> [] then [] # named_list ''Skills'' (su_skill_names s) else []) @
             (if su_flake_checks s \<or> su_flake_packages s
              then [[], ''**Flake:**''] @ (if su_flake_checks s then [''- Checks enabled''] else []) @
                   (if su_flake_packages s then [''- Packages enabled''] else [])
              else [])
           in if lines = [] then ''Config found but no jobs, checks, or flake outputs configured.''
              else join_with nl lines)"

text \<open>A sender is whether the receiver of its channel lives; the optional ones may not exist.\<close>

record RepoReader =
  rr_eval :: bool
  rr_check :: "bool option"
  rr_skill :: "bool option"
  rr_github :: "bool option"

record CiState =
  rs_jobsets :: JobsetDb
  rs_checks :: ChecksDb
  rs_eval :: "EvalTask list"
  rs_check :: "CheckTask list"
  rs_skill :: "SkillTask list"
  rs_github :: "CiTask list"

definition channel_closed :: anyhow where "channel_closed = ''channel closed''"

definition send_eval :: "bool \<Rightarrow> EvalTask \<Rightarrow> CiState \<Rightarrow> CiState \<times> (anyhow, unit) result" where
  "send_eval open_rx t s = (if open_rx then (s\<lparr>rs_eval := rs_eval s @ [t]\<rparr>, Inr ()) else (s, Inl channel_closed))"

definition send_check :: "bool \<Rightarrow> CheckTask \<Rightarrow> CiState \<Rightarrow> CiState \<times> (anyhow, unit) result" where
  "send_check open_rx t s = (if open_rx then (s\<lparr>rs_check := rs_check s @ [t]\<rparr>, Inr ()) else (s, Inl channel_closed))"

definition send_skill :: "bool \<Rightarrow> SkillTask \<Rightarrow> CiState \<Rightarrow> CiState \<times> (anyhow, unit) result" where
  "send_skill open_rx t s = (if open_rx then (s\<lparr>rs_skill := rs_skill s @ [t]\<rparr>, Inr ()) else (s, Inl channel_closed))"

definition send_github :: "bool \<Rightarrow> CiTask \<Rightarrow> CiState \<Rightarrow> CiState \<times> (anyhow, unit) result" where
  "send_github open_rx t s = (if open_rx then (s\<lparr>rs_github := rs_github s @ [t]\<rparr>, Inr ()) else (s, Inl channel_closed))"

definition on_checks :: "(ChecksDb \<Rightarrow> ChecksDb \<times> (anyhow, 'a) result) \<Rightarrow> CiState \<Rightarrow> CiState \<times> (anyhow, 'a) result" where
  "on_checks f s = (case f (rs_checks s) of (db, r) \<Rightarrow> (s\<lparr>rs_checks := db\<rparr>, r))"

definition eval_job :: "RepoEnv \<Rightarrow> string \<Rightarrow> string \<Rightarrow> Job \<Rightarrow> EvalJob" where
  "eval_job E file_path name job = \<lparr> ej_file_path = file_path, ej_name = name,
     ej_allow_failures = j_allow_eval_failures job, ej_config_json = re_job_json E job \<rparr>"

definition process_job :: "RepoReader \<Rightarrow> RepoEnv \<Rightarrow> string \<Rightarrow> CICheckInfo \<Rightarrow> string \<times> Job \<Rightarrow> CiState \<Rightarrow> CiState \<times> (anyhow, unit) result" where
  "process_job R E repo_root ci nj s =
     (if has_jobset (ci_commit ci) (fst nj) (ci_owner ci) (ci_repo_name ci) (rs_jobsets s) then (s, Inr ())
      else case resolve_file_path E repo_root (j_file (snd nj)) of
             Inl e \<Rightarrow> (s, Inl e)
           | Inr file_path \<Rightarrow> send_eval (rr_eval R) (GithubJobPR (eval_job E file_path (fst nj) (snd nj)) ci) s)"

text \<open>The steps the code takes for a configured check and, in two more places, for an output of a flake.\<close>

definition start_check :: "bool \<Rightarrow> bool \<Rightarrow> CICheckInfo \<Rightarrow> string \<times> Check \<Rightarrow> CiState \<Rightarrow> CiState \<times> (anyhow, unit) result" where
  "start_check check_rx github_rx ci nc =
     seq_then (on_checks (insert_github_checkset (ci_commit ci) (fst nc) (ci_owner ci) (ci_repo_name ci))) (\<lambda>checkset_id.
     seq_then (on_checks (insert_check_result checkset_id False (-1) [] [] 0)) (\<lambda>check_result_id.
     seq_then (send_github github_rx (CreateCheckRun (ci_owner ci) (ci_repo_name ci) (ci_commit ci) (fst nc) check_result_id)) (\<lambda>_.
     send_check check_rx \<lparr> ct_check_name = fst nc, ct_owner = ci_owner ci, ct_repo_name = ci_repo_name ci, ct_sha = ci_commit ci,
       ct_config = snd nc \<rparr>)))"

definition start_skill :: "bool \<Rightarrow> bool \<Rightarrow> CICheckInfo \<Rightarrow> string \<Rightarrow> string \<times> Skill \<Rightarrow> CiState \<Rightarrow> CiState \<times> (anyhow, unit) result" where
  "start_skill skill_rx github_rx ci base_sha ns =
     seq_then (on_checks (insert_github_checkset (ci_commit ci) (''skill/'' @ fst ns) (ci_owner ci) (ci_repo_name ci))) (\<lambda>checkset_id.
     seq_then (on_checks (insert_skill_result checkset_id False False [] ''[]'' [] 0)) (\<lambda>skill_result_id.
     seq_then (send_github github_rx (CreateCheckRun (ci_owner ci) (ci_repo_name ci) (ci_commit ci) (''skill/'' @ fst ns) skill_result_id)) (\<lambda>_.
     send_skill skill_rx \<lparr> st_skill_name = fst ns, st_owner = ci_owner ci, st_repo_name = ci_repo_name ci, st_sha = ci_commit ci,
       st_base_sha = base_sha, st_config = snd ns, st_pr_title = None, st_pr_description = None, st_pr_author = None \<rparr>)))"

definition flake_gate :: "FlakeOutput \<Rightarrow> string \<times> Check" where
  "flake_gate o1 = (flake_check_name o1,
     \<lparr> ck_shell = None, ck_shell_nix = False, ck_command = build_command o1, ck_allow_network = True \<rparr>)"

text \<open>An enumeration that fails is only logged.\<close>

definition flake_gates :: "RepoEnv \<Rightarrow> string \<Rightarrow> FlakeOutputType \<Rightarrow> bool \<Rightarrow> (string \<times> Check) list" where
  "flake_gates E repo_root ty enabled =
     (if \<not> enabled then []
      else case enumerate_flake_outputs E repo_root ty of Inr outputs \<Rightarrow> map flake_gate outputs | Inl _ \<Rightarrow> [])"

definition process_checks :: "RepoReader \<Rightarrow> CICheckInfo \<Rightarrow> (string \<times> Check) list \<Rightarrow> CiState \<Rightarrow> CiState \<times> (anyhow, unit) result" where
  "process_checks R ci checks s =
     (case (rr_check R, rr_github R) of
        (Some check_rx, Some github_rx) \<Rightarrow> for_each (start_check check_rx github_rx ci) checks s
      | _ \<Rightarrow> (s, Inr ()))"

definition process_skills :: "RepoReader \<Rightarrow> CICheckInfo \<Rightarrow> (string \<times> Skill) list \<Rightarrow> CiState \<Rightarrow> CiState \<times> (anyhow, unit) result" where
  "process_skills R ci skills s =
     (case (rr_skill R, rr_github R, ci_base_commit ci) of
        (Some skill_rx, Some github_rx, Some base_sha) \<Rightarrow> for_each (start_skill skill_rx github_rx ci base_sha) skills s
      | _ \<Rightarrow> (s, Inr ()))"

definition configure_summary :: "RepoReader \<Rightarrow> CICheckInfo \<Rightarrow> CIConfig \<Rightarrow> ConfigureSummary" where
  "configure_summary R ci config =
     \<lparr> su_job_names = map fst (cc_jobs config),
       su_check_names = (if rr_check R \<noteq> None \<and> rr_github R \<noteq> None then map fst (cc_checks config) else []),
       su_skill_names = (if rr_skill R \<noteq> None \<and> rr_github R \<noteq> None \<and> ci_base_commit ci \<noteq> None
                         then map fst (cc_skills config) else []),
       su_flake_checks = (case cc_flake config of Some f \<Rightarrow> fl_checks_enable f | None \<Rightarrow> False),
       su_flake_packages = (case cc_flake config of Some f \<Rightarrow> fl_packages_enable f | None \<Rightarrow> False),
       su_config_missing = False \<rparr>"

definition missing_summary :: ConfigureSummary where
  "missing_summary = \<lparr> su_job_names = [], su_check_names = [], su_skill_names = [], su_flake_checks = False,
     su_flake_packages = False, su_config_missing = True \<rparr>"

definition process_flake :: "RepoReader \<Rightarrow> RepoEnv \<Rightarrow> string \<Rightarrow> CICheckInfo \<Rightarrow> FlakeConfig option \<Rightarrow> CiState \<Rightarrow> CiState \<times> (anyhow, unit) result" where
  "process_flake R E repo_root ci flake s =
     (case flake of
        None \<Rightarrow> (s, Inr ())
      | Some f \<Rightarrow>
          seq_then (process_checks R ci (flake_gates E repo_root FlakeCheck (fl_checks_enable f))) (\<lambda>_.
          process_checks R ci (flake_gates E repo_root FlakePackage (fl_packages_enable f))) s)"

definition process_github_repo_config ::
  "RepoReader \<Rightarrow> RepoEnv \<Rightarrow> string \<Rightarrow> CICheckInfo \<Rightarrow> CiState \<Rightarrow> CiState \<times> (anyhow, ConfigureSummary) result" where
  "process_github_repo_config R E repo_root ci s =
     (case read_repo_toplevel E repo_root of
        Inl _ \<Rightarrow> (s, Inr missing_summary)
      | Inr config \<Rightarrow>
          seq_then (for_each (process_job R E repo_root ci) (cc_jobs config)) (\<lambda>_.
          seq_then (process_checks R ci (cc_checks config)) (\<lambda>_.
          seq_then (process_skills R ci (cc_skills config)) (\<lambda>_.
          seq_then (process_flake R E repo_root ci (cc_flake config)) (\<lambda>_ s.
          (s, Inr (configure_summary R ci config)))))) s)"

datatype RepoTask = Read string | ReadGitHub string CICheckInfo

definition read_job :: "RepoReader \<Rightarrow> RepoEnv \<Rightarrow> string \<Rightarrow> string \<times> Job \<Rightarrow> CiState \<Rightarrow> CiState \<times> (anyhow, unit) result" where
  "read_job R E repo_root nj s =
     (case resolve_file_path E repo_root (j_file (snd nj)) of
        Inl e \<Rightarrow> (s, Inl e)
      | Inr file_path \<Rightarrow> send_eval (rr_eval R) (EvalLocal (eval_job E file_path ''local'' (snd nj))) s)"

fun handle_repo_task :: "RepoReader \<Rightarrow> RepoEnv \<Rightarrow> RepoTask \<Rightarrow> CiState \<Rightarrow> CiState \<times> (anyhow, unit) result" where
  "handle_repo_task R E (Read repo_root) s =
     (case read_repo_toplevel E repo_root of
        Inl e \<Rightarrow> (s, Inl e)
      | Inr config \<Rightarrow> for_each (read_job R E repo_root) (cc_jobs config) s)"
| "handle_repo_task R E (ReadGitHub repo_root ci) s =
     (case rr_github R of
        None \<Rightarrow> (s, Inl ''GitHub app was not instantiated'')
      | Some github_rx \<Rightarrow>
          seq_then (send_github github_rx (CreateCIConfigureGate ci)) (\<lambda>_.
          seq_then (process_github_repo_config R E repo_root ci) (\<lambda>summary.
          send_github github_rx (CompleteCIConfigureGate ci (to_markdown summary)))) s)"

end
