(* ===== verification/Check_Exec.thy ===== *)
theory Check_Exec
  imports Repo_Reader
begin

text \<open>
  The workers that run checks and skills (\<open>server/src/services/checks.rs\<close>, \<open>services/skills.rs\<close>,
  \<open>checks/executor.rs\<close>, \<open>skills/executor.rs\<close>, \<open>ai/\<close>) and the tasks of the GitHub service that open
  and close the gates of a configuration, an evaluation, a check and a skill
  (\<open>github/service/task_handler.rs\<close>, \<open>actions.rs\<close>).  Git, the sandbox, the model providers and
  GitHub are arguments.
\<close>

section \<open>Model verdicts\<close>

datatype Severity = Critical | Warning | Info

record Finding =
  fi_severity :: Severity
  fi_description :: string
  fi_file :: "string option"
  fi_line :: "nat option"

datatype SkillDecision = Pass | Fail

record SkillVerdict =
  sv_decision :: SkillDecision
  sv_reason :: string
  sv_findings :: "Finding list"

fun severity_str :: "Severity \<Rightarrow> string" where
  "severity_str Critical = ''critical''"
| "severity_str Warning = ''warning''"
| "severity_str Info = ''info''"

definition fence :: string where "fence = ''```''"

definition find_char :: "char \<Rightarrow> string \<Rightarrow> nat option" where
  "find_char c s = (if c \<in> set s then Some (length (takeWhile (\<lambda>x. x \<noteq> c) s)) else None)"

definition rfind_char :: "char \<Rightarrow> string \<Rightarrow> nat option" where
  "rfind_char c s = (if c \<in> set s then Some (length s - 1 - length (takeWhile (\<lambda>x. x \<noteq> c) (rev s))) else None)"

text \<open>Slicing \<open>[start..=end]\<close> panics when the range is reversed: \<^const>\<open>None\<close> is the panic.\<close>

definition parse_verdict :: "(string \<Rightarrow> (anyhow, SkillVerdict) result) \<Rightarrow> string \<Rightarrow> (anyhow, SkillVerdict) result option" where
  "parse_verdict from_json txt =
     (let trimmed = trim txt in
      if prefix fence trimmed then
        (case find_char (CHR ''{'') trimmed of
           None \<Rightarrow> Some (Inl ''markdown-fenced response contains no JSON object'')
         | Some start \<Rightarrow>
             (case rfind_char (CHR ''}'') trimmed of
                None \<Rightarrow> Some (Inl ''markdown-fenced response contains no closing brace'')
              | Some e \<Rightarrow>
                  if e + 1 < start then None
                  else Some (from_json (drop start (take (e + 1) trimmed)))))
      else Some (from_json trimmed))"

record EvalRequest =
  er_system_prompt :: string
  er_user_content :: string
  er_model :: string
  er_max_tokens :: nat
  er_temperature :: real

record ModelConfig =
  mc_model :: string
  mc_max_tokens :: "nat option"
  mc_temperature :: "real option"

text \<open>The registry: what a provider's client answers to a request, and the configuration of the model.\<close>

record AiClient =
  ac_clients :: "string \<rightharpoonup> (EvalRequest \<Rightarrow> (anyhow, SkillVerdict) result option) \<times> ModelConfig"
  ac_default_model_id :: "string option"

definition evaluate_skill :: "AiClient \<Rightarrow> string option \<Rightarrow> string \<Rightarrow> string \<Rightarrow> (anyhow, SkillVerdict) result option" where
  "evaluate_skill A model_id system_prompt user_content =
     (case (case model_id of Some i \<Rightarrow> Some i | None \<Rightarrow> ac_default_model_id A) of
        None \<Rightarrow> Some (Inl ''no model specified and no default model configured'')
      | Some resolved_id \<Rightarrow>
          (case ac_clients A resolved_id of
             None \<Rightarrow> Some (Inl (''model '' @ resolved_id @ '' not found in server model registry''))
           | Some (client, config) \<Rightarrow>
               client \<lparr> er_system_prompt = system_prompt, er_user_content = user_content, er_model = mc_model config,
                 er_max_tokens = (case mc_max_tokens config of Some n \<Rightarrow> n | None \<Rightarrow> 4096),
                 er_temperature = (case mc_temperature config of Some t \<Rightarrow> t | None \<Rightarrow> 0) \<rparr>))"

section \<open>Git and the checkout\<close>

datatype GitOutcome = GitTimedOut | GitNotRun string | GitExited bool string string

text \<open>What \<open>git\<close> does with a list of arguments in a directory, and how a check runs in its sandbox.\<close>

record ExecEnv =
  xe_tempdir :: "(anyhow, string) result"
  xe_git :: "string \<Rightarrow> string list \<Rightarrow> GitOutcome"
  xe_execute :: "Check \<Rightarrow> string \<Rightarrow> (anyhow, bool \<times> int \<times> string \<times> string) result"
  xe_canonicalize :: "string \<Rightarrow> (anyhow, string) result"
  xe_read :: "string \<Rightarrow> (anyhow, string) result"
  xe_utf8 :: "string \<Rightarrow> bool"
  xe_elapsed :: int
  xe_ai :: AiClient
  xe_findings_json :: "Finding list \<Rightarrow> string option"

definition git_step :: "ExecEnv \<Rightarrow> string \<Rightarrow> string \<Rightarrow> string list \<Rightarrow> (anyhow, string) result" where
  "git_step X what dir args =
     (case xe_git X dir args of
        GitTimedOut \<Rightarrow> Inl (''git '' @ what @ '' timed out'')
      | GitNotRun e \<Rightarrow> Inl (''failed to execute git '' @ what @ '': '' @ e)
      | GitExited ok out err \<Rightarrow> if ok then Inr out else Inl (''git '' @ what @ '' failed: '' @ err))"

definition clone_and_checkout :: "ExecEnv \<Rightarrow> string \<Rightarrow> string \<Rightarrow> string \<Rightarrow> (anyhow, unit) result" where
  "clone_and_checkout X clone_url sha path =
     (case git_step X ''clone'' [] [''clone'', clone_url, path] of
        Inl e \<Rightarrow> Inl e
      | Inr _ \<Rightarrow>
          (case git_step X ''checkout'' path [''checkout'', sha] of
             Inl e \<Rightarrow> Inl e
           | Inr _ \<Rightarrow> Inr ()))"

text \<open>The checkout of a skill fetches the base commit as well; only a timeout or a \<open>git\<close> that
  cannot be started makes the fetch an error.\<close>

definition clone_and_checkout_base :: "ExecEnv \<Rightarrow> string \<Rightarrow> string \<Rightarrow> string \<Rightarrow> string \<Rightarrow> (anyhow, unit) result" where
  "clone_and_checkout_base X clone_url head_sha base_sha path =
     (case git_step X ''clone'' [] [''clone'', clone_url, path] of
        Inl e \<Rightarrow> Inl e
      | Inr _ \<Rightarrow>
          (case xe_git X path [''fetch'', ''origin'', base_sha] of
             GitTimedOut \<Rightarrow> Inl ''git fetch base timed out''
           | GitNotRun e \<Rightarrow> Inl (''failed to execute git fetch: '' @ e)
           | GitExited _ _ _ \<Rightarrow>
               (case git_step X ''checkout'' path [''checkout'', head_sha] of
                  Inl e \<Rightarrow> Inl e
                | Inr _ \<Rightarrow> Inr ())))"

definition github_clone_url :: "string \<Rightarrow> string \<Rightarrow> string" where
  "github_clone_url owner repo_name = ''https://github.com/'' @ owner @ ''/'' @ repo_name @ ''.git''"

definition generate_diff :: "ExecEnv \<Rightarrow> string \<Rightarrow> string \<Rightarrow> string \<Rightarrow> (anyhow, string) result" where
  "generate_diff X checkout base_sha head_sha =
     (case git_step X ''diff'' checkout [''diff'', base_sha, head_sha] of
        Inl e \<Rightarrow> Inl e
      | Inr out \<Rightarrow> if xe_utf8 X out then Inr out else Inl ''git diff output is not valid UTF-8'')"

definition read_prompt_file :: "ExecEnv \<Rightarrow> string \<Rightarrow> string \<Rightarrow> (anyhow, string) result" where
  "read_prompt_file X checkout prompt_file =
     (case xe_canonicalize X (path_join checkout prompt_file) of
        Inl e \<Rightarrow> Inl (''prompt file not found: '' @ prompt_file)
      | Inr canonical_path \<Rightarrow>
          (case xe_canonicalize X checkout of
             Inl e \<Rightarrow> Inl ''checkout directory does not exist''
           | Inr checkout_canonical \<Rightarrow>
               if path_starts_with canonical_path checkout_canonical then xe_read X canonical_path
               else Inl (''prompt file '' @ prompt_file @ '' escapes the checkout directory'')))"

definition assemble_user_content :: "string \<Rightarrow> string option \<Rightarrow> string option \<Rightarrow> string option \<Rightarrow> string" where
  "assemble_user_content diff pr_title pr_description pr_author =
     join_with (nl @ nl)
       ((case pr_title of Some t \<Rightarrow> [''PR Title: '' @ t] | None \<Rightarrow> []) @
        (case pr_author of Some a \<Rightarrow> [''PR Author: '' @ a] | None \<Rightarrow> []) @
        (case pr_description of Some d \<Rightarrow> if d \<noteq> [] then [''PR Description:'' @ nl @ d] else [] | None \<Rightarrow> []) @
        [''Diff:'' @ nl @ ''```diff'' @ nl @ diff @ nl @ ''```''])"

section \<open>The executors\<close>

definition report_check :: "bool \<Rightarrow> CheckTask \<Rightarrow> bool \<times> int \<times> string \<times> string \<Rightarrow> int \<Rightarrow> int \<Rightarrow> CiState \<Rightarrow> CiState \<times> (anyhow, unit) result" where
  "report_check github_rx task out duration checkset_id s =
     (case get_check_run_info_by_checkset (ct_owner task) (ct_repo_name task) checkset_id (rs_checks s) of
        Inl e \<Rightarrow> (s, Inl (''failed to get check run info: '' @ e))
      | Inr None \<Rightarrow> (s, Inr ())
      | Inr (Some info) \<Rightarrow>
          (case out of (success, exit_code, stdout, stderr) \<Rightarrow>
             (let msg = \<lparr> cm_check_name = ct_check_name task, cm_owner = ct_owner task, cm_repo_name = ct_repo_name task,
                    cm_sha = ct_sha task, cm_success = success, cm_exit_code = exit_code, cm_stdout = stdout, cm_stderr = stderr,
                    cm_duration_ms = duration, cm_check_run_id = ri_check_run_id info \<rparr>
              in send_github github_rx (if success then CheckComplete msg else CheckFailed msg) s)))"

definition handle_check_task :: "bool option \<Rightarrow> ExecEnv \<Rightarrow> CheckTask \<Rightarrow> CiState \<Rightarrow> CiState \<times> (anyhow, unit) result" where
  "handle_check_task github X task s =
     (case xe_tempdir X of
        Inl e \<Rightarrow> (s, Inl (''failed to create temp directory: '' @ e))
      | Inr dir \<Rightarrow>
     (case clone_and_checkout X (github_clone_url (ct_owner task) (ct_repo_name task)) (ct_sha task) dir of
        Inl e \<Rightarrow> (s, Inl (''failed to clone repository: '' @ e))
      | Inr _ \<Rightarrow>
     (case xe_execute X (ct_config task) dir of
        Inl e \<Rightarrow> (s, Inl (''failed to execute check: '' @ e))
      | Inr (success, exit_code, stdout, stderr) \<Rightarrow>
          seq_then (on_checks (insert_github_checkset (ct_sha task) (ct_check_name task) (ct_owner task) (ct_repo_name task))) (\<lambda>checkset_id.
          seq_then (on_checks (insert_check_result checkset_id success exit_code stdout stderr (xe_elapsed X))) (\<lambda>_ s.
          (case github of
             None \<Rightarrow> (s, Inr ())
           | Some github_rx \<Rightarrow> report_check github_rx task (success, exit_code, stdout, stderr) (xe_elapsed X) checkset_id s))) s)))"

definition skill_message :: "ExecEnv \<Rightarrow> SkillTask \<Rightarrow> (anyhow, SkillVerdict) result \<Rightarrow> SkillResultMessage" where
  "skill_message X task verdict =
     (let base = \<lparr> sm_skill_name = st_skill_name task, sm_owner = st_owner task, sm_repo_name = st_repo_name task, sm_sha = st_sha task,
            sm_success = False, sm_advisory = sl_advisory (st_config task), sm_error = True, sm_reason = [],
            sm_findings_json = ''[]'', sm_model_id = (case sl_model (st_config task) of Some m \<Rightarrow> m | None \<Rightarrow> ''default''),
            sm_duration_ms = xe_elapsed X, sm_check_run_id = 0 \<rparr>
      in case verdict of
           Inr v \<Rightarrow> base\<lparr>sm_success := sv_decision v = Pass, sm_error := False, sm_reason := sv_reason v,
                     sm_findings_json := (case xe_findings_json X (sv_findings v) of Some j \<Rightarrow> j | None \<Rightarrow> ''[]'')\<rparr>
         | Inl e \<Rightarrow> base\<lparr>sm_reason := ''Model error: '' @ e\<rparr>)"

definition report_skill :: "bool \<Rightarrow> SkillTask \<Rightarrow> SkillResultMessage \<Rightarrow> int \<Rightarrow> CiState \<Rightarrow> CiState \<times> (anyhow, unit) result" where
  "report_skill github_rx task m checkset_id s =
     (case get_check_run_info_by_checkset (st_owner task) (st_repo_name task) checkset_id (rs_checks s) of
        Inl e \<Rightarrow> (s, Inl (''failed to get check run info: '' @ e))
      | Inr None \<Rightarrow> (s, Inr ())
      | Inr (Some info) \<Rightarrow>
          (let msg = m\<lparr>sm_check_run_id := ri_check_run_id info\<rparr>
           in send_github github_rx (if sm_error msg then SkillError msg else if sm_success msg then SkillComplete msg
                else SkillFailed msg) s))"

text \<open>\<^const>\<open>None\<close> is a panic of the worker.\<close>

definition handle_skill_task :: "bool option \<Rightarrow> ExecEnv \<Rightarrow> SkillTask \<Rightarrow> CiState \<Rightarrow> (CiState \<times> (anyhow, unit) result) option" where
  "handle_skill_task github X task s =
     (case xe_tempdir X of
        Inl e \<Rightarrow> Some (s, Inl (''failed to create temp directory: '' @ e))
      | Inr dir \<Rightarrow>
     (case clone_and_checkout_base X (github_clone_url (st_owner task) (st_repo_name task)) (st_sha task) (st_base_sha task) dir of
        Inl e \<Rightarrow> Some (s, Inl (''failed to clone repository: '' @ e))
      | Inr _ \<Rightarrow>
     (case read_prompt_file X dir (sl_prompt_file (st_config task)) of
        Inl e \<Rightarrow> Some (s, Inl (''failed to read skill prompt file: '' @ e))
      | Inr system_prompt \<Rightarrow>
     (case generate_diff X dir (st_base_sha task) (st_sha task) of
        Inl e \<Rightarrow> Some (s, Inl (''failed to generate diff: '' @ e))
      | Inr diff \<Rightarrow>
     (case evaluate_skill (xe_ai X) (sl_model (st_config task)) system_prompt
             (assemble_user_content diff (st_pr_title task) (st_pr_description task) (st_pr_author task)) of
        None \<Rightarrow> None
      | Some verdict \<Rightarrow>
          (let m = skill_message X task verdict in Some
          (seq_then (on_checks (insert_github_checkset (st_sha task) (st_skill_name task) (st_owner task) (st_repo_name task))) (\<lambda>checkset_id.
           seq_then (on_checks (insert_skill_result checkset_id (sm_success m) (sm_error m) (sm_reason m) (sm_findings_json m)
                                 (sm_model_id m) (sm_duration_ms m))) (\<lambda>_ s.
           (case github of None \<Rightarrow> (s, Inr ()) | Some github_rx \<Rightarrow> report_skill github_rx task m checkset_id s))) s)))))))"

section \<open>Gates on GitHub\<close>

record CheckRunOutput =
  out_title :: string
  out_summary :: string
  out_text :: "string option"

datatype CiCall =
    CreateGate (cl_owner: string) (cl_repo: string) (cl_title: string) (cl_commit: string) (cl_status: GHStatus)
      (cl_conclusion: "RunConclusion option") (cl_output: "CheckRunOutput option")
  | UpdateGate (cl_owner: string) (cl_repo: string) (cl_id: int) (cl_status: GHStatus)
      (cl_conclusion: "RunConclusion option") (cl_output: "CheckRunOutput option")

datatype CiError = RateLimited | CiFailed string

text \<open>\<open>cp_send\<close> answers a request after those made before: the id of the check run, or an error;
  \<open>cp_list\<close> lists the check runs of a commit.\<close>

record CiApi =
  cp_installed :: "string \<Rightarrow> bool"
  cp_send :: "CiCall list \<Rightarrow> CiCall \<Rightarrow> (CiError, int) result"
  cp_list :: "string \<Rightarrow> string \<Rightarrow> string \<Rightarrow> (CiError, (string \<times> int) list) result"
  cp_findings :: "string \<Rightarrow> Finding list"
  cp_seconds :: "int \<Rightarrow> string"
  cp_show :: "int \<Rightarrow> string"

record CiService =
  cv_checks :: ChecksDb
  cv_configure :: "string \<rightharpoonup> int"
  cv_eval :: "string \<times> string \<rightharpoonup> int"
  cv_calls :: "CiCall list"

definition ci_send :: "CiApi \<Rightarrow> CiCall \<Rightarrow> CiService \<Rightarrow> CiService \<times> (CiError, int) result" where
  "ci_send api call s = (s\<lparr>cv_calls := cv_calls s @ [call]\<rparr>, cp_send api (cv_calls s) call)"

definition ci_send_unit :: "CiApi \<Rightarrow> CiCall \<Rightarrow> CiService \<Rightarrow> CiService \<times> (CiError, unit) result" where
  "ci_send_unit api call = seq_then (ci_send api call) (\<lambda>_ s. (s, Inr ()))"

definition gate :: "CICheckInfo \<Rightarrow> string \<Rightarrow> CiCall" where
  "gate ci title = CreateGate (ci_owner ci) (ci_repo_name ci) title (ci_commit ci) GHInProgress None None"

definition create_ci_configure_gate :: "CICheckInfo \<Rightarrow> CiCall" where
  "create_ci_configure_gate ci = gate ci ''EkaCI: Configure''"

definition update_ci_configure_gate_with_summary :: "CICheckInfo \<Rightarrow> int \<Rightarrow> RunConclusion \<Rightarrow> string \<Rightarrow> CiCall" where
  "update_ci_configure_gate_with_summary ci check_run_id conclusion summary =
     UpdateGate (ci_owner ci) (ci_repo_name ci) check_run_id GHCompleted (Some conclusion)
       (if summary \<noteq> [] then Some \<lparr> out_title = ''Configuration'', out_summary = summary, out_text = None \<rparr> else None)"

definition eval_gate_title :: "string \<Rightarrow> string" where
  "eval_gate_title job = ''EkaCI: Evaluate Job ('' @ job @ '')''"

definition create_ci_eval_job :: "string \<Rightarrow> CICheckInfo \<Rightarrow> CiCall" where
  "create_ci_eval_job job_title ci = gate ci (eval_gate_title job_title)"

definition update_ci_eval_job :: "CICheckInfo \<Rightarrow> int \<Rightarrow> RunConclusion \<Rightarrow> CiCall" where
  "update_ci_eval_job ci check_run_id conclusion =
     UpdateGate (ci_owner ci) (ci_repo_name ci) check_run_id GHCompleted (Some conclusion) None"

text \<open>The first page of check runs of the commit, searched by name.\<close>

definition find_check_run_by_name :: "CiApi \<Rightarrow> string \<Rightarrow> string \<Rightarrow> string \<Rightarrow> string \<Rightarrow> (CiError, int option) result" where
  "find_check_run_by_name api owner repo sha check_name =
     (case cp_list api owner repo sha of
        Inl e \<Rightarrow> Inl e
      | Inr check_runs \<Rightarrow> Inr (map_of check_runs check_name))"

fun error_section :: "nat \<times> string \<times> string \<Rightarrow> string" where
  "error_section (i, attr, err) =
     ''## Error '' @ display_nat (i + 1) @ nl @ nl @ ''**Attribute:** `'' @ attr @ ''`'' @ nl @ nl @
     ''**Error:**'' @ nl @ ''```'' @ nl @ err @ nl @ ''```'' @ nl @ nl"

definition fail_ci_eval_job :: "CICheckInfo \<Rightarrow> string \<Rightarrow> (string \<times> string) list \<Rightarrow> CiCall" where
  "fail_ci_eval_job ci job_name errors =
     CreateGate (ci_owner ci) (ci_repo_name ci) (eval_gate_title job_name) (ci_commit ci) GHCompleted (Some RcFailure)
       (Some \<lparr> out_title = ''Evaluation errors'',
          out_summary = ''# Evaluation Failed'' @ nl @ nl @ display_nat (length errors) @ '' evaluation error(s) occurred:'' @ nl @ nl @
            concat (map error_section (enumerate 0 errors)), out_text = None \<rparr>)"

definition create_check_run :: "string \<Rightarrow> string \<Rightarrow> string \<Rightarrow> string \<Rightarrow> CiCall" where
  "create_check_run owner repo_name sha check_name =
     CreateGate owner repo_name (''EkaCI: Check ('' @ check_name @ '')'') sha GHInProgress None None"

definition check_mark :: string where "check_mark = [CHR 0xE2, CHR 0x9C, CHR 0x93]"

definition ballot_x :: string where "ballot_x = [CHR 0xE2, CHR 0x9C, CHR 0x97]"

definition output_block :: "string \<Rightarrow> string \<Rightarrow> string" where
  "output_block heading content =
     (if content = [] then [] else ''## '' @ heading @ nl @ nl @ ''```'' @ nl @ content @ nl @ ''```'' @ nl @ nl)"

definition update_check_run_call :: "CiApi \<Rightarrow> CheckResultMessage \<Rightarrow> CiCall" where
  "update_check_run_call api r =
     (let summary = (if cm_success r
                     then ''# Check Passed '' @ check_mark @ nl @ nl @ ''The check `'' @ cm_check_name r @ ''` completed successfully.'' @ nl @ nl
                     else ''# Check Failed '' @ ballot_x @ nl @ nl @ ''The check `'' @ cm_check_name r @ ''` failed with exit code '' @
                          cp_show api (cm_exit_code r) @ ''.'' @ nl @ nl) @
                    ''**Duration:** '' @ cp_show api (cm_duration_ms r) @ ''ms'' @ nl @ nl;
          txt = output_block ''Standard Output'' (cm_stdout r) @ output_block ''Standard Error'' (cm_stderr r)
      in UpdateGate (cm_owner r) (cm_repo_name r) (cm_check_run_id r) GHCompleted
           (Some (if cm_success r then RcSuccess else RcFailure))
           (Some \<lparr> out_title = (if cm_success r then ''Check passed'' else ''Check failed (exit code '' @ cp_show api (cm_exit_code r) @ '')''),
                   out_summary = summary, out_text = (if txt = [] then None else Some txt) \<rparr>))"

definition format_skill_title :: "SkillResultMessage \<Rightarrow> string" where
  "format_skill_title r =
     (if sm_error r then ''Skill error '' @ em_dash @ '' needs review''
      else if sm_success r then ''Skill passed'' else ''Skill failed'')"

definition format_skill_summary :: "CiApi \<Rightarrow> SkillResultMessage \<Rightarrow> string" where
  "format_skill_summary api r =
     ''# Skill: '' @ sm_skill_name r @ '' '' @ em_dash @
     (if sm_error r then '' Error'' else if sm_success r then '' Pass '' @ check_mark else '' Fail '' @ ballot_x) @ nl @ nl @
     ''**Model:** '' @ sm_model_id r @ '' | **Duration:** '' @ cp_seconds api (sm_duration_ms r) @ ''s'' @ nl @ nl @
     (if sm_advisory r then ''*Advisory '' @ em_dash @ '' this gate does not block merge.*'' @ nl @ nl else []) @
     ''### Reason'' @ nl @ sm_reason r @ nl"

definition finding_row :: "Finding \<Rightarrow> string" where
  "finding_row f =
     (let location = (case (fi_file f, fi_line f) of
                        (Some file, Some l) \<Rightarrow> file @ '':'' @ display_nat l
                      | (Some file, None) \<Rightarrow> file
                      | _ \<Rightarrow> [])
      in ''| '' @ severity_str (fi_severity f) @ '' | '' @ location @ '' | '' @ fi_description f @ '' |'' @ nl)"

definition format_skill_findings :: "CiApi \<Rightarrow> SkillResultMessage \<Rightarrow> string" where
  "format_skill_findings api r =
     (let findings = cp_findings api (sm_findings_json r) in
      if findings = [] then []
      else ''### Findings'' @ nl @ nl @ ''| Severity | File | Description |'' @ nl @
           ''|----------|------|-------------|'' @ nl @ concat (map finding_row findings))"

definition skill_conclusion :: "SkillResultMessage \<Rightarrow> RunConclusion" where
  "skill_conclusion r =
     (if sm_error r \<or> sm_advisory r then RcNeutral else if sm_success r then RcSuccess else RcFailure)"

definition handle_skill_result :: "CiApi \<Rightarrow> SkillResultMessage \<Rightarrow> CiService \<Rightarrow> CiService \<times> (CiError, unit) result" where
  "handle_skill_result api r s =
     (if \<not> cp_installed api (sm_owner r) then (s, Inl (CiFailed no_installation))
      else let txt = format_skill_findings api r
           in ci_send_unit api (UpdateGate (sm_owner r) (sm_repo_name r) (sm_check_run_id r) GHCompleted (Some (skill_conclusion r))
                (Some \<lparr> out_title = format_skill_title r, out_summary = format_skill_summary api r,
                        out_text = (if txt = [] then None else Some txt) \<rparr>)) s)"

definition with_installation :: "CiApi \<Rightarrow> string \<Rightarrow> (CiService \<Rightarrow> CiService \<times> (CiError, unit) result) \<Rightarrow> CiService \<Rightarrow> CiService \<times> (CiError, unit) result" where
  "with_installation api owner f s = (if cp_installed api owner then f s else (s, Inl (CiFailed no_installation)))"

definition handle_create_check_run :: "CiApi \<Rightarrow> string \<Rightarrow> string \<Rightarrow> string \<Rightarrow> string \<Rightarrow> int \<Rightarrow> CiService \<Rightarrow> CiService \<times> (CiError, unit) result" where
  "handle_create_check_run api owner repo_name sha check_name check_result_id =
     with_installation api owner
       (seq_then (ci_send api (create_check_run owner repo_name sha check_name)) (\<lambda>i s.
          case insert_check_run_info_for_check i check_result_id repo_name owner (cv_checks s) of
            (db, Inl e) \<Rightarrow> (s\<lparr>cv_checks := db\<rparr>, Inl (CiFailed e))
          | (db, Inr _) \<Rightarrow> (s\<lparr>cv_checks := db\<rparr>, Inr ())))"

definition complete_configure_gate :: "CiApi \<Rightarrow> CICheckInfo \<Rightarrow> string \<Rightarrow> CiService \<Rightarrow> CiService \<times> (CiError, unit) result" where
  "complete_configure_gate api ci summary s =
     (case cv_configure s (ci_commit ci) of
        None \<Rightarrow> (s, Inl (CiFailed ''No configure gate check run found for commit''))
      | Some i \<Rightarrow>
          ci_send_unit api (update_ci_configure_gate_with_summary ci i RcSuccess summary)
            (s\<lparr>cv_configure := (cv_configure s)(ci_commit ci := None)\<rparr>))"

definition complete_eval_job :: "CiApi \<Rightarrow> CICheckInfo \<Rightarrow> string \<Rightarrow> RunConclusion \<Rightarrow> CiService \<Rightarrow> CiService \<times> (CiError, unit) result" where
  "complete_eval_job api ci job_name conclusion s =
     (case cv_eval s (ci_commit ci, job_name) of
        Some i \<Rightarrow> ci_send_unit api (update_ci_eval_job ci i conclusion)
                    (s\<lparr>cv_eval := (cv_eval s)((ci_commit ci, job_name) := None)\<rparr>)
      | None \<Rightarrow>
          (case find_check_run_by_name api (ci_owner ci) (ci_repo_name ci) (ci_commit ci) (eval_gate_title job_name) of
             Inr (Some i) \<Rightarrow> ci_send_unit api (update_ci_eval_job ci i conclusion) s
           | _ \<Rightarrow> (s, Inr ())))"

fun handle_ci_task :: "CiApi \<Rightarrow> CiTask \<Rightarrow> CiService \<Rightarrow> CiService \<times> (CiError, unit) result" where
  "handle_ci_task api (CreateCIConfigureGate ci) =
     with_installation api (ci_owner ci) (seq_then (ci_send api (create_ci_configure_gate ci))
       (\<lambda>i s. (s\<lparr>cv_configure := (cv_configure s)(ci_commit ci \<mapsto> i)\<rparr>, Inr ())))"
| "handle_ci_task api (CompleteCIConfigureGate ci summary) =
     with_installation api (ci_owner ci) (complete_configure_gate api ci summary)"
| "handle_ci_task api (CreateCIEvalJob ci job_title) =
     with_installation api (ci_owner ci) (seq_then (ci_send api (create_ci_eval_job job_title ci))
       (\<lambda>i s. (s\<lparr>cv_eval := (cv_eval s)((ci_commit ci, job_title) \<mapsto> i)\<rparr>, Inr ())))"
| "handle_ci_task api (CompleteCIEvalJob ci job_name conclusion) =
     with_installation api (ci_owner ci) (complete_eval_job api ci job_name conclusion)"
| "handle_ci_task api (FailCIEvalJob ci job_name errors) =
     with_installation api (ci_owner ci) (ci_send_unit api (fail_ci_eval_job ci job_name errors))"
| "handle_ci_task api (CreateCheckRun owner repo_name sha check_name check_result_id) =
     handle_create_check_run api owner repo_name sha check_name check_result_id"
| "handle_ci_task api (CheckComplete r) = with_installation api (cm_owner r) (ci_send_unit api (update_check_run_call api r))"
| "handle_ci_task api (CheckFailed r) = with_installation api (cm_owner r) (ci_send_unit api (update_check_run_call api r))"
| "handle_ci_task api (SkillComplete r) = handle_skill_result api r"
| "handle_ci_task api (SkillFailed r) = handle_skill_result api r"
| "handle_ci_task api (SkillError r) = handle_skill_result api r"

text \<open>A rate-limited task is tried once more.\<close>

definition handle_ci_with_retry :: "CiApi \<Rightarrow> CiTask \<Rightarrow> CiService \<Rightarrow> CiService \<times> (CiError, unit) result" where
  "handle_ci_with_retry api task s =
     (case handle_ci_task api task s of
        (s', Inl RateLimited) \<Rightarrow> handle_ci_task api task s'
      | r \<Rightarrow> r)"

end
