(* ===== verification/Ci_Props.thy ===== *)
theory Ci_Props
  imports Check_Exec
begin

text \<open>
  What the configuration of a repository makes the server do: which keys are reported as unknown,
  where the files of its jobs lie, how the gate of the configuration opens and closes, and what
  becomes of its checks and skills on the tables that the migrations leave.
\<close>

section \<open>Effects that keep a property of the state\<close>

named_theorems keeps \<open>effects that keep a property of the state, whether they succeed or fail\<close>

definition keeps_state :: "('s \<Rightarrow> bool) \<Rightarrow> ('s \<Rightarrow> 's \<times> ('e, 'a) result) \<Rightarrow> bool" where
  "keeps_state P m = (\<forall>s. P s \<longrightarrow> P (fst (m s)))"

lemma keeps_stateI: "(\<And>s. P s \<Longrightarrow> P (fst (m s))) \<Longrightarrow> keeps_state P m"
  by (simp add: keeps_state_def)

lemma keeps_stateD: "keeps_state P m \<Longrightarrow> P s \<Longrightarrow> P (fst (m s))"
  by (simp add: keeps_state_def)

lemma keeps_reached: "keeps_state P m \<Longrightarrow> m s = (s', r) \<Longrightarrow> P s \<Longrightarrow> P s'"
  using keeps_stateD by fastforce

lemma keeps_and_then [keeps]:
  assumes "keeps_state P m" and "\<And>a. keeps_state P (f a)"
  shows "keeps_state P (seq_then m f)"
proof (rule keeps_stateI)
  fix s assume "P s"
  then have "P (fst (m s))" by (rule keeps_stateD [OF assms(1)])
  then show "P (fst (seq_then m f s))"
    using keeps_stateD [OF assms(2)] by (auto simp: seq_then_def split: prod.splits sum.splits)
qed

lemma keeps_for_each [keeps]:
  assumes "\<And>x. x \<in> set xs \<Longrightarrow> keeps_state P (f x)"
  shows "keeps_state P (for_each f xs)"
  using assms
proof (induction xs)
  case Nil
  then show ?case by (simp add: keeps_state_def)
next
  case (Cons x xs)
  have "keeps_state P (seq_then (f x) (\<lambda>_. for_each f xs))"
    using Cons by (intro keeps_and_then) auto
  then show ?case by (simp add: keeps_state_def)
qed

lemma keeps_return [keeps]: "keeps_state P (\<lambda>s. (s, r))"
  by (simp add: keeps_state_def)

lemma seq_then_Inr:
  "seq_then m f s = (s', Inr b) \<longleftrightarrow> (\<exists>s1 a. m s = (s1, Inr a) \<and> f a s1 = (s', Inr b))"
  by (auto simp: seq_then_def split: prod.splits sum.splits)

section \<open>Unknown keys\<close>

text \<open>The path of nested keys as the code writes it.\<close>

definition dotted :: "string list \<Rightarrow> string" where
  "dotted ks = foldl extend_path [] ks"

fun has_path :: "Value \<Rightarrow> string list \<Rightarrow> bool" where
  "has_path v [] = True"
| "has_path (Object m) (k # ks) = (\<exists>(k', v) \<in> set m. k' = k \<and> has_path v ks)"
| "has_path _ (k # ks) = False"

fun known_at :: "Value \<Rightarrow> string list \<Rightarrow> Value option" where
  "known_at v [] = Some v"
| "known_at (Object m) (k # ks) = (case known_get m k of Some v \<Rightarrow> known_at v ks | None \<Rightarrow> None)"
| "known_at _ (k # ks) = None"

definition unread :: "Value \<Rightarrow> Value \<Rightarrow> string list \<Rightarrow> bool" where
  "unread input known ks \<longleftrightarrow>
     (\<exists>pre k m. ks = pre @ [k] \<and> has_path input ks \<and> known_at known pre = Some (Object m) \<and> known_get m k = None)"

lemma has_path_Object: "has_path (Object m) (k # ks) \<longleftrightarrow> (\<exists>v. (k, v) \<in> set m \<and> has_path v ks)"
  by auto

lemma unread_Cons:
  "unread (Object input) (Object known) (k # ks) \<longleftrightarrow>
     (\<exists>v. (k, v) \<in> set input \<and>
        (case known_get known k of
           None \<Rightarrow> ks = []
         | Some kv \<Rightarrow> unread v kv ks))"
proof (cases ks)
  case Nil
  have "\<not> unread v kv []" for v kv by (simp add: unread_def)
  then show ?thesis unfolding Nil by (auto simp: unread_def has_path_Object split: option.splits)
next
  case (Cons k2 ks2)
  have snoc: "(\<exists>pre x m. k # ks = pre @ [x] \<and> P pre x m) \<longleftrightarrow> (\<exists>pre x m. ks = pre @ [x] \<and> P (k # pre) x m)" for P
    using Cons by (simp add: Cons_eq_append_conv) blast
  show ?thesis
  proof (cases "known_get known k")
    case None
    then show ?thesis unfolding unread_def snoc using Cons by simp
  next
    case (Some kv)
    then show ?thesis unfolding unread_def snoc has_path_Object by simp blast
  qed
qed

lemma unread_not_Object [simp]:
  "(\<And>m. v \<noteq> Object m) \<Longrightarrow> \<not> unread v known ks" "(\<And>m. known \<noteq> Object m) \<Longrightarrow> \<not> unread v known ks"
proof -
  assume no: "\<And>m. v \<noteq> Object m"
  have "\<not> has_path v (pre @ [k])" for pre k
    using no by (cases v; cases pre) simp_all
  then show "\<not> unread v known ks" unfolding unread_def by blast
next
  assume no: "\<And>m. known \<noteq> Object m"
  have "known_at known pre \<noteq> Some (Object m)" for pre m
    using no by (cases known; cases pre) simp_all
  then show "\<not> unread v known ks" unfolding unread_def by blast
qed

lemma collect_unknown_set:
  "set (collect_unknown input known pre) =
     {foldl extend_path pre ks | ks. unread (Object input) (Object known) ks}"
proof (induction input known pre rule: collect_unknown.induct)
  case (1 known pre)
  have "\<not> unread (Object []) (Object known) ks" for ks
    by (cases ks) (simp_all add: unread_Cons, simp add: unread_def)
  then show ?case by simp
next
  case (2 key v input known pre)
  let ?here = "case known_get known key of
        Some (Object known_child) \<Rightarrow>
          (case v of Object child \<Rightarrow> collect_unknown child known_child (extend_path pre key) | _ \<Rightarrow> [])
      | Some _ \<Rightarrow> []
      | None \<Rightarrow> [extend_path pre key]"
  have here: "set ?here = {foldl extend_path pre (key # ks) | ks.
      case known_get known key of None \<Rightarrow> ks = [] | Some kv \<Rightarrow> unread v kv ks}"
  proof (cases "known_get known key")
    case None
    then show ?thesis by simp
  next
    case (Some kv)
    show ?thesis
    proof (cases "\<exists>kc child. kv = Object kc \<and> v = Object child")
      case True
      then obtain kc child where "kv = Object kc" "v = Object child" by blast
      then show ?thesis using 2(1) Some by simp
    next
      case False
      then have "\<not> unread v kv ks" for ks by (meson unread_not_Object)
      moreover have "set ?here = {}" using Some False by (auto split: Value.splits)
      ultimately show ?thesis using Some by simp
    qed
  qed
  have nonempty: "unread (Object i) (Object known) ks \<Longrightarrow> \<exists>k ks'. ks = k # ks'" for i ks
    by (cases ks) (auto simp: unread_def)
  have split: "unread (Object ((key, v) # input)) (Object known) ks \<longleftrightarrow>
      (\<exists>ks'. ks = key # ks' \<and> (case known_get known key of None \<Rightarrow> ks' = [] | Some kv \<Rightarrow> unread v kv ks')) \<or>
      unread (Object input) (Object known) ks" for ks
    by (cases ks) (auto simp: unread_Cons unread_def [of _ _ "[]"])
  have "set (collect_unknown ((key, v) # input) known pre) = set ?here \<union> set (collect_unknown input known pre)"
    by simp
  also have "\<dots> = {foldl extend_path pre ks | ks. unread (Object ((key, v) # input)) (Object known) ks}"
    unfolding here 2(2) split by blast
  finally show ?case .
qed

text \<open>The unknown keys of a configuration are reported exactly: the dotted path of a nested key
  is in the list that \<open>unknown_keys::find\<close> returns precisely when the input has that key, every key
  above it names an object of the parsed configuration, and the parsed configuration has no such key
  there, under its own name or the name it is an alias of.\<close>

theorem unknown_keys_exact:
  "p \<in> set (find_unknown input known) \<longleftrightarrow> (\<exists>ks. p = dotted ks \<and> unread input known ks)"
proof (cases "\<exists>i k. input = Object i \<and> known = Object k")
  case True
  then obtain i k where "input = Object i" "known = Object k" by blast
  then show ?thesis by (auto simp: collect_unknown_set dotted_def)
next
  case False
  then have "find_unknown input known = []" by (cases input; cases known) simp_all
  moreover have "\<not> unread input known ks" for ks using False by (meson unread_not_Object)
  ultimately show ?thesis by simp
qed

section \<open>Invariants of reading a configuration\<close>

text \<open>What the jobs, checks and skills of a configuration each keep, reading it keeps.\<close>

locale config_invariant =
  fixes P :: "CiState \<Rightarrow> bool" and R :: RepoReader and E :: RepoEnv and dir :: string and ci :: CICheckInfo
  assumes job [keeps]: "keeps_state P (process_job R E dir ci nj)"
    and check [keeps]: "keeps_state P (start_check c g ci nc)"
    and skill [keeps]: "keeps_state P (start_skill k g ci b ns)"
begin

lemma checks_keep [keeps]: "keeps_state P (process_checks R ci checks)"
  unfolding keeps_state_def process_checks_def
  using keeps_stateD [OF keeps_for_each [OF check]] by (auto split: option.splits)

lemma skills_keep [keeps]: "keeps_state P (process_skills R ci skills)"
  unfolding keeps_state_def process_skills_def
  using keeps_stateD [OF keeps_for_each [OF skill]] by (auto split: option.splits)

lemma flake_keeps [keeps]: "keeps_state P (process_flake R E dir ci f)"
proof (cases f)
  case None
  then show ?thesis by (simp add: process_flake_def keeps_state_def)
next
  case (Some g)
  have "keeps_state P (seq_then (process_checks R ci (flake_gates E dir FlakeCheck (fl_checks_enable g)))
      (\<lambda>_. process_checks R ci (flake_gates E dir FlakePackage (fl_packages_enable g))))" by (intro keeps)
  then show ?thesis using Some by (simp add: process_flake_def keeps_state_def)
qed

lemma config_keeps: "keeps_state P (process_github_repo_config R E dir ci)"
proof (rule keeps_stateI)
  fix s assume s: "P s"
  show "P (fst (process_github_repo_config R E dir ci s))"
  proof (cases "read_repo_toplevel E dir")
    case (Inl e)
    then show ?thesis using s by (simp add: process_github_repo_config_def)
  next
    case (Inr config)
    have "keeps_state P
        (seq_then (for_each (process_job R E dir ci) (cc_jobs config)) (\<lambda>_.
         seq_then (process_checks R ci (cc_checks config)) (\<lambda>_.
         seq_then (process_skills R ci (cc_skills config)) (\<lambda>_.
         seq_then (process_flake R E dir ci (cc_flake config)) (\<lambda>_ s.
         (s, (Inr (configure_summary R ci config) :: (anyhow, ConfigureSummary) result)))))))"
      by (intro keeps)
    from keeps_stateD [OF this s] show ?thesis using Inr by (simp add: process_github_repo_config_def)
  qed
qed

end

section \<open>Files of jobs\<close>


definition inside :: "(string \<Rightarrow> (anyhow, string) result) \<Rightarrow> string \<Rightarrow> string \<Rightarrow> bool" where
  "inside canonicalize dir p \<longleftrightarrow>
     (\<exists>r names. canonicalize dir = Inr r \<and> path_components p = path_components r @ map Normal names)"



text \<open>The evaluations asked for since a state, and where their files lie.\<close>

definition evals_inside :: "RepoEnv \<Rightarrow> string \<Rightarrow> EvalTask list \<Rightarrow> CiState \<Rightarrow> bool" where
  "evals_inside E dir old s \<longleftrightarrow>
     (\<exists>new. rs_eval s = old @ new \<and>
        (\<forall>t \<in> set new. \<exists>p. eval_file t = Some p \<and> inside (re_canonicalize E) dir p))"


lemma evals_inside_same: "rs_eval s' = rs_eval s \<Longrightarrow> evals_inside E dir old s' = evals_inside E dir old s"
  by (simp add: evals_inside_def)

lemma evals_inside_on_checks [keeps]: "keeps_state (evals_inside E dir old) (on_checks f)"
  by (rule keeps_stateI) (simp add: on_checks_def evals_inside_def split: prod.splits)

lemma evals_inside_sends [keeps]:
  "keeps_state (evals_inside E dir old) (send_github g t)"
  "keeps_state (evals_inside E dir old) (send_check c u)"
  "keeps_state (evals_inside E dir old) (send_skill k v)"
  by (rule keeps_stateI, simp add: send_github_def send_check_def send_skill_def evals_inside_def)+





section \<open>A checkout for the examples\<close>

definition demo_canonicalize :: "string \<Rightarrow> (anyhow, string) result" where
  "demo_canonicalize p = (if p \<in> {''/r'', ''/r/a.nix''} then Inr p else Inl ''No such file or directory'')"

definition demo_job :: Job where
  "demo_job = \<lparr> j_file = ''/a.nix'', j_allow_eval_failures = True, j_caches = [], j_size_check = None, j_passthru_tests = None \<rparr>"

definition demo_check :: Check where
  "demo_check = \<lparr> ck_shell = None, ck_shell_nix = False, ck_command = ''true'', ck_allow_network = False \<rparr>"

definition demo_config :: "(string \<times> Check) list \<Rightarrow> CIConfig" where
  "demo_config checks = \<lparr> sc_package_change_summary = None, sc_rebuild_impact = None, cc_jobs = [(''j'', demo_job)],
     cc_checks = checks, cc_skills = [], cc_flake = None, cc_unknown_keys = [] \<rparr>"

definition demo_repo :: "(string \<times> Check) list \<Rightarrow> RepoEnv" where
  "demo_repo checks = \<lparr> re_exists = (\<lambda>_. True), re_read = (\<lambda>_. Inr []), re_canonicalize = demo_canonicalize,
     re_parse = (\<lambda>_. Inr (demo_config checks)), re_value = (\<lambda>_. Inr Null), re_number = (\<lambda>_. ''1.0''), re_job_json = (\<lambda>_. None),
     re_workspace = Inr ''/r'', re_nix_eval = (\<lambda>_ _. Inr []) \<rparr>"

definition demo_reader :: RepoReader where
  "demo_reader = \<lparr> rr_eval = True, rr_check = Some True, rr_skill = None, rr_github = Some True \<rparr>"

definition demo_ci_info :: CICheckInfo where
  "demo_ci_info = \<lparr> ci_commit = ''c0'', ci_base_commit = None, ci_owner = ''o'', ci_repo_name = ''n'' \<rparr>"

definition demo_checks_db :: ChecksDb where
  "demo_checks_db = \<lparr> cd_schema = migrated, cd_checksets = [], cd_results = [], cd_skills = [], cd_run_infos = [] \<rparr>"

definition demo_ci_state :: CiState where
  "demo_ci_state = \<lparr> rs_jobsets = \<lparr> jb_tables = demo_tables, jb_jobsets = [], jb_configs = [], jb_jobs = [], jb_check_runs = [], jb_cache = [] \<rparr>,
     rs_checks = demo_checks_db, rs_eval = [], rs_check = [], rs_skill = [], rs_github = [] \<rparr>"

lemmas demo_repo_defs = demo_canonicalize_def demo_job_def demo_check_def demo_config_def demo_repo_def demo_reader_def
  demo_ci_info_def demo_checks_db_def demo_ci_state_def


lemma demo_read: "read_repo_toplevel (demo_repo checks) ''/r'' = Inr (demo_config checks)"
  by (simp add: read_repo_toplevel_def ci_config_from_str_def demo_repo_def config_value_def demo_config_def)



section \<open>The gate of the configuration\<close>

definition creates_run :: "CiTask \<Rightarrow> bool" where
  "creates_run t = (case t of CreateCheckRun _ _ _ _ _ \<Rightarrow> True | _ \<Rightarrow> False)"

definition sent_since :: "(CiTask \<Rightarrow> bool) \<Rightarrow> CiTask list \<Rightarrow> CiState \<Rightarrow> bool" where
  "sent_since Q old s \<longleftrightarrow> (\<exists>new. rs_github s = old @ new \<and> list_all Q new)"

lemma sent_since_steps [keeps]:
  "keeps_state (sent_since Q old) (on_checks f)"
  "keeps_state (sent_since Q old) (send_check c u)"
  "keeps_state (sent_since Q old) (send_skill k v)"
  "keeps_state (sent_since Q old) (process_job R E dir ci nj)"
  by (auto intro!: keeps_stateI simp: on_checks_def send_check_def send_skill_def process_job_def send_eval_def sent_since_def
      split: prod.splits sum.splits)

lemma sent_since_github:
  assumes "Q t"
  shows "keeps_state (sent_since Q old) (send_github g t)"
proof (rule keeps_stateI)
  fix s assume "sent_since Q old s"
  then obtain new where "rs_github s = old @ new" "list_all Q new" by (auto simp: sent_since_def)
  then show "sent_since Q old (fst (send_github g t s))"
    using assms by (auto simp: send_github_def sent_since_def intro: exI [of _ "new @ [t]"])
qed

interpretation runs: config_invariant "sent_since creates_run old" R E dir ci
  for old R E dir ci
proof
  show "keeps_state (sent_since creates_run old) (process_job R E dir ci nj)" for nj by (rule keeps)
  show "keeps_state (sent_since creates_run old) (start_check c g ci nc)" for c g nc
    unfolding start_check_def by (intro keeps sent_since_github) (simp add: creates_run_def)
  show "keeps_state (sent_since creates_run old) (start_skill k g ci b ns)" for k g b ns
    unfolding start_skill_def by (intro keeps sent_since_github) (simp add: creates_run_def)
qed

lemma config_sends_runs:
  assumes "process_github_repo_config R E dir ci s = (s', r)"
  shows "\<exists>mid. rs_github s' = rs_github s @ mid \<and> list_all creates_run mid"
proof -
  have "sent_since creates_run (rs_github s) s" by (simp add: sent_since_def)
  from keeps_stateD [OF runs.config_keeps [of _ R E dir ci] this] show ?thesis using assms by (simp add: sent_since_def)
qed

text \<open>C18: Reading a pull request's checkout opens the gate of the configuration before anything
  else and closes it, successfully and with the summary, exactly when everything was started without an
  error; in between only check runs are asked for.  After an error the gate that was opened is
  closed by nothing that this task sends.\<close>

theorem configure_gate_protocol:
  assumes "rr_github R = Some True"
  shows "\<exists>mid. list_all creates_run mid \<and>
    (case process_github_repo_config R E dir ci (s\<lparr>rs_github := rs_github s @ [CreateCIConfigureGate ci]\<rparr>) of
       (s', Inr summary) \<Rightarrow> snd (handle_repo_task R E (ReadGitHub dir ci) s) = Inr () \<and>
         rs_github (fst (handle_repo_task R E (ReadGitHub dir ci) s)) =
           rs_github s @ [CreateCIConfigureGate ci] @ mid @ [CompleteCIConfigureGate ci (to_markdown summary)]
     | (s', Inl e) \<Rightarrow> snd (handle_repo_task R E (ReadGitHub dir ci) s) = Inl e \<and>
         rs_github (fst (handle_repo_task R E (ReadGitHub dir ci) s)) = rs_github s @ [CreateCIConfigureGate ci] @ mid)"
proof -
  let ?s = "s\<lparr>rs_github := rs_github s @ [CreateCIConfigureGate ci]\<rparr>"
  obtain s' r where p: "process_github_repo_config R E dir ci ?s = (s', r)" by fastforce
  obtain mid where mid: "rs_github s' = rs_github s @ [CreateCIConfigureGate ci] @ mid" "list_all creates_run mid"
    using config_sends_runs [OF p] by auto
  show ?thesis
  proof (cases r)
    case (Inl e)
    then show ?thesis using p mid assms by (intro exI [of _ mid]) (simp add: seq_then_def send_github_def)
  next
    case (Inr summary)
    then show ?thesis using p mid assms by (intro exI [of _ mid]) (simp add: seq_then_def send_github_def)
  qed
qed

theorem configure_gate_protocol_witness:
  "\<exists>mid. rs_github (fst (handle_repo_task demo_reader (demo_repo []) (ReadGitHub ''/r'' demo_ci_info) demo_ci_state)) =
     [CreateCIConfigureGate demo_ci_info] @ mid @
     [CompleteCIConfigureGate demo_ci_info (''**Jobs (1):**'' @ nl @ ''- `j`'')]"
proof -
  have g: "rr_github demo_reader = Some True" by (simp add: demo_reader_def)
  have "snd (process_github_repo_config demo_reader (demo_repo []) ''/r'' demo_ci_info
      (demo_ci_state\<lparr>rs_github := rs_github demo_ci_state @ [CreateCIConfigureGate demo_ci_info]\<rparr>)) =
      Inr (configure_summary demo_reader demo_ci_info (demo_config []))"
    by code_simp
  then obtain s' where "process_github_repo_config demo_reader (demo_repo []) ''/r'' demo_ci_info
      (demo_ci_state\<lparr>rs_github := rs_github demo_ci_state @ [CreateCIConfigureGate demo_ci_info]\<rparr>) =
      (s', Inr (configure_summary demo_reader demo_ci_info (demo_config [])))"
    by (metis prod.collapse)
  moreover have "to_markdown (configure_summary demo_reader demo_ci_info (demo_config [])) = ''**Jobs (1):**'' @ nl @ ''- `j`''"
    by code_simp
  moreover have "rs_github demo_ci_state = []" by (simp add: demo_ci_state_def)
  ultimately show ?thesis
    using configure_gate_protocol [OF g, of "demo_repo []" "''/r''" demo_ci_info demo_ci_state]
    by (simp del: handle_repo_task.simps) blast
qed

section \<open>Checks and skills on the migrated tables\<close>

lemma migrated_tables:
  "map_of migrated ''GitHubCheckSets'' = Some [key_col ''ROWID'', not_null ''sha'', not_null ''check_name'', not_null ''owner'', not_null ''repo_name'']"
  "map_of migrated ''CheckResult'' = Some [key_col ''ROWID'', not_null ''checkset'', not_null ''success'', not_null ''exit_code'',
     nullable ''stdout'', nullable ''stderr'', not_null ''duration_ms'', not_null ''executed_at'']"
  "map_of migrated ''CheckRunInfo'' = None"
  by code_simp+

text \<open>All migrations run.\<close>

lemma migrations_succeed: "run_ddls migrations [] = Inr migrated"
  by code_simp

lemma check_result_refused:
  "insert_check migrated ''CheckResult'' [''checkset'', ''success'', ''exit_code'', ''stdout'', ''stderr'', ''duration_ms''] =
     Inl ''NOT NULL constraint failed: CheckResult.executed_at''"
  by code_simp

lemma run_info_refused:
  "insert_check migrated ''CheckRunInfo'' cols = Inl (no_such_table ''CheckRunInfo'')"
  by (simp add: insert_check_def migrated_tables)

lemma insert_check_result_fails:
  "cd_schema db = migrated \<Longrightarrow> insert_check_result i ok code out err ms db = (db, Inl ''NOT NULL constraint failed: CheckResult.executed_at'')"
  by (simp add: insert_check_result_def check_result_refused)

lemma checkset_keeps_schema [simp]: "cd_schema (fst (insert_github_checkset sha name owner repo db)) = cd_schema db"
  by (simp add: insert_github_checkset_def Let_def split: sum.splits)

lemma skill_result_keeps_schema [simp]: "cd_schema (fst (insert_skill_result i ok er re fi mo ms db)) = cd_schema db"
  by (simp add: insert_skill_result_def Let_def split: sum.splits)

definition unstarted :: "CheckTask list \<Rightarrow> CiState \<Rightarrow> bool" where
  "unstarted old s \<longleftrightarrow> cd_schema (rs_checks s) = migrated \<and> rs_check s = old"

lemma unstarted_on_checks:
  "(\<And>db. cd_schema (fst (f db)) = cd_schema db) \<Longrightarrow> keeps_state (unstarted old) (on_checks f)"
  by (rule keeps_stateI) (metis (mono_tags, lifting) CiState.select_convs(2,4) CiState.surjective CiState.update_convs(2)
      case_prod_beta fst_conv on_checks_def unstarted_def)

lemma start_check_fails:
  assumes "unstarted old s"
  shows "\<exists>e. snd (start_check c g ci nc s) = Inl e" "unstarted old (fst (start_check c g ci nc s))"
proof -
  let ?m = "on_checks (insert_github_checkset (ci_commit ci) (fst nc) (ci_owner ci) (ci_repo_name ci))"
  obtain s1 r where m: "?m s = (s1, r)" by fastforce
  have u: "unstarted old s1"
    using keeps_stateD [OF unstarted_on_checks [of "insert_github_checkset (ci_commit ci) (fst nc) (ci_owner ci) (ci_repo_name ci)"] assms] m
    by simp
  then have "on_checks (insert_check_result i False (- 1) [] [] 0) s1 = (s1, Inl ''NOT NULL constraint failed: CheckResult.executed_at'')" for i
    by (simp add: on_checks_def insert_check_result_fails unstarted_def)
  then show "\<exists>e. snd (start_check c g ci nc s) = Inl e" "unstarted old (fst (start_check c g ci nc s))"
    using m u by (auto simp: start_check_def seq_then_def split: sum.splits)
qed

lemma unstarted_sends [keeps]:
  "keeps_state (unstarted old) (send_github g t)" "keeps_state (unstarted old) (send_skill k v)"
  by (rule keeps_stateI, simp add: send_github_def send_skill_def unstarted_def)+

interpretation unstarted: config_invariant "unstarted old" R E dir ci
  for old R E dir ci
proof
  show "keeps_state (unstarted old) (process_job R E dir ci nj)" for nj
    by (rule keeps_stateI) (simp add: process_job_def send_eval_def unstarted_def split: sum.splits)
  show "keeps_state (unstarted old) (start_check c g ci nc)" for c g nc
    using start_check_fails(2) by (rule keeps_stateI)
  show "keeps_state (unstarted old) (start_skill k g ci b ns)" for k g b ns
    unfolding start_skill_def by (intro keeps unstarted_on_checks) simp_all
qed

lemma no_checks_processed:
  assumes "process_checks R ci checks s = (s', Inr u)" and "unstarted old s"
    and "rr_check R = Some c" and "rr_github R = Some g"
  shows "checks = []"
proof (cases checks)
  case (Cons nc rs)
  then show ?thesis
    using assms start_check_fails(1) [OF assms(2), of c g ci nc] by (auto simp: process_checks_def seq_then_Inr)
qed simp

lemma config_with_checks_fails:
  assumes "unstarted old s" and "rr_check R = Some c" and "rr_github R = Some g"
    and "read_repo_toplevel E dir = Inr config"
    and "process_github_repo_config R E dir ci s = (s', Inr summary)"
  shows "cc_checks config = []"
    and "cc_flake config = Some f \<Longrightarrow> flake_gates E dir FlakeCheck (fl_checks_enable f) = [] \<and>
           flake_gates E dir FlakePackage (fl_packages_enable f) = []"
proof -
  obtain s1 s2 s3 u1 u2 u3 u4 s4 where
    j: "for_each (process_job R E dir ci) (cc_jobs config) s = (s1, Inr u1)" and
    c: "process_checks R ci (cc_checks config) s1 = (s2, Inr u2)" and
    k: "process_skills R ci (cc_skills config) s2 = (s3, Inr u3)" and
    f: "process_flake R E dir ci (cc_flake config) s3 = (s4, Inr u4)"
    using assms(4,5) by (auto simp: process_github_repo_config_def seq_then_Inr)
  have "unstarted old s1" by (rule keeps_reached [OF keeps_for_each [OF unstarted.job] j assms(1)])
  then show "cc_checks config = []" using c no_checks_processed assms(2,3) by blast
  have "unstarted old s2" by (rule keeps_reached [OF unstarted.checks_keep c \<open>unstarted old s1\<close>])
  then have u3: "unstarted old s3" by (rule keeps_reached [OF unstarted.skills_keep k])
  assume "cc_flake config = Some f"
  then obtain s5 u5 where
    a: "process_checks R ci (flake_gates E dir FlakeCheck (fl_checks_enable f)) s3 = (s5, Inr u5)" and
    b: "process_checks R ci (flake_gates E dir FlakePackage (fl_packages_enable f)) s5 = (s4, Inr u4)"
    using f by (auto simp: process_flake_def seq_then_Inr)
  have "unstarted old s5" by (rule keeps_reached [OF unstarted.checks_keep a u3])
  with a b u3 show "flake_gates E dir FlakeCheck (fl_checks_enable f) = [] \<and>
           flake_gates E dir FlakePackage (fl_packages_enable f) = []"
    using no_checks_processed assms(2,3) by blast
qed

text \<open>C36: On the tables that the migrations leave, a repository that configures a check or has an
  output of its flake as a gate is never configured: the placeholder row of the first check lacks the
  column \<open>executed_at\<close>, which may not be null, so the reader ends with an error, starts no check
  at all and never closes the gate of the configuration.\<close>

theorem checks_never_start:
  assumes "cd_schema (rs_checks s) = migrated" and "rr_check R = Some c" and "rr_github R = Some True"
    and "read_repo_toplevel E dir = Inr config"
    and "cc_checks config \<noteq> [] \<or> (\<exists>f. cc_flake config = Some f \<and>
           (flake_gates E dir FlakeCheck (fl_checks_enable f) \<noteq> [] \<or> flake_gates E dir FlakePackage (fl_packages_enable f) \<noteq> []))"
  shows "\<exists>e new. snd (handle_repo_task R E (ReadGitHub dir ci) s) = Inl e \<and>
    rs_check (fst (handle_repo_task R E (ReadGitHub dir ci) s)) = rs_check s \<and>
    rs_github (fst (handle_repo_task R E (ReadGitHub dir ci) s)) = rs_github s @ CreateCIConfigureGate ci # new \<and>
    list_all creates_run new"
proof -
  let ?s = "s\<lparr>rs_github := rs_github s @ [CreateCIConfigureGate ci]\<rparr>"
  obtain s' r where p: "process_github_repo_config R E dir ci ?s = (s', r)" by fastforce
  have u: "unstarted (rs_check s) ?s" using assms(1) by (simp add: unstarted_def)
  have "\<exists>e. r = Inl e"
  proof (rule ccontr)
    assume "\<nexists>e. r = Inl e"
    then obtain summary where "r = Inr summary" by (cases r) auto
    with p config_with_checks_fails [OF u assms(2,3,4)] assms(5) show False by blast
  qed
  then obtain e where e: "r = Inl e" by blast
  obtain new where new: "rs_github s' = rs_github s @ CreateCIConfigureGate ci # new" "list_all creates_run new"
    using config_sends_runs [OF p] by auto
  have "rs_check s' = rs_check s"
    using keeps_reached [OF unstarted.config_keeps p u] by (simp add: unstarted_def)
  then show ?thesis using p e new assms(3) by (simp add: seq_then_def send_github_def)
qed

theorem checks_never_start_witness:
  "\<exists>e. snd (handle_repo_task demo_reader (demo_repo [(''fmt'', demo_check)]) (ReadGitHub ''/r'' demo_ci_info) demo_ci_state) = Inl e \<and>
     rs_check (fst (handle_repo_task demo_reader (demo_repo [(''fmt'', demo_check)]) (ReadGitHub ''/r'' demo_ci_info) demo_ci_state)) = []"
  using checks_never_start [of demo_ci_state demo_reader True "demo_repo [(''fmt'', demo_check)]" "''/r''"
      "demo_config [(''fmt'', demo_check)]" demo_ci_info]
  by (auto simp: demo_read) (auto simp: demo_ci_state_def demo_checks_db_def demo_reader_def demo_config_def)

lemma run_info_query_fails:
  "cd_schema db = migrated \<Longrightarrow> get_check_run_info_by_checkset owner repo i db = Inl (no_such_table ''CheckRunInfo'')"
  using migrated_tables(3) by (simp add: get_check_run_info_by_checkset_def map_of_eq_None_iff)

definition quiet :: "CiTask list \<Rightarrow> CiState \<Rightarrow> bool" where
  "quiet old s \<longleftrightarrow> cd_schema (rs_checks s) = migrated \<and> rs_github s = old"

lemma quiet_on_checks: "(\<And>db. cd_schema (fst (f db)) = cd_schema db) \<Longrightarrow> keeps_state (quiet old) (on_checks f)"
  by (rule keeps_stateI) (simp add: on_checks_def quiet_def split_beta)

lemma quiet_report [keeps]:
  "keeps_state (quiet old) (report_check g task out ms i)"
  "keeps_state (quiet old) (report_skill g sk m i)"
  by (rule keeps_stateI, simp add: report_check_def report_skill_def quiet_def run_info_query_fails)+

lemma quiet_option: "keeps_state (quiet old) f \<Longrightarrow> keeps_state (quiet old) (\<lambda>s. case x of None \<Rightarrow> (s, Inr ()) | Some g \<Rightarrow> f s)"
  by (cases x) (simp_all add: keeps_state_def)

lemma check_result_keeps_schema [simp]: "cd_schema (fst (insert_check_result i ok code out err ms db)) = cd_schema db"
  by (simp add: insert_check_result_def Let_def split: sum.splits)

lemma quiet_check_task: "keeps_state (quiet old) (handle_check_task github X task)"
proof (rule keeps_stateI)
  fix s assume s: "quiet old s"
  have "keeps_state (quiet old)
      (seq_then (on_checks (insert_github_checkset (ct_sha task) (ct_check_name task) (ct_owner task) (ct_repo_name task))) (\<lambda>checkset_id.
       seq_then (on_checks (insert_check_result checkset_id ok code out err (xe_elapsed X))) (\<lambda>_ s.
       (case github of None \<Rightarrow> (s, Inr ())
        | Some g \<Rightarrow> report_check g task (ok, code, out, err) (xe_elapsed X) checkset_id s))))" for ok code out err
    by (intro keeps quiet_on_checks) (cases github; simp add: keeps_return quiet_report)+
  from keeps_stateD [OF this s] s show "quiet old (fst (handle_check_task github X task s))"
    by (simp add: handle_check_task_def split: sum.splits)
qed

lemma quiet_skill_task:
  assumes s: "quiet old s" and r: "handle_skill_task github X task s = Some (s', r)"
  shows "quiet old s'"
proof -
  have "keeps_state (quiet old)
      (seq_then (on_checks (insert_github_checkset (st_sha task) (st_skill_name task) (st_owner task) (st_repo_name task))) (\<lambda>checkset_id.
       seq_then (on_checks (insert_skill_result checkset_id (sm_success m) (sm_error m) (sm_reason m) (sm_findings_json m)
                             (sm_model_id m) (sm_duration_ms m))) (\<lambda>_ s.
       (case github of None \<Rightarrow> (s, Inr ()) | Some g \<Rightarrow> report_skill g task m checkset_id s))))" for m
    by (intro keeps quiet_on_checks) (cases github; simp add: keeps_return quiet_report)+
  from keeps_reached [OF this _ s] s r show ?thesis
    unfolding handle_skill_task_def by (auto simp: Let_def split: sum.splits option.splits)
qed

text \<open>On the tables that the migrations leave, no verdict reaches GitHub: neither a check nor a skill,
  whatever it finds, sends a result to the GitHub service, and the check run that was created for it
  is not filed, because the table that would hold it was renamed away.\<close>

theorem verdicts_never_reported:
  assumes "cd_schema (rs_checks s) = migrated" and "cd_schema (cv_checks t) = migrated"
  shows "rs_github (fst (handle_check_task github X task s)) = rs_github s \<and>
    (\<forall>s' r. handle_skill_task github X skill s = Some (s', r) \<longrightarrow> rs_github s' = rs_github s) \<and>
    cv_checks (fst (handle_create_check_run api owner repo sha name i t)) = cv_checks t \<and>
    snd (handle_create_check_run api owner repo sha name i t) \<noteq> Inr ()"
proof (intro conjI allI impI)
  have q: "quiet (rs_github s) s" using assms(1) by (simp add: quiet_def)
  from keeps_stateD [OF quiet_check_task q] show "rs_github (fst (handle_check_task github X task s)) = rs_github s"
    by (simp add: quiet_def)
  show "rs_github s' = rs_github s" if "handle_skill_task github X skill s = Some (s', r)" for s' r
    using quiet_skill_task [OF q that] by (simp add: quiet_def)
  show "cv_checks (fst (handle_create_check_run api owner repo sha name i t)) = cv_checks t"
    "snd (handle_create_check_run api owner repo sha name i t) \<noteq> Inr ()"
    using assms(2)
    by (auto simp: handle_create_check_run_def with_installation_def seq_then_def ci_send_def insert_check_run_info_for_check_def
        run_info_refused split: sum.splits)
qed

definition demo_exec :: ExecEnv where
  "demo_exec = \<lparr> xe_tempdir = Inr ''/t'', xe_git = (\<lambda>_ _. GitExited True [] []), xe_execute = (\<lambda>_ _. Inr (True, 0, [], [])),
     xe_canonicalize = Inr, xe_read = Inr, xe_utf8 = (\<lambda>_. True), xe_elapsed = 5,
     xe_ai = \<lparr> ac_clients = (\<lambda>_. None), ac_default_model_id = None \<rparr>, xe_findings_json = (\<lambda>_. None) \<rparr>"

definition demo_skill_task :: SkillTask where
  "demo_skill_task = \<lparr> st_skill_name = ''k'', st_owner = ''o'', st_repo_name = ''n'', st_sha = ''c0'', st_base_sha = ''b0'',
     st_config = \<lparr> sl_prompt_file = ''p.md'', sl_model = None, sl_advisory = False \<rparr>,
     st_pr_title = None, st_pr_description = None, st_pr_author = None \<rparr>"

definition demo_check_task :: CheckTask where
  "demo_check_task = \<lparr> ct_check_name = ''fmt'', ct_owner = ''o'', ct_repo_name = ''n'', ct_sha = ''c0'', ct_config = demo_check \<rparr>"

definition demo_ci_service :: CiService where
  "demo_ci_service = \<lparr> cv_checks = demo_checks_db, cv_configure = [''c0'' \<mapsto> 7], cv_eval = [(''c0'', ''j'') \<mapsto> 8], cv_calls = [] \<rparr>"

definition demo_ci_api :: CiApi where
  "demo_ci_api = \<lparr> cp_installed = (\<lambda>_. True), cp_send = (\<lambda>old _. if old = [] then Inl RateLimited else Inr 9),
     cp_list = (\<lambda>_ _ _. Inr [(eval_gate_title ''j'', 8)]), cp_findings = (\<lambda>_. []), cp_seconds = (\<lambda>_. []), cp_show = (\<lambda>_. []) \<rparr>"

theorem verdicts_never_reported_witness:
  "rs_github (fst (handle_check_task (Some True) demo_exec demo_check_task demo_ci_state)) = [] \<and>
   snd (handle_create_check_run demo_ci_api ''o'' ''n'' ''c0'' ''fmt'' 1 demo_ci_service) \<noteq> Inr ()"
proof -
  have "cd_schema (rs_checks demo_ci_state) = migrated" "cd_schema (cv_checks demo_ci_service) = migrated"
    by (simp_all add: demo_ci_state_def demo_checks_db_def demo_ci_service_def)
  from verdicts_never_reported [OF this, of "Some True" demo_exec demo_check_task demo_skill_task demo_ci_api "''o''" "''n''" "''c0''" "''fmt''" 1]
  show ?thesis by (simp add: demo_ci_state_def)
qed

section \<open>Rate limits\<close>

text \<open>Closing the gate of a configuration does not survive a rate limit.  The entry of the gate
  is taken out of the map before the request is made, so the second attempt finds none and fails without a request;
  the gate stays open.  Closing the gate of an evaluation finds the check run by its name then, and asks again.\<close>

theorem retry_after_rate_limit:
  assumes "cp_installed api (ci_owner ci)"
  shows "(\<forall>i. cv_configure s (ci_commit ci) = Some i \<longrightarrow>
      cp_send api (cv_calls s) (update_ci_configure_gate_with_summary ci i RcSuccess summary) = Inl RateLimited \<longrightarrow>
      snd (handle_ci_with_retry api (CompleteCIConfigureGate ci summary) s) = Inl (CiFailed ''No configure gate check run found for commit'') \<and>
      cv_calls (fst (handle_ci_with_retry api (CompleteCIConfigureGate ci summary) s)) =
        cv_calls s @ [update_ci_configure_gate_with_summary ci i RcSuccess summary]) \<and>
    (\<forall>i runs. cv_eval s (ci_commit ci, job) = Some i \<longrightarrow>
      cp_send api (cv_calls s) (update_ci_eval_job ci i conclusion) = Inl RateLimited \<longrightarrow>
      cp_list api (ci_owner ci) (ci_repo_name ci) (ci_commit ci) = Inr runs \<longrightarrow> map_of runs (eval_gate_title job) = Some i \<longrightarrow>
      cv_calls (fst (handle_ci_with_retry api (CompleteCIEvalJob ci job conclusion) s)) =
        cv_calls s @ [update_ci_eval_job ci i conclusion, update_ci_eval_job ci i conclusion])"
  using assms
  by (simp add: handle_ci_with_retry_def with_installation_def complete_configure_gate_def complete_eval_job_def
      ci_send_unit_def ci_send_def seq_then_def find_check_run_by_name_def split: sum.splits)

theorem retry_after_rate_limit_witness:
  "snd (handle_ci_with_retry demo_ci_api (CompleteCIConfigureGate demo_ci_info []) demo_ci_service) =
     Inl (CiFailed ''No configure gate check run found for commit'') \<and>
   length (cv_calls (fst (handle_ci_with_retry demo_ci_api (CompleteCIEvalJob demo_ci_info ''j'' RcSuccess) demo_ci_service))) = 2"
proof -
  have "cp_installed demo_ci_api (ci_owner demo_ci_info)" by (simp add: demo_ci_api_def)
  from retry_after_rate_limit [OF this, of demo_ci_service "[]" "''j''" RcSuccess] show ?thesis
    by (simp add: demo_ci_api_def demo_ci_service_def demo_ci_info_def)
qed

section \<open>Verdicts\<close>

lemma takeWhile_upto: "c \<notin> set a \<Longrightarrow> takeWhile (\<lambda>x. x \<noteq> c) (a @ c # b) = a"
  by (induction a) auto

lemma find_char_at: "c \<notin> set a \<Longrightarrow> find_char c (a @ c # b) = Some (length a)"
  by (simp add: find_char_def takeWhile_upto)

lemma rfind_char_at: "c \<notin> set b \<Longrightarrow> rfind_char c (a @ c # b) = Some (length a)"
  using takeWhile_upto [of c "rev b" "rev a"] by (simp add: rfind_char_def)

lemma find_char_SomeE:
  assumes "find_char c s = Some n"
  obtains a b where "s = a @ c # b" "c \<notin> set a" "n = length a"
proof -
  have "c \<in> set s" using assms by (simp add: find_char_def split: if_splits)
  then obtain a b where "s = a @ c # b" "c \<notin> set a" by (meson split_list_first)
  with assms that show thesis by (simp add: find_char_at)
qed

lemma rfind_char_SomeE:
  assumes "rfind_char c s = Some n"
  obtains a b where "s = a @ c # b" "c \<notin> set b" "n = length a"
proof -
  have "c \<in> set s" using assms by (simp add: rfind_char_def split: if_splits)
  then obtain a b where "s = a @ c # b" "c \<notin> set b" by (meson split_list_last)
  with assms that show thesis by (simp add: rfind_char_at)
qed

text \<open>The reader of a model's answer panics on exactly the fenced answers whose last closing
  brace comes before the first opening one with something between them; every other answer is
  parsed or is an error.\<close>

theorem verdict_panics_iff:
  "parse_verdict from_json txt = None \<longleftrightarrow>
     prefix fence (trim txt) \<and>
     (\<exists>a b c. trim txt = a @ CHR ''}'' # b @ CHR ''{'' # c \<and> b \<noteq> [] \<and> CHR ''{'' \<notin> set (a @ b) \<and> CHR ''}'' \<notin> set (b @ c))"
proof
  assume "parse_verdict from_json txt = None"
  then obtain i j where f: "prefix fence (trim txt)" and i: "find_char (CHR ''{'') (trim txt) = Some i"
    and j: "rfind_char (CHR ''}'') (trim txt) = Some j" and lt: "j + 1 < i"
    by (auto simp: parse_verdict_def Let_def split: if_splits option.splits)
  obtain x y where x: "trim txt = x @ CHR ''{'' # y" "CHR ''{'' \<notin> set x" "i = length x" using i by (rule find_char_SomeE)
  obtain u v where u: "trim txt = u @ CHR ''}'' # v" "CHR ''}'' \<notin> set v" "j = length u" using j by (rule rfind_char_SomeE)
  have "x = u @ CHR ''}'' # take (length x - (length u + 1)) v"
    using arg_cong [OF trans [OF x(1) [symmetric] u(1)], of "take (length x)"] lt x(3) u(3) by (simp add: take_Cons')
  then obtain b where b: "x = u @ CHR ''}'' # b" by blast
  then have v: "v = b @ CHR ''{'' # y" using x(1) u(1) by simp
  have "b \<noteq> []" using b lt x(3) u(3) by auto
  then show "prefix fence (trim txt) \<and>
      (\<exists>a b c. trim txt = a @ CHR ''}'' # b @ CHR ''{'' # c \<and> b \<noteq> [] \<and> CHR ''{'' \<notin> set (a @ b) \<and> CHR ''}'' \<notin> set (b @ c))"
    using f u x(2) b v by (intro conjI exI [of _ u] exI [of _ b] exI [of _ y]) auto
next
  assume "prefix fence (trim txt) \<and>
      (\<exists>a b c. trim txt = a @ CHR ''}'' # b @ CHR ''{'' # c \<and> b \<noteq> [] \<and> CHR ''{'' \<notin> set (a @ b) \<and> CHR ''}'' \<notin> set (b @ c))"
  then obtain a b c where f: "prefix fence (trim txt)" and t: "trim txt = a @ CHR ''}'' # b @ CHR ''{'' # c" and b: "b \<noteq> []"
    and n: "CHR ''{'' \<notin> set (a @ b)" "CHR ''}'' \<notin> set (b @ c)" by blast
  have "find_char (CHR ''{'') (trim txt) = Some (length a + 1 + length b)"
    using find_char_at [of "CHR ''{''" "a @ CHR ''}'' # b" c] n t by simp
  moreover have "rfind_char (CHR ''}'') (trim txt) = Some (length a)"
    using rfind_char_at [of "CHR ''}''" "b @ CHR ''{'' # c" a] n t by simp
  ultimately show "parse_verdict from_json txt = None" using f b by (simp add: parse_verdict_def Let_def)
qed

end
