(* ===== verification/Hooks.thy ===== *)
theory Hooks
  imports Ci_Config
begin

text \<open>
  Post-build hooks: the substitution of variables in their arguments, their environment and their
  execution (\<open>server/src/hooks/executor.rs\<close>), the hooks that push the outputs of a build to
  caches (\<open>server/src/scheduler/recorder/hooks.rs\<close>) and the table of their results
  (\<open>server/src/db/hooks.rs\<close>).  Processes, files, credentials and \<open>nix\<close> are arguments.
\<close>

section \<open>Variables in arguments\<close>

definition MAX_EXPANDED_ARG_LEN :: nat where "MAX_EXPANDED_ARG_LEN = 2 ^ 20"

definition MAX_SUBSTITUTIONS_PER_ARG :: nat where "MAX_SUBSTITUTIONS_PER_ARG = 1024"

definition name_start :: "char \<Rightarrow> bool" where
  "name_start c = (is_ascii_upper c \<or> is_ascii_lower c \<or> c = CHR ''_'')"

definition name_char :: "char \<Rightarrow> bool" where
  "name_char c = (is_ascii_alphanumeric c \<or> c = CHR ''_'')"

definition validate_env_key :: "string \<Rightarrow> (anyhow, unit) result" where
  "validate_env_key key =
     (case key of
        [] \<Rightarrow> Inl ''env var key is empty''
      | first # bytes \<Rightarrow>
          if \<not> name_start first then Inl (''env var key must start with [A-Za-z_]: '' @ key)
          else if list_all name_char bytes then Inr ()
          else Inl (''env var key has disallowed byte: '' @ key))"

text \<open>The rest of the input, the output so far and the number of substitutions made.\<close>

definition check_limits :: "string \<Rightarrow> nat \<Rightarrow> (anyhow, unit) result" where
  "check_limits out subs =
     (if MAX_SUBSTITUTIONS_PER_ARG < subs then Inl ''too many substitutions in hook arg''
      else if MAX_EXPANDED_ARG_LEN < length out then Inl ''expanded hook arg exceeded its length limit''
      else Inr ())"

function expand_loop :: "(string \<rightharpoonup> string) \<Rightarrow> string \<Rightarrow> string \<Rightarrow> nat \<Rightarrow> (anyhow, string) result" where
  "expand_loop env [] out subs = Inr out"
| "expand_loop env (b # input) out subs =
     (if b \<noteq> CHR ''$'' then
        (let plain = b # takeWhile (\<lambda>c. c \<noteq> CHR ''$'') input in
         if MAX_EXPANDED_ARG_LEN < length (out @ plain) then Inl ''expanded hook arg exceeded its length limit''
         else expand_loop env (dropWhile (\<lambda>c. c \<noteq> CHR ''$'') input) (out @ plain) subs)
      else case input of
             [] \<Rightarrow> Inl ''dangling `$` at end of input''
           | c # tail \<Rightarrow>
               if c = CHR ''$'' then
                 (case check_limits (out @ ''$'') subs of Inl e \<Rightarrow> Inl e | Inr _ \<Rightarrow> expand_loop env tail (out @ ''$'') subs)
               else if c = CHR ''{'' then
                 (if CHR ''}'' \<notin> set tail then Inl ''unterminated `${` in hook arg''
                  else let n = takeWhile (\<lambda>c. c \<noteq> CHR ''}'') tail in
                       case validate_env_key n of
                         Inl e \<Rightarrow> Inl (''invalid ${...} name: '' @ e)
                       | Inr _ \<Rightarrow>
                           (case env n of
                              None \<Rightarrow> Inl (''hook references unknown env var `'' @ n @ ''`'')
                            | Some v \<Rightarrow>
                                (case check_limits (out @ v) (Suc subs) of
                                   Inl e \<Rightarrow> Inl e
                                 | Inr _ \<Rightarrow> expand_loop env (drop (length n + 1) tail) (out @ v) (Suc subs))))
               else if name_start c then
                 (let n = takeWhile name_char input in
                  case env n of
                    None \<Rightarrow> Inl (''hook references unknown env var `'' @ n @ ''`'')
                  | Some v \<Rightarrow>
                      (case check_limits (out @ v) (Suc subs) of
                         Inl e \<Rightarrow> Inl e
                       | Inr _ \<Rightarrow> expand_loop env (dropWhile name_char input) (out @ v) (Suc subs)))
               else Inl ''unexpected byte after `$` in hook arg; use `$$` for a literal `$`'')"
  by pat_completeness auto
termination
  by (relation "measure (\<lambda>(env, input, out, subs). length input)")
    (auto simp: length_dropWhile_le less_Suc_eq_le le_SucI intro: le_trans [OF length_dropWhile_le])

definition expand_vars :: "string \<Rightarrow> (string \<rightharpoonup> string) \<Rightarrow> (anyhow, string) result" where
  "expand_vars input env = expand_loop env input [] 0"

section \<open>Hooks\<close>

record PostBuildHook =
  pb_name :: string
  pb_command :: "string list"
  pb_env :: "(string \<times> string) list"

record HookContext =
  hc_job_name :: string
  hc_is_fod :: bool
  hc_system :: string
  hc_pname :: "string option"
  hc_build_log_path :: string
  hc_commit_sha :: string

record HookResult =
  hr_hook_name :: string
  hr_exit_code :: "int option"
  hr_success :: bool
  hr_log_path :: string
  hr_drv_path :: string
  hr_started_at :: int
  hr_completed_at :: int

record HookTask =
  ht_drv_path :: string
  ht_out_paths :: "string list"
  ht_hooks :: "PostBuildHook list"
  ht_context :: HookContext
  ht_result_sender :: "bool option"

text \<open>\<open>trim_end_matches\<close> takes the suffix off as often as it is there.\<close>

function trim_end_drv :: "string \<Rightarrow> string" where
  "trim_end_drv s = (case strip_suffix_str ''.drv'' s of Some t \<Rightarrow> trim_end_drv t | None \<Rightarrow> s)"
  by pat_completeness auto
termination
  by (relation "measure length") (auto simp: strip_suffix_str_def suffix_def split: if_splits)

declare trim_end_drv.simps [simp del]

definition extract_drv_hash :: "string \<Rightarrow> string" where
  "extract_drv_hash p = trim_end_drv (last (split_on (CHR ''/'') p))"

definition hook_log_dir :: "string \<Rightarrow> string \<Rightarrow> string" where
  "hook_log_dir logs_dir p = path_join logs_dir (extract_drv_hash p)"

definition hm_insert :: "string \<Rightarrow> string \<Rightarrow> (string \<times> string) list \<Rightarrow> (string \<times> string) list" where
  "hm_insert k v m = (k, v) # filter (\<lambda>(k', _). k' \<noteq> k) m"

definition build_hook_env :: "HookContext \<Rightarrow> string \<Rightarrow> string list \<Rightarrow> PostBuildHook \<Rightarrow> (string \<times> string) list" where
  "build_hook_env ctx drv out_paths hook =
     (let env = hm_insert ''DRV_PATH'' drv [];
          env = hm_insert ''OUT_PATHS'' (join_with '' '' out_paths) env;
          env = hm_insert ''EKA_JOB_NAME'' (hc_job_name ctx) env;
          env = hm_insert ''EKA_IS_FOD'' (if hc_is_fod ctx then ''true'' else ''false'') env;
          env = hm_insert ''EKA_SYSTEM'' (hc_system ctx) env;
          env = (case hc_pname ctx of Some p \<Rightarrow> hm_insert ''EKA_PNAME'' p env | None \<Rightarrow> env);
          env = hm_insert ''EKA_BUILD_LOG_PATH'' (hc_build_log_path ctx) env;
          env = hm_insert ''EKA_COMMIT_SHA'' (hc_commit_sha ctx) env
      in fold (\<lambda>(k, v). hm_insert k v) (pb_env hook) env)"

fun map_results :: "('a \<Rightarrow> ('e, 'b) result) \<Rightarrow> 'a list \<Rightarrow> ('e, 'b list) result" where
  "map_results f [] = Inr []"
| "map_results f (x # xs) =
     (case f x of Inl e \<Rightarrow> Inl e | Inr y \<Rightarrow> (case map_results f xs of Inl e \<Rightarrow> Inl e | Inr ys \<Rightarrow> Inr (y # ys)))"

section \<open>Execution\<close>

datatype HookOutcome = HookNotSpawned string | HookTimedOut | HookWaitFailed string | HookExited "int option" bool string string

text \<open>What a process started with these arguments and this environment does, whether a directory can be made
  and a log written, and the clock before and after.\<close>

record HookEnv =
  he_mkdir :: "string \<Rightarrow> (anyhow, unit) result"
  he_run :: "string list \<Rightarrow> (string \<times> string) list \<Rightarrow> HookOutcome"
  he_write :: "string \<Rightarrow> string \<Rightarrow> (anyhow, unit) result"
  he_started :: int
  he_completed :: int
  he_max_timeout :: nat
  he_logs_dir :: string

record HookState =
  hk_started :: "(string list \<times> (string \<times> string) list) list"
  hk_results :: "HookResult list"

definition hook_argv :: "string list \<Rightarrow> (string \<times> string) list \<Rightarrow> (anyhow, string list) result" where
  "hook_argv command env =
     (if command = [] then Inl ''Hook command is empty''
      else case map_results (validate_env_key \<circ> fst) env of
             Inl e \<Rightarrow> Inl (''invalid hook env key: '' @ e)
           | Inr _ \<Rightarrow> map_results (\<lambda>arg. expand_vars arg (map_of env)) command)"

definition run_hook_command ::
  "HookEnv \<Rightarrow> string list \<Rightarrow> (string \<times> string) list \<Rightarrow> string \<Rightarrow> HookState \<Rightarrow> HookState \<times> (anyhow, int option \<times> bool) result" where
  "run_hook_command H command env log_path s =
     (case hook_argv command env of
        Inl e \<Rightarrow> (s, Inl e)
      | Inr expanded \<Rightarrow>
          (let s = s\<lparr>hk_started := hk_started s @ [(expanded, env)]\<rparr> in
           case he_run H expanded env of
             HookNotSpawned e \<Rightarrow> (s, Inl (''failed to spawn hook command: '' @ e))
           | HookTimedOut \<Rightarrow> (s, Inl (''Hook execution timed out after '' @ display_nat (he_max_timeout H) @ '' seconds''))
           | HookWaitFailed e \<Rightarrow> (s, Inl (''failed to execute hook command: '' @ e))
           | HookExited code ok out err \<Rightarrow>
               (case he_write H log_path (''=== STDOUT ==='' @ nl @ out @ nl @ ''=== STDERR ==='' @ nl @ err) of
                  Inl e \<Rightarrow> (s, Inl e)
                | Inr _ \<Rightarrow> (s, Inr (code, ok)))))"

definition execute_hook :: "HookEnv \<Rightarrow> PostBuildHook \<Rightarrow> HookTask \<Rightarrow> HookState \<Rightarrow> HookState \<times> (anyhow, HookResult) result" where
  "execute_hook H hook task s =
     (let log_dir = hook_log_dir (he_logs_dir H) (ht_drv_path task) in
      case he_mkdir H log_dir of
        Inl e \<Rightarrow> (s, Inl (''failed to create log directory: '' @ e))
      | Inr _ \<Rightarrow>
          (let log_path = path_join log_dir (''hook-'' @ pb_name hook @ ''.log'');
               env = build_hook_env (ht_context task) (ht_drv_path task) (ht_out_paths task) hook
           in case run_hook_command H (pb_command hook) env log_path s of
                (s', Inl e) \<Rightarrow> (s', Inl e)
              | (s', Inr (code, ok)) \<Rightarrow>
                  (s', Inr \<lparr> hr_hook_name = pb_name hook, hr_exit_code = code, hr_success = ok, hr_log_path = log_path,
                     hr_drv_path = ht_drv_path task, hr_started_at = he_started H, hr_completed_at = he_completed H \<rparr>)))"

text \<open>A failed hook is logged and the next one runs; a closed result channel is logged too.\<close>

fun handle_hooks :: "HookEnv \<Rightarrow> HookTask \<Rightarrow> PostBuildHook list \<Rightarrow> HookState \<Rightarrow> HookState" where
  "handle_hooks H task [] s = s"
| "handle_hooks H task (hook # hooks) s =
     handle_hooks H task hooks
       (case execute_hook H hook task s of
          (s', Inr r) \<Rightarrow> (if ht_result_sender task = Some True then s'\<lparr>hk_results := hk_results s' @ [r]\<rparr> else s')
        | (s', Inl _) \<Rightarrow> s')"

definition handle_hook_task :: "HookEnv \<Rightarrow> HookTask \<Rightarrow> HookState \<Rightarrow> HookState" where
  "handle_hook_task H task s = handle_hooks H task (ht_hooks task) s"

section \<open>Pushing to caches\<close>

datatype CacheType = NixCopy | Cachix | Attic

record CacheConfig =
  ca_id :: string
  ca_cache_type :: CacheType
  ca_destination :: string
  ca_credentials :: "(anyhow, (string \<times> string) list) result"
  ca_permissions :: PermissionRules

fun push_command :: "CacheType \<Rightarrow> string \<Rightarrow> string list" where
  "push_command NixCopy dest = [''nix'', ''copy'', ''--to'', dest, ''$OUT_PATHS'']"
| "push_command Cachix dest = [''cachix'', ''push'', dest, ''$OUT_PATHS'']"
| "push_command Attic dest = [''attic'', ''push'', dest, ''$OUT_PATHS'']"

definition build_cache_push_hook :: "CacheConfig \<Rightarrow> (anyhow, PostBuildHook) result" where
  "build_cache_push_hook c =
     (case ca_credentials c of
        Inl e \<Rightarrow> Inl e
      | Inr credentials \<Rightarrow>
          Inr \<lparr> pb_name = ''push-'' @ ca_id c, pb_command = push_command (ca_cache_type c) (ca_destination c), pb_env = credentials \<rparr>)"

definition cache_hook :: "(string \<rightharpoonup> CacheConfig) \<Rightarrow> PermissionContext \<Rightarrow> string \<Rightarrow> PostBuildHook list" where
  "cache_hook caches ctx cache_id =
     (case caches cache_id of
        None \<Rightarrow> []
      | Some c \<Rightarrow>
          (case check_cache_permission (ca_id c) (ca_permissions c) ctx of
             Inl _ \<Rightarrow> []
           | Inr _ \<Rightarrow> (case build_cache_push_hook c of Inr hook \<Rightarrow> [hook] | Inl _ \<Rightarrow> [])))"

text \<open>The recorder: the queue of the hook executor, if there is one, the registry of caches, and what \<open>serde_json\<close>
  and \<open>nix\<close> answer.\<close>

record HookRecorder =
  hw_hook_sender :: "bool option"
  hw_caches :: "string \<rightharpoonup> CacheConfig"
  hw_parse_job :: "string \<Rightarrow> (anyhow, Job) result"
  hw_outputs :: "string \<Rightarrow> (anyhow, string list) result"

definition hook_out_paths :: "HookRecorder \<Rightarrow> DrvId \<Rightarrow> string list" where
  "hook_out_paths W drv_id =
     (case hw_outputs W (store_path drv_id) of
        Inr outs \<Rightarrow> if outs \<noteq> [] then outs else [store_path drv_id]
      | Inl _ \<Rightarrow> [store_path drv_id])"

definition execute_hooks_for_drv :: "HookRecorder \<Rightarrow> JobsetDb \<Rightarrow> DrvId \<Rightarrow> HookTask list \<Rightarrow> HookTask list \<times> (anyhow, unit) result" where
  "execute_hooks_for_drv W db drv_id queue =
     (case hw_hook_sender W of
        None \<Rightarrow> (queue, Inr ())
      | Some open_rx \<Rightarrow>
     (case get_job_config_for_drv drv_id db of
        None \<Rightarrow> (queue, Inr ())
      | Some config_json \<Rightarrow>
     (case hw_parse_job W config_json of
        Inl e \<Rightarrow> (queue, Inl e)
      | Inr job \<Rightarrow>
     if j_caches job = [] then (queue, Inr ()) else
     (case q_get_drv drv_id (jb_tables db) of
        None \<Rightarrow> (queue, Inl (''Drv not found: '' @ store_path drv_id))
      | Some d \<Rightarrow>
     (case jobs_of_drv drv_id db of
        [] \<Rightarrow> (queue, Inl ''No job info found for drv'')
      | job_info # _ \<Rightarrow>
     (case get_jobset_by_id (jt_jobset job_info) db of
        None \<Rightarrow> (queue, Inl ''Jobset not found'')
      | Some js \<Rightarrow>
          (let ctx = \<lparr> pc_repo_owner = jst_owner js, pc_repo_name = jst_repo_name js, pc_branch = None \<rparr>;
               hooks = concat (map (cache_hook (hw_caches W) ctx) (j_caches job))
           in if hooks = [] then (queue, Inr ())
              else if \<not> open_rx then (queue, Inl ''channel closed'')
              else (queue @ [\<lparr> ht_drv_path = store_path drv_id, ht_out_paths = hook_out_paths W drv_id, ht_hooks = hooks,
                      ht_context = \<lparr> hc_job_name = jt_name job_info, hc_is_fod = ld_is_fod d, hc_system = ld_system d,
                        hc_pname = ld_pname d, hc_build_log_path = ''logs/'' @ store_path drv_id @ ''/build.log'', hc_commit_sha = jst_sha js \<rparr>,
                      ht_result_sender = Some True \<rparr>], Inr ()))))))))"

text \<open>The table of results: its column \<open>drv_path\<close> refers to the table of drvs.\<close>

definition insert_hook_execution :: "Database \<Rightarrow> HookResult \<Rightarrow> HookResult list \<Rightarrow> (anyhow, HookResult list) result" where
  "insert_hook_execution tables r rows =
     (if hr_drv_path r \<in> ld_drv_path ` set (drv_rows tables) then Inr (rows @ [r]) else Inl constraint_error)"

fun store_results :: "Database \<Rightarrow> HookResult list \<Rightarrow> HookResult list \<Rightarrow> HookResult list" where
  "store_results tables [] rows = rows"
| "store_results tables (r # rs) rows =
     store_results tables rs (case insert_hook_execution tables r rows of Inr rows' \<Rightarrow> rows' | Inl _ \<Rightarrow> rows)"

definition get_hook_executions_for_drv :: "string \<Rightarrow> HookResult list \<Rightarrow> HookResult list" where
  "get_hook_executions_for_drv drv rows =
     rev (sort_key hr_started_at (filter (\<lambda>r. hr_drv_path r = drv) rows))"

end
