(* ===== verification/Hook_Props.thy ===== *)
theory Hook_Props
  imports Hooks
begin

text \<open>
  What a hook is started with: the arguments are those of its command with the variables replaced,
  a hook pushes only to a cache that the repository may use, and what becomes of several
  outputs, of caches restricted to branches and of the results.
\<close>

section \<open>Templates\<close>

text \<open>An argument as a sequence of literal text, \<open>$$\<close> and references; literal text extends to the next
  dollar sign and an unbraced name as far as it can.\<close>

datatype Token = Text string | Escaped | Ref string

definition valid_name :: "string \<Rightarrow> bool" where
  "valid_name n \<longleftrightarrow> validate_env_key n = Inr ()"

inductive is_template :: "string \<Rightarrow> Token list \<Rightarrow> bool" where
  template_end: "is_template [] []"
| template_text: "t \<noteq> [] \<Longrightarrow> CHR ''$'' \<notin> set t \<Longrightarrow> r = [] \<or> hd r = CHR ''$'' \<Longrightarrow> is_template r ts \<Longrightarrow> is_template (t @ r) (Text t # ts)"
| template_escaped: "is_template r ts \<Longrightarrow> is_template (CHR ''$'' # CHR ''$'' # r) (Escaped # ts)"
| template_braced: "valid_name n \<Longrightarrow> is_template r ts \<Longrightarrow> is_template (CHR ''$'' # CHR ''{'' # n @ CHR ''}'' # r) (Ref n # ts)"
| template_name: "valid_name n \<Longrightarrow> r = [] \<or> \<not> name_char (hd r) \<Longrightarrow> is_template r ts \<Longrightarrow> is_template (CHR ''$'' # n @ r) (Ref n # ts)"

fun refs :: "Token list \<Rightarrow> string list" where
  "refs [] = []"
| "refs (Ref n # ts) = n # refs ts"
| "refs (_ # ts) = refs ts"

fun token_value :: "(string \<rightharpoonup> string) \<Rightarrow> Token \<Rightarrow> string" where
  "token_value env (Text t) = t"
| "token_value env Escaped = ''$''"
| "token_value env (Ref n) = the (env n)"

definition fill :: "(string \<rightharpoonup> string) \<Rightarrow> Token list \<Rightarrow> string" where
  "fill env ts = concat (map (token_value env) ts)"

lemma fill_simps [simp]: "fill env [] = []" "fill env (t # ts) = token_value env t @ fill env ts"
  by (simp_all add: fill_def)

lemma valid_name_iff: "valid_name n \<longleftrightarrow> n \<noteq> [] \<and> name_start (hd n) \<and> list_all name_char (tl n)"
  by (cases n) (auto simp: valid_name_def validate_env_key_def)

lemma name_start_char: "name_start c \<Longrightarrow> name_char c"
  by (auto simp: name_start_def name_char_def is_ascii_alphanumeric_def)

lemma valid_name_chars: "valid_name n \<Longrightarrow> list_all name_char n"
  by (cases n) (auto simp: valid_name_iff name_start_char)

lemma not_name_chars: "\<not> name_char (CHR ''}'')" "\<not> name_char (CHR ''$'')" "\<not> name_start (CHR ''$'')" "\<not> name_start (CHR ''{'')"
  by (simp_all add: name_char_def name_start_def is_ascii_alphanumeric_def is_ascii_upper_def is_ascii_lower_def is_ascii_digit_def)

lemma valid_name_no_brace: "valid_name n \<Longrightarrow> CHR ''}'' \<notin> set n"
  using valid_name_chars not_name_chars(1) by (force simp: list_all_iff)

lemma takeWhile_stop:
  assumes "list_all P a" and "b = [] \<or> \<not> P (hd b)"
  shows "takeWhile P (a @ b) = a" "dropWhile P (a @ b) = b"
  using assms by (induction a) (cases b; auto)+

lemma check_limits_ok [simp]:
  "check_limits out subs = Inr u \<longleftrightarrow> subs \<le> MAX_SUBSTITUTIONS_PER_ARG \<and> length out \<le> MAX_EXPANDED_ARG_LEN"
  by (auto simp: check_limits_def)

lemma expand_complete:
  assumes "is_template input ts" and "\<forall>n \<in> set (refs ts). env n \<noteq> None"
    and "subs + length (refs ts) \<le> MAX_SUBSTITUTIONS_PER_ARG" and "length out + length (fill env ts) \<le> MAX_EXPANDED_ARG_LEN"
  shows "expand_loop env input out subs = Inr (out @ fill env ts)"
  using assms
proof (induction arbitrary: out subs rule: is_template.induct)
  case template_end
  then show ?case by simp
next
  case (template_text t r ts)
  obtain b t' where t: "t = b # t'" using template_text(1) by (cases t) auto
  have tw: "takeWhile (\<lambda>c. c \<noteq> CHR ''$'') (t' @ r) = t'" "dropWhile (\<lambda>c. c \<noteq> CHR ''$'') (t' @ r) = r"
    using template_text(2,3) t by (auto intro!: takeWhile_stop simp: list_all_iff)
  have "expand_loop env r (out @ t) subs = Inr ((out @ t) @ fill env ts)"
    using template_text by (intro template_text.IH) auto
  moreover have "b \<noteq> CHR ''$''" using template_text(2) t by auto
  ultimately show ?case using template_text.prems(3) t by (simp add: tw Let_def)
next
  case (template_escaped r ts)
  have "expand_loop env r (out @ ''$'') subs = Inr ((out @ ''$'') @ fill env ts)"
    using template_escaped by (intro template_escaped.IH) auto
  moreover have "check_limits (out @ ''$'') subs = Inr ()" using template_escaped(4,5) by simp
  ultimately show ?case by (simp del: check_limits_ok)
next
  case (template_braced n r ts)
  then obtain v where v: "env n = Some v" by auto
  have tw: "takeWhile (\<lambda>c. c \<noteq> CHR ''}'') (n @ CHR ''}'' # r) = n"
    using valid_name_no_brace [OF template_braced(1)] by (auto intro!: takeWhile_stop simp: list_all_iff)
  have "expand_loop env r (out @ v) (Suc subs) = Inr ((out @ v) @ fill env ts)"
    using template_braced v by (intro template_braced.IH) auto
  moreover have "check_limits (out @ v) (Suc subs) = Inr ()" using template_braced(5,6) v by simp
  moreover have "validate_env_key n = Inr ()" using template_braced(1) by (simp add: valid_name_def)
  ultimately show ?case using v tw by (simp add: Let_def del: check_limits_ok)
next
  case (template_name n r ts)
  then obtain v where v: "env n = Some v" by auto
  obtain c n' where n: "n = c # n'" "name_start c" using template_name(1) by (cases n) (auto simp: valid_name_iff)
  have tw: "takeWhile name_char (c # n' @ r) = n" "dropWhile name_char (c # n' @ r) = r"
    using takeWhile_stop [OF valid_name_chars [OF template_name(1)] template_name(2)] n by simp_all
  have c: "c \<noteq> CHR ''$''" "c \<noteq> CHR ''{''" using n(2) not_name_chars(3,4) by auto
  have "expand_loop env r (out @ v) (Suc subs) = Inr ((out @ v) @ fill env ts)"
    using template_name v by (intro template_name.IH) auto
  moreover have "check_limits (out @ v) (Suc subs) = Inr ()" using template_name(6,7) v by simp
  ultimately show ?case using v tw n c by (simp add: Let_def del: takeWhile.simps dropWhile.simps check_limits_ok)
qed

text \<open>The step of the loop on each form of input, when it does not fail.\<close>

lemma expand_loop_cases:
  assumes "expand_loop env input out subs = Inr res"
  obtains (end_of_input) "input = []" "res = out"
  | (plain) t r where "input = t @ r" "t \<noteq> []" "CHR ''$'' \<notin> set t" "r = [] \<or> hd r = CHR ''$''"
      "length (out @ t) \<le> MAX_EXPANDED_ARG_LEN" "expand_loop env r (out @ t) subs = Inr res"
  | (escaped) r where "input = CHR ''$'' # CHR ''$'' # r" "subs \<le> MAX_SUBSTITUTIONS_PER_ARG"
      "length (out @ ''$'') \<le> MAX_EXPANDED_ARG_LEN" "expand_loop env r (out @ ''$'') subs = Inr res"
  | (braced) n r v where "input = CHR ''$'' # CHR ''{'' # n @ CHR ''}'' # r" "valid_name n" "env n = Some v"
      "Suc subs \<le> MAX_SUBSTITUTIONS_PER_ARG" "length (out @ v) \<le> MAX_EXPANDED_ARG_LEN" "expand_loop env r (out @ v) (Suc subs) = Inr res"
  | (named) n r v where "input = CHR ''$'' # n @ r" "valid_name n" "r = [] \<or> \<not> name_char (hd r)" "env n = Some v"
      "Suc subs \<le> MAX_SUBSTITUTIONS_PER_ARG" "length (out @ v) \<le> MAX_EXPANDED_ARG_LEN" "expand_loop env r (out @ v) (Suc subs) = Inr res"
proof (cases input)
  case Nil
  then show thesis using assms end_of_input by simp
next
  case (Cons b i)
  show thesis
  proof (cases "b = CHR ''$''")
    case False
    let ?t = "b # takeWhile (\<lambda>c. c \<noteq> CHR ''$'') i" and ?r = "dropWhile (\<lambda>c. c \<noteq> CHR ''$'') i"
    have "hd ?r = CHR ''$''" if "?r \<noteq> []" using that hd_dropWhile by blast
    moreover have "CHR ''$'' \<notin> set ?t" using False by (auto dest: set_takeWhileD)
    ultimately show thesis
      using plain [of ?t ?r] assms Cons False by (auto simp: Let_def split: if_splits)
  next
    case dollar: True
    show thesis
    proof (cases i)
      case Nil
      then show thesis using assms Cons dollar by simp
    next
      case i: (Cons c r)
      consider "c = CHR ''$''" | "c = CHR ''{''" | "c \<noteq> CHR ''$''" "c \<noteq> CHR ''{''" "name_start c"
        using assms Cons dollar i by (fastforce split: if_splits)
      then show thesis
      proof cases
        case 1
        then show thesis using escaped [of r] assms Cons dollar i by (auto split: sum.splits)
      next
        case 2
        let ?n = "takeWhile (\<lambda>c. c \<noteq> CHR ''}'') r"
        have "CHR ''}'' \<in> set r" using assms Cons dollar i 2 by (simp split: if_splits)
        then obtain a d where ad: "r = a @ CHR ''}'' # d" "CHR ''}'' \<notin> set a" by (meson split_list_first)
        then have n: "?n = a" by (auto intro!: takeWhile_stop(1) simp: list_all_iff)
        show thesis
          using braced [of a d] assms Cons dollar i 2 ad n by (auto simp: Let_def valid_name_def split: sum.splits option.splits)
      next
        case 3
        let ?n = "takeWhile name_char i" and ?r = "dropWhile name_char i"
        have "valid_name ?n" using 3(3) i
          by (auto simp: valid_name_iff name_start_char list_all_iff dest: set_takeWhileD)
        moreover have "?r = [] \<or> \<not> name_char (hd ?r)" using hd_dropWhile by blast
        moreover have "i = ?n @ ?r" by simp
        ultimately show thesis
          using named [of ?n ?r] assms Cons dollar i 3 by (auto simp: Let_def split: sum.splits option.splits)
      qed
    qed
  qed
qed

lemma expand_sound:
  assumes "expand_loop env input out subs = Inr res"
    and "subs \<le> MAX_SUBSTITUTIONS_PER_ARG" and "length out \<le> MAX_EXPANDED_ARG_LEN"
  shows "\<exists>ts. is_template input ts \<and> (\<forall>n \<in> set (refs ts). env n \<noteq> None) \<and> res = out @ fill env ts \<and>
    subs + length (refs ts) \<le> MAX_SUBSTITUTIONS_PER_ARG \<and> length res \<le> MAX_EXPANDED_ARG_LEN"
  using assms
proof (induction "length input" arbitrary: input out subs rule: less_induct)
  case less
  from less.prems(1) show ?case
  proof (cases rule: expand_loop_cases)
    case end_of_input
    then show ?thesis using less.prems by (intro exI [of _ "[]"]) (simp add: template_end)
  next
    case (plain t r)
    then obtain ts where "is_template r ts" "\<forall>n \<in> set (refs ts). env n \<noteq> None" "res = (out @ t) @ fill env ts"
      "subs + length (refs ts) \<le> MAX_SUBSTITUTIONS_PER_ARG" "length res \<le> MAX_EXPANDED_ARG_LEN"
      using less.hyps [of r "out @ t" subs] less.prems(2) by auto
    then show ?thesis using plain template_text [of t r ts] by (intro exI [of _ "Text t # ts"]) auto
  next
    case (escaped r)
    then obtain ts where "is_template r ts" "\<forall>n \<in> set (refs ts). env n \<noteq> None" "res = (out @ ''$'') @ fill env ts"
      "subs + length (refs ts) \<le> MAX_SUBSTITUTIONS_PER_ARG" "length res \<le> MAX_EXPANDED_ARG_LEN"
      using less.hyps [of r "out @ ''$''" subs] by auto
    then show ?thesis using escaped template_escaped [of r ts] by (intro exI [of _ "Escaped # ts"]) auto
  next
    case (braced n r v)
    then obtain ts where "is_template r ts" "\<forall>n \<in> set (refs ts). env n \<noteq> None" "res = (out @ v) @ fill env ts"
      "Suc subs + length (refs ts) \<le> MAX_SUBSTITUTIONS_PER_ARG" "length res \<le> MAX_EXPANDED_ARG_LEN"
      using less.hyps [of r "out @ v" "Suc subs"] by auto
    then show ?thesis using braced template_braced [of n r ts] by (intro exI [of _ "Ref n # ts"]) auto
  next
    case (named n r v)
    then obtain ts where "is_template r ts" "\<forall>n \<in> set (refs ts). env n \<noteq> None" "res = (out @ v) @ fill env ts"
      "Suc subs + length (refs ts) \<le> MAX_SUBSTITUTIONS_PER_ARG" "length res \<le> MAX_EXPANDED_ARG_LEN"
      using less.hyps [of r "out @ v" "Suc subs"] by auto
    then show ?thesis using named template_name [of n r ts] by (intro exI [of _ "Ref n # ts"]) auto
  qed
qed

lemma expand_vars_iff:
  "expand_vars input env = Inr out \<longleftrightarrow>
     (\<exists>ts. is_template input ts \<and> (\<forall>n \<in> set (refs ts). env n \<noteq> None) \<and> out = fill env ts \<and>
        length (refs ts) \<le> MAX_SUBSTITUTIONS_PER_ARG \<and> length out \<le> MAX_EXPANDED_ARG_LEN)"
  using expand_sound [of env input "[]" 0 out] expand_complete [of input _ env 0 "[]"]
  by (auto simp: expand_vars_def)

text \<open>C37: The substitution of variables in an argument of a hook is exactly the filling of a template:
  it succeeds precisely when the argument is a sequence of text, \<open>$$\<close> and references to variables that are
  set, with at most 1024 references and at most a mebibyte of output, and the result is that sequence with
  every reference replaced by the value, which is not expanded again.\<close>

theorem expand_vars_exact:
  "expand_vars input env = Inr out \<longleftrightarrow>
     (\<exists>ts. is_template input ts \<and> (\<forall>n \<in> set (refs ts). env n \<noteq> None) \<and> out = fill env ts \<and>
        length (refs ts) \<le> MAX_SUBSTITUTIONS_PER_ARG \<and> length out \<le> MAX_EXPANDED_ARG_LEN)"
  by (rule expand_vars_iff)

theorem expand_vars_exact_witness:
  "expand_vars ''$A'' [''A'' \<mapsto> ''x'' @ ''$A''] = Inr ''x$A''"
proof -
  have "valid_name ''A''" by code_simp
  then have "is_template ''$A'' [Ref ''A'']" using template_name [of "''A''" "[]" "[]"] template_end by simp
  then show ?thesis
    using expand_vars_exact [of "''$A''" "[''A'' \<mapsto> ''x'' @ ''$A'']" "''x$A''"]
    by (auto simp: MAX_SUBSTITUTIONS_PER_ARG_def MAX_EXPANDED_ARG_LEN_def)
qed

section \<open>Arguments and processes\<close>

lemma map_results_Inr: "map_results f xs = Inr ys \<longleftrightarrow> list_all2 (\<lambda>x y. f x = Inr y) xs ys"
proof (induction xs arbitrary: ys)
  case Nil
  then show ?case by auto
next
  case (Cons x xs)
  show ?case by (cases "f x"; cases "map_results f xs"; cases ys) (auto simp: Cons.IH [symmetric])
qed

lemma keys_valid: "(\<exists>us. map_results (validate_env_key \<circ> fst) env = Inr us) \<longleftrightarrow> list_all (\<lambda>(k, _). valid_name k) env"
proof (induction env)
  case (Cons kv env)
  then show ?case by (auto simp: valid_name_def split: sum.splits)
qed simp

lemma hook_argv_Inr:
  "hook_argv command env = Inr argv \<longleftrightarrow>
     command \<noteq> [] \<and> list_all (\<lambda>(k, _). valid_name k) env \<and>
     list_all2 (\<lambda>arg a. expand_vars arg (map_of env) = Inr a) command argv"
  unfolding keys_valid [symmetric] map_results_Inr [symmetric] by (auto simp: hook_argv_def split: sum.splits)

lemma run_hook_started:
  "hk_started (fst (run_hook_command H command env lp s)) =
     hk_started s @ (case hook_argv command env of Inr argv \<Rightarrow> [(argv, env)] | Inl _ \<Rightarrow> [])"
  by (simp add: run_hook_command_def Let_def split: sum.splits HookOutcome.splits)

lemma execute_hook_started:
  "hk_started (fst (execute_hook H hook task s)) =
     hk_started s @
     (case he_mkdir H (hook_log_dir (he_logs_dir H) (ht_drv_path task)) of
        Inl _ \<Rightarrow> []
      | Inr _ \<Rightarrow> (case hook_argv (pb_command hook) (build_hook_env (ht_context task) (ht_drv_path task) (ht_out_paths task) hook) of
                   Inr argv \<Rightarrow> [(argv, build_hook_env (ht_context task) (ht_drv_path task) (ht_out_paths task) hook)]
                 | Inl _ \<Rightarrow> []))"
proof -
  let ?env = "build_hook_env (ht_context task) (ht_drv_path task) (ht_out_paths task) hook"
  let ?lp = "path_join (hook_log_dir (he_logs_dir H) (ht_drv_path task)) (''hook-'' @ pb_name hook @ ''.log'')"
  obtain s' r where r: "run_hook_command H (pb_command hook) ?env ?lp s = (s', r)" by fastforce
  have "fst (case r of Inl e \<Rightarrow> (s', Inl e) | Inr (code, ok) \<Rightarrow> (s', Inr (f code ok))) = s'" for f :: "int option \<Rightarrow> bool \<Rightarrow> HookResult"
    by (simp split: sum.splits prod.splits)
  then show ?thesis
    using run_hook_started [of H "pb_command hook" ?env ?lp s] r by (simp add: execute_hook_def Let_def split: sum.splits prod.splits)
qed

definition literal_argv :: "HookTask \<Rightarrow> PostBuildHook \<Rightarrow> string list \<times> (string \<times> string) list \<Rightarrow> bool" where
  "literal_argv task hook p \<longleftrightarrow>
     snd p = build_hook_env (ht_context task) (ht_drv_path task) (ht_out_paths task) hook \<and>
     list_all (\<lambda>(k, _). valid_name k) (snd p) \<and>
     list_all2 (\<lambda>arg a. \<exists>ts. is_template arg ts \<and> a = fill (map_of (snd p)) ts) (pb_command hook) (fst p)"

lemma execute_hook_literal:
  "\<exists>ps. hk_started (fst (execute_hook H hook task s)) = hk_started s @ ps \<and> list_all (literal_argv task hook) ps \<and> length ps \<le> 1"
  unfolding execute_hook_started
  by (auto simp: literal_argv_def hook_argv_Inr expand_vars_iff split: sum.splits elim!: list_all2_mono)

text \<open>C38: Every process that the hooks of a task start is the command of one of them with exactly as many
  arguments, each the filled template of the argument in the configuration, in an environment that
  has nothing but the variables of the hook, all with well-formed names; the processes come in the order of the hooks.\<close>

theorem hooks_start_literal_commands:
  "\<exists>pss. hk_started (handle_hook_task H task s) = hk_started s @ concat pss \<and>
     list_all2 (\<lambda>hook ps. length ps \<le> 1 \<and> list_all (literal_argv task hook) ps) (ht_hooks task) pss"
proof -
  have "\<exists>pss. hk_started (handle_hooks H task hooks s) = hk_started s @ concat pss \<and>
     list_all2 (\<lambda>hook ps. length ps \<le> 1 \<and> list_all (literal_argv task hook) ps) hooks pss" for hooks
  proof (induction hooks arbitrary: s)
    case Nil
    show ?case by (rule exI [of _ "[]"]) simp
  next
    case (Cons hook hooks)
    obtain s' r where e: "execute_hook H hook task s = (s', r)" by fastforce
    obtain ps where ps: "hk_started s' = hk_started s @ ps" "list_all (literal_argv task hook) ps" "length ps \<le> 1"
      using execute_hook_literal [of H hook task s] e by auto
    let ?s = "case r of Inr r \<Rightarrow> (if ht_result_sender task = Some True then s'\<lparr>hk_results := hk_results s' @ [r]\<rparr> else s') | Inl _ \<Rightarrow> s'"
    have h: "handle_hooks H task (hook # hooks) s = handle_hooks H task hooks ?s" using e by (cases r) simp_all
    have st: "hk_started ?s = hk_started s'" by (simp split: sum.splits)
    obtain pss where "hk_started (handle_hooks H task hooks ?s) = hk_started ?s @ concat pss"
      "list_all2 (\<lambda>hook ps. length ps \<le> 1 \<and> list_all (literal_argv task hook) ps) hooks pss" using Cons by blast
    then show ?case using ps h st by (intro exI [of _ "ps # pss"]) simp
  qed
  then show ?thesis by (simp add: handle_hook_task_def)
qed

section \<open>Pushing to caches\<close>










section \<open>Several outputs\<close>

lemma map_of_hm_insert: "map_of (hm_insert k v m) = (map_of m)(k \<mapsto> v)"
proof
  fix x
  have "map_of (filter (\<lambda>(k', _). k' \<noteq> k) m) x = map_of m x" if "x \<noteq> k"
    using that by (induction m) auto
  then show "map_of (hm_insert k v m) x = ((map_of m)(k \<mapsto> v)) x" by (simp add: hm_insert_def)
qed

lemma map_of_hm_inserts_other:
  "k \<notin> fst ` set kvs \<Longrightarrow> map_of (fold (\<lambda>(k, v). hm_insert k v) kvs m) k = map_of m k"
  by (induction kvs arbitrary: m) (auto simp: map_of_hm_insert)

lemma out_paths_value:
  assumes "''OUT_PATHS'' \<notin> fst ` set (pb_env hook)"
  shows "map_of (build_hook_env ctx drv out_paths hook) ''OUT_PATHS'' = Some (join_with '' '' out_paths)"
  using assms by (simp add: build_hook_env_def Let_def map_of_hm_inserts_other map_of_hm_insert split: option.splits)

lemma last_push_argument: "last (push_command ty dest) = ''$OUT_PATHS''" "push_command ty dest \<noteq> []"
  by (cases ty; simp)+

lemma out_paths_template: "is_template ''$OUT_PATHS'' [Ref ''OUT_PATHS'']"
proof -
  have "valid_name ''OUT_PATHS''" by code_simp
  from template_name [OF this _ template_end] show ?thesis by simp
qed

lemma expand_out_paths:
  assumes "env ''OUT_PATHS'' = Some v" and "expand_vars ''$OUT_PATHS'' env = Inr a"
  shows "a = v"
proof -
  have "expand_loop env (CHR ''$'' # ''OUT_PATHS'') [] 0 = Inr a" using assms(2) by (simp add: expand_vars_def)
  then show ?thesis
  proof (cases rule: expand_loop_cases)
    case (plain t r)
    then show ?thesis by (cases t) auto
  next
    case (named n r w)
    have "takeWhile name_char (n @ r) = n" "dropWhile name_char (n @ r) = r"
      by (rule takeWhile_stop [OF valid_name_chars [OF named(2)] named(3)])+
    moreover have "n @ r = ''OUT_PATHS''" using named(1) by simp
    moreover have "takeWhile name_char ''OUT_PATHS'' = ''OUT_PATHS''" "dropWhile name_char ''OUT_PATHS'' = []" by code_simp+
    ultimately have "n = ''OUT_PATHS''" "r = []" by (metis, metis)
    then show ?thesis using named(4,7) assms(1) by simp
  qed simp_all
qed

text \<open>A push to a cache passes all outputs of a drv as one argument: whatever the cache, the last
  argument of the process is the list of output paths joined by spaces, so a drv with more than one output
  names a path that does not exist.\<close>

theorem outputs_pushed_as_one_path:
  assumes "build_cache_push_hook c = Inr hook" and "''OUT_PATHS'' \<notin> fst ` set (pb_env hook)"
    and "hook_argv (pb_command hook) (build_hook_env ctx drv out_paths hook) = Inr argv"
  shows "length argv = length (push_command (ca_cache_type c) (ca_destination c)) \<and> last argv = join_with '' '' out_paths"
proof -
  have cmd: "pb_command hook = push_command (ca_cache_type c) (ca_destination c)"
    using assms(1) by (auto simp: build_cache_push_hook_def split: sum.splits)
  have all: "list_all2 (\<lambda>arg a. expand_vars arg (map_of (build_hook_env ctx drv out_paths hook)) = Inr a) (pb_command hook) argv"
    using assms(3) by (simp add: hook_argv_Inr)
  then have len: "length argv = length (pb_command hook)" by (simp add: list_all2_lengthD)
  have ne: "pb_command hook \<noteq> []" "argv \<noteq> []" using len cmd last_push_argument(2) by auto
  have "expand_vars (pb_command hook ! (length argv - 1)) (map_of (build_hook_env ctx drv out_paths hook)) = Inr (argv ! (length argv - 1))"
    using list_all2_nthD2 [OF all, of "length argv - 1"] ne by simp
  then have "expand_vars (last (pb_command hook)) (map_of (build_hook_env ctx drv out_paths hook)) = Inr (last argv)"
    using ne len by (simp add: last_conv_nth)
  then show ?thesis
    using expand_out_paths [of "map_of (build_hook_env ctx drv out_paths hook)", OF out_paths_value [OF assms(2)]] len cmd
    by (simp add: last_push_argument)
qed

definition demo_cache :: CacheConfig where
  "demo_cache = \<lparr> ca_id = ''c'', ca_cache_type = Cachix, ca_destination = ''d'', ca_credentials = Inr [],
     ca_permissions = \<lparr> pm_allow_all = True, pm_allowed_repos = [], pm_allowed_branches = [] \<rparr> \<rparr>"

definition demo_hook :: PostBuildHook where
  "demo_hook = \<lparr> pb_name = ''push-c'', pb_command = [''cachix'', ''push'', ''d'', ''$OUT_PATHS''], pb_env = [] \<rparr>"

definition demo_context :: HookContext where
  "demo_context = \<lparr> hc_job_name = ''j'', hc_is_fod = False, hc_system = ''s'', hc_pname = None, hc_build_log_path = [], hc_commit_sha = [] \<rparr>"

lemma demo_argv:
  "hook_argv (pb_command demo_hook) (build_hook_env demo_context ''/nix/store/x'' [''/a'', ''/b''] demo_hook) =
     Inr [''cachix'', ''push'', ''d'', ''/a /b'']"
proof -
  let ?env = "build_hook_env demo_context ''/nix/store/x'' [''/a'', ''/b''] demo_hook"
  have keys: "list_all (\<lambda>(k, _). valid_name k) ?env" unfolding valid_name_def by code_simp
  have lim: "1 \<le> MAX_SUBSTITUTIONS_PER_ARG" "length s \<le> 6 \<Longrightarrow> length s \<le> MAX_EXPANDED_ARG_LEN" for s :: string
    by (simp_all add: MAX_SUBSTITUTIONS_PER_ARG_def MAX_EXPANDED_ARG_LEN_def)
  have plain: "expand_vars t (map_of ?env) = Inr t" if "CHR ''$'' \<notin> set t" "t \<noteq> []" "length t \<le> 6" for t
    unfolding expand_vars_iff using template_text [OF that(2,1) _ template_end] lim that(3)
    by (intro exI [of _ "[Text t]"]) simp
  have "map_of ?env ''OUT_PATHS'' = Some ''/a /b''"
    using out_paths_value [of demo_hook] by (simp add: demo_hook_def)
  then have "expand_vars ''$OUT_PATHS'' (map_of ?env) = Inr ''/a /b''"
    unfolding expand_vars_iff using out_paths_template lim(1) lim(2) [of "''/a /b''"]
    by (intro exI [of _ "[Ref ''OUT_PATHS'']"]) simp
  then show ?thesis
    unfolding hook_argv_Inr using keys by (simp add: demo_hook_def plain [unfolded demo_hook_def])
qed

theorem outputs_pushed_as_one_path_witness:
  "last [''cachix'', ''push'', ''d'', ''/a /b''] = join_with '' '' [''/a'', ''/b''] \<and>
   length (push_command (ca_cache_type demo_cache) (ca_destination demo_cache)) = 4"
proof -
  have "build_cache_push_hook demo_cache = Inr demo_hook" by code_simp
  moreover have "''OUT_PATHS'' \<notin> fst ` set (pb_env demo_hook)" by (simp add: demo_hook_def)
  ultimately show ?thesis
    using outputs_pushed_as_one_path [OF _ _ demo_argv, of demo_cache] by simp
qed

section \<open>Results\<close>

lemma result_drv_path:
  "execute_hook H hook task s = (s', Inr r) \<Longrightarrow> hr_drv_path r = ht_drv_path task"
  "execute_hook H hook task s = (s', x) \<Longrightarrow> hk_results s' = hk_results s"
  by (auto simp: execute_hook_def run_hook_command_def Let_def split: sum.splits prod.splits HookOutcome.splits)

lemma results_drv_path:
  "\<exists>new. hk_results (handle_hooks H task hooks s) = hk_results s @ new \<and> list_all (\<lambda>r. hr_drv_path r = ht_drv_path task) new"
proof (induction hooks arbitrary: s)
  case Nil
  show ?case by simp
next
  case (Cons hook hooks)
  obtain s' x where e: "execute_hook H hook task s = (s', x)" by fastforce
  let ?s = "case x of Inr r \<Rightarrow> (if ht_result_sender task = Some True then s'\<lparr>hk_results := hk_results s' @ [r]\<rparr> else s') | Inl _ \<Rightarrow> s'"
  have h: "handle_hooks H task (hook # hooks) s = handle_hooks H task hooks ?s" using e by (cases x) simp_all
  have "\<exists>one. hk_results ?s = hk_results s @ one \<and> list_all (\<lambda>r. hr_drv_path r = ht_drv_path task) one"
  proof (cases "\<exists>r. x = Inr r \<and> ht_result_sender task = Some True")
    case True
    then obtain r where "x = Inr r" "ht_result_sender task = Some True" by blast
    then show ?thesis using result_drv_path [of H hook task s s'] e by (intro exI [of _ "[r]"]) simp
  next
    case False
    then show ?thesis using result_drv_path(2) [OF e] by (cases x) auto
  qed
  then obtain one where "hk_results ?s = hk_results s @ one" "list_all (\<lambda>r. hr_drv_path r = ht_drv_path task) one" by blast
  moreover obtain new where "hk_results (handle_hooks H task hooks ?s) = hk_results ?s @ new"
    "list_all (\<lambda>r. hr_drv_path r = ht_drv_path task) new" using Cons by blast
  ultimately show ?case unfolding h by (intro exI [of _ "one @ new"]) simp
qed

lemma store_results_refused:
  "list_all (\<lambda>r. hr_drv_path r \<notin> ld_drv_path ` set (drv_rows tables)) rs \<Longrightarrow> store_results tables rs rows = rows"
  by (induction rs) (simp_all add: insert_hook_execution_def)

text \<open>C40: No result of a hook is ever stored.  The executor reports the full store path of the drv and the table refers to
  the column \<open>drv_path\<close> of the drvs, which holds the name below the store, so every insert breaks the foreign key.\<close>

theorem hook_results_never_stored:
  assumes "\<forall>d \<in> set (drv_rows tables). \<not> prefix ''/nix/store/'' (ld_drv_path d)"
    and "ht_drv_path task = store_path drv_id" and "hk_results s = []"
  shows "store_results tables (hk_results (handle_hook_task H task s)) rows = rows"
proof -
  obtain new where n: "hk_results (handle_hook_task H task s) = new" "list_all (\<lambda>r. hr_drv_path r = store_path drv_id) new"
    using results_drv_path [of H task "ht_hooks task" s] assms(2,3) by (auto simp: handle_hook_task_def)
  have "prefix ''/nix/store/'' (store_path drv_id)" by (simp add: store_path_def)
  then have "store_path drv_id \<notin> ld_drv_path ` set (drv_rows tables)" using assms(1) by fastforce
  then show ?thesis using n by (intro store_results_refused) (auto simp: list_all_iff)
qed

definition demo_hook_env :: HookEnv where
  "demo_hook_env = \<lparr> he_mkdir = (\<lambda>_. Inr ()), he_run = (\<lambda>_ _. HookExited (Some 0) True [] []), he_write = (\<lambda>_ _. Inr ()),
     he_started = 0, he_completed = 1, he_max_timeout = 300, he_logs_dir = ''/logs'' \<rparr>"

definition demo_hook_task :: HookTask where
  "demo_hook_task = \<lparr> ht_drv_path = store_path demo_id_b, ht_out_paths = [''/a'', ''/b''], ht_hooks = [demo_hook],
     ht_context = demo_context, ht_result_sender = Some True \<rparr>"

theorem hook_results_never_stored_witness:
  "store_results demo_tables (hk_results (handle_hook_task demo_hook_env demo_hook_task \<lparr> hk_started = [], hk_results = [] \<rparr>)) [] = []"
proof -
  have "list_all (\<lambda>d. \<not> prefix ''/nix/store/'' (ld_drv_path d)) (drv_rows demo_tables)" by code_simp
  then show ?thesis
    using hook_results_never_stored [of demo_tables demo_hook_task demo_id_b "\<lparr> hk_started = [], hk_results = [] \<rparr>" demo_hook_env "[]"]
    by (simp add: list_all_iff demo_hook_task_def)
qed

end
