(* ===== verification/Sandbox_Net.thy ===== *)
theory Sandbox_Net
  imports Comment_Command Package_Name "HOL-Library.Word"
begin

text \<open>
  The network of a sandbox (\<open>sandbox/src/net\<close>): address ranges, the plan of routes that
  lets a sandboxed command reach some addresses and not others, the arguments that carry the plan from
  the server to its helper, the netlink messages that install it, and the two
  helper processes: \<open>attach\<close>, which keeps the sandbox blocked until its network is filtered, and
  \<open>setup\<close>, which installs the routes inside the sandbox.

  What the kernel and the other processes answer is an argument of the definitions.  An effect on the
  system is an event of the trace that an operation returns beside its result.
\<close>

unbundle bit_operations_syntax

named_theorems net_simps \<open>the operations on addresses and arguments\<close>

section \<open>Text\<close>

text \<open>\<open>to_string_lossy\<close>: every maximal piece that is not UTF-8 becomes U+FFFD.\<close>

definition utf8_need :: "char \<Rightarrow> nat option" where
  "utf8_need c =
     (let b = (of_char c :: nat)
      in if b < 128 then Some 0
         else if 194 \<le> b \<and> b < 224 then Some 1
         else if 224 \<le> b \<and> b < 240 then Some 2
         else if 240 \<le> b \<and> b < 245 then Some 3
         else None)"

definition utf8_second_ok :: "char \<Rightarrow> char \<Rightarrow> bool" where
  "utf8_second_ok c d =
     (let b = (of_char c :: nat); e = (of_char d :: nat)
      in is_continuation d \<and> (b = 224 \<longrightarrow> 160 \<le> e) \<and> (b = 237 \<longrightarrow> e < 160) \<and> (b = 240 \<longrightarrow> 144 \<le> e) \<and> (b = 244 \<longrightarrow> e < 144))"

definition utf8_taken :: "char \<Rightarrow> string \<Rightarrow> nat" where
  "utf8_taken c s =
     (case utf8_need c of
        None \<Rightarrow> 0
      | Some k \<Rightarrow>
          if k = 0 \<or> s = [] \<or> \<not> utf8_second_ok c (hd s) then 0
          else 1 + length (takeWhile is_continuation (take (k - 1) (tl s))))"

function to_string_lossy :: "string \<Rightarrow> string" where
  "to_string_lossy [] = []"
| "to_string_lossy (c # s) =
     (let n = utf8_taken c s
      in (if utf8_need c = Some n then c # take n s else [CHR 0xEF, CHR 0xBF, CHR 0xBD]) @ to_string_lossy (drop n s))"
  by pat_completeness auto
termination by (relation "measure length") auto

text \<open>\<open>str::parse\<close> for an unsigned number up to a bound: one \<open>+\<close> may come before the digits.\<close>

definition dec_value :: "string \<Rightarrow> nat" where
  "dec_value s = foldl (\<lambda>n c. 10 * n + (of_char c - 48)) 0 s"

definition parse_uint :: "nat \<Rightarrow> string \<Rightarrow> nat option" where
  "parse_uint bound s =
     (let digits = (if s \<noteq> [] \<and> hd s = CHR ''+'' then tl s else s)
      in if digits \<noteq> [] \<and> list_all is_ascii_digit digits \<and> dec_value digits \<le> bound then Some (dec_value digits) else None)"

section \<open>Addresses\<close>

type_synonym Ipv4Addr = "32 word"

definition ipv4_new :: "nat \<Rightarrow> nat \<Rightarrow> nat \<Rightarrow> nat \<Rightarrow> Ipv4Addr" where
  "ipv4_new a b c d = of_nat (((a * 256 + b) * 256 + c) * 256 + d)"

definition octets :: "Ipv4Addr \<Rightarrow> nat list" where
  "octets a = (let n = unat a in [n div 16777216, n div 65536 mod 256, n div 256 mod 256, n mod 256])"

definition ipv4_display :: "Ipv4Addr \<Rightarrow> string" where
  "ipv4_display a = join_with ''.'' (map display_nat (octets a))"

text \<open>\<open>Ipv4Addr::from_str\<close>: four numbers of one to three digits, without leading zeros.\<close>

definition parse_octet :: "string \<Rightarrow> nat option" where
  "parse_octet s =
     (if s \<noteq> [] \<and> length s \<le> 3 \<and> list_all is_ascii_digit s \<and> (1 < length s \<longrightarrow> hd s \<noteq> CHR ''0'') \<and> dec_value s \<le> 255
      then Some (dec_value s) else None)"

definition ipv4_parse :: "string \<Rightarrow> Ipv4Addr option" where
  "ipv4_parse s =
     (case map parse_octet (split_on (CHR ''.'') s) of
        [Some a, Some b, Some c, Some d] \<Rightarrow> Some (ipv4_new a b c d)
      | _ \<Rightarrow> None)"

section \<open>Address ranges\<close>

record Ipv4Cidr =
  ci_addr :: Ipv4Addr
  ci_prefix :: "8 word"

definition cidr_mask :: "8 word \<Rightarrow> 32 word" where
  "cidr_mask p =
     (let n = 32 - ucast p :: 32 word
      in if n < 32 then push_bit (unat n) (- 1) else 0)"

definition Ipv4Cidr_new :: "Ipv4Addr \<Rightarrow> 8 word \<Rightarrow> (anyhow, Ipv4Cidr) result" where
  "Ipv4Cidr_new a p =
     (if 32 < p then Inl (''prefix length '' @ display_nat (unat p) @ '' is larger than 32'')
      else if a AND NOT (cidr_mask p) \<noteq> 0 then Inl (ipv4_display a @ ''/'' @ display_nat (unat p) @ '' has host bits set'')
      else Inr \<lparr>ci_addr = a, ci_prefix = p\<rparr>)"

definition Ipv4Cidr_host :: "Ipv4Addr \<Rightarrow> Ipv4Cidr" where
  "Ipv4Cidr_host a = \<lparr>ci_addr = a, ci_prefix = 32\<rparr>"

definition Ipv4Cidr_from_str :: "string \<Rightarrow> (anyhow, Ipv4Cidr) result" where
  "Ipv4Cidr_from_str s =
     (case (case split_once (CHR ''/'') s of
              Some (a, p) \<Rightarrow> (case parse_uint 255 p of None \<Rightarrow> None | Some n \<Rightarrow> Some (a, of_nat n))
            | None \<Rightarrow> Some (s, 32)) of
        None \<Rightarrow> Inl (''bad prefix in '' @ s)
      | Some (a, p) \<Rightarrow>
          (case ipv4_parse a of
             None \<Rightarrow> Inl (s @ '' is not an IPv4 address or CIDR'')
           | Some a' \<Rightarrow> (case Ipv4Cidr_new a' p of Inl e \<Rightarrow> Inl (''invalid CIDR '' @ s @ '': '' @ e) | Inr c \<Rightarrow> Inr c)))"

definition Ipv4Cidr_display :: "Ipv4Cidr \<Rightarrow> string" where
  "Ipv4Cidr_display c = ipv4_display (ci_addr c) @ ''/'' @ display_nat (unat (ci_prefix c))"

definition wf_cidr :: "Ipv4Cidr \<Rightarrow> bool" where
  "wf_cidr c = (Ipv4Cidr_new (ci_addr c) (ci_prefix c) = Inr c)"

definition covers :: "Ipv4Cidr \<Rightarrow> Ipv4Addr \<Rightarrow> bool" where
  "covers c a = (a AND cidr_mask (ci_prefix c) = ci_addr c)"

section \<open>The plan of routes\<close>

datatype Network = NetNone | NetFiltered

record NetworkPolicy =
  np_allow :: "Ipv4Cidr list"
  np_deny :: "Ipv4Cidr list"

definition IFNAME :: string where
  "IFNAME = ''ekaci0''"

definition GUEST_ADDR :: Ipv4Addr where
  "GUEST_ADDR = ipv4_new 192 0 2 2"

definition GATEWAY :: Ipv4Addr where
  "GATEWAY = ipv4_new 192 0 2 1"

definition DNS_ADDR :: Ipv4Addr where
  "DNS_ADDR = ipv4_new 192 0 2 53"

definition RESOLV_FD :: nat where
  "RESOLV_FD = 3"

definition DEFAULT_DENY :: "(Ipv4Addr \<times> 8 word) list" where
  "DEFAULT_DENY =
     [(ipv4_new 0 0 0 0, 8),
      (ipv4_new 10 0 0 0, 8),
      (ipv4_new 100 64 0 0, 10),
      (ipv4_new 169 254 0 0, 16),
      (ipv4_new 172 16 0 0, 12),
      (ipv4_new 192 0 0 0, 24),
      (ipv4_new 192 0 2 0, 24),
      (ipv4_new 192 168 0 0, 16),
      (ipv4_new 198 18 0 0, 15),
      (ipv4_new 198 51 100 0, 24),
      (ipv4_new 203 0 113 0, 24),
      (ipv4_new 224 0 0 0, 4),
      (ipv4_new 240 0 0 0, 4)]"

datatype Route = Unreachable Ipv4Cidr | ViaGateway Ipv4Cidr

text \<open>An \<open>expect\<close> that fails is a panic, \<^const>\<open>None\<close>.\<close>

definition expect_ok :: "('e, 'a) result \<Rightarrow> 'a option" where
  "expect_ok r = (case r of Inl _ \<Rightarrow> None | Inr x \<Rightarrow> Some x)"

definition route_plan :: "NetworkPolicy \<Rightarrow> Ipv4Addr list \<Rightarrow> Route list option" where
  "route_plan policy host_addrs =
     (case those (map (\<lambda>(a, p). expect_ok (Ipv4Cidr_new a p)) DEFAULT_DENY) of
        None \<Rightarrow> None
      | Some defaults \<Rightarrow>
          let plan = map Unreachable (defaults @ map Ipv4Cidr_host host_addrs @ np_deny policy)
          in case expect_ok (Ipv4Cidr_new 0 0) of
               None \<Rightarrow> None
             | Some default_route \<Rightarrow>
                 Some (plan @ [ViaGateway default_route, ViaGateway (Ipv4Cidr_host DNS_ADDR)] @ map ViaGateway (np_allow policy)))"

definition pasta_args :: "string list" where
  "pasta_args =
     [''--config-net'', ''--quiet'', ''--foreground'', ''--ipv4-only'', ''--ns-ifname'', IFNAME,
      ''--address'', ipv4_display GUEST_ADDR, ''--netmask'', ''24'', ''--gateway'', ipv4_display GATEWAY, ''--no-map-gw'',
      ''--dns-forward'', ipv4_display DNS_ADDR, ''--no-dhcp'', ''--tcp-ports'', ''none'', ''--udp-ports'', ''none'',
      ''--tcp-ns'', ''none'', ''--udp-ns'', ''none'']"

section \<open>Arguments of the network helpers\<close>

definition SETUP_FLAG :: string where
  "SETUP_FLAG = ''--net-setup''"

definition ATTACH_FLAG :: string where
  "ATTACH_FLAG = ''--net-attach''"

record NetArgs =
  na_routes :: "Route list"
  na_userns :: "string option"
  na_netns :: "string option"
  na_pasta :: "string option"
  na_command :: "string list"

definition NetArgs_default :: NetArgs where
  "NetArgs_default = \<lparr>na_routes = [], na_userns = None, na_netns = None, na_pasta = None, na_command = []\<rparr>"

definition set_net_flag :: "string \<Rightarrow> string \<Rightarrow> NetArgs \<Rightarrow> (anyhow, NetArgs) result" where
  "set_net_flag flag value out =
     (if flag = ''--unreachable'' then map_sum id (\<lambda>c. out\<lparr>na_routes := na_routes out @ [Unreachable c]\<rparr>) (Ipv4Cidr_from_str value)
      else if flag = ''--via'' then map_sum id (\<lambda>c. out\<lparr>na_routes := na_routes out @ [ViaGateway c]\<rparr>) (Ipv4Cidr_from_str value)
      else if flag = ''--userns'' then Inr (out\<lparr>na_userns := Some value\<rparr>)
      else if flag = ''--netns'' then Inr (out\<lparr>na_netns := Some value\<rparr>)
      else if flag = ''--pasta'' then Inr (out\<lparr>na_pasta := Some value\<rparr>)
      else Inl (''unknown network helper argument `'' @ flag @ ''`''))"

fun net_args_loop :: "NetArgs \<Rightarrow> string list \<Rightarrow> (anyhow, NetArgs) result" where
  "net_args_loop out [] = Inr out"
| "net_args_loop out (flag # it) =
     (if to_string_lossy flag = ''--'' then Inr (out\<lparr>na_command := it\<rparr>)
      else case it of
        [] \<Rightarrow> Inl (''missing value for `'' @ to_string_lossy flag @ ''`'')
      | value # it' \<Rightarrow>
          (case set_net_flag (to_string_lossy flag) (to_string_lossy value) out of
             Inl e \<Rightarrow> Inl e
           | Inr out' \<Rightarrow> net_args_loop out' it'))"

definition net_parse_args :: "string list \<Rightarrow> (anyhow, NetArgs) result" where
  "net_parse_args args = net_args_loop NetArgs_default args"

fun route_arg :: "Route \<Rightarrow> string list" where
  "route_arg (Unreachable c) = [''--unreachable'', Ipv4Cidr_display c]"
| "route_arg (ViaGateway c) = [''--via'', Ipv4Cidr_display c]"

definition route_args :: "Route list \<Rightarrow> string list" where
  "route_args plan = concat (map route_arg plan)"

definition attach_args :: "string \<Rightarrow> Route list \<Rightarrow> string list" where
  "attach_args pasta plan = [ATTACH_FLAG, ''--pasta'', pasta] @ route_args plan"

section \<open>Netlink messages\<close>

text \<open>The byte order of the machine is an argument.\<close>

datatype Endian = LittleEndian | BigEndian

definition in_order :: "Endian \<Rightarrow> 'a list \<Rightarrow> 'a list" where
  "in_order e bs = (case e of LittleEndian \<Rightarrow> bs | BigEndian \<Rightarrow> rev bs)"

definition u32_to_ne_bytes :: "Endian \<Rightarrow> 32 word \<Rightarrow> 8 word list" where
  "u32_to_ne_bytes e w = in_order e [ucast w, ucast (drop_bit 8 w), ucast (drop_bit 16 w), ucast (drop_bit 24 w)]"

definition u16_to_ne_bytes :: "Endian \<Rightarrow> 16 word \<Rightarrow> 8 word list" where
  "u16_to_ne_bytes e w = in_order e [ucast w, ucast (drop_bit 8 w)]"

definition u16_from_ne_bytes :: "Endian \<Rightarrow> 8 word list \<Rightarrow> 16 word" where
  "u16_from_ne_bytes e bs = (case in_order e bs of [a, b] \<Rightarrow> ucast a OR push_bit 8 (ucast b) | _ \<Rightarrow> 0)"

definition i32_from_ne_bytes :: "Endian \<Rightarrow> 8 word list \<Rightarrow> 32 word" where
  "i32_from_ne_bytes e bs =
     (case in_order e bs of
        [a, b, c, d] \<Rightarrow> ucast a OR push_bit 8 (ucast b) OR push_bit 16 (ucast c) OR push_bit 24 (ucast d)
      | _ \<Rightarrow> 0)"

definition addr_bytes :: "Ipv4Addr \<Rightarrow> 8 word list" where
  "addr_bytes a = map of_nat (octets a)"

text \<open>\<open>struct rtmsg\<close>: \<open>AF_INET\<close> is 2, \<open>RT_TABLE_MAIN\<close> 254 and \<open>RTPROT_STATIC\<close> 4.\<close>

definition rtmsg :: "Endian \<Rightarrow> Ipv4Cidr \<Rightarrow> 8 word \<Rightarrow> 8 word \<Rightarrow> 32 word \<Rightarrow> 8 word list" where
  "rtmsg e cidr kind scope flags = [2, ci_prefix cidr, 0, 0, 254, 4, scope, kind] @ u32_to_ne_bytes e flags"

definition push_attr :: "Endian \<Rightarrow> 8 word list \<Rightarrow> 16 word \<Rightarrow> 8 word list \<Rightarrow> 8 word list" where
  "push_attr e out kind data =
     (let len = 4 + length data
      in out @ u16_to_ne_bytes e (of_nat len) @ u16_to_ne_bytes e kind @ data @ replicate ((4 - len mod 4) mod 4) 0)"

text \<open>\<open>RTN_UNREACHABLE\<close> is 7, \<open>RTN_UNICAST\<close> 1, \<open>RT_SCOPE_NOWHERE\<close> 255, \<open>RT_SCOPE_UNIVERSE\<close> 0,
  \<open>RTA_DST\<close> 1, \<open>RTA_OIF\<close> 4, \<open>RTA_GATEWAY\<close> 5, \<open>RTM_NEWROUTE\<close> 24; the flags are
  \<open>REQUEST\<close> 1, \<open>ACK\<close> 4, \<open>REPLACE\<close> 0x100 and \<open>CREATE\<close> 0x400.\<close>

definition RTNH_F_ONLINK :: "32 word" where
  "RTNH_F_ONLINK = 4"

definition NLMSG_HDR_LEN :: nat where
  "NLMSG_HDR_LEN = 16"

definition route_body :: "Endian \<Rightarrow> Route \<Rightarrow> 32 word \<Rightarrow> Ipv4Addr \<Rightarrow> 8 word list" where
  "route_body e route ifindex gw =
     (let (cidr, kind, scope, flags) =
            (case route of
               Unreachable c \<Rightarrow> (c, 7, 255, 0)
             | ViaGateway c \<Rightarrow> (c, 1, 0, RTNH_F_ONLINK));
          body = rtmsg e cidr kind scope flags;
          body = (if 0 < ci_prefix cidr then push_attr e body 1 (addr_bytes (ci_addr cidr)) else body)
      in case route of
           ViaGateway _ \<Rightarrow> push_attr e (push_attr e body 5 (addr_bytes gw)) 4 (u32_to_ne_bytes e ifindex)
         | Unreachable _ \<Rightarrow> body)"

definition route_message :: "Endian \<Rightarrow> Route \<Rightarrow> 32 word \<Rightarrow> Ipv4Addr \<Rightarrow> 32 word \<Rightarrow> 8 word list" where
  "route_message e route ifindex gw sq =
     (let body = route_body e route ifindex gw
      in u32_to_ne_bytes e (of_nat (NLMSG_HDR_LEN + length body)) @ u16_to_ne_bytes e 24
           @ u16_to_ne_bytes e (1 OR 4 OR 0x400 OR 0x100) @ u32_to_ne_bytes e sq @ u32_to_ne_bytes e 0 @ body)"

datatype AckError = MalformedReply | OsError int

definition get_range :: "nat \<Rightarrow> nat \<Rightarrow> 'a list \<Rightarrow> 'a list option" where
  "get_range i j xs = (if j \<le> length xs then Some (take (j - i) (drop i xs)) else None)"

definition parse_ack :: "Endian \<Rightarrow> 8 word list \<Rightarrow> (AckError, unit) result" where
  "parse_ack e reply =
     (case get_range 4 6 reply of
        None \<Rightarrow> Inl MalformedReply
      | Some kind \<Rightarrow>
          if u16_from_ne_bytes e kind \<noteq> 2 then Inl MalformedReply
          else (case get_range 16 20 reply of
                  None \<Rightarrow> Inl MalformedReply
                | Some errno \<Rightarrow>
                    if i32_from_ne_bytes e errno = 0 then Inr () else Inl (OsError (sint (- i32_from_ne_bytes e errno)))))"

section \<open>Traces\<close>

text \<open>An action that fails leaves no event and ends the operation; \<open>trace_then\<close> is \<open>?\<close>.\<close>

type_synonym ('ev, 'a) traced = "'ev list \<times> (anyhow, 'a) result"

definition act :: "('ev \<Rightarrow> (anyhow, unit) result) \<Rightarrow> 'ev \<Rightarrow> ('ev, unit) traced" where
  "act ok ev = (case ok ev of Inr _ \<Rightarrow> ([ev], Inr ()) | Inl e \<Rightarrow> ([], Inl e))"

definition trace_then :: "('ev, 'a) traced \<Rightarrow> ('a \<Rightarrow> ('ev, 'b) traced) \<Rightarrow> ('ev, 'b) traced" where
  "trace_then x f =
     (case snd x of
        Inl e \<Rightarrow> (fst x, Inl e)
      | Inr a \<Rightarrow> (fst x @ fst (f a), snd (f a)))"

section \<open>The setup process\<close>

definition JOINED :: string where
  "JOINED = ''joined''"

definition ROUTED :: string where
  "ROUTED = ''routed''"

definition READY_TIMEOUT :: duration where
  "READY_TIMEOUT = from_secs 20"

datatype SetupEvent =
    OpenNs string
  | SetNsUser
  | SetNsNet
  | Report string
  | OpenNetlink
  | SendRoute "8 word list"
  | RouteAcked Route
  | ReadStdin

text \<open>What the system answers: whether an action succeeds, the reply of the kernel to a netlink
  message, and in every round of \<open>wait_ready\<close> the index of the interface, the contents
  of \<open>/proc/self/net/route\<close> and the time.\<close>

record SetupEnv =
  se_ok :: "SetupEvent \<Rightarrow> (anyhow, unit) result"
  se_reply :: "8 word list \<Rightarrow> (anyhow, 8 word list) result"
  se_endian :: Endian
  se_start :: instant
  se_polls :: "(32 word \<times> string \<times> instant) list"

definition act_in :: "SetupEnv \<Rightarrow> SetupEvent \<Rightarrow> (SetupEvent, unit) traced" where
  "act_in S ev = act (se_ok S) ev"

definition has_default_route :: "string \<Rightarrow> bool" where
  "has_default_route proc_net_route =
     list_ex (\<lambda>l. case split_whitespace l of
                    a # b # _ \<Rightarrow> a = IFNAME \<and> b = ''00000000''
                  | _ \<Rightarrow> False)
       (drop 1 (str_lines proc_net_route))"

text \<open>\<^const>\<open>None\<close>: the process still waits when the observations end.\<close>

fun wait_ready :: "instant \<Rightarrow> (32 word \<times> string \<times> instant) list \<Rightarrow> (anyhow, 32 word) result option" where
  "wait_ready deadline [] = None"
| "wait_ready deadline ((ifindex, routes, now) # rest') =
     (if ifindex \<noteq> 0 \<and> has_default_route routes then Some (Inr ifindex)
      else if deadline \<le> now then Some (Inl (''pasta did not configure '' @ IFNAME))
      else wait_ready deadline rest')"

definition netlink_replace :: "SetupEnv \<Rightarrow> Route \<Rightarrow> 32 word \<Rightarrow> 32 word \<Rightarrow> (SetupEvent, 32 word) traced" where
  "netlink_replace S route ifindex sq =
     (let sq' = sq + 1; msg = route_message (se_endian S) route ifindex GATEWAY sq'
      in trace_then (act_in S (SendRoute msg)) (\<lambda>_.
           case se_reply S msg of
             Inl e \<Rightarrow> ([], Inl e)
           | Inr reply \<Rightarrow>
               (case parse_ack (se_endian S) reply of
                  Inl _ \<Rightarrow> ([], Inl ''failed to install route'')
                | Inr _ \<Rightarrow> ([RouteAcked route], Inr sq'))))"

fun install_routes :: "SetupEnv \<Rightarrow> Route list \<Rightarrow> 32 word \<Rightarrow> 32 word \<Rightarrow> (SetupEvent, unit) traced" where
  "install_routes S [] ifindex sq = ([], Inr ())"
| "install_routes S (route # routes) ifindex sq =
     trace_then (netlink_replace S route ifindex sq) (install_routes S routes ifindex)"

definition enter_namespaces :: "SetupEnv \<Rightarrow> NetArgs \<Rightarrow> (SetupEvent, unit) traced" where
  "enter_namespaces S args =
     (case (na_userns args, na_netns args) of
        (Some user, Some net) \<Rightarrow>
          trace_then (act_in S (OpenNs user)) (\<lambda>_.
          trace_then (act_in S (OpenNs net)) (\<lambda>_.
          trace_then (act_in S SetNsUser) (\<lambda>_. act_in S SetNsNet)))
      | _ \<Rightarrow> ([], Inr ()))"

text \<open>\<open>setup::run\<close>; \<^const>\<open>None\<close> as for \<^const>\<open>wait_ready\<close>.\<close>

definition setup_run :: "SetupEnv \<Rightarrow> string list \<Rightarrow> (SetupEvent list \<times> (anyhow, unit) result option)" where
  "setup_run S args =
     (case net_parse_args args of
        Inl e \<Rightarrow> ([], Some (Inl e))
      | Inr args \<Rightarrow>
          (case trace_then (enter_namespaces S args) (\<lambda>_. act_in S (Report JOINED)) of
             (tr, Inl e) \<Rightarrow> (tr, Some (Inl e))
           | (tr, Inr _) \<Rightarrow>
               (case wait_ready (se_start S + int READY_TIMEOUT) (se_polls S) of
                  None \<Rightarrow> (tr, None)
                | Some (Inl e) \<Rightarrow> (tr, Some (Inl e))
                | Some (Inr ifindex) \<Rightarrow>
                    (case trace_then (act_in S OpenNetlink) (\<lambda>_.
                          trace_then (install_routes S (na_routes args) ifindex 0) (\<lambda>_.
                          trace_then (act_in S (Report ROUTED)) (\<lambda>_. act_in S ReadStdin))) of
                       (tr', r) \<Rightarrow> (tr @ tr', Some r)))))"

section \<open>The attach process\<close>

datatype ExitStatus = ExitCode int | ExitSignal int

definition exit_code :: "ExitStatus \<Rightarrow> int" where
  "exit_code status = (case status of ExitCode c \<Rightarrow> c | ExitSignal n \<Rightarrow> 128 + n)"

text \<open>The text after the first occurrence of a needle.\<close>

fun after_first :: "string \<Rightarrow> string \<Rightarrow> string option" where
  "after_first needle [] = (if needle = [] then Some [] else None)"
| "after_first needle (c # s) =
     (if prefix needle (c # s) then Some (drop (length needle) (c # s)) else after_first needle s)"

definition parse_child_pid :: "string \<Rightarrow> nat option" where
  "parse_child_pid json =
     (case after_first ''\"child-pid\"'' json of
        None \<Rightarrow> None
      | Some s \<Rightarrow>
          (case strip_prefix_str '':'' (skip_ws s) of
             None \<Rightarrow> None
           | Some s' \<Rightarrow> parse_uint 2147483647 (takeWhile is_ascii_digit (skip_ws s'))))"

definition MAP_TIMEOUT :: duration where
  "MAP_TIMEOUT = from_secs 10"

definition id_mapped :: "(anyhow, string) result \<Rightarrow> bool" where
  "id_mapped r = (case r of Inl _ \<Rightarrow> False | Inr m \<Rightarrow> str_trim m \<noteq> [])"

text \<open>The rounds: the contents of \<open>uid_map\<close> and \<open>gid_map\<close> and the time.  \<^const>\<open>None\<close>: still waiting.\<close>

fun wait_for_id_maps ::
  "instant \<Rightarrow> ((anyhow, string) result \<times> (anyhow, string) result \<times> instant) list \<Rightarrow> (anyhow, unit) result option" where
  "wait_for_id_maps deadline [] = None"
| "wait_for_id_maps deadline ((uid, gid, now) # rest') =
     (if id_mapped uid \<and> id_mapped gid then Some (Inr ())
      else if deadline \<le> now then Some (Inl ''sandbox did not set up its user namespace'')
      else wait_for_id_maps deadline rest')"

definition INFO_FD :: nat where
  "INFO_FD = 4"

definition BLOCK_FD :: nat where
  "BLOCK_FD = 5"

datatype AttachEvent =
    MakePipes
  | SpawnBwrap "string list"
  | OpenNetNs nat
  | SpawnSetup "string list"
  | SawLine string
  | SpawnPasta "string list"
  | DrainPasta
  | KillPasta
  | KillHolder
  | UnblockSandbox
  | CloseBlock
  | WaitBwrap
  | KillBwrap

text \<open>What the system answers: the information bwrap writes, the lines the setup process reports, the
  paths of the two namespace descriptors, the identity of the process and the exit of bwrap.\<close>

record AttachEnv =
  ae_ok :: "AttachEvent \<Rightarrow> (anyhow, unit) result"
  ae_info :: "(anyhow, string) result"
  ae_start :: instant
  ae_maps :: "((anyhow, string) result \<times> (anyhow, string) result \<times> instant) list"
  ae_net_fd :: string
  ae_owner_fd :: "(anyhow, string) result"
  ae_lines :: "(anyhow, string) result \<times> (anyhow, string) result"
  ae_runas :: string
  ae_holder_pid :: nat
  ae_status :: ExitStatus

definition bwrap_argv :: "NetArgs \<Rightarrow> string list" where
  "bwrap_argv args =
     [hd (na_command args), ''--info-fd'', display_nat INFO_FD, ''--block-fd'', display_nat BLOCK_FD] @ tl (na_command args)"

definition setup_argv :: "AttachEnv \<Rightarrow> string \<Rightarrow> Route list \<Rightarrow> string list" where
  "setup_argv A owner routes = [SETUP_FLAG, ''--netns'', ae_net_fd A, ''--userns'', owner] @ route_args routes"

definition pasta_argv :: "AttachEnv \<Rightarrow> string \<Rightarrow> string list" where
  "pasta_argv A pasta = [pasta] @ pasta_args @ [''--runas'', ae_runas A, display_nat (ae_holder_pid A)]"

definition expect_line :: "(anyhow, string) result \<Rightarrow> string \<Rightarrow> (AttachEvent, unit) traced" where
  "expect_line line want =
     (case line of
        Inl e \<Rightarrow> ([], Inl e)
      | Inr l \<Rightarrow>
          if drop_ws_end l \<noteq> want then ([], Inl (''network setup failed before `'' @ want @ ''`''))
          else ([SawLine want], Inr ()))"

text \<open>A guard whose destructor runs when the operation fails.\<close>

definition on_error :: "'ev list \<Rightarrow> ('ev, 'a) traced \<Rightarrow> ('ev, 'a) traced" where
  "on_error cleanup x = (case snd x of Inl e \<Rightarrow> (fst x @ cleanup, Inl e) | Inr a \<Rightarrow> x)"

definition attach_pasta :: "AttachEnv \<Rightarrow> string \<Rightarrow> (AttachEvent, unit) traced" where
  "attach_pasta A pasta =
     on_error [KillHolder]
       (trace_then (expect_line (fst (ae_lines A)) JOINED) (\<lambda>_.
        trace_then (act (ae_ok A) (SpawnPasta (pasta_argv A pasta))) (\<lambda>_.
        on_error [DrainPasta] (expect_line (snd (ae_lines A)) ROUTED))))"

text \<open>\<open>attach\<close>: what it returns are the guards of pasta and of the setup process.\<close>

definition net_attach :: "AttachEnv \<Rightarrow> NetArgs \<Rightarrow> string \<Rightarrow> (AttachEvent, unit) traced option" where
  "net_attach A args pasta =
     (case (case ae_info A of Inl e \<Rightarrow> Inl e
                            | Inr json \<Rightarrow> (case parse_child_pid json of None \<Rightarrow> Inl ''no child-pid in bwrap info'' | Some pid \<Rightarrow> Inr pid)) of
        Inl e \<Rightarrow> Some ([], Inl e)
      | Inr pid \<Rightarrow>
          (case wait_for_id_maps (ae_start A + int MAP_TIMEOUT) (ae_maps A) of
             None \<Rightarrow> None
           | Some (Inl e) \<Rightarrow> Some ([], Inl e)
           | Some (Inr _) \<Rightarrow>
               Some (trace_then (act (ae_ok A) (OpenNetNs pid)) (\<lambda>_.
                     case ae_owner_fd A of
                       Inl e \<Rightarrow> ([], Inl e)
                     | Inr owner \<Rightarrow>
                         trace_then (act (ae_ok A) (SpawnSetup (setup_argv A owner (na_routes args)))) (\<lambda>_.
                         attach_pasta A pasta)))))"

text \<open>\<open>attach::run\<close>.  Once bwrap runs, every early return kills it, and only then closes the end of
  the pipe that blocks it; a failing write to that pipe drops the pipe first.\<close>

definition let_go :: "AttachEnv \<Rightarrow> (AttachEvent, int) traced" where
  "let_go A =
     on_error [KillPasta, KillHolder, KillBwrap]
       (trace_then (on_error [CloseBlock] (act (ae_ok A) UnblockSandbox)) (\<lambda>_.
        trace_then (act (ae_ok A) WaitBwrap) (\<lambda>_.
        ([KillPasta, KillHolder, KillBwrap], Inr (exit_code (ae_status A))))))"

definition attach_run :: "AttachEnv \<Rightarrow> string list \<Rightarrow> (AttachEvent, int) traced option" where
  "attach_run A args =
     (case net_parse_args args of
        Inl e \<Rightarrow> Some ([], Inl e)
      | Inr args \<Rightarrow>
          (case na_pasta args of
             None \<Rightarrow> Some ([], Inl ''--pasta is required'')
           | Some pasta \<Rightarrow>
               if na_command args = [] then Some ([], Inl ''no bwrap command given after `--`'')
               else (case trace_then (act (ae_ok A) MakePipes) (\<lambda>_. act (ae_ok A) (SpawnBwrap (bwrap_argv args))) of
                       (tr, Inl e) \<Rightarrow> Some (tr, Inl e)
                     | (tr, Inr _) \<Rightarrow>
                         (case net_attach A args pasta of
                            None \<Rightarrow> None
                          | Some x \<Rightarrow>
                              Some (trace_then (tr, Inr ()) (\<lambda>_.
                                    trace_then (on_error [KillBwrap, CloseBlock] x) (\<lambda>_. let_go A)))))))"

end
