(* ===== verification/Net_Props.thy ===== *)
theory Net_Props
  imports Sandbox_Net
begin

text \<open>
  Properties of the network of a sandbox: ranges and routes survive the two command lines they are
  passed on, the plan lets through what the policy says, the setup process installs
  the whole plan, and the attach process keeps the sandbox blocked until then.
\<close>

section \<open>Text\<close>

lemma utf8_need_ascii [simp]: "utf8_need c = Some 0 \<longleftrightarrow> is_ascii c"
  by (auto simp: utf8_need_def is_ascii_def Let_def)

lemma utf8_taken_ascii [simp]: "is_ascii c \<Longrightarrow> utf8_taken c s = 0"
  using utf8_need_ascii[of c] by (simp add: utf8_taken_def del: utf8_need_ascii)

lemma lossy_ascii [simp]: "list_all is_ascii s \<Longrightarrow> to_string_lossy s = s"
  by (induction s) (auto simp: Let_def)

text \<open>A replacement is not ASCII, so text that reads as ASCII is that text.\<close>

lemma lossy_is_ascii: "list_all is_ascii (to_string_lossy s) \<Longrightarrow> to_string_lossy s = s"
proof (induction s rule: to_string_lossy.induct)
  case (2 c s)
  let ?n = "utf8_taken c s"
  have "utf8_need c = Some ?n"
    using 2(2) by (auto simp: Let_def is_ascii_def split: if_splits)
  moreover from this have "is_ascii c" using 2(2) by (simp add: Let_def)
  ultimately have "?n = 0" by simp
  with \<open>is_ascii c\<close> 2 show ?case by (simp add: Let_def)
qed simp

declare to_string_lossy.simps [simp del]

lemma lossy_eq_ascii: "list_all is_ascii t \<Longrightarrow> to_string_lossy s = t \<longleftrightarrow> s = t"
  using lossy_is_ascii lossy_ascii by metis

lemma of_char_digit: "n < 10 \<Longrightarrow> of_char (char_of (48 + n) :: char) = 48 + (n :: nat)"
  by simp

lemma digit_char: "n < 10 \<Longrightarrow> is_ascii_digit (char_of (48 + n)) \<and> is_ascii (char_of (48 + n)) \<and> of_char (char_of (48 + n) :: char) - 48 = (n :: nat)"
  by (simp add: is_ascii_digit_def is_ascii_def)

lemma dec_value_snoc: "dec_value (s @ [c]) = 10 * dec_value s + (of_char c - 48)"
  by (simp add: dec_value_def)

lemma dec_value_display [simp]: "dec_value (display_nat n) = n"
proof (induction n rule: display_nat.induct)
  case (1 n)
  then show ?case
    by (subst display_nat.simps) (simp add: dec_value_snoc digit_char dec_value_def[of "[_]"])
qed

lemma display_digits: "list_all is_ascii_digit (display_nat n) \<and> list_all is_ascii (display_nat n)"
proof (induction n rule: display_nat.induct)
  case (1 n)
  then show ?case by (subst (1 2) display_nat.simps) (simp add: digit_char)
qed

lemma display_digit [simp]: "c \<in> set (display_nat n) \<Longrightarrow> is_ascii_digit c"
  using display_digits by (auto simp: list_all_iff)

lemma display_no_sign: "hd (display_nat n) \<noteq> CHR ''+''"
  using display_digit[of "hd (display_nat n)" n] by (auto simp: is_ascii_digit_def)

lemma parse_uint_display: "n \<le> b \<Longrightarrow> parse_uint b (display_nat n) = Some n"
  using display_digits display_no_sign by (simp add: parse_uint_def Let_def)

lemma display_hd: "10 \<le> n \<Longrightarrow> hd (display_nat n) \<noteq> CHR ''0''"
proof (induction n rule: display_nat.induct)
  case (1 n)
  show ?case
  proof (cases "n div 10 < 10")
    case True
    have "hd (display_nat n) = char_of (48 + n div 10)"
      using 1(2) True by (subst display_nat.simps, subst display_nat.simps) simp
    then have "of_char (hd (display_nat n)) = 48 + n div 10"
      using True of_char_digit by metis
    moreover have "0 < n div 10" using 1(2) by simp
    ultimately show ?thesis by auto
  next
    case False
    then have "hd (display_nat n) = hd (display_nat (n div 10))"
      using 1(2) by (subst display_nat.simps) simp
    then show ?thesis using 1 False by simp
  qed
qed

lemma display_length: "n < 256 \<Longrightarrow> length (display_nat n) \<le> 3 \<and> (1 < length (display_nat n) \<longleftrightarrow> 10 \<le> n)"
  by (subst (1 2) display_nat.simps, subst (1 2) display_nat.simps, subst (1 2) display_nat.simps) auto

lemma parse_octet_display: "n < 256 \<Longrightarrow> parse_octet (display_nat n) = Some n"
  using display_digits display_length[of n] display_hd[of n] by (simp add: parse_octet_def)


section \<open>Addresses and ranges\<close>

lemma octets_bound: "n \<in> set (octets a) \<Longrightarrow> n < 256"
  using unsigned_less[of a, where 'a = nat] by (auto simp: octets_def Let_def less_mult_imp_div_less)

lemma base256:
  fixes n :: nat
  shows "((n div 16777216 * 256 + n div 65536 mod 256) * 256 + n div 256 mod 256) * 256 + n mod 256 = n"
proof -
  have "n div 65536 = n div 256 div 256" "n div 16777216 = n div 256 div 256 div 256"
    by (simp_all flip: div_mult2_eq)
  then show ?thesis by (simp only: div_mult_mod_eq)
qed

lemma ipv4_new_octets: "octets a = [w, x, y, z] \<Longrightarrow> ipv4_new w x y z = a"
proof -
  assume "octets a = [w, x, y, z]"
  then have "((w * 256 + x) * 256 + y) * 256 + z = unat a"
    using base256[of "unat a"] by (simp add: octets_def Let_def)
  then show ?thesis by (simp add: ipv4_new_def)
qed

lemma octets_cases: obtains w x y z where "octets a = [w, x, y, z]"
  by (simp add: octets_def Let_def)

lemma display_no_char: "\<not> is_ascii_digit c \<Longrightarrow> c \<notin> set (display_nat n)"
  using display_digit by blast

lemma not_digit: "\<not> is_ascii_digit (CHR ''.'')" "\<not> is_ascii_digit (CHR ''/'')"
  by (simp_all add: is_ascii_digit_def)

lemma ipv4_parse_display [net_simps]: "ipv4_parse (ipv4_display a) = Some a"
proof -
  obtain w x y z where o: "octets a = [w, x, y, z]" by (rule octets_cases)
  have "split_on (CHR ''.'') (ipv4_display a) = map display_nat (octets a)"
    unfolding ipv4_display_def by (rule split_on_join) (auto simp: o not_digit display_no_char)
  then show ?thesis
    using o octets_bound[of _ a] by (simp add: ipv4_parse_def parse_octet_display ipv4_new_octets)
qed

lemma join_chars: "set (join_with sep xs) \<subseteq> set sep \<union> \<Union> (set ` set xs)"
  by (induction sep xs rule: join_with.induct) auto

lemma ipv4_display_chars: "c \<in> set (ipv4_display a) \<Longrightarrow> is_ascii_digit c \<or> c = CHR ''.''"
  using join_chars[of "''.''" "map display_nat (octets a)"] by (auto simp: ipv4_display_def)

lemma cidr_from_str_display [net_simps]: "wf_cidr c \<Longrightarrow> Ipv4Cidr_from_str (Ipv4Cidr_display c) = Inr c"
proof -
  assume wf: "wf_cidr c"
  have "CHR ''/'' \<notin> set (ipv4_display (ci_addr c))"
    using ipv4_display_chars not_digit by fastforce
  then have "split_once (CHR ''/'') (Ipv4Cidr_display c) = Some (ipv4_display (ci_addr c), display_nat (unat (ci_prefix c)))"
    by (simp add: Ipv4Cidr_display_def split_once_append)
  moreover have "unat (ci_prefix c) \<le> 255" using unsigned_less[of "ci_prefix c", where 'a = nat] by simp
  ultimately show ?thesis
    using wf by (simp add: Ipv4Cidr_from_str_def parse_uint_display ipv4_parse_display wf_cidr_def)
qed

lemma cidr_display_ascii [net_simps]: "list_all is_ascii (Ipv4Cidr_display c)"
proof -
  have "is_ascii x" if "is_ascii_digit x \<or> x = CHR ''.''" for x
    using that by (auto simp: is_ascii_def is_ascii_digit_def)
  then have "list_all is_ascii (ipv4_display (ci_addr c))"
    using ipv4_display_chars by (simp add: list_all_iff)
  then show ?thesis
    using display_digits by (simp add: Ipv4Cidr_display_def is_ascii_def)
qed

lemma cidr_new_fields: "Ipv4Cidr_new a p = Inr c \<Longrightarrow> ci_addr c = a \<and> ci_prefix c = p"
  by (auto simp: Ipv4Cidr_new_def split: if_splits)

lemma wf_cidr_new: "Ipv4Cidr_new a p = Inr c \<Longrightarrow> wf_cidr c"
  using cidr_new_fields by (fastforce simp: wf_cidr_def)

lemma cidr_mask_32 [simp]: "cidr_mask 32 = - 1"
  by (simp add: cidr_mask_def)

lemma cidr_mask_0 [simp]: "cidr_mask 0 = 0"
  by (simp add: cidr_mask_def)

lemma wf_host [simp]: "wf_cidr (Ipv4Cidr_host a)"
  by (simp add: wf_cidr_def Ipv4Cidr_new_def Ipv4Cidr_host_def)

lemma wf_cidr_iff: "wf_cidr c \<longleftrightarrow> ci_prefix c \<le> 32 \<and> ci_addr c AND NOT (cidr_mask (ci_prefix c)) = 0"
  by (auto simp: wf_cidr_def Ipv4Cidr_new_def)

lemma parsed_wf: "Ipv4Cidr_from_str s = Inr c \<Longrightarrow> wf_cidr c"
  by (auto simp: Ipv4Cidr_from_str_def intro: wf_cidr_new split: option.splits prod.splits sum.splits)

text \<open>Two ranges of one size that share an address are one range.\<close>

lemma covers_same_size: "covers c a \<Longrightarrow> covers d a \<Longrightarrow> ci_prefix c = ci_prefix d \<Longrightarrow> c = d"
  by (simp add: covers_def)

section \<open>Arguments\<close>

fun route_cidr :: "Route \<Rightarrow> Ipv4Cidr" where
  "route_cidr (Unreachable c) = c"
| "route_cidr (ViaGateway c) = c"

definition wf_plan :: "Route list \<Rightarrow> bool" where
  "wf_plan plan = list_all (\<lambda>r. wf_cidr (route_cidr r)) plan"

lemma ascii_flags [net_simps]:
  "to_string_lossy ''--'' = ''--''" "to_string_lossy ''--via'' = ''--via''"
  "to_string_lossy ''--unreachable'' = ''--unreachable''" "to_string_lossy ''--pasta'' = ''--pasta''"
  "to_string_lossy ''--netns'' = ''--netns''" "to_string_lossy ''--userns'' = ''--userns''"
  by (simp_all add: is_ascii_def)

lemma set_net_flags [net_simps]:
  "wf_cidr c \<Longrightarrow> set_net_flag ''--unreachable'' (Ipv4Cidr_display c) out = Inr (out\<lparr>na_routes := na_routes out @ [Unreachable c]\<rparr>)"
  "wf_cidr c \<Longrightarrow> set_net_flag ''--via'' (Ipv4Cidr_display c) out = Inr (out\<lparr>na_routes := na_routes out @ [ViaGateway c]\<rparr>)"
  "set_net_flag ''--pasta'' v out = Inr (out\<lparr>na_pasta := Some v\<rparr>)"
  "set_net_flag ''--netns'' v out = Inr (out\<lparr>na_netns := Some v\<rparr>)"
  "set_net_flag ''--userns'' v out = Inr (out\<lparr>na_userns := Some v\<rparr>)"
  by (simp_all add: set_net_flag_def cidr_from_str_display)

lemma net_args_route:
  "wf_cidr (route_cidr r) \<Longrightarrow>
   net_args_loop out (route_arg r @ it) = net_args_loop (out\<lparr>na_routes := na_routes out @ [r]\<rparr>) it"
  by (cases r) (simp_all add: net_simps)

lemma net_args_routes:
  "wf_plan plan \<Longrightarrow> net_args_loop out (route_args plan @ it) = net_args_loop (out\<lparr>na_routes := na_routes out @ plan\<rparr>) it"
  by (induction plan arbitrary: out) (simp_all add: route_args_def wf_plan_def net_args_route)

lemma attach_args_parse:
  assumes "wf_plan plan"
  shows "net_parse_args (tl (attach_args pasta plan) @ ''--'' # command) =
     Inr \<lparr>na_routes = plan, na_userns = None, na_netns = None, na_pasta = Some (to_string_lossy pasta), na_command = command\<rparr>"
  by (simp add: net_parse_args_def attach_args_def net_args_routes[OF assms] net_simps NetArgs_default_def)

lemma setup_args_parse:
  assumes "wf_plan plan"
  shows "net_parse_args (tl (setup_argv A owner plan)) =
     Inr \<lparr>na_routes = plan, na_userns = Some (to_string_lossy owner), na_netns = Some (to_string_lossy (ae_net_fd A)),
          na_pasta = None, na_command = []\<rparr>"
  using net_args_routes[OF assms, where it = "[]"]
  by (simp add: net_parse_args_def setup_argv_def net_simps NetArgs_default_def)

section \<open>The plan\<close>

definition denied_ranges :: "NetworkPolicy \<Rightarrow> Ipv4Addr list \<Rightarrow> Ipv4Cidr list" where
  "denied_ranges policy hosts = map (\<lambda>(a, p). \<lparr>ci_addr = a, ci_prefix = p\<rparr>) DEFAULT_DENY @ map Ipv4Cidr_host hosts @ np_deny policy"

definition allowed_ranges :: "NetworkPolicy \<Rightarrow> Ipv4Cidr list" where
  "allowed_ranges policy = [\<lparr>ci_addr = 0, ci_prefix = 0\<rparr>, Ipv4Cidr_host DNS_ADDR] @ np_allow policy"

definition wf_policy :: "NetworkPolicy \<Rightarrow> bool" where
  "wf_policy policy = (list_all wf_cidr (np_allow policy) \<and> list_all wf_cidr (np_deny policy))"

lemma default_deny_valid: "list_all (\<lambda>(a, p). Ipv4Cidr_new a p = Inr \<lparr>ci_addr = a, ci_prefix = p\<rparr>) DEFAULT_DENY"
  by (simp add: DEFAULT_DENY_def Ipv4Cidr_new_def ipv4_new_def cidr_mask_def flip: take_bit_eq_mask)

lemma those_map_expect:
  "list_all (\<lambda>(a, p). Ipv4Cidr_new a p = Inr \<lparr>ci_addr = a, ci_prefix = p\<rparr>) xs \<Longrightarrow>
   those (map (\<lambda>(a, p). expect_ok (Ipv4Cidr_new a p)) xs) = Some (map (\<lambda>(a, p). \<lparr>ci_addr = a, ci_prefix = p\<rparr>) xs)"
  by (induction xs) (auto simp: expect_ok_def)

text \<open>The plan never panics: it is the denied ranges, then the allowed ones.\<close>

lemma route_plan_eq:
  "route_plan policy hosts = Some (map Unreachable (denied_ranges policy hosts) @ map ViaGateway (allowed_ranges policy))"
proof -
  have "expect_ok (Ipv4Cidr_new 0 0) = Some \<lparr>ci_addr = 0, ci_prefix = 0\<rparr>"
    by (simp add: expect_ok_def Ipv4Cidr_new_def)
  then show ?thesis
    by (simp add: route_plan_def those_map_expect[OF default_deny_valid] denied_ranges_def allowed_ranges_def)
qed

lemma denied_wf: "wf_policy policy \<Longrightarrow> c \<in> set (denied_ranges policy hosts) \<Longrightarrow> wf_cidr c"
  using default_deny_valid by (auto simp: denied_ranges_def wf_policy_def list_all_iff intro: wf_cidr_new)

lemma allowed_wf: "wf_policy policy \<Longrightarrow> c \<in> set (allowed_ranges policy) \<Longrightarrow> wf_cidr c"
  using wf_host by (auto simp: allowed_ranges_def wf_policy_def list_all_iff wf_cidr_iff[of "\<lparr>ci_addr = 0, ci_prefix = 0\<rparr>"])

lemma route_plan_wf: "wf_policy policy \<Longrightarrow> route_plan policy hosts = Some plan \<Longrightarrow> wf_plan plan"
  using denied_wf allowed_wf by (fastforce simp: route_plan_eq wf_plan_def list_all_iff)

section \<open>Netlink messages\<close>

lemma in_order_eq [simp]: "in_order e xs = in_order e ys \<longleftrightarrow> xs = ys"
  by (cases e) (simp_all add: in_order_def)

lemma length_in_order [simp]: "length (in_order e xs) = length xs"
  by (cases e) (simp_all add: in_order_def)

lemma u32_bytes_back: "i32_from_ne_bytes e (u32_to_ne_bytes e w) = w"
proof -
  have "in_order e (in_order e xs) = xs" for xs :: "8 word list" by (cases e) (simp_all add: in_order_def)
  moreover have "ucast (ucast w :: 8 word) OR push_bit 8 (ucast (ucast (drop_bit 8 w) :: 8 word)) OR
      push_bit 16 (ucast (ucast (drop_bit 16 w) :: 8 word)) OR push_bit 24 (ucast (ucast (drop_bit 24 w) :: 8 word)) = w"
    apply (rule bit_word_eqI)
    subgoal for n by (cases "n < 16"; cases "n < 24") (auto simp: bit_simps)
    done
  ultimately show ?thesis by (simp add: i32_from_ne_bytes_def u32_to_ne_bytes_def)
qed

lemma u32_bytes_eq [simp]: "u32_to_ne_bytes e w = u32_to_ne_bytes e w' \<longleftrightarrow> w = w'"
  using u32_bytes_back by metis

lemma byte_lengths [simp]:
  "length (u32_to_ne_bytes e w) = 4" "length (u16_to_ne_bytes e v) = 2" "length (addr_bytes a) = 4"
  by (simp_all add: u32_to_ne_bytes_def u16_to_ne_bytes_def addr_bytes_def octets_def Let_def)

lemma addr_bytes_eq [simp]: "addr_bytes a = addr_bytes b \<longleftrightarrow> a = b"
proof
  assume "addr_bytes a = addr_bytes b"
  then have "map unat (addr_bytes a) = map unat (addr_bytes b)" by simp
  moreover have "map unat (addr_bytes x) = octets x" for x
    using octets_bound[of _ x] by (auto simp: addr_bytes_def unat_of_nat intro: map_idI)
  ultimately have b: "octets b = octets a" by simp
  obtain w x y z where a: "octets a = [w, x, y, z]" by (rule octets_cases)
  show "a = b" using ipv4_new_octets[OF a] ipv4_new_octets[OF b[unfolded a]] by simp
qed simp

lemma wf_default: "wf_cidr c \<Longrightarrow> ci_prefix c = 0 \<Longrightarrow> ci_addr c = 0"
  by (simp add: wf_cidr_iff)

lemma cidr_eqI: "ci_addr c = ci_addr d \<Longrightarrow> ci_prefix c = ci_prefix d \<Longrightarrow> (c :: Ipv4Cidr) = d"
  by simp

lemma route_body_eq:
  assumes "wf_cidr (route_cidr r)" "wf_cidr (route_cidr r')" "route_body e r i gw = route_body e r' i' gw'"
  shows "r = r'"
proof -
  have eq: "ci_prefix (route_cidr r) = ci_prefix (route_cidr r') \<and> (\<exists>c. r = Unreachable c) = (\<exists>c. r' = Unreachable c)"
    using assms(3) by (cases r; cases r') (auto simp: route_body_def rtmsg_def push_attr_def Let_def split: if_splits)
  moreover have "ci_addr (route_cidr r) = ci_addr (route_cidr r')"
  proof (cases "ci_prefix (route_cidr r) = 0")
    case True
    then show ?thesis using eq assms(1,2) wf_default by metis
  next
    case False
    then show ?thesis
      using eq assms(3) by (cases r; cases r') (auto simp: route_body_def rtmsg_def push_attr_def Let_def word_gt_0)
  qed
  ultimately show ?thesis by (cases r; cases r') auto
qed

text \<open>Two netlink messages for valid ranges are the same bytes only if they carry the same route and
  sequence number, whatever the byte order of the machine.\<close>

theorem route_message_injective:
  assumes "wf_cidr (route_cidr r)" and "wf_cidr (route_cidr r')"
    and "route_message e r i gw sq = route_message e r' i' gw' sq'"
  shows "r = r' \<and> sq = sq'"
  using assms(3) route_body_eq[OF assms(1,2)] by (auto simp: route_message_def Let_def)

section \<open>What the routes let through\<close>

text \<open>The routing table of the kernel.  A message with \<open>NLM_F_REPLACE\<close> replaces the route of its
  range; a lookup takes the route of the longest range that holds the address.\<close>

type_synonym route_table = "Ipv4Cidr \<rightharpoonup> Route"

definition install_route :: "route_table \<Rightarrow> Route \<Rightarrow> route_table" where
  "install_route t r = t(route_cidr r \<mapsto> r)"

definition longest_prefix_match :: "(route_table \<Rightarrow> Ipv4Addr \<Rightarrow> Route option) \<Rightarrow> bool" where
  "longest_prefix_match lookup =
     (\<forall>t a. (\<forall>c\<in>dom t. wf_cidr c) \<longrightarrow>
        (case lookup t a of
           None \<Rightarrow> \<forall>c\<in>dom t. \<not> covers c a
         | Some r \<Rightarrow> \<exists>c. t c = Some r \<and> covers c a \<and> (\<forall>d\<in>dom t. covers d a \<longrightarrow> ci_prefix d \<le> ci_prefix c)))"

lemma install_vias: "foldl install_route t (map ViaGateway cs) c = (if c \<in> set cs then Some (ViaGateway c) else t c)"
  by (induction cs arbitrary: t) (auto simp: install_route_def)

lemma install_denies: "foldl install_route t (map Unreachable cs) c = (if c \<in> set cs then Some (Unreachable c) else t c)"
  by (induction cs arbitrary: t) (auto simp: install_route_def)

lemma route_cidr_plan:
  "route_cidr ` set (map Unreachable ds @ map ViaGateway as) = set ds \<union> set as"
  by (auto simp: image_Un image_image)

lemma installed_table:
  assumes "dom pre \<subseteq> set ds \<union> set as"
  shows "foldl install_route pre (map Unreachable ds @ map ViaGateway as) c =
     (if c \<in> set as then Some (ViaGateway c) else if c \<in> set ds then Some (Unreachable c) else None)"
  using assms by (auto simp: install_vias install_denies)

lemma lookup_installed:
  assumes lpm: "longest_prefix_match lookup"
    and wf: "\<forall>c\<in>set ds \<union> set as. wf_cidr c"
    and pre: "dom pre \<subseteq> set ds \<union> set as"
    and default_route: "\<exists>c\<in>set as. covers c a"
  defines "t \<equiv> foldl install_route pre (map Unreachable ds @ map ViaGateway as)"
  obtains c where "c \<in> set ds \<union> set as" "covers c a" "\<forall>d\<in>set ds \<union> set as. covers d a \<longrightarrow> ci_prefix d \<le> ci_prefix c"
    "lookup t a = Some (if c \<in> set as then ViaGateway c else Unreachable c)"
proof -
  have t: "t c = (if c \<in> set as then Some (ViaGateway c) else if c \<in> set ds then Some (Unreachable c) else None)" for c
    using installed_table[OF pre] by (simp add: t_def)
  have dom: "dom t = set ds \<union> set as" by (auto simp: t dom_def split: if_splits)
  have law: "case lookup t a of
      None \<Rightarrow> \<forall>c\<in>dom t. \<not> covers c a
    | Some r \<Rightarrow> \<exists>c. t c = Some r \<and> covers c a \<and> (\<forall>d\<in>dom t. covers d a \<longrightarrow> ci_prefix d \<le> ci_prefix c)"
    using lpm wf unfolding longest_prefix_match_def dom[symmetric] by blast
  show thesis
  proof (cases "lookup t a")
    case None
    then show ?thesis using law default_route dom by auto
  next
    case (Some r)
    then obtain c where c: "t c = Some r" "covers c a" "\<forall>d\<in>dom t. covers d a \<longrightarrow> ci_prefix d \<le> ci_prefix c"
      using law by auto
    then have "c \<in> set ds \<union> set as" using dom by blast
    then show ?thesis using that[of c] c Some unfolding t dom by (auto split: if_splits)
  qed
qed

text \<open>One such lookup: the ranges of an address, longest first.\<close>

definition range_of :: "Ipv4Addr \<Rightarrow> nat \<Rightarrow> Ipv4Cidr" where
  "range_of a n = \<lparr>ci_addr = a AND cidr_mask (of_nat n), ci_prefix = of_nat n\<rparr>"

fun match_below :: "route_table \<Rightarrow> Ipv4Addr \<Rightarrow> nat \<Rightarrow> Route option" where
  "match_below t a 0 = None"
| "match_below t a (Suc n) = (case t (range_of a n) of Some r \<Rightarrow> Some r | None \<Rightarrow> match_below t a n)"

definition table_lookup :: "route_table \<Rightarrow> Ipv4Addr \<Rightarrow> Route option" where
  "table_lookup t a = match_below t a 33"

lemma match_below_spec:
  "case match_below t a n of
     None \<Rightarrow> \<forall>m<n. t (range_of a m) = None
   | Some r \<Rightarrow> \<exists>m<n. t (range_of a m) = Some r \<and> (\<forall>k<n. t (range_of a k) \<noteq> None \<longrightarrow> k \<le> m)"
proof (induction n)
  case (Suc n)
  show ?case
  proof (cases "t (range_of a n)")
    case None
    with Suc show ?thesis by (auto simp: less_Suc_eq split: option.splits)
  qed (auto intro!: exI[of _ n])
qed simp

lemma covers_range: "covers c a \<Longrightarrow> wf_cidr c \<Longrightarrow> \<exists>n<33. c = range_of a n \<and> unat (ci_prefix c) = n"
proof (intro exI[of _ "unat (ci_prefix c)"] conjI)
  assume "wf_cidr c"
  then show "unat (ci_prefix c) < 33" by (simp add: wf_cidr_iff word_le_nat_alt)
qed (simp_all add: covers_def range_of_def)

lemma table_lookup_lpm: "longest_prefix_match table_lookup"
proof (unfold longest_prefix_match_def, intro allI impI)
  fix t :: route_table and a
  assume wf: "\<forall>c\<in>dom t. wf_cidr c"
  have range: "\<exists>n<33. d = range_of a n \<and> unat (ci_prefix d) = n" if "d \<in> dom t" "covers d a" for d
    using covers_range wf that by blast
  have covers: "covers (range_of a m) a" for m by (simp add: covers_def range_of_def)
  show "case table_lookup t a of None \<Rightarrow> \<forall>c\<in>dom t. \<not> covers c a
    | Some r \<Rightarrow> \<exists>c. t c = Some r \<and> covers c a \<and> (\<forall>d\<in>dom t. covers d a \<longrightarrow> ci_prefix d \<le> ci_prefix c)"
  proof (cases "table_lookup t a")
    case None
    then have "\<forall>m<33. t (range_of a m) = None" using match_below_spec[where t = t and a = a and n = 33] by (simp add: table_lookup_def)
    then show ?thesis using None range by fastforce
  next
    case (Some r)
    then obtain m where m: "m < 33" "t (range_of a m) = Some r" "\<forall>k<33. t (range_of a k) \<noteq> None \<longrightarrow> k \<le> m"
      using match_below_spec[where t = t and a = a and n = 33] by (auto simp: table_lookup_def)
    have "ci_prefix d \<le> ci_prefix (range_of a m)" if d: "d \<in> dom t" "covers d a" for d
    proof -
      obtain n where "n < 33" "d = range_of a n" "unat (ci_prefix d) = n" using range[OF d] by blast
      moreover have "unat (ci_prefix (range_of a m)) = m" using m(1) by (simp add: range_of_def unat_of_nat)
      ultimately show ?thesis using m(3) d(1) by (auto simp: word_le_nat_alt)
    qed
    then show ?thesis using Some m(2) covers by auto
  qed
qed

text \<open>C19: With the routes of the plan installed over whatever routes pasta left for the same
  ranges, a sandbox reaches an address if and only if an allowed range (the
  configured ones, the DNS forwarder, or the default) holds the address and no denied range (the
  built-in list, an address of the host, a configured one) that holds it is longer; on a tie the allowed range
  wins.  The kernel enters as a lookup that takes the longest range.\<close>

theorem route_policy_exact:
  assumes "longest_prefix_match lookup"
    and "wf_policy policy"
    and "route_plan policy hosts = Some plan"
    and "dom pre \<subseteq> route_cidr ` set plan"
  shows "(\<exists>c. lookup (foldl install_route pre plan) a = Some (ViaGateway c)) \<longleftrightarrow>
     (\<exists>c\<in>set (allowed_ranges policy). covers c a \<and> (\<forall>d\<in>set (denied_ranges policy hosts). covers d a \<longrightarrow> ci_prefix d \<le> ci_prefix c))"
proof -
  let ?ds = "denied_ranges policy hosts" and ?as = "allowed_ranges policy"
  have plan: "plan = map Unreachable ?ds @ map ViaGateway ?as" using assms(3) by (simp add: route_plan_eq)
  have wf: "\<forall>c\<in>set ?ds \<union> set ?as. wf_cidr c" using assms(2) denied_wf allowed_wf by blast
  have pre: "dom pre \<subseteq> set ?ds \<union> set ?as" using assms(4) unfolding plan route_cidr_plan .
  have "\<exists>c\<in>set ?as. covers c a" by (auto simp: allowed_ranges_def covers_def)
  then obtain c where c: "c \<in> set ?ds \<union> set ?as" "covers c a" "\<forall>d\<in>set ?ds \<union> set ?as. covers d a \<longrightarrow> ci_prefix d \<le> ci_prefix c"
    "lookup (foldl install_route pre plan) a = Some (if c \<in> set ?as then ViaGateway c else Unreachable c)"
    using lookup_installed[OF assms(1) wf pre] unfolding plan by metis
  show ?thesis
  proof
    assume "\<exists>c. lookup (foldl install_route pre plan) a = Some (ViaGateway c)"
    then have "c \<in> set ?as" using c(4) by (auto split: if_splits)
    then show "\<exists>c\<in>set ?as. covers c a \<and> (\<forall>d\<in>set ?ds. covers d a \<longrightarrow> ci_prefix d \<le> ci_prefix c)" using c by blast
  next
    assume "\<exists>c\<in>set ?as. covers c a \<and> (\<forall>d\<in>set ?ds. covers d a \<longrightarrow> ci_prefix d \<le> ci_prefix c)"
    then obtain e where e: "e \<in> set ?as" "covers e a" "\<forall>d\<in>set ?ds. covers d a \<longrightarrow> ci_prefix d \<le> ci_prefix e" by blast
    have "c \<in> set ?as"
    proof (cases "c \<in> set ?ds")
      case True
      then have "ci_prefix c = ci_prefix e" using c(2,3) e by (meson UnI2 order_antisym)
      then show ?thesis using covers_same_size[OF c(2) e(2)] e(1) by simp
    qed (use c(1) in blast)
    then show "\<exists>c. lookup (foldl install_route pre plan) a = Some (ViaGateway c)" using c(4) by auto
  qed
qed

lemma route_policy_exact_witness:
  "let policy = \<lparr>np_allow = [\<lparr>ci_addr = ipv4_new 10 1 0 0, ci_prefix = 16\<rparr>], np_deny = []\<rparr>;
       t = foldl install_route Map.empty (the (route_plan policy []))
   in (\<exists>c. table_lookup t (ipv4_new 10 1 2 3) = Some (ViaGateway c)) \<and> \<not> (\<exists>c. table_lookup t (ipv4_new 10 2 2 3) = Some (ViaGateway c))"
proof -
  let ?p = "\<lparr>np_allow = [\<lparr>ci_addr = ipv4_new 10 1 0 0, ci_prefix = 16\<rparr>], np_deny = []\<rparr>"
  have wf: "wf_policy ?p"
    by (simp add: wf_policy_def wf_cidr_iff ipv4_new_def cidr_mask_def mask_eq_exp_minus_1)
  have plan: "route_plan ?p [] = Some (the (route_plan ?p []))" by (simp add: route_plan_eq)
  have empty: "dom (Map.empty :: route_table) \<subseteq> X" for X by simp
  note exact = route_policy_exact[OF table_lookup_lpm wf plan empty]
  note eval = allowed_ranges_def denied_ranges_def DEFAULT_DENY_def covers_def Ipv4Cidr_host_def cidr_mask_def ipv4_new_def DNS_ADDR_def
    mask_eq_exp_minus_1
  have "\<exists>c\<in>set (allowed_ranges ?p). covers c (ipv4_new 10 1 2 3) \<and>
      (\<forall>d\<in>set (denied_ranges ?p []). covers d (ipv4_new 10 1 2 3) \<longrightarrow> ci_prefix d \<le> ci_prefix c)"
    by (simp add: eval)
  moreover have "\<not> (\<exists>c\<in>set (allowed_ranges ?p). covers c (ipv4_new 10 2 2 3) \<and>
      (\<forall>d\<in>set (denied_ranges ?p []). covers d (ipv4_new 10 2 2 3) \<longrightarrow> ci_prefix d \<le> ci_prefix c))"
    by (simp add: eval)
  ultimately show ?thesis
    unfolding Let_def exact by blast
qed

section \<open>The setup process installs the whole plan\<close>

fun acked :: "SetupEvent list \<Rightarrow> Route list" where
  "acked [] = []"
| "acked (RouteAcked r # tr) = r # acked tr"
| "acked (_ # tr) = acked tr"

lemma acked_append [simp]: "acked (tr @ tr') = acked tr @ acked tr'"
  by (induction tr rule: acked.induct) auto

lemma trace_then_simps [simp]:
  "trace_then (tr, Inl e) f = (tr, Inl e)"
  "trace_then (tr, Inr x) f = (tr @ fst (f x), snd (f x))"
  by (simp_all add: trace_then_def)

lemma act_cases:
  obtains "act ok ev = ([ev], Inr ())" | e where "act ok ev = ([], Inl e)"
  by (cases "ok ev") (auto simp: act_def)

lemma replace_cases:
  obtains msg where "netlink_replace S r i q = ([SendRoute msg, RouteAcked r], Inr (q + 1))"
  | tr e where "netlink_replace S r i q = (tr, Inl e)" "acked tr = []" "\<forall>l. Report l \<notin> set tr"
proof -
  let ?m = "route_message (se_endian S) r i GATEWAY (q + 1)"
  show thesis
  proof (cases rule: act_cases[of "se_ok S" "SendRoute ?m"])
    case 1
    then show ?thesis
      using that by (cases "se_reply S ?m"; cases "parse_ack (se_endian S) (projr (se_reply S ?m))")
        (auto simp: netlink_replace_def act_in_def Let_def)
  next
    case (2 e)
    then show ?thesis using that by (simp add: netlink_replace_def act_in_def Let_def)
  qed
qed

lemma install_routes_acked:
  "(case snd (install_routes S rs i q) of Inl _ \<Rightarrow> True | Inr _ \<Rightarrow> acked (fst (install_routes S rs i q)) = rs) \<and>
   (\<forall>l. Report l \<notin> set (fst (install_routes S rs i q)))"
proof (induction rs arbitrary: q)
  case (Cons r rs)
  show ?case
  proof (cases rule: replace_cases[of S r i q])
    case (1 msg)
    then show ?thesis using Cons[of "q + 1"] by (simp split: sum.splits)
  qed simp
qed simp

lemma enter_no_report: "Report l \<notin> set (fst (enter_namespaces S args)) \<and> acked (fst (enter_namespaces S args)) = []"
  by (auto simp: enter_namespaces_def act_in_def act_def split: option.splits sum.splits)

lemma joined_not_routed: "JOINED \<noteq> ROUTED"
  by (simp add: JOINED_def ROUTED_def)

lemma report_at:
  assumes "tr = a @ [ev] @ b" "ev \<notin> set a" "ev \<notin> set b" "tr = pre @ ev # post"
  shows "pre = a"
  using assms by (metis append_Cons append_Cons_eq_iff append_Nil)

lemma setup_routed:
  assumes "net_parse_args args = Inr a" "fst (setup_run S args) = pre @ Report ROUTED # post"
  shows "acked pre = na_routes a"
proof -
  define x where "x = trace_then (enter_namespaces S a) (\<lambda>_. act_in S (Report JOINED))"
  have x: "Report ROUTED \<notin> set (fst x) \<and> acked (fst x) = []"
    using enter_no_report[of ROUTED S a] enter_no_report[of JOINED S a] joined_not_routed
    by (auto simp: x_def trace_then_def act_in_def act_def split: sum.splits)
  obtain tr0 r0 where x0: "x = (tr0, r0)" by fastforce
  note run = assms(2)[unfolded setup_run_def assms(1) sum.case x_def[symmetric] x0 prod.case]
  obtain u where "r0 = Inr u" using run x x0 by (cases r0) auto
  note run = run[unfolded this sum.case]
  obtain i where "wait_ready (se_start S + int READY_TIMEOUT) (se_polls S) = Some (Inr i)"
    using run x x0 by (cases "wait_ready (se_start S + int READY_TIMEOUT) (se_polls S)") (auto split: sum.splits)
  note run = run[unfolded this option.case sum.case]
  let ?I = "install_routes S (na_routes a) i 0"
  note inst = install_routes_acked[of S "na_routes a" i 0]
  show ?thesis
  proof (cases "act_in S OpenNetlink = ([OpenNetlink], Inr ()) \<and> snd ?I = Inr () \<and> act_in S (Report ROUTED) = ([Report ROUTED], Inr ())")
    case True
    then obtain b where b: "tr0 @ [OpenNetlink] @ fst ?I @ [Report ROUTED] @ b = pre @ Report ROUTED # post" "Report ROUTED \<notin> set b"
      using run by (auto simp: trace_then_def act_in_def act_def split: sum.splits)
    then have "pre = tr0 @ [OpenNetlink] @ fst ?I"
      using report_at[of "pre @ Report ROUTED # post" "tr0 @ [OpenNetlink] @ fst ?I" "Report ROUTED" b pre post] x x0 inst by simp
    then show ?thesis using True inst x x0 by simp
  next
    case False
    have "Report ROUTED \<in> set (pre @ Report ROUTED # post)" by simp
    then have False
      using False run[symmetric] x x0 inst by (auto simp: trace_then_def act_in_def act_def split: sum.splits)
    then show ?thesis ..
  qed
qed

section \<open>The sandbox waits for its network\<close>

fun is_release :: "AttachEvent \<Rightarrow> bool" where
  "is_release UnblockSandbox = True"
| "is_release CloseBlock = True"
| "is_release _ = False"

lemma on_error_simps [simp]:
  "on_error c (tr, Inl e) = (tr @ c, Inl e)"
  "on_error c (tr, Inr a) = (tr, Inr a)"
  by (simp_all add: on_error_def)

lemma expect_line_cases:
  obtains "expect_line l w = ([SawLine w], Inr ())" | e where "expect_line l w = ([], Inl e)"
proof -
  have "expect_line l w = ([SawLine w], Inr ()) \<or> (\<exists>e. expect_line l w = ([], Inl e))"
    by (cases l) (simp_all add: expect_line_def)
  then show thesis using that by blast
qed

lemma attach_pasta_trace:
  "list_all (\<lambda>ev. \<not> is_release ev) (fst (attach_pasta A pasta)) \<and>
   (case snd (attach_pasta A pasta) of Inl _ \<Rightarrow> True | Inr _ \<Rightarrow> SawLine ROUTED \<in> set (fst (attach_pasta A pasta))) \<and>
   (\<forall>argv. SpawnSetup argv \<notin> set (fst (attach_pasta A pasta)))"
  by (cases rule: expect_line_cases[of "fst (ae_lines A)" JOINED];
      cases rule: act_cases[of "ae_ok A" "SpawnPasta (pasta_argv A pasta)"];
      cases rule: expect_line_cases[of "snd (ae_lines A)" ROUTED])
    (simp_all add: attach_pasta_def)

lemma net_attach_trace:
  assumes "net_attach A args pasta = Some x"
  shows "list_all (\<lambda>ev. \<not> is_release ev) (fst x)"
    and "snd x = Inr () \<Longrightarrow> SawLine ROUTED \<in> set (fst x)"
    and "SpawnSetup argv \<in> set (fst x) \<Longrightarrow> \<exists>owner. argv = setup_argv A owner (na_routes args)"
proof -
  from assms consider e where "x = ([], Inl e)"
    | pid where "x = trace_then (act (ae_ok A) (OpenNetNs pid)) (\<lambda>_.
                     case ae_owner_fd A of
                       Inl e \<Rightarrow> ([], Inl e)
                     | Inr owner \<Rightarrow>
                         trace_then (act (ae_ok A) (SpawnSetup (setup_argv A owner (na_routes args)))) (\<lambda>_.
                         attach_pasta A pasta))"
    by (auto simp: net_attach_def split: sum.splits option.splits)
  then have "list_all (\<lambda>ev. \<not> is_release ev) (fst x) \<and> (snd x = Inr () \<longrightarrow> SawLine ROUTED \<in> set (fst x)) \<and>
      (SpawnSetup argv \<in> set (fst x) \<longrightarrow> (\<exists>owner. argv = setup_argv A owner (na_routes args)))"
  proof cases
    case (2 pid)
    then show ?thesis
      using attach_pasta_trace[of A pasta]
      by (cases "ae_owner_fd A"; cases rule: act_cases[of "ae_ok A" "OpenNetNs pid"];
          cases rule: act_cases[of "ae_ok A" "SpawnSetup (setup_argv A (projr (ae_owner_fd A)) (na_routes args))"])
        (auto split: sum.splits)
  qed simp
  then show "list_all (\<lambda>ev. \<not> is_release ev) (fst x)"
    and "snd x = Inr () \<Longrightarrow> SawLine ROUTED \<in> set (fst x)"
    and "SpawnSetup argv \<in> set (fst x) \<Longrightarrow> \<exists>owner. argv = setup_argv A owner (na_routes args)"
    by blast+
qed

lemma let_go_trace: "KillBwrap \<in> set (fst (let_go A)) \<and> (\<forall>argv. SpawnSetup argv \<notin> set (fst (let_go A)))"
  by (cases rule: act_cases[of "ae_ok A" UnblockSandbox]; cases rule: act_cases[of "ae_ok A" WaitBwrap]) (simp_all add: let_go_def)

text \<open>The two stages of a run: bwrap is spawned and the network attached, then the sandbox is let go.\<close>

lemma attach_run_stages:
  assumes "attach_run A args = Some x"
  obtains (early) "list_all (\<lambda>ev. \<not> is_release ev \<and> (\<forall>argv. ev \<noteq> SpawnSetup argv)) (fst x)"
  | (attached) a pasta y before after where "net_parse_args args = Inr a" "net_attach A a pasta = Some y"
      "fst x = before @ fst y @ after" "list_all (\<lambda>ev. \<not> is_release ev \<and> (\<forall>argv. ev \<noteq> SpawnSetup argv)) before"
      "snd y = Inr () \<or> after = [KillBwrap, CloseBlock]" "KillBwrap \<in> set after" "\<forall>argv. SpawnSetup argv \<notin> set after"
proof (cases "net_parse_args args")
  case (Inl e)
  then show thesis using assms early by (auto simp: attach_run_def)
next
  case (Inr a)
  show thesis
  proof (cases "na_pasta a = None \<or> na_command a = []")
    case True
    then show thesis using assms early Inr by (auto simp: attach_run_def split: option.splits)
  next
    case False
    then obtain pasta where pasta: "na_pasta a = Some pasta" "na_command a \<noteq> []" by auto
    define sp where "sp = trace_then (act (ae_ok A) MakePipes) (\<lambda>_. act (ae_ok A) (SpawnBwrap (bwrap_argv a)))"
    have sp: "list_all (\<lambda>ev. \<not> is_release ev \<and> (\<forall>argv. ev \<noteq> SpawnSetup argv)) (fst sp)"
      by (auto simp: sp_def trace_then_def act_def split: sum.splits)
    note run = assms[unfolded attach_run_def Inr sum.case pasta option.case sp_def[symmetric]]
    show thesis
    proof (cases "snd sp")
      case (Inl e)
      then show thesis using run early sp pasta by (cases sp) auto
    next
      case (Inr u)
      then obtain y where y: "net_attach A a pasta = Some y"
        using run pasta by (cases sp) (auto split: option.splits)
      then have x: "x = trace_then sp (\<lambda>_. trace_then (on_error [KillBwrap, CloseBlock] y) (\<lambda>_. let_go A))"
        using run pasta Inr by (cases sp) auto
      show thesis
      proof (cases "snd y")
        case (Inl e)
        then have "fst x = fst sp @ fst y @ [KillBwrap, CloseBlock]"
          using x Inr by (cases sp; cases y) auto
        then show thesis using attached[of a pasta y "fst sp"] \<open>net_parse_args args = Inr a\<close> y sp by simp
      next
        case r: (Inr v)
        then have "fst x = fst sp @ fst y @ fst (let_go A)"
          using x Inr by (cases sp; cases y) auto
        then show thesis
          using attached[of a pasta y "fst sp" "fst (let_go A)"] \<open>net_parse_args args = Inr a\<close> y sp r let_go_trace by simp
      qed
    qed
  qed
qed

lemma release_after:
  assumes "before @ mid @ after = pre @ ev # post" "ev \<notin> set before" "ev \<notin> set mid"
  shows "set before \<union> set mid \<subseteq> set pre"
proof -
  have "(before @ mid) @ after = pre @ ev # post" using assms(1) by simp
  then show ?thesis
    using assms(2,3) by (auto simp: append_eq_append_conv2 append_eq_Cons_conv Cons_eq_append_conv)
qed

text \<open>C20: The attach helper lets a sandbox go (it writes to the pipe that blocks bwrap, or closes
  it) only after the setup process has reported that the routes are installed, or
  after it has killed bwrap; and whenever it has got as far as the network it kills bwrap before it
  returns, so no failure leaves a sandbox running with an unfiltered network.\<close>

theorem sandbox_blocked_until_routed:
  assumes "attach_run A args = Some x" and "fst x = pre @ ev # post" and "is_release ev"
  shows "(SawLine ROUTED \<in> set pre \<or> KillBwrap \<in> set pre) \<and> KillBwrap \<in> set (fst x)"
  using assms(1)
proof (cases rule: attach_run_stages)
  case early
  then show ?thesis using assms(2,3) by simp
next
  case (attached a pasta y before after)
  note quiet = attached(4) net_attach_trace(1)[OF attached(2)]
  have eq: "before @ fst y @ after = pre @ ev # post" using attached(3) assms(2) by simp
  have ev: "ev \<notin> set before" "ev \<notin> set (fst y)" using quiet assms(3) by (auto simp: list_all_iff)
  from attached(5) have "SawLine ROUTED \<in> set pre \<or> KillBwrap \<in> set pre"
  proof
    assume "snd y = Inr ()"
    moreover have "set (fst y) \<subseteq> set pre" using release_after[OF eq ev] by blast
    ultimately show ?thesis using net_attach_trace(2)[OF attached(2)] by blast
  next
    assume "after = [KillBwrap, CloseBlock]"
    then have "(before @ fst y @ [KillBwrap]) @ [] @ [CloseBlock] = pre @ ev # post" using eq by simp
    moreover have "ev \<noteq> KillBwrap" using assms(3) by auto
    ultimately show ?thesis using ev release_after[of "before @ fst y @ [KillBwrap]" "[]" "[CloseBlock]" pre ev post] by auto
  qed
  then show ?thesis using attached(3,6) by auto
qed

definition no_info :: AttachEnv where
  "no_info =
     \<lparr>ae_ok = (\<lambda>_. Inr ()), ae_info = Inl ''read bwrap info'', ae_start = 0, ae_maps = [], ae_net_fd = ''/proc/1/fd/9'',
      ae_owner_fd = Inr ''/proc/1/fd/10'', ae_lines = (Inr ''joined'', Inr ''routed''), ae_runas = ''0:0'', ae_holder_pid = 8,
      ae_status = ExitCode 0\<rparr>"

lemma sandbox_blocked_until_routed_witness:
  "\<exists>x. attach_run no_info [''--pasta'', ''/p'', ''--'', ''/bwrap''] = Some x \<and> CloseBlock \<in> set (fst x) \<and>
     KillBwrap \<in> set (fst x)"
proof -
  have "net_parse_args [''--pasta'', ''/p'', ''--'', ''/bwrap''] =
      Inr \<lparr>na_routes = [], na_userns = None, na_netns = None, na_pasta = Some ''/p'', na_command = [''/bwrap'']\<rparr>"
    using attach_args_parse[of "[]" "''/p''" "[''/bwrap'']"] by (simp add: attach_args_def route_args_def wf_plan_def is_ascii_def)
  then obtain argv where x: "attach_run no_info [''--pasta'', ''/p'', ''--'', ''/bwrap''] =
      Some ([MakePipes, SpawnBwrap argv] @ KillBwrap # CloseBlock # [], Inl ''read bwrap info'')"
    by (simp add: attach_run_def net_attach_def no_info_def act_def)
  show ?thesis
    using sandbox_blocked_until_routed[OF x, of "[MakePipes, SpawnBwrap argv, KillBwrap]" CloseBlock "[]"] x by simp
qed

text \<open>C25: The setup process that the attach helper starts for a plan of the server reports the routes as
  installed only after the kernel has acknowledged every route of that plan, in the order
  of the plan: neither the two passes over a command line nor the netlink loop drops, alters or
  reorders a route.\<close>

theorem plan_reaches_the_kernel:
  assumes "wf_policy policy" and "route_plan policy hosts = Some plan"
    and "attach_run A (tl (attach_args pasta plan) @ ''--'' # command) = Some x" and "SpawnSetup argv \<in> set (fst x)"
    and "fst (setup_run S (tl argv)) = pre @ Report ROUTED # post"
  shows "acked pre = plan"
proof -
  have wf: "wf_plan plan" using route_plan_wf assms(1,2) by blast
  from assms(3) obtain a owner where "net_parse_args (tl (attach_args pasta plan) @ ''--'' # command) = Inr a"
    "argv = setup_argv A owner (na_routes a)"
  proof (cases rule: attach_run_stages)
    case early
    then show ?thesis using assms(4) by (auto simp: list_all_iff)
  next
    case (attached a pasta y before after)
    then have "SpawnSetup argv \<in> set (fst y)" using assms(4) by (auto simp: list_all_iff)
    then show ?thesis using net_attach_trace(3)[OF attached(2)] attached(1) that by blast
  qed
  then have "argv = setup_argv A owner plan" using attach_args_parse[OF wf] by auto
  then show ?thesis using setup_routed[OF setup_args_parse[OF wf]] assms(5) by simp
qed


definition good_attach :: AttachEnv where
  "good_attach =
     \<lparr>ae_ok = (\<lambda>_. Inr ()), ae_info = Inr (CHR 0x22 # ''child-pid'' @ CHR 0x22 # '':7''), ae_start = 0,
      ae_maps = [(Inr ''0'', Inr ''0'', 0)], ae_net_fd = ''/proc/1/fd/9'', ae_owner_fd = Inr ''/proc/1/fd/10'',
      ae_lines = (Inr ''joined'', Inr ''routed''), ae_runas = ''0:0'', ae_holder_pid = 8, ae_status = ExitCode 0\<rparr>"

lemma good_attach_pid: "parse_child_pid (CHR 0x22 # ''child-pid'' @ CHR 0x22 # '':7'') = Some 7"
  by (simp add: parse_child_pid_def strip_prefix_str_def parse_uint_def is_ascii_digit_def dec_value_def is_ascii_ws_def ws2_def ws3_def)

lemma in_guarded: "ev \<in> set (fst x) \<Longrightarrow> ev \<in> set (fst (trace_then (on_error c x) f))"
  by (cases "snd x") (auto simp: trace_then_def on_error_def)

lemma good_attach_spawns:
  assumes "net_parse_args args = Inr a" "na_pasta a = Some pasta" "na_command a \<noteq> []"
  shows "\<exists>x. attach_run good_attach args = Some x \<and> SpawnSetup (setup_argv good_attach ''/proc/1/fd/10'' (na_routes a)) \<in> set (fst x)"
proof -
  have "wait_for_id_maps d (ae_maps good_attach) = Some (Inr ())" for d
    by (simp add: good_attach_def id_mapped_def str_trim_def is_ascii_ws_def)
  then show ?thesis
    using assms good_attach_pid by (simp add: attach_run_def net_attach_def good_attach_def act_def) (rule in_guarded, simp)
qed

definition good_setup :: SetupEnv where
  "good_setup =
     \<lparr>se_ok = (\<lambda>_. Inr ()), se_reply = (\<lambda>_. Inr ([0, 0, 0, 0, 2] @ replicate 15 0)), se_endian = LittleEndian, se_start = 0,
      se_polls = [(1, CHR 0x0A # ''ekaci0 00000000'', 0)]\<rparr>"

lemma good_ack: "parse_ack LittleEndian ([0, 0, 0, 0, 2] @ replicate 15 0) = Inr ()"
  by code_simp

lemma good_install: "snd (install_routes good_setup rs i q) = Inr ()"
proof (induction rs arbitrary: q)
  case (Cons r rs)
  then show ?case
    using good_ack by (simp add: netlink_replace_def act_in_def act_def good_setup_def Let_def)
qed (simp add: good_setup_def)

lemma good_ready: "wait_ready d (se_polls good_setup) = Some (Inr 1)"
proof -
  have "has_default_route (CHR 0x0A # ''ekaci0 00000000'')" by code_simp
  then show ?thesis by (simp add: good_setup_def)
qed

lemma good_setup_reports:
  assumes "net_parse_args args = Inr a"
  shows "\<exists>pre post. fst (setup_run good_setup args) = pre @ Report ROUTED # post"
proof -
  have ok: "act_in good_setup ev = ([ev], Inr ())" for ev
    by (simp add: act_in_def act_def good_setup_def)
  have "snd (enter_namespaces good_setup a) = Inr ()"
    by (simp add: enter_namespaces_def ok split: option.split)
  then obtain tr0 where tr0: "enter_namespaces good_setup a = (tr0, Inr ())"
    using prod.collapse by metis
  obtain tr1 where tr1: "install_routes good_setup (na_routes a) 1 0 = (tr1, Inr ())"
    using good_install prod.collapse by metis
  have "fst (setup_run good_setup args) = (tr0 @ Report JOINED # OpenNetlink # tr1) @ Report ROUTED # [ReadStdin]"
    by (simp add: setup_run_def assms tr0 tr1 ok good_ready)
  then show ?thesis by blast
qed

lemma plan_reaches_the_kernel_witness:
  "\<exists>x argv pre post. attach_run good_attach (tl (attach_args ''/p'' (the (route_plan \<lparr>np_allow = [], np_deny = []\<rparr> []))) @ [''--'', ''/bwrap'']) = Some x \<and>
     SpawnSetup argv \<in> set (fst x) \<and> fst (setup_run good_setup (tl argv)) = pre @ Report ROUTED # post \<and>
     Some (acked pre) = route_plan \<lparr>np_allow = [], np_deny = []\<rparr> []"
proof -
  let ?p = "\<lparr>np_allow = [], np_deny = []\<rparr>" and ?plan = "the (route_plan \<lparr>np_allow = [], np_deny = []\<rparr> [])"
  have wf: "wf_policy ?p" by (simp add: wf_policy_def)
  have plan: "route_plan ?p [] = Some ?plan" by (simp add: route_plan_eq)
  note wfp = route_plan_wf[OF wf plan]
  obtain x where x: "attach_run good_attach (tl (attach_args ''/p'' ?plan) @ [''--'', ''/bwrap'']) = Some x"
    "SpawnSetup (setup_argv good_attach ''/proc/1/fd/10'' ?plan) \<in> set (fst x)"
    using good_attach_spawns[OF attach_args_parse[OF wfp, of "''/p''" "[''/bwrap'']"]] by auto
  obtain pre post where tr: "fst (setup_run good_setup (tl (setup_argv good_attach ''/proc/1/fd/10'' ?plan))) = pre @ Report ROUTED # post"
    using good_setup_reports[OF setup_args_parse[OF wfp]] by blast
  show ?thesis
    using plan_reaches_the_kernel[OF wf plan x tr] plan x tr by (intro exI conjI) auto
qed

end
