(* ===== verification/Sandbox.thy ===== *)
theory Sandbox
  imports Sandbox_Net Ci_Config "HOL-Library.List_Lexorder"
begin

text \<open>
  The sandbox that untrusted commands run in (\<open>sandbox/src\<close>): its specification and
  the command line of bubblewrap (\<open>spec.rs\<close>), the helper that runs inside (\<open>helper.rs\<close>), the checkout and the
  git directories mounted with it (\<open>checkout.rs\<close>), the dev shell (\<open>devshell.rs\<close>), the capture of
  output and the check itself (\<open>check\<close>), evaluation (\<open>eval.rs\<close>), the supervisor (\<open>spawn.rs\<close>) and the
  sandbox that starts them (\<open>runner.rs\<close>, \<open>locate.rs\<close>).

  The file system and the processes are arguments: a \<open>Fs\<close> for the calls of \<open>std::fs\<close>, lists of
  observations for a stream or a child that is polled.
\<close>

section \<open>Paths\<close>

text \<open>\<open>Path\<close> compares by components.  \<open>Path::parent\<close> drops the last component, and with it the
  separators and dots around it.\<close>

definition path_eq :: "string \<Rightarrow> string \<Rightarrow> bool" where
  "path_eq a b = (path_components a = path_components b)"

definition is_noise :: "string \<Rightarrow> bool" where
  "is_noise s = (s = [] \<or> s = ''.'')"

definition drop_noise :: "string list \<Rightarrow> string list" where
  "drop_noise ps = hd ps # rev (dropWhile is_noise (rev (tl ps)))"

definition path_parent :: "string \<Rightarrow> string option" where
  "path_parent p =
     (case drop_noise (split_on (CHR ''/'') p) of
        [s] \<Rightarrow> if s = [] then None else Some []
      | ps \<Rightarrow> (let qs = drop_noise (butlast ps) in Some (if qs = [[]] then ''/'' else join_with ''/'' qs)))"

definition with_file_name :: "string \<Rightarrow> string \<Rightarrow> string" where
  "with_file_name p name =
     (case (path_components p, path_parent p) of
        (cs, Some parent) \<Rightarrow> (case last cs of Normal _ \<Rightarrow> path_join parent name | _ \<Rightarrow> path_join p name)
      | (_, None) \<Rightarrow> path_join p name)"

lemma drop_noise_prefix: "ps \<noteq> [] \<Longrightarrow> prefix (drop_noise ps) ps"
  using suffix_dropWhile[of is_noise "rev (tl ps)"] by (cases ps) (auto simp: drop_noise_def suffix_to_prefix)

lemma drop_noise_last: "drop_noise ps \<noteq> [hd ps] \<Longrightarrow> last (drop_noise ps) \<noteq> []"
  using hd_dropWhile[of is_noise "rev (tl ps)"] by (auto simp: drop_noise_def last_rev is_noise_def)

lemma join_append_length:
  "xs \<noteq> [] \<Longrightarrow> ys \<noteq> [] \<Longrightarrow> length (join_with sep (xs @ ys)) = length (join_with sep xs) + length sep + length (join_with sep ys)"
  by (induction xs rule: induct_list012) (auto simp: join_with_Cons)

lemma join_prefix_length: "prefix qs ps \<Longrightarrow> length (join_with sep qs) \<le> length (join_with sep ps)"
proof -
  assume "prefix qs ps"
  then obtain zs where "ps = qs @ zs" by (auto simp: prefix_def)
  then show ?thesis by (cases "qs = []"; cases "zs = []") (simp_all add: join_append_length)
qed

lemma path_parent_shorter: "path_parent p = Some q \<Longrightarrow> length q < length p"
proof -
  assume q: "path_parent p = Some q"
  define ps where "ps = drop_noise (split_on (CHR ''/'') p)"
  have "length (join_with ''/'' ps) \<le> length p"
    using join_prefix_length[OF drop_noise_prefix, of "split_on (CHR ''/'') p" "''/''"] by (simp add: ps_def)
  moreover have "length q < length (join_with ''/'' ps)"
  proof (cases "tl ps = []")
    case True
    then have "ps = [hd ps]" by (simp add: ps_def drop_noise_def)
    then show ?thesis using q by (cases "hd ps") (auto simp: path_parent_def ps_def[symmetric] split: list.splits if_splits)
  next
    case False
    then have ne: "butlast ps \<noteq> []" "ps \<noteq> []" "0 < length (last ps)"
      using drop_noise_last[of "split_on (CHR ''/'') p"] by (auto simp: ps_def drop_noise_def)
    have "q = (if drop_noise (butlast ps) = [[]] then ''/'' else join_with ''/'' (drop_noise (butlast ps)))"
      using q False by (cases ps) (auto simp: path_parent_def ps_def[symmetric] Let_def split: list.splits)
    moreover have "length (join_with ''/'' (drop_noise (butlast ps))) \<le> length (join_with ''/'' (butlast ps))"
      using join_prefix_length[OF drop_noise_prefix[OF ne(1)]] .
    moreover have "length (join_with ''/'' ps) = length (join_with ''/'' (butlast ps)) + 1 + length (last ps)"
      using join_append_length[of "butlast ps" "[last ps]" "''/''"] ne by simp
    ultimately show ?thesis using ne(3) by auto
  qed
  ultimately show ?thesis by simp
qed

function ancestors :: "string \<Rightarrow> string list" where
  "ancestors p = p # (case path_parent p of None \<Rightarrow> [] | Some q \<Rightarrow> ancestors q)"
  by pat_completeness auto
termination by (relation "measure length") (auto dest: path_parent_shorter)

declare ancestors.simps [simp del]

fun render_components :: "Component list \<Rightarrow> string" where
  "render_components (RootDir # cs) = ''/'' @ render_components cs"
| "render_components cs =
     join_with ''/'' (map (\<lambda>c. case c of Normal s \<Rightarrow> s | ParentDir \<Rightarrow> ''..'' | CurDir \<Rightarrow> ''.'' | RootDir \<Rightarrow> []) cs)"

fun lexical_step :: "Component list \<Rightarrow> Component \<Rightarrow> Component list" where
  "lexical_step out ParentDir = (if out = [] \<or> out = [RootDir] then out else butlast out)"
| "lexical_step out CurDir = out"
| "lexical_step out c = out @ [c]"

definition lexical :: "string \<Rightarrow> string" where
  "lexical path = render_components (foldl lexical_step [] (path_components path))"

section \<open>The file system\<close>

datatype FileKind = KindFile | KindDir | KindSymlink | KindOther

record Fs =
  fs_symlink_metadata :: "string \<Rightarrow> FileKind option"
  fs_read_link :: "string \<Rightarrow> string option"
  fs_read :: "string \<Rightarrow> string option"
  fs_canonicalize :: "string \<Rightarrow> string option"
  fs_absolute :: "string \<Rightarrow> string option"
  fs_exists :: "string \<Rightarrow> bool"
  fs_is_dir :: "string \<Rightarrow> bool"
  fs_executable :: "string \<Rightarrow> bool"
  fs_path_var :: "string option"
  fs_current_exe :: "string option"

definition find_in_path :: "Fs \<Rightarrow> string \<Rightarrow> string option" where
  "find_in_path fs name =
     (case fs_path_var fs of
        None \<Rightarrow> None
      | Some path \<Rightarrow> find (fs_executable fs) (map (\<lambda>dir. path_join dir name) (split_on (CHR '':'') path)))"

definition resolve_program :: "Fs \<Rightarrow> string \<Rightarrow> (anyhow, string) result" where
  "resolve_program fs name =
     (case find_in_path fs name of
        None \<Rightarrow> Inl (''`'' @ name @ ''` not found in PATH'')
      | Some found \<Rightarrow>
          (case fs_canonicalize fs found of
             None \<Rightarrow> Inl (''failed to canonicalize '' @ found)
           | Some p \<Rightarrow> Inr p))"

definition HELPER_BIN :: string where
  "HELPER_BIN = ''ekaci-sandbox-helper''"

definition default_helper :: "Fs \<Rightarrow> (anyhow, string) result" where
  "default_helper fs =
     (let sibling = (case fs_current_exe fs of
                       None \<Rightarrow> None
                     | Some exe \<Rightarrow> (case path_parent exe of
                         None \<Rightarrow> None
                       | Some dir \<Rightarrow> if fs_executable fs (path_join dir HELPER_BIN) then Some (path_join dir HELPER_BIN) else None));
          found = (case sibling of Some p \<Rightarrow> Some p | None \<Rightarrow> find_in_path fs HELPER_BIN)
      in case found of
           Some p \<Rightarrow> Inr (case fs_canonicalize fs p of Some q \<Rightarrow> q | None \<Rightarrow> p)
         | None \<Rightarrow> Inl (''`'' @ HELPER_BIN @ ''` not found next to the server binary or in PATH''))"

section \<open>The specification of a sandbox\<close>

definition NIX_DAEMON_SOCKET_DIR :: string where
  "NIX_DAEMON_SOCKET_DIR = ''/nix/var/nix/daemon-socket''"

definition SYSTEM_RO_PATHS :: "string list" where
  "SYSTEM_RO_PATHS =
     [''/nix/store'', ''/etc/ssl/certs'', ''/etc/resolv.conf'', ''/etc/hosts'', ''/etc/passwd'', ''/etc/group'', ''/etc/static'']"

definition SANDBOX_HOME :: string where
  "SANDBOX_HOME = ''/tmp/home''"

record SandboxSpec =
  sp_program :: string
  sp_args :: "string list"
  sp_ro_paths :: "string list"
  sp_rw_paths :: "string list"
  sp_env :: "(string \<times> string) list"
  sp_cwd :: "string option"
  sp_timeout :: "duration option"
  sp_memory_limit_bytes :: "64 word option"
  sp_network :: Network
  sp_probe :: bool

definition SandboxSpec_new :: "string \<Rightarrow> SandboxSpec" where
  "SandboxSpec_new program =
     \<lparr>sp_program = program, sp_args = [], sp_ro_paths = [], sp_rw_paths = [], sp_env = [], sp_cwd = None, sp_timeout = None,
      sp_memory_limit_bytes = None, sp_network = NetNone, sp_probe = False\<rparr>"

definition spec_args :: "string list \<Rightarrow> SandboxSpec \<Rightarrow> SandboxSpec" where
  "spec_args args spec = spec\<lparr>sp_args := sp_args spec @ args\<rparr>"

definition spec_ro_path :: "string \<Rightarrow> SandboxSpec \<Rightarrow> SandboxSpec" where
  "spec_ro_path path spec = spec\<lparr>sp_ro_paths := sp_ro_paths spec @ [path]\<rparr>"

definition spec_rw_path :: "string \<Rightarrow> SandboxSpec \<Rightarrow> SandboxSpec" where
  "spec_rw_path path spec = spec\<lparr>sp_rw_paths := sp_rw_paths spec @ [path]\<rparr>"

definition spec_env :: "string \<Rightarrow> string \<Rightarrow> SandboxSpec \<Rightarrow> SandboxSpec" where
  "spec_env key value spec = spec\<lparr>sp_env := sp_env spec @ [(key, value)]\<rparr>"

definition user_mounts :: "SandboxSpec \<Rightarrow> (string \<times> string) list" where
  "user_mounts spec =
     sort_key (\<lambda>(p, _). length (path_components p))
       (map (\<lambda>p. (p, ''--ro-bind'')) (sp_ro_paths spec) @ map (\<lambda>p. (p, ''--bind'')) (sp_rw_paths spec))"

definition mount_args :: "SandboxSpec \<Rightarrow> string \<Rightarrow> string list" where
  "mount_args spec helper =
     (let filtered = (sp_network spec = NetFiltered)
      in concat (map (\<lambda>p. if filtered \<and> p = ''/etc/resolv.conf'' then [] else [''--ro-bind-try'', p, p]) SYSTEM_RO_PATHS)
         @ (if filtered then [''--ro-bind-data'', display_nat RESOLV_FD, ''/etc/resolv.conf''] else [])
         @ [''--ro-bind-try'', NIX_DAEMON_SOCKET_DIR, NIX_DAEMON_SOCKET_DIR]
         @ concat (map (\<lambda>bin. if path_starts_with bin ''/nix/store'' then [] else [''--ro-bind'', bin, bin]) [helper, sp_program spec])
         @ concat (map (\<lambda>(p, flag). [flag, p, p]) (user_mounts spec)))"

definition setenv_args :: "(string \<times> string) list \<Rightarrow> string list" where
  "setenv_args kvs = concat (map (\<lambda>(k, v). [''--setenv'', k, v]) kvs)"

definition base_env :: "SandboxSpec \<Rightarrow> (string \<times> string) list" where
  "base_env spec =
     [(''PATH'', case path_parent (sp_program spec) of None \<Rightarrow> [] | Some p \<Rightarrow> to_string_lossy p),
      (''HOME'', SANDBOX_HOME), (''TMPDIR'', ''/tmp''), (''NIX_REMOTE'', ''daemon'')]"

definition env_args :: "SandboxSpec \<Rightarrow> string list" where
  "env_args spec = setenv_args (base_env spec) @ setenv_args (sp_env spec)"

definition bwrap_prefix :: "SandboxSpec \<Rightarrow> string \<Rightarrow> string list" where
  "bwrap_prefix spec helper =
     [''--unshare-all'', ''--clearenv'', ''--die-with-parent'', ''--new-session'', ''--proc'', ''/proc'', ''--dev'', ''/dev'',
      ''--tmpfs'', ''/tmp'', ''--dir'', SANDBOX_HOME]
     @ mount_args spec helper
     @ env_args spec
     @ (case sp_cwd spec of Some cwd \<Rightarrow> [''--chdir'', cwd] | None \<Rightarrow> [])
     @ [''--'']"

definition program_outside_store :: "SandboxSpec \<Rightarrow> string list" where
  "program_outside_store spec = (if path_starts_with (sp_program spec) ''/nix/store'' then [] else [sp_program spec])"

definition helper_ro :: "SandboxSpec \<Rightarrow> string list" where
  "helper_ro spec = SYSTEM_RO_PATHS @ [''/proc''] @ sp_ro_paths spec @ program_outside_store spec"

definition helper_rw :: "SandboxSpec \<Rightarrow> string list" where
  "helper_rw spec = [''/tmp'', ''/dev''] @ sp_rw_paths spec"

definition helper_args :: "SandboxSpec \<Rightarrow> string list" where
  "helper_args spec =
     concat (map (\<lambda>p. [''--ro'', p]) (helper_ro spec))
     @ concat (map (\<lambda>p. [''--rw'', p]) (helper_rw spec))
     @ [''--socket-dir'', NIX_DAEMON_SOCKET_DIR]
     @ (case sp_memory_limit_bytes spec of Some bytes \<Rightarrow> [''--mem'', display_nat (unat bytes)] | None \<Rightarrow> [])
     @ [''--'', sp_program spec]
     @ sp_args spec"

definition bwrap_args :: "SandboxSpec \<Rightarrow> string \<Rightarrow> string list" where
  "bwrap_args spec helper =
     bwrap_prefix spec helper @ [helper] @ (if sp_probe spec then [''--probe''] else helper_args spec)"

section \<open>The helper\<close>

record HelperArgs =
  ha_ro :: "string list"
  ha_rw :: "string list"
  ha_socket_dirs :: "string list"
  ha_mem_bytes :: "64 word option"
  ha_probe :: bool
  ha_command :: "string list"

definition HelperArgs_default :: HelperArgs where
  "HelperArgs_default = \<lparr>ha_ro = [], ha_rw = [], ha_socket_dirs = [], ha_mem_bytes = None, ha_probe = False, ha_command = []\<rparr>"

definition set_helper_flag :: "string \<Rightarrow> string \<Rightarrow> HelperArgs \<Rightarrow> (anyhow, HelperArgs) result" where
  "set_helper_flag flag value out =
     (if flag = ''--ro'' then Inr (out\<lparr>ha_ro := ha_ro out @ [value]\<rparr>)
      else if flag = ''--rw'' then Inr (out\<lparr>ha_rw := ha_rw out @ [value]\<rparr>)
      else if flag = ''--socket-dir'' then Inr (out\<lparr>ha_socket_dirs := ha_socket_dirs out @ [value]\<rparr>)
      else case parse_uint (2 ^ 64 - 1) (to_string_lossy value) of
             None \<Rightarrow> Inl ''invalid --mem value''
           | Some n \<Rightarrow> Inr (out\<lparr>ha_mem_bytes := Some (of_nat n)\<rparr>))"

fun helper_args_loop :: "HelperArgs \<Rightarrow> string list \<Rightarrow> (anyhow, HelperArgs) result" where
  "helper_args_loop out [] = Inr out"
| "helper_args_loop out (f # it) =
     (let flag = to_string_lossy f
      in if flag = ''--'' then Inr (out\<lparr>ha_command := it\<rparr>)
         else if flag = ''--probe'' then helper_args_loop (out\<lparr>ha_probe := True\<rparr>) it
         else if flag \<in> {''--ro'', ''--rw'', ''--socket-dir'', ''--mem''}
         then (case it of
                 [] \<Rightarrow> Inl (''missing value for `'' @ flag @ ''`'')
               | value # it' \<Rightarrow>
                   (case set_helper_flag flag value out of
                      Inl e \<Rightarrow> Inl e
                    | Inr out' \<Rightarrow> helper_args_loop out' it'))
         else Inl (''unknown helper argument `'' @ flag @ ''`''))"

definition helper_parse_args :: "string list \<Rightarrow> (anyhow, HelperArgs) result" where
  "helper_parse_args args =
     (case helper_args_loop HelperArgs_default args of
        Inl e \<Rightarrow> Inl e
      | Inr out \<Rightarrow>
          if \<not> ha_probe out \<and> ha_command out = [] then Inl ''no command given after `--`'' else Inr out)"

text \<open>The landlock rules of \<open>restrict\<close>, and the run of the helper.  What is not in the trace did not happen;
  \<open>exec\<close> returns only when it fails.\<close>

datatype LandlockAccess = ReadAccess | AllAccess | SocketAccess | ReadDirAccess

datatype RulesetStatus = FullyEnforced | PartiallyEnforced | NotEnforced

datatype HelperEvent =
    SetAddressSpaceLimit "64 word"
  | Restrict "(string list \<times> LandlockAccess) list"
  | PrintProbe string
  | Exec "string list"

definition landlock_rules :: "HelperArgs \<Rightarrow> (string list \<times> LandlockAccess) list" where
  "landlock_rules args =
     [(ha_ro args, ReadAccess), (ha_rw args, AllAccess), (ha_socket_dirs args, SocketAccess), ([''/''], ReadDirAccess)]"

fun status_label :: "RulesetStatus \<Rightarrow> string" where
  "status_label FullyEnforced = ''full''"
| "status_label PartiallyEnforced = ''partial''"
| "status_label NotEnforced = ''none''"

definition PROBE_PREFIX :: string where
  "PROBE_PREFIX = ''ekaci-sandbox-probe landlock=''"

definition helper_run :: "(HelperEvent \<Rightarrow> (anyhow, unit) result) \<Rightarrow> RulesetStatus \<Rightarrow> string list \<Rightarrow> (HelperEvent, unit) traced" where
  "helper_run ok status args =
     (case helper_parse_args args of
        Inl e \<Rightarrow> ([], Inl e)
      | Inr args \<Rightarrow>
          trace_then (case ha_mem_bytes args of None \<Rightarrow> ([], Inr ()) | Some bytes \<Rightarrow> act ok (SetAddressSpaceLimit bytes)) (\<lambda>_.
          trace_then (act ok (Restrict (landlock_rules args))) (\<lambda>_.
          if ha_probe args then act ok (PrintProbe (PROBE_PREFIX @ status_label status))
          else act ok (Exec (ha_command args)))))"

datatype HelperMode = NetSetup "string list" | NetAttach "string list" | RunCommand "string list"

definition helper_dispatch :: "string list \<Rightarrow> HelperMode" where
  "helper_dispatch args =
     (case args of
        a # as \<Rightarrow> if a = SETUP_FLAG then NetSetup as else if a = ATTACH_FLAG then NetAttach as else RunCommand args
      | [] \<Rightarrow> RunCommand [])"

section \<open>The checkout\<close>

record Checkout =
  co_root :: string
  co_git :: "string list"
  co_unmounted_git :: "string option option"

definition linked_git_dirs :: "Fs \<Rightarrow> string \<Rightarrow> string \<Rightarrow> string list" where
  "linked_git_dirs fs root_dir dot_git =
     (case (fs_absolute fs root_dir, fs_canonicalize fs root_dir) of
        (Some given_path, Some real_path) \<Rightarrow>
          (let given' = lexical given_path;
               inside = (\<lambda>p. path_starts_with p given' \<or> path_starts_with p real_path);
               written = (case fs_read fs dot_git of
                            None \<Rightarrow> None
                          | Some c \<Rightarrow> (case strip_prefix_str ''gitdir:'' (str_trim c) of
                              None \<Rightarrow> None
                            | Some dir \<Rightarrow> Some (lexical (path_join given' (str_trim dir)))))
           in case written of
                None \<Rightarrow> []
              | Some written \<Rightarrow>
                  (case fs_canonicalize fs written of
                     None \<Rightarrow> []
                   | Some gitdir \<Rightarrow>
                       (let back = (case fs_read fs (path_join gitdir ''gitdir'') of
                                      None \<Rightarrow> None
                                    | Some b \<Rightarrow> fs_canonicalize fs (path_join gitdir (str_trim b)))
                        in if inside written \<or> inside gitdir \<or>
                              \<not> (case back of None \<Rightarrow> False | Some b \<Rightarrow> path_eq b (path_join real_path ''.git''))
                           then []
                           else written #
                                (case fs_read fs (path_join gitdir ''commondir'') of
                                   None \<Rightarrow> []
                                 | Some c \<Rightarrow>
                                     (let common = lexical (path_join written (str_trim c))
                                      in if \<not> inside common \<and>
                                            (case fs_canonicalize fs common of
                                               None \<Rightarrow> False
                                             | Some r \<Rightarrow> \<not> path_eq r gitdir \<and> \<not> inside r)
                                         then [common] else [])))))
      | _ \<Rightarrow> [])"

definition git_paths :: "Fs \<Rightarrow> string \<Rightarrow> string list" where
  "git_paths fs root_dir =
     (let dot_git = path_join root_dir ''.git''
      in case fs_symlink_metadata fs dot_git of
           None \<Rightarrow> []
         | Some KindFile \<Rightarrow> dot_git # linked_git_dirs fs root_dir dot_git
         | Some KindSymlink \<Rightarrow> []
         | Some _ \<Rightarrow> [dot_git])"

definition Checkout_resolve :: "Fs \<Rightarrow> string \<Rightarrow> Checkout" where
  "Checkout_resolve fs root_dir =
     (let dot_git = path_join root_dir ''.git''
      in \<lparr>co_root = root_dir, co_git = git_paths fs root_dir,
          co_unmounted_git =
            (case fs_symlink_metadata fs dot_git of
               None \<Rightarrow> Some None
             | Some KindSymlink \<Rightarrow> Some (fs_read_link fs dot_git)
             | Some _ \<Rightarrow> None)\<rparr>)"

text \<open>What \<open>.git\<close> is, with the target that \<open>read_link\<close> gives for a link.  The two booleans say whether
  removing it and linking it again succeed.\<close>

datatype GitNode = NodeFile | NodeDir | NodeLink "string option" | NodeOther

definition opt_path_eq :: "string option \<Rightarrow> string option \<Rightarrow> bool" where
  "opt_path_eq a b = (case (a, b) of (Some x, Some y) \<Rightarrow> path_eq x y | (None, None) \<Rightarrow> True | _ \<Rightarrow> False)"

definition restore_git :: "Checkout \<Rightarrow> bool \<Rightarrow> bool \<Rightarrow> GitNode option \<Rightarrow> GitNode option" where
  "restore_git checkout removes links current =
     (case co_unmounted_git checkout of
        None \<Rightarrow> current
      | Some original \<Rightarrow>
          (let link = (case current of Some (NodeLink t) \<Rightarrow> t | _ \<Rightarrow> None)
           in if current = None \<and> original = None \<or> link \<noteq> None \<and> opt_path_eq link original then current
              else if current \<noteq> None \<and> \<not> removes then current
              else case original of
                     Some target \<Rightarrow> if links then Some (NodeLink (Some target)) else None
                   | None \<Rightarrow> None))"

section \<open>The dev shell\<close>

datatype DevShell = Flake "string option" | ShellNix "string option"

definition ENV_MARKER :: string where
  "ENV_MARKER = CHR 0x00 # ''__EKACI_ENV__'' @ [CHR 0x00]"

definition PRINT_ENV :: string where
  "PRINT_ENV = ''printf '' @ [CHR 0x27, CHR 0x5C] @ ''000__EKACI_ENV__'' @ [CHR 0x5C] @ ''000'' @ [CHR 0x27] @ ''; exec env -0''"

definition for_check :: "string \<Rightarrow> string option \<Rightarrow> bool \<Rightarrow> DevShell option" where
  "for_check command name shell_nix =
     (if prefix ''nix build '' command then None
      else Some (if shell_nix then ShellNix name else Flake name))"

fun entry_file :: "DevShell \<Rightarrow> string" where
  "entry_file (Flake _) = ''flake.nix''"
| "entry_file (ShellNix _) = ''shell.nix''"

fun shell_command :: "DevShell \<Rightarrow> string \<times> string list" where
  "shell_command (Flake name) =
     (''nix'',
      [''--extra-experimental-features'', ''nix-command flakes'', ''develop'', ''--no-write-lock-file'',
       (case name of None \<Rightarrow> ''.'' | Some n \<Rightarrow> ''.#'' @ n), ''--command'', ''sh'', ''-c'', PRINT_ENV])"
| "shell_command (ShellNix name) =
     (''nix-shell'',
      [''shell.nix''] @ (case name of None \<Rightarrow> [] | Some n \<Rightarrow> [''-A'', n]) @ [''--run'', PRINT_ENV])"

definition TRANSIENT_VARS :: "string list" where
  "TRANSIENT_VARS = [''HOME'', ''NIX_BUILD_TOP'', ''OLDPWD'', ''PWD'', ''SHLVL'', ''TEMP'', ''TEMPDIR'', ''TMP'', ''TMPDIR'', ''_'']"

definition env_entry :: "string \<Rightarrow> (string \<times> string) option" where
  "env_entry entry =
     (case split_once (CHR ''='') (to_string_lossy entry) of
        None \<Rightarrow> None
      | Some (k, v) \<Rightarrow> if k \<noteq> [] \<and> k \<notin> set TRANSIENT_VARS then Some (k, v) else None)"

text \<open>\<open>Vec::sort\<close> on pairs of strings: stable, by value, then by name.\<close>

definition sort_vars :: "(string \<times> string) list \<Rightarrow> (string \<times> string) list" where
  "sort_vars vars =
     sort_key (\<lambda>(k, _). map (of_char :: char \<Rightarrow> nat) k) (sort_key (\<lambda>(_, v). map (of_char :: char \<Rightarrow> nat) v) vars)"

definition parse_env :: "string \<Rightarrow> (anyhow, (string \<times> string) list) result" where
  "parse_env output =
     (case after_first ENV_MARKER output of
        None \<Rightarrow> Inl ''dev shell did not print its environment''
      | Some env \<Rightarrow> Inr (sort_vars (List.map_filter env_entry (split_on (CHR 0x00) env))))"

definition require_entry_file :: "Fs \<Rightarrow> DevShell \<Rightarrow> string \<Rightarrow> (anyhow, unit) result" where
  "require_entry_file fs shell checkout =
     (if fs_exists fs (path_join checkout (entry_file shell)) then Inr ()
      else Inl (''no '' @ entry_file shell @ '' found in the repository; checks with shell_nix = ''
                @ (case shell of ShellNix _ \<Rightarrow> ''true'' | Flake _ \<Rightarrow> ''false'') @ '' need one''))"

end
