(* ===== verification/Sandbox_Run.thy ===== *)
theory Sandbox_Run
  imports Sandbox
begin

text \<open>
  Running in the sandbox: the supervisor of a child (\<open>spawn.rs\<close>), the sandbox with its
  preflight probes (\<open>runner.rs\<close>), the capture of output and checks (\<open>check\<close>) and
  evaluation (\<open>eval.rs\<close>).  A child is what the system makes of a command: the reads of its two streams, the
  rounds of its supervisor and what it leaves at \<open>.git\<close>.
\<close>

section \<open>Durations as text\<close>

definition DEFAULT_TIMEOUT :: duration where
  "DEFAULT_TIMEOUT = from_secs (30 * 60)"

definition DEFAULT_MEMORY_LIMIT_MB :: "64 word" where
  "DEFAULT_MEMORY_LIMIT_MB = 8192"

text \<open>\<open>Debug\<close> of \<open>Duration\<close>: the largest unit that is not zero, with the fraction's trailing zeros cut.\<close>

fun frac_digits :: "nat \<Rightarrow> nat \<Rightarrow> string" where
  "frac_digits 0 n = []"
| "frac_digits (Suc w) n = frac_digits w (n div 10) @ [char_of (48 + n mod 10)]"

definition fmt_decimal :: "nat \<Rightarrow> nat \<Rightarrow> nat \<Rightarrow> string \<Rightarrow> string" where
  "fmt_decimal whole fraction width unit_name =
     display_nat whole
     @ (if fraction = 0 then [] else ''.'' @ rev (dropWhile (\<lambda>c. c = CHR ''0'') (rev (frac_digits width fraction))))
     @ unit_name"

definition debug_duration :: "duration \<Rightarrow> string" where
  "debug_duration d =
     (let secs = d div nanos_per_sec; nanos = d mod nanos_per_sec
      in if 0 < secs then fmt_decimal secs nanos 9 ''s''
         else if 1000000 \<le> nanos then fmt_decimal (nanos div 1000000) (nanos mod 1000000) 6 ''ms''
         else if 1000 \<le> nanos then fmt_decimal (nanos div 1000) (nanos mod 1000) 3 [CHR 0xC2, CHR 0xB5, CHR ''s'']
         else fmt_decimal nanos 0 1 ''ns'')"

definition timeout_note :: "duration \<Rightarrow> string" where
  "timeout_note limit = ''[ekaci: check timed out after '' @ debug_duration limit @ '']''"

section \<open>The supervisor of a child\<close>

datatype SandboxExit = Exited ExitStatus | TimedOut duration

definition FALLBACK_POLL :: duration where
  "FALLBACK_POLL = 50000000"

text \<open>The time that \<open>poll\<close> gets: the time left, or the fallback interval when there is no pidfd.\<close>

definition poll_wait :: "duration option \<Rightarrow> bool \<Rightarrow> duration option" where
  "poll_wait left pidfd =
     (case (left, pidfd) of
        (Some l, True) \<Rightarrow> Some l
      | (Some l, False) \<Rightarrow> Some (min l FALLBACK_POLL)
      | (None, True) \<Rightarrow> None
      | (None, False) \<Rightarrow> Some FALLBACK_POLL)"

definition poll_ms :: "duration option \<Rightarrow> int" where
  "poll_ms wait =
     (case wait of
        None \<Rightarrow> - 1
      | Some d \<Rightarrow> int (min ((d div 1000 + 999) div 1000) 2147483647))"

text \<open>A round: what \<open>try_wait\<close> says, the time, and the result of \<open>poll\<close>; an interrupted \<open>poll\<close> is
  \<^term>\<open>Inr False\<close>.  \<open>reap\<close> is the result of \<open>kill_and_reap\<close>.  \<^const>\<open>None\<close>: still running when the
  rounds end.\<close>

type_synonym watch_round = "(anyhow, ExitStatus option) result \<times> instant \<times> (anyhow, bool) result"

fun watch_loop ::
  "duration option \<Rightarrow> instant option \<Rightarrow> (anyhow, ExitStatus) result \<Rightarrow> watch_round list \<Rightarrow> (anyhow, SandboxExit) result option" where
  "watch_loop timeout deadline reap [] = None"
| "watch_loop timeout deadline reap ((waited, now, poll) # rounds) =
     (case waited of
        Inl e \<Rightarrow> Some (Inl e)
      | Inr (Some status) \<Rightarrow> Some (Inr (Exited status))
      | Inr None \<Rightarrow>
          (let left = map_option (\<lambda>d. duration_since d now) deadline
           in case (left, timeout) of
                (Some 0, Some t) \<Rightarrow> Some (map_sum id (\<lambda>_. TimedOut t) reap)
              | _ \<Rightarrow>
                  (case poll of
                     Inl e \<Rightarrow> Some (Inl e)
                   | Inr True \<Rightarrow> Some (map_sum id Exited reap)
                   | Inr False \<Rightarrow> watch_loop timeout deadline reap rounds)))"

definition watch :: "duration option \<Rightarrow> instant \<Rightarrow> (anyhow, ExitStatus) result \<Rightarrow> watch_round list \<Rightarrow> (anyhow, SandboxExit) result option" where
  "watch timeout start reap rounds = watch_loop timeout (map_option (\<lambda>t. start + int t) timeout) reap rounds"

section \<open>The sandbox\<close>

text \<open>A child that was spawned; \<open>ch_exit\<close> is what its supervisor returns.\<close>

record Child =
  ch_stdout :: "(anyhow, string) result list option"
  ch_stderr :: "(anyhow, string) result list option"
  ch_exit :: "(anyhow, SandboxExit) result"
  ch_git :: "GitNode option \<Rightarrow> GitNode option"

record Sandbox =
  sb_bwrap :: string
  sb_helper :: string
  sb_pasta :: "string option"
  sb_policy :: NetworkPolicy
  sb_probed :: bool
  sb_net_probed :: bool

record RunnerEnv =
  ru_fs :: Fs
  ru_hosts :: "(anyhow, Ipv4Addr list) result"
  ru_spawn :: "string list \<Rightarrow> duration option \<Rightarrow> (anyhow, Child) result"

definition Sandbox_with_paths :: "string \<Rightarrow> string \<Rightarrow> Sandbox" where
  "Sandbox_with_paths bwrap helper =
     \<lparr>sb_bwrap = bwrap, sb_helper = helper, sb_pasta = None, sb_policy = \<lparr>np_allow = [], np_deny = []\<rparr>,
      sb_probed = False, sb_net_probed = False\<rparr>"

definition Sandbox_locate :: "Fs \<Rightarrow> string option \<Rightarrow> (anyhow, Sandbox) result" where
  "Sandbox_locate fs helper =
     (case find_in_path fs ''bwrap'' of
        None \<Rightarrow> Inl ''bubblewrap (`bwrap`) not found in PATH; the evaluation sandbox requires it''
      | Some bwrap \<Rightarrow>
          (case (case helper of Some p \<Rightarrow> Inr p | None \<Rightarrow> default_helper fs) of
             Inl e \<Rightarrow> Inl e
           | Inr helper \<Rightarrow> Inr ((Sandbox_with_paths bwrap helper)\<lparr>sb_pasta := find_in_path fs ''pasta''\<rparr>)))"

definition bwrap_command :: "Sandbox \<Rightarrow> SandboxSpec \<Rightarrow> string list" where
  "bwrap_command sb spec = sb_bwrap sb # bwrap_args spec (sb_helper sb)"

definition filtered_command :: "RunnerEnv \<Rightarrow> Sandbox \<Rightarrow> SandboxSpec \<Rightarrow> (anyhow, string list) result" where
  "filtered_command R sb spec =
     (case sb_pasta sb of
        None \<Rightarrow> Inl ''passt (`pasta`) not found in PATH; it is required for sandboxes with network access''
      | Some pasta \<Rightarrow>
          (case ru_hosts R of
             Inl e \<Rightarrow> Inl (''failed to list host IPv4 addresses: '' @ e)
           | Inr host \<Rightarrow>
               (case route_plan (sb_policy sb) host of
                  None \<Rightarrow> Inl ''panic''
                | Some plan \<Rightarrow>
                    Inr ([sb_helper sb] @ attach_args pasta plan @ [''--'', sb_bwrap sb] @ bwrap_args spec (sb_helper sb)))))"

definition PROBE_TIMEOUT :: duration where
  "PROBE_TIMEOUT = from_secs 30"

definition exit_success :: "SandboxExit \<Rightarrow> bool" where
  "exit_success e = (case e of Exited (ExitCode c) \<Rightarrow> c = 0 | _ \<Rightarrow> False)"

text \<open>The commands that are spawned are the trace.\<close>

type_synonym 'a spawned = "(string list, 'a) traced"

definition run_child :: "RunnerEnv \<Rightarrow> string list \<Rightarrow> duration option \<Rightarrow> Child spawned" where
  "run_child R cmd timeout = (case ru_spawn R cmd timeout of Inl e \<Rightarrow> ([cmd], Inl e) | Inr c \<Rightarrow> ([cmd], Inr c))"

definition command_for :: "RunnerEnv \<Rightarrow> Sandbox \<Rightarrow> SandboxSpec \<Rightarrow> (anyhow, string list) result" where
  "command_for R sb spec =
     (case sp_network spec of
        NetNone \<Rightarrow> Inr (bwrap_command sb spec)
      | NetFiltered \<Rightarrow> filtered_command R sb spec)"

definition probe_spec :: "Sandbox \<Rightarrow> Network \<Rightarrow> SandboxSpec" where
  "probe_spec sb network = (SandboxSpec_new (sb_helper sb))\<lparr>sp_network := network, sp_probe := True\<rparr>"

definition probe :: "RunnerEnv \<Rightarrow> Sandbox \<Rightarrow> Network \<Rightarrow> unit spawned" where
  "probe R sb network =
     (case command_for R sb (probe_spec sb network) of
        Inl e \<Rightarrow> ([], Inl e)
      | Inr cmd \<Rightarrow>
          trace_then (run_child R cmd (Some PROBE_TIMEOUT)) (\<lambda>child.
            case ch_exit child of
              Inl e \<Rightarrow> ([], Inl e)
            | Inr exit \<Rightarrow> if exit_success exit then ([], Inr ()) else ([], Inl ''sandbox preflight failed'')))"

text \<open>\<open>OnceCell::get_or_try_init\<close>: a probe that succeeded is not repeated, one that failed is.\<close>

definition preflight :: "RunnerEnv \<Rightarrow> Sandbox \<Rightarrow> Sandbox \<times> unit spawned" where
  "preflight R sb =
     (if sb_probed sb then (sb, [], Inr ())
      else case probe R sb NetNone of
             (tr, Inl e) \<Rightarrow> (sb, tr, Inl e)
           | (tr, Inr _) \<Rightarrow> (sb\<lparr>sb_probed := True\<rparr>, tr, Inr ()))"

definition preflight_network :: "RunnerEnv \<Rightarrow> Sandbox \<Rightarrow> Sandbox \<times> unit spawned" where
  "preflight_network R sb =
     (case preflight R sb of
        (sb, tr, Inl e) \<Rightarrow> (sb, tr, Inl e)
      | (sb, tr, Inr _) \<Rightarrow>
          if sb_net_probed sb then (sb, tr, Inr ())
          else (case probe R sb NetFiltered of
                  (tr', Inl e) \<Rightarrow> (sb, tr @ tr', Inl e)
                | (tr', Inr _) \<Rightarrow> (sb\<lparr>sb_net_probed := True\<rparr>, tr @ tr', Inr ())))"

definition sandbox_spawn :: "RunnerEnv \<Rightarrow> Sandbox \<Rightarrow> SandboxSpec \<Rightarrow> Sandbox \<times> Child spawned" where
  "sandbox_spawn R sb spec =
     (case (case sp_network spec of NetNone \<Rightarrow> preflight R sb | NetFiltered \<Rightarrow> preflight_network R sb) of
        (sb, tr, Inl e) \<Rightarrow> (sb, tr, Inl e)
      | (sb, tr, Inr _) \<Rightarrow>
          (case command_for R sb spec of
             Inl e \<Rightarrow> (sb, tr, Inl e)
           | Inr cmd \<Rightarrow> (case run_child R cmd (sp_timeout spec) of (tr', r) \<Rightarrow> (sb, tr @ tr', r))))"

section \<open>Captured output\<close>

definition OUTPUT_LIMIT :: nat where
  "OUTPUT_LIMIT = 4 * 1024 * 1024"

definition TRUNCATED :: string where
  "TRUNCATED = CHR 0x0A # ''[ekaci: output truncated]'' @ [CHR 0x0A]"

text \<open>The reads of a stream: a read of no bytes is its end.\<close>

fun capped_loop :: "nat \<Rightarrow> string \<Rightarrow> bool \<Rightarrow> (anyhow, string) result list \<Rightarrow> string \<times> bool" where
  "capped_loop limit kept truncated [] = (kept, truncated)"
| "capped_loop limit kept truncated (Inl e # reads) = (kept, truncated)"
| "capped_loop limit kept truncated (Inr buf # reads) =
     (if buf = [] then (kept, truncated)
      else let room = limit - length kept
           in capped_loop limit (kept @ take (min (length buf) room) buf) (truncated \<or> room < length buf) reads)"

definition read_capped :: "nat \<Rightarrow> (anyhow, string) result list option \<Rightarrow> string" where
  "read_capped limit stream =
     (case stream of
        None \<Rightarrow> []
      | Some reads \<Rightarrow>
          (case capped_loop limit [] False reads of
             (kept, truncated) \<Rightarrow> if truncated then kept @ TRUNCATED else kept))"

section \<open>Checks\<close>

record Limits =
  li_timeout :: duration
  li_memory_limit_mb :: "64 word"

definition Limits_default :: Limits where
  "Limits_default = \<lparr>li_timeout = DEFAULT_TIMEOUT, li_memory_limit_mb = DEFAULT_MEMORY_LIMIT_MB\<rparr>"

record CheckOutput =
  cko_exit :: SandboxExit
  cko_stdout :: string
  cko_stderr :: string

definition check_success :: "CheckOutput \<Rightarrow> bool" where
  "check_success o' = exit_success (cko_exit o')"

definition stderr_with_timeout :: "CheckOutput \<Rightarrow> string" where
  "stderr_with_timeout o' =
     (case cko_exit o' of
        TimedOut limit \<Rightarrow> cko_stderr o' @ [CHR 0x0A] @ timeout_note limit @ [CHR 0x0A]
      | Exited _ \<Rightarrow> cko_stderr o')"

definition check_exit_code :: "CheckOutput \<Rightarrow> int" where
  "check_exit_code o' =
     (case cko_exit o' of
        Exited (ExitCode c) \<Rightarrow> c
      | Exited (ExitSignal _) \<Rightarrow> - 1
      | TimedOut _ \<Rightarrow> - 1)"

record CheckSandbox =
  cs_sandbox :: Sandbox
  cs_check :: Limits
  cs_shell :: Limits

definition saturating_mul :: "64 word \<Rightarrow> 64 word \<Rightarrow> 64 word" where
  "saturating_mul a b = (if unat a * unat b < 2 ^ 64 then a * b else - 1)"

definition checkout_spec :: "string \<Rightarrow> Checkout \<Rightarrow> Limits \<Rightarrow> SandboxSpec" where
  "checkout_spec program checkout limits =
     (let spec = (spec_rw_path (co_root checkout) (SandboxSpec_new program))
                   \<lparr>sp_cwd := Some (co_root checkout), sp_timeout := Some (li_timeout limits),
                    sp_memory_limit_bytes := Some (saturating_mul (li_memory_limit_mb limits) (1024 * 1024))\<rparr>
      in fold spec_ro_path (co_git checkout) spec)"

definition shell_program :: "Fs \<Rightarrow> (anyhow, string) result" where
  "shell_program fs =
     (case resolve_program fs ''sh'' of
        Inr p \<Rightarrow> Inr p
      | Inl e \<Rightarrow> (case fs_canonicalize fs ''/bin/sh'' of
          Some p \<Rightarrow> Inr p
        | None \<Rightarrow> Inl (e @ ''; /bin/sh is not usable either'')))"

text \<open>The spec of a check: \<open>PATH\<close> of the dev shell goes before the directories of \<open>sh\<close> and \<open>nix\<close>.\<close>

definition check_path :: "string \<Rightarrow> string \<Rightarrow> (string \<times> string) list \<Rightarrow> string" where
  "check_path sh nix env =
     (let base_path = join_with '':'' (map to_string_lossy (List.map_filter path_parent [sh, nix]))
      in case find (\<lambda>(k, _). k = ''PATH'') env of
           None \<Rightarrow> base_path
         | Some (_, p) \<Rightarrow> p @ '':'' @ base_path)"

definition check_spec :: "Limits \<Rightarrow> string \<Rightarrow> string \<Rightarrow> Checkout \<Rightarrow> string \<Rightarrow> bool \<Rightarrow> (string \<times> string) list \<Rightarrow> SandboxSpec" where
  "check_spec limits sh nix checkout command allow_network env =
     (let spec = (spec_args [''-c'', command] (checkout_spec sh checkout limits))
                   \<lparr>sp_network := (if allow_network then NetFiltered else NetNone)\<rparr>;
          spec = fold (\<lambda>(k, v). spec_env k v) (filter (\<lambda>(k, _). k \<noteq> ''PATH'') env) spec
      in spec_env ''PATH'' (check_path sh nix env) spec)"

text \<open>The result of running a check: the sandbox, what is at \<open>.git\<close>, the commands spawned and
  the output.  The booleans are those of \<^const>\<open>restore_git\<close>.\<close>

record CheckEnv = RunnerEnv +
  ce_removes :: bool
  ce_links :: bool

definition spawn_and_capture ::
  "CheckEnv \<Rightarrow> Sandbox \<Rightarrow> SandboxSpec \<Rightarrow> Checkout \<Rightarrow> GitNode option \<Rightarrow> Sandbox \<times> GitNode option \<times> CheckOutput spawned" where
  "spawn_and_capture X sb spec checkout git =
     (case sandbox_spawn (RunnerEnv.truncate X) sb spec of
        (sb, tr, Inl e) \<Rightarrow> (sb, git, tr, Inl e)
      | (sb, tr, Inr child) \<Rightarrow>
          (let out = read_capped OUTPUT_LIMIT (ch_stdout child);
               err = read_capped OUTPUT_LIMIT (ch_stderr child);
               git' = restore_git checkout (ce_removes X) (ce_links X) (ch_git child git)
           in (sb, git', tr,
               (case ch_exit child of
                  Inl e \<Rightarrow> Inl e
                | Inr exit \<Rightarrow> Inr \<lparr>cko_exit = exit, cko_stdout = to_string_lossy out, cko_stderr = to_string_lossy err\<rparr>))))"

definition dev_shell_env ::
  "CheckEnv \<Rightarrow> CheckSandbox \<Rightarrow> Checkout \<Rightarrow> DevShell \<Rightarrow> GitNode option \<Rightarrow> CheckSandbox \<times> GitNode option \<times> (string \<times> string) list spawned" where
  "dev_shell_env X cs checkout shell git =
     (case require_entry_file (ru_fs X) shell (co_root checkout) of
        Inl e \<Rightarrow> (cs, git, [], Inl e)
      | Inr _ \<Rightarrow>
          (case resolve_program (ru_fs X) ''nix'' of
             Inl e \<Rightarrow> (cs, git, [], Inl e)
           | Inr nix \<Rightarrow>
               (let (name, args) = shell_command shell;
                    spec = (spec_args args (checkout_spec (with_file_name nix name) checkout (cs_shell cs)))\<lparr>sp_network := NetFiltered\<rparr>
                in case spawn_and_capture X (cs_sandbox cs) spec checkout git of
                     (sb, git, tr, Inl e) \<Rightarrow> (cs\<lparr>cs_sandbox := sb\<rparr>, git, tr, Inl e)
                   | (sb, git, tr, Inr out) \<Rightarrow>
                       (cs\<lparr>cs_sandbox := sb\<rparr>, git, tr,
                        (if check_success out then parse_env (cko_stdout out)
                         else case cko_exit out of
                                TimedOut t \<Rightarrow> Inl (name @ '' timed out after '' @ debug_duration t @ '': '' @ cko_stderr out)
                              | Exited _ \<Rightarrow> Inl (name @ '' failed: '' @ cko_stderr out))))))"

definition run_check ::
  "CheckEnv \<Rightarrow> CheckSandbox \<Rightarrow> Checkout \<Rightarrow> string \<Rightarrow> bool \<Rightarrow> (string \<times> string) list \<Rightarrow> GitNode option \<Rightarrow> CheckSandbox \<times> GitNode option \<times> CheckOutput spawned" where
  "run_check X cs checkout command allow_network env git =
     (case shell_program (ru_fs X) of
        Inl e \<Rightarrow> (cs, git, [], Inl e)
      | Inr sh \<Rightarrow>
          (case resolve_program (ru_fs X) ''nix'' of
             Inl e \<Rightarrow> (cs, git, [], Inl e)
           | Inr nix \<Rightarrow>
               (case spawn_and_capture X (cs_sandbox cs) (check_spec (cs_check cs) sh nix checkout command allow_network env) checkout git of
                  (sb, git, tr, r) \<Rightarrow> (cs\<lparr>cs_sandbox := sb\<rparr>, git, tr, r))))"

definition execute_check ::
  "CheckEnv \<Rightarrow> CheckSandbox \<Rightarrow> Checkout \<Rightarrow> string \<Rightarrow> DevShell option \<Rightarrow> bool \<Rightarrow> GitNode option \<Rightarrow> CheckSandbox \<times> GitNode option \<times> CheckOutput spawned" where
  "execute_check X cs checkout command shell allow_network git =
     (case (case shell of
              Some shell \<Rightarrow> dev_shell_env X cs checkout shell git
            | None \<Rightarrow> (cs, git, [], Inr [])) of
        (cs, git, tr, Inl e) \<Rightarrow> (cs, git, tr, Inl (''failed to capture the dev shell environment: '' @ e))
      | (cs, git, tr, Inr env) \<Rightarrow>
          (case run_check X cs checkout command allow_network env git of
             (cs, git, tr', Inl e) \<Rightarrow> (cs, git, tr @ tr', Inl (''failed to run check in sandbox: '' @ e))
           | (cs, git, tr', Inr out) \<Rightarrow> (cs, git, tr @ tr', Inr out)))"

section \<open>Evaluation\<close>

record EvalSandboxConfig =
  ec_timeout :: duration
  ec_memory_limit_mb :: "64 word"
  ec_allowed_uris :: "string list"

definition nix_eval_jobs_args :: "EvalSandboxConfig \<Rightarrow> string \<Rightarrow> string list \<Rightarrow> string list" where
  "nix_eval_jobs_args cfg file roots =
     [''--option'', ''restrict-eval'', ''true'', ''--option'', ''allowed-uris'', join_with '' '' (ec_allowed_uris cfg),
      ''--option'', ''experimental-features'', ''nix-command'',
      ''--max-memory-size'', display_nat (max (unat (ec_memory_limit_mb cfg) div 2) 1)]
     @ concat (map (\<lambda>(i, r). [''-I'', ''ekaci-root-'' @ display_nat i @ ''='' @ r]) (List.enumerate 0 roots))
     @ [''--show-input-drvs'', ''--meta'', file]"

definition readable_root :: "Fs \<Rightarrow> string \<Rightarrow> string" where
  "readable_root fs file =
     (case find (\<lambda>dir. fs_exists fs (path_join dir ''.git'')) (drop 1 (ancestors file)) of
        Some dir \<Rightarrow> dir
      | None \<Rightarrow> file)"

definition eval_roots :: "Fs \<Rightarrow> string \<Rightarrow> string list \<Rightarrow> string list" where
  "eval_roots fs file extra_roots =
     fold (\<lambda>r roots. if list_ex (path_eq r) roots then roots else roots @ [r]) extra_roots [readable_root fs file]"

definition nix_eval_jobs_spec :: "Fs \<Rightarrow> EvalSandboxConfig \<Rightarrow> string \<Rightarrow> string \<Rightarrow> string list \<Rightarrow> SandboxSpec" where
  "nix_eval_jobs_spec fs cfg program file extra_roots =
     (let roots = eval_roots fs file extra_roots;
          spec = (spec_args (nix_eval_jobs_args cfg file roots) (SandboxSpec_new program))
                   \<lparr>sp_network := NetFiltered, sp_timeout := Some (ec_timeout cfg),
                    sp_memory_limit_bytes := Some (saturating_mul (ec_memory_limit_mb cfg) (1024 * 1024))\<rparr>;
          spec = (case find (fs_is_dir fs) roots of Some dir \<Rightarrow> spec\<lparr>sp_cwd := Some dir\<rparr> | None \<Rightarrow> spec)
      in fold spec_ro_path roots spec)"

definition spawn_nix_eval_jobs ::
  "RunnerEnv \<Rightarrow> Sandbox \<Rightarrow> EvalSandboxConfig \<Rightarrow> string \<Rightarrow> string list \<Rightarrow> Sandbox \<times> Child spawned" where
  "spawn_nix_eval_jobs R sb cfg file extra_roots =
     (case resolve_program (ru_fs R) ''nix-eval-jobs'' of
        Inl e \<Rightarrow> (sb, [], Inl e)
      | Inr program \<Rightarrow>
          (case sandbox_spawn R sb (nix_eval_jobs_spec (ru_fs R) cfg program file extra_roots) of
             (sb, tr, Inl e) \<Rightarrow> (sb, tr, Inl (''failed to start sandboxed nix-eval-jobs: '' @ e))
           | (sb, tr, Inr c) \<Rightarrow> (sb, tr, Inr c)))"

end
