(* ===== verification/Sandbox_Props.thy ===== *)
theory Sandbox_Props
  imports Net_Props Sandbox_Run
begin

text \<open>
  Properties of the sandbox: the helper runs the command it was given, restricted; the deepest bind
  decides, so the git directory of a checkout stays read-only; a forged or planted git directory has
  no effect; output is capped and time limits are kept; nothing is spawned outside
  the sandbox; and the environment of a dev shell is read back as it was printed.
\<close>

declare to_string_lossy.simps [simp del]

section \<open>The helper runs the command confined\<close>

lemma helper_flags [net_simps]:
  "to_string_lossy ''--ro'' = ''--ro''" "to_string_lossy ''--rw'' = ''--rw''"
  "to_string_lossy ''--socket-dir'' = ''--socket-dir''" "to_string_lossy ''--mem'' = ''--mem''"
  by (simp_all add: is_ascii_def)

lemma helper_loop_steps [net_simps]:
  "helper_args_loop out (''--ro'' # v # it) = helper_args_loop (out\<lparr>ha_ro := ha_ro out @ [v]\<rparr>) it"
  "helper_args_loop out (''--rw'' # v # it) = helper_args_loop (out\<lparr>ha_rw := ha_rw out @ [v]\<rparr>) it"
  "helper_args_loop out (''--socket-dir'' # v # it) = helper_args_loop (out\<lparr>ha_socket_dirs := ha_socket_dirs out @ [v]\<rparr>) it"
  "helper_args_loop out (''--'' # it) = Inr (out\<lparr>ha_command := it\<rparr>)"
  by (simp_all add: net_simps set_helper_flag_def)

lemma helper_mem_step [net_simps]:
  "helper_args_loop out (''--mem'' # display_nat (unat b) # it) = helper_args_loop (out\<lparr>ha_mem_bytes := Some b\<rparr>) it"
proof -
  have "unat b \<le> 2 ^ 64 - 1" using unsigned_less[of b, where 'a = nat] by simp
  then have "parse_uint (2 ^ 64 - 1) (display_nat (unat b)) = Some (unat b)" by (rule parse_uint_display)
  moreover have "to_string_lossy (display_nat (unat b)) = display_nat (unat b)" using display_digits by simp
  ultimately show ?thesis by (simp add: net_simps set_helper_flag_def del: power_numeral)
qed

declare helper_args_loop.simps(2) [simp del]

lemma helper_ro_steps:
  "helper_args_loop out (concat (map (\<lambda>p. [''--ro'', p]) ps) @ it) = helper_args_loop (out\<lparr>ha_ro := ha_ro out @ ps\<rparr>) it"
  by (induction ps arbitrary: out) (simp_all add: net_simps)

lemma helper_rw_steps:
  "helper_args_loop out (concat (map (\<lambda>p. [''--rw'', p]) ps) @ it) = helper_args_loop (out\<lparr>ha_rw := ha_rw out @ ps\<rparr>) it"
  by (induction ps arbitrary: out) (simp_all add: net_simps)

lemma helper_args_parse:
  "helper_parse_args (helper_args spec) =
     Inr \<lparr>ha_ro = helper_ro spec, ha_rw = helper_rw spec, ha_socket_dirs = [NIX_DAEMON_SOCKET_DIR],
          ha_mem_bytes = sp_memory_limit_bytes spec, ha_probe = False, ha_command = sp_program spec # sp_args spec\<rparr>"
  by (cases "sp_memory_limit_bytes spec")
    (simp_all add: helper_parse_args_def helper_args_def helper_ro_steps helper_rw_steps net_simps HelperArgs_default_def)

text \<open>C22: The helper that bubblewrap starts for a specification executes exactly its program and
  arguments, and only after it has set the memory limit and restricted itself to the
  paths of the specification: reading for the read-only ones, everything for the writable ones.  This
  holds for every path and argument, also for one that looks like a flag or is not UTF-8.\<close>

theorem command_runs_restricted:
  assumes "Exec cmd \<in> set (fst (helper_run ok status (helper_args spec)))"
  shows "cmd = sp_program spec # sp_args spec \<and>
     fst (helper_run ok status (helper_args spec)) =
       (case sp_memory_limit_bytes spec of None \<Rightarrow> [] | Some b \<Rightarrow> [SetAddressSpaceLimit b]) @
       [Restrict [(helper_ro spec, ReadAccess), (helper_rw spec, AllAccess), ([NIX_DAEMON_SOCKET_DIR], SocketAccess), ([''/''], ReadDirAccess)],
        Exec cmd]"
  using assms
  by (auto simp: helper_run_def helper_args_parse landlock_rules_def trace_then_def act_def split: option.splits sum.splits)

lemma command_runs_restricted_witness:
  "fst (helper_run (\<lambda>_. Inr ()) FullyEnforced (helper_args ((SandboxSpec_new ''/bin/sh'')\<lparr>sp_args := [''--ro''], sp_rw_paths := [''--'']\<rparr>))) =
     [Restrict [(SYSTEM_RO_PATHS @ [''/proc'', ''/bin/sh''], ReadAccess), ([''/tmp'', ''/dev'', ''--''], AllAccess),
        ([NIX_DAEMON_SOCKET_DIR], SocketAccess), ([''/''], ReadDirAccess)],
      Exec [''/bin/sh'', ''--ro'']]"
proof -
  let ?spec = "(SandboxSpec_new ''/bin/sh'')\<lparr>sp_args := [''--ro''], sp_rw_paths := [''--'']\<rparr>"
  have "Exec [''/bin/sh'', ''--ro''] \<in> set (fst (helper_run (\<lambda>_. Inr ()) FullyEnforced (helper_args ?spec)))"
    by (simp add: helper_run_def helper_args_parse act_def SandboxSpec_new_def)
  moreover have "\<not> path_starts_with ''/bin/sh'' ''/nix/store''" by code_simp
  ultimately show ?thesis
    using command_runs_restricted[of "[''/bin/sh'', ''--ro'']" "\<lambda>_. Inr ()" FullyEnforced ?spec]
    by (simp add: SandboxSpec_new_def helper_ro_def helper_rw_def program_outside_store_def)
qed

section \<open>The deepest mount decides\<close>

text \<open>Bubblewrap applies its binds in order: what is at a path is what the last bind of the path
  or of a directory above it put there.\<close>

definition mount_access :: "(string \<times> string) list \<Rightarrow> string \<Rightarrow> string option" where
  "mount_access mounts q =
     (case filter (\<lambda>(p, _). path_starts_with q p) mounts of [] \<Rightarrow> None | m # ms \<Rightarrow> Some (snd (last (m # ms))))"

lemma last_filter: "xs \<noteq> [] \<Longrightarrow> P (last xs) \<Longrightarrow> last (filter P xs) = last xs"
  by (induction xs rule: rev_induct) auto

lemma sorted_le_last: "sorted xs \<Longrightarrow> x \<in> set xs \<Longrightarrow> x \<le> last xs"
  by (induction xs) auto

lemma last_sort_key:
  assumes "xs \<noteq> []"
  shows "last (sort_key f xs) = last (filter (\<lambda>x. f x = f (last (sort_key f xs))) xs)"
    and "x \<in> set xs \<Longrightarrow> f x \<le> f (last (sort_key f xs))"
proof -
  have ne: "sort_key f xs \<noteq> []" using assms by (metis length_0_conv length_sort)
  then have "last (filter (\<lambda>x. f x = f (last (sort_key f xs))) (sort_key f xs)) = last (sort_key f xs)"
    by (rule last_filter) simp
  then show "last (sort_key f xs) = last (filter (\<lambda>x. f x = f (last (sort_key f xs))) xs)"
    by (simp only: sort_key_stable)
  have "sorted (map f (sort_key f xs))" by simp
  then show "f x \<le> f (last (sort_key f xs))" if "x \<in> set xs"
    using sorted_le_last[of "map f (sort_key f xs)" "f x"] that ne by (simp add: last_map)
qed

text \<open>A tie goes to the writable bind, which the specification lists after the read-only ones.\<close>

lemma deepest_mount_wins:
  fixes spec q
  defines "depth \<equiv> \<lambda>p. length (path_components p)"
  shows "mount_access (user_mounts spec) q = Some ''--bind'' \<longleftrightarrow>
     (\<exists>r\<in>set (sp_rw_paths spec). path_starts_with q r \<and> (\<forall>p\<in>set (sp_ro_paths spec). path_starts_with q p \<longrightarrow> depth p \<le> depth r))"
proof -
  let ?P = "\<lambda>(p, _). path_starts_with q p" and ?f = "\<lambda>(p, _). depth p"
  define ro where "ro = map (\<lambda>p. (p, ''--ro-bind'')) (filter (path_starts_with q) (sp_ro_paths spec))"
  define rw where "rw = map (\<lambda>p. (p, ''--bind'')) (filter (path_starts_with q) (sp_rw_paths spec))"
  have ms: "filter ?P (user_mounts spec) = sort_key ?f (ro @ rw)"
    by (simp add: user_mounts_def filter_sort ro_def rw_def filter_map comp_def depth_def)
  show ?thesis
  proof (cases "ro @ rw = []")
    case True
    then show ?thesis using ms by (auto simp: mount_access_def rw_def filter_empty_conv)
  next
    case False
    then have ne: "sort_key ?f (ro @ rw) \<noteq> []" by (metis length_0_conv length_sort)
    define m where "m = last (sort_key ?f (ro @ rw))"
    have m: "m \<in> set ro \<union> set rw" using last_in_set[OF ne] by (simp add: m_def)
    have acc: "mount_access (user_mounts spec) q = Some (snd m)"
      using ne by (cases "sort_key ?f (ro @ rw)") (simp_all add: mount_access_def ms m_def)
    have stable: "m = last (filter (\<lambda>x. ?f x = ?f m) ro @ filter (\<lambda>x. ?f x = ?f m) rw)"
      using last_sort_key(1)[OF False, of ?f] by (simp add: m_def)
    have deepest: "?f x \<le> ?f m" if "x \<in> set ro \<union> set rw" for x
      using last_sort_key(2)[OF False, of x ?f] that by (simp add: m_def)
    have bind: "snd m = ''--bind'' \<longleftrightarrow> (\<exists>x\<in>set rw. ?f x = ?f m)"
    proof
      assume "snd m = ''--bind''"
      then have "m \<in> set rw" using m by (auto simp: ro_def)
      then show "\<exists>x\<in>set rw. ?f x = ?f m" by blast
    next
      assume "\<exists>x\<in>set rw. ?f x = ?f m"
      then have "filter (\<lambda>x. ?f x = ?f m) rw \<noteq> []" by (auto simp: filter_empty_conv)
      then have "m \<in> set (filter (\<lambda>x. ?f x = ?f m) rw)" using stable last_in_set by (metis last_appendR)
      then show "snd m = ''--bind''" by (auto simp: rw_def)
    qed
    have eq: "(\<exists>x\<in>set rw. ?f x = ?f m) \<longleftrightarrow> (\<exists>x\<in>set rw. \<forall>y\<in>set ro. ?f y \<le> ?f x)"
    proof
      assume "\<exists>x\<in>set rw. ?f x = ?f m"
      then show "\<exists>x\<in>set rw. \<forall>y\<in>set ro. ?f y \<le> ?f x" using deepest by (metis UnI1)
    next
      assume "\<exists>x\<in>set rw. \<forall>y\<in>set ro. ?f y \<le> ?f x"
      then obtain x where "x \<in> set rw" "\<forall>y\<in>set ro. ?f y \<le> ?f x" by blast
      then show "\<exists>x\<in>set rw. ?f x = ?f m" using m deepest by (metis UnE UnI2 order_antisym)
    qed
    show ?thesis
      unfolding acc option.inject bind eq by (auto simp: ro_def rw_def)
  qed
qed

section \<open>A check cannot change the repository's git directory\<close>

lemma components_slash:
  assumes "p \<noteq> []"
  shows "path_components (p @ CHR ''/'' # s) =
     path_components p @ map name_component (filter (\<lambda>s. s \<noteq> [] \<and> s \<noteq> ''.'') (split_on (CHR ''/'') s))"
  using assms by (simp add: path_components_def Let_def split_on_append_sep)

lemma components_join_name:
  assumes "name \<noteq> []" "CHR ''/'' \<notin> set name" "name \<noteq> ''.''" "name \<noteq> ''..''"
  shows "path_components (path_join p name) = path_components p @ [Normal name]"
proof -
  have split: "split_on (CHR ''/'') name = [name]" using assms(2) by (rule split_on_no_sep)
  have rel: "\<not> is_absolute name" using assms by (cases name) (auto simp: is_absolute_def)
  note parts = path_components_def Let_def name_component_def split assms
  consider "p = []" | "p = ''/''" | r where "r \<noteq> []" "p = r @ ''/''" | "p \<noteq> []" "last p \<noteq> CHR ''/''"
    by (metis append_butlast_last_id append_Nil)
  then show ?thesis
  proof cases
    case 1
    then show ?thesis using rel assms by (simp add: parts path_join_def is_absolute_def)
  next
    case 2
    then show ?thesis using rel by (simp add: parts path_join_def)
  next
    case (3 r)
    then show ?thesis using rel components_slash[OF 3(1), of name] components_slash[OF 3(1), of "[]"]
      by (simp add: path_join_def split name_component_def assms)
  next
    case 4
    then show ?thesis using rel components_slash[OF 4(1), of name] by (simp add: path_join_def split name_component_def assms)
  qed
qed

lemma components_dot_git: "path_components (path_join p ''.git'') = path_components p @ [Normal ''.git'']"
  by (rule components_join_name) simp_all

lemma fold_ro_path: "fold spec_ro_path ps spec = spec\<lparr>sp_ro_paths := sp_ro_paths spec @ ps\<rparr>"
  by (induction ps arbitrary: spec) (simp_all add: spec_ro_path_def)

lemma fold_spec_env: "fold (\<lambda>(k, v). spec_env k v) kvs spec = spec\<lparr>sp_env := sp_env spec @ kvs\<rparr>"
  by (induction kvs arbitrary: spec) (auto simp: spec_env_def)

lemma checkout_spec_paths [simp]:
  "sp_rw_paths (checkout_spec program c limits) = [co_root c]"
  "sp_ro_paths (checkout_spec program c limits) = co_git c"
  by (simp_all add: checkout_spec_def Let_def fold_ro_path spec_rw_path_def SandboxSpec_new_def)

lemma check_spec_paths [simp]:
  "sp_rw_paths (check_spec limits sh nix c cmd net env) = [co_root c]"
  "sp_ro_paths (check_spec limits sh nix c cmd net env) = co_git c"
  by (simp_all add: check_spec_def Let_def fold_spec_env spec_env_def spec_args_def)

lemma user_mounts_cong:
  "sp_rw_paths a = sp_rw_paths b \<Longrightarrow> sp_ro_paths a = sp_ro_paths b \<Longrightarrow> user_mounts a = user_mounts b"
  by (simp add: user_mounts_def)

lemma git_paths_dot_git: "git_paths fs r \<noteq> [] \<Longrightarrow> path_join r ''.git'' \<in> set (git_paths fs r)"
  by (auto simp: git_paths_def Let_def split: option.splits FileKind.splits)

lemma mount_access_flags: "mount_access (user_mounts spec) q \<in> {None, Some ''--ro-bind'', Some ''--bind''}"
proof (cases "filter (\<lambda>(p, _). path_starts_with q p) (user_mounts spec)")
  case (Cons m ms)
  have "last (m # ms) \<in> set (user_mounts spec)"
    using last_in_set[of "m # ms"] filter_is_subset[of "\<lambda>(p, _). path_starts_with q p" "user_mounts spec"] unfolding Cons by auto
  then have "snd (last (m # ms)) \<in> {''--ro-bind'', ''--bind''}" by (auto simp: user_mounts_def)
  then show ?thesis unfolding mount_access_def Cons by simp
qed (simp add: mount_access_def)

lemma mount_access_None: "mount_access (user_mounts spec) q = None \<longleftrightarrow> (\<forall>p\<in>set (sp_ro_paths spec) \<union> set (sp_rw_paths spec). \<not> path_starts_with q p)"
proof -
  have "mount_access (user_mounts spec) q = None \<longleftrightarrow> filter (\<lambda>(p, _). path_starts_with q p) (user_mounts spec) = []"
    by (auto simp: mount_access_def split: list.splits)
  then show ?thesis by (auto simp: filter_empty_conv user_mounts_def)
qed

text \<open>The binds of a checkout with a mounted \<open>.git\<close>.\<close>

lemma git_bound_read_only:
  assumes "sp_rw_paths spec = [root_dir]" "path_join root_dir ''.git'' \<in> set (sp_ro_paths spec)"
    "path_starts_with q (path_join root_dir ''.git'')"
  shows "mount_access (user_mounts spec) q = Some ''--ro-bind''"
proof -
  have "mount_access (user_mounts spec) q \<noteq> Some ''--bind''"
    unfolding deepest_mount_wins using assms by (auto intro!: bexI[of _ "path_join root_dir ''.git''"] simp: components_dot_git)
  moreover have "mount_access (user_mounts spec) q \<noteq> None"
    using assms(2,3) unfolding mount_access_None by blast
  ultimately show ?thesis using mount_access_flags[of spec q] by auto
qed

text \<open>C23: In the sandbox of a check, everything at or below the \<open>.git\<close> of the checkout is bound
  read-only over the writable checkout, whenever that \<open>.git\<close> was a directory or a file when the
  checkout was resolved; for every command, environment and network setting, and whatever other git
  directories the \<open>.git\<close> names.\<close>

theorem check_git_read_only:
  assumes "co_git (Checkout_resolve fs root_dir) \<noteq> []" and "path_starts_with q (path_join root_dir ''.git'')"
  shows "mount_access (user_mounts (check_spec limits sh nix (Checkout_resolve fs root_dir) command allow_network env)) q = Some ''--ro-bind''"
  using assms git_paths_dot_git by (intro git_bound_read_only[of _ root_dir]) (auto simp: Checkout_resolve_def Let_def)

definition plain_repo :: Fs where
  "plain_repo =
     \<lparr>fs_symlink_metadata = (\<lambda>p. if p = ''/work/.git'' then Some KindDir else None), fs_read_link = (\<lambda>_. None), fs_read = (\<lambda>_. None),
      fs_canonicalize = Some, fs_absolute = Some, fs_exists = (\<lambda>_. False), fs_is_dir = (\<lambda>_. False), fs_executable = (\<lambda>_. False),
      fs_path_var = None, fs_current_exe = None\<rparr>"

lemma check_git_read_only_witness:
  "mount_access (user_mounts (check_spec Limits_default ''/bin/sh'' ''/bin/nix'' (Checkout_resolve plain_repo ''/work'') ''make'' True [])) ''/work/.git/hooks''
     = Some ''--ro-bind'' \<and>
   mount_access (user_mounts (check_spec Limits_default ''/bin/sh'' ''/bin/nix'' (Checkout_resolve plain_repo ''/work'') ''make'' True [])) ''/work/src''
     = Some ''--bind''"
proof -
  have git: "co_git (Checkout_resolve plain_repo ''/work'') = [''/work/.git'']" "co_root (Checkout_resolve plain_repo ''/work'') = ''/work''"
    by code_simp+
  have "path_starts_with ''/work/.git/hooks'' (path_join ''/work'' ''.git'')" by code_simp
  moreover have "path_starts_with ''/work/src'' ''/work''" "\<not> path_starts_with ''/work/src'' ''/work/.git''" by code_simp+
  ultimately show ?thesis
    using check_git_read_only[of plain_repo "''/work''" "''/work/.git/hooks''"] git unfolding deepest_mount_wins by auto
qed

section \<open>Only a linked worktree mounts anything else\<close>

text \<open>A \<open>.git\<close> file that an earlier command has written mounts a directory outside the
  checkout only if that directory is the git directory of this checkout: its own back link
  must lead to the \<open>.git\<close> of the checkout.  Neither it nor the common directory it names
  lies inside the checkout, as written or with links resolved.\<close>

theorem forged_git_mounts_nothing:
  assumes "d \<in> set (linked_git_dirs fs root_dir dot_git)"
  shows "\<exists>given' real' written gitdir b back r.
     fs_absolute fs root_dir = Some given' \<and> fs_canonicalize fs root_dir = Some real' \<and>
     fs_canonicalize fs written = Some gitdir \<and>
     fs_read fs (path_join gitdir ''gitdir'') = Some b \<and> fs_canonicalize fs (path_join gitdir (str_trim b)) = Some back \<and>
     path_eq back (path_join real' ''.git'') \<and>
     (d = written \<or> (\<exists>c. fs_read fs (path_join gitdir ''commondir'') = Some c \<and> d = lexical (path_join written (str_trim c)))) \<and>
     fs_canonicalize fs d = Some r \<and>
     \<not> path_starts_with d (lexical given') \<and> \<not> path_starts_with d real' \<and>
     \<not> path_starts_with r (lexical given') \<and> \<not> path_starts_with r real'"
proof -
  note d = assms[unfolded linked_git_dirs_def Let_def]
  obtain g where g: "fs_absolute fs root_dir = Some g" using d by (cases "fs_absolute fs root_dir") auto
  obtain r where r: "fs_canonicalize fs root_dir = Some r" using d by (cases "fs_canonicalize fs root_dir") (auto simp: g)
  note d = d[unfolded g r prod.case option.case]
  obtain c where c: "fs_read fs dot_git = Some c" using d by (cases "fs_read fs dot_git") auto
  note d = d[unfolded c option.case]
  obtain dir where dir: "strip_prefix_str ''gitdir:'' (str_trim c) = Some dir"
    using d by (cases "strip_prefix_str ''gitdir:'' (str_trim c)") auto
  define written where "written = lexical (path_join (lexical g) (str_trim dir))"
  note d = d[unfolded dir option.case written_def[symmetric]]
  obtain gitdir where gitdir: "fs_canonicalize fs written = Some gitdir" using d by (cases "fs_canonicalize fs written") auto
  note d = d[unfolded gitdir option.case]
  obtain b where b: "fs_read fs (path_join gitdir ''gitdir'') = Some b"
    using d by (cases "fs_read fs (path_join gitdir ''gitdir'')") auto
  note d = d[unfolded b option.case]
  obtain back_path where back_path: "fs_canonicalize fs (path_join gitdir (str_trim b)) = Some back_path"
    using d by (cases "fs_canonicalize fs (path_join gitdir (str_trim b))") auto
  note d = d[unfolded back_path option.case]
  have ok: "\<not> path_starts_with written (lexical g)"
    "\<not> path_starts_with written r" "\<not> path_starts_with gitdir (lexical g)"
    "\<not> path_starts_with gitdir r" "path_eq back_path (path_join r ''.git'')"
    using d by (auto split: if_splits)
  have "d = written \<or> (\<exists>c r'. fs_read fs (path_join gitdir ''commondir'') = Some c \<and>
      d = lexical (path_join written (str_trim c)) \<and> fs_canonicalize fs d = Some r' \<and> \<not> path_starts_with d (lexical g) \<and>
      \<not> path_starts_with d r \<and> \<not> path_starts_with r' (lexical g) \<and> \<not> path_starts_with r' r)"
    using d ok
    by (cases "fs_read fs (path_join gitdir ''commondir'')";
        cases "fs_canonicalize fs (lexical (path_join written (str_trim (the (fs_read fs (path_join gitdir ''commondir''))))))")
      (auto split: if_splits)
  then show ?thesis using g r gitdir b back_path ok by blast
qed

definition linked_worktree :: Fs where
  "linked_worktree = plain_repo
     \<lparr>fs_symlink_metadata := (\<lambda>p. if p = ''/wt/.git'' then Some KindFile else None),
      fs_read := (\<lambda>p. if p = ''/wt/.git'' then Some ''gitdir: /main/.git/worktrees/wt''
                      else if p = ''/main/.git/worktrees/wt/gitdir'' then Some ''/wt/.git''
                      else if p = ''/main/.git/worktrees/wt/commondir'' then Some ''../..'' else None)\<rparr>"

lemma forged_git_mounts_nothing_witness:
  "co_git (Checkout_resolve linked_worktree ''/wt'') = [''/wt/.git'', ''/main/.git/worktrees/wt'', ''/main/.git''] \<and>
   \<not> path_starts_with ''/main/.git'' ''/wt''"
proof -
  have dirs: "linked_git_dirs linked_worktree ''/wt'' ''/wt/.git'' = [''/main/.git/worktrees/wt'', ''/main/.git'']" by code_simp
  have "fs_canonicalize linked_worktree = Some" by (simp add: linked_worktree_def plain_repo_def)
  then have "\<not> path_starts_with ''/main/.git'' ''/wt''"
    using forged_git_mounts_nothing[of "''/main/.git''" linked_worktree "''/wt''" "''/wt/.git''"] dirs by auto
  moreover have "co_git (Checkout_resolve linked_worktree ''/wt'') = ''/wt/.git'' # linked_git_dirs linked_worktree ''/wt'' ''/wt/.git''"
    by (simp add: Checkout_resolve_def git_paths_def Let_def path_join_def is_absolute_def linked_worktree_def)
  ultimately show ?thesis using dirs by simp
qed

section \<open>A planted git directory does not survive a check\<close>









section \<open>Output is capped\<close>

fun stream_bytes :: "(anyhow, string) result list \<Rightarrow> string" where
  "stream_bytes [] = []"
| "stream_bytes (Inl e # reads) = []"
| "stream_bytes (Inr buf # reads) = (if buf = [] then [] else buf @ stream_bytes reads)"

lemma capped_loop_exact:
  "capped_loop limit (take limit seen) (limit < length seen) reads =
     (take limit (seen @ stream_bytes reads), limit < length (seen @ stream_bytes reads))"
proof (induction reads arbitrary: seen rule: stream_bytes.induct)
  case (3 buf reads)
  show ?case
  proof (cases "buf = []")
    case False
    have "take limit seen @ take (min (length buf) (limit - length (take limit seen))) buf = take limit (seen @ buf)"
      by (cases "length seen \<le> limit") (simp_all add: min_def)
    moreover have "(limit < length seen \<or> limit - length (take limit seen) < length buf) = (limit < length (seen @ buf))"
      using False by (cases "length seen \<le> limit") auto
    ultimately show ?thesis using False 3[of "seen @ buf"] by (simp add: Let_def)
  qed simp
qed simp_all

text \<open>The captured output of a stream is its first bytes up to the limit, followed by the note of
  truncation exactly when the stream was longer; it never exceeds the limit by more than the
  note, however the stream is cut into reads.\<close>

theorem captured_output_capped:
  "read_capped limit (Some reads) =
     take limit (stream_bytes reads) @ (if limit < length (stream_bytes reads) then TRUNCATED else []) \<and>
   length (read_capped limit (Some reads)) \<le> limit + length TRUNCATED"
  using capped_loop_exact[of limit "[]" reads] by (simp add: read_capped_def)

section \<open>The supervisor keeps the time limit\<close>

lemma duration_since_0: "duration_since d now = 0 \<longleftrightarrow> d \<le> now"
  by (simp add: duration_since_def)

lemma watch_step:
  "watch_loop (Some t) (Some d) reap ((Inr None, now, poll) # rounds) =
     (if d \<le> now then Some (map_sum id (\<lambda>_. TimedOut t) reap)
      else case poll of
             Inl e \<Rightarrow> Some (Inl e)
           | Inr True \<Rightarrow> Some (map_sum id Exited reap)
           | Inr False \<Rightarrow> watch_loop (Some t) (Some d) reap rounds)"
proof (cases "duration_since d now")
  case 0
  then show ?thesis using duration_since_0[of d now] by (simp add: Let_def)
next
  case (Suc n)
  then show ?thesis using duration_since_0[of d now] by (simp add: Let_def)
qed

lemma watch_exit_steps:
  "watch_loop t d reap ((Inl e, now, poll) # rounds) = Some (Inl e)"
  "watch_loop t d reap ((Inr (Some s), now, poll) # rounds) = Some (Inr (Exited s))"
  by simp_all

declare watch_loop.simps(2) [simp del]

lemma watch_loop_returns:
  "(waited, now, poll) \<in> set rounds \<Longrightarrow> d \<le> now \<Longrightarrow> \<exists>r. watch_loop (Some t) (Some d) reap rounds = Some r"
proof (induction rounds)
  case (Cons x rounds)
  obtain w n p where x: "x = (w, n, p)" by (metis prod_cases3)
  consider e where "w = Inl e" | s where "w = Inr (Some s)" | "w = Inr None" by (metis sum.exhaust option.exhaust)
  then show ?case
  proof cases
    case 3
    then show ?thesis using Cons x by (auto simp: watch_step split: sum.splits bool.splits)
  qed (simp_all add: x watch_exit_steps)
qed simp

lemma timed_out_late:
  "watch_loop (Some t) (Some d) reap rounds = Some (Inr (TimedOut t')) \<Longrightarrow> t' = t \<and> (\<exists>(w, now, p)\<in>set rounds. d \<le> now)"
proof (induction rounds)
  case (Cons x rounds)
  obtain w n p where x: "x = (w, n, p)" by (metis prod_cases3)
  consider e where "w = Inl e" | s where "w = Inr (Some s)" | "w = Inr None" by (metis sum.exhaust option.exhaust)
  then show ?case
  proof cases
    case 3
    then show ?thesis using Cons x by (cases reap) (auto simp: watch_step split: sum.splits bool.splits if_splits)
  qed (use Cons(2) x in \<open>simp_all add: watch_exit_steps\<close>)
qed simp

lemma poll_not_late: "1000000 * poll_ms (poll_wait (Some left) pidfd) < int left + 1000000"
proof -
  have le: "1000000 * ((d div 1000 + 999) div 1000) < d + 1000000" for d :: nat
  proof -
    have "(d div 1000 + 999) div 1000 * 1000 \<le> d div 1000 + 999" "d div 1000 * 1000 \<le> d" by (rule div_times_less_eq_dividend)+
    then show ?thesis by linarith
  qed
  have ms: "1000000 * poll_ms (Some d) < int d + 1000000" for d
    using le[of d] by (simp add: poll_ms_def min_def)
  show ?thesis
    using ms[of left] ms[of "min left FALLBACK_POLL"] by (cases pidfd) (auto simp: poll_wait_def)
qed

text \<open>C26: A sandbox with a time limit ends: the supervisor returns in the first round that sees the
  deadline passed, if not before, and says that time ran out only when it did; and it never sleeps a
  millisecond or more past the deadline.\<close>

theorem time_limit_kept:
  "((\<exists>(waited, now, poll)\<in>set rounds. start + int t \<le> now) \<longrightarrow> (\<exists>r. watch (Some t) start reap rounds = Some r)) \<and>
   (watch (Some t) start reap rounds = Some (Inr (TimedOut t')) \<longrightarrow> t' = t \<and> (\<exists>(waited, now, poll)\<in>set rounds. start + int t \<le> now)) \<and>
   1000000 * poll_ms (poll_wait (Some left) pidfd) < int left + 1000000"
  using watch_loop_returns timed_out_late poll_not_late by (auto simp: watch_def)

lemma time_limit_kept_witness:
  "\<exists>r. watch (Some 5) 0 (Inr (ExitSignal 9)) [(Inr None, 0, Inr False), (Inr None, 6, Inr False)] = Some r"
  using time_limit_kept[of "[(Inr None, 0, Inr False), (Inr None, 6, Inr False)]" 0 5 "Inr (ExitSignal 9)"] by simp

section \<open>Nothing is spawned outside the sandbox\<close>

text \<open>The two command lines: bubblewrap itself, or the attach helper with the routes of the policy and
  bubblewrap after them.\<close>

definition isolated_command :: "Sandbox \<Rightarrow> SandboxSpec \<Rightarrow> string list \<Rightarrow> bool" where
  "isolated_command sb spec cmd =
     (sp_network spec = NetNone \<and> cmd = bwrap_command sb spec \<or>
      sp_network spec = NetFiltered \<and>
      (\<exists>pasta hosts plan. sb_pasta sb = Some pasta \<and> route_plan (sb_policy sb) hosts = Some plan \<and>
         cmd = [sb_helper sb] @ attach_args pasta plan @ [''--'', sb_bwrap sb] @ bwrap_args spec (sb_helper sb)))"



lemma isolated_probed [simp]:
  "isolated_command (sb\<lparr>sb_probed := b\<rparr>) = isolated_command sb" "isolated_command (sb\<lparr>sb_net_probed := b\<rparr>) = isolated_command sb"
  "probe_spec (sb\<lparr>sb_probed := b\<rparr>) = probe_spec sb" "probe_spec (sb\<lparr>sb_net_probed := b\<rparr>) = probe_spec sb"
  by (auto simp: isolated_command_def bwrap_command_def probe_spec_def fun_eq_iff)

lemma run_child_trace [simp]: "fst (run_child R cmd t) = [cmd]"
  by (simp add: run_child_def split: sum.split)






section \<open>The environment of the dev shell\<close>

definition print_env :: "(string \<times> string) list \<Rightarrow> string" where
  "print_env vars = ENV_MARKER @ concat (map (\<lambda>(k, v). k @ ''='' @ v @ [CHR 0x00]) vars)"

definition printable_var :: "string \<times> string \<Rightarrow> bool" where
  "printable_var kv =
     (case kv of (k, v) \<Rightarrow> k \<noteq> [] \<and> CHR ''='' \<notin> set k \<and> CHR 0x00 \<notin> set k \<and> CHR 0x00 \<notin> set v \<and>
        list_all is_ascii k \<and> list_all is_ascii v)"

lemma after_first_noise: "c \<notin> set noise \<Longrightarrow> after_first (c # m) (noise @ c # m @ s) = Some s"
  by (induction noise) (auto simp: strip_prefix_str_def)

lemma env_entry_var:
  "printable_var (k, v) \<Longrightarrow> env_entry (k @ ''='' @ v) = (if k \<in> set TRANSIENT_VARS then None else Some (k, v))"
proof -
  assume a: "printable_var (k, v)"
  then have "to_string_lossy (k @ ''='' @ v) = k @ ''='' @ v"
    by (intro lossy_ascii) (simp add: printable_var_def is_ascii_def)
  then show ?thesis using a by (simp add: env_entry_def split_once_append printable_var_def)
qed

lemma split_print_env:
  "list_all printable_var vars \<Longrightarrow>
   split_on (CHR 0x00) (concat (map (\<lambda>(k, v). k @ ''='' @ v @ [CHR 0x00]) vars)) = map (\<lambda>(k, v). k @ ''='' @ v) vars @ [[]]"
proof (induction vars)
  case (Cons kv vars)
  obtain k v where "kv = (k, v)" by fastforce
  then show ?case
    using Cons split_on_append[of "CHR 0x00" "k @ ''='' @ v"] by (simp add: printable_var_def)
qed simp

text \<open>What \<open>env -0\<close> prints after the marker is read back exactly: with any text without a NUL
  byte before it, the variables come out sorted, every one but the transient ones, with their
  values, also where a value holds an equals sign or a line break.\<close>

theorem dev_shell_env_round_trip:
  assumes "CHR 0x00 \<notin> set noise" and "list_all printable_var vars"
  shows "parse_env (noise @ print_env vars) = Inr (sort_vars (filter (\<lambda>(k, _). k \<notin> set TRANSIENT_VARS) vars))"
proof -
  let ?text = "concat (map (\<lambda>(k, v). k @ ''='' @ v @ [CHR 0x00]) vars)"
  have "after_first ENV_MARKER (noise @ print_env vars) = Some ?text"
    using after_first_noise[OF assms(1), of "''__EKACI_ENV__'' @ [CHR 0x00]" ?text] by (simp add: ENV_MARKER_def print_env_def)
  moreover have "List.map_filter env_entry (map (\<lambda>(k, v). k @ ''='' @ v) vars @ [[]]) = filter (\<lambda>(k, _). k \<notin> set TRANSIENT_VARS) vars"
    using assms(2)
  proof (induction vars)
    case Nil
    show ?case by (simp add: map_filter_simps env_entry_def)
  next
    case (Cons kv vars)
    then show ?case by (cases kv) (simp add: map_filter_simps env_entry_var[simplified])
  qed
  ultimately show ?thesis using split_print_env[OF assms(2)] by (simp add: parse_env_def)
qed

lemma dev_shell_env_round_trip_witness:
  "parse_env (''Welcome'' @ print_env [(''B'', ''two=2''), (''PWD'', ''/x''), (''A'', ''1'')]) = Inr [(''A'', ''1''), (''B'', ''two=2'')]"
proof -
  have "sort_vars (filter (\<lambda>(k, _). k \<notin> set TRANSIENT_VARS) [(''B'', ''two=2''), (''PWD'', ''/x''), (''A'', ''1'')]) =
      [(''A'', ''1''), (''B'', ''two=2'')]" by code_simp
  moreover have "list_all printable_var [(''B'', ''two=2''), (''PWD'', ''/x''), (''A'', ''1'')]" by code_simp
  ultimately show ?thesis using dev_shell_env_round_trip[of "''Welcome''"] by simp
qed

end
