(* ===== verification/Spec2Isabelle.thy ===== *)
theory Spec2Isabelle
  imports Substitution Task_Journal Channel_Props Forge_Props Check_Props Ci_Props Hook_Props Sandbox_Props
begin

text \<open>
  A verification development for the build server of eka-ci, a continuous
  integration system for Nix.  Paths are relative to \<open>src/backend/\<close>.

  \<^bold>\<open>The program.\<close>  Evaluation of a repository yields derivations (drvs), each
  with a build state and references to other drvs.  A graph service keeps them
  in a bounded cache, answers whether a drv can be built, and propagates
  failures to everything that depends on a failed drv; the tables of a database
  are behind it.  A scheduler moves drvs through three tasks: ingress decides
  whether a drv can be built and sends it on, the build queue sorts requests by
  platform and hands them to builders, and the recorder stores each result and
  asks ingress to look at the drvs that may have become buildable.  Tasks talk
  through bounded channels, share a read-only view of the graph, and, for remote
  builders, a registry of circuit breakers.  A journal keeps the tasks of a service
  across restarts.  When all jobs of a commit have finished, the recorder tells the
  channel service, which may move a release branch to that commit, and the service of
  the forge, which may merge the pull request whose head it is.

  \<^bold>\<open>Theories, in the order of the calls.\<close>
  \<^item> \<open>Prelude\<close>, \<open>Channel\<close>, \<open>Search\<close>: strings, hash sets, durations, bounded
    channels, and the breadth-first search that several parts of the program
    repeat, with its termination and exactness.
  \<^item> \<open>Build_State\<close>: the build states of \<open>shared/src/types/build_state.rs\<close> and of
    the database layer (\<open>server/src/db/model/build_event.rs\<close>), their predicates,
    text forms, byte codes (as 8-bit words) and conversions.
  \<^item> \<open>Drv_Id\<close>: derivation identifiers, both parsers of them
    (\<open>shared/src/types/drv_id.rs\<close>, \<open>server/src/db/model/drv_id.rs\<close>).
  \<^item> \<open>Lru_Cache\<close>: the interface of the cache library as a locale
    (\<open>lru_cache\<close>: what lookups return after a push, a poke or a pop, and that a
    push to a full cache gives up one entry), with a list implementation that
    meets it.
  \<^item> \<open>Build_Graph\<close>, \<open>Graph_Props\<close>: \<open>graph/src/graph.rs\<close> over any such cache:
    nodes, edges, the index by state, pinning, failure propagation and its
    undoing, searches, loading from a database.  The locale \<open>graph_lru\<close> carries
    the lemmas; the properties hold for every cache that meets the interface.
  \<^item> \<open>Eviction\<close>: \<open>graph/src/eviction.rs\<close> and the dry-run check of
    \<open>graph/src/service/metrics.rs\<close>.
  \<^item> \<open>Graph_Service\<close>, \<open>Service_Props\<close>: \<open>graph/src/service/\<close>, the actor with its
    commands, the shared view, reference counts and maintenance.  The locale
    \<open>graph_db\<close> states what the service needs of a database, \<open>graph_service\<close> joins
    it with the cache and shows that the view mirrors the graph.
  \<^item> \<open>Database\<close>: the tables and queries of \<open>server/src/db/model/drv/queries.rs\<close>
    and the adapter \<open>server/src/db/graph_impl.rs\<close>; it interprets \<open>graph_db\<close> and
    \<open>graph_service\<close>.
  \<^item> \<open>Circuit_Breaker\<close>: \<open>server/src/scheduler/build/circuit_breaker.rs\<close>, as
    atomic sections of interleaved threads.
  \<^item> \<open>Build_Queue\<close>, \<open>Build_Pool\<close>: \<open>server/src/scheduler/build.rs\<close>,
    \<open>build/queue.rs\<close>, \<open>build/system_queue.rs\<close>: accumulation by platform, dispatch,
    the orphan check, routing, and the loop that picks a builder.
  \<^item> \<open>Recorder\<close>, \<open>Ingress\<close>, \<open>Scheduler_Props\<close>: \<open>server/src/scheduler/recorder/\<close>,
    \<open>scheduler/ingress.rs\<close>, \<open>scheduler/build/builder_thread.rs\<close>: what a result
    does to database, graph, view and queues, when a drv is sent to be built, how a
    build is started, watched and reported.
  \<^item> \<open>Substitution\<close>: the substitution checks of \<open>scheduler/ingress.rs\<close> and the parser of
    the dry run they use.
  \<^item> \<open>Task_Journal\<close>: \<open>server/src/services/task_journal.rs\<close> and the loop of a worker over
    it, with crashes.
  \<^item> \<open>Release_Channel\<close>, \<open>Channel_Service\<close>, \<open>Channel_Props\<close>: the configuration of release
    channels (\<open>server/src/config.rs\<close>), their lookup, coalescer, evaluator and service
    (\<open>server/src/channels/\<close>), their table (\<open>server/src/db/channels.rs\<close>) and the push
    webhook.
  \<^item> \<open>Comment_Command\<close>, \<open>Permissions\<close>: the parsers of merge commands in comments and their
    rate limit (\<open>webhook/comment_command.rs\<close> of each forge), the permissions of caches and
    GitHub apps, path containment and webhook signatures.
  \<^item> \<open>Auto_Merge\<close>, \<open>Forge_Events\<close>, \<open>Merge_Props\<close>: the shared eligibility rules
    (\<open>server/src/auto_merge/mod.rs\<close>), the evaluator and the merge commands of GitHub
    (\<open>server/src/github/service/auto_merge/\<close>) with their queries, the webhooks, the
    notifications of the recorder (\<open>recorder/forge_notify.rs\<close>) and the web handlers
    (\<open>server/src/web/pull_requests.rs\<close>) around them.
  \<^item> \<open>Merge_Evaluator\<close>, \<open>Forge_Merge\<close>, \<open>Forge_Props\<close>: the contract of an eligibility
    evaluator as a locale; the evaluators, commands, queries and webhooks of Gitea and
    GitLab (\<open>server/src/gitea/\<close>, \<open>server/src/gitlab/\<close>, \<open>server/src/db/gitea.rs\<close>,
    \<open>server/src/db/gitlab.rs\<close>), which the locale \<open>forge_methods\<close> treats alike; and the
    interpretation of the contract by all three forges.
  \<^item> \<open>Package_Name\<close>, \<open>Classify\<close>, \<open>Summary_Render\<close>, \<open>Rebuild_Impact\<close>, \<open>Change_Summary\<close>:
    the crate \<open>change_summary\<close> (names and versions, classification of package changes,
    rendering, rebuild impact with its cache, the builder) and the server around it
    (\<open>server/src/change_summary_compat.rs\<close>, the handlers of \<open>web/repositories.rs\<close>, the
    posting on each forge).  The locale \<open>impact_graph\<close> is what the impact analysis needs of
    the graph service, which meets it as a sublocale of \<open>graph_service\<close>.
  \<^item> \<open>Jobsets\<close>, \<open>Jobset_Props\<close>: the drvs of an evaluation
    (\<open>evaluator/src/types/nix_eval_jobs.rs\<close>), the tables of jobsets and jobs
    (\<open>server/src/db/github/jobsets.rs\<close>, \<open>db/service.rs\<close>) with the comparison against the base
    commit, the grouping of attributes into gates (\<open>github/service/jobsets.rs\<close>) and the
    choice of directly changed packages (\<open>passthru_filter.rs\<close>).
  \<^item> \<open>Check_Runs\<close>, \<open>Check_Props\<close>: the check runs of GitHub, from their table
    (\<open>db/github/check_runs.rs\<close>) to their creation, update, cancellation and batched mutations
    (\<open>github/service/\<close>), the creation of a whole jobset, and jobsets of the other forges.
  \<^item> \<open>Ci_Config\<close>, \<open>Repo_Reader\<close>, \<open>Check_Exec\<close>, \<open>Ci_Props\<close>: the configuration file of a
    repository with its unknown keys (crate \<open>ci_config\<close>, \<open>server/src/ci/\<close>), the reader that turns it
    into jobs, checks and gates, the tables of checks after the migrations, the execution of
    checks and skills with their verdicts, and the gate of the configuration on GitHub.  The
    locale \<open>config_invariant\<close> states what the steps of these services keep of their shared
    state; three services interpret it.
  \<^item> \<open>Hooks\<close>, \<open>Hook_Props\<close>: hooks after a build (\<open>server/src/hooks/\<close>,
    \<open>recorder/hooks.rs\<close>, \<open>db/hooks.rs\<close>): variables in arguments, the command, pushes to caches and the
    table of results.
  \<^item> \<open>Sandbox_Net\<close>, \<open>Net_Props\<close>: the network of a sandbox (\<open>sandbox/src/net/\<close>): ranges of
    addresses as 32-bit words, the plan of routes, netlink messages, and the two helper processes
    as operations that return a trace of their effects.
  \<^item> \<open>Sandbox\<close>, \<open>Sandbox_Run\<close>, \<open>Sandbox_Props\<close>: the rest of \<open>sandbox/src/\<close>: specification and command line
    of bubblewrap, the helper inside, checkouts and their git directories, dev shells,
    supervision, captured output, checks and evaluation.

  \<^bold>\<open>How the code corresponds.\<close>  A struct is a record, an enum a datatype, a
  \<open>Result\<close> a sum with the error on the left.  A method is a function that takes the
  state and returns the new one; names are those of the code, with a prefix where
  several parts use the same name (\<open>q_\<close> for queries, \<open>op_\<close> for the service's
  operations, \<open>handle_\<close> for command handlers and the handle, \<open>bq_\<close>, \<open>pq_\<close> for the
  queues).  A hash map is an association list with distinct keys where its order of
  iteration can be seen, a partial function otherwise.  Clock readings are
  arguments.  Concurrency is explicit: the tasks around a channel or the threads
  around the breakers are step relations (\<open>cb_step\<close>, \<open>poll_step\<close>, \<open>pool_step\<close>), and
  the properties hold for all their interleavings.  The cache library, \<open>nix\<close> and
  the network are parameters.

  \<^bold>\<open>What is shown.\<close>
  \<^item> Graph: propagation blocks exactly the transitive dependents, clearing undoes
    it, the searches stop and are exact, the invariant of cache, index and
    failure records holds in every reachable graph, a restart recovers the
    failures.
  \<^item> Service and database: the lock-free view answers as the graph does after any
    run of commands; re-insertion keeps a stored row; the recursive query is the
    transitive closure; identifiers and state codes round-trip.
  \<^item> Eviction: the tiers select a prefix of one ranking; the dry run never reports
    a referenced node.
  \<^item> Build queue and pools: no request of a served platform is lost, duplicated or
    reordered; requests reach only builders with their features; the routing cases
    are one rule.
  \<^item> Breakers: bounds of the backoff, the tripping rule, no breaker without a way
    out of the half-open state.
  \<^item> Scheduler: a success is stored and releases its dependents, late results do
    not disturb finished drvs, only ready drvs are sent, builds end by their
    deadlines; a substituted drv marks exactly its closure.
  \<^item> Journal: a task that was accepted is run at least once, crashes included.
  \<^item> Release channels: a branch moves only to a commit whose required jobs succeeded; a
    channel evaluates one commit at a time and decides each once; no push is lost while
    the service runs; a configuration is accepted exactly under the documented rules.
  \<^item> Merging: a pull request is merged only through all gates; a command needs its
    authority; the evaluators of all forges implement the shared rules; the columns of a request are
    set together; a green head is always checked; with approval required, unapproved code
    is not checked out; commands survive printing and parsing; the pruned rate limiter
    is equivalent to one that forgets nothing.
  \<^item> Change summary: each attribute gets exactly the entries its rows call for; the
    rendering fits the limits and drops as little as it can; counts, radii and rankings of
    the rebuild impact are exact; the entry points agree; panics come only from texts cut
    inside a character.
  \<^item> Jobsets and check runs: a jobset gets exactly the new and changed packages; gates
    partition them and stand before the builds are requested; a gate shows success exactly
    when all its drvs succeeded; a batched text is read back or not readable at all; the two
    ways of an update agree but for blocked drvs; cancelling goes by drv.
  \<^item> Configuration and checks: exactly the keys without a meaning are reported; a job reads no
    file outside its repository; the gate of the configuration is opened once and settled
    once; requests to GitHub are retried within their limits.
  \<^item> Hooks: variables are filled in exactly once; a hook starts only the command it
    names; builds are pushed only to caches the repository may use.
  \<^item> Sandbox: an address can be reached exactly when the longest range that holds it is an allowed
    one; the routes of the server reach the kernel unchanged and the sandbox is
    blocked until they have; only the given command runs, restricted to the given paths; the
    git directory of a checkout stays read-only or is restored; nothing is spawned
    outside; output is capped, time limits are kept, and the printed environment is read
    back.
  \<^item> Where the code does not do what it means to, the behaviour is a theorem too: the
    retry budget that is never spent, a pool that stops when it finds no candidate,
    the breaker that is never armed again, the failure that is lost when a queue is
    full, the preference for local builds that is dropped, eviction of pinned nodes,
    the index after re-insertion, the stored state after clearing, a channel that a failed
    push blocks for ever, a service that waits for its own full queue, a rejected push that
    counts as promoted, a merge that is not pinned to the commit that was checked, a
    head that one of its jobsets vouches for, merges on Gitea and GitLab that are gated by
    the jobs of GitHub, and an authority that a user of another forge inherits with an
    equal number, a cache that ignores the limit of the request, a safety net that
    pushes a summary over the limit, unchanged packages that are reported as removed,
    jobs of GitLab and Gitea that are filed under jobsets of GitHub, checks that no configuration can
    start and verdicts that are not reported, results of hooks that are never stored, and outputs that are
    pushed as one path.

  \<^bold>\<open>Bounds and loops.\<close>  No fuel is used.  The searches are \<open>while\<close> loops with
  proofs that they stop when the cache or the tables are finite, which they are;
  the other loops are structural recursion over the queue or list they walk.  A loop that polls the
  system walks the list of what it observes, and a result of \<^const>\<open>None\<close> says that it still waits at
  its end.  The
  endless service loops are step relations or runs over a list of commands.
  Counters that can wrap are words; memory estimates and sizes are unbounded
  naturals and integers.

  \<^bold>\<open>What is not modelled.\<close>  Failures of the database engine and shutdown; metrics
  and logging; what \<open>nix\<close>, \<open>git\<close>, bubblewrap, pasta and the kernel do, which enter as arguments with the
  results the code sees; commit statuses and merge queues; logins and tokens; the HTTP
  clients of the forges, which only build requests and decode answers; the rest of the web
  interface, the client and the frontend.  The start-up of the scheduler and the rebuild requests
  of ingress are left out because they only wire the modelled parts together, and the
  validation of the server configuration beyond channels and caches because it is a list of independent
  checks on text.  A handler is one step, although other tasks may run while it waits.  The
  schema of the merge queries has a column and a table that no migration creates
  (see \<open>Auto_Merge\<close>).
\<close>

end
